(* ===== verification/Kenogram_Prelude.thy ===== *)
theory Kenogram_Prelude
  imports Main "HOL-Library.Word" "HOL-Library.Char_ord" "HOL-Library.List_Lexorder"
    "HOL-Library.Sublist" "HOL-Library.AList" "HOL-Library.Code_Target_Numeral"
begin

text \<open>
  Shared vocabulary of the development: results of fallible Go functions, the byte strings of Go
  with the functions of the packages \<^verbatim>\<open>strings\<close> and \<^verbatim>\<open>bytes\<close> that the sources call, and the
  generic facts about lists and results that the component theories use.

  A Go \<^verbatim>\<open>string\<close> or \<^verbatim>\<open>[]byte\<close> is a list of bytes, that is an Isabelle \<^typ>\<open>string\<close> (a \<^typ>\<open>char\<close> is
  one byte). A Go function with an \<^verbatim>\<open>error\<close> result is a function into a sum type whose left side is
  the component's own datatype of errors.
\<close>

named_theorems go_defs \<open>definitions of the Go runtime functions, unfolded together\<close>
named_theorems result_simps \<open>inversion rules of the error monad\<close>

type_synonym bytes = string

section \<open>Results\<close>

definition bind_result :: "'e + 'a \<Rightarrow> ('a \<Rightarrow> 'e + 'b) \<Rightarrow> 'e + 'b" where
  "bind_result m f = (case m of Inl e \<Rightarrow> Inl e | Inr x \<Rightarrow> f x)"

definition require :: "bool \<Rightarrow> 'e \<Rightarrow> 'e + unit" where
  "require b e = (if b then Inr () else Inl e)"

definition is_ok :: "'e + 'a \<Rightarrow> bool" where
  "is_ok r = (case r of Inl _ \<Rightarrow> False | Inr _ \<Rightarrow> True)"

text \<open>The loop \<^verbatim>\<open>for _, x := range xs { if err := f(x); err != nil { return err } }\<close>.\<close>

fun for_each :: "('a \<Rightarrow> 'e + unit) \<Rightarrow> 'a list \<Rightarrow> 'e + unit" where
  "for_each f [] = Inr ()"
| "for_each f (x # xs) = bind_result (f x) (\<lambda>_. for_each f xs)"

text \<open>The loop that appends one translated element per iteration and returns at the first error.\<close>

fun map_result :: "('a \<Rightarrow> 'e + 'b) \<Rightarrow> 'a list \<Rightarrow> 'e + 'b list" where
  "map_result f [] = Inr []"
| "map_result f (x # xs) =
     bind_result (f x) (\<lambda>y. bind_result (map_result f xs) (\<lambda>ys. Inr (y # ys)))"

lemma bind_result_simps [simp]:
  "bind_result (Inl e) f = Inl e"
  "bind_result (Inr x) f = f x"
  by (simp_all add: bind_result_def)

lemma bind_result_Inr [result_simps]:
  "bind_result m f = Inr y \<longleftrightarrow> (\<exists>x. m = Inr x \<and> f x = Inr y)"
  by (cases m) simp_all

lemma bind_result_Inl [result_simps]:
  "bind_result m f = Inl e \<longleftrightarrow> m = Inl e \<or> (\<exists>x. m = Inr x \<and> f x = Inl e)"
  by (cases m) auto

lemma require_Inr [simp]: "require b e = Inr u \<longleftrightarrow> b"
  by (simp add: require_def)

lemma require_Inl [simp]: "require b e = Inl e' \<longleftrightarrow> \<not> b \<and> e = e'"
  by (simp add: require_def)

lemma require_cases [simp]:
  "require True e = Inr ()"
  "require False e = Inl e"
  by (simp_all add: require_def)

lemma is_ok_simps [simp]: "is_ok (Inr x)" "\<not> is_ok (Inl e)"
  by (simp_all add: is_ok_def)

lemma is_ok_iff: "is_ok r \<longleftrightarrow> (\<exists>x. r = Inr x)"
  by (cases r) simp_all

lemma is_ok_unit [simp]: "is_ok (r :: 'e + unit) \<longleftrightarrow> r = Inr ()"
  by (cases r) simp_all

lemma for_each_Inr [result_simps]: "for_each f xs = Inr u \<longleftrightarrow> (\<forall>x\<in>set xs. f x = Inr ())"
  by (induction xs) (auto simp: result_simps)

lemma for_each_append:
  "for_each f (xs @ ys) = bind_result (for_each f xs) (\<lambda>_. for_each f ys)"
proof (induction xs)
  case Nil
  show ?case by simp
next
  case (Cons x xs)
  then show ?case by (cases "f x") simp_all
qed

lemma map_result_Inr: "map_result f xs = Inr ys \<longleftrightarrow> list_all2 (\<lambda>x y. f x = Inr y) xs ys"
  by (induction xs arbitrary: ys) (auto simp: result_simps list_all2_Cons1)

lemma map_result_length: "map_result f xs = Inr ys \<Longrightarrow> length ys = length xs"
  by (simp add: map_result_Inr list_all2_lengthD)

section \<open>Strings\<close>

definition HasPrefix :: "bytes \<Rightarrow> bytes \<Rightarrow> bool" where
  "HasPrefix s p = (take (length p) s = p)"

definition HasSuffix :: "bytes \<Rightarrow> bytes \<Rightarrow> bool" where
  "HasSuffix s p = (length p \<le> length s \<and> drop (length s - length p) s = p)"

definition TrimPrefix :: "bytes \<Rightarrow> bytes \<Rightarrow> bytes" where
  "TrimPrefix s p = (if HasPrefix s p then drop (length p) s else s)"

definition TrimSuffix :: "bytes \<Rightarrow> bytes \<Rightarrow> bytes" where
  "TrimSuffix s p = (if HasSuffix s p then take (length s - length p) s else s)"

definition ContainsAny :: "bytes \<Rightarrow> bytes \<Rightarrow> bool" where
  "ContainsAny s chars = list_ex (\<lambda>c. c \<in> set chars) s"

text \<open>\<^verbatim>\<open>strings.Contains\<close>: some position of the first string starts with the second one.\<close>

fun Contains :: "bytes \<Rightarrow> bytes \<Rightarrow> bool" where
  "Contains [] p = (p = [])"
| "Contains (c # s) p = (HasPrefix (c # s) p \<or> Contains s p)"

text \<open>\<^verbatim>\<open>strings.Split\<close> at a separator of one byte, and \<^verbatim>\<open>strings.Join\<close>.\<close>

fun split_on :: "char \<Rightarrow> bytes \<Rightarrow> bytes list" where
  "split_on c [] = [[]]"
| "split_on c (x # s) =
     (if x = c then [] # split_on c s
      else case split_on c s of [] \<Rightarrow> [[x]] | t # ts \<Rightarrow> (x # t) # ts)"

fun join_with :: "bytes \<Rightarrow> bytes list \<Rightarrow> bytes" where
  "join_with sep [] = []"
| "join_with sep [s] = s"
| "join_with sep (s # t # ts) = s @ sep @ join_with sep (t # ts)"

text \<open>The index of the first and of the last occurrence of a byte, \<^verbatim>\<open>-1\<close> as \<^const>\<open>None\<close>.\<close>

fun IndexByte :: "bytes \<Rightarrow> char \<Rightarrow> nat option" where
  "IndexByte [] c = None"
| "IndexByte (x # s) c = (if x = c then Some 0 else map_option Suc (IndexByte s c))"

fun LastIndexByte :: "bytes \<Rightarrow> char \<Rightarrow> nat option" where
  "LastIndexByte [] c = None"
| "LastIndexByte (x # s) c =
     (case LastIndexByte s c of Some i \<Rightarrow> Some (Suc i) | None \<Rightarrow> if x = c then Some 0 else None)"

lemma LastIndexByte_None: "LastIndexByte s c = None \<longleftrightarrow> c \<notin> set s"
  by (induction s) (auto split: option.splits)

lemma HasPrefix_iff: "HasPrefix s p \<longleftrightarrow> (\<exists>t. s = p @ t)"
  by (metis HasPrefix_def append_eq_conv_conj append_take_drop_id)

lemma HasPrefix_prefix: "HasPrefix s p \<longleftrightarrow> prefix p s"
  by (auto simp: HasPrefix_iff prefix_def)

lemma HasPrefix_append [simp]: "HasPrefix (p @ s) p"
  by (simp add: HasPrefix_def)

lemma HasPrefix_Nil [simp]: "HasPrefix s []"
  by (simp add: HasPrefix_def)

lemma HasPrefix_Cons [simp]: "HasPrefix (c # s) (d # p) \<longleftrightarrow> c = d \<and> HasPrefix s p"
  by (auto simp: HasPrefix_def)

lemma HasPrefix_empty [simp]: "HasPrefix [] (d # p) \<longleftrightarrow> False"
  by (simp add: HasPrefix_def)

lemma HasSuffix_iff: "HasSuffix s p \<longleftrightarrow> (\<exists>t. s = t @ p)"
proof
  assume "HasSuffix s p"
  then show "\<exists>t. s = t @ p"
    by (metis HasSuffix_def append_take_drop_id)
next
  assume "\<exists>t. s = t @ p"
  then show "HasSuffix s p"
    by (auto simp: HasSuffix_def)
qed

lemma TrimPrefix_append [simp]: "TrimPrefix (p @ s) p = s"
  by (simp add: TrimPrefix_def)

lemma TrimSuffix_append [simp]: "TrimSuffix (s @ p) p = s"
  by (auto simp: TrimSuffix_def HasSuffix_iff)

lemma ContainsAny_iff: "ContainsAny s cs \<longleftrightarrow> set s \<inter> set cs \<noteq> {}"
  by (auto simp: ContainsAny_def list_ex_iff)

lemma ContainsAny_append [simp]: "ContainsAny (s @ t) cs \<longleftrightarrow> ContainsAny s cs \<or> ContainsAny t cs"
  by (auto simp: ContainsAny_iff)

lemma Contains_single: "Contains s [c] \<longleftrightarrow> c \<in> set s"
  by (induction s) auto

lemma split_on_not_Nil [simp]: "split_on c s \<noteq> []"
  by (induction s) (auto split: list.splits)

lemma split_on_no_sep: "t \<in> set (split_on c s) \<Longrightarrow> c \<notin> set t"
proof (induction s arbitrary: t)
  case Nil
  then show ?case by simp
next
  case (Cons x s)
  then show ?case
    by (cases "split_on c s") (auto split: if_splits)
qed

lemma join_split: "join_with [c] (split_on c s) = s"
proof (induction s)
  case Nil
  show ?case by simp
next
  case (Cons x s)
  obtain t ts where "split_on c s = t # ts"
    by (cases "split_on c s") auto
  with Cons show ?case by (cases ts) auto
qed

lemma split_on_id: "c \<notin> set s \<Longrightarrow> split_on c s = [s]"
  by (induction s) auto

lemma split_on_append: "c \<notin> set s \<Longrightarrow> split_on c (s @ c # t) = s # split_on c t"
  by (induction s) auto

lemma split_prefix: "split_on c (s @ c # t) = split_on c s @ split_on c t"
proof (induction s)
  case Nil
  show ?case by simp
next
  case (Cons x s)
  then show ?case
    by (cases "split_on c s") auto
qed

lemma split_join:
  assumes "ss \<noteq> []" and "\<forall>s\<in>set ss. c \<notin> set s"
  shows "split_on c (join_with [c] ss) = ss"
  using assms
proof (induction "[c]" ss rule: join_with.induct)
  case 1
  then show ?case by simp
next
  case (2 s)
  then show ?case by (simp add: split_on_id)
next
  case (3 s t ts)
  then show ?case by (simp add: split_on_append)
qed

lemma join_with_Cons: "join_with sep (s # ts) = (if ts = [] then s else s @ sep @ join_with sep ts)"
  by (cases ts) simp_all

lemma set_join_with: "set (join_with sep ss) \<subseteq> \<Union> (set ` set ss) \<union> set sep"
  by (induction sep ss rule: join_with.induct) auto

section \<open>Lists\<close>

text \<open>
  The loops of the sources that remember what they have seen in a Go map and refuse a repetition
  accept exactly the lists without repetition.
\<close>

fun no_repeat :: "'a list \<Rightarrow> 'a list \<Rightarrow> bool" where
  "no_repeat seen [] = True"
| "no_repeat seen (x # xs) = (x \<notin> set seen \<and> no_repeat (x # seen) xs)"

lemma no_repeat_iff: "no_repeat seen xs \<longleftrightarrow> distinct xs \<and> set seen \<inter> set xs = {}"
  by (induction seen xs rule: no_repeat.induct) auto

lemma exI2: "P a b \<Longrightarrow> \<exists>x y. P x y"
  by blast

lemma sorted_wrt_mono_on:
  assumes "sorted_wrt P xs" and "\<And>x y. x \<in> set xs \<Longrightarrow> y \<in> set xs \<Longrightarrow> P x y \<Longrightarrow> Q x y"
  shows "sorted_wrt Q xs"
  using assms by (induction xs) auto

text \<open>A Go map is an association list with distinct keys.\<close>

lemma set_alist_update:
  "distinct (map fst al) \<Longrightarrow> set (AList.update k v al) = insert (k, v) {x \<in> set al. fst x \<noteq> k}"
proof (induction al)
  case Nil
  then show ?case by simp
next
  case (Cons x al)
  then show ?case by (cases x) (force simp: image_iff)
qed

lemma set_alist_delete: "set (AList.delete k al) = {x \<in> set al. fst x \<noteq> k}"
  by (auto simp: AList.delete_eq)

lemma alist_delete_distinct: "distinct (map fst al) \<Longrightarrow> distinct (map fst (AList.delete k al))"
  by (simp add: AList.delete_eq distinct_map_filter)

lemma distinct_keys_unique: "distinct (map fst xs) \<Longrightarrow> (k, a) \<in> set xs \<Longrightarrow> (k, b) \<in> set xs \<Longrightarrow> a = b"
  using eq_key_imp_eq_value by fast

lemmas alist_simps = set_alist_update set_alist_delete distinct_update alist_delete_distinct

section \<open>Contexts\<close>

text \<open>
  The polls that an operation makes of its context are numbered in the order the code makes them; the
  context answers each with whether it is cancelled by then.
\<close>

type_synonym poll = "nat \<Rightarrow> bool"

definition background :: poll where
  "background = (\<lambda>_. False)"

definition calm :: "poll \<Rightarrow> nat \<Rightarrow> nat \<Rightarrow> bool" where
  "calm ctx k n = list_all (\<lambda>j. \<not> ctx j) [k..<k + n]"

lemma calm_simps [simp]: "calm ctx k 0" "calm ctx k (Suc n) \<longleftrightarrow> \<not> ctx k \<and> calm ctx (Suc k) n"
  by (simp_all add: calm_def upt_conv_Cons del: upt_Suc)

lemma calm_add: "calm ctx k (m + n) \<longleftrightarrow> calm ctx k m \<and> calm ctx (k + m) n"
  by (auto simp: calm_def list_all_iff)

section \<open>Codecs\<close>

text \<open>
  The interface of a pair of functions that write a value as bytes and parse it back: what was written
  is parsed as itself. The clients of a codec
  need that two values never share an encoding and that reading what was written cannot fail.
\<close>

locale codec =
  fixes encode :: "'a \<Rightarrow> 'e + bytes"
    and decode :: "bytes \<Rightarrow> 'f + 'a"
  assumes decode_encode: "encode x = Inr b \<Longrightarrow> decode b = Inr x"
begin

lemma encode_inj: "encode x = Inr b \<Longrightarrow> encode y = Inr b \<Longrightarrow> x = y"
  by (metis decode_encode sum.inject(2))

lemma encode_all_inj:
  assumes "map_result encode xs = Inr bs" and "map_result encode ys = Inr bs"
  shows "xs = ys"
  using assms
proof (induction xs arbitrary: ys bs)
  case Nil
  then show ?case using map_result_length by fastforce
next
  case (Cons x xs)
  from Cons.prems obtain b bs' where b: "bs = b # bs'" "encode x = Inr b" "map_result encode xs = Inr bs'"
    by (auto simp: result_simps)
  from Cons.prems(2) b(1) obtain y ys' where y: "ys = y # ys'"
    using map_result_length by (cases ys) fastforce+
  with Cons.prems(2) b(1) have "encode y = Inr b" "map_result encode ys' = Inr bs'"
    by (auto simp: result_simps)
  with b y encode_inj Cons.IH show ?case by metis
qed

end

text \<open>A codec whose reader accepts nothing but what the writer produces.\<close>

locale canonical_codec = codec +
  assumes encode_decode: "decode b = Inr x \<Longrightarrow> encode x = Inr b"
begin

lemma decode_inj: "decode b = Inr x \<Longrightarrow> decode c = Inr x \<Longrightarrow> b = c"
  by (metis encode_decode sum.inject(2))

lemma decode_iff_encode: "decode b = Inr x \<longleftrightarrow> encode x = Inr b"
  using decode_encode encode_decode by blast

end

section \<open>Transition systems\<close>

text \<open>
  A component with concurrent callers is an executable transition function on its events, with
  \<^const>\<open>None\<close> for an event that is not enabled. \<open>reach\<close> gives the states of all interleavings whose
  events satisfy a guard.
\<close>

inductive reach :: "('e \<Rightarrow> 's \<Rightarrow> 's option) \<Rightarrow> ('e \<Rightarrow> 's \<Rightarrow> bool) \<Rightarrow> ('s \<Rightarrow> bool) \<Rightarrow> 's \<Rightarrow> bool"
  for apply_event guard init where
  reach_init: "init s \<Longrightarrow> reach apply_event guard init s"
| reach_step: "reach apply_event guard init s \<Longrightarrow> guard e s \<Longrightarrow> apply_event e s = Some t
    \<Longrightarrow> reach apply_event guard init t"

fun run_events :: "('e \<Rightarrow> 's \<Rightarrow> 's option) \<Rightarrow> 'e list \<Rightarrow> 's \<Rightarrow> 's option" where
  "run_events f [] s = Some s"
| "run_events f (e # es) s = (case f e s of None \<Rightarrow> None | Some t \<Rightarrow> run_events f es t)"

fun guards_along :: "('e \<Rightarrow> 's \<Rightarrow> 's option) \<Rightarrow> ('e \<Rightarrow> 's \<Rightarrow> bool) \<Rightarrow> 'e list \<Rightarrow> 's \<Rightarrow> bool" where
  "guards_along f g [] s = True"
| "guards_along f g (e # es) s = (g e s \<and> (case f e s of None \<Rightarrow> False | Some t \<Rightarrow> guards_along f g es t))"

lemma reach_run:
  assumes "reach f g i s" and "guards_along f g es s" and "run_events f es s = Some t"
  shows "reach f g i t"
  using assms
proof (induction es arbitrary: s)
  case Nil
  then show ?case by simp
next
  case (Cons e es)
  then obtain u where u: "g e s" "f e s = Some u" "guards_along f g es u" "run_events f es u = Some t"
    by (auto split: option.splits)
  with Cons.IH reach_step [OF Cons.prems(1) u(1,2)] show ?case by blast
qed

lemma reach_mono:
  assumes "reach f g i s" and "\<And>e s. g e s \<Longrightarrow> h e s"
  shows "reach f h i s"
  using assms by (induction rule: reach.induct) (auto intro: reach.intros)

text \<open>The contract of a state invariant: it holds initially and every enabled event keeps it.\<close>

locale state_invariant =
  fixes apply_event :: "'e \<Rightarrow> 's \<Rightarrow> 's option"
    and guard :: "'e \<Rightarrow> 's \<Rightarrow> bool"
    and init :: "'s \<Rightarrow> bool"
    and inv :: "'s \<Rightarrow> bool"
  assumes inv_init: "init s \<Longrightarrow> inv s"
    and inv_step: "inv s \<Longrightarrow> guard e s \<Longrightarrow> apply_event e s = Some t \<Longrightarrow> inv t"
begin

lemma inv_reach: "reach apply_event guard init s \<Longrightarrow> inv s"
  by (induction rule: reach.induct) (auto intro: inv_init inv_step)

lemma inv_run:
  assumes "inv s" and "guards_along apply_event guard es s" and "run_events apply_event es s = Some t"
  shows "inv t"
  using assms
proof (induction es arbitrary: s)
  case Nil
  then show ?case by simp
next
  case (Cons e es)
  then show ?case using inv_step by (auto split: option.splits)
qed

end

end
