(* ===== verification/Jobenv.thy ===== *)
theory Jobenv
  imports Kenogram_Prelude
begin

text \<open>
  The package \<^verbatim>\<open>internal/jobenv\<close>: the binary document that hands a job its environment and its lifecycle
  key. The encoder and the decoder are translated field by field; the lemmas show that they are inverse
  to each other on everything they accept, so the document format is canonical.
\<close>

record item =
  i_Name :: bytes
  i_Value :: bytes

datatype jobenv_error =
    TooManyItems
  | BadKeyLength
  | BadItemName
  | BadItemValue
  | DuplicateItemName bytes
  | BadHeader
  | TruncatedKey
  | BadItemCount
  | TruncatedItem
  | ItemExceedsBounds
  | TrailingBytes

type_synonym 'a jobenv_result = "jobenv_error + 'a"

definition MaximumItems :: nat where "MaximumItems = 136"
definition MaximumValueBytes :: nat where "MaximumValueBytes = 16384"
definition maximumNameBytes :: nat where "maximumNameBytes = 255"
definition LifecycleKeyBytes :: nat where "LifecycleKeyBytes = 32"

definition magic :: bytes where
  "magic = ''KENOGRAM_JOB_ENV_V1'' @ [CHR 0x00]"

definition jobenv_validate :: "item \<Rightarrow> unit jobenv_result" where
  "jobenv_validate it =
     (if length (i_Name it) = 0 \<or> length (i_Name it) > maximumNameBytes \<or> ContainsAny (i_Name it) [CHR ''='', CHR 0x00]
        then Inl BadItemName
      else if length (i_Value it) > MaximumValueBytes \<or> CHR 0x00 \<in> set (i_Value it) then Inl BadItemValue
      else Inr ())"

section \<open>Big-endian integers\<close>

text \<open>\<^verbatim>\<open>binary.Write\<close> of a \<^verbatim>\<open>uint16\<close> and of a \<^verbatim>\<open>uint32\<close>; the conversion keeps the low bytes.\<close>

definition put16 :: "nat \<Rightarrow> bytes" where
  "put16 n = [char_of (n div 256 mod 256), char_of (n mod 256)]"

definition put32 :: "nat \<Rightarrow> bytes" where
  "put32 n = [char_of (n div 16777216 mod 256), char_of (n div 65536 mod 256), char_of (n div 256 mod 256), char_of (n mod 256)]"

text \<open>\<^verbatim>\<open>io.ReadFull\<close> of \<open>n\<close> bytes, and \<^verbatim>\<open>binary.Read\<close> on top of it.\<close>

definition ReadFull :: "nat \<Rightarrow> bytes \<Rightarrow> (bytes \<times> bytes) option" where
  "ReadFull n s = (if n \<le> length s then Some (take n s, drop n s) else None)"

definition be_nat :: "bytes \<Rightarrow> nat" where
  "be_nat s = foldl (\<lambda>acc c. acc * 256 + of_char c) 0 s"

definition get_uint :: "nat \<Rightarrow> bytes \<Rightarrow> (nat \<times> bytes) option" where
  "get_uint n s = map_option (apfst be_nat) (ReadFull n s)"

section \<open>The encoder\<close>

definition encode_item :: "item \<Rightarrow> bytes" where
  "encode_item it = put16 (length (i_Name it)) @ put32 (length (i_Value it)) @ i_Name it @ i_Value it"

fun encode_items :: "bytes list \<Rightarrow> item list \<Rightarrow> bytes jobenv_result" where
  "encode_items seen [] = Inr []"
| "encode_items seen (it # its) =
     bind_result (jobenv_validate it) (\<lambda>_.
     bind_result (require (i_Name it \<notin> set seen) (DuplicateItemName (i_Name it))) (\<lambda>_.
     bind_result (encode_items (i_Name it # seen) its) (\<lambda>rest. Inr (encode_item it @ rest))))"

definition EncodeLaunch :: "item list \<Rightarrow> bytes \<Rightarrow> bytes jobenv_result" where
  "EncodeLaunch items lifecycleKey =
     (if length items > MaximumItems then Inl TooManyItems
      else if length lifecycleKey \<noteq> LifecycleKeyBytes then Inl BadKeyLength
      else bind_result (encode_items [] items) (\<lambda>body.
             Inr (magic @ lifecycleKey @ put16 (length items) @ body)))"

definition Encode :: "item list \<Rightarrow> bytes jobenv_result" where
  "Encode items = EncodeLaunch items (replicate LifecycleKeyBytes (CHR 0x00))"

section \<open>The decoder\<close>

definition maximumDocumentBytes :: nat where
  "maximumDocumentBytes = (length magic + LifecycleKeyBytes + 2)
     + MaximumItems * (2 + 4 + maximumNameBytes + MaximumValueBytes)"

definition decode_item :: "bytes \<Rightarrow> (item \<times> bytes) jobenv_result" where
  "decode_item s =
     (case get_uint 2 s of
        None \<Rightarrow> Inl TruncatedItem
      | Some (nameSize, s1) \<Rightarrow>
          (case get_uint 4 s1 of
             None \<Rightarrow> Inl TruncatedItem
           | Some (valueSize, s2) \<Rightarrow>
               if nameSize = 0 \<or> nameSize > maximumNameBytes \<or> valueSize > MaximumValueBytes then Inl ItemExceedsBounds
               else (case ReadFull nameSize s2 of
                       None \<Rightarrow> Inl TruncatedItem
                     | Some (name, s3) \<Rightarrow>
                         (case ReadFull valueSize s3 of
                            None \<Rightarrow> Inl TruncatedItem
                          | Some (v, s4) \<Rightarrow> Inr (\<lparr>i_Name = name, i_Value = v\<rparr>, s4)))))"

fun decode_items :: "nat \<Rightarrow> bytes list \<Rightarrow> bytes \<Rightarrow> (item list \<times> bytes) jobenv_result" where
  "decode_items 0 seen s = Inr ([], s)"
| "decode_items (Suc n) seen s =
     bind_result (decode_item s) (\<lambda>(it, s').
     bind_result (jobenv_validate it) (\<lambda>_.
     bind_result (require (i_Name it \<notin> set seen) (DuplicateItemName (i_Name it))) (\<lambda>_.
     bind_result (decode_items n (i_Name it # seen) s') (\<lambda>(its, t). Inr (it # its, t)))))"

definition DecodeLaunch :: "bytes \<Rightarrow> (item list \<times> bytes) jobenv_result" where
  "DecodeLaunch input =
     (let limited = take (maximumDocumentBytes + 1) input in
      case ReadFull (length magic) limited of
        None \<Rightarrow> Inl BadHeader
      | Some (header, s1) \<Rightarrow>
          if header \<noteq> magic then Inl BadHeader
          else (case ReadFull LifecycleKeyBytes s1 of
                  None \<Rightarrow> Inl TruncatedKey
                | Some (key, s2) \<Rightarrow>
                    (case get_uint 2 s2 of
                       None \<Rightarrow> Inl BadItemCount
                     | Some (count, s3) \<Rightarrow>
                         if count > MaximumItems then Inl BadItemCount
                         else bind_result (decode_items count [] s3) (\<lambda>(items, t).
                                if t \<noteq> [] then Inl TrailingBytes else Inr (items, key)))))"

definition Decode :: "bytes \<Rightarrow> item list jobenv_result" where
  "Decode input = bind_result (DecodeLaunch input) (\<lambda>(items, key). Inr items)"

section \<open>Integers round trip\<close>

lemma be_nat_append: "be_nat (s @ [c]) = be_nat s * 256 + of_char c"
  by (simp add: be_nat_def)

lemma byte_bound: "of_char c < (256 :: nat)"
  by simp

lemma length_puts [simp]: "length (put16 n) = 2" "length (put32 n) = 4"
  by (simp_all add: put16_def put32_def)

lemma be_nat_put16: "n < 65536 \<Longrightarrow> be_nat (put16 n) = n"
  by (simp add: be_nat_def put16_def)

lemma be_nat_put32: "n < 65536 \<Longrightarrow> be_nat (put32 n) = n"
  by (simp add: be_nat_def put32_def)

lemma put16_be_nat: "length s = 2 \<Longrightarrow> put16 (be_nat s) = s"
  using byte_bound by (cases s rule: remdups_adj.cases) (auto simp: put16_def be_nat_def)

lemma byte_div: "(x * 256 + of_char c) div 256 = (x :: nat)" "(x * 256 + of_char c) mod 256 = (of_char c :: nat)"
  by simp_all

lemma put32_be_nat:
  assumes "length s = 4"
  shows "put32 (be_nat s) = s"
proof -
  obtain a b c d where s: "s = [a, b, c, d]"
    using assms by (auto simp: numeral_eq_Suc length_Suc_conv)
  let ?a = "of_char a :: nat" and ?b = "of_char b :: nat" and ?c = "of_char c :: nat" and ?d = "of_char d :: nat"
  have v: "be_nat s = ((?a * 256 + ?b) * 256 + ?c) * 256 + ?d"
    by (simp add: be_nat_def s)
  have 1: "be_nat s div 256 = (?a * 256 + ?b) * 256 + ?c"
    unfolding v by (rule byte_div)
  have 2: "be_nat s div 65536 = ?a * 256 + ?b"
    using 1 div_mult2_eq [of "be_nat s" 256 256] byte_div(1) [of "?a * 256 + ?b" c] by simp
  have 3: "be_nat s div 16777216 = ?a"
    using 2 div_mult2_eq [of "be_nat s" 65536 256] byte_div(1) [of ?a b] by simp
  have "be_nat s mod 256 = ?d" "be_nat s div 256 mod 256 = ?c" "be_nat s div 65536 mod 256 = ?b"
    unfolding 1 2 unfolding v by (rule byte_div)+
  then show ?thesis
    using 3 by (simp add: put32_def s)
qed

lemma ReadFull_append [simp]: "ReadFull (length a) (a @ s) = Some (a, s)"
  by (simp add: ReadFull_def)

lemma ReadFull_Some: "ReadFull n s = Some (a, t) \<Longrightarrow> s = a @ t \<and> length a = n"
  by (auto simp: ReadFull_def split: if_splits)

lemma get_uint_put16: "n < 65536 \<Longrightarrow> get_uint 2 (put16 n @ s) = Some (n, s)"
  using ReadFull_append [of "put16 n" s] be_nat_put16 [of n] by (simp add: get_uint_def)

lemma get_uint_put32: "n < 65536 \<Longrightarrow> get_uint 4 (put32 n @ s) = Some (n, s)"
  using ReadFull_append [of "put32 n" s] be_nat_put32 [of n] by (simp add: get_uint_def)

lemma get_uint_Some:
  assumes "get_uint n s = Some (v, t)"
  shows "\<exists>a. s = a @ t \<and> length a = n \<and> v = be_nat a"
  using assms ReadFull_Some by (fastforce simp: get_uint_def)

section \<open>Items round trip\<close>

lemma validate_bounds:
  "jobenv_validate it = Inr u \<Longrightarrow>
     0 < length (i_Name it) \<and> length (i_Name it) \<le> 255 \<and> length (i_Value it) \<le> 16384"
  by (auto simp: jobenv_validate_def maximumNameBytes_def MaximumValueBytes_def split: if_splits)

lemma decode_encode_item:
  assumes "jobenv_validate it = Inr u"
  shows "decode_item (encode_item it @ s) = Inr (it, s)"
  using validate_bounds [OF assms]
  by (simp add: decode_item_def encode_item_def get_uint_put16 get_uint_put32
      maximumNameBytes_def MaximumValueBytes_def)

lemma encode_decode_item:
  assumes "decode_item s = Inr (it, t)"
  shows "s = encode_item it @ t"
proof -
  obtain n s1 v s2 name s3 val where
    n: "get_uint 2 s = Some (n, s1)" and v: "get_uint 4 s1 = Some (v, s2)"
    and name: "ReadFull n s2 = Some (name, s3)" and val: "ReadFull v s3 = Some (val, t)"
    and it: "it = \<lparr>i_Name = name, i_Value = val\<rparr>"
    using assms by (auto simp: decode_item_def split: option.splits if_splits)
  obtain a b where s: "s = a @ s1" "length a = 2" "n = be_nat a" "s1 = b @ s2" "length b = 4" "v = be_nat b"
    using get_uint_Some [OF n] get_uint_Some [OF v] by blast
  have "s2 = name @ s3" "length name = n" "s3 = val @ t" "length val = v"
    using ReadFull_Some [OF name] ReadFull_Some [OF val] by auto
  with s it show ?thesis
    using put16_be_nat [of a] put32_be_nat [of b] by (simp add: encode_item_def)
qed

lemma decode_encode_items:
  "encode_items seen its = Inr body \<Longrightarrow> decode_items (length its) seen (body @ s) = Inr (its, s)"
proof (induction its arbitrary: seen body)
  case Nil
  then show ?case by simp
next
  case (Cons it its)
  then obtain rest where v: "jobenv_validate it = Inr ()" and fresh: "i_Name it \<notin> set seen"
    and rest: "encode_items (i_Name it # seen) its = Inr rest" and body: "body = encode_item it @ rest"
    by (auto simp: result_simps)
  show ?case
    using Cons.IH [OF rest] v fresh decode_encode_item [OF v] by (simp add: body)
qed

lemma encode_decode_items:
  "decode_items n seen s = Inr (its, t) \<Longrightarrow>
     \<exists>body. encode_items seen its = Inr body \<and> s = body @ t \<and> length its = n"
proof (induction n arbitrary: seen s its)
  case 0
  then show ?case by simp
next
  case (Suc n)
  then obtain it s' its' where d: "decode_item s = Inr (it, s')" and v: "jobenv_validate it = Inr ()"
    and fresh: "i_Name it \<notin> set seen" and rest: "decode_items n (i_Name it # seen) s' = Inr (its', t)"
    and its: "its = it # its'"
    by (auto simp: result_simps split: prod.splits)
  from Suc.IH [OF rest] encode_decode_item [OF d] v fresh show ?case
    by (auto simp: its result_simps)
qed

lemma length_encode_items:
  "encode_items seen its = Inr body \<Longrightarrow> length body \<le> length its * (2 + 4 + maximumNameBytes + MaximumValueBytes)"
proof (induction its arbitrary: seen body)
  case Nil
  then show ?case by simp
next
  case (Cons it its)
  then obtain rest where v: "jobenv_validate it = Inr ()"
    and rest: "encode_items (i_Name it # seen) its = Inr rest" and body: "body = encode_item it @ rest"
    by (auto simp: result_simps)
  have "length (encode_item it) \<le> 2 + 4 + maximumNameBytes + MaximumValueBytes"
    using validate_bounds [OF v] by (simp add: encode_item_def maximumNameBytes_def MaximumValueBytes_def)
  with Cons.IH [OF rest] show ?case by (simp add: body)
qed

lemma encode_items_ok: "encode_items seen its = Inr body \<Longrightarrow>
    list_all (\<lambda>it. jobenv_validate it = Inr ()) its \<and> distinct (map i_Name its) \<and> set seen \<inter> set (map i_Name its) = {}"
  by (induction its arbitrary: seen body) (fastforce simp: result_simps)+

section \<open>Documents\<close>

lemma EncodeLaunch_Inr:
  "EncodeLaunch items key = Inr raw \<longleftrightarrow>
     length items \<le> MaximumItems \<and> length key = LifecycleKeyBytes
     \<and> (\<exists>body. encode_items [] items = Inr body \<and> raw = magic @ key @ put16 (length items) @ body)"
  by (auto simp: EncodeLaunch_def result_simps)

lemma EncodeLaunch_length:
  assumes "EncodeLaunch items key = Inr raw"
  shows "length raw \<le> maximumDocumentBytes"
proof -
  obtain body where body: "encode_items [] items = Inr body" and raw: "raw = magic @ key @ put16 (length items) @ body"
    and bounds: "length items \<le> MaximumItems" "length key = LifecycleKeyBytes"
    using assms by (auto simp: EncodeLaunch_Inr)
  have "length items * (2 + 4 + maximumNameBytes + MaximumValueBytes)
      \<le> MaximumItems * (2 + 4 + maximumNameBytes + MaximumValueBytes)"
    using bounds(1) by (rule mult_le_mono1)
  with length_encode_items [OF body]
  have "length body \<le> MaximumItems * (2 + 4 + maximumNameBytes + MaximumValueBytes)"
    by (rule order_trans)
  with bounds(2) show ?thesis
    by (simp add: raw maximumDocumentBytes_def)
qed

lemma DecodeLaunch_EncodeLaunch:
  assumes "EncodeLaunch items key = Inr raw"
  shows "DecodeLaunch raw = Inr (items, key)"
proof -
  obtain body where body: "encode_items [] items = Inr body" and raw: "raw = magic @ key @ put16 (length items) @ body"
    and bounds: "length items \<le> MaximumItems" "length key = LifecycleKeyBytes"
    using assms by (auto simp: EncodeLaunch_Inr)
  have "take (maximumDocumentBytes + 1) raw = raw"
    using EncodeLaunch_length [OF assms] by simp
  moreover have "ReadFull LifecycleKeyBytes (key @ s) = Some (key, s)" for s
    using ReadFull_append [of key s] bounds(2) by simp
  moreover have "get_uint 2 (put16 (length items) @ body) = Some (length items, body)"
    using bounds(1) by (intro get_uint_put16) (simp add: MaximumItems_def)
  moreover have "decode_items (length items) [] body = Inr (items, [])"
    using decode_encode_items [OF body, of "[]"] by simp
  ultimately show ?thesis
    using bounds(1) by (simp add: DecodeLaunch_def raw)
qed

lemma EncodeLaunch_DecodeLaunch:
  assumes "DecodeLaunch raw = Inr (items, key)"
  shows "EncodeLaunch items key = Inr (take (maximumDocumentBytes + 1) raw)"
proof -
  let ?s = "take (maximumDocumentBytes + 1) raw"
  obtain s1 s2 s3 count where h: "ReadFull (length magic) ?s = Some (magic, s1)"
    and k: "ReadFull LifecycleKeyBytes s1 = Some (key, s2)" and c: "get_uint 2 s2 = Some (count, s3)"
    and bound: "count \<le> MaximumItems" and its: "decode_items count [] s3 = Inr (items, [])"
    using assms by (auto simp: DecodeLaunch_def Let_def result_simps split: option.splits if_splits)
  obtain a where a: "s2 = a @ s3" "length a = 2" "count = be_nat a"
    using get_uint_Some [OF c] by blast
  obtain body where "encode_items [] items = Inr body" "s3 = body" "length items = count"
    using encode_decode_items [OF its] by auto
  with a bound ReadFull_Some [OF h] ReadFull_Some [OF k] put16_be_nat [of a] show ?thesis
    by (simp add: EncodeLaunch_Inr)
qed

lemma EncodeLaunch_DecodeLaunch_exact:
  assumes "DecodeLaunch raw = Inr (items, key)"
  shows "EncodeLaunch items key = Inr raw"
proof -
  have enc: "EncodeLaunch items key = Inr (take (maximumDocumentBytes + 1) raw)"
    by (rule EncodeLaunch_DecodeLaunch [OF assms])
  then have "length (take (maximumDocumentBytes + 1) raw) \<le> maximumDocumentBytes"
    by (rule EncodeLaunch_length)
  then have "length raw \<le> maximumDocumentBytes"
    by simp
  with enc show ?thesis by simp
qed

lemma encode_items_total:
  assumes "list_all (\<lambda>it. jobenv_validate it = Inr ()) its" and "distinct (map i_Name its)"
    and "set seen \<inter> set (map i_Name its) = {}"
  shows "\<exists>body. encode_items seen its = Inr body"
  using assms by (induction its arbitrary: seen) (auto simp: result_simps)

interpretation launch: canonical_codec "\<lambda>(items, key). EncodeLaunch items key" DecodeLaunch
proof unfold_locales
  show "(case x of (items, key) \<Rightarrow> EncodeLaunch items key) = Inr b \<Longrightarrow> DecodeLaunch b = Inr x" for x b
    using DecodeLaunch_EncodeLaunch [of "fst x" "snd x" b] by (cases x) simp
  show "DecodeLaunch b = Inr x \<Longrightarrow> (case x of (items, key) \<Rightarrow> EncodeLaunch items key) = Inr b" for x b
    using EncodeLaunch_DecodeLaunch_exact [of b "fst x" "snd x"] by (cases x) simp
qed

section \<open>Properties\<close>

text \<open>C19: the reader of a launch document accepts exactly the bytes the writer produces, and returns
  the items and the lifecycle key that were written; no other byte sequence is a launch document, so
  neither a truncated nor a padded document is read.\<close>

theorem launch_document_iff:
  "DecodeLaunch raw = Inr (items, key) \<longleftrightarrow> EncodeLaunch items key = Inr raw"
  using launch.decode_iff_encode [of raw "(items, key)"] by simp

text \<open>C20: the writer succeeds exactly on at most \<^verbatim>\<open>MaximumItems\<close> valid items with pairwise distinct
  names and a key of \<^verbatim>\<open>LifecycleKeyBytes\<close> bytes, and the document it writes fits in the limit the
  reader imposes.\<close>

theorem launch_document_bounds:
  "(\<exists>raw. EncodeLaunch items key = Inr raw \<and> length raw \<le> maximumDocumentBytes) \<longleftrightarrow>
     length items \<le> MaximumItems \<and> length key = LifecycleKeyBytes
     \<and> list_all (\<lambda>it. jobenv_validate it = Inr ()) items \<and> distinct (map i_Name items)"
proof
  assume "\<exists>raw. EncodeLaunch items key = Inr raw \<and> length raw \<le> maximumDocumentBytes"
  then show "length items \<le> MaximumItems \<and> length key = LifecycleKeyBytes
     \<and> list_all (\<lambda>it. jobenv_validate it = Inr ()) items \<and> distinct (map i_Name items)"
    by (auto simp: EncodeLaunch_Inr dest: encode_items_ok)
next
  assume "length items \<le> MaximumItems \<and> length key = LifecycleKeyBytes
     \<and> list_all (\<lambda>it. jobenv_validate it = Inr ()) items \<and> distinct (map i_Name items)"
  moreover from this obtain body where "encode_items [] items = Inr body"
    using encode_items_total [of items "[]"] by auto
  ultimately have "EncodeLaunch items key = Inr (magic @ key @ put16 (length items) @ body)"
    by (simp add: EncodeLaunch_Inr)
  then show "\<exists>raw. EncodeLaunch items key = Inr raw \<and> length raw \<le> maximumDocumentBytes"
    using EncodeLaunch_length by blast
qed

end
