(* ===== verification/Go_Bytes.thy ===== *)
theory Go_Bytes
  imports Kenogram_Prelude
begin

text \<open>
  What the sources use of Go's packages \<^verbatim>\<open>unicode/utf8\<close>, \<^verbatim>\<open>unicode\<close>, \<^verbatim>\<open>strconv\<close>, \<^verbatim>\<open>encoding/hex\<close>
  and of \<^verbatim>\<open>strings.ToLower\<close>: decoding of runes with Go's table of well-formed sequences, the classes
  white space, control and format (Cf), decimal and hexadecimal conversion.
\<close>

abbreviation byte :: "char \<Rightarrow> nat" where
  "byte c \<equiv> of_char c"

section \<open>UTF-8\<close>

text \<open>
  One step of \<^verbatim>\<open>utf8.DecodeRune\<close> on a first byte and the bytes after it: the rune, how many bytes
  after the first it takes, and whether the sequence is well formed. An ill-formed first byte is
  consumed alone and gives \<^verbatim>\<open>utf8.RuneError\<close>.
\<close>

definition rune_error :: nat where
  "rune_error = 65533"

definition continuation :: "nat \<Rightarrow> nat \<Rightarrow> bytes \<Rightarrow> nat option" where
  "continuation lo hi s =
     (case s of [] \<Rightarrow> None | c # _ \<Rightarrow> if lo \<le> byte c \<and> byte c \<le> hi then Some (byte c mod 64) else None)"

definition decode_rune :: "char \<Rightarrow> bytes \<Rightarrow> nat \<times> nat \<times> bool" where
  "decode_rune c s =
     (let b = byte c in
      if b < 128 then (b, 0, True)
      else if 194 \<le> b \<and> b \<le> 223 then
        (case continuation 128 191 s of
           None \<Rightarrow> (rune_error, 0, False)
         | Some x \<Rightarrow> ((b mod 32) * 64 + x, 1, True))
      else if 224 \<le> b \<and> b \<le> 239 then
        (case continuation (if b = 224 then 160 else 128) (if b = 237 then 159 else 191) s of
           None \<Rightarrow> (rune_error, 0, False)
         | Some x \<Rightarrow>
             (case continuation 128 191 (drop 1 s) of
                None \<Rightarrow> (rune_error, 0, False)
              | Some y \<Rightarrow> ((b mod 16) * 4096 + x * 64 + y, 2, True)))
      else if 240 \<le> b \<and> b \<le> 244 then
        (case continuation (if b = 240 then 144 else 128) (if b = 244 then 143 else 191) s of
           None \<Rightarrow> (rune_error, 0, False)
         | Some x \<Rightarrow>
             (case continuation 128 191 (drop 1 s) of
                None \<Rightarrow> (rune_error, 0, False)
              | Some y \<Rightarrow>
                  (case continuation 128 191 (drop 2 s) of
                     None \<Rightarrow> (rune_error, 0, False)
                   | Some z \<Rightarrow> ((b mod 8) * 262144 + x * 4096 + y * 64 + z, 3, True))))
      else (rune_error, 0, False))"

text \<open>The runes of a string in the order of a \<^verbatim>\<open>range\<close> loop, each with its well-formedness.\<close>

function runes :: "bytes \<Rightarrow> (nat \<times> bool) list" where
  "runes [] = []"
| "runes (c # s) = (case decode_rune c s of (r, n, ok) \<Rightarrow> (r, ok) # runes (drop n s))"
  by pat_completeness auto
termination
  by (relation "measure length") auto

definition ValidUTF8 :: "bytes \<Rightarrow> bool" where
  "ValidUTF8 s = list_all snd (runes s)"

definition is_ascii :: "char \<Rightarrow> bool" where
  "is_ascii c = (byte c < 128)"

lemma decode_rune_ascii: "is_ascii c \<Longrightarrow> decode_rune c s = (byte c, 0, True)"
  by (simp add: decode_rune_def is_ascii_def)

lemma runes_ascii: "list_all is_ascii s \<Longrightarrow> runes s = map (\<lambda>c. (byte c, True)) s"
  by (induction s) (simp_all add: decode_rune_ascii)

lemma ValidUTF8_ascii: "list_all is_ascii s \<Longrightarrow> ValidUTF8 s"
  by (simp add: ValidUTF8_def runes_ascii list_all_iff)

section \<open>Unicode classes\<close>

definition IsControl :: "nat \<Rightarrow> bool" where
  "IsControl r = (r < 32 \<or> (127 \<le> r \<and> r < 160))"

definition IsSpace :: "nat \<Rightarrow> bool" where
  "IsSpace r = ((9 \<le> r \<and> r \<le> 13) \<or> r \<in> {32, 133, 160, 5760, 8232, 8233, 8239, 8287, 12288}
     \<or> (8192 \<le> r \<and> r \<le> 8202))"

text \<open>The category Cf as the list of its ranges.\<close>

definition cf_ranges :: "(nat \<times> nat) list" where
  "cf_ranges =
     [(173, 173), (1536, 1541), (1564, 1564), (1757, 1757), (1807, 1807), (2192, 2193),
      (2274, 2274), (6158, 6158), (8203, 8207), (8234, 8238), (8288, 8292), (8294, 8303),
      (65279, 65279), (65529, 65531), (69821, 69821), (69837, 69837), (78896, 78911),
      (113824, 113827), (119155, 119162), (917505, 917505), (917536, 917631)]"

definition IsFormat :: "nat \<Rightarrow> bool" where
  "IsFormat r = list_ex (\<lambda>(lo, hi). lo \<le> r \<and> r \<le> hi) cf_ranges"

text \<open>\<^verbatim>\<open>utf8.DecodeLastRune\<close> on a non-empty string: the rune and the number of bytes it takes.\<close>

definition rune_start :: "char \<Rightarrow> bool" where
  "rune_start c = (byte c div 64 \<noteq> 2)"

definition decode_last_rune :: "bytes \<Rightarrow> nat \<times> nat" where
  "decode_last_rune s =
     (if byte (last s) < 128 then (byte (last s), 1)
      else case filter (\<lambda>k. k \<le> length s \<and> rune_start (s ! (length s - k))) [2, 3, 4] of
             [] \<Rightarrow> (rune_error, 1)
           | k # _ \<Rightarrow>
               (case decode_rune (s ! (length s - k)) (drop (length s - k + 1) s) of
                  (r, n, ok) \<Rightarrow> if ok \<and> n + 1 = k then (r, k) else (rune_error, 1)))"

function trim_left :: "bytes \<Rightarrow> bytes" where
  "trim_left [] = []"
| "trim_left (c # s) =
     (case decode_rune c s of (r, n, ok) \<Rightarrow> if IsSpace r then trim_left (drop n s) else c # s)"
  by pat_completeness auto
termination
  by (relation "measure length") auto

lemma decode_last_rune_pos: "0 < snd (decode_last_rune s)"
  by (auto simp: decode_last_rune_def filter_eq_Cons_iff split: list.splits prod.splits)

function trim_right :: "bytes \<Rightarrow> bytes" where
  "trim_right s =
     (if s = [] then []
      else case decode_last_rune s of (r, n) \<Rightarrow> if IsSpace r then trim_right (take (length s - n) s) else s)"
  by pat_completeness auto
termination
proof (relation "measure length")
  fix s r n
  assume "s \<noteq> []" and "(r, n) = decode_last_rune s" and "IsSpace r"
  then show "(take (length s - n) s, s) \<in> measure length"
    using decode_last_rune_pos [of s] by (simp flip: length_greater_0_conv) (metis diff_less snd_conv)
qed simp

declare trim_right.simps [simp del]

lemma trim_right_code [code]:
  "trim_right [] = []"
  "trim_right (c # s) =
     (case decode_last_rune (c # s) of (r, n) \<Rightarrow> if IsSpace r then trim_right (take (length (c # s) - n) (c # s)) else c # s)"
  by (subst trim_right.simps; simp only: list.distinct if_True if_False simp_thms)+

definition TrimSpace :: "bytes \<Rightarrow> bytes" where
  "TrimSpace s = trim_right (trim_left s)"

section \<open>Letter case\<close>

definition lower_ascii :: "char \<Rightarrow> char" where
  "lower_ascii c = (if 65 \<le> byte c \<and> byte c \<le> 90 then char_of (byte c + 32) else c)"

definition upper_ascii :: "char \<Rightarrow> char" where
  "upper_ascii c = (if 97 \<le> byte c \<and> byte c \<le> 122 then char_of (byte c - 32) else c)"

text \<open>
  \<^verbatim>\<open>strings.ToLower\<close> and \<^verbatim>\<open>strings.ToUpper\<close> have a loop over the bytes for ASCII strings and map every
  other string through the Unicode case tables; the latter is the parameter \<open>uni\<close>.
\<close>

definition ToLower :: "(bytes \<Rightarrow> bytes) \<Rightarrow> bytes \<Rightarrow> bytes" where
  "ToLower uni s = (if list_all is_ascii s then map lower_ascii s else uni s)"

definition ToUpper :: "(bytes \<Rightarrow> bytes) \<Rightarrow> bytes \<Rightarrow> bytes" where
  "ToUpper uni s = (if list_all is_ascii s then map upper_ascii s else uni s)"

lemma byte_char_of [simp]: "n < 256 \<Longrightarrow> byte (char_of n) = (n :: nat)"
  by simp

lemma lower_ascii_idem [simp]: "lower_ascii (lower_ascii c) = lower_ascii c"
  by (simp add: lower_ascii_def)

lemma is_ascii_lower [simp]: "is_ascii (lower_ascii c) = is_ascii c"
  by (simp add: lower_ascii_def is_ascii_def)

lemma ToLower_idem:
  assumes "\<And>t. \<not> list_all is_ascii t \<Longrightarrow> ToLower uni (uni t) = uni t"
  shows "ToLower uni (ToLower uni s) = ToLower uni s"
proof (cases "list_all is_ascii s")
  case True
  then show ?thesis by (simp add: ToLower_def list_all_iff)
next
  case False
  then have "ToLower uni s = uni s"
    by (simp add: ToLower_def)
  with False assms show ?thesis by simp
qed

section \<open>Decimal numbers\<close>

definition digit_char :: "nat \<Rightarrow> char" where
  "digit_char d = char_of (48 + d)"

definition is_digit :: "char \<Rightarrow> bool" where
  "is_digit c = (48 \<le> byte c \<and> byte c \<le> 57)"

fun nat_decimal :: "nat \<Rightarrow> bytes" where
  "nat_decimal n = (if n < 10 then [digit_char n] else nat_decimal (n div 10) @ [digit_char (n mod 10)])"

declare nat_decimal.simps [simp del]

text \<open>\<^verbatim>\<open>strconv.FormatInt(n, 10)\<close> and \<^verbatim>\<open>strconv.Itoa\<close>.\<close>

definition Itoa :: "int \<Rightarrow> bytes" where
  "Itoa n = (if n < 0 then CHR ''-'' # nat_decimal (nat (- n)) else nat_decimal (nat n))"

fun decimal_value :: "nat \<Rightarrow> bytes \<Rightarrow> nat option" where
  "decimal_value acc [] = Some acc"
| "decimal_value acc (c # s) =
     (if is_digit c then decimal_value (10 * acc + (byte c - 48)) s else None)"

definition int64_min :: int where "int64_min = - (2 ^ 63)"
definition int64_max :: int where "int64_max = 2 ^ 63 - 1"

text \<open>\<^verbatim>\<open>strconv.ParseInt(s, 10, 64)\<close> and \<^verbatim>\<open>strconv.Atoi\<close>; \<^const>\<open>None\<close> is the error.\<close>

definition Atoi :: "bytes \<Rightarrow> int option" where
  "Atoi s =
     (let neg = (s \<noteq> [] \<and> hd s = CHR ''-'');
          ds = (if s \<noteq> [] \<and> (hd s = CHR ''-'' \<or> hd s = CHR ''+'') then tl s else s)
      in if ds = [] then None
         else case decimal_value 0 ds of
                None \<Rightarrow> None
              | Some n \<Rightarrow>
                  let v = (if neg then - int n else int n)
                  in if int64_min \<le> v \<and> v \<le> int64_max then Some v else None)"

lemma byte_digit_char [simp]: "d < 10 \<Longrightarrow> byte (digit_char d) = 48 + d"
  by (simp add: digit_char_def)

lemma is_digit_digit_char [simp]: "d < 10 \<Longrightarrow> is_digit (digit_char d)"
  by (simp add: is_digit_def)

lemma decimal_value_append:
  "decimal_value acc (s @ t) = (case decimal_value acc s of None \<Rightarrow> None | Some n \<Rightarrow> decimal_value n t)"
  by (induction acc s rule: decimal_value.induct) auto

lemma nat_decimal_not_Nil [simp]: "nat_decimal n \<noteq> []"
  by (subst nat_decimal.simps) simp

lemma nat_decimal_digits: "list_all is_digit (nat_decimal n)"
proof (induction n rule: nat_decimal.induct)
  case (1 n)
  then show ?case
    by (cases "n < 10") (simp_all add: nat_decimal.simps [of n])
qed

lemma decimal_value_nat_decimal: "decimal_value 0 (nat_decimal n) = Some n"
proof (induction n rule: nat_decimal.induct)
  case (1 n)
  show ?case
  proof (cases "n < 10")
    case True
    then show ?thesis by (simp add: nat_decimal.simps [of n])
  next
    case False
    with "1.IH" have "decimal_value 0 (nat_decimal (n div 10)) = Some (n div 10)" by simp
    with False show ?thesis
      by (simp add: nat_decimal.simps [of n] decimal_value_append)
  qed
qed

lemma nat_decimal_inj: "nat_decimal m = nat_decimal n \<Longrightarrow> m = n"
  by (metis decimal_value_nat_decimal option.inject)

lemma hd_nat_decimal_digit: "is_digit (hd (nat_decimal n))"
  using nat_decimal_digits [of n] by (simp add: list_all_iff)

lemma not_digit_sign [simp]: "\<not> is_digit CHR ''-''" "\<not> is_digit CHR ''+''"
  by (simp_all add: is_digit_def)

lemma hd_nat_decimal [simp]:
  "hd (nat_decimal n) \<noteq> CHR ''-''" "hd (nat_decimal n) \<noteq> CHR ''+''"
  using hd_nat_decimal_digit [of n] not_digit_sign by metis+

lemma Atoi_Itoa:
  assumes "int64_min \<le> n" and "n \<le> int64_max"
  shows "Atoi (Itoa n) = Some n"
  using assms by (auto simp: Atoi_def Itoa_def decimal_value_nat_decimal Let_def)

lemma hd_Itoa: "hd (Itoa n) = CHR ''-'' \<longleftrightarrow> n < 0"
  by (simp add: Itoa_def)

lemma Itoa_inj: "Itoa m = Itoa n \<Longrightarrow> m = n"
proof -
  assume eq: "Itoa m = Itoa n"
  then have "m < 0 \<longleftrightarrow> n < 0"
    by (metis hd_Itoa)
  with eq have "nat_decimal (nat \<bar>m\<bar>) = nat_decimal (nat \<bar>n\<bar>)"
    by (simp add: Itoa_def split: if_splits)
  then have "nat \<bar>m\<bar> = nat \<bar>n\<bar>"
    by (rule nat_decimal_inj)
  with \<open>m < 0 \<longleftrightarrow> n < 0\<close> show ?thesis by linarith
qed

lemma not_digit_colon: "c \<in> set (nat_decimal n) \<Longrightarrow> is_digit c"
  using nat_decimal_digits [of n] by (auto simp: list_all_iff)

lemma Itoa_chars: "c \<in> set (Itoa n) \<Longrightarrow> is_digit c \<or> c = CHR ''-''"
  by (auto simp: Itoa_def split: if_splits dest: not_digit_colon)

section \<open>Hexadecimal\<close>

definition is_lower_hex :: "char \<Rightarrow> bool" where
  "is_lower_hex c = (is_digit c \<or> (97 \<le> byte c \<and> byte c \<le> 102))"

definition is_hex :: "char \<Rightarrow> bool" where
  "is_hex c = (is_lower_hex c \<or> (65 \<le> byte c \<and> byte c \<le> 70))"

definition hex_digit :: "nat \<Rightarrow> char" where
  "hex_digit d = (if d < 10 then char_of (48 + d) else char_of (87 + d))"

definition hex_encode :: "bytes \<Rightarrow> bytes" where
  "hex_encode s = concat (map (\<lambda>c. [hex_digit (byte c div 16), hex_digit (byte c mod 16)]) s)"

text \<open>Whether \<^verbatim>\<open>hex.DecodeString\<close> accepts: both letter cases, an even number of digits.\<close>

definition hex_decodes :: "bytes \<Rightarrow> bool" where
  "hex_decodes s = (even (length s) \<and> list_all is_hex s)"

lemma byte_less_256 [simp]: "byte c < (256 :: nat)"
  by simp

lemma byte_div_16_less [simp]: "byte c div 16 < (16 :: nat)"
  using byte_less_256 [of c] by (simp add: less_mult_imp_div_less)

lemma hex_digit_lower: "d < 16 \<Longrightarrow> is_lower_hex (hex_digit d)"
  by (auto simp: hex_digit_def is_lower_hex_def is_digit_def)

lemma byte_hex_digit: "d < 16 \<Longrightarrow> byte (hex_digit d) = (if d < 10 then 48 + d else 87 + d)"
  by (simp add: hex_digit_def)

lemma hex_digit_inj: "d < 16 \<Longrightarrow> e < 16 \<Longrightarrow> hex_digit d = hex_digit e \<Longrightarrow> d = e"
proof -
  assume d: "d < 16" and e: "e < 16" and eq: "hex_digit d = hex_digit e"
  have "(if d < 10 then 48 + d else 87 + d) = (if e < 10 then 48 + e else 87 + e)"
    using byte_hex_digit [OF d] byte_hex_digit [OF e] unfolding eq by (rule trans [OF sym])
  then show "d = e"
    by (simp split: if_splits)
qed

lemma length_hex_encode [simp]: "length (hex_encode s) = 2 * length s"
  by (induction s) (simp_all add: hex_encode_def)

lemma hex_encode_lower: "list_all is_lower_hex (hex_encode s)"
  by (induction s) (simp_all add: hex_encode_def hex_digit_lower)

lemma hex_encode_inj: "hex_encode s = hex_encode t \<Longrightarrow> s = t"
proof (induction s arbitrary: t)
  case Nil
  then show ?case by (cases t) (simp_all add: hex_encode_def)
next
  case (Cons c s)
  then obtain d t' where t: "t = d # t'"
    by (cases t) (simp_all add: hex_encode_def)
  from Cons.prems t have
    hi: "hex_digit (byte c div 16) = hex_digit (byte d div 16)" and
    lo: "hex_digit (byte c mod 16) = hex_digit (byte d mod 16)" and
    rest: "hex_encode s = hex_encode t'"
    by (simp_all add: hex_encode_def)
  have "byte c div 16 = (byte d div 16 :: nat)"
    by (rule hex_digit_inj [OF _ _ hi]) (rule byte_div_16_less)+
  moreover have "byte c mod 16 = (byte d mod 16 :: nat)"
    by (rule hex_digit_inj [OF _ _ lo]) (rule mod_less_divisor, simp)+
  ultimately have "byte c = (byte d :: nat)"
    by (metis div_mult_mod_eq)
  then have "c = d"
    by (simp add: of_char_eq_iff)
  moreover have "s = t'"
    using rest by (rule Cons.IH)
  ultimately show ?case using t by simp
qed

end
