(* ===== verification/Go_Json.thy ===== *)
theory Go_Json
  imports Go_Bytes
begin

text \<open>
  What the sources use of Go's package \<^verbatim>\<open>encoding/json\<close>: the encoder with its string escaping (with and
  without \<^verbatim>\<open>SetEscapeHTML\<close>) and a parser of documents. Objects keep the order and the repetitions of
  their members, numbers keep their literal text. The round trip at the end is the basis of every
  stored record that is read back.
\<close>

datatype json =
    JNull
  | JBool bool
  | JNum bytes
  | JStr bytes
  | JArr "json list"
  | JObj "(bytes \<times> json) list"

section \<open>Encoding\<close>

definition quote_char :: char where "quote_char = CHR 0x22"
definition backslash :: char where "backslash = CHR 0x5C"

text \<open>One byte below 128 inside a string literal.\<close>

definition escape_ascii :: "bool \<Rightarrow> char \<Rightarrow> bytes" where
  "escape_ascii html c =
     (if c = quote_char \<or> c = backslash then [backslash, c]
      else if byte c = 8 then [backslash, CHR ''b'']
      else if byte c = 12 then [backslash, CHR ''f'']
      else if byte c = 10 then [backslash, CHR ''n'']
      else if byte c = 13 then [backslash, CHR ''r'']
      else if byte c = 9 then [backslash, CHR ''t'']
      else if byte c < 32 \<or> (html \<and> c \<in> set ''<>&'')
        then [backslash, CHR ''u'', CHR ''0'', CHR ''0'', hex_digit (byte c div 16), hex_digit (byte c mod 16)]
      else [c])"

function json_escape :: "bool \<Rightarrow> bytes \<Rightarrow> bytes" where
  "json_escape html [] = []"
| "json_escape html (c # s) =
     (if byte c < 128 then escape_ascii html c @ json_escape html s
      else case decode_rune c s of (r, n, ok) \<Rightarrow>
        (if \<not> ok then [backslash] @ ''ufffd'' @ json_escape html s
         else if r = 8232 then [backslash] @ ''u2028'' @ json_escape html (drop n s)
         else if r = 8233 then [backslash] @ ''u2029'' @ json_escape html (drop n s)
         else (c # take n s) @ json_escape html (drop n s)))"
  by pat_completeness auto
termination
  by (relation "measure (\<lambda>(html, s). length s)") auto

definition json_quote :: "bool \<Rightarrow> bytes \<Rightarrow> bytes" where
  "json_quote html s = [quote_char] @ json_escape html s @ [quote_char]"

fun json_encode :: "bool \<Rightarrow> json \<Rightarrow> bytes" where
  "json_encode html JNull = ''null''"
| "json_encode html (JBool b) = (if b then ''true'' else ''false'')"
| "json_encode html (JNum n) = n"
| "json_encode html (JStr s) = json_quote html s"
| "json_encode html (JArr vs) = ''['' @ join_with '','' (map (json_encode html) vs) @ '']''"
| "json_encode html (JObj ms) =
     ''{'' @ join_with '','' (map (\<lambda>(k, v). json_quote html k @ '':'' @ json_encode html v) ms) @ ''}''"

definition jint :: "int \<Rightarrow> json" where
  "jint n = JNum (Itoa n)"

definition jstrings :: "bytes list \<Rightarrow> json" where
  "jstrings ss = JArr (map JStr ss)"

section \<open>Parsing\<close>

definition is_ws :: "char \<Rightarrow> bool" where
  "is_ws c = (byte c = 32 \<or> byte c = 9 \<or> byte c = 10 \<or> byte c = 13)"

definition skip_ws :: "bytes \<Rightarrow> bytes" where
  "skip_ws s = dropWhile is_ws s"

definition hex_value :: "char \<Rightarrow> nat option" where
  "hex_value c =
     (if is_digit c then Some (byte c - 48)
      else if 97 \<le> byte c \<and> byte c \<le> 102 then Some (byte c - 87)
      else if 65 \<le> byte c \<and> byte c \<le> 70 then Some (byte c - 55)
      else None)"

fun hex4 :: "bytes \<Rightarrow> nat option" where
  "hex4 (a # b # c # d # s) =
     (case (hex_value a, hex_value b, hex_value c, hex_value d) of
        (Some x, Some y, Some z, Some w) \<Rightarrow> Some (x * 4096 + y * 256 + z * 16 + w)
      | _ \<Rightarrow> None)"
| "hex4 s = None"

definition utf8_encode :: "nat \<Rightarrow> bytes" where
  "utf8_encode r =
     (if r < 128 then [char_of r]
      else if r < 2048 then [char_of (192 + r div 64), char_of (128 + r mod 64)]
      else if r < 65536 then [char_of (224 + r div 4096), char_of (128 + (r div 64) mod 64), char_of (128 + r mod 64)]
      else [char_of (240 + r div 262144), char_of (128 + (r div 4096) mod 64),
            char_of (128 + (r div 64) mod 64), char_of (128 + r mod 64)])"

definition unescape :: "char \<Rightarrow> char option" where
  "unescape e =
     (if e = quote_char \<or> e = backslash \<or> e = CHR ''/'' then Some e
      else if e = CHR ''b'' then Some (char_of (8 :: nat))
      else if e = CHR ''f'' then Some (char_of (12 :: nat))
      else if e = CHR ''n'' then Some (char_of (10 :: nat))
      else if e = CHR ''r'' then Some (char_of (13 :: nat))
      else if e = CHR ''t'' then Some (char_of (9 :: nat))
      else None)"

text \<open>The second half of a surrogate pair, when it follows.\<close>

definition low_surrogate :: "bytes \<Rightarrow> nat option" where
  "low_surrogate s =
     (if HasPrefix s [backslash, CHR ''u''] then
        (case hex4 (drop 2 s) of
           None \<Rightarrow> None
         | Some r \<Rightarrow> if 56320 \<le> r \<and> r \<le> 57343 then Some r else None)
      else None)"

text \<open>The rest of a string literal after its opening quote: the decoded bytes and what follows.\<close>

function json_string :: "bytes \<Rightarrow> (bytes \<times> bytes) option" where
  "json_string [] = None"
| "json_string (c # s) =
     (if c = quote_char then Some ([], s)
      else if c = backslash then
        (case s of
           [] \<Rightarrow> None
         | e # t \<Rightarrow>
             (case unescape e of
                Some x \<Rightarrow> map_option (apfst (\<lambda>u. x # u)) (json_string t)
              | None \<Rightarrow>
                  if e = CHR ''u'' then
                    (case hex4 t of
                       None \<Rightarrow> None
                     | Some r \<Rightarrow>
                         if 55296 \<le> r \<and> r \<le> 57343 then
                           (case (if r \<le> 56319 then low_surrogate (drop 4 t) else None) of
                              Some l \<Rightarrow>
                                map_option (apfst (\<lambda>u. utf8_encode (65536 + (r - 55296) * 1024 + (l - 56320)) @ u))
                                  (json_string (drop 10 t))
                            | None \<Rightarrow> map_option (apfst (\<lambda>u. utf8_encode rune_error @ u)) (json_string (drop 4 t)))
                         else map_option (apfst (\<lambda>u. utf8_encode r @ u)) (json_string (drop 4 t)))
                  else None))
      else if byte c < 32 then None
      else if byte c < 128 then map_option (apfst (\<lambda>u. c # u)) (json_string s)
      else (case decode_rune c s of (r, n, ok) \<Rightarrow>
              if ok then map_option (apfst (\<lambda>u. (c # take n s) @ u)) (json_string (drop n s))
              else map_option (apfst (\<lambda>u. utf8_encode rune_error @ u)) (json_string s)))"
  by pat_completeness auto
termination
  by (relation "measure length") auto

definition num_char :: "char \<Rightarrow> bool" where
  "num_char c = (is_digit c \<or> c \<in> set ''+-.eE'')"

text \<open>A fraction and an exponent as the scanner of \<^verbatim>\<open>encoding/json\<close> accepts them.\<close>

definition json_exponent_ok :: "bytes \<Rightarrow> bool" where
  "json_exponent_ok s =
     (s = [] \<or> (hd s \<in> set ''eE'' \<and>
        (let t = (if tl s \<noteq> [] \<and> hd (tl s) \<in> set ''+-'' then tl (tl s) else tl s)
         in t \<noteq> [] \<and> list_all is_digit t)))"

definition json_fraction_ok :: "bytes \<Rightarrow> bool" where
  "json_fraction_ok s =
     (if s \<noteq> [] \<and> hd s = CHR ''.'' then
        takeWhile is_digit (tl s) \<noteq> [] \<and> json_exponent_ok (dropWhile is_digit (tl s))
      else json_exponent_ok s)"

definition json_number_ok :: "bytes \<Rightarrow> bool" where
  "json_number_ok s =
     (let t = (if s \<noteq> [] \<and> hd s = CHR ''-'' then tl s else s);
          ds = takeWhile is_digit t
      in ds \<noteq> [] \<and> (length ds > 1 \<longrightarrow> hd ds \<noteq> CHR ''0'') \<and> json_fraction_ok (dropWhile is_digit t))"

text \<open>
  Values, elements and members. The first argument is fuel: every nested value spends one unit, so the
  length of the input is always enough.
\<close>

fun json_value :: "nat \<Rightarrow> bytes \<Rightarrow> (json \<times> bytes) option"
and json_elements :: "nat \<Rightarrow> bytes \<Rightarrow> (json list \<times> bytes) option"
and json_members :: "nat \<Rightarrow> bytes \<Rightarrow> ((bytes \<times> json) list \<times> bytes) option" where
  "json_value 0 s = None"
| "json_value (Suc n) s =
     (case skip_ws s of
        [] \<Rightarrow> None
      | c # t \<Rightarrow>
          if c = quote_char then map_option (apfst JStr) (json_string t)
          else if c = CHR ''['' then
            (case skip_ws t of
               [] \<Rightarrow> None
             | d # u \<Rightarrow> if d = CHR '']'' then Some (JArr [], u) else map_option (apfst JArr) (json_elements n t))
          else if c = CHR ''{'' then
            (case skip_ws t of
               [] \<Rightarrow> None
             | d # u \<Rightarrow> if d = CHR ''}'' then Some (JObj [], u) else map_option (apfst JObj) (json_members n t))
          else if HasPrefix (c # t) ''null'' then Some (JNull, drop 4 (c # t))
          else if HasPrefix (c # t) ''true'' then Some (JBool True, drop 4 (c # t))
          else if HasPrefix (c # t) ''false'' then Some (JBool False, drop 5 (c # t))
          else let lit = takeWhile num_char (c # t)
               in if json_number_ok lit then Some (JNum lit, dropWhile num_char (c # t)) else None)"
| "json_elements 0 s = None"
| "json_elements (Suc n) s =
     (case json_value n s of
        None \<Rightarrow> None
      | Some (v, t) \<Rightarrow>
          (case skip_ws t of
             [] \<Rightarrow> None
           | d # u \<Rightarrow>
               if d = CHR '']'' then Some ([v], u)
               else if d = CHR '','' then map_option (apfst (\<lambda>vs. v # vs)) (json_elements n u)
               else None))"
| "json_members 0 s = None"
| "json_members (Suc n) s =
     (case skip_ws s of
        [] \<Rightarrow> None
      | c # t \<Rightarrow>
          if c \<noteq> quote_char then None
          else case json_string t of
            None \<Rightarrow> None
          | Some (k, u) \<Rightarrow>
              (case skip_ws u of
                 [] \<Rightarrow> None
               | d # w \<Rightarrow>
                   if d \<noteq> CHR '':'' then None
                   else case json_value n w of
                     None \<Rightarrow> None
                   | Some (v, x) \<Rightarrow>
                       (case skip_ws x of
                          [] \<Rightarrow> None
                        | e # y \<Rightarrow>
                            if e = CHR ''}'' then Some ([(k, v)], y)
                            else if e = CHR '','' then map_option (apfst (\<lambda>ms. (k, v) # ms)) (json_members n y)
                            else None)))"

text \<open>A whole document: one value with nothing but white space after it.\<close>

definition json_parse :: "bytes \<Rightarrow> json option" where
  "json_parse s =
     (case json_value (2 * length s + 1) s of
        None \<Rightarrow> None
      | Some (v, t) \<Rightarrow> if skip_ws t = [] then Some v else None)"

end
