(* ===== verification/Go_Json_Facts.thy ===== *)
theory Go_Json_Facts
  imports Go_Json
begin

text \<open>
  Parsing inverts encoding. Strings come back when they are valid UTF-8 (the encoder replaces
  ill-formed bytes, so nothing more can hold), numbers when they are number literals.
\<close>

section \<open>Strings\<close>

lemma decode_rune_take:
  assumes "decode_rune c s = (r, n, True)"
  shows "n \<le> length s \<and> decode_rune c (take n s @ t) = (r, n, True)"
proof -
  consider "byte c < (128 :: nat)" | "194 \<le> (byte c :: nat)" "byte c \<le> (223 :: nat)"
    | "224 \<le> (byte c :: nat)" "byte c \<le> (239 :: nat)" | "240 \<le> (byte c :: nat)" "byte c \<le> (244 :: nat)"
    using assms by (fastforce simp: decode_rune_def Let_def split: if_splits)
  then show ?thesis
  proof cases
    case 1
    with assms show ?thesis by (simp add: decode_rune_def Let_def)
  next
    case 2
    with assms show ?thesis
      by (cases s) (auto simp: decode_rune_def Let_def continuation_def split: option.splits if_splits)
  next
    case 3
    from assms 3 obtain a b s' where "s = a # b # s'"
      by (cases s rule: remdups_adj.cases)
        (auto simp: decode_rune_def Let_def continuation_def split: option.splits if_splits)
    with assms 3 show ?thesis
      by (auto simp: decode_rune_def Let_def continuation_def split: option.splits if_splits)
  next
    case 4
    from assms 4 have "length s \<ge> 3"
      by (cases s; cases "tl s"; cases "tl (tl s)")
        (auto simp: decode_rune_def Let_def continuation_def split: option.splits if_splits)
    then obtain a b d s' where "s = a # b # d # s'"
      by (cases s; cases "tl s"; cases "tl (tl s)") auto
    with assms 4 show ?thesis
      by (auto simp: decode_rune_def Let_def continuation_def numeral_2_eq_2 numeral_3_eq_3
          split: option.splits if_splits)
  qed
qed

lemma ValidUTF8_Cons:
  "ValidUTF8 (c # s) \<longleftrightarrow> (case decode_rune c s of (r, n, ok) \<Rightarrow> ok \<and> ValidUTF8 (drop n s))"
  by (simp add: ValidUTF8_def split: prod.splits)

lemma hex_value_hex_digit [simp]: "d < 16 \<Longrightarrow> hex_value (hex_digit d) = Some d"
  by (simp add: hex_value_def hex_digit_def is_digit_def)

lemma hex_value_zero [simp]: "hex_value CHR ''0'' = Some 0"
  by (simp add: hex_value_def is_digit_def)

lemma byte_ne: "c \<noteq> d \<Longrightarrow> byte c \<noteq> (byte d :: nat)"
  by (simp add: of_char_eq_iff)

lemma char_of_byte [simp]: "char_of (byte c :: nat) = c"
  by simp

lemma append_single_fun: "(@) [c] = (#) c"
  by auto

lemma json_string_u00:
  assumes "byte c < (128 :: nat)"
  shows "json_string ([backslash, CHR ''u'', CHR ''0'', CHR ''0'', hex_digit (byte c div 16), hex_digit (byte c mod 16)] @ t)
    = map_option (apfst (\<lambda>u. c # u)) (json_string t)"
proof -
  have "byte c div 16 * 16 + byte c mod 16 = (byte c :: nat)"
    by (rule div_mult_mod_eq)
  then have "hex4 (CHR ''0'' # CHR ''0'' # hex_digit (byte c div 16) # hex_digit (byte c mod 16) # t) = Some (byte c)"
    by simp
  moreover have "unescape CHR ''u'' = None"
    by (simp add: unescape_def quote_char_def backslash_def)
  moreover have "backslash \<noteq> quote_char"
    by (simp add: backslash_def quote_char_def)
  ultimately show ?thesis
    using assms by (simp add: utf8_encode_def append_single_fun)
qed

lemma unescape_facts:
  "unescape quote_char = Some quote_char" "unescape backslash = Some backslash"
  "unescape CHR ''b'' = Some (char_of (8 :: nat))" "unescape CHR ''f'' = Some (char_of (12 :: nat))"
  "unescape CHR ''n'' = Some (char_of (10 :: nat))" "unescape CHR ''r'' = Some (char_of (13 :: nat))"
  "unescape CHR ''t'' = Some (char_of (9 :: nat))"
  by (simp_all add: unescape_def quote_char_def backslash_def)

lemma json_string_unescape:
  "unescape e = Some x \<Longrightarrow> json_string (backslash # e # t) = map_option (apfst (\<lambda>u. x # u)) (json_string t)"
  by (simp add: backslash_def quote_char_def)

lemma byte_eqD: "byte c = (n :: nat) \<Longrightarrow> c = char_of n"
  by auto

lemma json_string_ascii:
  assumes "byte c < (128 :: nat)"
  shows "json_string (escape_ascii html c @ t) = map_option (apfst (\<lambda>u. c # u)) (json_string t)"
proof -
  consider "c = quote_char" | "c = backslash" | "c \<noteq> quote_char" "c \<noteq> backslash" "byte c \<in> {8, 9, 10, 12, 13 :: nat}"
    | "c \<noteq> quote_char" "c \<noteq> backslash" "byte c \<notin> {8, 9, 10, 12, 13 :: nat}" "byte c < (32 :: nat) \<or> (html \<and> c \<in> set ''<>&'')"
    | "c \<noteq> quote_char" "c \<noteq> backslash" "byte c \<notin> {8, 9, 10, 12, 13 :: nat}" "\<not> (byte c < (32 :: nat) \<or> (html \<and> c \<in> set ''<>&''))"
    by blast
  then show ?thesis
  proof cases
    case 4
    then have "escape_ascii html c = [backslash, CHR ''u'', CHR ''0'', CHR ''0'', hex_digit (byte c div 16), hex_digit (byte c mod 16)]"
      unfolding escape_ascii_def by simp
    then show ?thesis
      using json_string_u00 [OF assms, of t] by simp
  next
    case 5
    then have "escape_ascii html c = [c]" unfolding escape_ascii_def by simp
    with 5 assms show ?thesis by simp
  next
    case 3
    then have "\<exists>e. escape_ascii html c = [backslash, e] \<and> unescape e = Some c"
      using unescape_facts(3-7) byte_eqD [of c] unfolding escape_ascii_def by fastforce
    then show ?thesis
      by (auto simp: json_string_unescape simp del: json_string.simps)
  qed (simp_all add: escape_ascii_def json_string_unescape unescape_facts del: json_string.simps)
qed

text \<open>The two separators that the encoder escapes are determined by their rune.\<close>

lemma mod_64_128: "128 \<le> b \<Longrightarrow> b \<le> 191 \<Longrightarrow> b mod 64 = b - (128 :: nat)"
  by (simp add: mod_if)

lemma continuation_bounds:
  assumes "continuation lo hi s = Some x" and "128 \<le> lo" and "hi \<le> 191"
  shows "lo - 128 \<le> x \<and> x < 64 \<and> s \<noteq> [] \<and> byte (hd s) = 128 + x"
  using assms mod_64_128 by (auto simp: continuation_def split: list.splits if_splits)

lemma decode_rune_4:
  assumes "decode_rune c s = (r, n, True)" and "240 \<le> (byte c :: nat)"
  shows "65536 \<le> r"
proof -
  let ?lo = "if byte c = (240 :: nat) then 144 else 128"
  let ?hi = "if byte c = (244 :: nat) then 143 else 191"
  have le: "byte c \<le> (244 :: nat)"
    using assms by (auto simp: decode_rune_def Let_def split: if_splits)
  with assms obtain x y z where x: "continuation ?lo ?hi s = Some x"
    and r: "r = (byte c mod 8) * 262144 + x * 4096 + y * 64 + z"
    by (auto simp: decode_rune_def Let_def split: option.splits)
  show ?thesis
  proof (cases "byte c = (240 :: nat)")
    case True
    with continuation_bounds [OF x] have "16 \<le> x" by simp
    then show ?thesis using r by simp
  next
    case False
    with assms(2) le have "byte c = (241 :: nat) \<or> byte c = (242 :: nat) \<or> byte c = (243 :: nat) \<or> byte c = (244 :: nat)"
      by linarith
    then have "1 \<le> byte c mod (8 :: nat)" by auto
    then show ?thesis using r by simp
  qed
qed

lemma decode_rune_small:
  assumes "decode_rune c s = (r, n, True)" and "byte c \<le> (223 :: nat)"
  shows "r < 2048"
proof -
  have "byte c < (128 :: nat) \<or> (\<exists>x. continuation 128 191 s = Some x \<and> r = byte c mod 32 * 64 + x)"
    using assms by (auto simp: decode_rune_def Let_def split: option.splits if_splits)
  then show ?thesis
  proof
    assume "\<exists>x. continuation 128 191 s = Some x \<and> r = byte c mod 32 * 64 + x"
    then obtain x where x: "continuation 128 191 s = Some x" and r: "r = byte c mod 32 * 64 + x" by blast
    have "byte c mod 32 \<le> (31 :: nat)" using mod_less_divisor [of 32 "byte c :: nat"] by simp
    then show ?thesis using continuation_bounds [OF x] r by simp
  qed (use assms in \<open>auto simp: decode_rune_def\<close>)
qed

lemma decode_rune_separator:
  assumes "decode_rune c s = (r, n, True)" and "r = 8232 \<or> r = 8233"
  shows "c # take n s = utf8_encode r"
proof -
  have three: "224 \<le> (byte c :: nat)" "byte c \<le> (239 :: nat)"
    using decode_rune_4 [OF assms(1)] decode_rune_small [OF assms(1)] assms(2) by fastforce+
  let ?lo = "if byte c = (224 :: nat) then 160 else 128"
  let ?hi = "if byte c = (237 :: nat) then 159 else 191"
  from assms(1) three obtain x y where x: "continuation ?lo ?hi s = Some x"
    and y: "continuation 128 191 (drop 1 s) = Some y"
    and r: "r = (byte c mod 16) * 4096 + x * 64 + y" and n: "n = 2"
    by (auto simp: decode_rune_def Let_def split: option.splits if_splits)
  have bx: "x < 64" "s \<noteq> []" "byte (hd s) = 128 + x" using continuation_bounds [OF x] by auto
  have hy: "y < 64" "drop 1 s \<noteq> []" "byte (hd (drop 1 s)) = 128 + y" using continuation_bounds [OF y] by auto
  define k where "k = byte c - (224 :: nat)"
  have k: "byte c = 224 + k" "k < 16" using three by (simp_all add: k_def)
  have "(224 + k) mod 16 = k" using k(2) mod_mult_self2 [of k 16 14] by (simp add: add.commute)
  then have sum: "k * 4096 + x * 64 + y = r" using r k(1) by simp
  have k2: "k = 2" using sum assms(2) bx(1) hy(1) by auto
  have x0: "x = 0" using sum k2 assms(2) hy(1) by auto
  have y: "y = r - 8192" using sum k2 x0 by auto
  obtain a b s' where s: "s = a # b # s'"
    using bx(2) hy(2) by (cases s rule: remdups_adj.cases) auto
  have "c = char_of (226 :: nat)" "a = char_of (128 :: nat)" "b = char_of (r - 8064)"
    using k k2 bx(3) x0 hy(3) y s assms(2) by (auto intro!: byte_eqD)
  then show ?thesis
    using n s assms(2) by (auto simp: utf8_encode_def numeral_2_eq_2)
qed

lemma hex4_separators [simp]:
  "hex4 (''2028'' @ t) = Some 8232" "hex4 (''2029'' @ t) = Some 8233"
  by (simp_all add: hex_value_def is_digit_def)

lemma json_string_separator:
  assumes "x = CHR ''8'' \<and> r = 8232 \<or> x = CHR ''9'' \<and> r = 8233"
  shows "json_string ([backslash] @ ''u202'' @ [x] @ t) = map_option (apfst (\<lambda>u. utf8_encode r @ u)) (json_string t)"
proof -
  have "unescape CHR ''u'' = None" "backslash \<noteq> quote_char"
    by (simp_all add: unescape_def quote_char_def backslash_def)
  with assms hex4_separators [of t] show ?thesis by auto
qed

text \<open>A string literal of the encoder reads back as the string that was encoded.\<close>

lemma json_string_escape:
  "ValidUTF8 s \<Longrightarrow> json_string (json_escape html s @ quote_char # t) = Some (s, t)"
proof (induction s rule: length_induct)
  case (1 cs)
  show ?case
  proof (cases cs)
    case Nil
    then show ?thesis by simp
  next
    case (Cons c s)
    obtain r n ok where d: "decode_rune c s = (r, n, ok)"
      by (cases "decode_rune c s") auto
    with "1.prems" Cons have ok: "ok" and rest: "ValidUTF8 (drop n s)"
      by (simp_all add: ValidUTF8_Cons)
    have IH: "json_string (json_escape html (drop n s) @ quote_char # t) = Some (drop n s, t)"
      using "1.IH" rest Cons by simp
    show ?thesis
    proof (cases "byte c < (128 :: nat)")
      case True
      with d have "n = 0"
        by (simp add: decode_rune_def Let_def)
      with True IH Cons show ?thesis
        by (simp add: json_string_ascii del: json_string.simps)
    next
      case False
      have d': "decode_rune c s = (r, n, True)"
        using d ok by simp
      let ?w = "json_escape html (drop n s) @ quote_char # t"
      have n: "n \<le> length s" and dt: "decode_rune c (take n s @ ?w) = (r, n, True)"
        using decode_rune_take [OF d'] by simp_all
      have "json_string (json_escape html (c # s) @ quote_char # t)
          = map_option (apfst (\<lambda>u. (c # take n s) @ u)) (json_string ?w)"
      proof (cases "r = 8232 \<or> r = 8233")
        case True
        then obtain x where x: "x = CHR ''8'' \<and> r = 8232 \<or> x = CHR ''9'' \<and> r = 8233" by blast
        have "json_escape html (c # s) @ quote_char # t = [backslash] @ ''u202'' @ [x] @ ?w"
          using False d' x by auto
        then show ?thesis
          using json_string_separator [OF x, of ?w] decode_rune_separator [OF d' True] by simp
      next
        case sep: False
        have enc: "json_escape html (c # s) @ quote_char # t = c # (take n s @ ?w)"
          using False d' sep by simp
        have "c \<noteq> quote_char" "c \<noteq> backslash"
          using False by (auto simp: quote_char_def backslash_def)
        then show ?thesis
          unfolding enc using False dt n IH by simp
      qed
      then show ?thesis using IH Cons by simp
    qed
  qed
qed

section \<open>Values\<close>

fun json_ok :: "json \<Rightarrow> bool" where
  "json_ok JNull = True"
| "json_ok (JBool b) = True"
| "json_ok (JNum n) = (json_number_ok n \<and> list_all num_char n)"
| "json_ok (JStr s) = ValidUTF8 s"
| "json_ok (JArr vs) = list_all json_ok vs"
| "json_ok (JObj ms) = list_all (\<lambda>(k, v). ValidUTF8 k \<and> json_ok v) ms"

fun json_fuel :: "json \<Rightarrow> nat" where
  "json_fuel (JArr vs) = Suc (sum_list (map (\<lambda>v. Suc (json_fuel v)) vs))"
| "json_fuel (JObj ms) = Suc (sum_list (map (\<lambda>(k, v). Suc (json_fuel v)) ms))"
| "json_fuel v = 1"

text \<open>What may follow a value so that a number literal ends where it was written.\<close>

definition stops :: "bytes \<Rightarrow> bool" where
  "stops t = (t = [] \<or> \<not> num_char (hd t))"

lemma stops_simps [simp]: "stops []" "stops (c # t) \<longleftrightarrow> \<not> num_char c"
  by (simp_all add: stops_def)

lemma skip_ws_Cons [simp]: "skip_ws (c # s) = (if is_ws c then skip_ws s else c # s)"
  by (simp add: skip_ws_def)

lemma skip_ws_Nil [simp]: "skip_ws [] = []"
  by (simp add: skip_ws_def)

lemma punct_facts [simp]:
  "\<not> is_ws quote_char" "\<not> is_ws CHR ''[''" "\<not> is_ws CHR ''{''" "\<not> is_ws CHR '']''" "\<not> is_ws CHR ''}''"
  "\<not> is_ws CHR '',''" "\<not> is_ws CHR '':''"
  "\<not> num_char CHR '',''" "\<not> num_char CHR '']''" "\<not> num_char CHR ''}''"
  by (simp_all add: is_ws_def quote_char_def num_char_def is_digit_def)

lemma num_char_facts: "num_char c \<Longrightarrow> \<not> is_ws c \<and> c \<noteq> quote_char \<and> c \<noteq> CHR ''['' \<and> c \<noteq> CHR ''{'' \<and> c \<noteq> CHR ''n''
    \<and> c \<noteq> CHR ''t'' \<and> c \<noteq> CHR ''f'' \<and> c \<noteq> CHR '']''"
  by (auto simp: num_char_def is_ws_def quote_char_def is_digit_def)

lemma takeWhile_stops: "list_all P s \<Longrightarrow> t = [] \<or> \<not> P (hd t) \<Longrightarrow> takeWhile P (s @ t) = s \<and> dropWhile P (s @ t) = t"
  by (cases t) (auto simp: list_all_iff takeWhile_append dropWhile_append)

lemma json_value_number:
  assumes "json_number_ok n" and "list_all num_char n" and "stops t"
  shows "json_value (Suc k) (n @ t) = Some (JNum n, t)"
proof -
  obtain c n' where n: "n = c # n'"
    using assms(1) by (cases n) (simp_all add: json_number_ok_def)
  have c: "num_char c" using assms(2) n by simp
  have "takeWhile num_char (n @ t) = n" "dropWhile num_char (n @ t) = t"
    using takeWhile_stops [OF assms(2)] assms(3) by (auto simp: stops_def)
  with assms(1) num_char_facts [OF c] n show ?thesis
    by (simp add: Let_def)
qed

text \<open>The first byte of an encoding is neither white space nor a closing bracket.\<close>

lemma json_encode_head:
  "json_ok v \<Longrightarrow> \<exists>c s. json_encode html v = c # s \<and> \<not> is_ws c \<and> c \<noteq> CHR '']''"
proof (cases v)
  case (JNum n)
  assume "json_ok v"
  with JNum obtain c s where "n = c # s" "num_char c"
    by (cases n) (simp_all add: json_number_ok_def)
  with JNum num_char_facts show ?thesis by auto
qed (auto simp: json_quote_def is_ws_def quote_char_def)

lemma json_elements_encode:
  assumes "\<And>v n t. v \<in> set vs \<Longrightarrow> json_fuel v \<le> n \<Longrightarrow> stops t \<Longrightarrow> json_value n (json_encode html v @ t) = Some (v, t)"
    and "vs \<noteq> []" and "sum_list (map (\<lambda>v. Suc (json_fuel v)) vs) \<le> n"
  shows "json_elements n (join_with '','' (map (json_encode html) vs) @ CHR '']'' # t) = Some (vs, t)"
  using assms
proof (induction vs arbitrary: n)
  case Nil
  then show ?case by simp
next
  case (Cons v vs)
  then obtain m where n: "n = Suc m" and m: "json_fuel v \<le> m" "sum_list (map (\<lambda>v. Suc (json_fuel v)) vs) \<le> m"
    by (cases n) auto
  show ?case
  proof (cases vs)
    case Nil
    have "json_value m (json_encode html v @ CHR '']'' # t) = Some (v, CHR '']'' # t)"
      using Cons.prems(1) m by simp
    with n Nil show ?thesis by simp
  next
    case (Cons w ws)
    let ?rest = "join_with '','' (map (json_encode html) vs) @ CHR '']'' # t"
    have "json_value m (json_encode html v @ CHR '','' # ?rest) = Some (v, CHR '','' # ?rest)"
      using Cons.prems(1) m by simp
    moreover have "json_elements m ?rest = Some (vs, t)"
      using Cons.IH [of m] Cons.prems(1) m Cons by simp
    ultimately show ?thesis
      using n Cons by simp
  qed
qed

lemma json_members_encode:
  assumes "\<And>k v n t. (k, v) \<in> set ms \<Longrightarrow> json_fuel v \<le> n \<Longrightarrow> stops t \<Longrightarrow> json_value n (json_encode html v @ t) = Some (v, t)"
    and "\<And>k v. (k, v) \<in> set ms \<Longrightarrow> ValidUTF8 k"
    and "ms \<noteq> []" and "sum_list (map (\<lambda>(k, v). Suc (json_fuel v)) ms) \<le> n"
  shows "json_members n (join_with '','' (map (\<lambda>(k, v). json_quote html k @ '':'' @ json_encode html v) ms) @ CHR ''}'' # t)
    = Some (ms, t)"
  using assms
proof (induction ms arbitrary: n)
  case Nil
  then show ?case by simp
next
  case (Cons kv ms)
  obtain k v where kv: "kv = (k, v)" by (cases kv)
  with Cons.prems obtain m where n: "n = Suc m" and m: "json_fuel v \<le> m"
    "sum_list (map (\<lambda>(k, v). Suc (json_fuel v)) ms) \<le> m"
    by (cases n) auto
  have key: "json_string (json_escape html k @ quote_char # u) = Some (k, u)" for u
    using Cons.prems(2) [of k v] kv by (intro json_string_escape) simp
  show ?case
  proof (cases ms)
    case Nil
    have "json_value m (json_encode html v @ CHR ''}'' # t) = Some (v, CHR ''}'' # t)"
      using Cons.prems(1) [of k v] m kv by simp
    with n Nil kv key show ?thesis by (simp add: json_quote_def)
  next
    case (Cons w ws)
    let ?rest = "join_with '','' (map (\<lambda>(k, v). json_quote html k @ '':'' @ json_encode html v) ms) @ CHR ''}'' # t"
    have "json_value m (json_encode html v @ CHR '','' # ?rest) = Some (v, CHR '','' # ?rest)"
      using Cons.prems(1) [of k v] m kv by simp
    moreover have "json_members m ?rest = Some (ms, t)"
    proof (rule Cons.IH)
      show "json_value n (json_encode html v @ t) = Some (v, t)"
        if "(k, v) \<in> set ms" "json_fuel v \<le> n" "stops t" for k v n t
        using that by (intro Cons.prems(1) [of k]) simp_all
      show "ValidUTF8 k" if "(k, v) \<in> set ms" for k v
        using that Cons.prems(2) [of k v] by simp
    qed (use m Cons in simp_all)
    ultimately show ?thesis
      using n Cons kv key by (simp add: json_quote_def)
  qed
qed

lemma json_value_encode:
  "json_ok v \<Longrightarrow> json_fuel v \<le> n \<Longrightarrow> stops t \<Longrightarrow> json_value n (json_encode html v @ t) = Some (v, t)"
proof (induction html v arbitrary: n t rule: json_encode.induct)
  case (1 html)
  then show ?case by (cases n) (simp_all add: is_ws_def quote_char_def)
next
  case (2 html b)
  then show ?case by (cases n) (simp_all add: is_ws_def quote_char_def)
next
  case (3 html x)
  then show ?case by (cases n) (simp_all add: json_value_number del: json_value.simps)
next
  case (4 html s)
  then show ?case by (cases n) (simp_all add: json_quote_def json_string_escape)
next
  case (5 html vs)
  then obtain m where n: "n = Suc m" by (cases n) auto
  show ?case
  proof (cases vs)
    case Nil
    with n show ?thesis by (simp add: quote_char_def)
  next
    case (Cons w ws)
    have "json_elements m (join_with '','' (map (json_encode html) vs) @ CHR '']'' # t) = Some (vs, t)"
      using 5 n Cons by (intro json_elements_encode) (auto simp: list_all_iff)
    moreover obtain c s where w: "json_encode html w = c # s" and c: "\<not> is_ws c" "c \<noteq> CHR '']''"
      using json_encode_head [of w html] "5.prems"(1) Cons by auto
    moreover have "\<exists>s'. join_with '','' (map (json_encode html) vs) = c # s'"
      using Cons w by (simp add: join_with_Cons)
    ultimately show ?thesis
      using n by (auto simp: quote_char_def)
  qed
next
  case (6 html ms)
  then obtain m where n: "n = Suc m" by (cases n) auto
  show ?case
  proof (cases ms)
    case Nil
    with n show ?thesis by (simp add: quote_char_def)
  next
    case (Cons w ws)
    let ?enc = "join_with '','' (map (\<lambda>(k, v). json_quote html k @ '':'' @ json_encode html v) ms)"
    have "json_members m (?enc @ CHR ''}'' # t) = Some (ms, t)"
    proof (rule json_members_encode)
      show "json_value n (json_encode html v @ t) = Some (v, t)"
        if "(k, v) \<in> set ms" "json_fuel v \<le> n" "stops t" for k v n t
        using that "6.prems"(1) by (intro "6.IH" [OF that(1) refl]) (auto simp: list_all_iff)
      show "ValidUTF8 k" if "(k, v) \<in> set ms" for k v
        using that "6.prems"(1) by (auto simp: list_all_iff)
    qed (use n Cons "6.prems" in simp_all)
    moreover have "\<exists>s. ?enc = quote_char # s"
      using Cons by (cases w) (simp add: join_with_Cons json_quote_def)
    ultimately show ?thesis
      using n by (auto simp: quote_char_def is_ws_def)
  qed
qed

lemma length_join_with:
  "ss \<noteq> [] \<Longrightarrow> Suc (length (join_with [c] ss)) = sum_list (map (\<lambda>s. Suc (length s)) ss)"
  by (induction "[c]" ss rule: join_with.induct) auto

lemma json_fuel_bound: "json_fuel v \<le> 2 * length (json_encode html v) + 1"
proof (induction html v rule: json_encode.induct)
  case (5 html vs)
  then have "sum_list (map (\<lambda>v. Suc (json_fuel v)) vs) \<le> 2 * sum_list (map (\<lambda>v. Suc (length (json_encode html v))) vs)"
    unfolding sum_list_const_mult [symmetric] by (intro sum_list_mono) (fastforce)
  with length_join_with [of "map (json_encode html) vs" "CHR '',''"] show ?case
    by (cases "vs = []") (simp_all add: comp_def)
next
  case (6 html ms)
  let ?m = "\<lambda>(k, v). json_quote html k @ '':'' @ json_encode html v"
  have "sum_list (map (\<lambda>(k, v). Suc (json_fuel v)) ms) \<le> 2 * sum_list (map (\<lambda>x. Suc (length (?m x))) ms)"
    unfolding sum_list_const_mult [symmetric] using 6 by (intro sum_list_mono) fastforce
  with length_join_with [of "map ?m ms" "CHR '',''"] show ?case
    by (cases "ms = []") (simp_all add: comp_def)
qed simp_all

text \<open>The document round trip, also when white space follows the value.\<close>

lemma json_parse_encode:
  assumes "json_ok v" and "skip_ws t = []"
  shows "json_parse (json_encode html v @ t) = Some v"
proof -
  have "stops t"
    using assms(2) by (cases t) (auto simp: num_char_facts split: if_splits dest: num_char_facts)
  moreover have "json_fuel v \<le> 2 * length (json_encode html v @ t) + 1"
    using json_fuel_bound [of v html] by simp
  ultimately show ?thesis
    using assms json_value_encode [of v "2 * length (json_encode html v @ t) + 1" t html]
    by (simp add: json_parse_def)
qed

end
