(* ===== verification/Go_Json_Valid.thy ===== *)
theory Go_Json_Valid
  imports Go_Json_Facts
begin

text \<open>
  What the JSON reader can return and what the JSON writer can produce: every string of a parsed
  document is well-formed UTF-8, so parsed documents can be written and read again, and a written
  document contains no line break.
\<close>

section \<open>Strings of parsed documents\<close>

lemma char_byte: "n < 256 \<Longrightarrow> byte (char_of n) = (n :: nat)"
  by simp

lemma continuation_char: "lo \<le> 128 + x \<Longrightarrow> 128 + x \<le> hi \<Longrightarrow> x < 64 \<Longrightarrow> continuation lo hi (char_of (128 + x) # s) = Some x"
  by (simp add: continuation_def mod_if)

definition scalar :: "nat \<Rightarrow> bool" where
  "scalar r = (r < 1114112 \<and> \<not> (55296 \<le> r \<and> r \<le> 57343))"

lemma ValidUTF8_encode_small:
  assumes "r < 2048"
  shows "ValidUTF8 (utf8_encode r @ u) \<longleftrightarrow> ValidUTF8 u"
proof (cases "r < 128")
  case True
  then show ?thesis
    by (simp add: utf8_encode_def ValidUTF8_Cons decode_rune_def)
next
  case False
  let ?a = "192 + r div 64"
  have a: "194 \<le> ?a" "?a \<le> 223" using False assms by linarith+
  have "decode_rune (char_of ?a) (char_of (128 + r mod 64) # u) = ((?a mod 32) * 64 + r mod 64, 1, True)"
    using a by (simp add: decode_rune_def continuation_char)
  then show ?thesis
    using False assms by (simp add: utf8_encode_def ValidUTF8_Cons)
qed

lemma ValidUTF8_encode_three:
  assumes "2048 \<le> r" and "r < 65536" and "\<not> (55296 \<le> r \<and> r \<le> 57343)"
  shows "ValidUTF8 (utf8_encode r @ u) \<longleftrightarrow> ValidUTF8 u"
proof -
  let ?a = "224 + r div 4096" and ?x = "(r div 64) mod 64" and ?y = "r mod 64"
  have a: "224 \<le> ?a" "?a \<le> 239" using assms by linarith+
  have x: "(if ?a = 224 then 160 else 128) \<le> 128 + ?x" "128 + ?x \<le> (if ?a = 237 then 159 else 191)"
  proof -
    show "(if ?a = 224 then 160 else 128) \<le> 128 + ?x"
    proof (cases "?a = 224")
      case True
      then have "r div 64 < 64" by linarith
      moreover have "32 \<le> r div 64" using assms(1) by linarith
      ultimately show ?thesis using True by simp
    qed simp
    show "128 + ?x \<le> (if ?a = 237 then 159 else 191)"
    proof (cases "?a = 237")
      case True
      then have "13 * 64 \<le> r div 64" "r div 64 < 14 * 64" by linarith+
      moreover have "r div 64 < 13 * 64 + 32" using True assms(3) by linarith
      ultimately have "?x = r div 64 - 13 * 64" by (simp add: mod_if)
      with \<open>r div 64 < 13 * 64 + 32\<close> True show ?thesis by simp
    qed simp
  qed
  have "decode_rune (char_of ?a) (char_of (128 + ?x) # char_of (128 + ?y) # u)
      = ((?a mod 16) * 4096 + ?x * 64 + ?y, 2, True)"
    using a x continuation_char [of "if ?a = 224 then 160 else 128" ?x "if ?a = 237 then 159 else 191"]
      continuation_char [of 128 ?y 191]
    by (simp add: decode_rune_def)
  then show ?thesis
    using assms by (simp add: utf8_encode_def ValidUTF8_Cons)
qed

lemma ValidUTF8_encode_four:
  assumes "65536 \<le> r" and "r < 1114112"
  shows "ValidUTF8 (utf8_encode r @ u) \<longleftrightarrow> ValidUTF8 u"
proof -
  let ?a = "240 + r div 262144" and ?x = "(r div 4096) mod 64" and ?y = "(r div 64) mod 64" and ?z = "r mod 64"
  have a: "240 \<le> ?a" "?a \<le> 244" using assms by linarith+
  have "(if ?a = 240 then 144 else 128) \<le> 128 + ?x"
  proof (cases "?a = 240")
    case True
    then have "r div 4096 < 64" by linarith
    moreover have "16 \<le> r div 4096" using assms(1) by linarith
    ultimately show ?thesis using True by simp
  qed simp
  moreover have "128 + ?x \<le> (if ?a = 244 then 143 else 191)"
  proof (cases "?a = 244")
    case True
    then have "4 * 64 \<le> r div 4096" "r div 4096 < 4 * 64 + 16" using assms(2) by linarith+
    then have "?x = r div 4096 - 4 * 64" by (simp add: mod_if)
    with \<open>r div 4096 < 4 * 64 + 16\<close> True show ?thesis by simp
  qed simp
  ultimately have "decode_rune (char_of ?a) (char_of (128 + ?x) # char_of (128 + ?y) # char_of (128 + ?z) # u)
      = ((?a mod 8) * 262144 + ?x * 4096 + ?y * 64 + ?z, 3, True)"
    using a continuation_char [of "if ?a = 240 then 144 else 128" ?x "if ?a = 244 then 143 else 191"]
      continuation_char [of 128 ?y 191] continuation_char [of 128 ?z 191]
    by (simp add: decode_rune_def)
  then show ?thesis
    using assms by (simp add: utf8_encode_def ValidUTF8_Cons)
qed

lemma ValidUTF8_encode: "scalar r \<Longrightarrow> ValidUTF8 (utf8_encode r @ u) \<longleftrightarrow> ValidUTF8 u"
  using ValidUTF8_encode_small [of r u] ValidUTF8_encode_three [of r u] ValidUTF8_encode_four [of r u]
  unfolding scalar_def by (meson not_le)

lemma hex_value_bound: "hex_value c = Some x \<Longrightarrow> x < 16"
  by (auto simp: hex_value_def is_digit_def split: if_splits)

lemma hex4_bound: "hex4 s = Some r \<Longrightarrow> r < 65536"
proof (induction s rule: hex4.induct)
  case (1 a b c d s)
  then obtain x y z w where h: "hex_value a = Some x" "hex_value b = Some y" "hex_value c = Some z" "hex_value d = Some w"
    and r: "r = x * 4096 + y * 256 + z * 16 + w"
    by (auto split: option.splits)
  have "x < 16" "y < 16" "z < 16" "w < 16" using h hex_value_bound by blast+
  with r show ?case by linarith
qed simp_all

lemma low_surrogate_bound: "low_surrogate s = Some l \<Longrightarrow> 56320 \<le> l \<and> l \<le> 57343"
  by (auto simp: low_surrogate_def split: if_splits option.splits)

lemma unescape_ascii: "unescape e = Some x \<Longrightarrow> byte x < (128 :: nat)"
  by (auto simp: unescape_def quote_char_def backslash_def split: if_splits)

lemma ValidUTF8_ascii_Cons: "byte c < (128 :: nat) \<Longrightarrow> ValidUTF8 (c # s) \<longleftrightarrow> ValidUTF8 s"
  by (simp add: ValidUTF8_Cons decode_rune_def)

lemma ValidUTF8_rune:
  assumes "decode_rune c s = (r, n, True)"
  shows "ValidUTF8 ((c # take n s) @ u) \<longleftrightarrow> ValidUTF8 u"
  using decode_rune_take [OF assms, of u] by (simp add: ValidUTF8_Cons)

lemma ValidUTF8_Nil [simp]: "ValidUTF8 []"
  by (simp add: ValidUTF8_def)

lemma scalar_facts: "scalar rune_error" "r < 65536 \<Longrightarrow> \<not> (55296 \<le> r \<and> r \<le> 57343) \<Longrightarrow> scalar r"
  "55296 \<le> r \<Longrightarrow> r \<le> 56319 \<Longrightarrow> 56320 \<le> l \<Longrightarrow> l \<le> 57343 \<Longrightarrow> scalar (65536 + (r - 55296) * 1024 + (l - 56320))"
  by (auto simp: scalar_def rune_error_def)

lemma json_string_valid: "json_string s = Some (u, t) \<Longrightarrow> ValidUTF8 u"
proof (induction s arbitrary: u t rule: length_induct)
  case (1 s)
  have IH: "json_string s' = Some (u', t') \<Longrightarrow> length s' < length s \<Longrightarrow> ValidUTF8 u'" for s' u' t'
    using 1(1) by blast
  show ?case
  proof (cases s)
    case Nil
    with 1(2) show ?thesis by simp
  next
    case (Cons c cs)
    consider "c = quote_char" | e cs' where "c = backslash" "c \<noteq> quote_char" "cs = e # cs'" | "c \<noteq> quote_char" "c \<noteq> backslash"
      using 1(2) Cons by (cases cs) (auto split: if_splits)
    then show ?thesis
    proof cases
      case 1
      with \<open>json_string s = Some (u, t)\<close> Cons show ?thesis by simp
    next
      case 2
      show ?thesis
      proof (cases "unescape e")
        case (Some x)
        with 2 \<open>json_string s = Some (u, t)\<close> Cons obtain u' where "json_string cs' = Some (u', t)" "u = x # u'"
          by auto
        with IH [of cs' u' t] Cons 2 unescape_ascii [OF Some] show ?thesis
          by (simp add: ValidUTF8_ascii_Cons)
      next
        case None
        then obtain r where r: "hex4 cs' = Some r" and eu: "e = CHR ''u''"
          using 2 \<open>json_string s = Some (u, t)\<close> Cons by (auto split: if_splits option.splits)
        consider l where "55296 \<le> r" "r \<le> 56319" "low_surrogate (drop 4 cs') = Some l"
          | "55296 \<le> r \<and> r \<le> 57343" "(if r \<le> 56319 then low_surrogate (drop 4 cs') else None) = None"
          | "\<not> (55296 \<le> r \<and> r \<le> 57343)"
          by (cases "low_surrogate (drop 4 cs')"; cases "55296 \<le> r \<and> r \<le> 57343"; cases "r \<le> 56319") auto
        then show ?thesis
        proof cases
          case (1 l)
          then obtain u' where "json_string (drop 10 cs') = Some (u', t)"
            "u = utf8_encode (65536 + (r - 55296) * 1024 + (l - 56320)) @ u'"
            using 2 None r eu \<open>json_string s = Some (u, t)\<close> Cons by auto
          with IH [of "drop 10 cs'" u' t] Cons 2(3) low_surrogate_bound [OF 1(3)] 1 show ?thesis
            using scalar_facts(3) ValidUTF8_encode by simp
        next
          case not: 2
          then obtain u' where "json_string (drop 4 cs') = Some (u', t)" "u = utf8_encode rune_error @ u'"
            using 2 None r eu \<open>json_string s = Some (u, t)\<close> Cons by auto
          with IH [of "drop 4 cs'" u' t] Cons 2(3) show ?thesis
            using scalar_facts(1) ValidUTF8_encode by simp
        next
          case 3
          then obtain u' where "json_string (drop 4 cs') = Some (u', t)" "u = utf8_encode r @ u'"
            using 2 None r eu \<open>json_string s = Some (u, t)\<close> Cons by (auto split: if_splits)
          with IH [of "drop 4 cs'" u' t] Cons 2(3) 3 hex4_bound [OF r] show ?thesis
            using scalar_facts(2) ValidUTF8_encode by simp
        qed
      qed
    next
      case 3
      show ?thesis
      proof (cases "byte c < (128 :: nat)")
        case True
        then obtain u' where "json_string cs = Some (u', t)" "u = c # u'"
          using 3 \<open>json_string s = Some (u, t)\<close> Cons by (auto split: if_splits)
        with IH [of cs u' t] Cons True show ?thesis by (simp add: ValidUTF8_ascii_Cons)
      next
        case False
        obtain r n ok where d: "decode_rune c cs = (r, n, ok)" by (cases "decode_rune c cs")
        show ?thesis
        proof (cases ok)
          case True
          then obtain u' where "json_string (drop n cs) = Some (u', t)" "u = (c # take n cs) @ u'"
            using 3 False d \<open>json_string s = Some (u, t)\<close> Cons by (auto split: if_splits)
          with IH [of "drop n cs" u' t] Cons d True ValidUTF8_rune show ?thesis by simp
        next
          case bad: False
          then obtain u' where "json_string cs = Some (u', t)" "u = utf8_encode rune_error @ u'"
            using 3 False d \<open>json_string s = Some (u, t)\<close> Cons by (auto split: if_splits)
          with IH [of cs u' t] Cons show ?thesis
            using scalar_facts(1) ValidUTF8_encode by simp
        qed
      qed
    qed
  qed
qed

section \<open>Parsed documents\<close>

lemma json_values_ok:
  "json_value n s = Some (v, t) \<Longrightarrow> json_ok v"
  "json_elements n s = Some (vs, t) \<Longrightarrow> list_all json_ok vs"
  "json_members n s = Some (ms, t) \<Longrightarrow> list_all (\<lambda>(k, v). ValidUTF8 k \<and> json_ok v) ms"
proof (induction n s and n s and n s arbitrary: v t and vs t and ms t rule: json_value_json_elements_json_members.induct)
  case (2 n s)
  obtain c r where c: "skip_ws s = c # r" using 2(3) by (cases "skip_ws s") auto
  consider "c = quote_char" | "c = CHR ''[''" "c \<noteq> quote_char" | "c = CHR ''{''" "c \<noteq> quote_char"
    | "c \<noteq> quote_char" "c \<noteq> CHR ''[''" "c \<noteq> CHR ''{''" by blast
  then show ?case
  proof cases
    case 1
    with 2(3) c show ?thesis by (auto dest: json_string_valid)
  next
    case a: 2
    obtain d u where d: "skip_ws r = d # u" using 2(3) a c by (cases "skip_ws r") auto
    show ?thesis
      using 2(1) [OF c] 2(3) a c d by (auto split: if_splits)
  next
    case o: 3
    obtain d u where d: "skip_ws r = d # u" using 2(3) o c by (cases "skip_ws r") auto
    show ?thesis
      using 2(2) [OF c] 2(3) o c d by (auto split: if_splits)
  next
    case 4
    have "list_all num_char (takeWhile num_char (c # r))"
      using set_takeWhileD by (fastforce simp: list_all_iff)
    with 4 2(3) c show ?thesis by (auto simp: Let_def split: if_splits)
  qed
next
  case (4 n s)
  then show ?case by (auto split: option.splits prod.splits list.splits if_splits)
next
  case (6 n s)
  obtain c r where c: "skip_ws s = c # r" "c = quote_char"
    using 6(3) by (cases "skip_ws s") (auto split: if_splits)
  obtain k u where k: "json_string r = Some (k, u)"
    using 6(3) c by (cases "json_string r") auto
  obtain d w where d: "skip_ws u = d # w" "d = CHR '':''"
    using 6(3) c k by (cases "skip_ws u") (auto split: if_splits)
  obtain v x where v: "json_value n w = Some (v, x)"
    using 6(3) c k d by (cases "json_value n w") auto
  obtain e y where e: "skip_ws x = e # y"
    using 6(3) c k d v by (cases "skip_ws x") auto
  have "ValidUTF8 k" "json_ok v"
    using json_string_valid [OF k] 6(1) [OF c(1) _ k _ d(1) _ v] c(2) d(2) by simp_all
  moreover have "list_all (\<lambda>(k, v). ValidUTF8 k \<and> json_ok v) ms'" if "json_members n y = Some (ms', t)" "e = CHR '',''" for ms'
    using 6(2) [OF c(1) _ k _ d(1) _ v _ e _ _ that(1)] c(2) d(2) that(2) by simp
  ultimately show ?case
    using 6(3) c k d v e by (auto split: if_splits)
qed simp_all

lemma json_parse_ok: "json_parse s = Some v \<Longrightarrow> json_ok v"
  by (auto simp: json_parse_def split: option.splits prod.splits if_splits dest: json_values_ok(1)
      simp del: json_value.simps)

section \<open>Written documents\<close>

definition newline :: char where
  "newline = CHR 0x0A"

lemma byte_newline: "byte newline = (10 :: nat)"
  by (simp add: newline_def)

lemma hex_digit_newline:
  assumes "d < 16"
  shows "hex_digit d \<noteq> newline"
proof -
  have "48 \<le> (byte (hex_digit d) :: nat)" using assms by (simp add: hex_digit_def)
  then show ?thesis using byte_newline by auto
qed

lemma escape_ascii_no_newline: "byte c < (128 :: nat) \<Longrightarrow> newline \<notin> set (escape_ascii html c)"
proof -
  assume c: "byte c < (128 :: nat)"
  have n: "newline \<noteq> backslash" "newline \<noteq> quote_char" by (simp_all add: newline_def backslash_def quote_char_def)
  have h: "hex_digit (byte c div 16) \<noteq> newline" "hex_digit (byte c mod 16) \<noteq> newline"
    using c by (auto intro!: hex_digit_newline)
  have "c = newline \<Longrightarrow> byte c = (10 :: nat)" by (simp add: byte_newline)
  with n h show ?thesis
    unfolding escape_ascii_def by (auto simp: newline_def)
qed

lemma continuation_high: "continuation lo hi s = Some x \<Longrightarrow> 128 \<le> lo \<Longrightarrow> s \<noteq> [] \<and> 128 \<le> (byte (hd s) :: nat)"
  by (auto simp: continuation_def split: list.splits if_splits)

lemma decode_rune_high:
  assumes "decode_rune c s = (r, n, True)" and "\<not> byte c < (128 :: nat)"
  shows "\<forall>x\<in>set (c # take n s). 128 \<le> (byte x :: nat)"
proof -
  have "n \<le> 3" using assms by (auto simp: decode_rune_def Let_def split: if_splits option.splits)
  then consider "n = 0" | "n = 1" | "n = 2" | "n = 3" by linarith
  then show ?thesis
  proof cases
    case 1
    with assms(2) show ?thesis by simp
  next
    case 2
    with assms have "\<exists>x. continuation 128 191 s = Some x"
      by (auto simp: decode_rune_def Let_def split: if_splits option.splits)
    with 2 assms(2) continuation_high show ?thesis by (cases s) fastforce+
  next
    case 3
    with assms have "\<exists>x y. continuation (if byte c = (224 :: nat) then 160 else 128) (if byte c = (237 :: nat) then 159 else 191) s = Some x
        \<and> continuation 128 191 (drop 1 s) = Some y"
      by (auto simp: decode_rune_def Let_def split: if_splits option.splits)
    moreover have "128 \<le> (if byte c = (224 :: nat) then 160 else 128 :: nat)" by simp
    ultimately have "\<exists>lo hi x y. 128 \<le> lo \<and> continuation lo hi s = Some x \<and> continuation 128 191 (drop 1 s) = Some y"
      by blast
    then have "s \<noteq> [] \<and> 128 \<le> (byte (hd s) :: nat)" "drop 1 s \<noteq> [] \<and> 128 \<le> (byte (hd (drop 1 s)) :: nat)"
      using continuation_high by blast+
    with 3 assms(2) show ?thesis by (cases s; cases "tl s") (auto simp: numeral_2_eq_2)
  next
    case 4
    with assms have "\<exists>x y z. continuation (if byte c = (240 :: nat) then 144 else 128) (if byte c = (244 :: nat) then 143 else 191) s = Some x
        \<and> continuation 128 191 (drop 1 s) = Some y \<and> continuation 128 191 (drop 2 s) = Some z"
      by (auto simp: decode_rune_def Let_def split: if_splits option.splits)
    moreover have "128 \<le> (if byte c = (240 :: nat) then 144 else 128 :: nat)" by simp
    ultimately have "\<exists>lo hi x y z. 128 \<le> lo \<and> continuation lo hi s = Some x \<and> continuation 128 191 (drop 1 s) = Some y
        \<and> continuation 128 191 (drop 2 s) = Some z"
      by blast
    then have "s \<noteq> [] \<and> 128 \<le> (byte (hd s) :: nat)" "drop 1 s \<noteq> [] \<and> 128 \<le> (byte (hd (drop 1 s)) :: nat)"
      "drop 2 s \<noteq> [] \<and> 128 \<le> (byte (hd (drop 2 s)) :: nat)"
      using continuation_high by blast+
    with 4 assms(2) show ?thesis
      by (cases s; cases "tl s"; cases "tl (tl s)") (auto simp: numeral_2_eq_2 numeral_3_eq_3)
  qed
qed

lemma json_escape_no_newline: "newline \<notin> set (json_escape html s)"
proof (induction html s rule: json_escape.induct)
  case (1 html)
  then show ?case by simp
next
  case (2 html c s)
  have n: "newline \<noteq> backslash" "newline \<notin> set ''ufffd''" "newline \<notin> set ''u2028''" "newline \<notin> set ''u2029''"
    by (simp_all add: newline_def backslash_def)
  show ?case
  proof (cases "byte c < (128 :: nat)")
    case True
    with 2(1) escape_ascii_no_newline show ?thesis by simp
  next
    case False
    obtain r k ok where d: "decode_rune c s = (r, k, ok)" by (cases "decode_rune c s")
    have "newline \<notin> set (c # take k s)" if ok
      using decode_rune_high [of c s r k] d that False byte_newline by force
    with 2 False d n show ?thesis
      by (cases ok) auto
  qed
qed

lemma join_no_newline: "newline \<notin> set sep \<Longrightarrow> list_all (\<lambda>s. newline \<notin> set s) ss \<Longrightarrow> newline \<notin> set (join_with sep ss)"
  by (induction sep ss rule: join_with.induct) auto

lemma json_encode_no_newline: "json_ok v \<Longrightarrow> newline \<notin> set (json_encode html v)"
proof (induction html v rule: json_encode.induct)
  case (3 html n)
  then show ?case by (auto simp: list_all_iff num_char_def is_digit_def newline_def)
next
  case (4 html s)
  then show ?case using json_escape_no_newline by (auto simp: json_quote_def newline_def quote_char_def)
next
  case (5 html vs)
  then have "newline \<notin> set (join_with '','' (map (json_encode html) vs))"
    by (intro join_no_newline) (auto simp: list_all_iff newline_def)
  then show ?case by (simp add: newline_def)
next
  case (6 html ms)
  have q: "newline \<notin> set (json_quote html k)" for k
    using json_escape_no_newline by (auto simp: json_quote_def newline_def quote_char_def)
  have "newline \<notin> set (join_with '','' (map (\<lambda>(k, v). json_quote html k @ '':'' @ json_encode html v) ms))"
    using 6 q by (intro join_no_newline) (fastforce simp: list_all_iff newline_def)+
  then show ?case by (simp add: newline_def)
qed (simp_all add: newline_def)

end
