(* ===== verification/Go_Struct.thy ===== *)
theory Go_Struct
  imports Go_Json_Valid
begin

text \<open>
  How \<^verbatim>\<open>encoding/json\<close> writes and fills Go structs. A \<open>shape\<close> is a Go type as the package sees it, with
  the names and the \<^verbatim>\<open>omitempty\<close> flags of the struct tags; a \<open>gval\<close> is a value of such a type. The
  component theories give the shapes of their structs and convert between \<open>gval\<close> and their records, so
  that the round trip proved here holds for every document of the program.
\<close>

datatype shape =
    TString
  | TInt int int
  | TBool
  | TSlice shape
  | TPtr shape
  | TStruct "(bytes \<times> bool \<times> shape) list"

datatype gval =
    VString bytes
  | VInt int
  | VBool bool
  | VSlice "gval list option"
  | VPtr "gval option"
  | VStruct "gval list"

definition TInt64 :: shape where "TInt64 = TInt (- (2 ^ 63)) (2 ^ 63 - 1)"
definition TUint64 :: shape where "TUint64 = TInt 0 (2 ^ 64 - 1)"

fun zero_value :: "shape \<Rightarrow> gval" where
  "zero_value TString = VString []"
| "zero_value (TInt lo hi) = VInt 0"
| "zero_value TBool = VBool False"
| "zero_value (TSlice t) = VSlice None"
| "zero_value (TPtr t) = VPtr None"
| "zero_value (TStruct fs) = VStruct (map (\<lambda>(n, om, t). zero_value t) fs)"

text \<open>The values that \<^verbatim>\<open>omitempty\<close> leaves out.\<close>

fun is_empty_value :: "gval \<Rightarrow> bool" where
  "is_empty_value (VString s) = (s = [])"
| "is_empty_value (VInt n) = (n = 0)"
| "is_empty_value (VBool b) = (\<not> b)"
| "is_empty_value (VSlice xs) = (xs = None \<or> xs = Some [])"
| "is_empty_value (VPtr x) = (x = None)"
| "is_empty_value (VStruct vs) = False"

text \<open>Selectors, for the conversion of values to the records of the components.\<close>

fun g_string :: "gval \<Rightarrow> bytes" where
  "g_string (VString s) = s"
| "g_string _ = []"

fun g_int :: "gval \<Rightarrow> int" where
  "g_int (VInt n) = n"
| "g_int _ = 0"

fun g_bool :: "gval \<Rightarrow> bool" where
  "g_bool (VBool b) = b"
| "g_bool _ = False"

fun g_slice :: "gval \<Rightarrow> gval list option" where
  "g_slice (VSlice xs) = xs"
| "g_slice _ = None"

fun g_ptr :: "gval \<Rightarrow> gval option" where
  "g_ptr (VPtr x) = x"
| "g_ptr _ = None"

fun g_fields :: "gval \<Rightarrow> gval list" where
  "g_fields (VStruct vs) = vs"
| "g_fields _ = []"

definition VStrings :: "bytes list option \<Rightarrow> gval" where
  "VStrings xs = VSlice (map_option (map VString) xs)"

definition g_strings :: "gval \<Rightarrow> bytes list option" where
  "g_strings v = map_option (map g_string) (g_slice v)"

lemma g_strings_VStrings [simp]: "g_strings (VStrings xs) = xs"
  by (cases xs) (simp_all add: g_strings_def VStrings_def comp_def)

section \<open>Writing\<close>

fun marshal :: "shape \<Rightarrow> gval \<Rightarrow> json"
and marshal_list :: "shape \<Rightarrow> gval list \<Rightarrow> json list"
and marshal_fields :: "(bytes \<times> bool \<times> shape) list \<Rightarrow> gval list \<Rightarrow> (bytes \<times> json) list" where
  "marshal TString (VString s) = JStr s"
| "marshal (TInt lo hi) (VInt n) = jint n"
| "marshal TBool (VBool b) = JBool b"
| "marshal (TSlice t) (VSlice (Some xs)) = JArr (marshal_list t xs)"
| "marshal (TPtr t) (VPtr (Some x)) = marshal t x"
| "marshal (TStruct fs) (VStruct vs) = JObj (marshal_fields fs vs)"
| "marshal _ _ = JNull"
| "marshal_list t [] = []"
| "marshal_list t (x # xs) = marshal t x # marshal_list t xs"
| "marshal_fields ((n, om, t) # fs) (v # vs) =
     (if om \<and> is_empty_value v then marshal_fields fs vs else (n, marshal t v) # marshal_fields fs vs)"
| "marshal_fields _ _ = []"

section \<open>Reading\<close>

text \<open>\<^verbatim>\<open>strconv.ParseInt\<close> and \<^verbatim>\<open>strconv.ParseUint\<close> on the literal of a JSON number.\<close>

definition parse_int_literal :: "int \<Rightarrow> int \<Rightarrow> bytes \<Rightarrow> int option" where
  "parse_int_literal lo hi s =
     (let neg = (s \<noteq> [] \<and> hd s = CHR ''-''); ds = (if neg then tl s else s) in
      if ds = [] \<or> (neg \<and> lo = 0) then None
      else case decimal_value 0 ds of
             None \<Rightarrow> None
           | Some n \<Rightarrow> let x = (if neg then - int n else int n) in if lo \<le> x \<and> x \<le> hi then Some x else None)"

text \<open>
  Member names are matched exactly, or else with letter case folded; apart from the ASCII letters only
  the long s and the Kelvin sign fold to a letter of a field name.
\<close>

definition fold_rune :: "nat \<Rightarrow> nat" where
  "fold_rune r = (if 97 \<le> r \<and> r \<le> 122 then r - 32 else if r = 383 then 83 else if r = 8490 then 75 else r)"

definition fold_name :: "bytes \<Rightarrow> nat list" where
  "fold_name s = map (\<lambda>(r, ok). fold_rune r) (runes s)"

fun find_name :: "(bytes \<Rightarrow> bool) \<Rightarrow> (bytes \<times> bool \<times> shape) list \<Rightarrow> (nat \<times> shape) option" where
  "find_name P [] = None"
| "find_name P ((n, om, t) # fs) = (if P n then Some (0, t) else map_option (apfst Suc) (find_name P fs))"

definition find_field :: "(bytes \<times> bool \<times> shape) list \<Rightarrow> bytes \<Rightarrow> (nat \<times> shape) option" where
  "find_field fs k =
     (case find_name (\<lambda>n. n = k) fs of
        Some r \<Rightarrow> Some r
      | None \<Rightarrow> find_name (\<lambda>n. fold_name n = fold_name k) fs)"

text \<open>
  \<open>unmarshal strict t old j\<close> is the value after decoding \<open>j\<close> into a variable of type \<open>t\<close> that holds
  \<open>old\<close>; \<^const>\<open>None\<close> stands for any of the errors of the decoder, \<open>strict\<close> for
  \<^verbatim>\<open>DisallowUnknownFields\<close>.
\<close>

fun unmarshal :: "bool \<Rightarrow> shape \<Rightarrow> gval \<Rightarrow> json \<Rightarrow> gval option"
and unmarshal_list :: "bool \<Rightarrow> shape \<Rightarrow> gval list \<Rightarrow> json list \<Rightarrow> gval list option"
and unmarshal_members :: "bool \<Rightarrow> (bytes \<times> bool \<times> shape) list \<Rightarrow> gval list \<Rightarrow> (bytes \<times> json) list \<Rightarrow> gval list option" where
  "unmarshal strict t old JNull =
     (case t of TSlice _ \<Rightarrow> Some (VSlice None) | TPtr _ \<Rightarrow> Some (VPtr None) | _ \<Rightarrow> Some old)"
| "unmarshal strict t old (JStr s) =
     (case t of
        TString \<Rightarrow> Some (VString s)
      | TPtr TString \<Rightarrow> Some (VPtr (Some (VString s)))
      | _ \<Rightarrow> None)"
| "unmarshal strict t old (JNum n) =
     (case t of
        TInt lo hi \<Rightarrow> map_option VInt (parse_int_literal lo hi n)
      | TPtr (TInt lo hi) \<Rightarrow> map_option (\<lambda>x. VPtr (Some (VInt x))) (parse_int_literal lo hi n)
      | _ \<Rightarrow> None)"
| "unmarshal strict t old (JBool b) =
     (case t of
        TBool \<Rightarrow> Some (VBool b)
      | TPtr TBool \<Rightarrow> Some (VPtr (Some (VBool b)))
      | _ \<Rightarrow> None)"
| "unmarshal strict t old (JArr js) =
     (case t of
        TSlice u \<Rightarrow>
          map_option (\<lambda>vs. VSlice (Some vs)) (unmarshal_list strict u (case old of VSlice (Some vs) \<Rightarrow> vs | _ \<Rightarrow> []) js)
      | _ \<Rightarrow> None)"
| "unmarshal strict t old (JObj ms) =
     (case t of
        TStruct fs \<Rightarrow>
          map_option VStruct (unmarshal_members strict fs (case old of VStruct vs \<Rightarrow> vs | _ \<Rightarrow> []) ms)
      | TPtr (TStruct fs) \<Rightarrow>
          map_option (\<lambda>vs. VPtr (Some (VStruct vs)))
            (unmarshal_members strict fs
               (case old of VPtr (Some (VStruct vs)) \<Rightarrow> vs | _ \<Rightarrow> map (\<lambda>(n, om, u). zero_value u) fs) ms)
      | _ \<Rightarrow> None)"
| "unmarshal_list strict t olds [] = Some []"
| "unmarshal_list strict t olds (j # js) =
     (case unmarshal strict t (case olds of [] \<Rightarrow> zero_value t | x # _ \<Rightarrow> x) j of
        None \<Rightarrow> None
      | Some v \<Rightarrow> map_option (\<lambda>vs. v # vs) (unmarshal_list strict t (drop 1 olds) js))"
| "unmarshal_members strict fs vs [] = Some vs"
| "unmarshal_members strict fs vs ((k, j) # ms) =
     (case find_field fs k of
        None \<Rightarrow> if strict then None else unmarshal_members strict fs vs ms
      | Some (i, t) \<Rightarrow>
          (case unmarshal strict t (vs ! i) j of
             None \<Rightarrow> None
           | Some v \<Rightarrow> unmarshal_members strict fs (vs[i := v]) ms))"

text \<open>Documents: the decoder limits the nesting of arrays and objects.\<close>

fun json_depth :: "json \<Rightarrow> nat" where
  "json_depth (JArr js) = Suc (fold max (map json_depth js) 0)"
| "json_depth (JObj ms) = Suc (fold max (map (\<lambda>(k, j). json_depth j) ms) 0)"
| "json_depth _ = 0"

definition max_nesting :: nat where "max_nesting = 10000"

definition Unmarshal :: "bool \<Rightarrow> shape \<Rightarrow> bytes \<Rightarrow> gval option" where
  "Unmarshal strict t raw =
     (case json_parse raw of
        None \<Rightarrow> None
      | Some j \<Rightarrow> if json_depth j \<le> max_nesting then unmarshal strict t (zero_value t) j else None)"

definition Marshal :: "shape \<Rightarrow> gval \<Rightarrow> bytes" where
  "Marshal t v = json_encode True (marshal t v)"

section \<open>Round trip\<close>

fun pointee :: "shape \<Rightarrow> bool" where
  "pointee (TSlice t) = False"
| "pointee (TPtr t) = False"
| "pointee t = True"

text \<open>
  The values of a type that a struct tag can carry: integers in range, pointers to scalars and structs,
  and no empty but non-nil slice under \<^verbatim>\<open>omitempty\<close>, which is read back as nil.
\<close>

fun shaped :: "shape \<Rightarrow> gval \<Rightarrow> bool"
and shaped_list :: "shape \<Rightarrow> gval list \<Rightarrow> bool"
and shaped_fields :: "(bytes \<times> bool \<times> shape) list \<Rightarrow> gval list \<Rightarrow> bool" where
  "shaped TString (VString s) = True"
| "shaped (TInt lo hi) (VInt n) = (lo \<le> n \<and> n \<le> hi)"
| "shaped TBool (VBool b) = True"
| "shaped (TSlice t) (VSlice None) = True"
| "shaped (TSlice t) (VSlice (Some xs)) = shaped_list t xs"
| "shaped (TPtr t) (VPtr None) = True"
| "shaped (TPtr t) (VPtr (Some x)) = (pointee t \<and> shaped t x)"
| "shaped (TStruct fs) (VStruct vs) = (distinct (map fst fs) \<and> shaped_fields fs vs)"
| "shaped _ _ = False"
| "shaped_list t [] = True"
| "shaped_list t (x # xs) = (shaped t x \<and> shaped_list t xs)"
| "shaped_fields [] [] = True"
| "shaped_fields ((n, om, t) # fs) (v # vs) = (shaped t v \<and> (om \<longrightarrow> v \<noteq> VSlice (Some [])) \<and> shaped_fields fs vs)"
| "shaped_fields _ _ = False"

lemma parse_int_literal_Itoa: "lo \<le> n \<Longrightarrow> n \<le> hi \<Longrightarrow> parse_int_literal lo hi (Itoa n) = Some n"
  by (auto simp: parse_int_literal_def Itoa_def Let_def decimal_value_nat_decimal)

lemma find_name_append:
  "find_name P (pre @ fs) =
     (case find_name P pre of Some r \<Rightarrow> Some r | None \<Rightarrow> map_option (apfst ((+) (length pre))) (find_name P fs))"
proof (induction pre)
  case Nil
  then show ?case by (cases "find_name P fs") (simp_all add: apfst_def map_prod_def)
next
  case (Cons f pre)
  obtain n om t where f: "f = (n, om, t)" by (cases f)
  show ?case
    using Cons by (cases "find_name P pre"; cases "find_name P fs") (auto simp: f)
qed

lemma find_name_None: "find_name P fs = None \<longleftrightarrow> list_all (\<lambda>f. \<not> P (fst f)) fs"
  by (induction P fs rule: find_name.induct) auto

lemma find_field_exact:
  assumes "distinct (map fst (pre @ (n, om, t) # fs))"
  shows "find_field (pre @ (n, om, t) # fs) n = Some (length pre, t)"
proof -
  have "find_name (\<lambda>m. m = n) pre = None"
    using assms by (auto simp: find_name_None list_all_iff rev_image_eqI)
  then show ?thesis by (simp add: find_field_def find_name_append)
qed

lemma empty_is_zero: "shaped t v \<Longrightarrow> is_empty_value v \<Longrightarrow> v \<noteq> VSlice (Some []) \<Longrightarrow> v = zero_value t"
  by (cases v; cases t) auto

lemma unmarshal_marshal:
  "shaped t v \<Longrightarrow> unmarshal strict t (zero_value t) (marshal t v) = Some v"
  "shaped_list t vs \<Longrightarrow> unmarshal_list strict t [] (marshal_list t vs) = Some vs"
  "shaped_fields fs ws \<Longrightarrow> distinct (map fst (pre @ fs)) \<Longrightarrow> length acc = length pre
     \<Longrightarrow> unmarshal_members strict (pre @ fs) (acc @ map (\<lambda>(n, om, t). zero_value t) fs) (marshal_fields fs ws) = Some (acc @ ws)"
proof (induction t v and t vs and fs ws arbitrary: and and pre acc rule: marshal_marshal_list_marshal_fields.induct)
  case (2 lo hi n)
  then show ?case by (simp add: jint_def parse_int_literal_Itoa)
next
  case (5 t x)
  then have "unmarshal strict t (zero_value t) (marshal t x) = Some x" "pointee t" by auto
  then show ?case
    using 5(2) by (cases t; cases x) (auto simp: jint_def parse_int_literal_Itoa)
next
  case (6 fs vs)
  then show ?case by (auto simp: 6(1) [of "[]" "[]", simplified])
next
  case (10 n om t fs v vs)
  have d: "distinct (map fst (pre @ (n, om, t) # fs))" and l: "length acc = length pre"
    using 10(5,6) by auto
  have IH: "unmarshal_members strict ((pre @ [(n, om, t)]) @ fs) ((acc @ [v]) @ map (\<lambda>(n, om, t). zero_value t) fs)
      (marshal_fields fs vs) = Some ((acc @ [v]) @ vs)"
    using 10(1) [of "pre @ [(n, om, t)]" "acc @ [v]"] 10(3) [of "pre @ [(n, om, t)]" "acc @ [v]"] 10(4) d l
    by (cases "om \<and> is_empty_value v") auto
  show ?case
  proof (cases "om \<and> is_empty_value v")
    case True
    then have "v = zero_value t" using 10(4) empty_is_zero by (auto intro: empty_is_zero)
    with True IH show ?thesis by simp
  next
    case False
    have "unmarshal strict t (zero_value t) (marshal t v) = Some v" using 10(2,4) False by auto
    with False IH l find_field_exact [OF d] show ?thesis
      by (auto simp: nth_append list_update_append)
  qed
qed (auto split: shape.splits elim: shaped.elims shaped_fields.elims)

section \<open>Documents\<close>

fun utf8_value :: "gval \<Rightarrow> bool" where
  "utf8_value (VString s) = ValidUTF8 s"
| "utf8_value (VSlice (Some xs)) = list_all utf8_value xs"
| "utf8_value (VPtr (Some x)) = utf8_value x"
| "utf8_value (VStruct vs) = list_all utf8_value vs"
| "utf8_value _ = True"

fun shape_names :: "shape \<Rightarrow> bool" where
  "shape_names (TSlice t) = shape_names t"
| "shape_names (TPtr t) = shape_names t"
| "shape_names (TStruct fs) = list_all (\<lambda>(n, om, t). ValidUTF8 n \<and> shape_names t) fs"
| "shape_names _ = True"

fun shape_depth :: "shape \<Rightarrow> nat" where
  "shape_depth (TSlice t) = Suc (shape_depth t)"
| "shape_depth (TPtr t) = shape_depth t"
| "shape_depth (TStruct fs) = Suc (fold max (map (\<lambda>(n, om, t). shape_depth t) fs) 0)"
| "shape_depth _ = 0"

lemma Itoa_json_number: "json_number_ok (Itoa n) \<and> list_all num_char (Itoa n)"
proof -
  have digits: "takeWhile is_digit (nat_decimal m) = nat_decimal m" "dropWhile is_digit (nat_decimal m) = []" for m
    using nat_decimal_digits [of m] by (simp_all add: list_all_iff takeWhile_eq_all_conv)
  have lead: "length (nat_decimal m) > 1 \<longrightarrow> hd (nat_decimal m) \<noteq> CHR ''0''" for m
  proof (induction m rule: nat_decimal.induct)
    case (1 m)
    show ?case
    proof (cases "m < 10")
      case True
      then show ?thesis by (simp add: nat_decimal.simps [of m])
    next
      case False
      with 1 have IH: "length (nat_decimal (m div 10)) > 1 \<longrightarrow> hd (nat_decimal (m div 10)) \<noteq> CHR ''0''" by blast
      have "hd (nat_decimal (m div 10)) \<noteq> CHR ''0''"
      proof (cases "m div 10 < 10")
        case True
        have "byte (digit_char (m div 10)) = 48 + m div 10" using True by (simp add: digit_char_def)
        moreover have "0 < m div 10" using False by simp
        ultimately have "digit_char (m div 10) \<noteq> CHR ''0''" by auto
        with True show ?thesis by (simp add: nat_decimal.simps [of "m div 10"])
      next
        case big: False
        then have "length (nat_decimal (m div 10)) > 1"
          by (subst nat_decimal.simps) (simp add: Suc_le_eq)
        with IH show ?thesis by blast
      qed
      with False show ?thesis by (simp add: nat_decimal.simps [of m] hd_append)
    qed
  qed
  have chars: "list_all num_char (nat_decimal m)" for m
    using nat_decimal_digits [of m] by (auto simp: list_all_iff num_char_def)
  have "json_number_ok (nat_decimal m)" "json_number_ok (CHR ''-'' # nat_decimal m)" for m
    using lead [of m] nat_decimal_digits [of m, unfolded list_all_iff]
    by (simp_all add: json_number_ok_def json_fraction_ok_def json_exponent_ok_def Let_def digits)
  then show ?thesis
    using chars by (simp add: Itoa_def num_char_def)
qed

lemma marshal_ok:
  "utf8_value v \<Longrightarrow> shape_names t \<Longrightarrow> json_ok (marshal t v)"
  "list_all utf8_value vs \<Longrightarrow> shape_names t \<Longrightarrow> list_all json_ok (marshal_list t vs)"
  "list_all utf8_value ws \<Longrightarrow> list_all (\<lambda>(n, om, t). ValidUTF8 n \<and> shape_names t) fs
     \<Longrightarrow> list_all (\<lambda>(k, j). ValidUTF8 k \<and> json_ok j) (marshal_fields fs ws)"
  by (induction t v and t vs and fs ws rule: marshal_marshal_list_marshal_fields.induct)
    (auto simp: jint_def Itoa_json_number [unfolded list_all_iff] Itoa_json_number list_all_iff)

lemma fold_max_le: "fold max xs (a :: nat) \<le> b \<longleftrightarrow> a \<le> b \<and> list_all (\<lambda>x. x \<le> b) xs"
  by (induction xs arbitrary: a) auto

lemma marshal_depth:
  "json_depth (marshal t v) \<le> shape_depth t"
  "list_all (\<lambda>j. json_depth j \<le> shape_depth t) (marshal_list t vs)"
  "\<forall>b. list_all (\<lambda>(n, om, t). shape_depth t \<le> b) fs \<longrightarrow> list_all (\<lambda>(k, j). json_depth j \<le> b) (marshal_fields fs ws)"
proof (induction t v and t vs and fs ws rule: marshal_marshal_list_marshal_fields.induct)
  case (4 t xs)
  then show ?case by (simp add: fold_max_le list_all_iff)
next
  case (6 fs vs)
  let ?b = "fold max (map (\<lambda>(n, om, t). shape_depth t) fs) 0"
  have "list_all (\<lambda>(n, om, t). shape_depth t \<le> ?b) fs"
    using fold_max_le [of "map (\<lambda>(n, om, t). shape_depth t) fs" 0 ?b] by (auto simp: list_all_iff split: prod.splits)
  with 6 have "list_all (\<lambda>(k, j). json_depth j \<le> ?b) (marshal_fields fs vs)" by blast
  then show ?case by (auto simp: fold_max_le list_all_iff split: prod.splits)
next
  case (10 n om t fs v vs)
  then show ?case by (auto simp: list_all_iff intro: order_trans)
qed (auto simp: jint_def)

lemma Unmarshal_Marshal:
  assumes "shaped t v" and "utf8_value v" and "shape_names t" and "shape_depth t \<le> max_nesting" and "skip_ws ws = []"
  shows "Unmarshal strict t (Marshal t v @ ws) = Some v"
proof -
  have "json_parse (Marshal t v @ ws) = Some (marshal t v)"
    unfolding Marshal_def by (rule json_parse_encode [OF marshal_ok(1) [OF assms(2,3)] assms(5)])
  moreover have "json_depth (marshal t v) \<le> max_nesting"
    using marshal_depth(1) assms(4) order_trans by blast
  ultimately show ?thesis
    by (simp add: Unmarshal_def unmarshal_marshal(1) [OF assms(1)])
qed

lemma Marshal_inj:
  assumes "shaped t v" "utf8_value v" "shaped t w" "utf8_value w" "shape_names t" "shape_depth t \<le> max_nesting"
    and "Marshal t v = Marshal t w"
  shows "v = w"
  using Unmarshal_Marshal [of t v "[]" True] Unmarshal_Marshal [of t w "[]" True] assms by simp

lemma Marshal_no_newline: "utf8_value v \<Longrightarrow> shape_names t \<Longrightarrow> newline \<notin> set (Marshal t v)"
  unfolding Marshal_def by (rule json_encode_no_newline [OF marshal_ok(1)])

section \<open>What a decoder returns\<close>

text \<open>Well-typed values with valid strings, which decoding preserves.\<close>

fun wf_value :: "shape \<Rightarrow> gval \<Rightarrow> bool"
and wf_values :: "shape \<Rightarrow> gval list \<Rightarrow> bool"
and wf_fields :: "(bytes \<times> bool \<times> shape) list \<Rightarrow> gval list \<Rightarrow> bool" where
  "wf_value TString (VString s) = ValidUTF8 s"
| "wf_value (TInt lo hi) (VInt n) = (lo \<le> n \<and> n \<le> hi \<or> n = 0)"
| "wf_value TBool (VBool b) = True"
| "wf_value (TSlice t) (VSlice None) = True"
| "wf_value (TSlice t) (VSlice (Some xs)) = wf_values t xs"
| "wf_value (TPtr t) (VPtr None) = True"
| "wf_value (TPtr t) (VPtr (Some x)) = wf_value t x"
| "wf_value (TStruct fs) (VStruct vs) = wf_fields fs vs"
| "wf_value _ _ = False"
| "wf_values t [] = True"
| "wf_values t (x # xs) = (wf_value t x \<and> wf_values t xs)"
| "wf_fields [] [] = True"
| "wf_fields ((n, om, t) # fs) (v # vs) = (wf_value t v \<and> wf_fields fs vs)"
| "wf_fields _ _ = False"

lemma wf_values_iff: "wf_values t xs \<longleftrightarrow> list_all (wf_value t) xs"
  by (induction xs) simp_all

lemma wf_fields_iff: "wf_fields fs vs \<longleftrightarrow> list_all2 (\<lambda>f v. wf_value (snd (snd f)) v) fs vs"
proof (induction fs arbitrary: vs)
  case Nil
  then show ?case by (cases vs) simp_all
next
  case (Cons f fs)
  then show ?case by (cases vs; cases f) simp_all
qed

lemma wf_zero: "wf_value t (zero_value t)"
proof (induction t rule: zero_value.induct)
  case (6 fs)
  have "wf_value (snd (snd f)) (case f of (n, om, t) \<Rightarrow> zero_value t)" if "f \<in> set fs" for f
    using 6 that by (cases f) auto
  then show ?case by (simp add: wf_fields_iff list_all2_conv_all_nth)
qed simp_all

lemma wf_zeros: "wf_fields fs (map (\<lambda>(n, om, t). zero_value t) fs)"
  by (auto simp: wf_fields_iff list_all2_conv_all_nth wf_zero split: prod.splits)

lemma find_name_index: "find_name P fs = Some (i, t) \<Longrightarrow> i < length fs \<and> snd (snd (fs ! i)) = t"
  by (induction P fs arbitrary: i rule: find_name.induct) (auto split: if_splits)

lemma find_field_index: "find_field fs k = Some (i, t) \<Longrightarrow> i < length fs \<and> snd (snd (fs ! i)) = t"
  unfolding find_field_def by (auto split: option.splits dest: find_name_index)

lemma parse_int_literal_range: "parse_int_literal lo hi s = Some n \<Longrightarrow> lo \<le> n \<and> n \<le> hi"
  by (auto simp: parse_int_literal_def Let_def split: if_splits option.splits)

lemma wf_fields_update:
  assumes "wf_fields fs vs" and "find_field fs k = Some (i, t)" and "wf_value t v"
  shows "wf_fields fs (vs[i := v])" and "wf_value t (vs ! i)"
  using assms find_field_index [OF assms(2)]
  by (auto simp: wf_fields_iff list_all2_conv_all_nth nth_list_update)

lemma wf_old_slice: "wf_value (TSlice t) old \<Longrightarrow> wf_values t (case old of VSlice (Some vs) \<Rightarrow> vs | _ \<Rightarrow> [])"
  by (auto split: gval.splits option.splits)

lemma wf_old_struct: "wf_value (TStruct fs) old \<Longrightarrow> wf_fields fs (case old of VStruct vs \<Rightarrow> vs | _ \<Rightarrow> [])"
  by (auto split: gval.splits)

lemma wf_old_ptr:
  "wf_value (TPtr (TStruct fs)) old \<Longrightarrow>
     wf_fields fs (case old of VPtr (Some (VStruct vs)) \<Rightarrow> vs | _ \<Rightarrow> map (\<lambda>(n, om, u). zero_value u) fs)"
  using wf_zeros [of fs] by (auto split: gval.splits option.splits)

lemma unmarshal_wf:
  "unmarshal strict t old j = Some v \<Longrightarrow> json_ok j \<Longrightarrow> wf_value t old \<Longrightarrow> wf_value t v"
  "unmarshal_list strict t olds js = Some vs \<Longrightarrow> list_all json_ok js \<Longrightarrow> wf_values t olds \<Longrightarrow> wf_values t vs"
  "unmarshal_members strict fs ws ms = Some us \<Longrightarrow> list_all (\<lambda>(k, j). ValidUTF8 k \<and> json_ok j) ms
     \<Longrightarrow> wf_fields fs ws \<Longrightarrow> wf_fields fs us"
proof (induction strict t old j and strict t olds js and strict fs ws ms arbitrary: v and vs and us
    rule: unmarshal_unmarshal_list_unmarshal_members.induct)
  case (1 strict t old)
  then show ?case by (cases t) auto
next
  case (2 strict t old s)
  then show ?case by (auto split: shape.splits)
next
  case (3 strict t old n)
  then show ?case by (auto split: shape.splits dest: parse_int_literal_range)
next
  case (4 strict t old b)
  then show ?case by (auto split: shape.splits)
next
  case (5 strict t old js)
  then show ?case using wf_old_slice by (auto split: shape.splits)
next
  case (6 strict t old ms)
  then show ?case using wf_old_struct wf_old_ptr by (auto split: shape.splits)
next
  case (8 strict t olds j js)
  have "wf_value t (case olds of [] \<Rightarrow> zero_value t | x # _ \<Rightarrow> x)" "wf_values t (drop 1 olds)"
    using 8(5) wf_zero by (cases olds; simp)+
  with 8 show ?case by (auto split: option.splits)
next
  case (10 strict fs ws k j ms)
  show ?case
  proof (cases "find_field fs k")
    case None
    with 10 show ?thesis by (auto split: if_splits)
  next
    case (Some it)
    obtain i t where it: "it = (i, t)" by (cases it)
    obtain v where v: "unmarshal strict t (ws ! i) j = Some v" "unmarshal_members strict fs (ws[i := v]) ms = Some us"
      using 10(4) Some it by (auto split: option.splits)
    have "wf_value t (ws ! i)"
      using 10(6) find_field_index [of fs k i t] Some it by (auto simp: wf_fields_iff list_all2_conv_all_nth)
    then have "wf_value t v" using 10(2) [OF Some it [symmetric] v(1)] 10(5) \<open>wf_value t (ws ! i)\<close> by simp
    then have "wf_fields fs (ws[i := v])" using wf_fields_update(1) 10(6) Some it by blast
    then show ?thesis using 10(3) [OF Some it [symmetric] v] 10(5) by simp
  qed
qed auto

lemma Unmarshal_wf: "Unmarshal strict t raw = Some v \<Longrightarrow> wf_value t v"
  by (auto simp: Unmarshal_def split: option.splits if_splits dest: json_parse_ok intro: unmarshal_wf(1) [OF _ _ wf_zero])

lemma wf_utf8: "wf_value t v \<Longrightarrow> utf8_value v"
  "wf_values t vs \<Longrightarrow> list_all utf8_value vs" "wf_fields fs ws \<Longrightarrow> list_all utf8_value ws"
  by (induction t v and t vs and fs ws rule: wf_value_wf_values_wf_fields.induct) auto

text \<open>Inversion of well-typedness, by which a decoded value is taken apart into its fields.\<close>

lemma wf_value_iffs:
  "wf_value TString v \<longleftrightarrow> (\<exists>s. v = VString s \<and> ValidUTF8 s)"
  "wf_value (TInt lo hi) v \<longleftrightarrow> (\<exists>n. v = VInt n \<and> (lo \<le> n \<and> n \<le> hi \<or> n = 0))"
  "wf_value TBool v \<longleftrightarrow> (\<exists>b. v = VBool b)"
  "wf_value (TSlice t) v \<longleftrightarrow> (\<exists>xs. v = VSlice xs \<and> (case xs of None \<Rightarrow> True | Some ys \<Rightarrow> list_all (wf_value t) ys))"
  "wf_value (TPtr t) v \<longleftrightarrow> (\<exists>x. v = VPtr x \<and> (case x of None \<Rightarrow> True | Some y \<Rightarrow> wf_value t y))"
  "wf_value (TStruct fs) v \<longleftrightarrow> (\<exists>vs. v = VStruct vs \<and> wf_fields fs vs)"
  by (cases v; auto simp: wf_values_iff split: option.splits)+

lemma wf_fields_Cons: "wf_fields ((n, om, t) # fs) vs \<longleftrightarrow> (\<exists>v ws. vs = v # ws \<and> wf_value t v \<and> wf_fields fs ws)"
  by (cases vs) auto

lemma wf_fields_Nil: "wf_fields [] vs \<longleftrightarrow> vs = []"
  by (cases vs) auto

lemma wf_string_list: "list_all (wf_value TString) vs \<Longrightarrow> vs = map VString (map g_string vs) \<and> list_all ValidUTF8 (map g_string vs)"
  by (induction vs) (auto simp: wf_value_iffs)

lemma wf_string_slice:
  "wf_value (TSlice TString) v \<longleftrightarrow> (\<exists>xs. v = VStrings xs \<and> (case xs of None \<Rightarrow> True | Some ys \<Rightarrow> list_all ValidUTF8 ys))"
  (is "_ = ?r")
proof
  assume "wf_value (TSlice TString) v"
  then obtain xs where v: "v = VSlice xs" "case xs of None \<Rightarrow> True | Some ys \<Rightarrow> list_all (wf_value TString) ys"
    unfolding wf_value_iffs by blast
  show ?r
  proof (cases xs)
    case None
    then show ?thesis by (intro exI [of _ None]) (simp add: v VStrings_def)
  next
    case (Some ys)
    then show ?thesis
      using wf_string_list [of ys] v by (intro exI [of _ "Some (map g_string ys)"]) (simp add: VStrings_def)
  qed
next
  assume ?r
  then obtain xs where v: "v = VStrings xs" "case xs of None \<Rightarrow> True | Some ys \<Rightarrow> list_all ValidUTF8 ys" by blast
  then show "wf_value (TSlice TString) v"
    by (cases xs) (auto simp: VStrings_def wf_values_iff list_all_iff)
qed

lemmas wf_simps = wf_string_slice wf_value_iffs(1-3,5,6) wf_fields_Cons wf_fields_Nil

lemma utf8_strings: "utf8_value (VStrings xs) \<longleftrightarrow> (case xs of None \<Rightarrow> True | Some ys \<Rightarrow> list_all ValidUTF8 ys)"
  by (cases xs) (simp_all add: VStrings_def list_all_iff)

lemma shaped_strings: "shaped_list TString (map VString xs)"
  by (induction xs) simp_all

lemma shaped_VStrings [simp]: "shaped (TSlice TString) (VStrings xs)"
  by (cases xs) (simp_all add: VStrings_def shaped_strings)

lemma VStrings_empty [simp]: "VStrings xs = VSlice (Some []) \<longleftrightarrow> xs = Some []"
  by (cases xs) (simp_all add: VStrings_def)

section \<open>Slices and pointers\<close>

text \<open>The elements of a slice, none of a nil slice.\<close>

definition elems :: "'a list option \<Rightarrow> 'a list" where
  "elems xs = (case xs of None \<Rightarrow> [] | Some ys \<Rightarrow> ys)"

lemma elems_simps [simp]: "elems None = []" "elems (Some ys) = ys"
  by (simp_all add: elems_def)

lemma shaped_list_iff: "shaped_list t vs \<longleftrightarrow> list_all (shaped t) vs"
  by (induction vs) simp_all

lemma shaped_structs [simp]:
  "shaped (TSlice t) (VSlice (map_option (map f) xs)) \<longleftrightarrow> (case xs of None \<Rightarrow> True | Some ys \<Rightarrow> list_all (\<lambda>y. shaped t (f y)) ys)"
  by (cases xs) (simp_all add: shaped_list_iff list_all_iff)

lemma shaped_ptr [simp]:
  "shaped (TPtr t) (VPtr (map_option f x)) \<longleftrightarrow> (case x of None \<Rightarrow> True | Some y \<Rightarrow> pointee t \<and> shaped t (f y))"
  by (cases x) simp_all

lemma utf8_structs [simp]:
  "utf8_value (VSlice (map_option (map f) xs)) \<longleftrightarrow> (case xs of None \<Rightarrow> True | Some ys \<Rightarrow> list_all (\<lambda>y. utf8_value (f y)) ys)"
  by (cases xs) (simp_all add: list_all_iff)

lemma utf8_ptr [simp]: "utf8_value (VPtr (map_option f x)) \<longleftrightarrow> (case x of None \<Rightarrow> True | Some y \<Rightarrow> utf8_value (f y))"
  by (cases x) simp_all

lemma elems_all: "(case xs of None \<Rightarrow> True | Some ys \<Rightarrow> list_all P ys) \<longleftrightarrow> list_all P (elems xs)"
  by (cases xs) simp_all

text \<open>Texts that are quoted as they are.\<close>

definition json_plain :: "char \<Rightarrow> bool" where
  "json_plain c = (32 \<le> byte c \<and> byte c < 127 \<and> c \<notin> {quote_char, backslash, CHR ''<'', CHR ''>'', CHR ''&''})"

lemma json_escape_plain: "list_all json_plain s \<Longrightarrow> json_escape html s = s"
proof (induction s)
  case (Cons c s)
  then have "json_plain c" by simp
  then have "escape_ascii html c = [c]" "byte c < (128 :: nat)"
    by (auto simp: json_plain_def escape_ascii_def quote_char_def backslash_def split: if_splits)
  with Cons show ?case by simp
qed simp

lemma json_quote_plain: "list_all json_plain s \<Longrightarrow> json_quote html s = [quote_char] @ s @ [quote_char]"
  by (simp add: json_quote_def json_escape_plain)

lemma lower_hex_plain: "list_all is_lower_hex s \<Longrightarrow> list_all json_plain s"
  by (auto simp: list_all_iff is_lower_hex_def is_digit_def json_plain_def quote_char_def backslash_def)

end
