(* ===== verification/Go_Time.thy ===== *)
theory Go_Time
  imports Go_Json_Valid
begin

text \<open>
  The part of Go's \<^verbatim>\<open>time\<close> package that the program uses on \<^verbatim>\<open>RFC3339Nano\<close> texts. A time is kept as the
  civil date and clock of its zone. \<open>ParseRFC3339Nano\<close> is as lenient as \<^verbatim>\<open>time.Parse\<close>: an hour of one
  digit, a comma before the fraction, more than nine fraction digits, and offsets up to 24:60.
\<close>

record gotime =
  t_year :: nat
  t_month :: nat
  t_day :: nat
  t_hour :: nat
  t_minute :: nat
  t_second :: nat
  t_nanos :: nat
  t_offset :: int

definition leap_year :: "nat \<Rightarrow> bool" where
  "leap_year y = (y mod 4 = 0 \<and> (y mod 100 \<noteq> 0 \<or> y mod 400 = 0))"

definition days_in :: "nat \<Rightarrow> nat \<Rightarrow> nat" where
  "days_in m y = (if m = 2 then (if leap_year y then 29 else 28) else if m \<in> {4, 6, 9, 11} then 30 else 31)"

definition wf_time :: "gotime \<Rightarrow> bool" where
  "wf_time t = (t_year t \<le> 9999 \<and> 1 \<le> t_month t \<and> t_month t \<le> 12 \<and> 1 \<le> t_day t
     \<and> t_day t \<le> days_in (t_month t) (t_year t) \<and> t_hour t < 24 \<and> t_minute t < 60 \<and> t_second t < 60
     \<and> t_nanos t < 1000000000)"

section \<open>Writing\<close>

definition pad :: "nat \<Rightarrow> nat \<Rightarrow> bytes" where
  "pad w n = replicate (w - length (nat_decimal n)) CHR ''0'' @ nat_decimal n"

definition format_fraction :: "nat \<Rightarrow> bytes" where
  "format_fraction ns = (if ns = 0 then [] else CHR ''.'' # rev (dropWhile (\<lambda>c. c = CHR ''0'') (rev (pad 9 ns))))"

definition format_zone :: "int \<Rightarrow> bytes" where
  "format_zone off =
     (if off = 0 then ''Z''
      else (if off < 0 then CHR ''-'' else CHR ''+'') #
        pad 2 (nat \<bar>off\<bar> div 60) @ '':'' @ pad 2 (nat \<bar>off\<bar> mod 60))"

definition FormatRFC3339Nano :: "gotime \<Rightarrow> bytes" where
  "FormatRFC3339Nano t =
     pad 4 (t_year t) @ CHR ''-'' # pad 2 (t_month t) @ CHR ''-'' # pad 2 (t_day t) @ CHR ''T'' # pad 2 (t_hour t)
       @ CHR '':'' # pad 2 (t_minute t) @ CHR '':'' # pad 2 (t_second t) @ format_fraction (t_nanos t) @ format_zone (t_offset t)"

section \<open>Reading\<close>

fun getnum :: "bool \<Rightarrow> bytes \<Rightarrow> (nat \<times> bytes) option" where
  "getnum fixed [] = None"
| "getnum fixed [c] = (if is_digit c \<and> \<not> fixed then Some (byte c - 48, []) else None)"
| "getnum fixed (c # d # s) =
     (if \<not> is_digit c then None
      else if is_digit d then Some ((byte c - 48) * 10 + (byte d - 48), s)
      else if fixed then None else Some (byte c - 48, d # s))"

definition expect :: "char \<Rightarrow> bytes \<Rightarrow> bytes option" where
  "expect c s = (case s of [] \<Rightarrow> None | d # t \<Rightarrow> if c = d then Some t else None)"

definition parse_year :: "bytes \<Rightarrow> (nat \<times> bytes) option" where
  "parse_year s =
     (if length s < 4 then None
      else case decimal_value 0 (take 4 s) of None \<Rightarrow> None | Some y \<Rightarrow> Some (y, drop 4 s))"

definition parse_fraction :: "bytes \<Rightarrow> nat \<times> bytes" where
  "parse_fraction s =
     (case s of
        c # t \<Rightarrow>
          let ds = takeWhile is_digit t in
          if (c = CHR ''.'' \<or> c = CHR '','') \<and> ds \<noteq> []
          then (the (decimal_value 0 (take 9 (ds @ replicate 9 CHR ''0''))), dropWhile is_digit t)
          else (0, s)
      | [] \<Rightarrow> (0, s))"

definition parse_zone :: "bytes \<Rightarrow> int option" where
  "parse_zone s =
     (if s = ''Z'' then Some 0
      else case s of
        c # t \<Rightarrow>
          if c \<noteq> CHR ''+'' \<and> c \<noteq> CHR ''-'' then None
          else Option.bind (getnum True t) (\<lambda>(h, t).
               Option.bind (expect CHR '':'' t) (\<lambda>t.
               Option.bind (getnum True t) (\<lambda>(m, t).
                 if t = [] \<and> h \<le> 24 \<and> m \<le> 60
                 then Some (if c = CHR ''-'' then - int (h * 60 + m) else int (h * 60 + m)) else None)))
      | [] \<Rightarrow> None)"

definition parse_tail :: "nat \<Rightarrow> nat \<Rightarrow> nat \<Rightarrow> nat \<Rightarrow> nat \<Rightarrow> nat \<Rightarrow> bytes \<Rightarrow> gotime option" where
  "parse_tail y mo d h mi sec s =
     (case parse_fraction s of (ns, z) \<Rightarrow>
      Option.bind (parse_zone z) (\<lambda>off.
       let t = \<lparr>t_year = y, t_month = mo, t_day = d, t_hour = h, t_minute = mi, t_second = sec, t_nanos = ns, t_offset = off\<rparr> in
       if wf_time t then Some t else None))"

definition ParseRFC3339Nano :: "bytes \<Rightarrow> gotime option" where
  "ParseRFC3339Nano s =
     Option.bind (parse_year s) (\<lambda>(y, s).
     Option.bind (expect CHR ''-'' s) (\<lambda>s.
     Option.bind (getnum True s) (\<lambda>(mo, s).
     Option.bind (expect CHR ''-'' s) (\<lambda>s.
     Option.bind (getnum True s) (\<lambda>(d, s).
     Option.bind (expect CHR ''T'' s) (\<lambda>s.
     Option.bind (getnum False s) (\<lambda>(h, s).
     Option.bind (expect CHR '':'' s) (\<lambda>s.
     Option.bind (getnum True s) (\<lambda>(mi, s).
     Option.bind (expect CHR '':'' s) (\<lambda>s.
     Option.bind (getnum True s) (\<lambda>(sec, s). parse_tail y mo d h mi sec s)))))))))))"

text \<open>The instant of a time in nanoseconds since 0000-03-01 UTC, for the comparisons.\<close>

definition days_of_civil :: "nat \<Rightarrow> nat \<Rightarrow> nat \<Rightarrow> int" where
  "days_of_civil y m d =
     (let y' = int y - (if m \<le> 2 then 1 else 0); m' = (if m \<le> 2 then int m + 9 else int m - 3) in
      365 * y' + y' div 4 - y' div 100 + y' div 400 + (153 * m' + 2) div 5 + int d - 1)"

definition instant :: "gotime \<Rightarrow> int" where
  "instant t =
     (((days_of_civil (t_year t) (t_month t) (t_day t) * 24 + int (t_hour t)) * 60 + int (t_minute t) - t_offset t) * 60
        + int (t_second t)) * 1000000000 + int (t_nanos t)"

definition Before :: "gotime \<Rightarrow> gotime \<Rightarrow> bool" where
  "Before s t = (instant s < instant t)"

section \<open>Round trip\<close>

lemma nat_decimal_length: "n < 10 ^ Suc k \<Longrightarrow> length (nat_decimal n) \<le> Suc k"
proof (induction k arbitrary: n)
  case 0
  then show ?case by (simp add: nat_decimal.simps [of n])
next
  case (Suc k)
  then have "n div 10 < 10 ^ Suc k" by simp
  from Suc.IH [OF this] show ?case by (simp add: nat_decimal.simps [of n])
qed

lemma length_pad: "n < 10 ^ w \<Longrightarrow> 0 < w \<Longrightarrow> length (pad w n) = w"
  using nat_decimal_length [of n "w - 1"] by (simp add: pad_def)

lemma pad_digits: "list_all is_digit (pad w n)"
  using nat_decimal_digits [of n] by (auto simp: pad_def list_all_iff is_digit_def)

lemma decimal_value_zeros: "decimal_value 0 (replicate k CHR ''0'' @ s) = decimal_value 0 s"
  by (induction k) (simp_all add: is_digit_def)

lemma decimal_value_pad: "decimal_value 0 (pad w n) = Some n"
  by (simp add: pad_def decimal_value_zeros decimal_value_nat_decimal)

lemma getnum_pad: "n < 100 \<Longrightarrow> getnum fixed (pad 2 n @ s) = Some (n, s)"
proof -
  assume n: "n < 100"
  obtain c d where p: "pad 2 n = [c, d]"
    using length_pad [of n 2] n by (auto simp: length_Suc_conv numeral_2_eq_2)
  have dig: "is_digit c" "is_digit d" using pad_digits [of 2 n] by (simp_all add: p)
  have "decimal_value 0 [c, d] = Some n" using decimal_value_pad [of 2 n] p by simp
  then show ?thesis using dig by (simp add: p)
qed

lemma parse_year_pad: "n \<le> 9999 \<Longrightarrow> parse_year (pad 4 n @ s) = Some (n, s)"
  using length_pad [of n 4] by (simp add: parse_year_def decimal_value_pad)

lemma expect_Cons [simp]: "expect c (d # s) = (if c = d then Some s else None)"
  by (simp add: expect_def)

lemma dropWhile_zeros: "\<exists>k. xs = replicate k c @ dropWhile (\<lambda>d. d = c) xs"
proof (induction xs)
  case (Cons x xs)
  then obtain k where "xs = replicate k c @ dropWhile (\<lambda>d. d = c) xs" by blast
  then show ?case by (cases "x = c") (auto intro: exI [of _ "Suc k"] exI [of _ 0])
qed simp

lemma take_replicate_pad: "length ds + k = w \<Longrightarrow> take w (ds @ replicate w c) = ds @ replicate k c"
  by auto

lemma parse_fraction_format:
  assumes "ns < 1000000000" and "s = [] \<or> (\<not> is_digit (hd s) \<and> hd s \<noteq> CHR ''.'' \<and> hd s \<noteq> CHR '','')"
  shows "parse_fraction (format_fraction ns @ s) = (ns, s)"
proof (cases "ns = 0")
  case True
  then show ?thesis using assms(2) by (cases s) (auto simp: parse_fraction_def format_fraction_def Let_def)
next
  case False
  let ?p = "pad 9 ns"
  define ds where "ds = rev (dropWhile (\<lambda>c. c = CHR ''0'') (rev ?p))"
  obtain k where k: "rev ?p = replicate k CHR ''0'' @ dropWhile (\<lambda>c. c = CHR ''0'') (rev ?p)"
    using dropWhile_zeros [of "rev ?p" "CHR ''0''"] by (elim exE)
  have p: "?p = ds @ replicate k CHR ''0''"
    using arg_cong [OF k, of rev] unfolding ds_def rev_append rev_rev_ident rev_replicate .
  have len: "length ?p = 9" using assms(1) by (simp add: length_pad)
  have digits: "list_all is_digit ds" using pad_digits [of 9 ns] p by simp
  have "ds \<noteq> []"
  proof
    assume "ds = []"
    then have "decimal_value 0 (replicate k CHR ''0'' @ []) = Some ns" using decimal_value_pad [of 9 ns] p by simp
    then show False using False by (simp only: decimal_value_zeros) simp
  qed
  moreover have "take 9 (ds @ replicate 9 CHR ''0'') = ?p"
    unfolding p by (rule take_replicate_pad) (use len p in simp)
  moreover have "takeWhile is_digit (ds @ s) = ds" "dropWhile is_digit (ds @ s) = s"
    using takeWhile_stops [OF digits, of s] assms(2) by blast+
  ultimately show ?thesis
    using False by (simp add: format_fraction_def ds_def [symmetric] parse_fraction_def Let_def decimal_value_pad)
qed

lemma parse_zone_format: "- 1440 \<le> off \<Longrightarrow> off \<le> 1440 \<Longrightarrow> parse_zone (format_zone off) = Some off"
proof -
  assume off: "- 1440 \<le> off" "off \<le> 1440"
  have h: "nat \<bar>off\<bar> div 60 < 100" "nat \<bar>off\<bar> div 60 \<le> 24" using off by linarith+
  have m: "nat \<bar>off\<bar> mod 60 < 100" "nat \<bar>off\<bar> mod 60 \<le> 60" by (simp_all add: less_imp_le_nat le_simps)
  have "int (nat \<bar>off\<bar> div 60 * 60 + nat \<bar>off\<bar> mod 60) = \<bar>off\<bar>" by (metis div_mult_mod_eq int_nat_eq abs_ge_zero)
  moreover have "getnum True (pad 2 (nat \<bar>off\<bar> mod 60)) = Some (nat \<bar>off\<bar> mod 60, [])"
    using getnum_pad [OF m(1), of True "[]"] by simp
  ultimately show ?thesis
    using h m by (auto simp: parse_zone_def format_zone_def getnum_pad)
qed

lemma zone_head: "format_zone off \<noteq> [] \<and> \<not> is_digit (hd (format_zone off)) \<and> hd (format_zone off) \<noteq> CHR ''.''
    \<and> hd (format_zone off) \<noteq> CHR '',''"
  by (simp add: format_zone_def is_digit_def)

lemma parse_tail_format:
  assumes "wf_time t" and "- 1440 \<le> t_offset t" and "t_offset t \<le> 1440"
  shows "parse_tail (t_year t) (t_month t) (t_day t) (t_hour t) (t_minute t) (t_second t)
    (format_fraction (t_nanos t) @ format_zone (t_offset t)) = Some t"
proof -
  have "t_nanos t < 1000000000" using assms(1) by (simp add: wf_time_def)
  then have "parse_fraction (format_fraction (t_nanos t) @ format_zone (t_offset t)) = (t_nanos t, format_zone (t_offset t))"
    using zone_head [of "t_offset t"] parse_fraction_format by blast
  then show ?thesis
    using assms parse_zone_format by (cases t) (simp add: parse_tail_def)
qed

lemma Parse_Format:
  assumes "wf_time t" and "- 1440 \<le> t_offset t" and "t_offset t \<le> 1440"
  shows "ParseRFC3339Nano (FormatRFC3339Nano t) = Some t"
proof -
  have "t_month t < 100" "t_day t < 100" "t_hour t < 100" "t_minute t < 100" "t_second t < 100" "t_year t \<le> 9999"
    using assms(1) by (auto simp: wf_time_def days_in_def split: if_splits)
  then show ?thesis
    using parse_tail_format [OF assms]
    by (simp add: ParseRFC3339Nano_def FormatRFC3339Nano_def parse_year_pad getnum_pad)
qed

lemma parse_tail_wf: "parse_tail y mo d h mi sec s = Some t \<Longrightarrow> wf_time t"
  by (auto simp: parse_tail_def Let_def bind_eq_Some_conv split: prod.splits if_splits)

lemma Parse_wf: "ParseRFC3339Nano s = Some t \<Longrightarrow> wf_time t"
  by (auto simp: ParseRFC3339Nano_def bind_eq_Some_conv dest: parse_tail_wf)

lemma digits_ascii: "is_digit c \<Longrightarrow> is_ascii c"
  by (simp add: is_digit_def is_ascii_def)

lemma Format_ascii: "list_all is_ascii (FormatRFC3339Nano t)"
proof -
  have pads: "list_all is_ascii (pad w n)" for w n
    using pad_digits [of w n] digits_ascii by (auto simp: list_all_iff)
  have "list_all is_ascii (format_fraction n)" for n
    using pads [of 9 n] by (auto simp: format_fraction_def list_all_iff is_ascii_def dest: set_dropWhileD)
  moreover have "list_all is_ascii (format_zone z)" for z
    using pads by (auto simp: format_zone_def is_ascii_def)
  ultimately show ?thesis using pads by (simp add: FormatRFC3339Nano_def is_ascii_def)
qed

lemma Format_valid [simp]: "ValidUTF8 (FormatRFC3339Nano t)"
  by (rule ValidUTF8_ascii [OF Format_ascii])

end
