(* ===== verification/Go_Scan.thy ===== *)
theory Go_Scan
  imports Go_Json_Valid
begin

text \<open>
  Line scanning: the tokens that \<^verbatim>\<open>bufio.Scanner\<close> gives with \<^verbatim>\<open>ScanLines\<close> and the buffer limit of 1 MiB
  that the program sets.
\<close>

text \<open>The tokens of \<^verbatim>\<open>bufio.ScanLines\<close>, before the carriage return is dropped.\<close>

definition raw_lines :: "bytes \<Rightarrow> bytes list" where
  "raw_lines s = (let ps = split_on newline s in if last ps = [] then butlast ps else ps)"

definition drop_cr :: "bytes \<Rightarrow> bytes" where
  "drop_cr l = (if l \<noteq> [] \<and> last l = CHR 0x0D then butlast l else l)"

definition max_token :: nat where
  "max_token = 2 ^ 20"

lemma raw_lines_terminated: "raw_lines (s @ [newline]) = split_on newline s"
  by (simp add: raw_lines_def Let_def split_prefix)

definition terminated :: "bytes \<Rightarrow> bool" where
  "terminated s = (s = [] \<or> last s = newline)"

lemma terminated_cases: "terminated s \<Longrightarrow> (s = [] \<Longrightarrow> P) \<Longrightarrow> (\<And>t. s = t @ [newline] \<Longrightarrow> P) \<Longrightarrow> P"
  unfolding terminated_def by (metis append_butlast_last_id)

lemma raw_lines_Nil [simp]: "raw_lines [] = []"
  by (simp add: raw_lines_def)

lemma raw_lines_append:
  assumes "terminated s" and "newline \<notin> set l"
  shows "raw_lines (s @ l @ [newline]) = raw_lines s @ [l]"
  using assms
proof (cases rule: terminated_cases [OF assms(1)])
  case 1
  then show ?thesis using assms(2) raw_lines_terminated [of l] by (simp add: split_on_id)
next
  case (2 t)
  then have "raw_lines (s @ l @ [newline]) = split_on newline (t @ newline # l)"
    using raw_lines_terminated [of "t @ newline # l"] by simp
  then show ?thesis using 2 assms(2) by (simp add: split_prefix split_on_id raw_lines_terminated)
qed

end
