(* ===== verification/History.thy ===== *)
theory History
  imports Go_Struct Go_Time Go_Crypto Go_Scan
begin

text \<open>
  The hash-chained history file of a world (\<^verbatim>\<open>internal/history/history.go\<close>). The file is a value that
  every operation returns, changed or not; the faults that the host can inject into an operation are its
  argument, so a write that stops after any number of bytes is one of the runs. The clock is given as
  the UTC time that \<^verbatim>\<open>now.UTC()\<close> returns.
\<close>

record history_record =
  r_Timestamp :: bytes
  r_Action :: bytes
  r_PlanDigest :: bytes
  r_DeclarationDigest :: bytes
  r_ImageDigests :: "bytes list option"
  r_WorkspaceDigest :: bytes
  r_Outcome :: bytes
  r_Detail :: bytes
  r_PreviousHash :: bytes
  r_Hash :: bytes

definition unsigned_fields :: "(bytes \<times> bool \<times> shape) list" where
  "unsigned_fields =
     [(''timestamp'', False, TString), (''action'', False, TString), (''plan_digest'', True, TString),
      (''declaration_digest'', True, TString), (''image_digests'', True, TSlice TString),
      (''workspace_digest'', True, TString), (''outcome'', False, TString), (''detail'', True, TString),
      (''previous_hash'', True, TString)]"

definition unsigned_shape :: shape where
  "unsigned_shape = TStruct unsigned_fields"

definition record_shape :: shape where
  "record_shape = TStruct (unsigned_fields @ [(''hash'', False, TString)])"

definition unsigned_values :: "history_record \<Rightarrow> gval list" where
  "unsigned_values r =
     [VString (r_Timestamp r), VString (r_Action r), VString (r_PlanDigest r), VString (r_DeclarationDigest r),
      VStrings (r_ImageDigests r), VString (r_WorkspaceDigest r), VString (r_Outcome r), VString (r_Detail r),
      VString (r_PreviousHash r)]"

definition record_value :: "history_record \<Rightarrow> gval" where
  "record_value r = VStruct (unsigned_values r @ [VString (r_Hash r)])"

definition record_of :: "gval \<Rightarrow> history_record" where
  "record_of v =
     (let vs = g_fields v in
      \<lparr>r_Timestamp = g_string (vs ! 0), r_Action = g_string (vs ! 1), r_PlanDigest = g_string (vs ! 2),
       r_DeclarationDigest = g_string (vs ! 3), r_ImageDigests = g_strings (vs ! 4),
       r_WorkspaceDigest = g_string (vs ! 5), r_Outcome = g_string (vs ! 6), r_Detail = g_string (vs ! 7),
       r_PreviousHash = g_string (vs ! 8), r_Hash = g_string (vs ! 9)\<rparr>)"

datatype history_error =
    HCanceled
  | HNotExist
  | HIO
  | HTruncated
  | HTooLong
  | HMalformed nat
  | HPrevious nat
  | HMismatch nat
  | HNoTail
  | HComplete
  | HPrefix history_error

type_synonym 'a history_result = "history_error + 'a"

datatype hfile =
    Absent
  | Unreadable
  | Content bytes

fun contents :: "hfile \<Rightarrow> bytes" where
  "contents (Content s) = s"
| "contents _ = []"

section \<open>Verification\<close>

definition unsigned_document :: "history_record \<Rightarrow> bytes" where
  "unsigned_document r = Marshal unsigned_shape (VStruct (unsigned_values r))"

definition calculate :: "history_record \<Rightarrow> bytes" where
  "calculate r = sha256_hex (unsigned_document r)"

text \<open>\<^verbatim>\<open>strings.EqualFold\<close> with an ASCII text on one side.\<close>

definition EqualFold :: "bytes \<Rightarrow> bytes \<Rightarrow> bool" where
  "EqualFold s t = (fold_name s = fold_name t)"

fun verify_lines :: "poll \<Rightarrow> nat \<Rightarrow> bytes \<Rightarrow> bytes list \<Rightarrow> history_record list history_result" where
  "verify_lines ctx line previous [] = Inr []"
| "verify_lines ctx line previous (l # ls) =
     (if max_token \<le> length l then Inl HTooLong
      else if ctx line then Inl HCanceled
      else case Unmarshal False record_shape (drop_cr l) of
             None \<Rightarrow> Inl (HMalformed line)
           | Some v \<Rightarrow>
               let r = record_of v in
               if r_PreviousHash r \<noteq> previous then Inl (HPrevious line)
               else if \<not> EqualFold (calculate r) (r_Hash r) then Inl (HMismatch line)
               else bind_result (verify_lines ctx (Suc line) (r_Hash r) ls) (\<lambda>rs. Inr (r # rs)))"

definition VerifyContext :: "poll \<Rightarrow> hfile \<Rightarrow> history_record list history_result" where
  "VerifyContext ctx file =
     (if ctx 0 then Inl HCanceled
      else case file of
             Absent \<Rightarrow> Inl HNotExist
           | Unreadable \<Rightarrow> Inl HIO
           | Content raw \<Rightarrow>
               if raw \<noteq> [] \<and> last raw \<noteq> newline then Inl HTruncated
               else bind_result (verify_lines ctx 1 [] (raw_lines raw)) (\<lambda>rs.
                    if ctx (Suc (length rs)) then Inl HCanceled else Inr rs))"

definition Verify :: "hfile \<Rightarrow> history_record list history_result" where
  "Verify file = VerifyContext background file"

section \<open>Appending\<close>

record append_io =
  a_open :: bool
  a_short :: "nat option"
  a_sync :: bool

definition prior_records :: "hfile \<Rightarrow> history_record list history_result" where
  "prior_records file = (case Verify file of Inl HNotExist \<Rightarrow> Inr [] | res \<Rightarrow> res)"

definition sealed :: "gotime \<Rightarrow> history_record \<Rightarrow> history_record list \<Rightarrow> history_record" where
  "sealed now rec prior =
     (let rec = rec\<lparr>r_Timestamp := FormatRFC3339Nano now\<rparr>;
          rec = (if prior \<noteq> [] then rec\<lparr>r_PreviousHash := r_Hash (last prior)\<rparr> else rec)
      in rec\<lparr>r_Hash := calculate rec\<rparr>)"

definition line_of :: "history_record \<Rightarrow> bytes" where
  "line_of r = Marshal record_shape (record_value r)"

definition Append :: "append_io \<Rightarrow> gotime \<Rightarrow> history_record \<Rightarrow> hfile \<Rightarrow> history_record history_result \<times> hfile" where
  "Append io now rec file =
     (case prior_records file of
        Inl e \<Rightarrow> (Inl e, file)
      | Inr prior \<Rightarrow>
          let r = sealed now rec prior; raw = line_of r @ [newline] in
          if \<not> a_open io then (Inl HIO, file)
          else case a_short io of
                 Some n \<Rightarrow> (Inl HIO, Content (contents file @ take n raw))
               | None \<Rightarrow>
                   let file' = Content (contents file @ raw) in
                   if a_sync io then (Inr r, file') else (Inl HIO, file'))"

definition same_entry :: "history_record \<Rightarrow> history_record \<Rightarrow> bool" where
  "same_entry a b = (r_Action a = r_Action b \<and> r_PlanDigest a = r_PlanDigest b
     \<and> r_DeclarationDigest a = r_DeclarationDigest b \<and> r_WorkspaceDigest a = r_WorkspaceDigest b
     \<and> r_Outcome a = r_Outcome b \<and> r_Detail a = r_Detail b)"

definition AppendOnce :: "append_io \<Rightarrow> gotime \<Rightarrow> history_record \<Rightarrow> hfile \<Rightarrow> history_record history_result \<times> hfile" where
  "AppendOnce io now rec file =
     (case prior_records file of
        Inl e \<Rightarrow> (Inl e, file)
      | Inr prior \<Rightarrow>
          if prior \<noteq> [] \<and> same_entry (last prior) rec then (Inr (last prior), file)
          else Append io now rec file)"

section \<open>Repair\<close>

record repair_io =
  p_temporary :: bool
  p_rename :: bool
  p_directory :: bool

definition RepairTruncatedTail :: "repair_io \<Rightarrow> hfile \<Rightarrow> unit history_result \<times> hfile" where
  "RepairTruncatedTail io file =
     (case file of
        Absent \<Rightarrow> (Inl HNotExist, file)
      | Unreadable \<Rightarrow> (Inl HIO, file)
      | Content raw \<Rightarrow>
          if raw = [] \<or> last raw = newline then (Inl HNoTail, file)
          else if is_ok (Verify file) then (Inl HComplete, file)
          else
            let cut = (case LastIndexByte raw newline of None \<Rightarrow> 0 | Some i \<Rightarrow> i + 1); prefix = take cut raw in
            if \<not> p_temporary io then (Inl HIO, file)
            else case Verify (Content prefix) of
                   Inl e \<Rightarrow> (Inl (HPrefix e), file)
                 | Inr _ \<Rightarrow>
                     if \<not> p_rename io then (Inl HIO, file)
                     else if p_directory io then (Inr (), Content prefix) else (Inl HIO, Content prefix))"

section \<open>Records as documents\<close>

definition utf8_record :: "history_record \<Rightarrow> bool" where
  "utf8_record r = list_all utf8_value (unsigned_values r @ [VString (r_Hash r)])"

lemma record_shape_facts:
  "shape_names record_shape" "shape_depth record_shape \<le> max_nesting"
  "shape_names unsigned_shape" "shape_depth unsigned_shape \<le> max_nesting"
  by code_simp+

lemma record_shaped: "r_ImageDigests r \<noteq> Some [] \<Longrightarrow> shaped record_shape (record_value r)"
  by (simp add: record_shape_def record_value_def unsigned_fields_def unsigned_values_def)

lemma unsigned_shaped: "r_ImageDigests r \<noteq> Some [] \<Longrightarrow> shaped unsigned_shape (VStruct (unsigned_values r))"
  by (simp add: unsigned_shape_def unsigned_fields_def unsigned_values_def)

lemma record_of_value [simp]: "record_of (record_value r) = r"
  by (cases r) (simp add: record_of_def record_value_def unsigned_values_def)

lemma line_of_unmarshal:
  "utf8_record r \<Longrightarrow> r_ImageDigests r \<noteq> Some [] \<Longrightarrow> Unmarshal False record_shape (line_of r) = Some (record_value r)"
  using Unmarshal_Marshal [of record_shape "record_value r" "[]" False] record_shape_facts record_shaped
  by (simp add: line_of_def utf8_record_def record_value_def)

lemma line_of_no_newline: "utf8_record r \<Longrightarrow> newline \<notin> set (line_of r)"
  using Marshal_no_newline [of "record_value r" record_shape] record_shape_facts
  by (simp add: line_of_def utf8_record_def record_value_def)

lemma line_of_brace: "line_of r \<noteq> [] \<and> last (line_of r) = CHR ''}''"
  by (simp add: line_of_def Marshal_def record_shape_def record_value_def)

lemma drop_cr_line [simp]: "drop_cr (line_of r) = line_of r"
  using line_of_brace [of r] by (simp add: drop_cr_def)

lemma fold_name_ascii: "list_all is_ascii s \<Longrightarrow> fold_name s = map (\<lambda>c. fold_rune (byte c)) s"
  by (simp add: fold_name_def runes_ascii)

lemma lower_hex_ascii: "is_lower_hex c \<Longrightarrow> is_ascii c"
  by (auto simp: is_lower_hex_def is_digit_def is_ascii_def)

lemma fold_lower_hex_inj:
  assumes "list_all is_lower_hex s" and "list_all is_lower_hex t" and "fold_name s = fold_name t"
  shows "s = t"
proof -
  have inj: "inj_on (\<lambda>c. fold_rune (byte c)) {c. is_lower_hex c}"
  proof (rule inj_onI)
    fix c d assume "c \<in> {c. is_lower_hex c}" "d \<in> {c. is_lower_hex c}" and eq: "fold_rune (byte c) = fold_rune (byte d)"
    moreover have "m = n" if "48 \<le> m \<and> m \<le> 57 \<or> 97 \<le> m \<and> m \<le> 102" "48 \<le> n \<and> n \<le> 57 \<or> 97 \<le> n \<and> n \<le> 102"
      "fold_rune m = fold_rune n" for m n
      using that by (auto simp: fold_rune_def split: if_splits)
    ultimately have "byte c = (byte d :: nat)" unfolding is_lower_hex_def is_digit_def mem_Collect_eq by blast
    then show "c = d" by simp
  qed
  have "list_all is_ascii s" "list_all is_ascii t" using assms(1,2) lower_hex_ascii by (auto simp: list_all_iff)
  then have "map (\<lambda>c. fold_rune (byte c)) s = map (\<lambda>c. fold_rune (byte c)) t"
    using assms(3) fold_name_ascii by metis
  then show ?thesis
    using assms(1,2) by (intro map_inj_on [OF _ inj_on_subset [OF inj]]) (auto simp: list_all_iff)
qed

lemma calculate_lower: "list_all is_lower_hex (calculate r)"
  by (simp add: calculate_def sha256_hex_lower)

lemma EqualFold_calculate: "EqualFold (calculate r) h \<Longrightarrow> EqualFold (calculate s) h \<Longrightarrow> calculate r = calculate s"
  using fold_lower_hex_inj [OF calculate_lower calculate_lower] by (simp add: EqualFold_def)

lemma length_calculate: "length (calculate r) = 64"
  by (simp add: calculate_def)

lemma EqualFold_calculate_not_Nil: "\<not> EqualFold (calculate r) []"
proof -
  have "fold_name (calculate r) = map (\<lambda>c. fold_rune (byte c)) (calculate r)"
    using calculate_lower [of r] lower_hex_ascii by (intro fold_name_ascii) (auto simp: list_all_iff)
  then show ?thesis using length_calculate [of r] by (auto simp: EqualFold_def fold_name_def)
qed

section \<open>Chains\<close>

definition last_hash :: "bytes \<Rightarrow> history_record list \<Rightarrow> bytes" where
  "last_hash previous rs = (if rs = [] then previous else r_Hash (last rs))"

lemma verify_lines_append:
  "verify_lines ctx k previous (ls @ ms) =
     bind_result (verify_lines ctx k previous ls) (\<lambda>rs.
     bind_result (verify_lines ctx (k + length rs) (last_hash previous rs) ms) (\<lambda>ss. Inr (rs @ ss)))"
proof (induction ls arbitrary: k previous)
  case Nil
  show ?case by (simp add: last_hash_def) (cases "verify_lines ctx k previous ms"; simp)
next
  case (Cons l ls)
  show ?case
  proof (cases "Unmarshal False record_shape (drop_cr l)")
    case None
    then show ?thesis by simp
  next
    case (Some v)
    let ?r = "record_of v"
    have step: "verify_lines ctx (Suc k) (r_Hash ?r) (ls @ ms) =
      bind_result (verify_lines ctx (Suc k) (r_Hash ?r) ls) (\<lambda>rs.
      bind_result (verify_lines ctx (Suc k + length rs) (last_hash (r_Hash ?r) rs) ms) (\<lambda>ss. Inr (rs @ ss)))"
      by (rule Cons.IH)
    have tail: "last_hash previous (?r # rs) = last_hash (r_Hash ?r) rs" for rs
      by (simp add: last_hash_def)
    show ?thesis
      by (cases "verify_lines ctx (Suc k) (r_Hash ?r) ls") (auto simp: Some Let_def step tail bind_result_def split: sum.splits)
  qed
qed

lemma verify_lines_Cons:
  "verify_lines ctx k previous (l # ls) = Inr rs \<longleftrightarrow>
     (\<exists>v ss. length l < max_token \<and> \<not> ctx k \<and> Unmarshal False record_shape (drop_cr l) = Some v
        \<and> r_PreviousHash (record_of v) = previous \<and> EqualFold (calculate (record_of v)) (r_Hash (record_of v))
        \<and> verify_lines ctx (Suc k) (r_Hash (record_of v)) ls = Inr ss \<and> rs = record_of v # ss)"
  by (auto simp: Let_def result_simps split: option.splits)

lemma verify_lines_length: "verify_lines ctx k previous ls = Inr rs \<Longrightarrow> length rs = length ls"
  by (induction ls arbitrary: k previous rs) (auto simp: verify_lines_Cons simp del: verify_lines.simps(2))

lemma verify_lines_background: "verify_lines background k previous ls = Inr rs \<Longrightarrow> verify_lines background j previous ls = Inr rs"
proof (induction ls arbitrary: k j previous rs)
  case (Cons l ls)
  from Cons.prems obtain v ss where "length l < max_token" "Unmarshal False record_shape (drop_cr l) = Some v"
    "r_PreviousHash (record_of v) = previous" "EqualFold (calculate (record_of v)) (r_Hash (record_of v))"
    "verify_lines background (Suc k) (r_Hash (record_of v)) ls = Inr ss" "rs = record_of v # ss"
    unfolding verify_lines_Cons by blast
  with Cons.IH show ?case unfolding verify_lines_Cons background_def by blast
qed simp

text \<open>The chain that an accepted sequence of records forms.\<close>

fun chained :: "bytes \<Rightarrow> history_record list \<Rightarrow> bool" where
  "chained previous [] = True"
| "chained previous (r # rs) =
     (r_PreviousHash r = previous \<and> EqualFold (calculate r) (r_Hash r) \<and> utf8_record r \<and> chained (r_Hash r) rs)"

lemma utf8_record_of: "wf_value record_shape v \<Longrightarrow> utf8_record (record_of v)"
  by (auto simp: record_shape_def unsigned_fields_def wf_simps record_of_def utf8_record_def unsigned_values_def utf8_strings)

lemma verify_lines_chained: "verify_lines ctx k previous ls = Inr rs \<Longrightarrow> chained previous rs"
  by (induction ls arbitrary: k previous rs)
    (auto simp: verify_lines_Cons utf8_record_of Unmarshal_wf simp del: verify_lines.simps(2))

section \<open>Appending to a verified file\<close>

lemma Verify_Content:
  "Verify (Content raw) =
     (if \<not> terminated raw then Inl HTruncated else verify_lines background 1 [] (raw_lines raw))"
  by (cases "verify_lines background 1 [] (raw_lines raw)")
    (auto simp: Verify_def VerifyContext_def terminated_def, auto simp: background_def)

lemma prior_Content: "prior_records (Content raw) = Inr rs \<longleftrightarrow> Verify (Content raw) = Inr rs"
proof -
  have "verify_lines ctx k p ls \<noteq> Inl HNotExist" for ctx k p ls
    by (induction ls arbitrary: k p) (auto simp: Let_def bind_result_def split: option.splits sum.splits)
  then have "Verify (Content raw) \<noteq> Inl HNotExist" by (simp add: Verify_Content)
  then show ?thesis
    by (auto simp: prior_records_def split: sum.splits history_error.splits)
qed

lemma prior_Absent [simp]: "prior_records Absent = Inr []"
  by (simp add: prior_records_def Verify_def VerifyContext_def background_def)

lemma prior_Unreadable [simp]: "prior_records Unreadable = Inl HIO"
  by (simp add: prior_records_def Verify_def VerifyContext_def background_def)

lemma prior_records_iff:
  "prior_records file = Inr prior \<longleftrightarrow>
     file \<noteq> Unreadable \<and> terminated (contents file) \<and> verify_lines background 1 [] (raw_lines (contents file)) = Inr prior"
  by (cases "file") (auto simp: prior_Content Verify_Content terminated_def split: if_splits)

text \<open>
  The entries that callers pass: text that JSON can carry, no hash of an earlier record yet, and a line
  that the scanner of \<^verbatim>\<open>Verify\<close> accepts.
\<close>

definition good_entry :: "gotime \<Rightarrow> history_record \<Rightarrow> history_record list \<Rightarrow> bool" where
  "good_entry now rec prior =
     (utf8_record rec \<and> r_ImageDigests rec \<noteq> Some [] \<and> r_PreviousHash rec = []
      \<and> length (line_of (sealed now rec prior)) < max_token)"

lemma sealed_facts:
  "r_ImageDigests (sealed now rec prior) = r_ImageDigests rec"
  "r_Hash (sealed now rec prior) = calculate (sealed now rec prior)"
  "r_PreviousHash rec = [] \<Longrightarrow> r_PreviousHash (sealed now rec prior) = last_hash [] prior"
  "same_entry (sealed now rec prior) rec"
  by (auto simp: sealed_def Let_def calculate_def unsigned_document_def unsigned_values_def last_hash_def same_entry_def)

lemma utf8_calculate: "ValidUTF8 (calculate r)"
  using calculate_lower [of r] lower_hex_ascii by (intro ValidUTF8_ascii) (auto simp: list_all_iff)

lemma chained_last_utf8: "chained previous rs \<Longrightarrow> rs \<noteq> [] \<Longrightarrow> ValidUTF8 (r_Hash (last rs))"
  by (induction rs arbitrary: previous) (auto simp: utf8_record_def)

lemma utf8_sealed: "utf8_record rec \<Longrightarrow> chained previous prior \<Longrightarrow> utf8_record (sealed now rec prior)"
  using chained_last_utf8 [of previous prior]
  by (auto simp: utf8_record_def sealed_def unsigned_values_def Let_def utf8_calculate)

lemma verify_sealed:
  assumes "chained previous prior" and "good_entry now rec prior"
  shows "verify_lines background k (last_hash [] prior) [line_of (sealed now rec prior)] = Inr [sealed now rec prior]"
  using assms utf8_sealed [OF _ assms(1), of rec now] line_of_unmarshal [of "sealed now rec prior"]
  by (simp add: good_entry_def sealed_facts(1,3) sealed_facts(2) [symmetric] EqualFold_def background_def)

lemma verify_after_append:
  assumes "prior_records file = Inr prior" and "good_entry now rec prior"
  shows "Verify (Content (contents file @ line_of (sealed now rec prior) @ [newline])) = Inr (prior @ [sealed now rec prior])"
proof -
  let ?r = "sealed now rec prior"
  have t: "terminated (contents file)" and v: "verify_lines background 1 [] (raw_lines (contents file)) = Inr prior"
    using assms(1) by (auto simp: prior_records_iff)
  have ch: "chained [] prior" using verify_lines_chained [OF v] .
  have "utf8_record ?r" using assms(2) utf8_sealed [OF _ ch] by (simp add: good_entry_def)
  then have "newline \<notin> set (line_of ?r)" by (rule line_of_no_newline)
  then show ?thesis
    using t v verify_sealed [OF ch assms(2)]
    by (simp add: Verify_Content terminated_def raw_lines_append verify_lines_append del: append_assoc verify_lines.simps(2))
qed

section \<open>Interrupted appends and repair\<close>

lemma cut_at_last:
  assumes "terminated s" and "newline \<notin> set t"
  shows "take (case LastIndexByte (s @ t) newline of None \<Rightarrow> 0 | Some i \<Rightarrow> i + 1) (s @ t) = s"
proof (cases rule: terminated_cases [OF assms(1)])
  case 1
  then show ?thesis using assms(2) LastIndexByte_None [of t newline] by simp
next
  case (2 u)
  have "LastIndexByte (u @ newline # t) newline = Some (length u)"
    using assms(2) LastIndexByte_None [of t newline] by (induction u) auto
  then show ?thesis using 2 by simp
qed

lemma repair_tail:
  assumes "prior_records file = Inr prior" and "t \<noteq> []" and "newline \<notin> set t"
  shows "Verify (Content (contents file @ t)) = Inl HTruncated"
    and "RepairTruncatedTail \<lparr>p_temporary = True, p_rename = True, p_directory = True\<rparr> (Content (contents file @ t))
           = (Inr (), Content (contents file))"
proof -
  have t: "terminated (contents file)" and v: "Verify (Content (contents file)) = Inr prior"
    using assms(1) by (auto simp: prior_records_iff Verify_Content)
  have "last t \<noteq> newline" using assms(2,3) last_in_set by metis
  then have nt: "\<not> terminated (contents file @ t)" using assms(2) by (simp add: terminated_def)
  then show tr: "Verify (Content (contents file @ t)) = Inl HTruncated" by (simp add: Verify_Content)
  show "RepairTruncatedTail \<lparr>p_temporary = True, p_rename = True, p_directory = True\<rparr> (Content (contents file @ t))
           = (Inr (), Content (contents file))"
    using nt v tr cut_at_last [OF t assms(3)]
    by (simp add: RepairTruncatedTail_def terminated_def Let_def)
qed

end
