(* ===== verification/History_Properties.thy ===== *)
theory History_Properties
  imports History
begin

text \<open>
  What the history promises: an appended record is read back, an interrupted append can be undone by
  \<open>RepairTruncatedTail\<close>, no sequence of operations and faults loses a verified record, and two verified
  histories with the same head hold the same records unless SHA-256 collides.
\<close>

definition faultless :: append_io where
  "faultless = \<lparr>a_open = True, a_short = None, a_sync = True\<rparr>"

definition repaired :: repair_io where
  "repaired = \<lparr>p_temporary = True, p_rename = True, p_directory = True\<rparr>"

definition demo_now :: gotime where
  "demo_now = \<lparr>t_year = 2026, t_month = 1, t_day = 2, t_hour = 3, t_minute = 4, t_second = 5, t_nanos = 600, t_offset = 0\<rparr>"

definition demo_entry :: history_record where
  "demo_entry =
     \<lparr>r_Timestamp = [], r_Action = ''create'', r_PlanDigest = [], r_DeclarationDigest = [],
      r_ImageDigests = None, r_WorkspaceDigest = [], r_Outcome = ''ok'', r_Detail = [], r_PreviousHash = [], r_Hash = []\<rparr>"

definition demo_line :: bytes where
  "demo_line = line_of (sealed demo_now demo_entry [])"

lemma demo_line_length: "length demo_line = 151"
proof -
  let ?r = "sealed demo_now demo_entry []"
  have now: "FormatRFC3339Nano demo_now = ''2026-01-02T03:04:05.0000006Z''" by code_simp
  have plain: "list_all json_plain ''2026-01-02T03:04:05.0000006Z''" "list_all json_plain ''create''"
    "list_all json_plain ''ok''" "list_all json_plain ''timestamp''" "list_all json_plain ''action''"
    "list_all json_plain ''outcome''" "list_all json_plain ''hash''" by code_simp+
  have h: "json_quote True (calculate r) = [quote_char] @ calculate r @ [quote_char]" for r
    by (rule json_quote_plain [OF lower_hex_plain [OF calculate_lower]])
  have fields: "marshal record_shape (record_value ?r) =
      JObj [(''timestamp'', JStr ''2026-01-02T03:04:05.0000006Z''), (''action'', JStr ''create''),
        (''outcome'', JStr ''ok''), (''hash'', JStr (r_Hash ?r))]"
    by (simp add: record_shape_def record_value_def unsigned_fields_def unsigned_values_def sealed_def demo_entry_def VStrings_def now)
  show ?thesis
    unfolding demo_line_def line_of_def Marshal_def fields
    by (simp add: plain [THEN json_quote_plain] h sealed_facts(2) length_calculate)
qed

lemma demo_good: "good_entry demo_now demo_entry []"
proof -
  have "utf8_record demo_entry" "r_ImageDigests demo_entry \<noteq> Some []" "r_PreviousHash demo_entry = []" by code_simp+
  then show ?thesis using demo_line_length by (simp add: good_entry_def demo_line_def max_token_def)
qed

section \<open>Appending\<close>

text \<open>
  C31: A good entry has texts in valid UTF-8, no previous hash of its own, image digests that are absent or not empty, and
  a line below the 1 MiB limit of the reader. Appending a good entry to a missing or verified history, without a fault of the host, returns the sealed record, with the fields of the
  entry and the time of the clock, and verification of the new file returns the old records followed by exactly that record.
\<close>

theorem append_then_verify:
  assumes "prior_records file = Inr prior" and "good_entry now rec prior"
    and "a_open io" and "a_short io = None" and "a_sync io"
  shows "\<exists>r. fst (Append io now rec file) = Inr r \<and> same_entry r rec \<and> r_ImageDigests r = r_ImageDigests rec
    \<and> r_Timestamp r = FormatRFC3339Nano now \<and> Verify (snd (Append io now rec file)) = Inr (prior @ [r])"
  using assms verify_after_append [OF assms(1,2)] sealed_facts(1,4) [of now rec prior]
  by (simp add: Append_def Let_def) (simp add: sealed_def Let_def)

text \<open>The first record of a new history.\<close>

theorem append_then_verify_witness:
  "\<exists>r. fst (Append faultless demo_now demo_entry Absent) = Inr r \<and> same_entry r demo_entry \<and> r_ImageDigests r = None
    \<and> r_Timestamp r = ''2026-01-02T03:04:05.0000006Z'' \<and> Verify (snd (Append faultless demo_now demo_entry Absent)) = Inr [r]"
proof -
  have "FormatRFC3339Nano demo_now = ''2026-01-02T03:04:05.0000006Z''" "r_ImageDigests demo_entry = None" by code_simp+
  then show ?thesis
    using append_then_verify [of Absent "[]" demo_now demo_entry faultless] demo_good by (simp add: faultless_def)
qed

section \<open>Interrupted appends\<close>

lemma take_line:
  assumes "n \<noteq> 0" and "n \<le> length l"
  shows "take n (l @ [c]) \<noteq> [] \<and> set (take n (l @ [c])) \<subseteq> set l"
  using assms set_take_subset [of n l] by auto

lemma demo_interrupted:
  "snd (Append \<lparr>a_open = True, a_short = Some 10, a_sync = sy\<rparr> demo_now demo_entry Absent) = Content (take 10 demo_line)"
  "Verify (Content (take 10 demo_line)) = Inl HTruncated"
  "RepairTruncatedTail repaired (Content (take 10 demo_line)) = (Inr (), Content [])"
proof -
  have ne: "take 10 demo_line \<noteq> []" using demo_line_length by auto
  have "newline \<notin> set demo_line"
    unfolding demo_line_def using demo_good
    by (intro line_of_no_newline utf8_sealed [where previous = "[]"]) (auto simp: good_entry_def)
  then have nl: "newline \<notin> set (take 10 demo_line)" by (auto dest: in_set_takeD)
  have "take 10 (line_of (sealed demo_now demo_entry []) @ [newline]) = take 10 demo_line"
    using demo_line_length by (simp add: demo_line_def)
  then show "snd (Append \<lparr>a_open = True, a_short = Some 10, a_sync = sy\<rparr> demo_now demo_entry Absent) = Content (take 10 demo_line)"
    by (simp add: Append_def Let_def)
  show "Verify (Content (take 10 demo_line)) = Inl HTruncated"
    "RepairTruncatedTail repaired (Content (take 10 demo_line)) = (Inr (), Content [])"
    using repair_tail [OF prior_Absent ne nl] by (simp_all add: repaired_def)
qed

text \<open>
  C32: Let a good entry (texts in valid UTF-8, a line below the 1 MiB limit of the reader, no previous hash of its own, image
  digests absent or not empty) be appended to a missing or verified history. However many bytes of the new line reach the file before the write fails, the file then either
  verifies, with or without the new record, or is reported as truncated and repair restores exactly the bytes before
  the append. The latter includes the new record that lacks only its newline: repair drops it.
\<close>

theorem interrupted_append:
  assumes "prior_records file = Inr prior" and "good_entry now rec prior" and "a_open io" and "a_short io = Some n"
  shows "Verify (snd (Append io now rec file)) \<in> {Inr prior, Inr (prior @ [sealed now rec prior])}
    \<or> (Verify (snd (Append io now rec file)) = Inl HTruncated
       \<and> RepairTruncatedTail repaired (snd (Append io now rec file)) = (Inr (), Content (contents file)))"
proof -
  let ?l = "line_of (sealed now rec prior)"
  have f: "snd (Append io now rec file) = Content (contents file @ take n (?l @ [newline]))"
    using assms by (simp add: Append_def Let_def)
  have "chained [] prior" using assms(1) verify_lines_chained by (auto simp: prior_records_iff)
  then have nl: "newline \<notin> set ?l"
    using assms(2) by (intro line_of_no_newline utf8_sealed) (auto simp: good_entry_def)
  consider "n = 0" | "n \<noteq> 0" "n \<le> length ?l" | "length ?l < n" by linarith
  then show ?thesis
  proof cases
    case 1
    then show ?thesis using assms(1) by (simp add: f prior_records_iff Verify_Content)
  next
    case 2
    then have "take n (?l @ [newline]) \<noteq> []" "newline \<notin> set (take n (?l @ [newline]))"
      using take_line [of n ?l newline] nl by (blast, blast)
    then show ?thesis
      using repair_tail [OF assms(1)] by (simp add: f repaired_def)
  next
    case 3
    then show ?thesis using verify_after_append [OF assms(1,2)] by (simp add: f)
  qed
qed

text \<open>A write that stops after ten bytes.\<close>

theorem interrupted_append_witness:
  "Verify (snd (Append \<lparr>a_open = True, a_short = Some 10, a_sync = True\<rparr> demo_now demo_entry Absent)) = Inl HTruncated
   \<and> RepairTruncatedTail repaired (snd (Append \<lparr>a_open = True, a_short = Some 10, a_sync = True\<rparr> demo_now demo_entry Absent))
       = (Inr (), Content [])"
proof -
  have "Verify (snd (Append \<lparr>a_open = True, a_short = Some 10, a_sync = True\<rparr> demo_now demo_entry Absent)) = Inl HTruncated"
    using demo_interrupted by simp
  then show ?thesis
    using interrupted_append [of Absent "[]" demo_now demo_entry "\<lparr>a_open = True, a_short = Some 10, a_sync = True\<rparr>" 10] demo_good
    by auto
qed

section \<open>Recovery\<close>

text \<open>
  A recovery that repeats the append of an entry after it succeeded changes nothing: \<open>AppendOnce\<close>
  returns the record that is already there.
\<close>

theorem AppendOnce_idempotent:
  assumes "prior_records file = Inr prior" and "good_entry now rec prior"
    and "AppendOnce faultless now rec file = (Inr r, file')"
  shows "AppendOnce io later rec file' = (Inr r, file')"
proof (cases "prior \<noteq> [] \<and> same_entry (last prior) rec")
  case True
  then have "file' = file" "r = last prior" using assms(1,3) by (simp_all add: AppendOnce_def)
  then show ?thesis using True assms(1) by (simp add: AppendOnce_def)
next
  case False
  then have "r = sealed now rec prior" "file' = Content (contents file @ line_of r @ [newline])"
    using assms(1,3) by (auto simp: AppendOnce_def Append_def faultless_def Let_def)
  then have "prior_records file' = Inr (prior @ [r])" "same_entry r rec"
    using verify_after_append [OF assms(1,2)] sealed_facts(4) by (auto simp: prior_Content)
  then show ?thesis by (simp add: AppendOnce_def)
qed

text \<open>The first record of a new history, recovered once.\<close>

theorem AppendOnce_idempotent_witness:
  "\<exists>r file'. AppendOnce faultless demo_now demo_entry Absent = (Inr r, file')
     \<and> AppendOnce faultless demo_now demo_entry file' = (Inr r, file')"
proof -
  have "AppendOnce faultless demo_now demo_entry Absent = (Inr (sealed demo_now demo_entry []), Content (demo_line @ [newline]))"
    by (simp add: AppendOnce_def Append_def faultless_def Let_def demo_line_def)
  then show ?thesis
    using AppendOnce_idempotent [of Absent "[]" demo_now demo_entry "sealed demo_now demo_entry []" "Content (demo_line @ [newline])"
        faultless demo_now] demo_good by auto
qed

datatype history_event =
    EvAppend append_io gotime history_record
  | EvAppendOnce append_io gotime history_record
  | EvRepair repair_io

fun history_step :: "history_event \<Rightarrow> hfile \<Rightarrow> hfile option" where
  "history_step (EvAppend io now rec) file = Some (snd (Append io now rec file))"
| "history_step (EvAppendOnce io now rec) file = Some (snd (AppendOnce io now rec file))"
| "history_step (EvRepair io) file = Some (snd (RepairTruncatedTail io file))"

definition entry_guard :: "gotime \<Rightarrow> history_record \<Rightarrow> hfile \<Rightarrow> bool" where
  "entry_guard now rec file = (case prior_records file of Inl e \<Rightarrow> True | Inr prior \<Rightarrow> good_entry now rec prior)"

fun history_guard :: "history_event \<Rightarrow> hfile \<Rightarrow> bool" where
  "history_guard (EvAppend io now rec) file = entry_guard now rec file"
| "history_guard (EvAppendOnce io now rec) file = entry_guard now rec file"
| "history_guard (EvRepair io) file = True"

text \<open>A verified history that extends \<open>base\<close>, followed by an unfinished line.\<close>

definition recoverable :: "history_record list \<Rightarrow> hfile \<Rightarrow> bool" where
  "recoverable base file =
     (file \<noteq> Unreadable \<and> (\<exists>f t rs. contents file = f @ t \<and> newline \<notin> set t \<and> terminated f
        \<and> verify_lines background 1 [] (raw_lines f) = Inr (base @ rs)))"

lemma recoverable_verified:
  "file \<noteq> Unreadable \<Longrightarrow> prior_records (Content f) = Inr (base @ rs) \<Longrightarrow> newline \<notin> set t \<Longrightarrow> contents file = f @ t
     \<Longrightarrow> recoverable base file"
  unfolding recoverable_def prior_records_iff contents.simps by blast

lemma terminated_tail: "terminated (f @ t) \<Longrightarrow> newline \<notin> set t \<Longrightarrow> t = []"
  unfolding terminated_def by (metis append_is_Nil_conv last_appendR last_in_set)

lemma recoverable_prior:
  assumes "recoverable base file" and "prior_records file = Inr prior"
  shows "\<exists>rs. prior = base @ rs"
proof -
  obtain f t rs where f: "contents file = f @ t" "newline \<notin> set t" "verify_lines background 1 [] (raw_lines f) = Inr (base @ rs)"
    using assms(1) by (auto simp: recoverable_def)
  have "t = []" using assms(2) f terminated_tail by (auto simp: prior_records_iff)
  then show ?thesis using assms(2) f by (simp add: prior_records_iff)
qed

lemma append_recoverable:
  assumes "recoverable base file" and "entry_guard now rec file"
  shows "recoverable base (snd (Append io now rec file))"
proof (cases "prior_records file")
  case (Inl e)
  then show ?thesis using assms(1) by (simp add: Append_def)
next
  case (Inr prior)
  let ?r = "sealed now rec prior"
  have good: "good_entry now rec prior" using assms(2) Inr by (simp add: entry_guard_def)
  obtain rs where rs: "prior = base @ rs" using recoverable_prior [OF assms(1) Inr] by blast
  have whole: "recoverable base (Content (contents file @ line_of ?r @ [newline]))"
    using verify_after_append [OF Inr good] rs
    by (intro recoverable_verified [where t = "[]" and rs = "rs @ [?r]"]) (auto simp: prior_Content)
  have part: "recoverable base (Content (contents file @ take n (line_of ?r @ [newline])))" for n
  proof (cases "n \<le> length (line_of ?r)")
    case True
    have "chained [] prior" using Inr verify_lines_chained by (auto simp: prior_records_iff)
    then have nl: "newline \<notin> set (line_of ?r)"
      using good by (intro line_of_no_newline utf8_sealed) (auto simp: good_entry_def)
    have "newline \<notin> set (take n (line_of ?r @ [newline]))" using True nl by (auto dest: in_set_takeD)
    then show ?thesis
      using Inr rs by (intro recoverable_verified [where f = "contents file" and rs = rs]) (auto simp: prior_records_iff)
  next
    case False
    then show ?thesis using whole by simp
  qed
  show ?thesis
    using assms(1) whole part by (auto simp: Append_def Inr Let_def split: option.splits)
qed

lemma repair_recoverable:
  assumes "recoverable base file"
  shows "recoverable base (snd (RepairTruncatedTail io file))"
proof (cases "file")
  case (Content raw)
  obtain f t rs where f: "raw = f @ t" "newline \<notin> set t" "terminated f" "verify_lines background 1 [] (raw_lines f) = Inr (base @ rs)"
    using assms Content by (auto simp: recoverable_def)
  have "recoverable base (Content f)"
    using f by (intro recoverable_verified [where f = f and t = "[]" and rs = rs]) (auto simp: prior_records_iff)
  then show ?thesis
    using assms cut_at_last [OF f(3,2)] by (auto simp: RepairTruncatedTail_def Content f(1) Let_def split: sum.splits)
qed (use assms in \<open>simp_all add: RepairTruncatedTail_def\<close>)

interpretation histories: state_invariant history_step history_guard "\<lambda>file. prior_records file = Inr base" "recoverable base" for base
proof
  fix "file"
  assume "prior_records file = Inr base"
  then show "recoverable base file"
    by (intro recoverable_verified [where f = "contents file" and t = "[]" and rs = "[]"]) (auto simp: prior_records_iff)
next
  fix e and "file" and file' :: hfile
  assume "recoverable base file" "history_guard e file" "history_step e file = Some file'"
  then show "recoverable base file'"
    by (cases e) (auto simp: AppendOnce_def append_recoverable repair_recoverable split: sum.splits)
qed

text \<open>
  C33: Start from a missing or verified history and let any sequence of appends, recoveries and repairs
  run, each with any faults, in which every appended entry is good (texts in valid UTF-8, a line below the 1 MiB
  limit of the reader, no previous hash of its own, image digests absent or not empty). Afterwards the file still verifies with all records of the start, or it is reported as truncated and a
  repair gives a file that does.
\<close>

theorem history_never_lost:
  assumes "reach history_step history_guard (\<lambda>file. prior_records file = Inr base) file"
  shows "\<exists>rs. prior_records file = Inr (base @ rs)
    \<or> (Verify file = Inl HTruncated \<and> fst (RepairTruncatedTail repaired file) = Inr ()
       \<and> prior_records (snd (RepairTruncatedTail repaired file)) = Inr (base @ rs))"
proof -
  obtain f t rs where f: "file \<noteq> Unreadable" "contents file = f @ t" "newline \<notin> set t" "terminated f"
      "verify_lines background 1 [] (raw_lines f) = Inr (base @ rs)"
    using histories.inv_reach [OF assms] by (auto simp: recoverable_def)
  have p: "prior_records (Content f) = Inr (base @ rs)" using f by (simp add: prior_records_iff)
  show ?thesis
  proof (cases "t = []")
    case True
    then show ?thesis using f by (auto simp: prior_records_iff)
  next
    case False
    then have "file = Content (contents (Content f) @ t)" using f by (cases "file") auto
    then show ?thesis using repair_tail [OF p False f(3)] p by (auto simp: repaired_def)
  qed
qed

text \<open>A run with an interrupted append, a repair and a second append.\<close>

definition demo_events :: "history_event list" where
  "demo_events =
     [EvAppend \<lparr>a_open = True, a_short = Some 10, a_sync = True\<rparr> demo_now demo_entry, EvRepair repaired,
      EvAppend faultless demo_now demo_entry]"

theorem history_never_lost_witness:
  "\<exists>file rs. run_events history_step demo_events Absent = Some file \<and> prior_records file = Inr rs \<and> length rs = 1"
proof -
  let ?final = "Content (demo_line @ [newline])"
  have last: "snd (Append faultless demo_now demo_entry (Content [])) = ?final"
    using prior_Content [of "[]" "[]"] by (simp add: Append_def faultless_def Verify_Content terminated_def Let_def demo_line_def)
  have empty: "prior_records (Content []) = Inr []" by (simp add: prior_Content Verify_Content terminated_def)
  have run: "run_events history_step demo_events Absent = Some ?final"
    by (simp add: demo_events_def demo_interrupted last)
  have guards: "guards_along history_step history_guard demo_events Absent"
    by (simp add: demo_events_def demo_interrupted entry_guard_def demo_good empty)
  have init: "reach history_step history_guard (\<lambda>file. prior_records file = Inr []) Absent" by (rule reach_init) simp
  have "Verify ?final = Inr [sealed demo_now demo_entry []]"
    using verify_after_append [of Absent "[]" demo_now demo_entry] demo_good by (simp add: demo_line_def)
  then show ?thesis
    using run history_never_lost [OF reach_run [OF init guards run]] by (auto simp: prior_Content)
qed

section \<open>Tampering\<close>

text \<open>An empty list of image digests is written like an absent one.\<close>

definition plain :: "history_record \<Rightarrow> history_record" where
  "plain r = r\<lparr>r_ImageDigests := (if r_ImageDigests r = Some [] then None else r_ImageDigests r)\<rparr>"

lemma unsigned_document_plain: "unsigned_document (plain r) = unsigned_document r"
  by (simp add: unsigned_document_def plain_def Marshal_def unsigned_shape_def unsigned_fields_def unsigned_values_def VStrings_def)

lemma unsigned_document_inj:
  assumes "unsigned_document a = unsigned_document b" and "utf8_record a" and "utf8_record b"
  shows "unsigned_values (plain a) = unsigned_values (plain b)"
proof -
  have ok: "shaped unsigned_shape (VStruct (unsigned_values (plain r)))" "utf8_value (VStruct (unsigned_values (plain r)))"
    if "utf8_record r" for r
    using that unsigned_shaped [of "plain r"] by (auto simp: plain_def utf8_record_def unsigned_values_def utf8_strings)
  have "Marshal unsigned_shape (VStruct (unsigned_values (plain a))) = Marshal unsigned_shape (VStruct (unsigned_values (plain b)))"
    using assms(1) unsigned_document_plain by (simp add: unsigned_document_def)
  then show ?thesis
    using Marshal_inj ok assms(2,3) record_shape_facts(3,4) by blast
qed

lemma unsigned_values_eq: "unsigned_values (plain a) = unsigned_values (plain b) \<Longrightarrow> r_Hash a = r_Hash b \<Longrightarrow> plain a = plain b"
proof -
  have VStrings_inj: "VStrings xs = VStrings ys \<Longrightarrow> xs = ys" for xs ys by (metis g_strings_VStrings)
  show "unsigned_values (plain a) = unsigned_values (plain b) \<Longrightarrow> r_Hash a = r_Hash b \<Longrightarrow> plain a = plain b"
    by (cases a; cases b) (auto simp: unsigned_values_def plain_def dest: VStrings_inj split: if_splits)
qed

lemma chained_snoc:
  "chained previous (rs @ [r]) \<longleftrightarrow>
     chained previous rs \<and> r_PreviousHash r = last_hash previous rs \<and> EqualFold (calculate r) (r_Hash r) \<and> utf8_record r"
  by (induction rs arbitrary: previous) (auto simp: last_hash_def)

lemma same_head:
  assumes "chained [] rs" and "chained [] ss" and "last_hash [] rs = last_hash [] ss"
  shows "map plain rs = map plain ss \<or> (\<exists>a\<in>set rs. \<exists>b\<in>set ss. sha256_collision (unsigned_document a) (unsigned_document b))"
  using assms
proof (induction rs arbitrary: ss rule: rev_induct)
  case Nil
  have "ss = []"
  proof (rule ccontr)
    assume "ss \<noteq> []"
    then obtain ts b where "ss = ts @ [b]" using rev_exhaust by blast
    then show False using Nil EqualFold_calculate_not_Nil by (auto simp: chained_snoc last_hash_def)
  qed
  then show ?case by simp
next
  case (snoc a rs)
  have a: "chained [] rs" "r_PreviousHash a = last_hash [] rs" "EqualFold (calculate a) (r_Hash a)" "utf8_record a"
    using snoc.prems(1) by (auto simp: chained_snoc)
  have head: "last_hash [] (rs @ [a]) = r_Hash a" by (simp add: last_hash_def)
  have "ss \<noteq> []" using a(3) snoc.prems(3) EqualFold_calculate_not_Nil head by (auto simp: last_hash_def)
  then obtain ts b where ss: "ss = ts @ [b]" using rev_exhaust by blast
  then have b: "chained [] ts" "r_PreviousHash b = last_hash [] ts" "EqualFold (calculate b) (r_Hash b)" "utf8_record b"
    "r_Hash a = r_Hash b"
    using snoc.prems(2,3) by (auto simp: chained_snoc last_hash_def)
  have "sha256_hex (unsigned_document a) = sha256_hex (unsigned_document b)"
    using EqualFold_calculate a(3) b(3,5) by (simp add: calculate_def)
  then consider "sha256_collision (unsigned_document a) (unsigned_document b)" | "unsigned_document a = unsigned_document b"
    using sha256_hex_eq by blast
  then show ?case
  proof cases
    case 1
    then show ?thesis by (auto simp: ss)
  next
    case 2
    then have eq: "plain a = plain b" using unsigned_values_eq unsigned_document_inj a(4) b(4,5) by blast
    then have "r_PreviousHash a = r_PreviousHash b" by (cases a; cases b) (simp add: plain_def)
    then show ?thesis using snoc.IH [OF a(1) b(1)] a(2) b(2) eq by (auto simp: ss)
  qed
qed

text \<open>
  C34: Two verified histories whose last records carry the same hash hold the same records, one by one,
  up to empty lists of image digests; otherwise two of their records are a collision of SHA-256.
\<close>

theorem tamper_evidence:
  assumes "Verify f = Inr rs" and "Verify g = Inr ss" and "rs \<noteq> []" and "ss \<noteq> []" and "r_Hash (last rs) = r_Hash (last ss)"
  shows "map plain rs = map plain ss \<or> (\<exists>a\<in>set rs. \<exists>b\<in>set ss. sha256_collision (unsigned_document a) (unsigned_document b))"
proof -
  have "chained [] rs" if "Verify f = Inr rs" for f rs
  proof (cases f)
    case (Content raw)
    then show ?thesis using that verify_lines_chained by (auto simp: Verify_Content split: if_splits)
  qed (use that in \<open>simp_all add: Verify_def VerifyContext_def background_def\<close>)
  then show ?thesis using same_head [of rs ss] assms by (simp add: last_hash_def)
qed

text \<open>A history compared with itself.\<close>

theorem tamper_evidence_witness:
  "\<exists>r. Verify (snd (Append faultless demo_now demo_entry Absent)) = Inr [r]
     \<and> (map plain [r] = map plain [r] \<or> (\<exists>a\<in>set [r]. \<exists>b\<in>set [r]. sha256_collision (unsigned_document a) (unsigned_document b)))"
proof -
  have "Verify (snd (Append faultless demo_now demo_entry Absent)) = Inr [sealed demo_now demo_entry []]"
    using verify_after_append [of Absent "[]" demo_now demo_entry] demo_good by (simp add: Append_def faultless_def Let_def)
  then show ?thesis
    using tamper_evidence [of "snd (Append faultless demo_now demo_entry Absent)" "[sealed demo_now demo_entry []]"
        "snd (Append faultless demo_now demo_entry Absent)" "[sealed demo_now demo_entry []]"] by auto
qed

end
