(* ===== verification/Diagnostics.thy ===== *)
theory Diagnostics
  imports Go_Json
begin

text \<open>
  \<^verbatim>\<open>internal/proxy/diagnostics.go\<close>: the bounded buffer of network diagnostics. A writer never waits:
  whether its \<^verbatim>\<open>TryLock\<close> succeeded is an input of \<open>record_event\<close>, as is the text of the current time.
  The \<^verbatim>\<open>uint64\<close> counters are 64-bit words, so the accounting of lost events is stated modulo their
  wrap-around.
\<close>

definition MaxDiagnosticLimit :: nat where "MaxDiagnosticLimit = 256"
definition MaxDiagnosticBytes :: nat where "MaxDiagnosticBytes = 65536"

record NetworkDiagnostic =
  nd_Timestamp :: bytes
  nd_Generation :: int
  nd_Outcome :: bytes
  nd_Host :: bytes
  nd_Port :: int

record DiagnosticSnapshot =
  sn_Generation :: int
  sn_Events :: "NetworkDiagnostic list"
  sn_Truncated :: bool
  sn_Omitted :: "64 word"
  sn_EncodedBytes :: nat

record storedDiagnostic =
  sd_event :: NetworkDiagnostic
  sd_size :: nat

record diagnosticBuffer =
  b_generation :: int
  b_events :: "storedDiagnostic list"
  b_bytes :: nat
  b_omitted :: "64 word"
  b_contended :: "64 word"

definition newDiagnosticBuffer :: "int \<Rightarrow> diagnosticBuffer" where
  "newDiagnosticBuffer generation =
     \<lparr>b_generation = generation, b_events = [], b_bytes = 0, b_omitted = 0, b_contended = 0\<rparr>"

definition diagnostic_json :: "NetworkDiagnostic \<Rightarrow> json" where
  "diagnostic_json e = JObj [(''timestamp'', JStr (nd_Timestamp e)), (''generation'', jint (nd_Generation e)),
     (''outcome'', JStr (nd_Outcome e)), (''host'', JStr (nd_Host e)), (''port'', jint (nd_Port e))]"

definition marshal_diagnostic :: "NetworkDiagnostic \<Rightarrow> bytes" where
  "marshal_diagnostic e = json_encode True (diagnostic_json e)"

text \<open>The loop that drops the oldest events. It ends because an empty buffer holds no bytes.\<close>

fun evict :: "storedDiagnostic list \<Rightarrow> nat \<Rightarrow> 64 word \<Rightarrow> storedDiagnostic list \<times> nat \<times> 64 word" where
  "evict [] bs om = ([], bs, om)"
| "evict (e # es) bs om =
     (if length (e # es) > MaxDiagnosticLimit \<or> bs > MaxDiagnosticBytes
      then evict es (bs - sd_size e) (om + 1) else (e # es, bs, om))"

definition record_event :: "bool \<Rightarrow> bytes \<Rightarrow> bytes \<Rightarrow> bytes \<Rightarrow> int \<Rightarrow> diagnosticBuffer \<Rightarrow> diagnosticBuffer" where
  "record_event locked timestamp outcome host port b =
     (if \<not> locked then b\<lparr>b_contended := b_contended b + 1\<rparr>
      else
        let event = \<lparr>nd_Timestamp = timestamp, nd_Generation = b_generation b, nd_Outcome = outcome,
                     nd_Host = host, nd_Port = port\<rparr>;
            raw = marshal_diagnostic event
        in if length raw > MaxDiagnosticBytes then b\<lparr>b_omitted := b_omitted b + 1\<rparr>
           else case evict (b_events b @ [\<lparr>sd_event = event, sd_size = length raw\<rparr>])
                       (b_bytes b + length raw) (b_omitted b) of
                  (es, bs, om) \<Rightarrow> b\<lparr>b_events := es, b_bytes := bs, b_omitted := om\<rparr>)"

text \<open>
  The selection loop of \<^verbatim>\<open>snapshot\<close>, from the newest event to the oldest: the selected events (newest
  first), their size, and the number of events left out.
\<close>

fun select_events :: "int \<Rightarrow> int \<Rightarrow> storedDiagnostic list \<Rightarrow> NetworkDiagnostic list \<Rightarrow> nat
    \<Rightarrow> NetworkDiagnostic list \<times> nat \<times> nat" where
  "select_events limit maxBytes [] selected encoded = (selected, encoded, 0)"
| "select_events limit maxBytes (e # older) selected encoded =
     (if int (length selected) \<ge> limit \<or> int encoded + int (sd_size e) > maxBytes
      then (selected, encoded, length (e # older))
      else select_events limit maxBytes older (selected @ [sd_event e]) (encoded + sd_size e))"

definition snapshot :: "int \<Rightarrow> int \<Rightarrow> diagnosticBuffer \<Rightarrow> DiagnosticSnapshot" where
  "snapshot limit maxBytes b =
     (case select_events limit maxBytes (rev (b_events b)) [] 0 of
        (selected, encoded, queryOmitted) \<Rightarrow>
          let omitted = b_omitted b + b_contended b + word_of_nat queryOmitted in
          \<lparr>sn_Generation = b_generation b, sn_Events = rev selected, sn_Truncated = (omitted > 0),
           sn_Omitted = omitted, sn_EncodedBytes = encoded\<rparr>)"

section \<open>Invariant\<close>

definition total_size :: "storedDiagnostic list \<Rightarrow> nat" where
  "total_size es = sum_list (map sd_size es)"

definition stored_ok :: "int \<Rightarrow> storedDiagnostic \<Rightarrow> bool" where
  "stored_ok g e = (sd_size e = length (marshal_diagnostic (sd_event e)) \<and> nd_Generation (sd_event e) = g)"

definition buffer_ok :: "diagnosticBuffer \<Rightarrow> bool" where
  "buffer_ok b = (b_bytes b = total_size (b_events b) \<and> b_bytes b \<le> MaxDiagnosticBytes
     \<and> length (b_events b) \<le> MaxDiagnosticLimit \<and> list_all (stored_ok (b_generation b)) (b_events b))"

lemma total_size_simps [simp]:
  "total_size [] = 0" "total_size (e # es) = sd_size e + total_size es"
  "total_size (es @ fs) = total_size es + total_size fs"
  by (simp_all add: total_size_def)

lemma evict_spec:
  assumes "evict es (total_size es) om = (fs, bs, om')"
  shows "\<exists>gone. es = gone @ fs \<and> om' = om + word_of_nat (length gone) \<and> bs = total_size fs
    \<and> length fs \<le> MaxDiagnosticLimit \<and> bs \<le> MaxDiagnosticBytes"
  using assms
proof (induction es arbitrary: om)
  case Nil
  then show ?case by simp
next
  case (Cons e es)
  show ?case
  proof (cases "length (e # es) > MaxDiagnosticLimit \<or> total_size (e # es) > MaxDiagnosticBytes")
    case True
    with Cons.prems have "evict es (total_size es) (om + 1) = (fs, bs, om')"
      by (simp split: if_splits)
    then obtain gone where "es = gone @ fs \<and> om' = om + 1 + word_of_nat (length gone) \<and> bs = total_size fs
        \<and> length fs \<le> MaxDiagnosticLimit \<and> bs \<le> MaxDiagnosticBytes"
      using Cons.IH by blast
    then show ?thesis
      by (intro exI [of _ "e # gone"]) simp
  next
    case False
    with Cons.prems show ?thesis
      by (intro exI [of _ "[]"]) (auto split: if_splits)
  qed
qed

text \<open>
  One call of \<open>record_event\<close>: the buffer stays within its bounds, keeps a suffix of the old events and
  possibly the new one, and every event that is lost is counted.
\<close>

lemma record_event_step:
  assumes "buffer_ok b" and "b' = record_event locked ts out host port b"
  shows "buffer_ok b' \<and> b_generation b' = b_generation b
    \<and> b_omitted b' + b_contended b' + word_of_nat (length (b_events b'))
      = b_omitted b + b_contended b + word_of_nat (length (b_events b)) + 1"
proof -
  let ?ev = "\<lparr>nd_Timestamp = ts, nd_Generation = b_generation b, nd_Outcome = out, nd_Host = host, nd_Port = port\<rparr>"
  let ?new = "\<lparr>sd_event = ?ev, sd_size = length (marshal_diagnostic ?ev)\<rparr>"
  consider "\<not> locked" | "locked" "length (marshal_diagnostic ?ev) > MaxDiagnosticBytes"
    | "locked" "length (marshal_diagnostic ?ev) \<le> MaxDiagnosticBytes" by linarith
  then show ?thesis
  proof cases
    case 3
    obtain es bs om where ev: "evict (b_events b @ [?new]) (total_size (b_events b @ [?new])) (b_omitted b) = (es, bs, om)"
      by (cases "evict (b_events b @ [?new]) (total_size (b_events b @ [?new])) (b_omitted b)")
    obtain gone where gone: "b_events b @ [?new] = gone @ es" "om = b_omitted b + word_of_nat (length gone)"
      "bs = total_size es" "length es \<le> MaxDiagnosticLimit" "bs \<le> MaxDiagnosticBytes"
      using evict_spec [OF ev] by blast
    have "b' = b\<lparr>b_events := es, b_bytes := bs, b_omitted := om\<rparr>"
      using 3 ev assms by (simp add: record_event_def Let_def buffer_ok_def)
    moreover have "list_all (stored_ok (b_generation b)) (gone @ es)"
      using assms(1) unfolding gone(1) [symmetric] by (simp add: buffer_ok_def stored_ok_def)
    moreover have "length (b_events b) + 1 = length gone + length es"
      using arg_cong [OF gone(1), of length] by simp
    then have "word_of_nat (length (b_events b)) + (1 :: 64 word) = word_of_nat (length gone) + word_of_nat (length es)"
      by (metis of_nat_1 of_nat_add)
    ultimately show ?thesis
      using gone by (simp add: buffer_ok_def add_ac)
  qed (use assms in \<open>simp_all add: record_event_def buffer_ok_def\<close>)
qed

type_synonym record_call = "bool \<times> bytes \<times> bytes \<times> bytes \<times> int"

definition record_all :: "record_call list \<Rightarrow> diagnosticBuffer \<Rightarrow> diagnosticBuffer" where
  "record_all calls b = fold (\<lambda>(locked, ts, out, host, port). record_event locked ts out host port) calls b"

lemma record_all_step:
  assumes "buffer_ok b"
  shows "buffer_ok (record_all calls b) \<and> b_generation (record_all calls b) = b_generation b
    \<and> b_omitted (record_all calls b) + b_contended (record_all calls b) + word_of_nat (length (b_events (record_all calls b)))
      = b_omitted b + b_contended b + word_of_nat (length (b_events b)) + word_of_nat (length calls)"
  using assms
proof (induction calls arbitrary: b)
  case Nil
  then show ?case by (simp add: record_all_def)
next
  case (Cons c calls)
  obtain locked ts out host port where c: "c = (locked, ts, out, host, port)"
    by (cases c)
  let ?b = "record_event locked ts out host port b"
  have "record_all (c # calls) b = record_all calls ?b"
    by (simp add: record_all_def c)
  with Cons.IH [of ?b] record_event_step [OF Cons.prems refl, of locked ts out host port] show ?case
    by (simp add: add_ac)
qed

lemma buffer_ok_new [simp]: "buffer_ok (newDiagnosticBuffer g)"
  by (simp add: buffer_ok_def newDiagnosticBuffer_def)

section \<open>Snapshots\<close>

lemma select_events_spec:
  assumes "select_events limit maxBytes es selected encoded = (sel, enc, om)"
    and "int (length selected) \<le> max limit 0" and "int encoded \<le> max maxBytes 0"
  shows "\<exists>taken rest. es = taken @ rest \<and> sel = selected @ map sd_event taken \<and> enc = encoded + total_size taken
    \<and> om = length rest \<and> int (length sel) \<le> max limit 0 \<and> int enc \<le> max maxBytes 0
    \<and> (rest \<noteq> [] \<longrightarrow> int (length sel) \<ge> limit \<or> int enc + int (sd_size (hd rest)) > maxBytes)"
  using assms
proof (induction es arbitrary: selected encoded)
  case Nil
  then show ?case by simp
next
  case (Cons e es)
  show ?case
  proof (cases "int (length selected) \<ge> limit \<or> int encoded + int (sd_size e) > maxBytes")
    case True
    with Cons.prems show ?thesis
      by (intro exI2 [where a = "[]" and b = "e # es"]) auto
  next
    case False
    with Cons.prems have "select_events limit maxBytes es (selected @ [sd_event e]) (encoded + sd_size e) = (sel, enc, om)"
      by (simp split: if_splits)
    moreover have "int (length (selected @ [sd_event e])) \<le> max limit 0"
      and "int (encoded + sd_size e) \<le> max maxBytes 0"
      using False by simp_all
    ultimately obtain taken rest where "es = taken @ rest \<and> sel = (selected @ [sd_event e]) @ map sd_event taken
      \<and> enc = encoded + sd_size e + total_size taken
      \<and> om = length rest \<and> int (length sel) \<le> max limit 0 \<and> int enc \<le> max maxBytes 0
      \<and> (rest \<noteq> [] \<longrightarrow> int (length sel) \<ge> limit \<or> int enc + int (sd_size (hd rest)) > maxBytes)"
      using Cons.IH by blast
    then show ?thesis
      by (intro exI2 [where a = "e # taken" and b = rest]) auto
  qed
qed

lemma snapshot_spec:
  "\<exists>older kept. b_events b = older @ kept \<and> sn_Events (snapshot limit maxBytes b) = map sd_event kept
    \<and> sn_EncodedBytes (snapshot limit maxBytes b) = total_size kept
    \<and> sn_Omitted (snapshot limit maxBytes b) = b_omitted b + b_contended b + word_of_nat (length older)
    \<and> int (length kept) \<le> max limit 0 \<and> int (total_size kept) \<le> max maxBytes 0
    \<and> (older = [] \<or> int (length kept) \<ge> limit \<or> int (total_size kept) + int (sd_size (last older)) > maxBytes)"
proof -
  obtain sel enc om where sel: "select_events limit maxBytes (rev (b_events b)) [] 0 = (sel, enc, om)"
    by (cases "select_events limit maxBytes (rev (b_events b)) [] 0")
  obtain taken rest where tr: "rev (b_events b) = taken @ rest" "sel = map sd_event taken" "enc = total_size taken"
    "om = length rest" "int (length sel) \<le> max limit 0" "int enc \<le> max maxBytes 0"
    "rest \<noteq> [] \<longrightarrow> int (length sel) \<ge> limit \<or> int enc + int (sd_size (hd rest)) > maxBytes"
    using select_events_spec [OF sel, simplified] by blast
  have "b_events b = rev rest @ rev taken"
    using arg_cong [OF tr(1), of rev] by simp
  moreover have "total_size (rev taken) = total_size taken"
    by (simp add: total_size_def rev_map [symmetric])
  moreover have "last (rev rest) = hd rest" if "rest \<noteq> []"
    using that by (simp add: last_rev)
  ultimately show ?thesis
    using sel tr by (intro exI2 [where a = "rev rest" and b = "rev taken"])
      (auto simp: snapshot_def rev_map Let_def)
qed

section \<open>Properties\<close>

text \<open>C30: whatever is recorded, in whatever order and with whatever lock contention, the buffer holds at
  most 256 events of at most 65536 encoded bytes in total, and its byte counter is the sum of the sizes
  of the events it holds.\<close>

theorem diagnostics_bounded:
  "buffer_ok (record_all calls (newDiagnosticBuffer g))"
  using record_all_step [OF buffer_ok_new] by blast

text \<open>a snapshot shows the newest events in the order they were recorded, never more than the
  requested number nor more than the requested bytes, and leaves an event out only when the next older
  one would exceed one of the two limits.\<close>

theorem snapshot_newest:
  "\<exists>older kept. b_events b = older @ kept \<and> sn_Events (snapshot limit maxBytes b) = map sd_event kept
    \<and> sn_EncodedBytes (snapshot limit maxBytes b) = total_size kept
    \<and> int (length kept) \<le> max limit 0 \<and> int (total_size kept) \<le> max maxBytes 0
    \<and> (older = [] \<or> int (length kept) \<ge> limit \<or> int (total_size kept) + int (sd_size (last older)) > maxBytes)"
  using snapshot_spec by blast

text \<open>loss is reported: a snapshot's omission counter plus the events it shows is the number of
  calls ever made to record an event (modulo the width of the counter).\<close>

theorem snapshot_accounts_for_loss:
  "sn_Omitted (snapshot limit maxBytes (record_all calls (newDiagnosticBuffer g)))
     + word_of_nat (length (sn_Events (snapshot limit maxBytes (record_all calls (newDiagnosticBuffer g)))))
   = word_of_nat (length calls)"
proof -
  let ?b = "record_all calls (newDiagnosticBuffer g)"
  have total: "b_omitted ?b + b_contended ?b + word_of_nat (length (b_events ?b)) = word_of_nat (length calls)"
    using record_all_step [OF buffer_ok_new [of g], of calls] by (simp add: newDiagnosticBuffer_def)
  obtain older kept where "b_events ?b = older @ kept" "sn_Events (snapshot limit maxBytes ?b) = map sd_event kept"
    "sn_Omitted (snapshot limit maxBytes ?b) = b_omitted ?b + b_contended ?b + word_of_nat (length older)"
    using snapshot_spec by blast
  with total show ?thesis by (simp add: add_ac)
qed

end
