(* ===== verification/Go_Net.thy ===== *)
theory Go_Net
  imports Go_Bytes
begin

text \<open>
  What the sources use of Go's package \<^verbatim>\<open>net\<close>: \<^verbatim>\<open>SplitHostPort\<close>, \<^verbatim>\<open>JoinHostPort\<close> and whether \<^verbatim>\<open>ParseIP\<close>
  accepts a text that contains a colon. The lemmas say when splitting inverts joining, and which texts
  are the canonical \<^verbatim>\<open>127.0.0.1:port\<close> addresses that several components insist on.
\<close>

definition colon :: char where
  "colon = CHR '':''"

definition SplitHostPort :: "bytes \<Rightarrow> (bytes \<times> bytes) option" where
  "SplitHostPort hostport =
     (case LastIndexByte hostport colon of
        None \<Rightarrow> None
      | Some i \<Rightarrow>
          if hd hostport = CHR ''['' then
            (case IndexByte hostport CHR '']'' of
               None \<Rightarrow> None
             | Some e \<Rightarrow>
                 if Suc e = length hostport \<or> Suc e \<noteq> i then None
                 else if CHR ''['' \<in> set (drop 1 hostport) \<or> CHR '']'' \<in> set (drop (Suc e) hostport) then None
                 else Some (take (e - 1) (drop 1 hostport), drop (Suc i) hostport))
          else if colon \<in> set (take i hostport) then None
          else if CHR ''['' \<in> set hostport \<or> CHR '']'' \<in> set hostport then None
          else Some (take i hostport, drop (Suc i) hostport))"

definition JoinHostPort :: "bytes \<Rightarrow> bytes \<Rightarrow> bytes" where
  "JoinHostPort host port =
     (if colon \<in> set host then ''['' @ host @ '']'' @ [colon] @ port else host @ [colon] @ port)"

section \<open>IP addresses that contain a colon\<close>

text \<open>The four decimal fields of an IPv4 address, without leading zeros and at most 255.\<close>

definition ipv4_field :: "bytes \<Rightarrow> bool" where
  "ipv4_field f =
     (f \<noteq> [] \<and> list_all is_digit f \<and> (length f > 1 \<longrightarrow> hd f \<noteq> CHR ''0'')
      \<and> (case decimal_value 0 f of None \<Rightarrow> False | Some n \<Rightarrow> n \<le> 255))"

definition ipv4_text :: "bytes \<Rightarrow> bool" where
  "ipv4_text s = (length (split_on CHR ''.'' s) = 4 \<and> list_all ipv4_field (split_on CHR ''.'' s))"

text \<open>
  The loop of Go's IPv6 parser. The first argument counts the groups still to be filled, \<open>ell\<close> tells
  whether a double colon was seen.
\<close>

fun ipv6_loop :: "nat \<Rightarrow> bool \<Rightarrow> bytes \<Rightarrow> bool" where
  "ipv6_loop 0 ell s = (s = [] \<and> \<not> ell)"
| "ipv6_loop (Suc n) ell s =
     (let group = takeWhile is_hex s; rest = dropWhile is_hex s in
      if group = [] \<or> length group > 4 then False
      else if rest \<noteq> [] \<and> hd rest = CHR ''.'' then
        (ell \<or> n = 1) \<and> n \<ge> 1 \<and> ipv4_text s \<and> (n > 1 \<longleftrightarrow> ell)
      else if rest = [] then (n > 0 \<longleftrightarrow> ell)
      else if hd rest \<noteq> colon \<or> tl rest = [] then False
      else if hd (tl rest) = colon then
        (if ell then False
         else if tl (tl rest) = [] then n > 0
         else ipv6_loop n True (tl (tl rest)))
      else ipv6_loop n ell (tl rest))"

text \<open>
  \<^verbatim>\<open>net.ParseIP(s) != nil\<close> for a text with a colon: it is read as IPv6 unless a dot or a percent sign
  comes before the first colon, and an address with a zone is not accepted.
\<close>

definition ParseIP_colon :: "bytes \<Rightarrow> bool" where
  "ParseIP_colon s =
     (let lead = takeWhile (\<lambda>c. c \<noteq> colon) s in
      CHR ''.'' \<notin> set lead \<and> CHR ''%'' \<notin> set s
      \<and> (if HasPrefix s ''::'' then drop 2 s = [] \<or> ipv6_loop 8 True (drop 2 s) else ipv6_loop 8 False s))"

section \<open>Splitting and joining\<close>

lemma LastIndexByte_append:
  assumes "c \<notin> set t"
  shows "LastIndexByte (s @ c # t) c = Some (length s)"
proof -
  have "LastIndexByte t c = None"
    using assms by (induction t) auto
  then show ?thesis by (induction s) auto
qed

lemma LastIndexByte_Some:
  assumes "LastIndexByte s c = Some i"
  shows "s = take i s @ c # drop (Suc i) s \<and> c \<notin> set (drop (Suc i) s)"
  using assms
proof (induction s arbitrary: i)
  case Nil
  then show ?case by simp
next
  case (Cons x s)
  show ?case
  proof (cases "LastIndexByte s c")
    case None
    with Cons.prems show ?thesis by (auto simp: LastIndexByte_None split: if_splits)
  next
    case (Some j)
    with Cons show ?thesis by auto
  qed
qed

lemma SplitHostPort_plain:
  assumes "colon \<notin> set host" and "colon \<notin> set port"
    and "CHR ''['' \<notin> set (host @ port)" and "CHR '']'' \<notin> set (host @ port)"
  shows "SplitHostPort (host @ [colon] @ port) = Some (host, port)"
proof -
  have "hd (host @ colon # port) \<noteq> CHR ''[''"
    using assms(3) by (cases host) (auto simp: colon_def)
  with assms show ?thesis
    by (simp add: SplitHostPort_def LastIndexByte_append) (simp add: colon_def)
qed

lemma SplitHostPort_Join_plain:
  assumes "colon \<notin> set host" and "colon \<notin> set port"
    and "CHR ''['' \<notin> set (host @ port)" and "CHR '']'' \<notin> set (host @ port)"
  shows "SplitHostPort (JoinHostPort host port) = Some (host, port)"
  using SplitHostPort_plain [OF assms] assms(1) by (simp add: JoinHostPort_def)

lemma SplitHostPort_port: "SplitHostPort s = Some (h, p) \<Longrightarrow> colon \<notin> set p \<and> HasSuffix s (colon # p)"
proof -
  assume ok: "SplitHostPort s = Some (h, p)"
  then obtain i where i: "LastIndexByte s colon = Some i" and p: "p = drop (Suc i) s"
    by (auto simp: SplitHostPort_def split: option.splits if_splits)
  have "s = take i s @ colon # p \<and> colon \<notin> set p"
    unfolding p by (rule LastIndexByte_Some [OF i])
  then show ?thesis
    by (metis HasSuffix_iff)
qed

lemma digits_no_punct: "list_all is_digit s \<Longrightarrow> colon \<notin> set s \<and> CHR ''['' \<notin> set s \<and> CHR '']'' \<notin> set s"
  by (auto simp: list_all_iff colon_def is_digit_def)

section \<open>Canonical loopback addresses\<close>

text \<open>
  The test that \<^verbatim>\<open>decl.validate\<close> makes of an interface address and \<^verbatim>\<open>jobcontract\<close> makes of an egress
  listener: the address is split, the port is read, and the address must be what joining gives back.
\<close>

definition loopback_host :: bytes where
  "loopback_host = ''127.0.0.1''"

definition canonical_loopback :: "bytes \<Rightarrow> bool" where
  "canonical_loopback address =
     (case SplitHostPort address of
        None \<Rightarrow> False
      | Some (host, portText) \<Rightarrow>
          host = loopback_host \<and>
          (case Atoi portText of
             None \<Rightarrow> False
           | Some port \<Rightarrow> 1 \<le> port \<and> port \<le> 65535 \<and> JoinHostPort host (Itoa port) = address))"

lemma loopback_host_chars: "colon \<notin> set loopback_host" "CHR ''['' \<notin> set loopback_host" "CHR '']'' \<notin> set loopback_host"
  by (simp_all add: loopback_host_def colon_def)

lemma canonical_loopback_iff:
  "canonical_loopback address \<longleftrightarrow>
     (\<exists>port. 1 \<le> port \<and> port \<le> 65535 \<and> address = loopback_host @ [colon] @ Itoa port)"
proof
  assume "canonical_loopback address"
  then show "\<exists>port. 1 \<le> port \<and> port \<le> 65535 \<and> address = loopback_host @ [colon] @ Itoa port"
    using loopback_host_chars(1)
    by (auto simp: canonical_loopback_def JoinHostPort_def split: option.splits)
next
  assume "\<exists>port. 1 \<le> port \<and> port \<le> 65535 \<and> address = loopback_host @ [colon] @ Itoa port"
  then obtain port where port: "1 \<le> port" "port \<le> 65535"
    and address: "address = loopback_host @ [colon] @ Itoa port" by blast
  have "list_all is_digit (Itoa port)"
    using port by (simp add: Itoa_def nat_decimal_digits)
  note digits = digits_no_punct [OF this]
  have "SplitHostPort address = Some (loopback_host, Itoa port)"
    unfolding address using digits loopback_host_chars by (intro SplitHostPort_plain) auto
  moreover have "Atoi (Itoa port) = Some port"
    using port by (intro Atoi_Itoa) (simp_all add: int64_min_def int64_max_def)
  ultimately show "canonical_loopback address"
    using port address loopback_host_chars(1) by (simp add: canonical_loopback_def JoinHostPort_def)
qed

end
