(* ===== verification/Go_Path.thy ===== *)
theory Go_Path
  imports Kenogram_Prelude
begin

text \<open>
  What the sources use of Go's package \<^verbatim>\<open>path/filepath\<close> on Unix (and of \<^verbatim>\<open>path\<close>, which agrees with it
  there): \<^verbatim>\<open>IsAbs\<close>, \<^verbatim>\<open>Clean\<close>, \<^verbatim>\<open>Join\<close>, \<^verbatim>\<open>Rel\<close> and \<^verbatim>\<open>Dir\<close>. \<^verbatim>\<open>Clean\<close> is written over the elements of the
  path with a stack, the innermost element on top, which is the loop of Go's implementation read
  one path element at a time. The lemmas give the normal form of clean absolute paths, on which
  every containment check of the program rests.
\<close>

definition slash :: char where
  "slash = CHR ''/''"

definition IsAbs :: "bytes \<Rightarrow> bool" where
  "IsAbs p = (p \<noteq> [] \<and> hd p = slash)"

fun clean_step :: "bool \<Rightarrow> bytes list \<Rightarrow> bytes \<Rightarrow> bytes list" where
  "clean_step rooted out e =
     (if e = [] \<or> e = ''.'' then out
      else if e = ''..'' then
        (case out of
           [] \<Rightarrow> if rooted then [] else [''..'']
         | d # ds \<Rightarrow> if d = ''..'' then ''..'' # out else ds)
      else e # out)"

declare clean_step.simps [simp del]

definition clean_elements :: "bool \<Rightarrow> bytes list \<Rightarrow> bytes list" where
  "clean_elements rooted es = rev (foldl (clean_step rooted) [] es)"

definition Clean :: "bytes \<Rightarrow> bytes" where
  "Clean p =
     (if p = [] then ''.''
      else let rooted = (hd p = slash);
               es = clean_elements rooted (split_on slash p)
           in if rooted then slash # join_with [slash] es
              else if es = [] then ''.'' else join_with [slash] es)"

text \<open>\<^verbatim>\<open>filepath.Join\<close> of two elements: the first empty elements are dropped, the rest is cleaned.\<close>

definition Join :: "bytes \<Rightarrow> bytes \<Rightarrow> bytes" where
  "Join a b =
     (if a = [] then (if b = [] then [] else Clean b)
      else if b = [] then Clean a
      else Clean (a @ [slash] @ b))"

text \<open>\<^verbatim>\<open>filepath.Dir\<close>: everything up to and including the last separator, cleaned.\<close>

definition Dir :: "bytes \<Rightarrow> bytes" where
  "Dir p = (case LastIndexByte p slash of None \<Rightarrow> Clean [] | Some i \<Rightarrow> Clean (take (Suc i) p))"

text \<open>
  \<^verbatim>\<open>filepath.Rel\<close>: the elements that the two cleaned paths share are dropped, one \<^verbatim>\<open>..\<close> stands for
  every remaining element of the base; there is no answer when exactly one path is absolute or the
  base goes up beyond what is known.
\<close>

fun strip_common :: "bytes list \<Rightarrow> bytes list \<Rightarrow> bytes list \<times> bytes list" where
  "strip_common (a # as) (b # bs) = (if a = b then strip_common as bs else (a # as, b # bs))"
| "strip_common as bs = (as, bs)"

definition path_elements :: "bytes \<Rightarrow> bytes list" where
  "path_elements p = clean_elements (IsAbs p) (split_on slash p)"

definition Rel :: "bytes \<Rightarrow> bytes \<Rightarrow> bytes option" where
  "Rel base target =
     (if Clean target = Clean base then Some ''.''
      else if IsAbs base \<noteq> IsAbs target then None
      else case strip_common (path_elements base) (path_elements target) of
             (bs, ts) \<Rightarrow>
               if bs \<noteq> [] \<and> hd bs = ''..'' then None
               else Some (join_with [slash] (replicate (length bs) ''..'' @ ts)))"

section \<open>The normal form of clean absolute paths\<close>

definition plain_element :: "bytes \<Rightarrow> bool" where
  "plain_element e = (e \<noteq> [] \<and> e \<noteq> ''.'' \<and> e \<noteq> ''..'' \<and> slash \<notin> set e)"

definition abs_path :: "bytes list \<Rightarrow> bytes" where
  "abs_path es = slash # join_with [slash] es"

definition clean_abs :: "bytes \<Rightarrow> bool" where
  "clean_abs p = (IsAbs p \<and> Clean p = p)"

lemma clean_step_plain: "plain_element e \<Longrightarrow> clean_step r out e = e # out"
  by (simp add: clean_step.simps plain_element_def)

lemma foldl_clean_plain: "list_all plain_element es \<Longrightarrow> foldl (clean_step r) out es = rev es @ out"
  by (induction es arbitrary: out) (simp_all add: clean_step_plain)

lemma clean_elements_plain [simp]: "list_all plain_element es \<Longrightarrow> clean_elements r es = es"
  by (simp add: clean_elements_def foldl_clean_plain)

lemma clean_step_rooted_plain:
  assumes "list_all plain_element out" and "slash \<notin> set e"
  shows "list_all plain_element (clean_step True out e)"
  using assms by (auto simp: clean_step.simps plain_element_def split: list.splits)

lemma foldl_clean_rooted_plain:
  assumes "list_all plain_element out" and "\<forall>e\<in>set es. slash \<notin> set e"
  shows "list_all plain_element (foldl (clean_step True) out es)"
  using assms by (induction es arbitrary: out) (simp_all add: clean_step_rooted_plain)

lemma clean_elements_rooted:
  "\<forall>e\<in>set es. slash \<notin> set e \<Longrightarrow> list_all plain_element (clean_elements True es)"
  using foldl_clean_rooted_plain [of "[]" es] by (simp add: clean_elements_def list_all_iff)

lemma plain_no_slash: "list_all plain_element es \<Longrightarrow> \<forall>e\<in>set es. slash \<notin> set e"
  by (simp add: list_all_iff plain_element_def)

lemma split_abs_path:
  assumes "list_all plain_element es"
  shows "split_on slash (abs_path es) = [] # (if es = [] then [[]] else es)"
  using assms by (simp add: abs_path_def split_join plain_no_slash)

lemma Clean_abs_path:
  assumes "list_all plain_element es"
  shows "Clean (abs_path es) = abs_path es"
proof -
  have "clean_elements True (split_on slash (abs_path es)) = es"
    using assms
    by (simp add: split_abs_path clean_elements_def clean_step.simps foldl_clean_plain)
  then show ?thesis
    by (simp add: Clean_def abs_path_def)
qed

lemma Clean_rooted: "IsAbs p \<Longrightarrow> Clean p = abs_path (clean_elements True (split_on slash p))"
  by (simp add: Clean_def IsAbs_def abs_path_def)

lemma Clean_rooted_plain: "IsAbs p \<Longrightarrow> \<exists>es. Clean p = abs_path es \<and> list_all plain_element es"
  by (metis Clean_rooted clean_elements_rooted split_on_no_sep)

lemma IsAbs_abs_path [simp]: "IsAbs (abs_path es)"
  by (simp add: IsAbs_def abs_path_def)

lemma clean_abs_iff: "clean_abs p \<longleftrightarrow> (\<exists>es. p = abs_path es \<and> list_all plain_element es)"
  by (metis Clean_abs_path Clean_rooted_plain IsAbs_abs_path clean_abs_def)

lemma clean_abs_Clean: "IsAbs p \<Longrightarrow> clean_abs (Clean p)"
  using Clean_rooted_plain clean_abs_iff by blast

lemma Clean_clean_abs: "clean_abs p \<Longrightarrow> Clean p = p"
  by (simp add: clean_abs_def)

lemma abs_path_inj:
  assumes "abs_path as = abs_path bs" and "list_all plain_element as" and "list_all plain_element bs"
  shows "as = bs"
proof -
  have "(if as = [] then [[]] else as) = (if bs = [] then [[]] else bs)"
    using split_abs_path [OF assms(2)] split_abs_path [OF assms(3)] assms(1) by simp
  moreover have "[[]] \<noteq> as" "[[]] \<noteq> bs"
    using assms(2,3) by (auto simp: plain_element_def)
  ultimately show ?thesis by (auto split: if_splits)
qed

lemma path_elements_abs_path [simp]: "list_all plain_element es \<Longrightarrow> path_elements (abs_path es) = es"
  by (simp add: path_elements_def split_abs_path clean_elements_def clean_step.simps foldl_clean_plain)

lemma abs_path_elements: "clean_abs p \<Longrightarrow> abs_path (path_elements p) = p"
  by (auto simp: clean_abs_iff)

lemma path_elements_plain: "IsAbs p \<Longrightarrow> list_all plain_element (path_elements p)"
  by (metis clean_elements_rooted path_elements_def split_on_no_sep)

lemma abs_path_append:
  assumes "as \<noteq> []" and "bs \<noteq> []"
  shows "abs_path (as @ bs) = abs_path as @ slash # join_with [slash] bs"
  using assms(1)
proof (induction as)
  case Nil
  then show ?case by simp
next
  case (Cons a as)
  with assms(2) show ?case
    by (cases as) (simp_all add: abs_path_def join_with_Cons)
qed

text \<open>
  Textual prefixes that end at a separator are prefixes of the element lists: this is what makes the
  string comparison of the sources a test for containment.
\<close>

lemma abs_path_prefix_iff:
  assumes "list_all plain_element as" and "list_all plain_element bs" and "bs \<noteq> []"
  shows "HasPrefix (abs_path as) (abs_path bs @ [slash]) \<longleftrightarrow> (\<exists>cs. cs \<noteq> [] \<and> as = bs @ cs)"
proof
  assume "HasPrefix (abs_path as) (abs_path bs @ [slash])"
  then obtain t where "abs_path as = abs_path bs @ slash # t"
    by (auto simp: HasPrefix_iff)
  then have "split_on slash (abs_path as) = split_on slash (abs_path bs) @ split_on slash t"
    by (simp add: split_prefix)
  then have eq: "(if as = [] then [[]] else as) = bs @ split_on slash t"
    using assms by (simp add: split_abs_path)
  have "as \<noteq> []"
    using eq assms(3) split_on_not_Nil [of slash t] by (cases bs) (auto simp: append_eq_Cons_conv)
  with eq show "\<exists>cs. cs \<noteq> [] \<and> as = bs @ cs"
    by (metis split_on_not_Nil)
next
  assume "\<exists>cs. cs \<noteq> [] \<and> as = bs @ cs"
  then show "HasPrefix (abs_path as) (abs_path bs @ [slash])"
    using assms(3) by (auto simp: abs_path_append HasPrefix_iff)
qed

section \<open>Joining below an absolute root\<close>

lemma Clean_append_rooted:
  assumes "IsAbs a"
  shows "Clean (a @ slash # b) =
    abs_path (rev (foldl (clean_step True) (rev (path_elements a)) (split_on slash b)))"
proof -
  have "IsAbs (a @ slash # b)"
    using assms by (auto simp: IsAbs_def)
  moreover have "foldl (clean_step True) [] (split_on slash a) = rev (path_elements a)"
    using assms by (simp add: path_elements_def clean_elements_def)
  ultimately show ?thesis
    by (simp add: Clean_rooted split_prefix clean_elements_def)
qed

lemma strip_common_append [simp]: "strip_common as (as @ bs) = ([], bs)"
  by (induction as) simp_all

lemma strip_common_prefix: "strip_common as bs = (us, vs) \<Longrightarrow> \<exists>cs. as = cs @ us \<and> bs = cs @ vs"
proof (induction as bs rule: strip_common.induct)
  case (1 a as b bs)
  then show ?case
    by (cases "a = b") (auto intro: exI [of _ "a # cs" for cs])
qed auto

lemma join_with_dotdot: "join_with [slash] (''..'' # es) = ''..'' \<or>
    HasPrefix (join_with [slash] (''..'' # es)) (''..'' @ [slash])"
  by (cases es) (simp_all add: join_with_Cons)

lemma Rel_inside:
  assumes "clean_abs r" and "clean_abs p" and "Rel r p = Some rel"
    and "rel \<noteq> ''.''" and "rel \<noteq> ''..''" and "\<not> HasPrefix rel (''..'' @ [slash])"
  shows "\<exists>es. es \<noteq> [] \<and> path_elements p = path_elements r @ es"
proof -
  obtain bs ts where st: "strip_common (path_elements r) (path_elements p) = (bs, ts)"
    by fastforce
  have ne: "Clean p \<noteq> Clean r" and rel: "rel = join_with [slash] (replicate (length bs) ''..'' @ ts)"
    using assms(3,4) st by (auto simp: Rel_def split: if_splits)
  have "bs = []"
  proof (cases bs)
    case (Cons b bs')
    then have "rel = join_with [slash] (''..'' # replicate (length bs') ''..'' @ ts)"
      using rel by simp
    then have False
      using assms(5,6) join_with_dotdot by metis
    then show ?thesis ..
  qed
  with strip_common_prefix [OF st] have "path_elements p = path_elements r @ ts"
    by auto
  moreover have "ts \<noteq> []"
    using calculation ne assms(1,2) by (metis abs_path_elements append_Nil2)
  ultimately show ?thesis by blast
qed

end
