(* ===== verification/Naming.thy ===== *)
theory Naming
  imports Go_Net Go_Path
begin

text \<open>
  The packages \<^verbatim>\<open>internal/naming\<close> and \<^verbatim>\<open>internal/mountpath\<close>: the bounded identifiers that become host
  path components, container names and generated file names, exact host names, lexical containment
  below a root, and the paths that may be written into Podman's \<^verbatim>\<open>--mount\<close> grammar.
\<close>

datatype naming_error =
    InvalidName bytes bytes
  | InvalidHost bytes
  | NoRelativePath
  | EscapesRoot bytes bytes

section \<open>Operational names\<close>

definition name_start :: "char \<Rightarrow> bool" where
  "name_start c = (is_digit c \<or> (97 \<le> byte c \<and> byte c \<le> 122))"

definition name_char :: "char \<Rightarrow> bool" where
  "name_char c = (name_start c \<or> c \<in> set ''._-'')"

text \<open>The regular expression \<^verbatim>\<open>^[a-z0-9][a-z0-9._-]{0,62}$\<close>.\<close>

definition operational :: "bytes \<Rightarrow> bool" where
  "operational s = (case s of [] \<Rightarrow> False | c # t \<Rightarrow> name_start c \<and> length t \<le> 62 \<and> list_all name_char t)"

definition naming_validate :: "bytes \<Rightarrow> bytes \<Rightarrow> naming_error + unit" where
  "naming_validate kind v =
     (if \<not> operational v \<or> v = ''.'' \<or> v = ''..'' then Inl (InvalidName kind v) else Inr ())"

definition naming_World :: "bytes \<Rightarrow> naming_error + unit" where
  "naming_World v = naming_validate ''world'' v"

definition naming_Service :: "bytes \<Rightarrow> naming_error + unit" where
  "naming_Service v = naming_validate ''service'' v"

definition naming_Interface :: "bytes \<Rightarrow> naming_error + unit" where
  "naming_Interface v = naming_validate ''interface'' v"

section \<open>Hosts\<close>

text \<open>The runes of \<^verbatim>\<open>"*/\\@?#[]"\<close>.\<close>

definition host_forbidden :: "nat set" where
  "host_forbidden = {42, 47, 92, 64, 63, 35, 91, 93}"

definition host_rune :: "nat \<Rightarrow> bool" where
  "host_rune r = (\<not> (IsSpace r \<or> IsControl r \<or> IsFormat r \<or> r \<in> host_forbidden))"

definition naming_Host :: "bytes \<Rightarrow> naming_error + unit" where
  "naming_Host v =
     (if v = [] \<or> \<not> ValidUTF8 v then Inl (InvalidHost v)
      else if list_ex (\<lambda>(r, ok). \<not> host_rune r) (runes v) then Inl (InvalidHost v)
      else if Contains v [colon] \<and> \<not> ParseIP_colon v then Inl (InvalidHost v)
      else Inr ())"

section \<open>Containment below a root\<close>

definition JoinUnder :: "bytes \<Rightarrow> bytes \<Rightarrow> naming_error + bytes" where
  "JoinUnder root relative =
     (let joined = Join root relative in
      case Rel root joined of
        None \<Rightarrow> Inl NoRelativePath
      | Some rel \<Rightarrow>
          if rel = ''.'' \<or> rel = ''..'' \<or> IsAbs rel \<or> HasPrefix rel (''..'' @ [slash])
          then Inl (EscapesRoot relative root)
          else Inr joined)"

section \<open>Mount paths\<close>

text \<open>The bytes of \<^verbatim>\<open>",=\\\"'\x00\r\n"\<close>.\<close>

definition mount_meta :: bytes where
  "mount_meta = [CHR '','', CHR ''='', CHR 0x5C, CHR 0x22, CHR 0x27, CHR 0x00, CHR 0x0D, CHR 0x0A]"

definition mountpath_Validate :: "bytes \<Rightarrow> bool" where
  "mountpath_Validate v = (\<not> (\<not> IsAbs v \<or> Clean v \<noteq> v \<or> ContainsAny v mount_meta))"

section \<open>Facts\<close>

lemma name_start_plain: "name_start c \<Longrightarrow> c \<noteq> slash \<and> c \<noteq> CHR ''.''"
  by (auto simp: name_start_def is_digit_def slash_def)

lemma name_char_not_slash: "name_char c \<Longrightarrow> c \<noteq> slash"
  using name_start_plain by (auto simp: name_char_def slash_def)

lemma operational_plain: "operational s \<Longrightarrow> plain_element s"
  using name_start_plain name_char_not_slash
  by (cases s) (auto simp: operational_def plain_element_def list_all_iff)

lemma operational_bounds: "operational s \<Longrightarrow> 1 \<le> length s \<and> length s \<le> 63"
  by (cases s) (auto simp: operational_def)

lemma naming_validate_iff: "naming_validate kind v = Inr u \<longleftrightarrow> operational v"
  using operational_plain [of v] by (auto simp: naming_validate_def plain_element_def)

lemmas naming_iffs [simp] =
  naming_validate_iff [of "''world''", folded naming_World_def]
  naming_validate_iff [of "''service''", folded naming_Service_def]
  naming_validate_iff [of "''interface''", folded naming_Interface_def]

lemma mountpath_iff: "mountpath_Validate v \<longleftrightarrow> clean_abs v \<and> set v \<inter> set mount_meta = {}"
  by (auto simp: mountpath_Validate_def clean_abs_def ContainsAny_iff)

lemma Host_no_colon_or_ip:
  "naming_Host v = Inr () \<Longrightarrow> colon \<in> set v \<Longrightarrow> ParseIP_colon v"
  by (auto simp: naming_Host_def Contains_single split: if_splits)

lemma Join_rooted:
  assumes "IsAbs root" and "rel \<noteq> []"
  shows "Join root rel = Clean (root @ slash # rel)"
  using assms by (simp add: Join_def IsAbs_def)

lemma JoinUnder_inside:
  assumes "clean_abs root" and "JoinUnder root rel = Inr p"
  shows "clean_abs p \<and> (\<exists>es. es \<noteq> [] \<and> path_elements p = path_elements root @ es)"
proof -
  have abs: "IsAbs root" and "Clean root = root"
    using assms(1) by (simp_all add: clean_abs_def)
  have p: "p = Join root rel" and ok: "\<exists>r. Rel root p = Some r \<and> r \<noteq> ''.'' \<and> r \<noteq> ''..''
      \<and> \<not> HasPrefix r (''..'' @ [slash])"
    using assms(2) by (auto simp: JoinUnder_def Let_def split: option.splits if_splits)
  have "clean_abs p"
  proof (cases "rel = []")
    case True
    with p abs \<open>Clean root = root\<close> assms(1) show ?thesis
      by (simp add: Join_def IsAbs_def)
  next
    case False
    have "IsAbs (root @ slash # rel)"
      using abs by (auto simp: IsAbs_def)
    with p False abs show ?thesis
      by (simp add: Join_rooted clean_abs_Clean)
  qed
  with ok Rel_inside [OF assms(1)] show ?thesis by blast
qed

lemma JoinUnder_plain:
  assumes "clean_abs root" and "plain_element n"
  shows "JoinUnder root n = Inr (abs_path (path_elements root @ [n]))"
proof -
  let ?p = "abs_path (path_elements root @ [n])"
  have abs: "IsAbs root" and plain: "list_all plain_element (path_elements root @ [n])"
    using assms path_elements_plain by (simp_all add: clean_abs_def)
  have n: "n \<noteq> []" "slash \<notin> set n" "n \<noteq> ''.''" "n \<noteq> ''..''"
    using assms(2) by (simp_all add: plain_element_def)
  have "Join root n = ?p"
    using abs n clean_step_plain [OF assms(2)]
    by (simp add: Join_rooted Clean_append_rooted split_on_id)
  moreover have "path_elements ?p \<noteq> path_elements root"
    using path_elements_abs_path [OF plain] by simp
  then have "?p \<noteq> root" by metis
  then have "Rel root ?p = Some n"
    using abs plain Clean_abs_path [OF plain] assms(1)
    by (auto simp: Rel_def clean_abs_def)
  moreover have "\<not> IsAbs n" "\<not> HasPrefix n (''..'' @ [slash])"
    using n(2) by (cases n; auto simp: IsAbs_def HasPrefix_iff)+
  ultimately show ?thesis
    using n by (simp add: JoinUnder_def)
qed

section \<open>Properties\<close>

text \<open>C29: a path that \<^verbatim>\<open>JoinUnder\<close> returns is clean and lies strictly below the root it was given,
  whatever the relative part was.\<close>

theorem JoinUnder_contained:
  assumes "clean_abs root" and "JoinUnder root rel = Inr p"
  shows "clean_abs p \<and> strict_prefix (path_elements root) (path_elements p)"
  using JoinUnder_inside [OF assms] by (auto simp: strict_prefix_def)

theorem JoinUnder_contained_witness:
  "clean_abs ''/var/lib'' \<and> JoinUnder ''/var/lib'' ''../lib/./w1'' = Inr ''/var/lib/w1''
   \<and> strict_prefix (path_elements ''/var/lib'') (path_elements ''/var/lib/w1'')"
proof -
  have c: "clean_abs ''/var/lib''" and j: "JoinUnder ''/var/lib'' ''../lib/./w1'' = Inr ''/var/lib/w1''"
    by code_simp+
  show ?thesis using c j JoinUnder_contained [OF c j] by simp
qed

text \<open>a name that the world check accepts is 1 to 63 bytes long and names exactly one directory
  entry directly below any clean root: joining it cannot fail or reach another directory.\<close>

theorem world_directory:
  assumes "clean_abs root" and "naming_World n = Inr ()"
  shows "1 \<le> length n \<and> length n \<le> 63
    \<and> (\<exists>p. JoinUnder root n = Inr p \<and> path_elements p = path_elements root @ [n])"
proof -
  have "operational n" using assms(2) by simp
  then have "plain_element n" "1 \<le> length n \<and> length n \<le> 63"
    by (auto dest: operational_plain operational_bounds)
  then show ?thesis
    using JoinUnder_plain [OF assms(1)] path_elements_plain [of root] assms(1)
    by (simp add: path_elements_abs_path clean_abs_def)
qed

theorem world_directory_witness:
  "clean_abs ''/var/lib'' \<and> naming_World ''dev-1'' = Inr ()
   \<and> (\<exists>p. JoinUnder ''/var/lib'' ''dev-1'' = Inr p \<and> path_elements p = path_elements ''/var/lib'' @ [''dev-1''])"
proof -
  have c: "clean_abs ''/var/lib''" and n: "naming_World ''dev-1'' = Inr ()"
    by code_simp+
  show ?thesis using c n world_directory [OF c n] by simp
qed

end
