(* ===== verification/Decl.thy ===== *)
theory Decl
  imports Naming
begin

text \<open>
  The declaration of a world (\<^verbatim>\<open>internal/decl/types.go\<close>) and its validation
  (\<^verbatim>\<open>internal/decl/validate.go\<close>). The host file system is the parameter \<open>host\<close>, the polls of a
  context's cancellation are numbered in the order the code makes them and answered by \<open>ctx\<close>, and
  \<open>uni\<close> is the non-ASCII part of \<^verbatim>\<open>strings.ToLower\<close>. \<open>wf_declaration\<close> is the contract of the
  component; the last section proves that the loops decide it.
\<close>

section \<open>The declaration\<close>

record decl_world =
  dw_Hostname :: bytes
  dw_Base :: bytes
  dw_Workdir :: bytes
  dw_User :: bytes

record decl_resources =
  dr_CPUs :: int
  dr_MemoryBytes :: int
  dr_PIDs :: int

record decl_copy =
  dc_Source :: bytes
  dc_Target :: bytes
  dc_Mode :: bytes
  dc_Secret :: bool

record decl_mount =
  dm_Source :: bytes
  dm_Target :: bytes
  dm_Mode :: bytes

record decl_allow =
  da_Host :: bytes
  da_Port :: int

record decl_interface =
  di_Name :: bytes
  di_Address :: bytes

record decl_service =
  ds_Name :: bytes
  ds_Command :: "bytes list"
  ds_Autostart :: bool
  ds_Restart :: bytes

record Declaration =
  d_Version :: int
  d_Name :: bytes
  d_AllowUnpinned :: bool
  d_World :: decl_world
  d_Resources :: decl_resources
  d_Workspace :: "bytes list"
  d_Copies :: "decl_copy list"
  d_Mounts :: "decl_mount list"
  d_Allow :: "decl_allow list"
  d_Interfaces :: "decl_interface list"
  d_Services :: "decl_service list"

section \<open>The host file system\<close>

datatype node_kind = Regular | Directory | Symlink | OtherNode

record node_info =
  n_kind :: node_kind
  n_perm :: nat

text \<open>
  \<open>fs_lstat\<close> is \<^verbatim>\<open>os.Lstat\<close>, \<open>fs_eval\<close> is \<^verbatim>\<open>filepath.EvalSymlinks\<close>, \<open>fs_inspect\<close> gives the entries
  that \<^verbatim>\<open>sourcetree.Inspect\<close> visits below a source with its own error as \<^const>\<open>None\<close>, and \<open>fs_digest\<close> is
  \<^verbatim>\<open>sourcetree.Digest\<close>.
\<close>

record host_fs =
  fs_lstat :: "bytes \<Rightarrow> node_info option"
  fs_eval :: "bytes \<Rightarrow> bytes option"
  fs_inspect :: "bytes \<Rightarrow> (bytes \<times> node_info) list option"
  fs_digest :: "bytes \<Rightarrow> bytes option"

datatype decl_error =
    Canceled
  | VersionNotOne int
  | BadName naming_error
  | EmptyWorldField
  | BadImageReference
  | UnpinnedImage
  | NotAbsolute bytes
  | NotClean bytes
  | ResourceNotPositive
  | EmptyWorkspace
  | DuplicateWorkspacePath bytes
  | EmptySource nat
  | AnchorNotAbsolute
  | CannotResolve
  | SourceMissing bytes
  | SourceIsSymlink bytes
  | SourceNotRegular bytes
  | BadFileMode nat
  | ReservedTarget bytes
  | SecretUnreadable bytes
  | SecretSymlink bytes
  | SecretBadNode bytes
  | SecretPermissions bytes
  | BadMountMode nat
  | OverlappingMounts bytes bytes
  | TooManyDestinations
  | BadHost nat
  | BadPort nat
  | DuplicateAllowance bytes
  | DuplicateInterface bytes
  | BadInterfaceAddress nat
  | DuplicateService bytes
  | EmptyCommand nat
  | BadRestart nat
  | BadAnchor

type_synonym 'a decl_result = "decl_error + 'a"
definition ctx_Err :: "poll \<Rightarrow> nat \<Rightarrow> unit decl_result" where
  "ctx_Err ctx k = (if ctx k then Inl Canceled else Inr ())"

section \<open>Image references, file modes and paths\<close>

definition is_alnum :: "char \<Rightarrow> bool" where
  "is_alnum c = (is_digit c \<or> (65 \<le> byte c \<and> byte c \<le> 90) \<or> (97 \<le> byte c \<and> byte c \<le> 122))"

definition sha_prefix :: bytes where
  "sha_prefix = ''sha256:''"

definition hex64 :: "bytes \<Rightarrow> bool" where
  "hex64 s = (length s = 64 \<and> list_all is_hex s)"

definition image_name :: "bytes \<Rightarrow> bytes \<Rightarrow> bool" where
  "image_name extra s = (case s of [] \<Rightarrow> False | c # t \<Rightarrow> is_alnum c \<and> list_all (\<lambda>x. is_alnum x \<or> x \<in> set extra) t)"

text \<open>\<^verbatim>\<open>^(?:sha256:[0-9a-fA-F]{64}|[A-Za-z0-9][A-Za-z0-9._/:+-]*@sha256:[0-9a-fA-F]{64})$\<close>\<close>

definition ImagePinned :: "bytes \<Rightarrow> bool" where
  "ImagePinned s =
     ((HasPrefix s sha_prefix \<and> hex64 (drop 7 s))
      \<or> (length s > 72
         \<and> image_name ''._/:+-'' (take (length s - 72) s)
         \<and> take 8 (drop (length s - 72) s) = ''@'' @ sha_prefix
         \<and> hex64 (drop (length s - 64) s)))"

definition validImage :: "bytes \<Rightarrow> bool" where
  "validImage s = ((HasPrefix s sha_prefix \<and> hex64 (drop 7 s)) \<or> image_name ''._/:+@-'' s)"

definition ImageReferenceValid :: "bytes \<Rightarrow> bool" where
  "ImageReferenceValid s = (length s \<le> 4096 \<and> validImage s)"

definition absoluteClean :: "bytes \<Rightarrow> unit decl_result" where
  "absoluteClean p =
     (if \<not> IsAbs p then Inl (NotAbsolute p) else if Clean p \<noteq> p then Inl (NotClean p) else Inr ())"

definition is_octal :: "char \<Rightarrow> bool" where
  "is_octal c = (48 \<le> byte c \<and> byte c \<le> 55)"

definition fileMode :: "bytes \<Rightarrow> bool" where
  "fileMode m = (length m = 4 \<and> hd m = CHR ''0'' \<and> list_all is_octal m)"

definition pathsOverlap :: "bytes \<Rightarrow> bytes \<Rightarrow> bool" where
  "pathsOverlap a b =
     (let a' = Clean a; b' = Clean b
      in a' = b' \<or> HasPrefix a' (b' @ [slash]) \<or> HasPrefix b' (a' @ [slash]))"

definition reserved_document :: bytes where "reserved_document = ''/KENOGRAM.md''"
definition reserved_directory :: bytes where "reserved_directory = ''/etc/kenogram''"

definition reservedOverlap :: "bytes \<Rightarrow> bool" where
  "reservedOverlap target = (pathsOverlap target reserved_document \<or> pathsOverlap target reserved_directory)"

section \<open>Sources\<close>

text \<open>Outside Darwin the platform has no path aliases.\<close>

definition canonicalPlatformPath :: "bytes \<Rightarrow> bytes" where
  "canonicalPlatformPath p = p"

definition CanonicalSourceAnchor :: "host_fs \<Rightarrow> bytes \<Rightarrow> bytes decl_result" where
  "CanonicalSourceAnchor host dir =
     (let clean = Clean dir in
      if \<not> IsAbs clean then Inl AnchorNotAbsolute
      else case fs_eval host clean of
             None \<Rightarrow> Inl CannotResolve
           | Some resolved \<Rightarrow> Inr (Clean resolved))"

definition ResolveSource :: "host_fs \<Rightarrow> bytes \<Rightarrow> bytes \<Rightarrow> bytes decl_result" where
  "ResolveSource host dir source =
     (if IsAbs source then Inr (canonicalPlatformPath (Clean source))
      else bind_result (CanonicalSourceAnchor host dir)
             (\<lambda>canonicalDir. Inr (Clean (Join canonicalDir source))))"

definition ResolveEvidenceSource :: "bytes \<Rightarrow> bytes \<Rightarrow> bytes decl_result" where
  "ResolveEvidenceSource anchor source =
     (if \<not> IsAbs anchor \<or> Clean anchor \<noteq> anchor then Inl BadAnchor
      else if IsAbs source then Inr (canonicalPlatformPath (Clean source))
      else Inr (Clean (Join anchor source)))"

definition sourceExists :: "host_fs \<Rightarrow> bytes \<Rightarrow> bytes \<Rightarrow> unit decl_result" where
  "sourceExists host dir source =
     (if source = [] then Inl (SourceMissing source)
      else bind_result (ResolveSource host dir source) (\<lambda>resolved.
        case fs_lstat host resolved of
          None \<Rightarrow> Inl (SourceMissing source)
        | Some info \<Rightarrow>
            if n_kind info = Symlink then Inl (SourceIsSymlink source)
            else if n_kind info \<noteq> Directory \<and> n_kind info \<noteq> Regular then Inl (SourceNotRegular source)
            else case fs_eval host resolved of
                   None \<Rightarrow> Inl (SourceMissing source)
                 | Some evaluated \<Rightarrow>
                     if evaluated \<noteq> canonicalPlatformPath (Clean resolved) then Inl (SourceIsSymlink source)
                     else Inr ()))"

definition validateSecretEntry :: "bytes \<times> node_info \<Rightarrow> unit decl_result" where
  "validateSecretEntry e =
     (case e of (path, info) \<Rightarrow>
        if n_kind info = Symlink then Inl (SecretSymlink path)
        else if n_kind info \<noteq> Directory \<and> n_kind info \<noteq> Regular then Inl (SecretBadNode path)
        else if n_perm info mod 64 \<noteq> 0 then Inl (SecretPermissions path)
        else Inr ())"

definition validateSecretSource :: "host_fs \<Rightarrow> bytes \<Rightarrow> unit decl_result" where
  "validateSecretSource host root =
     (case fs_inspect host root of
        None \<Rightarrow> Inl (SecretUnreadable root)
      | Some entries \<Rightarrow> for_each validateSecretEntry entries)"

section \<open>The loops of validate\<close>

fun validate_workspace :: "poll \<Rightarrow> nat \<Rightarrow> bytes list \<Rightarrow> bytes list \<Rightarrow> unit decl_result" where
  "validate_workspace ctx k seen [] = Inr ()"
| "validate_workspace ctx k seen (path # paths) =
     bind_result (ctx_Err ctx k) (\<lambda>_.
     bind_result (absoluteClean path) (\<lambda>_.
     bind_result (require (path \<notin> set seen) (DuplicateWorkspacePath path)) (\<lambda>_.
     validate_workspace ctx (Suc k) (path # seen) paths)))"

definition validate_copy :: "host_fs \<Rightarrow> bytes \<Rightarrow> bool \<Rightarrow> nat \<Rightarrow> decl_copy \<Rightarrow> unit decl_result" where
  "validate_copy host dir inspectSources i c =
     bind_result (require (dc_Source c \<noteq> []) (EmptySource i)) (\<lambda>_.
     bind_result (if inspectSources then sourceExists host dir (dc_Source c) else Inr ()) (\<lambda>_.
     bind_result (absoluteClean (dc_Target c)) (\<lambda>_.
     bind_result (require (fileMode (dc_Mode c)) (BadFileMode i)) (\<lambda>_.
     bind_result (require (\<not> reservedOverlap (dc_Target c)) (ReservedTarget (dc_Target c))) (\<lambda>_.
     if dc_Secret c \<and> inspectSources then
       bind_result (ResolveSource host dir (dc_Source c)) (validateSecretSource host)
     else Inr ())))))"

fun validate_copies :: "poll \<Rightarrow> nat \<Rightarrow> host_fs \<Rightarrow> bytes \<Rightarrow> bool \<Rightarrow> nat \<Rightarrow> decl_copy list \<Rightarrow> unit decl_result" where
  "validate_copies ctx k host dir ins i [] = Inr ()"
| "validate_copies ctx k host dir ins i (c # cs) =
     bind_result (ctx_Err ctx k) (\<lambda>_.
     bind_result (validate_copy host dir ins i c) (\<lambda>_.
     validate_copies ctx (Suc k) host dir ins (Suc i) cs))"

definition validate_mount :: "host_fs \<Rightarrow> bytes \<Rightarrow> bool \<Rightarrow> nat \<Rightarrow> decl_mount list \<Rightarrow> decl_mount \<Rightarrow> unit decl_result" where
  "validate_mount host dir inspectSources i earlier m =
     bind_result (require (dm_Source m \<noteq> []) (EmptySource i)) (\<lambda>_.
     bind_result (if inspectSources then sourceExists host dir (dm_Source m) else Inr ()) (\<lambda>_.
     bind_result (absoluteClean (dm_Target m)) (\<lambda>_.
     bind_result (require (dm_Mode m = ''ro'' \<or> dm_Mode m = ''rw'') (BadMountMode i)) (\<lambda>_.
     bind_result (require (\<not> reservedOverlap (dm_Target m)) (ReservedTarget (dm_Target m))) (\<lambda>_.
     for_each (\<lambda>e. require (\<not> pathsOverlap (dm_Target m) (dm_Target e))
                     (OverlappingMounts (dm_Target e) (dm_Target m))) earlier)))))"

fun validate_mounts :: "poll \<Rightarrow> nat \<Rightarrow> host_fs \<Rightarrow> bytes \<Rightarrow> bool \<Rightarrow> nat \<Rightarrow> decl_mount list \<Rightarrow> decl_mount list
    \<Rightarrow> unit decl_result" where
  "validate_mounts ctx k host dir ins i earlier [] = Inr ()"
| "validate_mounts ctx k host dir ins i earlier (m # ms) =
     bind_result (ctx_Err ctx k) (\<lambda>_.
     bind_result (validate_mount host dir ins i earlier m) (\<lambda>_.
     validate_mounts ctx (Suc k) host dir ins (Suc i) (earlier @ [m]) ms))"

text \<open>The key under which a destination is compared, shared with the proxy.\<close>

definition destination_key :: "(bytes \<Rightarrow> bytes) \<Rightarrow> bytes \<Rightarrow> int \<Rightarrow> bytes" where
  "destination_key uni host port = ToLower uni (TrimSuffix host ''.'') @ [colon] @ Itoa port"

fun validate_network :: "poll \<Rightarrow> nat \<Rightarrow> (bytes \<Rightarrow> bytes) \<Rightarrow> nat \<Rightarrow> bytes list \<Rightarrow> decl_allow list \<Rightarrow> unit decl_result" where
  "validate_network ctx k uni i seen [] = Inr ()"
| "validate_network ctx k uni i seen (a # as) =
     bind_result (ctx_Err ctx k) (\<lambda>_.
     bind_result (require (naming_Host (da_Host a) = Inr ()) (BadHost i)) (\<lambda>_.
     bind_result (require (1 \<le> da_Port a \<and> da_Port a \<le> 65535) (BadPort i)) (\<lambda>_.
     let key = destination_key uni (da_Host a) (da_Port a) in
     bind_result (require (key \<notin> set seen) (DuplicateAllowance key)) (\<lambda>_.
     validate_network ctx (Suc k) uni (Suc i) (key # seen) as))))"

fun validate_interfaces :: "poll \<Rightarrow> nat \<Rightarrow> nat \<Rightarrow> bytes list \<Rightarrow> decl_interface list \<Rightarrow> unit decl_result" where
  "validate_interfaces ctx k i seen [] = Inr ()"
| "validate_interfaces ctx k i seen (e # es) =
     bind_result (ctx_Err ctx k) (\<lambda>_.
     bind_result (case naming_Interface (di_Name e) of Inl x \<Rightarrow> Inl (BadName x) | Inr _ \<Rightarrow> Inr ()) (\<lambda>_.
     bind_result (require (di_Name e \<notin> set seen) (DuplicateInterface (di_Name e))) (\<lambda>_.
     bind_result (require (canonical_loopback (di_Address e)) (BadInterfaceAddress i)) (\<lambda>_.
     validate_interfaces ctx (Suc k) (Suc i) (di_Name e # seen) es))))"

definition restart_policies :: "bytes list" where
  "restart_policies = [''never'', ''on-failure'', ''always'']"

fun validate_services :: "poll \<Rightarrow> nat \<Rightarrow> nat \<Rightarrow> bytes list \<Rightarrow> decl_service list \<Rightarrow> unit decl_result" where
  "validate_services ctx k i seen [] = Inr ()"
| "validate_services ctx k i seen (s # ss) =
     bind_result (ctx_Err ctx k) (\<lambda>_.
     bind_result (case naming_Service (ds_Name s) of Inl x \<Rightarrow> Inl (BadName x) | Inr _ \<Rightarrow> Inr ()) (\<lambda>_.
     bind_result (require (ds_Name s \<notin> set seen) (DuplicateService (ds_Name s))) (\<lambda>_.
     bind_result (require (ds_Command s \<noteq> [] \<and> hd (ds_Command s) \<noteq> []) (EmptyCommand i)) (\<lambda>_.
     bind_result (require (ds_Restart s \<in> set restart_policies) (BadRestart i)) (\<lambda>_.
     validate_services ctx (Suc k) (Suc i) (ds_Name s # seen) ss)))))"

section \<open>validate\<close>

definition validate :: "host_fs \<Rightarrow> (bytes \<Rightarrow> bytes) \<Rightarrow> poll \<Rightarrow> Declaration \<Rightarrow> bytes \<Rightarrow> bool \<Rightarrow> unit decl_result" where
  "validate host uni ctx d dir inspectSources =
     (let w = d_World d; r = d_Resources d;
          kw = 1; kc = kw + length (d_Workspace d); km = kc + length (d_Copies d);
          kn = km + length (d_Mounts d); ki = kn + length (d_Allow d); ks = ki + length (d_Interfaces d)
      in
      bind_result (ctx_Err ctx 0) (\<lambda>_.
      bind_result (require (d_Version d = 1) (VersionNotOne (d_Version d))) (\<lambda>_.
      bind_result (case naming_World (d_Name d) of Inl x \<Rightarrow> Inl (BadName x) | Inr _ \<Rightarrow> Inr ()) (\<lambda>_.
      bind_result (require (\<not> (dw_Hostname w = [] \<or> dw_Base w = [] \<or> dw_User w = [])) EmptyWorldField) (\<lambda>_.
      bind_result (require (ImageReferenceValid (dw_Base w)) BadImageReference) (\<lambda>_.
      bind_result (require (\<not> (\<not> ImagePinned (dw_Base w) \<and> \<not> d_AllowUnpinned d)) UnpinnedImage) (\<lambda>_.
      bind_result (absoluteClean (dw_Workdir w)) (\<lambda>_.
      bind_result (require (\<not> (dr_CPUs r \<le> 0 \<or> dr_MemoryBytes r \<le> 0 \<or> dr_PIDs r \<le> 0)) ResourceNotPositive) (\<lambda>_.
      bind_result (require (d_Workspace d \<noteq> []) EmptyWorkspace) (\<lambda>_.
      bind_result (validate_workspace ctx kw [] (d_Workspace d)) (\<lambda>_.
      bind_result (validate_copies ctx kc host dir inspectSources 0 (d_Copies d)) (\<lambda>_.
      bind_result (validate_mounts ctx km host dir inspectSources 0 [] (d_Mounts d)) (\<lambda>_.
      bind_result (require (length (d_Allow d) \<le> 256) TooManyDestinations) (\<lambda>_.
      bind_result (validate_network ctx kn uni 0 [] (d_Allow d)) (\<lambda>_.
      bind_result (validate_interfaces ctx ki 0 [] (d_Interfaces d)) (\<lambda>_.
      validate_services ctx ks 0 [] (d_Services d)))))))))))))))))"

definition ValidateContext :: "host_fs \<Rightarrow> (bytes \<Rightarrow> bytes) \<Rightarrow> poll \<Rightarrow> Declaration \<Rightarrow> bytes \<Rightarrow> unit decl_result" where
  "ValidateContext host uni ctx d dir = validate host uni ctx d dir True"

definition Validate :: "host_fs \<Rightarrow> (bytes \<Rightarrow> bytes) \<Rightarrow> Declaration \<Rightarrow> bytes \<Rightarrow> unit decl_result" where
  "Validate host uni d dir = ValidateContext host uni background d dir"

definition ValidateEvidence :: "host_fs \<Rightarrow> (bytes \<Rightarrow> bytes) \<Rightarrow> Declaration \<Rightarrow> bytes \<Rightarrow> unit decl_result" where
  "ValidateEvidence host uni d dir = validate host uni background d dir False"

section \<open>Overlap of clean paths\<close>

text \<open>
  \<open>covers p q\<close>: the node \<open>p\<close> is \<open>q\<close> or one of the directories above it. The textual test of the code
  decides that two clean paths are related in this way, except that it does not see the root directory
  as a directory above the others.
\<close>

definition covers :: "bytes \<Rightarrow> bytes \<Rightarrow> bool" where
  "covers p q = prefix (path_elements p) (path_elements q)"

definition root_path :: bytes where
  "root_path = [slash]"

definition paths_conflict :: "bytes \<Rightarrow> bytes \<Rightarrow> bool" where
  "paths_conflict a b = (a = b \<or> (a \<noteq> root_path \<and> covers a b) \<or> (b \<noteq> root_path \<and> covers b a))"

lemma root_path_abs: "root_path = abs_path []"
  by (simp add: root_path_def abs_path_def)

lemma abs_path_root_iff: "list_all plain_element es \<Longrightarrow> abs_path es = root_path \<longleftrightarrow> es = []"
  using abs_path_inj [of es "[]"] by (auto simp: root_path_abs)

lemma no_double_slash: "list_all plain_element es \<Longrightarrow> \<not> HasPrefix (abs_path es) (root_path @ [slash])"
  by (cases es) (auto simp: abs_path_def root_path_def plain_element_def join_with_Cons HasPrefix_iff
      Cons_eq_append_conv append_eq_Cons_conv split: if_splits)

lemma HasPrefix_dir:
  assumes "list_all plain_element as" and "list_all plain_element bs"
  shows "HasPrefix (abs_path as) (abs_path bs @ [slash]) \<longleftrightarrow> bs \<noteq> [] \<and> strict_prefix bs as"
proof (cases "bs = []")
  case True
  then show ?thesis
    using no_double_slash [OF assms(1)] by (simp add: root_path_abs)
next
  case False
  then show ?thesis
    using abs_path_prefix_iff [OF assms False] by (auto simp: strict_prefix_def prefix_def)
qed

lemma pathsOverlap_conflict:
  assumes "clean_abs a" and "clean_abs b"
  shows "pathsOverlap a b \<longleftrightarrow> paths_conflict a b"
proof -
  obtain as bs where a: "a = abs_path as" "list_all plain_element as"
    and b: "b = abs_path bs" "list_all plain_element bs"
    using assms by (auto simp: clean_abs_iff)
  have "a = b \<longleftrightarrow> as = bs"
    using a b abs_path_inj by auto
  then show ?thesis
    using a b HasPrefix_dir [OF a(2) b(2)] HasPrefix_dir [OF b(2) a(2)]
    by (auto simp: pathsOverlap_def paths_conflict_def covers_def Clean_abs_path abs_path_root_iff
        strict_prefix_def)
qed

lemma plain_reserved:
  "list_all plain_element [''KENOGRAM.md'']" "list_all plain_element [''etc'', ''kenogram'']"
  by (simp_all add: plain_element_def slash_def)

lemma reserved_abs:
  "reserved_document = abs_path [''KENOGRAM.md'']" "reserved_directory = abs_path [''etc'', ''kenogram'']"
  by (simp_all add: reserved_document_def reserved_directory_def abs_path_def slash_def)

lemma clean_reserved: "clean_abs reserved_document" "clean_abs reserved_directory"
  using plain_reserved by (auto simp: clean_abs_iff reserved_abs)

lemma absoluteClean_iff [simp]: "absoluteClean p = Inr u \<longleftrightarrow> clean_abs p"
  by (auto simp: absoluteClean_def clean_abs_def)

section \<open>The contract\<close>

definition reserved_conflict :: "bytes \<Rightarrow> bool" where
  "reserved_conflict t = (paths_conflict t reserved_document \<or> paths_conflict t reserved_directory)"

definition wf_copy :: "decl_copy \<Rightarrow> bool" where
  "wf_copy c = (dc_Source c \<noteq> [] \<and> clean_abs (dc_Target c) \<and> fileMode (dc_Mode c)
     \<and> \<not> reserved_conflict (dc_Target c))"

definition wf_mount :: "decl_mount \<Rightarrow> bool" where
  "wf_mount m = (dm_Source m \<noteq> [] \<and> clean_abs (dm_Target m) \<and> dm_Mode m \<in> {''ro'', ''rw''}
     \<and> \<not> reserved_conflict (dm_Target m))"

definition wf_allow :: "decl_allow \<Rightarrow> bool" where
  "wf_allow a = (naming_Host (da_Host a) = Inr () \<and> 1 \<le> da_Port a \<and> da_Port a \<le> 65535)"

definition wf_interface :: "decl_interface \<Rightarrow> bool" where
  "wf_interface e = (operational (di_Name e)
     \<and> (\<exists>port. 1 \<le> port \<and> port \<le> 65535 \<and> di_Address e = loopback_host @ [colon] @ Itoa port))"

definition wf_service :: "decl_service \<Rightarrow> bool" where
  "wf_service s = (operational (ds_Name s) \<and> ds_Command s \<noteq> [] \<and> hd (ds_Command s) \<noteq> []
     \<and> ds_Restart s \<in> set restart_policies)"

definition allow_key :: "(bytes \<Rightarrow> bytes) \<Rightarrow> decl_allow \<Rightarrow> bytes" where
  "allow_key uni a = destination_key uni (da_Host a) (da_Port a)"

definition wf_declaration :: "(bytes \<Rightarrow> bytes) \<Rightarrow> Declaration \<Rightarrow> bool" where
  "wf_declaration uni d =
     (d_Version d = 1 \<and> operational (d_Name d)
      \<and> dw_Hostname (d_World d) \<noteq> [] \<and> dw_Base (d_World d) \<noteq> [] \<and> dw_User (d_World d) \<noteq> []
      \<and> ImageReferenceValid (dw_Base (d_World d))
      \<and> (ImagePinned (dw_Base (d_World d)) \<or> d_AllowUnpinned d)
      \<and> clean_abs (dw_Workdir (d_World d))
      \<and> 0 < dr_CPUs (d_Resources d) \<and> 0 < dr_MemoryBytes (d_Resources d) \<and> 0 < dr_PIDs (d_Resources d)
      \<and> d_Workspace d \<noteq> [] \<and> list_all clean_abs (d_Workspace d) \<and> distinct (d_Workspace d)
      \<and> list_all wf_copy (d_Copies d)
      \<and> list_all wf_mount (d_Mounts d)
      \<and> sorted_wrt (\<lambda>m n. \<not> paths_conflict (dm_Target m) (dm_Target n)) (d_Mounts d)
      \<and> length (d_Allow d) \<le> 256 \<and> list_all wf_allow (d_Allow d) \<and> distinct (map (allow_key uni) (d_Allow d))
      \<and> list_all wf_interface (d_Interfaces d) \<and> distinct (map di_Name (d_Interfaces d))
      \<and> list_all wf_service (d_Services d) \<and> distinct (map ds_Name (d_Services d)))"

section \<open>The loops decide the contract\<close>

lemma ctx_background [simp]: "ctx_Err background k = Inr ()"
  by (simp add: ctx_Err_def background_def)

lemma paths_conflict_sym: "paths_conflict a b = paths_conflict b a"
  by (auto simp: paths_conflict_def)

lemma reservedOverlap_iff: "clean_abs t \<Longrightarrow> reservedOverlap t \<longleftrightarrow> reserved_conflict t"
  by (simp add: reservedOverlap_def reserved_conflict_def pathsOverlap_conflict clean_reserved)

lemma validate_workspace_iff:
  "validate_workspace background k seen ps = Inr u \<longleftrightarrow>
     list_all clean_abs ps \<and> distinct ps \<and> set seen \<inter> set ps = {}"
  by (induction ps arbitrary: k seen) (auto simp: result_simps)

lemma validate_copy_iff: "validate_copy host dir False i c = Inr u \<longleftrightarrow> wf_copy c"
  by (auto simp: validate_copy_def wf_copy_def result_simps reservedOverlap_iff)

lemma validate_copies_iff: "validate_copies background k host dir False i cs = Inr u \<longleftrightarrow> list_all wf_copy cs"
  by (induction cs arbitrary: k i) (auto simp: result_simps validate_copy_iff)

lemma validate_mount_iff:
  assumes "list_all wf_mount earlier"
  shows "validate_mount host dir False i earlier m = Inr u \<longleftrightarrow>
    wf_mount m \<and> (\<forall>e\<in>set earlier. \<not> paths_conflict (dm_Target e) (dm_Target m))"
proof (cases "clean_abs (dm_Target m)")
  case True
  have "pathsOverlap (dm_Target m) (dm_Target e) \<longleftrightarrow> paths_conflict (dm_Target e) (dm_Target m)"
    if "e \<in> set earlier" for e
    using that assms True pathsOverlap_conflict paths_conflict_sym
    by (auto simp: list_all_iff wf_mount_def)
  then show ?thesis
    using True by (auto simp: validate_mount_def wf_mount_def result_simps reservedOverlap_iff)
next
  case False
  then show ?thesis
    by (simp add: validate_mount_def wf_mount_def result_simps)
qed

lemma validate_mounts_iff:
  assumes "list_all wf_mount earlier"
  shows "validate_mounts background k host dir False i earlier ms = Inr u \<longleftrightarrow>
    list_all wf_mount ms
    \<and> sorted_wrt (\<lambda>m n. \<not> paths_conflict (dm_Target m) (dm_Target n)) ms
    \<and> (\<forall>e\<in>set earlier. \<forall>m\<in>set ms. \<not> paths_conflict (dm_Target e) (dm_Target m))"
  using assms
proof (induction ms arbitrary: k i earlier)
  case Nil
  then show ?case by simp
next
  case (Cons m ms)
  show ?case
  proof (cases "wf_mount m")
    case True
    then have "list_all wf_mount (earlier @ [m])"
      using Cons.prems by simp
    with Cons.IH [OF this] True show ?thesis
      by (auto simp: result_simps validate_mount_iff [OF Cons.prems])
  next
    case False
    then show ?thesis
      by (simp add: result_simps validate_mount_iff [OF Cons.prems])
  qed
qed

lemma validate_network_iff:
  "validate_network background k uni i seen as = Inr u \<longleftrightarrow>
     list_all wf_allow as \<and> distinct (map (allow_key uni) as) \<and> set seen \<inter> set (map (allow_key uni) as) = {}"
  by (induction as arbitrary: k i seen)
    (auto simp: result_simps wf_allow_def allow_key_def Let_def)

lemma name_case_iff:
  "(case naming_validate kind n of Inl x \<Rightarrow> Inl (BadName x) | Inr _ \<Rightarrow> Inr ()) = Inr u \<longleftrightarrow> operational n"
  using naming_validate_iff [of kind n "()"] by (auto split: sum.splits)

lemmas name_case_iffs =
  name_case_iff [of "''world''", folded naming_World_def]
  name_case_iff [of "''service''", folded naming_Service_def]
  name_case_iff [of "''interface''", folded naming_Interface_def]

lemma validate_interfaces_iff:
  "validate_interfaces background k i seen es = Inr u \<longleftrightarrow>
     list_all wf_interface es \<and> distinct (map di_Name es) \<and> set seen \<inter> set (map di_Name es) = {}"
  by (induction es arbitrary: k i seen)
    (auto simp: result_simps wf_interface_def name_case_iffs canonical_loopback_iff)

lemma validate_services_iff:
  "validate_services background k i seen ss = Inr u \<longleftrightarrow>
     list_all wf_service ss \<and> distinct (map ds_Name ss) \<and> set seen \<inter> set (map ds_Name ss) = {}"
  by (induction ss arbitrary: k i seen) (auto simp: result_simps wf_service_def name_case_iffs)

lemmas validate_loop_iffs =
  validate_workspace_iff validate_copies_iff validate_network_iff validate_interfaces_iff
  validate_services_iff validate_mounts_iff [of "[]", simplified]

lemma validate_evidence_iff:
  "validate host uni background d dir False = Inr u \<longleftrightarrow> wf_declaration uni d"
  unfolding validate_def wf_declaration_def Let_def
  by (simp add: result_simps validate_loop_iffs name_case_iffs not_le)

section \<open>Validation with sources\<close>

text \<open>
  What inspection of the host adds to the contract: every source resolves to an existing regular file
  or directory that is not reached through a symbolic link, and no entry below a secret source grants
  group or other access.
\<close>

definition source_ok :: "host_fs \<Rightarrow> bytes \<Rightarrow> bytes \<Rightarrow> bool" where
  "source_ok host dir source =
     (\<exists>resolved info. ResolveSource host dir source = Inr resolved \<and> fs_lstat host resolved = Some info
        \<and> n_kind info \<in> {Regular, Directory} \<and> fs_eval host resolved = Some (Clean resolved))"

definition secret_ok :: "host_fs \<Rightarrow> bytes \<Rightarrow> bytes \<Rightarrow> bool" where
  "secret_ok host dir source =
     (\<exists>resolved entries. ResolveSource host dir source = Inr resolved \<and> fs_inspect host resolved = Some entries
        \<and> list_all (\<lambda>(p, info). n_kind info \<in> {Regular, Directory} \<and> n_perm info mod 64 = 0) entries)"

definition wf_sources :: "host_fs \<Rightarrow> bytes \<Rightarrow> Declaration \<Rightarrow> bool" where
  "wf_sources host dir d =
     (list_all (\<lambda>c. source_ok host dir (dc_Source c)
          \<and> (dc_Secret c \<longrightarrow> secret_ok host dir (dc_Source c))) (d_Copies d)
      \<and> list_all (\<lambda>m. source_ok host dir (dm_Source m)) (d_Mounts d))"

lemma sourceExists_iff: "sourceExists host dir s = Inr u \<longleftrightarrow> s \<noteq> [] \<and> source_ok host dir s"
proof (cases "ResolveSource host dir s")
  case (Inr resolved)
  show ?thesis
  proof (cases "fs_lstat host resolved")
    case (Some info)
    with Inr show ?thesis
      by (cases "n_kind info"; cases "fs_eval host resolved")
        (auto simp: sourceExists_def source_ok_def canonicalPlatformPath_def)
  qed (simp add: sourceExists_def source_ok_def Inr)
qed (simp add: sourceExists_def source_ok_def)

lemma validateSecretEntry_iff:
  "validateSecretEntry e = Inr u \<longleftrightarrow>
     (case e of (p, info) \<Rightarrow> n_kind info \<in> {Regular, Directory} \<and> n_perm info mod 64 = 0)"
  by (cases "n_kind (snd e)") (auto simp: validateSecretEntry_def split: prod.splits)

lemma secret_bind_iff:
  "bind_result (ResolveSource host dir s) (validateSecretSource host) = Inr u \<longleftrightarrow> secret_ok host dir s"
proof (cases "ResolveSource host dir s")
  case (Inr resolved)
  then show ?thesis
    by (cases "fs_inspect host resolved")
      (simp_all add: secret_ok_def validateSecretSource_def result_simps validateSecretEntry_iff list_all_iff)
qed (simp add: secret_ok_def)

lemma validate_copy_sources:
  "validate_copy host dir True i c = Inr u \<longleftrightarrow>
     wf_copy c \<and> source_ok host dir (dc_Source c) \<and> (dc_Secret c \<longrightarrow> secret_ok host dir (dc_Source c))"
  using secret_bind_iff [of host dir "dc_Source c" "()"]
  by (auto simp: validate_copy_def wf_copy_def result_simps reservedOverlap_iff sourceExists_iff split: if_splits)

lemma validate_copies_sources:
  "validate_copies background k host dir True i cs = Inr u \<longleftrightarrow>
     list_all wf_copy cs \<and> list_all (\<lambda>c. source_ok host dir (dc_Source c)
       \<and> (dc_Secret c \<longrightarrow> secret_ok host dir (dc_Source c))) cs"
  by (induction cs arbitrary: k i) (auto simp: result_simps validate_copy_sources)

lemma validate_mount_sources:
  "validate_mount host dir True i earlier m = Inr u \<longleftrightarrow>
     validate_mount host dir False i earlier m = Inr u \<and> source_ok host dir (dm_Source m)"
  by (auto simp: validate_mount_def result_simps sourceExists_iff)

lemma validate_mounts_sources:
  "validate_mounts background k host dir True i earlier ms = Inr u \<longleftrightarrow>
     validate_mounts background k host dir False i earlier ms = Inr u
     \<and> list_all (\<lambda>m. source_ok host dir (dm_Source m)) ms"
  by (induction ms arbitrary: k i earlier) (auto simp: result_simps validate_mount_sources)

lemma validate_sources_iff:
  "validate host uni background d dir True = Inr u \<longleftrightarrow> wf_declaration uni d \<and> wf_sources host dir d"
  unfolding validate_evidence_iff [symmetric, of _ _ host dir u]
  unfolding validate_def Let_def wf_sources_def
  by (auto simp: result_simps validate_copies_sources validate_copies_iff validate_mounts_sources)

section \<open>Cancellation\<close>

text \<open>
  Every iteration polls the context once. A run that was never observed cancelled gives the answer of
  the background context, and a run that saw the cancellation at any of its polls is not accepted.
\<close>

lemma ctx_Err_Inr [simp]: "ctx_Err ctx k = Inr u \<longleftrightarrow> \<not> ctx k"
  by (simp add: ctx_Err_def)

lemma validate_workspace_ctx:
  "validate_workspace ctx k seen ps = Inr u \<longleftrightarrow>
     calm ctx k (length ps) \<and> validate_workspace background k seen ps = Inr u"
  by (induction ps arbitrary: k seen) (auto simp: result_simps)

lemma validate_copies_ctx:
  "validate_copies ctx k host dir ins i cs = Inr u \<longleftrightarrow>
     calm ctx k (length cs) \<and> validate_copies background k host dir ins i cs = Inr u"
  by (induction cs arbitrary: k i) (auto simp: result_simps)

lemma validate_mounts_ctx:
  "validate_mounts ctx k host dir ins i earlier ms = Inr u \<longleftrightarrow>
     calm ctx k (length ms) \<and> validate_mounts background k host dir ins i earlier ms = Inr u"
  by (induction ms arbitrary: k i earlier) (auto simp: result_simps)

lemma validate_network_ctx:
  "validate_network ctx k uni i seen as = Inr u \<longleftrightarrow>
     calm ctx k (length as) \<and> validate_network background k uni i seen as = Inr u"
  by (induction as arbitrary: k i seen) (auto simp: result_simps Let_def)

lemma validate_interfaces_ctx:
  "validate_interfaces ctx k i seen es = Inr u \<longleftrightarrow>
     calm ctx k (length es) \<and> validate_interfaces background k i seen es = Inr u"
  by (induction es arbitrary: k i seen) (auto simp: result_simps)

lemma validate_services_ctx:
  "validate_services ctx k i seen ss = Inr u \<longleftrightarrow>
     calm ctx k (length ss) \<and> validate_services background k i seen ss = Inr u"
  by (induction ss arbitrary: k i seen) (auto simp: result_simps)

lemmas validate_loops_ctx =
  validate_workspace_ctx validate_copies_ctx validate_mounts_ctx validate_network_ctx
  validate_interfaces_ctx validate_services_ctx

definition polls :: "Declaration \<Rightarrow> nat" where
  "polls d = 1 + length (d_Workspace d) + length (d_Copies d) + length (d_Mounts d) + length (d_Allow d)
     + length (d_Interfaces d) + length (d_Services d)"

lemma validate_ctx:
  "validate host uni ctx d dir ins = Inr u \<longleftrightarrow>
     calm ctx 0 (polls d) \<and> validate host uni background d dir ins = Inr u"
proof -
  let ?w = "length (d_Workspace d)" and ?c = "length (d_Copies d)" and ?m = "length (d_Mounts d)"
  let ?n = "length (d_Allow d)" and ?i = "length (d_Interfaces d)" and ?s = "length (d_Services d)"
  have "calm ctx 0 (polls d) \<longleftrightarrow> \<not> ctx 0 \<and> calm ctx 1 ?w \<and> calm ctx (1 + ?w) ?c
      \<and> calm ctx (1 + ?w + ?c) ?m \<and> calm ctx (1 + ?w + ?c + ?m) ?n \<and> calm ctx (1 + ?w + ?c + ?m + ?n) ?i
      \<and> calm ctx (1 + ?w + ?c + ?m + ?n + ?i) ?s"
    by (simp add: polls_def calm_add)
  then show ?thesis
    unfolding validate_def Let_def
    by (subst (1) result_simps validate_loops_ctx)
       (auto simp: result_simps validate_workspace_ctx [of ctx] validate_copies_ctx [of ctx]
         validate_mounts_ctx [of ctx] validate_network_ctx [of ctx] validate_interfaces_ctx [of ctx]
         validate_services_ctx [of ctx])
qed

section \<open>Properties\<close>

text \<open>C13: a declaration is accepted from evidence alone exactly when it satisfies the contract
  \<open>wf_declaration\<close>.\<close>

theorem ValidateEvidence_iff: "ValidateEvidence host uni d dir = Inr () \<longleftrightarrow> wf_declaration uni d"
  by (simp add: ValidateEvidence_def validate_evidence_iff)

text \<open>C14: validation on the host accepts a declaration exactly when no poll of the context saw a
  cancellation, the declaration satisfies the contract, and every source exists on the host as a
  regular file or directory free of symbolic links, with no group or other permission on any entry of
  a secret.\<close>

theorem ValidateContext_iff:
  "ValidateContext host uni ctx d dir = Inr () \<longleftrightarrow>
     calm ctx 0 (polls d) \<and> wf_declaration uni d \<and> wf_sources host dir d"
  using validate_ctx [of host uni ctx d dir True "()"]
  by (simp add: ValidateContext_def validate_sources_iff)

lemma covers_common: "covers a p \<Longrightarrow> covers b p \<Longrightarrow> covers a b \<or> covers b a"
  unfolding covers_def using prefix_same_cases by blast

text \<open>C15: in an accepted declaration no path of the world lies below two mounts, unless one of them is
  mounted at the root directory.\<close>

theorem mounts_disjoint:
  assumes "ValidateEvidence host uni d dir = Inr ()"
    and "i < j" and "j < length (d_Mounts d)"
    and "dm_Target (d_Mounts d ! i) \<noteq> root_path" and "dm_Target (d_Mounts d ! j) \<noteq> root_path"
  shows "\<not> (covers (dm_Target (d_Mounts d ! i)) p \<and> covers (dm_Target (d_Mounts d ! j)) p)"
proof -
  have "sorted_wrt (\<lambda>m n. \<not> paths_conflict (dm_Target m) (dm_Target n)) (d_Mounts d)"
    using assms(1) by (simp add: ValidateEvidence_def validate_evidence_iff wf_declaration_def)
  then have "\<not> paths_conflict (dm_Target (d_Mounts d ! i)) (dm_Target (d_Mounts d ! j))"
    using assms(2,3) by (rule sorted_wrt_nth_less)
  with assms(4,5) covers_common show ?thesis
    by (auto simp: paths_conflict_def)
qed

definition sample_declaration :: Declaration where
  "sample_declaration = \<lparr>d_Version = 1, d_Name = ''dev'', d_AllowUnpinned = True,
     d_World = \<lparr>dw_Hostname = ''dev'', dw_Base = ''alpine:3'', dw_Workdir = ''/work'', dw_User = ''1000''\<rparr>,
     d_Resources = \<lparr>dr_CPUs = 2, dr_MemoryBytes = 1024, dr_PIDs = 64\<rparr>,
     d_Workspace = [''/work''], d_Copies = [],
     d_Mounts = [\<lparr>dm_Source = ''/srv/a'', dm_Target = ''/data'', dm_Mode = ''ro''\<rparr>,
                 \<lparr>dm_Source = ''/srv/b'', dm_Target = ''/database'', dm_Mode = ''rw''\<rparr>],
     d_Allow = [\<lparr>da_Host = ''example.com'', da_Port = 443\<rparr>],
     d_Interfaces = [\<lparr>di_Name = ''web'', di_Address = ''127.0.0.1:8080''\<rparr>],
     d_Services = [\<lparr>ds_Name = ''web'', ds_Command = [''serve''], ds_Autostart = True, ds_Restart = ''always''\<rparr>]\<rparr>"

definition empty_host :: host_fs where
  "empty_host = \<lparr>fs_lstat = (\<lambda>_. None), fs_eval = (\<lambda>_. None), fs_inspect = (\<lambda>_. None), fs_digest = (\<lambda>_. None)\<rparr>"

theorem mounts_disjoint_witness:
  "ValidateEvidence empty_host id sample_declaration ''/srv'' = Inr ()
   \<and> \<not> (covers ''/data'' ''/data/x'' \<and> covers ''/database'' ''/data/x'')"
proof -
  have ok: "ValidateEvidence empty_host id sample_declaration ''/srv'' = Inr ()"
    by code_simp
  have "0 < (1::nat)" "1 < length (d_Mounts sample_declaration)"
    "dm_Target (d_Mounts sample_declaration ! 0) \<noteq> root_path"
    "dm_Target (d_Mounts sample_declaration ! 1) \<noteq> root_path"
    by (simp_all add: sample_declaration_def root_path_def)
  from mounts_disjoint [OF ok this, of "''/data/x''"] ok show ?thesis
    by (simp add: sample_declaration_def)
qed

definition root_mount_declaration :: Declaration where
  "root_mount_declaration = sample_declaration\<lparr>d_Mounts :=
     d_Mounts sample_declaration @ [\<lparr>dm_Source = ''/srv/c'', dm_Target = ''/'', dm_Mode = ''rw''\<rparr>]\<rparr>"

text \<open>the overlap test does not recognise the root directory as containing other paths: a
  declaration whose mount covers the reserved documents and every other mount is accepted.\<close>

theorem root_mount_accepted:
  "ValidateEvidence empty_host id root_mount_declaration ''/srv'' = Inr ()
   \<and> covers ''/'' reserved_document \<and> covers ''/'' reserved_directory \<and> covers ''/'' ''/data''"
  by code_simp

end
