(* ===== verification/Proxy.thy ===== *)
theory Proxy
  imports Diagnostics Decl Go_Crypto
begin

text \<open>
  \<^verbatim>\<open>internal/proxy/proxy.go\<close> and the dispatcher of \<^verbatim>\<open>internal/proxy/control.go\<close>: the door through which a
  world reaches the declared destinations.

  The Go maps are association lists with distinct keys. A connection is a number, and the connections
  that were closed are remembered in \<open>p_closed\<close>. Every use of the clock is an argument (\<open>now\<close>, in
  nanoseconds), as is whether the diagnostics lock was free. The counters \<^verbatim>\<open>next\<close> and \<^verbatim>\<open>admission\<close> of type
  \<^verbatim>\<open>uint64\<close>, of which only the freshness matters, are natural numbers: one request per nanosecond would
  wrap them after five centuries.
\<close>

record Destination =
  dst_Host :: bytes
  dst_Port :: int

definition key :: "(bytes \<Rightarrow> bytes) \<Rightarrow> Destination \<Rightarrow> bytes" where
  "key uni d = ToLower uni (TrimSuffix (dst_Host d) ''.'') @ [colon] @ Itoa (dst_Port d)"

record Options =
  o_MaxConnections :: int
  o_ConnectionsPerSecond :: int
  o_Generation :: int

record grant =
  g_destination :: Destination
  g_expires :: int
  g_id :: bytes

record tracked =
  t_conn :: nat
  t_outbound :: "nat option"
  t_admission :: bytes

record Proxy =
  p_durable :: "(bytes \<times> bytes) list"
  p_grants :: "(bytes \<times> grant) list"
  p_active :: "(nat \<times> tracked) list"
  p_next :: nat
  p_opts :: Options
  p_sem :: nat
  p_rateWindow :: "int option"
  p_rateCount :: int
  p_admission :: nat
  p_diagnostics :: diagnosticBuffer
  p_accepted :: "64 word"
  p_refused :: "64 word"
  p_dialFailed :: "64 word"
  p_stopped :: bool
  p_handlers :: nat
  p_closed :: "nat list"

datatype proxy_error =
    InvalidGrant
  | InvalidDestination
  | NotCanonical
  | AbsoluteURIRequired
  | MissingPort
  | InvalidPort
  | BadDestinationHost naming_error
  | BadRequest
  | Rejected bytes

section \<open>Admissions\<close>

definition admission_id :: "bytes \<Rightarrow> bytes \<Rightarrow> nat \<Rightarrow> bytes" where
  "admission_id kind k n = kind @ '':'' @ k @ '':'' @ Itoa (int n)"

definition newAdmissionLocked :: "bytes \<Rightarrow> bytes \<Rightarrow> Proxy \<Rightarrow> bytes \<times> Proxy" where
  "newAdmissionLocked kind k p =
     (let n = p_admission p + 1 in (admission_id kind k n, p\<lparr>p_admission := n\<rparr>))"

definition admit_durable :: "bytes \<Rightarrow> Proxy \<Rightarrow> Proxy" where
  "admit_durable k p =
     (case newAdmissionLocked ''declaration'' k p of (i, q) \<Rightarrow> q\<lparr>p_durable := AList.update k i (p_durable q)\<rparr>)"

definition default_options :: "Options \<Rightarrow> Options" where
  "default_options opts =
     opts\<lparr>o_MaxConnections := (if o_MaxConnections opts \<le> 0 then 128 else o_MaxConnections opts),
          o_ConnectionsPerSecond := (if o_ConnectionsPerSecond opts \<le> 0 then 64 else o_ConnectionsPerSecond opts)\<rparr>"

definition New :: "(bytes \<Rightarrow> bytes) \<Rightarrow> Destination list \<Rightarrow> Options \<Rightarrow> Proxy" where
  "New uni destinations opts =
     fold (\<lambda>d p. admit_durable (key uni d) p) destinations
       \<lparr>p_durable = [], p_grants = [], p_active = [], p_next = 0, p_opts = default_options opts, p_sem = 0,
        p_rateWindow = None, p_rateCount = 0, p_admission = 0,
        p_diagnostics = newDiagnosticBuffer (o_Generation opts),
        p_accepted = 0, p_refused = 0, p_dialFailed = 0, p_stopped = False, p_handlers = 0, p_closed = []\<rparr>"

text \<open>\<^verbatim>\<open>closeTracked\<close>, and the loops that apply it to the tracked connections selected by a test.\<close>

definition tracked_conns :: "tracked \<Rightarrow> nat list" where
  "tracked_conns t = t_conn t # (case t_outbound t of None \<Rightarrow> [] | Some c \<Rightarrow> [c])"

definition closeTracked :: "tracked \<Rightarrow> Proxy \<Rightarrow> Proxy" where
  "closeTracked t p = p\<lparr>p_closed := tracked_conns t @ p_closed p\<rparr>"

definition close_where :: "(bytes \<Rightarrow> bool) \<Rightarrow> Proxy \<Rightarrow> Proxy" where
  "close_where P p = fold (\<lambda>(i, t) q. if P (t_admission t) then closeTracked t q else q) (p_active p) p"

fun expire_loop :: "int \<Rightarrow> (bytes \<times> grant) list \<Rightarrow> Proxy \<Rightarrow> Proxy" where
  "expire_loop now [] p = p"
| "expire_loop now ((k, g) # gs) p =
     (if g_expires g > now then expire_loop now gs p
      else expire_loop now gs (close_where (\<lambda>a. a = g_id g) (p\<lparr>p_grants := AList.delete k (p_grants p)\<rparr>)))"

definition expireLocked :: "int \<Rightarrow> Proxy \<Rightarrow> Proxy" where
  "expireLocked now p = expire_loop now (p_grants p) p"

definition allowed :: "(bytes \<Rightarrow> bytes) \<Rightarrow> int \<Rightarrow> Destination \<Rightarrow> Proxy \<Rightarrow> bytes option \<times> Proxy" where
  "allowed uni now d p =
     (let q = expireLocked now p in
      (case map_of (p_durable q) (key uni d) of
         Some i \<Rightarrow> Some i
       | None \<Rightarrow> map_option g_id (map_of (p_grants q) (key uni d)), q))"

definition admissionCurrentLocked :: "bytes \<Rightarrow> Proxy \<Rightarrow> bool" where
  "admissionCurrentLocked a p =
     (list_ex (\<lambda>(k, i). i = a) (p_durable p) \<or> list_ex (\<lambda>(k, g). g_id g = a) (p_grants p))"

section \<open>Tracking\<close>

definition track :: "nat \<Rightarrow> Proxy \<Rightarrow> nat \<times> Proxy" where
  "track conn p =
     (let n = p_next p + 1 in
      (n, p\<lparr>p_next := n,
            p_active := AList.update n \<lparr>t_conn = conn, t_outbound = None, t_admission = []\<rparr> (p_active p)\<rparr>))"

definition untrack :: "nat \<Rightarrow> Proxy \<Rightarrow> Proxy" where
  "untrack i p = p\<lparr>p_active := AList.delete i (p_active p)\<rparr>"

definition bindAdmission :: "int \<Rightarrow> nat \<Rightarrow> nat option \<Rightarrow> bytes \<Rightarrow> Proxy \<Rightarrow> bool \<times> Proxy" where
  "bindAdmission now i outbound a p =
     (let q = expireLocked now p in
      case map_of (p_active q) i of
        None \<Rightarrow> (False, q)
      | Some t \<Rightarrow>
          if \<not> admissionCurrentLocked a q then (False, q)
          else (True, q\<lparr>p_active := AList.update i (t\<lparr>t_outbound := outbound, t_admission := a\<rparr>) (p_active q)\<rparr>))"

definition trackIfCurrent :: "int \<Rightarrow> nat \<Rightarrow> bytes \<Rightarrow> Proxy \<Rightarrow> nat option \<times> Proxy" where
  "trackIfCurrent now conn a p =
     (case track conn p of (i, q) \<Rightarrow>
        (case bindAdmission now i None a q of (ok, r) \<Rightarrow> if ok then (Some i, r) else (None, untrack i r)))"

section \<open>Policy changes\<close>

definition Grant :: "(bytes \<Rightarrow> bytes) \<Rightarrow> int \<Rightarrow> Destination \<Rightarrow> int \<Rightarrow> Proxy \<Rightarrow> proxy_error + Proxy" where
  "Grant uni now d duration p =
     (if naming_Host (dst_Host d) \<noteq> Inr () \<or> dst_Port d < 1 \<or> dst_Port d > 65535 \<or> duration \<le> 0 then Inl InvalidGrant
      else case newAdmissionLocked ''grant'' (key uni d) p of (i, q) \<Rightarrow>
        Inr (q\<lparr>p_grants := AList.update (key uni d)
                 \<lparr>g_destination = d, g_expires = now + duration, g_id = i\<rparr> (p_grants q)\<rparr>))"

text \<open>The timer of a grant. Unlike \<^verbatim>\<open>closeTracked\<close> it closes the client connection only.\<close>

definition expireGrant :: "bytes \<Rightarrow> bytes \<Rightarrow> Proxy \<Rightarrow> Proxy" where
  "expireGrant k i p =
     (case map_of (p_grants p) k of
        None \<Rightarrow> p
      | Some g \<Rightarrow>
          if g_id g \<noteq> i then p
          else let q = p\<lparr>p_grants := AList.delete k (p_grants p)\<rparr> in
               fold (\<lambda>(j, t) r. if t_admission t = i then r\<lparr>p_closed := t_conn t # p_closed r\<rparr> else r) (p_active q) q)"

definition Remove :: "(bytes \<Rightarrow> bytes) \<Rightarrow> Destination \<Rightarrow> Proxy \<Rightarrow> Proxy" where
  "Remove uni d p =
     (let k = key uni d;
          ids = (case map_of (p_durable p) k of None \<Rightarrow> [] | Some i \<Rightarrow> [i])
                @ (case map_of (p_grants p) k of None \<Rightarrow> [] | Some g \<Rightarrow> [g_id g])
      in close_where (\<lambda>a. a \<in> set ids)
           (p\<lparr>p_durable := AList.delete k (p_durable p), p_grants := AList.delete k (p_grants p)\<rparr>))"

text \<open>
  \<^verbatim>\<open>Reconcile\<close>. Go iterates over a map in an unspecified order; \<open>order\<close> is the order in which this call
  visits the keys of \<^verbatim>\<open>replacement\<close>.
\<close>

fun replacement_loop :: "bytes list \<Rightarrow> (bytes \<times> bytes) list \<Rightarrow> Proxy \<Rightarrow> (bytes \<times> bytes) list \<times> Proxy" where
  "replacement_loop [] acc p = (acc, p)"
| "replacement_loop (k # ks) acc p =
     (case map_of (p_durable p) k of
        Some i \<Rightarrow> replacement_loop ks (AList.update k i acc) p
      | None \<Rightarrow> (case newAdmissionLocked ''declaration'' k p of
                   (i, q) \<Rightarrow> replacement_loop ks (AList.update k i acc) q))"

definition valid_destination :: "Destination \<Rightarrow> bool" where
  "valid_destination d = (\<not> (naming_Host (dst_Host d) \<noteq> Inr () \<or> dst_Port d < 1 \<or> dst_Port d > 65535))"

definition Reconcile :: "(bytes \<Rightarrow> bytes) \<Rightarrow> bytes list \<Rightarrow> Destination list \<Rightarrow> Proxy \<Rightarrow> proxy_error + Proxy" where
  "Reconcile uni order destinations p =
     (if \<not> list_all valid_destination destinations then Inl InvalidDestination
      else case replacement_loop order [] p of
        (replacement, q) \<Rightarrow>
          Inr (close_where (\<lambda>a. a \<noteq> [] \<and> a \<notin> snd ` set replacement)
                 (q\<lparr>p_durable := replacement, p_grants := []\<rparr>)))"

definition RevokeAll :: "Proxy \<Rightarrow> Proxy" where
  "RevokeAll p =
     close_where (\<lambda>_. True) (p\<lparr>p_stopped := True, p_durable := [], p_grants := []\<rparr>)"

text \<open>The condition on which \<^verbatim>\<open>WaitIdle\<close> returns without an error.\<close>

definition idle :: "Proxy \<Rightarrow> bool" where
  "idle p = (p_active p = [] \<and> p_handlers p = 0)"

section \<open>Requests\<close>

text \<open>
  \<open>readProxyHeader\<close> on the bytes a client sends before it stops sending, behind the reader that delivers
  at most 64 KiB: the header up to and including its empty line, and the bytes after it.
\<close>

fun take_line :: "bytes \<Rightarrow> (bytes \<times> bytes) option" where
  "take_line [] = None"
| "take_line (c # s) =
     (if c = CHR 0x0A then Some ([c], s) else map_option (apfst (\<lambda>l. c # l)) (take_line s))"

lemma take_line_length: "take_line s = Some (l, t) \<Longrightarrow> length t < length s"
  by (induction s arbitrary: l) (auto split: if_splits)

function readProxyHeader :: "bytes \<Rightarrow> (bytes \<times> bytes) option" where
  "readProxyHeader s =
     (case take_line s of
        None \<Rightarrow> None
      | Some (line, rest) \<Rightarrow>
          if line = [CHR 0x0D, CHR 0x0A] \<or> line = [CHR 0x0A] then Some (line, rest)
          else map_option (apfst (\<lambda>h. line @ h)) (readProxyHeader rest))"
  by pat_completeness auto
termination
  by (relation "measure length") (auto dest: take_line_length)

declare readProxyHeader.simps [simp del]

definition headerReader_limit :: nat where "headerReader_limit = 65536"

definition requestTargetValidUTF8 :: "bytes \<Rightarrow> bool" where
  "requestTargetValidUTF8 header =
     (case IndexByte header (CHR 0x0A) of
        None \<Rightarrow> True
      | Some lineEnd \<Rightarrow>
          let line = TrimSuffix (take lineEnd header) [CHR 0x0D] in
          case IndexByte line (CHR 0x20) of
            None \<Rightarrow> True
          | Some firstSpace \<Rightarrow>
              let remainder = drop (firstSpace + 1) line in
              case IndexByte remainder (CHR 0x20) of
                None \<Rightarrow> True
              | Some secondSpace \<Rightarrow> ValidUTF8 (take secondSpace remainder))"

text \<open>The fields of \<^verbatim>\<open>http.Request\<close> that decide where a request goes.\<close>

record http_request =
  r_Method :: bytes
  r_Host :: bytes
  r_URL :: "(bool \<times> bytes) option"

definition requestDestination :: "(bytes \<Rightarrow> bytes) \<Rightarrow> http_request \<Rightarrow> proxy_error + (bytes \<times> int)" where
  "requestDestination uni r =
     bind_result
       (if r_Method r = ''CONNECT'' then Inr (r_Host r)
        else case r_URL r of
               None \<Rightarrow> Inl AbsoluteURIRequired
             | Some (isAbs, host) \<Rightarrow> if \<not> isAbs then Inl AbsoluteURIRequired else Inr host)
       (\<lambda>authority.
          case SplitHostPort authority of
            None \<Rightarrow> Inl MissingPort
          | Some (host, portText) \<Rightarrow>
              (case Atoi portText of
                 None \<Rightarrow> Inl InvalidPort
               | Some port \<Rightarrow>
                   if port < 1 \<or> port > 65535 then Inl InvalidPort
                   else let h = ToLower uni (TrimSuffix host ''.'') in
                        (case naming_Host h of
                           Inl e \<Rightarrow> Inl (BadDestinationHost e)
                         | Inr _ \<Rightarrow> Inr (h, port))))"

definition ParseDestination :: "bytes \<Rightarrow> proxy_error + Destination" where
  "ParseDestination raw =
     (if raw = [] \<or> raw \<noteq> TrimSpace raw \<or> ContainsAny raw ''@/?#'' then Inl NotCanonical
      else case SplitHostPort raw of
             None \<Rightarrow> Inl NotCanonical
           | Some (host, portText) \<Rightarrow>
               if naming_Host host \<noteq> Inr () then Inl NotCanonical
               else (case Atoi portText of
                       None \<Rightarrow> Inl NotCanonical
                     | Some port \<Rightarrow>
                         if port < 1 \<or> port > 65535 \<or> portText \<noteq> Itoa port \<or> JoinHostPort host portText \<noteq> raw
                         then Inl NotCanonical
                         else Inr \<lparr>dst_Host = host, dst_Port = port\<rparr>))"

text \<open>
  \<^verbatim>\<open>dialResolved\<close>: \<open>lookup\<close> is the resolver's answer as the texts of the addresses, \<open>dial\<close> the outcome of
  dialling an address. The addresses that were tried come with the result.
\<close>

fun dial_loop :: "(bytes \<Rightarrow> nat option) \<Rightarrow> int \<Rightarrow> bytes list \<Rightarrow> (nat \<times> bytes) option \<times> bytes list" where
  "dial_loop dial port [] = (None, [])"
| "dial_loop dial port (ip # ips) =
     (let address = JoinHostPort ip (Itoa port) in
      case dial address of
        Some conn \<Rightarrow> (Some (conn, address), [address])
      | None \<Rightarrow> apsnd (\<lambda>tried. address # tried) (dial_loop dial port ips))"

definition dialResolved :: "(bytes \<Rightarrow> bytes list option) \<Rightarrow> (bytes \<Rightarrow> nat option) \<Rightarrow> bytes \<Rightarrow> int
    \<Rightarrow> (nat \<times> bytes) option \<times> bytes list" where
  "dialResolved lookup dial host port =
     (case lookup host of
        None \<Rightarrow> (None, [])
      | Some ips \<Rightarrow> dial_loop dial port ips)"

section \<open>Accepting and handling a connection\<close>

definition admitRate :: "int \<Rightarrow> Proxy \<Rightarrow> bool \<times> Proxy" where
  "admitRate now p =
     (let q = (case p_rateWindow p of
                 None \<Rightarrow> p\<lparr>p_rateWindow := Some now, p_rateCount := 0\<rparr>
               | Some w \<Rightarrow> if now - w \<ge> 1000000000 then p\<lparr>p_rateWindow := Some now, p_rateCount := 0\<rparr> else p)
      in if p_rateCount q \<ge> o_ConnectionsPerSecond (p_opts q) then (False, q)
         else (True, q\<lparr>p_rateCount := p_rateCount q + 1\<rparr>))"

definition close_conn :: "nat \<Rightarrow> Proxy \<Rightarrow> Proxy" where
  "close_conn c p = p\<lparr>p_closed := c # p_closed p\<rparr>"

text \<open>
  One iteration of \<^verbatim>\<open>Serve\<close> after \<^verbatim>\<open>Accept\<close>, up to the token: whether the connection got one. The
  channel \<^verbatim>\<open>sem\<close> is represented by the number of tokens in it. Counting the handler, which is started
  then, is a step of its own (\<open>serve_count\<close>): the counter is not changed together with the channel.
\<close>

definition serve_accept :: "int \<Rightarrow> nat \<Rightarrow> Proxy \<Rightarrow> bool \<times> Proxy" where
  "serve_accept now conn p =
     (if p_stopped p then (False, close_conn conn p)
      else case admitRate now p of (ok, q) \<Rightarrow>
        if \<not> ok then (False, close_conn conn q)
        else if int (p_sem q) < o_MaxConnections (p_opts q)
             then (True, q\<lparr>p_sem := p_sem q + 1\<rparr>)
             else (False, close_conn conn q))"

definition serve_count :: "Proxy \<Rightarrow> Proxy" where
  "serve_count p = p\<lparr>p_handlers := p_handlers p + 1\<rparr>"

text \<open>
  Where the handler of a connection stands. The calls of \<^verbatim>\<open>handle\<close> that take the lock of the proxy are
  separate steps, so that other handlers and policy changes interleave with them. A connection in
  \<open>Acquired\<close> has its token but is not counted yet; a handler in \<open>Returning\<close> has only its deferred calls
  left, one in \<open>Leaving\<close> has returned and still has its token, and one in \<open>Released\<close> has given it back
  but is still counted.
\<close>

datatype phase =
    Acquired
  | Accepted
  | Reading nat
  | Admitted nat Destination bytes
  | Dialed nat Destination bytes nat
  | Relaying nat Destination bytes nat
  | Returning nat "nat option"
  | Leaving
  | Released
  | Finished

definition handle_begin :: "nat \<Rightarrow> Proxy \<Rightarrow> phase \<times> Proxy" where
  "handle_begin client p =
     (case track client p of (i, q) \<Rightarrow> (if p_stopped q then Returning i None else Reading i, q))"

definition observe :: "bool \<Rightarrow> bytes \<Rightarrow> bytes \<Rightarrow> Destination \<Rightarrow> Proxy \<Rightarrow> Proxy" where
  "observe locked ts outcome d p =
     p\<lparr>p_diagnostics := record_event locked ts outcome (dst_Host d) (dst_Port d) (p_diagnostics p)\<rparr>"

definition handle_request :: "(bytes \<Rightarrow> bytes) \<Rightarrow> (bytes \<Rightarrow> http_request option) \<Rightarrow> bytes \<Rightarrow> int \<Rightarrow> bool \<Rightarrow> bytes
    \<Rightarrow> nat \<Rightarrow> Proxy \<Rightarrow> phase \<times> Proxy" where
  "handle_request uni parse stream now locked ts i p =
     (case readProxyHeader (take headerReader_limit stream) of
        None \<Rightarrow> (Returning i None, p)
      | Some (header, _) \<Rightarrow>
          if \<not> requestTargetValidUTF8 header then (Returning i None, p)
          else (case parse header of
                  None \<Rightarrow> (Returning i None, p)
                | Some r \<Rightarrow>
                    (case requestDestination uni r of
                       Inl _ \<Rightarrow> (Returning i None, p)
                     | Inr (host, port) \<Rightarrow>
                         let d = \<lparr>dst_Host = host, dst_Port = port\<rparr> in
                         (case allowed uni now d p of
                            (Some a, q) \<Rightarrow> (Admitted i d a, q)
                          | (None, q) \<Rightarrow>
                              (Returning i None,
                               observe locked ts ''refused'' d (q\<lparr>p_refused := p_refused q + 1\<rparr>))))))"

definition handle_dial :: "(bytes \<Rightarrow> bytes list option) \<Rightarrow> (bytes \<Rightarrow> nat option) \<Rightarrow> bool \<Rightarrow> bytes
    \<Rightarrow> nat \<Rightarrow> Destination \<Rightarrow> bytes \<Rightarrow> Proxy \<Rightarrow> phase \<times> bytes list \<times> Proxy" where
  "handle_dial lookup dial locked ts i d a p =
     (case dialResolved lookup dial (dst_Host d) (dst_Port d) of
        (None, tried) \<Rightarrow>
          (Returning i None, tried, observe locked ts ''dial_failed'' d (p\<lparr>p_dialFailed := p_dialFailed p + 1\<rparr>))
      | (Some (outbound, address), tried) \<Rightarrow> (Dialed i d a outbound, tried, p))"

definition handle_bind :: "int \<Rightarrow> bool \<Rightarrow> bytes \<Rightarrow> nat \<Rightarrow> Destination \<Rightarrow> bytes \<Rightarrow> nat \<Rightarrow> Proxy \<Rightarrow> phase \<times> Proxy" where
  "handle_bind now locked ts i d a outbound p =
     (case bindAdmission now i (Some outbound) a p of
        (False, q) \<Rightarrow> (Returning i (Some outbound), q)
      | (True, q) \<Rightarrow>
          (Relaying i d a outbound, observe locked ts ''accepted'' d (q\<lparr>p_accepted := p_accepted q + 1\<rparr>)))"

text \<open>
  The deferred calls of \<^verbatim>\<open>handle\<close>: close the outbound connection, untrack, close the client. Those of its
  goroutine follow one after the other: the token is given back, and then the handler is no longer counted.
\<close>

definition handle_return :: "nat \<Rightarrow> nat \<Rightarrow> nat option \<Rightarrow> Proxy \<Rightarrow> phase \<times> Proxy" where
  "handle_return client i outbound p =
     (let q = (case outbound of None \<Rightarrow> p | Some c \<Rightarrow> close_conn c p)
      in (Leaving, close_conn client (untrack i q)))"

definition serve_release :: "Proxy \<Rightarrow> Proxy" where
  "serve_release p = p\<lparr>p_sem := p_sem p - 1\<rparr>"

definition serve_uncount :: "Proxy \<Rightarrow> Proxy" where
  "serve_uncount p = p\<lparr>p_handlers := p_handlers p - 1\<rparr>"

section \<open>Summary and control\<close>

record ActivitySummary =
  as_Accepted :: "64 word"
  as_Refused :: "64 word"
  as_DialFailed :: "64 word"
  as_Omitted :: "64 word"
  as_ActiveConnections :: nat
  as_DiagnosticsSHA256 :: bytes

definition snapshot_json :: "DiagnosticSnapshot \<Rightarrow> json" where
  "snapshot_json s = JObj [(''generation'', jint (sn_Generation s)),
     (''events'', JArr (map diagnostic_json (sn_Events s))), (''truncated'', JBool (sn_Truncated s)),
     (''omitted'', jint (uint (sn_Omitted s))), (''encoded_bytes'', jint (int (sn_EncodedBytes s)))]"

definition Summary :: "Proxy \<Rightarrow> ActivitySummary" where
  "Summary p =
     (let s = snapshot (int MaxDiagnosticLimit) (int MaxDiagnosticBytes) (p_diagnostics p) in
      \<lparr>as_Accepted = p_accepted p, as_Refused = p_refused p, as_DialFailed = p_dialFailed p,
       as_Omitted = sn_Omitted s, as_ActiveConnections = length (p_active p),
       as_DiagnosticsSHA256 = ''sha256:'' @ sha256_hex (json_encode True (snapshot_json s))\<rparr>)"

record ControlRequest =
  cr_Operation :: bytes
  cr_Host :: bytes
  cr_Port :: int
  cr_Duration :: bytes
  cr_Destinations :: "Destination list"
  cr_Limit :: int
  cr_MaxBytes :: int

record ControlResponse =
  cp_OK :: bool
  cp_Error :: bytes
  cp_Diagnostics :: "DiagnosticSnapshot option"

definition control_ok :: ControlResponse where
  "control_ok = \<lparr>cp_OK = True, cp_Error = [], cp_Diagnostics = None\<rparr>"

definition control_error :: "bytes \<Rightarrow> ControlResponse" where
  "control_error e = \<lparr>cp_OK = False, cp_Error = e, cp_Diagnostics = None\<rparr>"

text \<open>
  The dispatcher \<^verbatim>\<open>control\<close> on a decoded request, \<^const>\<open>None\<close> when the request could not be decoded.
  \<open>parseDuration\<close> is \<^verbatim>\<open>time.ParseDuration\<close> with the text of its error.
\<close>

definition control :: "(bytes \<Rightarrow> bytes) \<Rightarrow> (bytes \<Rightarrow> bytes + int) \<Rightarrow> int \<Rightarrow> bytes list \<Rightarrow> ControlRequest option \<Rightarrow> Proxy
    \<Rightarrow> ControlResponse \<times> Proxy" where
  "control uni parseDuration now order request p =
     (case request of
        None \<Rightarrow> (control_error ''invalid request'', p)
      | Some r \<Rightarrow>
          let d = \<lparr>dst_Host = cr_Host r, dst_Port = cr_Port r\<rparr> in
          if cr_Operation r = ''ping'' then (control_ok, p)
          else if cr_Operation r = ''grant'' then
            (case parseDuration (cr_Duration r) of
               Inl e \<Rightarrow> (control_error e, p)
             | Inr duration \<Rightarrow>
                 (case Grant uni now d duration p of
                    Inl _ \<Rightarrow> (control_error ''invalid grant'', p)
                  | Inr q \<Rightarrow> (control_ok, q)))
          else if cr_Operation r = ''remove'' then
            (if cr_Host r = [] \<or> cr_Port r < 1 \<or> cr_Port r > 65535 then (control_error ''invalid destination'', p)
             else (control_ok, Remove uni d p))
          else if cr_Operation r = ''reconcile'' then
            (case Reconcile uni order (cr_Destinations r) p of
               Inl _ \<Rightarrow> (control_error ''invalid destination'', p)
             | Inr q \<Rightarrow> (control_ok, q))
          else if cr_Operation r = ''network-diagnostics'' then
            (if cr_Limit r < 1 \<or> cr_Limit r > int MaxDiagnosticLimit \<or> cr_MaxBytes r < 1 \<or> cr_MaxBytes r > int MaxDiagnosticBytes
             then (control_error ''invalid diagnostic bounds'', p)
             else (control_ok\<lparr>cp_Diagnostics := Some (snapshot (cr_Limit r) (cr_MaxBytes r) (p_diagnostics p))\<rparr>, p))
          else (control_error ''unsupported operation'', p))"

text \<open>How the client reads a response: \<^verbatim>\<open>exchangeControlContext\<close> and \<^verbatim>\<open>queryDiagnosticsConnectionContext\<close>.\<close>

definition exchangeControl :: "ControlResponse \<Rightarrow> proxy_error + ControlResponse" where
  "exchangeControl response =
     (if \<not> cp_OK response then
        (if cp_Error response = [] then Inl (Rejected ''proxy rejected control request'')
         else Inl (Rejected (''proxy: '' @ cp_Error response)))
      else Inr response)"

definition queryDiagnostics :: "ControlResponse \<Rightarrow> proxy_error + DiagnosticSnapshot" where
  "queryDiagnostics response =
     bind_result (exchangeControl response) (\<lambda>r.
       case cp_Diagnostics r of
         None \<Rightarrow> Inl (Rejected ''proxy returned no network diagnostics'')
       | Some s \<Rightarrow> Inr s)"

end
