(* ===== verification/Proxy_System.thy ===== *)
theory Proxy_System
  imports Proxy
begin

text \<open>
  The proxy with all its concurrent callers: the accept loop, the handlers of the accepted connections,
  the timers of the grants and the control operations. An \<open>event\<close> is one locked section, or one step on the
  channel of tokens or on the counter of handlers, of one caller with the inputs it sees, and \<open>apply_event\<close> executes it; every order of events is an interleaving.
\<close>

section \<open>Events\<close>

record dial_record =
  dl_destination :: Destination
  dl_admission :: bytes
  dl_address :: bytes

record system =
  s_proxy :: Proxy
  s_handlers :: "(nat \<times> phase) list"
  s_dials :: "dial_record list"

datatype event =
    Accept nat int
  | Count nat
  | Begin nat
  | Request nat bytes int bool bytes
  | Dial nat "(bytes \<times> bytes list) list" "(bytes \<times> nat) list" bool bytes
  | Bind nat int bool bytes
  | RelayEnds nat
  | Return nat
  | Release nat
  | Uncount nat
  | GrantFor Destination int int
  | Timer bytes bytes
  | RemoveFor Destination
  | ReconcileTo "bytes list" "Destination list"
  | Revoke

definition set_phase :: "nat \<Rightarrow> phase \<times> Proxy \<Rightarrow> system \<Rightarrow> system" where
  "set_phase c r s = s\<lparr>s_handlers := AList.update c (fst r) (s_handlers s), s_proxy := snd r\<rparr>"

definition set_proxy :: "Proxy \<Rightarrow> system \<Rightarrow> system" where
  "set_proxy p s = s\<lparr>s_proxy := p\<rparr>"

definition dialed :: "nat \<Rightarrow> Destination \<Rightarrow> bytes \<Rightarrow> phase \<times> bytes list \<times> Proxy \<Rightarrow> system \<Rightarrow> system" where
  "dialed c d a r s = (case r of (ph, tried, p) \<Rightarrow>
     (set_phase c (ph, p) s)\<lparr>s_dials := s_dials s @ map (\<lambda>x. \<lparr>dl_destination = d, dl_admission = a, dl_address = x\<rparr>) tried\<rparr>)"

text \<open>A new connection has an identity of its own.\<close>

definition fresh_conn :: "nat \<Rightarrow> system \<Rightarrow> bool" where
  "fresh_conn c s = (map_of (s_handlers s) c = None)"

definition keys_of :: "(bytes \<Rightarrow> bytes) \<Rightarrow> Destination list \<Rightarrow> bytes list" where
  "keys_of uni ds = map (key uni) ds"

fun apply_event :: "(bytes \<Rightarrow> bytes) \<Rightarrow> (bytes \<Rightarrow> http_request option) \<Rightarrow> event \<Rightarrow> system \<Rightarrow> system option" where
  "apply_event uni parse (Accept c now) s =
     (if \<not> fresh_conn c s then None
      else case serve_accept now c (s_proxy s) of
             (True, p) \<Rightarrow> Some (set_phase c (Acquired, p) s)
           | (False, p) \<Rightarrow> Some (set_phase c (Finished, p) s))"
| "apply_event uni parse (Count c) s =
     (case map_of (s_handlers s) c of
        Some Acquired \<Rightarrow> Some (set_phase c (Accepted, serve_count (s_proxy s)) s)
      | _ \<Rightarrow> None)"
| "apply_event uni parse (Begin c) s =
     (case map_of (s_handlers s) c of
        Some Accepted \<Rightarrow> Some (set_phase c (handle_begin c (s_proxy s)) s)
      | _ \<Rightarrow> None)"
| "apply_event uni parse (Request c stream now locked ts) s =
     (case map_of (s_handlers s) c of
        Some (Reading i) \<Rightarrow> Some (set_phase c (handle_request uni parse stream now locked ts i (s_proxy s)) s)
      | _ \<Rightarrow> None)"
| "apply_event uni parse (Dial c lookup dial locked ts) s =
     (case map_of (s_handlers s) c of
        Some (Admitted i d a) \<Rightarrow>
          Some (dialed c d a (handle_dial (map_of lookup) (map_of dial) locked ts i d a (s_proxy s)) s)
      | _ \<Rightarrow> None)"
| "apply_event uni parse (Bind c now locked ts) s =
     (case map_of (s_handlers s) c of
        Some (Dialed i d a out) \<Rightarrow> Some (set_phase c (handle_bind now locked ts i d a out (s_proxy s)) s)
      | _ \<Rightarrow> None)"
| "apply_event uni parse (RelayEnds c) s =
     (case map_of (s_handlers s) c of
        Some (Relaying i d a out) \<Rightarrow> Some (set_phase c (Returning i (Some out), s_proxy s) s)
      | _ \<Rightarrow> None)"
| "apply_event uni parse (Return c) s =
     (case map_of (s_handlers s) c of
        Some (Returning i out) \<Rightarrow> Some (set_phase c (handle_return c i out (s_proxy s)) s)
      | _ \<Rightarrow> None)"
| "apply_event uni parse (Release c) s =
     (case map_of (s_handlers s) c of
        Some Leaving \<Rightarrow> Some (set_phase c (Released, serve_release (s_proxy s)) s)
      | _ \<Rightarrow> None)"
| "apply_event uni parse (Uncount c) s =
     (case map_of (s_handlers s) c of
        Some Released \<Rightarrow> Some (set_phase c (Finished, serve_uncount (s_proxy s)) s)
      | _ \<Rightarrow> None)"
| "apply_event uni parse (GrantFor d duration now) s =
     (case Grant uni now d duration (s_proxy s) of
        Inl _ \<Rightarrow> None
      | Inr p \<Rightarrow> Some (set_proxy p s))"
| "apply_event uni parse (Timer k i) s = Some (set_proxy (expireGrant k i (s_proxy s)) s)"
| "apply_event uni parse (RemoveFor d) s = Some (set_proxy (Remove uni d (s_proxy s)) s)"
| "apply_event uni parse (ReconcileTo order ds) s =
     (if distinct order \<and> set order = set (keys_of uni ds) then
        (case Reconcile uni order ds (s_proxy s) of
           Inl _ \<Rightarrow> None
         | Inr p \<Rightarrow> Some (set_proxy p s))
      else None)"
| "apply_event uni parse Revoke s = Some (set_proxy (RevokeAll (s_proxy s)) s)"

definition start :: "(bytes \<Rightarrow> bytes) \<Rightarrow> Destination list \<Rightarrow> Options \<Rightarrow> system" where
  "start uni ds opts = \<lparr>s_proxy = New uni ds opts, s_handlers = [], s_dials = []\<rparr>"

definition is_start :: "(bytes \<Rightarrow> bytes) \<Rightarrow> system \<Rightarrow> bool" where
  "is_start uni s = (\<exists>ds opts. s = start uni ds opts)"

definition any_event :: "event \<Rightarrow> system \<Rightarrow> bool" where
  "any_event e s = True"

text \<open>The events that do not grant a destination while an earlier grant of it is still recorded.\<close>

definition no_regrant :: "(bytes \<Rightarrow> bytes) \<Rightarrow> event \<Rightarrow> system \<Rightarrow> bool" where
  "no_regrant uni e s =
     (case e of GrantFor d _ _ \<Rightarrow> map_of (p_grants (s_proxy s)) (key uni d) = None | _ \<Rightarrow> True)"

section \<open>The frame of the operations\<close>

text \<open>What each operation of the proxy does to the tables, in closed form.\<close>

definition current_ids :: "Proxy \<Rightarrow> bytes set" where
  "current_ids p = snd ` set (p_durable p) \<union> (g_id \<circ> snd) ` set (p_grants p)"

lemma admissionCurrentLocked_iff: "admissionCurrentLocked a p \<longleftrightarrow> a \<in> current_ids p"
  by (force simp: admissionCurrentLocked_def current_ids_def list_ex_iff)

definition closing :: "(bytes \<Rightarrow> bool) \<Rightarrow> (nat \<times> tracked) list \<Rightarrow> nat list" where
  "closing P ts = concat (rev (map (\<lambda>(i, t). if P (t_admission t) then tracked_conns t else []) ts))"

lemma close_fold:
  "fold (\<lambda>(i, t) q. if P (t_admission t) then closeTracked t q else q) ts p
     = p\<lparr>p_closed := closing P ts @ p_closed p\<rparr>"
  by (induction ts arbitrary: p) (auto simp: closing_def closeTracked_def)

lemma close_where_eq: "close_where P p = p\<lparr>p_closed := closing P (p_active p) @ p_closed p\<rparr>"
  by (simp add: close_where_def close_fold)

lemma set_closing:
  "c \<in> set (closing P ts) \<longleftrightarrow> (\<exists>i t. (i, t) \<in> set ts \<and> P (t_admission t) \<and> c \<in> set (tracked_conns t))"
  by (auto simp: closing_def split: if_splits)

lemma closing_conn: "(i, t) \<in> set ts \<Longrightarrow> P (t_admission t) \<Longrightarrow> t_conn t \<in> set (closing P ts)"
  by (auto simp: set_closing tracked_conns_def)

definition expired :: "int \<Rightarrow> (bytes \<times> grant) list \<Rightarrow> (bytes \<times> grant) list" where
  "expired now gs = filter (\<lambda>(k, g). \<not> g_expires g > now) gs"

definition expired_conns :: "(bytes \<times> grant) list \<Rightarrow> (nat \<times> tracked) list \<Rightarrow> nat list" where
  "expired_conns gs ts = concat (rev (map (\<lambda>(k, g). closing (\<lambda>a. a = g_id g) ts) gs))"

lemma expire_loop_eq:
  "expire_loop now gs p =
     p\<lparr>p_grants := filter (\<lambda>x. fst x \<notin> fst ` set (expired now gs)) (p_grants p),
       p_closed := expired_conns (expired now gs) (p_active p) @ p_closed p\<rparr>"
proof (induction now gs p rule: expire_loop.induct)
  case (1 now p)
  then show ?case by (simp add: expired_def expired_conns_def)
next
  case (2 now k g gs p)
  have "filter (\<lambda>x. fst x \<notin> fst ` set (expired now gs)) (AList.delete k (p_grants p))
      = filter (\<lambda>x. fst x \<notin> insert k (fst ` set (expired now gs))) (p_grants p)"
    by (auto simp: AList.delete_eq intro: filter_cong)
  with 2 show ?case
    by (simp add: expired_def expired_conns_def close_where_eq)
qed

lemma expired_keys: "k \<in> fst ` set (expired now gs) \<longleftrightarrow> (\<exists>g. (k, g) \<in> set gs \<and> \<not> g_expires g > now)"
  by (auto simp: expired_def image_iff)

lemma expireLocked_eq:
  assumes "distinct (map fst (p_grants p))"
  shows "expireLocked now p =
     p\<lparr>p_grants := filter (\<lambda>(k, g). g_expires g > now) (p_grants p),
       p_closed := expired_conns (expired now (p_grants p)) (p_active p) @ p_closed p\<rparr>"
proof -
  have "fst x \<notin> fst ` set (expired now (p_grants p)) \<longleftrightarrow> (case x of (k, g) \<Rightarrow> g_expires g > now)"
    if "x \<in> set (p_grants p)" for x
    using that distinct_keys_unique [OF assms] unfolding expired_keys
    by (metis case_prod_beta' prod.collapse)
  then have "filter (\<lambda>x. fst x \<notin> fst ` set (expired now (p_grants p))) (p_grants p)
      = filter (\<lambda>(k, g). g_expires g > now) (p_grants p)"
    by (rule filter_cong [OF refl])
  then show ?thesis
    unfolding expireLocked_def expire_loop_eq by simp
qed

lemma expired_conns_conn:
  assumes "(k, g) \<in> set gs" and "(i, t) \<in> set ts" and "t_admission t = g_id g"
  shows "t_conn t \<in> set (expired_conns gs ts)"
  using assms closing_conn [of i t ts "\<lambda>a. a = g_id g"] by (force simp: expired_conns_def)

section \<open>Identities of admissions\<close>

definition issued :: "bytes \<Rightarrow> bytes \<Rightarrow> nat \<Rightarrow> bool" where
  "issued k a m = (\<exists>kind n. kind \<in> {''declaration'', ''grant''} \<and> n \<le> m \<and> a = admission_id kind k n)"

lemma colon_split_inj:
  assumes "a @ colon # b = c @ colon # d" and "colon \<notin> set b" and "colon \<notin> set d"
  shows "a = c \<and> b = d"
proof -
  have "LastIndexByte (a @ colon # b) colon = Some (length a)" "LastIndexByte (c @ colon # d) colon = Some (length c)"
    using assms(2,3) by (simp_all add: LastIndexByte_append)
  with assms(1) show ?thesis by simp
qed

lemma colon_first_inj:
  assumes "a @ colon # b = c @ colon # d" and "colon \<notin> set a" and "colon \<notin> set c"
  shows "a = c \<and> b = d"
  using assms by (induction a arbitrary: c) (auto simp: Cons_eq_append_conv)

lemma Itoa_no_colon: "colon \<notin> set (Itoa (int n))"
  using Itoa_chars [of colon "int n"] by (auto simp: colon_def is_digit_def)

lemma admission_id_colon: "admission_id kind k n = (kind @ colon # k) @ colon # Itoa (int n)"
  by (simp add: admission_id_def colon_def)

lemma admission_id_number: "admission_id kind k n = admission_id kind' k' n' \<Longrightarrow> n = n'"
  using colon_split_inj [OF _ Itoa_no_colon Itoa_no_colon] Itoa_inj
  unfolding admission_id_colon by (metis of_nat_eq_iff)

lemma admission_id_key:
  assumes "admission_id kind k n = admission_id kind' k' n'"
    and "kind \<in> {''declaration'', ''grant''}" and "kind' \<in> {''declaration'', ''grant''}"
  shows "kind = kind' \<and> k = k'"
proof -
  have "kind @ colon # k = kind' @ colon # k'"
    using assms(1) colon_split_inj [OF _ Itoa_no_colon Itoa_no_colon] unfolding admission_id_colon by blast
  then show ?thesis
    by (rule colon_first_inj) (use assms(2,3) in \<open>auto simp: colon_def\<close>)
qed

lemma issued_key: "issued k a p \<Longrightarrow> issued k' a q \<Longrightarrow> k = k'"
  unfolding issued_def using admission_id_key by blast

lemma issued_not_Nil: "issued k a p \<Longrightarrow> a \<noteq> []"
  by (auto simp: issued_def admission_id_def)

lemma issued_mono: "issued k a p \<Longrightarrow> p \<le> q \<Longrightarrow> issued k a q"
  unfolding issued_def using order_trans by blast

section \<open>The tables\<close>

definition tables_ok :: "Proxy \<Rightarrow> bool" where
  "tables_ok p =
     (distinct (map fst (p_durable p)) \<and> distinct (map fst (p_grants p)) \<and> distinct (map fst (p_active p))
      \<and> (\<forall>k i. (k, i) \<in> set (p_durable p) \<longrightarrow> issued k i (p_admission p))
      \<and> (\<forall>k g. (k, g) \<in> set (p_grants p) \<longrightarrow> issued k (g_id g) (p_admission p))
      \<and> (\<forall>x\<in>set (p_active p). fst x \<le> p_next p))"

text \<open>
  \<open>evolves p q\<close>: identities that became current on the way from \<open>p\<close> to \<open>q\<close> were issued on that way.
\<close>

definition evolves :: "Proxy \<Rightarrow> Proxy \<Rightarrow> bool" where
  "evolves p q =
     (p_admission p \<le> p_admission q
      \<and> (\<forall>a\<in>current_ids q. a \<in> current_ids p \<or> (\<exists>kind k n. p_admission p < n \<and> a = admission_id kind k n)))"

lemma evolves_refl: "p_admission q = p_admission p \<Longrightarrow> current_ids q \<subseteq> current_ids p \<Longrightarrow> evolves p q"
  by (auto simp: evolves_def)

lemma evolves_trans: "evolves p q \<Longrightarrow> evolves q r \<Longrightarrow> evolves p r"
  unfolding evolves_def by (meson order_le_less_trans order_trans)

lemma evolves_dead:
  assumes "evolves p q" and "issued k a (p_admission p)" and "a \<notin> current_ids p"
  shows "a \<notin> current_ids q \<and> issued k a (p_admission q)"
proof
  obtain kind n where n: "n \<le> p_admission p" "a = admission_id kind k n"
    using assms(2) by (auto simp: issued_def)
  then have "m = n" if "a = admission_id kind' k' m" for kind' k' m
    using that admission_id_number by metis
  with n assms(1,3) show "a \<notin> current_ids q"
    by (force simp: evolves_def)
  show "issued k a (p_admission q)"
    using assms(1,2) by (auto simp: evolves_def intro: issued_mono)
qed

text \<open>The fields that only count are not part of the tables.\<close>

lemma observe_fields [simp]:
  "p_durable (observe l ts x d p) = p_durable p" "p_grants (observe l ts x d p) = p_grants p"
  "p_active (observe l ts x d p) = p_active p" "p_next (observe l ts x d p) = p_next p"
  "p_opts (observe l ts x d p) = p_opts p" "p_sem (observe l ts x d p) = p_sem p"
  "p_admission (observe l ts x d p) = p_admission p" "p_handlers (observe l ts x d p) = p_handlers p"
  "p_closed (observe l ts x d p) = p_closed p" "p_stopped (observe l ts x d p) = p_stopped p"
  by (simp_all add: observe_def)

definition same_tables :: "Proxy \<Rightarrow> Proxy \<Rightarrow> bool" where
  "same_tables p q = (p_durable q = p_durable p \<and> p_grants q = p_grants p \<and> p_active q = p_active p
     \<and> p_next q = p_next p \<and> p_admission q = p_admission p)"

lemma same_tables_ok: "same_tables p q \<Longrightarrow> tables_ok p \<Longrightarrow> tables_ok q \<and> evolves p q"
  by (simp add: same_tables_def tables_ok_def evolves_def current_ids_def)

lemma map_fst_filter_distinct: "distinct (map fst xs) \<Longrightarrow> distinct (map fst (filter P xs))"
  by (rule distinct_map_filter)

lemma tables_ok_expire:
  assumes "tables_ok p"
  shows "tables_ok (expireLocked now p) \<and> evolves p (expireLocked now p)"
  using assms expireLocked_eq [of p now]
  by (auto simp: tables_ok_def current_ids_def evolves_def map_fst_filter_distinct)

lemma tables_ok_track:
  assumes "tables_ok p" and "track c p = (i, q)"
  shows "tables_ok q \<and> evolves p q"
  using assms
  by (auto simp: track_def Let_def tables_ok_def current_ids_def evolves_def alist_simps)
    (metis fst_conv le_SucI)

lemma tables_ok_untrack: "tables_ok p \<Longrightarrow> tables_ok (untrack i p) \<and> evolves p (untrack i p)"
  by (auto simp: untrack_def tables_ok_def current_ids_def evolves_def alist_simps)

lemma tables_ok_bind:
  assumes "tables_ok p" and "bindAdmission now i out a p = (ok, q)"
  shows "tables_ok q \<and> evolves p q"
proof -
  let ?e = "expireLocked now p"
  have e: "tables_ok ?e" "evolves p ?e"
    using tables_ok_expire [OF assms(1)] by blast+
  have "tables_ok q \<and> evolves ?e q"
  proof (cases "map_of (p_active ?e) i")
    case None
    with assms(2) e show ?thesis by (simp add: bindAdmission_def Let_def evolves_def)
  next
    case (Some t)
    from map_of_SomeD [OF this] e(1) have "i \<le> p_next ?e"
      by (force simp: tables_ok_def)
    with Some assms(2) e(1) show ?thesis
      by (auto simp: bindAdmission_def Let_def tables_ok_def current_ids_def evolves_def alist_simps
          split: if_splits) (metis fst_conv)+
  qed
  with e evolves_trans show ?thesis by blast
qed

lemma tables_ok_drop:
  assumes "tables_ok p" and "set ds \<subseteq> set (p_durable p)" and "distinct (map fst ds)"
    and "set gs \<subseteq> set (p_grants p)" and "distinct (map fst gs)"
    and "p_durable q = ds" "p_grants q = gs" "p_active q = p_active p" "p_next q = p_next p" "p_admission q = p_admission p"
  shows "tables_ok q \<and> evolves p q"
  using assms by (auto simp: tables_ok_def evolves_def current_ids_def)

lemma fold_close_conns:
  "fold (\<lambda>(j, t) r. if P t then r\<lparr>p_closed := t_conn t # p_closed r\<rparr> else r) ts p
     = p\<lparr>p_closed := rev (map (t_conn \<circ> snd) (filter (\<lambda>(j, t). P t) ts)) @ p_closed p\<rparr>"
  by (induction ts arbitrary: p) auto

lemma expireGrant_eq:
  "expireGrant k i p =
     (case map_of (p_grants p) k of
        None \<Rightarrow> p
      | Some g \<Rightarrow> if g_id g \<noteq> i then p else
          p\<lparr>p_grants := AList.delete k (p_grants p),
            p_closed := rev (map (t_conn \<circ> snd) (filter (\<lambda>(j, t). t_admission t = i) (p_active p))) @ p_closed p\<rparr>)"
  by (simp add: expireGrant_def Let_def fold_close_conns split: option.splits)

lemma tables_ok_timer:
  assumes "tables_ok p"
  shows "tables_ok (expireGrant k i p) \<and> evolves p (expireGrant k i p)"
proof -
  have "evolves p p" by (simp add: evolves_refl)
  moreover have "tables_ok q \<and> evolves p q" if "q = p\<lparr>p_grants := AList.delete k (p_grants p), p_closed := cs\<rparr>" for q cs
    by (rule tables_ok_drop [OF assms]) (use assms that in \<open>auto simp: tables_ok_def alist_simps\<close>)
  ultimately show ?thesis
    using assms by (simp add: expireGrant_eq split: option.splits)
qed

lemma Remove_eq:
  "Remove uni d p =
     p\<lparr>p_durable := AList.delete (key uni d) (p_durable p), p_grants := AList.delete (key uni d) (p_grants p),
       p_closed := closing (\<lambda>a. map_of (p_durable p) (key uni d) = Some a
           \<or> map_option g_id (map_of (p_grants p) (key uni d)) = Some a) (p_active p) @ p_closed p\<rparr>"
proof -
  have "(\<lambda>a. a \<in> set ((case map_of (p_durable p) (key uni d) of None \<Rightarrow> [] | Some i \<Rightarrow> [i])
         @ (case map_of (p_grants p) (key uni d) of None \<Rightarrow> [] | Some g \<Rightarrow> [g_id g])))
      = (\<lambda>a. map_of (p_durable p) (key uni d) = Some a
           \<or> map_option g_id (map_of (p_grants p) (key uni d)) = Some a)"
    by (cases "map_of (p_durable p) (key uni d)"; cases "map_of (p_grants p) (key uni d)") auto
  then show ?thesis
    unfolding Remove_def Let_def close_where_eq by simp
qed

lemma tables_ok_Remove: "tables_ok p \<Longrightarrow> tables_ok (Remove uni d p) \<and> evolves p (Remove uni d p)"
  by (rule tables_ok_drop) (auto simp: Remove_eq tables_ok_def alist_simps)

lemma RevokeAll_eq:
  "RevokeAll p = p\<lparr>p_stopped := True, p_durable := [], p_grants := [],
     p_closed := closing (\<lambda>_. True) (p_active p) @ p_closed p\<rparr>"
  by (simp add: RevokeAll_def close_where_eq)

lemma tables_ok_RevokeAll: "tables_ok p \<Longrightarrow> tables_ok (RevokeAll p) \<and> evolves p (RevokeAll p)"
  by (rule tables_ok_drop) (auto simp: RevokeAll_eq)

lemma tables_ok_Grant:
  assumes "tables_ok p" and "Grant uni now d duration p = Inr q"
  shows "tables_ok q \<and> evolves p q"
proof -
  let ?n = "p_admission p + 1"
  let ?id = "admission_id ''grant'' (key uni d) ?n"
  have q: "q = p\<lparr>p_admission := ?n, p_grants := AList.update (key uni d)
      \<lparr>g_destination = d, g_expires = now + duration, g_id = ?id\<rparr> (p_grants p)\<rparr>"
    using assms(2) by (simp add: Grant_def newAdmissionLocked_def Let_def split: if_splits)
  have new: "issued (key uni d) ?id ?n" by (auto simp: issued_def)
  have old: "issued k a (p_admission p) \<Longrightarrow> issued k a ?n" for k a
    by (erule issued_mono) simp
  have "tables_ok q"
    using assms(1) new old unfolding q tables_ok_def by (auto simp: alist_simps)
  moreover have "evolves p q"
  proof -
    have "current_ids q \<subseteq> insert ?id (current_ids p)"
      using assms(1) unfolding q current_ids_def tables_ok_def by (auto simp: alist_simps image_iff)
    then show ?thesis
      unfolding evolves_def by (auto simp: q)
  qed
  ultimately show ?thesis by blast
qed

lemma replacement_loop_spec:
  assumes "replacement_loop ks acc p = (r, q)" and "distinct (map fst acc)"
  shows "q = p\<lparr>p_admission := p_admission q\<rparr> \<and> p_admission p \<le> p_admission q \<and> distinct (map fst r)
    \<and> fst ` set r = fst ` set acc \<union> set ks
    \<and> (\<forall>k i. (k, i) \<in> set r \<longrightarrow> (k, i) \<in> set acc \<or> k \<in> set ks \<and>
          (map_of (p_durable p) k = Some i
           \<or> map_of (p_durable p) k = None \<and> (\<exists>n. p_admission p < n \<and> n \<le> p_admission q \<and> i = admission_id ''declaration'' k n)))"
  using assms
proof (induction ks arbitrary: acc p)
  case Nil
  then show ?case by simp
next
  case (Cons k ks)
  show ?case
  proof (cases "map_of (p_durable p) k")
    case (Some i)
    with Cons.prems have "replacement_loop ks (AList.update k i acc) p = (r, q)" by simp
    from Cons.IH [OF this] Cons.prems(2) Some show ?thesis
      by (auto simp: alist_simps dom_update)
  next
    case None
    let ?n = "p_admission p + 1"
    let ?p = "p\<lparr>p_admission := ?n\<rparr>" and ?i = "admission_id ''declaration'' k (p_admission p + 1)"
    from None Cons.prems have "replacement_loop ks (AList.update k ?i acc) ?p = (r, q)"
      by (simp add: newAdmissionLocked_def Let_def)
    from Cons.IH [OF this] Cons.prems(2) have IH: "q = p\<lparr>p_admission := p_admission q\<rparr>" "?n \<le> p_admission q"
      "distinct (map fst r)" "fst ` set r = insert k (fst ` set acc \<union> set ks)"
      and r: "(k', i) \<in> set r \<Longrightarrow> (k', i) \<in> set (AList.update k ?i acc) \<or> k' \<in> set ks \<and>
          (map_of (p_durable p) k' = Some i
           \<or> map_of (p_durable p) k' = None \<and> (\<exists>n. ?n < n \<and> n \<le> p_admission q \<and> i = admission_id ''declaration'' k' n))" for k' i
      by (auto simp: distinct_update dom_update)
    have "(k', i) \<in> set acc \<or> k' \<in> set (k # ks) \<and>
          (map_of (p_durable p) k' = Some i
           \<or> map_of (p_durable p) k' = None \<and> (\<exists>n. p_admission p < n \<and> n \<le> p_admission q \<and> i = admission_id ''declaration'' k' n))"
      if "(k', i) \<in> set r" for k' i
      using r [OF that] IH(2) None Cons.prems(2) by (auto simp: alist_simps) (use Suc_lessD in blast)+
    with IH show ?thesis by auto
  qed
qed

lemma Reconcile_cases:
  assumes "Reconcile uni order ds p = Inr q"
  obtains r m where "q = p\<lparr>p_admission := m, p_durable := r, p_grants := [],
      p_closed := closing (\<lambda>a. a \<noteq> [] \<and> a \<notin> snd ` set r) (p_active p) @ p_closed p\<rparr>"
    and "p_admission p \<le> m" and "distinct (map fst r)" and "fst ` set r = set order"
    and "\<And>k i. (k, i) \<in> set r \<Longrightarrow> map_of (p_durable p) k = Some i
           \<or> map_of (p_durable p) k = None \<and> (\<exists>n. p_admission p < n \<and> n \<le> m \<and> i = admission_id ''declaration'' k n)"
    and "list_all valid_destination ds"
proof -
  obtain r p' where loop: "replacement_loop order [] p = (r, p')"
    by (cases "replacement_loop order [] p")
  have spec: "p' = p\<lparr>p_admission := p_admission p'\<rparr>" "p_admission p \<le> p_admission p'" "distinct (map fst r)"
    "fst ` set r = set order"
    "\<And>k i. (k, i) \<in> set r \<Longrightarrow> map_of (p_durable p) k = Some i
       \<or> map_of (p_durable p) k = None \<and> (\<exists>n. p_admission p < n \<and> n \<le> p_admission p' \<and> i = admission_id ''declaration'' k n)"
    using replacement_loop_spec [OF loop] by auto
  have valid: "list_all valid_destination ds"
    and q: "q = close_where (\<lambda>a. a \<noteq> [] \<and> a \<notin> snd ` set r) (p'\<lparr>p_durable := r, p_grants := []\<rparr>)"
    using assms loop by (simp_all add: Reconcile_def split: if_splits)
  have "q = p\<lparr>p_admission := p_admission p', p_durable := r, p_grants := [],
      p_closed := closing (\<lambda>a. a \<noteq> [] \<and> a \<notin> snd ` set r) (p_active p) @ p_closed p\<rparr>"
    unfolding q close_where_eq by (subst (1 2 3) spec(1)) simp
  with spec valid that show thesis by blast
qed

lemma tables_ok_Reconcile:
  assumes "tables_ok p" and "Reconcile uni order ds p = Inr q"
  shows "tables_ok q \<and> evolves p q"
  using assms(2)
proof (rule Reconcile_cases)
  fix r m
  assume q: "q = p\<lparr>p_admission := m, p_durable := r, p_grants := [],
      p_closed := closing (\<lambda>a. a \<noteq> [] \<and> a \<notin> snd ` set r) (p_active p) @ p_closed p\<rparr>"
    and m: "p_admission p \<le> m" and d: "distinct (map fst r)"
    and r: "\<And>k i. (k, i) \<in> set r \<Longrightarrow> map_of (p_durable p) k = Some i
           \<or> map_of (p_durable p) k = None \<and> (\<exists>n. p_admission p < n \<and> n \<le> m \<and> i = admission_id ''declaration'' k n)"
  have old: "issued k i m" if "map_of (p_durable p) k = Some i" for k i
    using assms(1) map_of_SomeD [OF that] m by (auto simp: tables_ok_def intro: issued_mono)
  have "issued k i m" if "(k, i) \<in> set r" for k i
    using r [OF that] old by (auto simp: issued_def)
  then have "tables_ok q"
    using assms(1) d unfolding q tables_ok_def by simp
  moreover have "evolves p q"
    unfolding evolves_def
  proof (intro conjI ballI)
    show "p_admission p \<le> p_admission q" using m by (simp add: q)
    fix a
    assume "a \<in> current_ids q"
    then obtain k where "(k, a) \<in> set r" by (auto simp: current_ids_def q)
    from r [OF this] show "a \<in> current_ids p \<or> (\<exists>kind k n. p_admission p < n \<and> a = admission_id kind k n)"
    proof (elim disjE)
      assume "map_of (p_durable p) k = Some a"
      then have "a \<in> snd ` set (p_durable p)" by (force dest: map_of_SomeD)
      then show ?thesis by (simp add: current_ids_def)
    qed blast
  qed
  ultimately show ?thesis by blast
qed

lemma admit_durable_eq:
  "admit_durable k p = p\<lparr>p_admission := p_admission p + 1,
     p_durable := AList.update k (admission_id ''declaration'' k (p_admission p + 1)) (p_durable p)\<rparr>"
  by (simp add: admit_durable_def newAdmissionLocked_def Let_def)

lemma tables_ok_admit:
  assumes "tables_ok p"
  shows "tables_ok (admit_durable k p)"
proof -
  have "issued k (admission_id ''declaration'' k (p_admission p + 1)) (p_admission p + 1)"
    by (auto simp: issued_def)
  moreover have "issued k' a (p_admission p) \<Longrightarrow> issued k' a (p_admission p + 1)" for k' a
    by (erule issued_mono) simp
  ultimately show ?thesis
    using assms unfolding admit_durable_eq tables_ok_def by (auto simp: alist_simps)
qed

lemma New_fold:
  "fold (\<lambda>d p. admit_durable (key uni d) p) ds p
     = p\<lparr>p_admission := p_admission (fold (\<lambda>d p. admit_durable (key uni d) p) ds p),
         p_durable := p_durable (fold (\<lambda>d p. admit_durable (key uni d) p) ds p)\<rparr>
   \<and> fst ` set (p_durable (fold (\<lambda>d p. admit_durable (key uni d) p) ds p)) = fst ` set (p_durable p) \<union> set (keys_of uni ds)
   \<and> (tables_ok p \<longrightarrow> tables_ok (fold (\<lambda>d p. admit_durable (key uni d) p) ds p))"
proof (induction ds arbitrary: p)
  case Nil
  then show ?case by (simp add: keys_of_def)
next
  case (Cons d ds)
  let ?f = "fold (\<lambda>d p. admit_durable (key uni d) p) ds (admit_durable (key uni d) p)"
  have eq: "?f = (admit_durable (key uni d) p)\<lparr>p_admission := p_admission ?f, p_durable := p_durable ?f\<rparr>"
    using Cons.IH by blast
  have "?f = p\<lparr>p_admission := p_admission ?f, p_durable := p_durable ?f\<rparr>"
    by (subst eq) (simp add: admit_durable_eq)
  moreover have "fst ` set (p_durable ?f) = fst ` set (p_durable p) \<union> set (keys_of uni (d # ds))"
    using Cons.IH by (simp add: admit_durable_eq dom_update keys_of_def)
  ultimately show ?case
    using Cons.IH tables_ok_admit by simp
qed

lemma New_facts:
  "p_grants (New uni ds opts) = []" "p_active (New uni ds opts) = []" "p_closed (New uni ds opts) = []"
  "p_sem (New uni ds opts) = 0" "p_handlers (New uni ds opts) = 0"
  "p_opts (New uni ds opts) = default_options opts"
  "p_rateCount (New uni ds opts) = 0"
  "fst ` set (p_durable (New uni ds opts)) = set (keys_of uni ds)"
  "tables_ok (New uni ds opts)"
proof -
  let ?p0 = "\<lparr>p_durable = [], p_grants = [], p_active = [], p_next = 0, p_opts = default_options opts, p_sem = 0,
        p_rateWindow = None, p_rateCount = 0, p_admission = 0,
        p_diagnostics = newDiagnosticBuffer (o_Generation opts),
        p_accepted = 0, p_refused = 0, p_dialFailed = 0, p_stopped = False, p_handlers = 0, p_closed = []\<rparr>"
  have "tables_ok ?p0" by (simp add: tables_ok_def)
  note f = New_fold [of uni ds ?p0, folded New_def]
  have n: "New uni ds opts = ?p0\<lparr>p_admission := p_admission (New uni ds opts),
      p_durable := p_durable (New uni ds opts)\<rparr>"
    using f by (rule conjunct1)
  have t: "tables_ok (New uni ds opts)" and k: "fst ` set (p_durable (New uni ds opts)) = set (keys_of uni ds)"
    using f \<open>tables_ok ?p0\<close> by auto
  show "tables_ok (New uni ds opts)" "fst ` set (p_durable (New uni ds opts)) = set (keys_of uni ds)"
    by (fact t, fact k)
  show "p_grants (New uni ds opts) = []" "p_active (New uni ds opts) = []" "p_closed (New uni ds opts) = []"
    "p_sem (New uni ds opts) = 0" "p_handlers (New uni ds opts) = 0"
    "p_opts (New uni ds opts) = default_options opts" "p_rateCount (New uni ds opts) = 0"
    by (subst n, simp)+
qed

section \<open>Every event keeps the tables\<close>

lemma serve_accept_tables: "serve_accept now c p = (ok, q) \<Longrightarrow> same_tables p q"
  by (auto simp: serve_accept_def admitRate_def close_conn_def same_tables_def Let_def
      split: if_splits option.splits)

lemma tables_ok_begin:
  assumes "tables_ok p"
  shows "tables_ok (snd (handle_begin c p)) \<and> evolves p (snd (handle_begin c p))"
  using tables_ok_track [OF assms] by (auto simp: handle_begin_def split: prod.splits)

lemma same_tables_chain: "same_tables q r \<Longrightarrow> tables_ok q \<Longrightarrow> evolves p q \<Longrightarrow> tables_ok r \<and> evolves p r"
  using same_tables_ok evolves_trans by blast

lemma tables_ok_request:
  assumes "tables_ok p"
  shows "tables_ok (snd (handle_request uni parse stream now l ts i p))
    \<and> evolves p (snd (handle_request uni parse stream now l ts i p))"
proof -
  let ?e = "expireLocked now p"
  have e: "tables_ok ?e" "evolves p ?e" using tables_ok_expire [OF assms] by blast+
  have id: "tables_ok p \<and> evolves p p" using assms by (simp add: evolves_refl)
  have ref: "tables_ok (observe l ts x d (?e\<lparr>p_refused := n\<rparr>)) \<and> evolves p (observe l ts x d (?e\<lparr>p_refused := n\<rparr>))" for x d n
    by (rule same_tables_chain [OF _ e]) (simp add: same_tables_def)
  show ?thesis
    using id e ref by (auto simp: handle_request_def allowed_def Let_def split: option.splits sum.splits prod.splits)
qed

lemma tables_ok_dial:
  assumes "tables_ok p"
  shows "tables_ok (snd (snd (handle_dial lookup dial l ts i d a p)))
    \<and> evolves p (snd (snd (handle_dial lookup dial l ts i d a p)))"
proof -
  have "same_tables p (snd (snd (handle_dial lookup dial l ts i d a p)))"
    by (simp add: handle_dial_def same_tables_def split: prod.splits option.splits)
  then show ?thesis by (rule same_tables_ok [OF _ assms])
qed

lemma tables_ok_handle_bind:
  assumes "tables_ok p"
  shows "tables_ok (snd (handle_bind now l ts i d a out p)) \<and> evolves p (snd (handle_bind now l ts i d a out p))"
proof (cases "bindAdmission now i (Some out) a p")
  case (Pair ok q)
  have q: "tables_ok q" "evolves p q"
    using tables_ok_bind [OF assms Pair] by blast+
  have "same_tables q (snd (handle_bind now l ts i d a out p))"
    using Pair by (auto simp: handle_bind_def same_tables_def split: bool.splits)
  then show ?thesis using q by (rule same_tables_chain)
qed

lemma tables_ok_return:
  assumes "tables_ok p"
  shows "tables_ok (snd (handle_return c i out p)) \<and> evolves p (snd (handle_return c i out p))"
proof -
  let ?q = "case out of None \<Rightarrow> p | Some c \<Rightarrow> close_conn c p"
  have "same_tables p ?q"
    by (simp add: close_conn_def same_tables_def split: option.splits)
  then have "tables_ok ?q \<and> evolves p ?q" using assms by (rule same_tables_ok)
  then have u: "tables_ok (untrack i ?q)" "evolves p (untrack i ?q)"
    using tables_ok_untrack evolves_trans by blast+
  have "same_tables (untrack i ?q) (snd (handle_return c i out p))"
    by (simp add: handle_return_def Let_def close_conn_def same_tables_def)
  then show ?thesis using u by (rule same_tables_chain)
qed

lemma count_tables: "same_tables p (serve_count p)" "same_tables p (serve_release p)" "same_tables p (serve_uncount p)"
  by (simp_all add: same_tables_def serve_count_def serve_release_def serve_uncount_def)

lemmas tables_ok_ops = count_tables [THEN same_tables_ok] tables_ok_begin tables_ok_request tables_ok_dial tables_ok_handle_bind tables_ok_return
  tables_ok_timer tables_ok_Remove tables_ok_RevokeAll

lemma set_phase_proxy [simp]: "s_proxy (set_phase c r s) = snd r"
  by (simp add: set_phase_def)

lemma set_proxy_proxy [simp]: "s_proxy (set_proxy p s) = p"
  by (simp add: set_proxy_def)

lemma dialed_proxy [simp]: "s_proxy (dialed c d a r s) = snd (snd r)"
  by (simp add: dialed_def split: prod.splits)

lemma event_tables:
  assumes "tables_ok (s_proxy s)" and "apply_event uni parse e s = Some t"
  shows "tables_ok (s_proxy t) \<and> evolves (s_proxy s) (s_proxy t)"
proof (cases e)
  case (Accept c now)
  then obtain ok q where "serve_accept now c (s_proxy s) = (ok, q)" "s_proxy t = q"
    using assms(2) by (auto split: if_splits prod.splits bool.splits)
  with same_tables_ok [OF serve_accept_tables] assms(1) show ?thesis by metis
qed (use assms tables_ok_ops in \<open>auto split: option.splits phase.splits sum.splits if_splits
      intro: evolves_refl dest: tables_ok_Grant tables_ok_Reconcile\<close>)

interpretation tables: state_invariant "apply_event uni parse" any_event "is_start uni" "\<lambda>s. tables_ok (s_proxy s)"
  for uni parse
proof unfold_locales
  show "is_start uni s \<Longrightarrow> tables_ok (s_proxy s)" for s
    by (auto simp: is_start_def start_def New_facts)
  show "tables_ok (s_proxy s) \<Longrightarrow> any_event e s \<Longrightarrow> apply_event uni parse e s = Some t \<Longrightarrow> tables_ok (s_proxy t)" for e s t
    using event_tables by blast
qed

end
