(* ===== verification/Proxy_Safety.thy ===== *)
theory Proxy_Safety
  imports Proxy_System
begin

text \<open>
  Invariants of the proxy under every interleaving of its callers, and what follows from them: which
  tunnels may be open, what removal, reconciliation and revocation achieve, and how many handlers run.
\<close>

section \<open>Handlers and tracked connections\<close>

fun phase_id :: "phase \<Rightarrow> nat option" where
  "phase_id Acquired = None"
| "phase_id Accepted = None"
| "phase_id (Reading i) = Some i"
| "phase_id (Admitted i d a) = Some i"
| "phase_id (Dialed i d a out) = Some i"
| "phase_id (Relaying i d a out) = Some i"
| "phase_id (Returning i out) = Some i"
| "phase_id Leaving = None"
| "phase_id Released = None"
| "phase_id Finished = None"

fun phase_entry :: "phase \<Rightarrow> tracked \<Rightarrow> bool" where
  "phase_entry (Relaying i d a out) t = (t_admission t = a \<and> t_outbound t = Some out)"
| "phase_entry (Returning i out) t = True"
| "phase_entry ph t = (t_admission t = [])"

fun phase_admitted :: "(bytes \<Rightarrow> bytes) \<Rightarrow> nat \<Rightarrow> phase \<Rightarrow> bool" where
  "phase_admitted uni m (Admitted i d a) = (issued (key uni d) a m \<and> valid_destination d)"
| "phase_admitted uni m (Dialed i d a out) = (issued (key uni d) a m \<and> valid_destination d)"
| "phase_admitted uni m (Relaying i d a out) = (issued (key uni d) a m \<and> valid_destination d)"
| "phase_admitted uni m ph = True"

definition linked :: "(bytes \<Rightarrow> bytes) \<Rightarrow> (nat \<rightharpoonup> phase) \<Rightarrow> (nat \<rightharpoonup> tracked) \<Rightarrow> nat \<Rightarrow> bool" where
  "linked uni H A m =
     ((\<forall>c ph i. H c = Some ph \<longrightarrow> phase_id ph = Some i \<longrightarrow> (\<exists>t. A i = Some t \<and> t_conn t = c \<and> phase_entry ph t))
      \<and> (\<forall>i t. A i = Some t \<longrightarrow> (\<exists>ph. H (t_conn t) = Some ph \<and> phase_id ph = Some i))
      \<and> (\<forall>c ph. H c = Some ph \<longrightarrow> phase_admitted uni m ph))"

lemma phase_admitted_mono: "phase_admitted uni m ph \<Longrightarrow> m \<le> n \<Longrightarrow> phase_admitted uni n ph"
  by (cases ph) (auto intro: issued_mono)

lemma linked_mono: "linked uni H A m \<Longrightarrow> m \<le> n \<Longrightarrow> linked uni H A n"
  unfolding linked_def using phase_admitted_mono by blast

lemma linkedD:
  assumes "linked uni H A m"
  shows "H c = Some ph \<Longrightarrow> phase_id ph = Some i \<Longrightarrow> \<exists>t. A i = Some t \<and> t_conn t = c \<and> phase_entry ph t"
    and "A i = Some t \<Longrightarrow> \<exists>ph. H (t_conn t) = Some ph \<and> phase_id ph = Some i"
    and "H c = Some ph \<Longrightarrow> phase_admitted uni m ph"
  using assms unfolding linked_def by blast+

lemma linked_own:
  assumes "linked uni H A m" and "A i = Some t" and "H (t_conn t) = Some ph"
  shows "phase_id ph = Some i"
  using linkedD(2) [OF assms(1,2)] assms(3) by auto

lemma linked_update:
  assumes "linked uni H A m"
    and other: "\<And>i c' ph. A' i \<noteq> A i \<Longrightarrow> c' \<noteq> c \<Longrightarrow> H c' = Some ph \<Longrightarrow> phase_id ph \<noteq> Some i"
    and own: "\<And>i. phase_id ph' = Some i \<Longrightarrow> \<exists>t. A' i = Some t \<and> t_conn t = c \<and> phase_entry ph' t"
    and mine: "\<And>i t. A' i = Some t \<Longrightarrow> t_conn t = c \<Longrightarrow> phase_id ph' = Some i"
    and stay: "\<And>i t. A' i = Some t \<Longrightarrow> t_conn t \<noteq> c \<Longrightarrow> A i = Some t"
    and "phase_admitted uni m ph'"
  shows "linked uni (H(c \<mapsto> ph')) A' m"
  unfolding linked_def
proof (intro conjI allI impI)
  fix c' ph i
  assume h: "(H(c \<mapsto> ph')) c' = Some ph" and i: "phase_id ph = Some i"
  show "\<exists>t. A' i = Some t \<and> t_conn t = c' \<and> phase_entry ph t"
  proof (cases "c' = c")
    case True
    with h i own show ?thesis by simp
  next
    case False
    with h have h': "H c' = Some ph" by simp
    with i False other have "A' i = A i" by blast
    with linkedD(1) [OF assms(1) h' i] show ?thesis by simp
  qed
next
  fix i t
  assume t: "A' i = Some t"
  show "\<exists>ph. (H(c \<mapsto> ph')) (t_conn t) = Some ph \<and> phase_id ph = Some i"
  proof (cases "t_conn t = c")
    case True
    with mine [OF t] show ?thesis by simp
  next
    case False
    with linkedD(2) [OF assms(1) stay [OF t False]] show ?thesis by simp
  qed
next
  fix c' ph
  assume "(H(c \<mapsto> ph')) c' = Some ph"
  with linkedD(3) [OF assms(1)] assms(6) show "phase_admitted uni m ph"
    by (cases "c' = c") auto
qed

lemma linked_keep:
  assumes "linked uni H A m" and "H c = Some ph" and "phase_id ph' = phase_id ph"
    and "\<And>t. phase_entry ph t \<Longrightarrow> phase_entry ph' t" and "phase_admitted uni m ph'"
  shows "linked uni (H(c \<mapsto> ph')) A m"
proof (rule linked_update [OF assms(1)])
  show "\<exists>t. A i = Some t \<and> t_conn t = c \<and> phase_entry ph' t" if "phase_id ph' = Some i" for i
    using that linkedD(1) [OF assms(1,2)] assms(3,4) by auto
  show "phase_id ph' = Some i" if "A i = Some t" "t_conn t = c" for i t
    using that linked_own [OF assms(1)] assms(2,3) by auto
qed (simp_all add: assms(5))

lemma linked_accept:
  assumes "linked uni H A m" and "H c = None" and "phase_id ph = None" and "phase_admitted uni m ph"
  shows "linked uni (H(c \<mapsto> ph)) A m"
proof (rule linked_update [OF assms(1)])
  show "phase_id ph = Some i" if "A i = Some t" "t_conn t = c" for i t
    using that linkedD(2) [OF assms(1)] assms(2) by fastforce
qed (simp_all add: assms(3,4))

lemma linked_begin:
  assumes "linked uni H A m" and "H c = Some Accepted" and "A i = None" and "phase_id ph = Some i"
    and "t_conn t = c" and "phase_entry ph t" and "phase_admitted uni m ph"
  shows "linked uni (H(c \<mapsto> ph)) (A(i \<mapsto> t)) m"
proof (rule linked_update [OF assms(1)])
  fix j c' ph'
  assume "(A(i \<mapsto> t)) j \<noteq> A j" and "H c' = Some ph'"
  then show "phase_id ph' \<noteq> Some j"
    using linkedD(1) [OF assms(1), of c' ph' j] assms(3) by (auto split: if_splits)
next
  show "phase_id ph = Some j" if "(A(i \<mapsto> t)) j = Some t'" "t_conn t' = c" for j t'
    using that linked_own [OF assms(1), of j t' Accepted] assms(2,4) by (auto split: if_splits)
qed (use assms in \<open>auto split: if_splits\<close>)

lemma linked_bind:
  assumes "linked uni H A m" and "H c = Some ph" and "phase_id ph = Some i" and "phase_id ph' = Some i"
    and "A i = Some t" and "t_conn t' = t_conn t" and "phase_entry ph' t'" and "phase_admitted uni m ph'"
  shows "linked uni (H(c \<mapsto> ph')) (A(i \<mapsto> t')) m"
proof -
  have c: "t_conn t = c" using linkedD(1) [OF assms(1-3)] assms(5) by auto
  show ?thesis
  proof (rule linked_update [OF assms(1)])
    fix j c' ph''
    assume "(A(i \<mapsto> t')) j \<noteq> A j" and "c' \<noteq> c" and "H c' = Some ph''"
    then show "phase_id ph'' \<noteq> Some j"
      using linkedD(1) [OF assms(1), of c' ph'' j] assms(5) c by (auto split: if_splits)
  next
    show "phase_id ph' = Some j" if "(A(i \<mapsto> t')) j = Some u" "t_conn u = c" for j u
      using that linked_own [OF assms(1), of j u] assms(2,3,4) by (auto split: if_splits)
  qed (use assms c in \<open>auto split: if_splits\<close>)
qed

lemma linked_return:
  assumes "linked uni H A m" and "H c = Some ph" and "phase_id ph = Some i"
  shows "linked uni (H(c \<mapsto> Leaving)) (A(i := None)) m"
proof (rule linked_update [OF assms(1)])
  fix j c' ph'
  assume "(A(i := None)) j \<noteq> A j" and "c' \<noteq> c" and "H c' = Some ph'"
  then show "phase_id ph' \<noteq> Some j"
    using linkedD(1) [OF assms(1), of c' ph' j] linkedD(1) [OF assms] by (auto split: if_splits)
next
  show "phase_id Leaving = Some j" if "(A(i := None)) j = Some t" "t_conn t = c" for j t
    using that linked_own [OF assms(1), of j t] assms(2,3) by (auto split: if_splits)
qed (auto split: if_splits)

definition handlers_ok :: "(bytes \<Rightarrow> bytes) \<Rightarrow> system \<Rightarrow> bool" where
  "handlers_ok uni s = (tables_ok (s_proxy s)
     \<and> linked uni (map_of (s_handlers s)) (map_of (p_active (s_proxy s))) (p_admission (s_proxy s)))"

lemma expireLocked_active [simp]:
  "p_active (expireLocked now p) = p_active p" "p_admission (expireLocked now p) = p_admission p"
  "p_next (expireLocked now p) = p_next p" "p_opts (expireLocked now p) = p_opts p"
  "p_sem (expireLocked now p) = p_sem p" "p_handlers (expireLocked now p) = p_handlers p"
  "p_durable (expireLocked now p) = p_durable p" "p_rateCount (expireLocked now p) = p_rateCount p"
  by (simp_all add: expireLocked_def expire_loop_eq)

lemma requestDestination_Inr:
  assumes "requestDestination uni r = Inr (host, port)"
  obtains authority h portText where "SplitHostPort authority = Some (h, portText)" and "Atoi portText = Some port"
    and "1 \<le> port" and "port \<le> 65535" and "host = ToLower uni (TrimSuffix h ''.'')" and "naming_Host host = Inr ()"
proof -
  obtain authority where a: "(case SplitHostPort authority of
            None \<Rightarrow> Inl MissingPort
          | Some (host, portText) \<Rightarrow>
              (case Atoi portText of
                 None \<Rightarrow> Inl InvalidPort
               | Some port \<Rightarrow>
                   if port < 1 \<or> port > 65535 then Inl InvalidPort
                   else let h = ToLower uni (TrimSuffix host ''.'') in
                        (case naming_Host h of
                           Inl e \<Rightarrow> Inl (BadDestinationHost e)
                         | Inr _ \<Rightarrow> Inr (h, port)))) = Inr (host, port)"
    using assms unfolding requestDestination_def bind_result_Inr by blast
  obtain h pt where s: "SplitHostPort authority = Some (h, pt)"
    using a by (cases "SplitHostPort authority") auto
  obtain n where n: "Atoi pt = Some n" using a s by (cases "Atoi pt") auto
  have "naming_Host (ToLower uni (TrimSuffix h ''.'')) = Inr ()"
    using a s n by (cases "naming_Host (ToLower uni (TrimSuffix h ''.''))") (auto split: if_splits)
  with a s n that show thesis by (auto simp: Let_def split: if_splits)
qed

lemma requestDestination_valid:
  "requestDestination uni r = Inr (host, port) \<Longrightarrow> valid_destination \<lparr>dst_Host = host, dst_Port = port\<rparr>"
  by (erule requestDestination_Inr) (simp add: valid_destination_def)

lemma allowed_issued:
  assumes "tables_ok p" and "allowed uni now d p = (Some a, q)"
  shows "issued (key uni d) a (p_admission p)"
  using assms tables_ok_expire [OF assms(1), of now]
  by (auto simp: allowed_def Let_def tables_ok_def split: option.splits dest!: map_of_SomeD)

lemma handle_request_cases:
  "\<exists>d a. handle_request uni parse stream now l ts i p = (Admitted i d a, snd (allowed uni now d p))
         \<and> fst (allowed uni now d p) = Some a \<and> valid_destination d
   \<or> fst (handle_request uni parse stream now l ts i p) = Returning i None"
proof (cases "readProxyHeader (take headerReader_limit stream)")
  case (Some hr)
  obtain h rest where hr: "hr = (h, rest)" by (cases hr)
  show ?thesis
  proof (cases "parse h")
    case r: (Some r)
    show ?thesis
    proof (cases "requestDestination uni r")
      case (Inr hp)
      obtain host port where hp: "hp = (host, port)" by (cases hp)
      let ?d = "\<lparr>dst_Host = host, dst_Port = port\<rparr>"
      obtain ao q where al: "allowed uni now ?d p = (ao, q)" by (cases "allowed uni now ?d p")
      have "valid_destination ?d" using Inr requestDestination_valid by (simp add: hp)
      with Some r Inr al show ?thesis
        by (cases ao; intro exI [of _ ?d] exI [of _ "the ao"])
          (simp_all add: handle_request_def hr hp)
    qed (simp add: handle_request_def Some r hr)
  qed (simp add: handle_request_def Some hr)
qed (simp add: handle_request_def)

lemma handle_request_active [simp]:
  "p_active (snd (handle_request uni parse stream now l ts i p)) = p_active p"
  "p_admission (snd (handle_request uni parse stream now l ts i p)) = p_admission p"
  by (auto simp: handle_request_def allowed_def Let_def split: option.splits sum.splits prod.splits)

lemma handle_dial_cases:
  "(\<exists>out. fst (handle_dial lookup dial l ts i d a p) = Dialed i d a out)
   \<or> fst (handle_dial lookup dial l ts i d a p) = Returning i None"
  by (auto simp: handle_dial_def split: prod.splits option.splits)

lemma handle_dial_active [simp]:
  "p_active (snd (snd (handle_dial lookup dial l ts i d a p))) = p_active p"
  "p_admission (snd (snd (handle_dial lookup dial l ts i d a p))) = p_admission p"
  by (auto simp: handle_dial_def split: prod.splits option.splits)

lemma handlers_set_phase [simp]: "map_of (s_handlers (set_phase c r s)) = (map_of (s_handlers s))(c \<mapsto> fst r)"
  by (simp add: set_phase_def update_conv')

lemma handlers_set_proxy [simp]: "s_handlers (set_proxy p s) = s_handlers s"
  by (simp add: set_proxy_def)

lemma handlers_dialed [simp]: "map_of (s_handlers (dialed c d a r s)) = (map_of (s_handlers s))(c \<mapsto> fst r)"
  by (simp add: dialed_def split: prod.splits)

lemma active_policy [simp]:
  "p_active (expireGrant k i p) = p_active p" "p_active (Remove uni d p) = p_active p"
  "p_active (RevokeAll p) = p_active p"
  "p_admission (expireGrant k i p) = p_admission p" "p_admission (Remove uni d p) = p_admission p"
  "p_admission (RevokeAll p) = p_admission p"
  by (simp_all add: expireGrant_eq Remove_eq RevokeAll_eq split: option.splits)

lemma active_Grant:
  "Grant uni now d duration p = Inr q \<Longrightarrow> p_active q = p_active p \<and> p_admission p \<le> p_admission q"
  by (auto simp: Grant_def newAdmissionLocked_def Let_def split: if_splits)

lemma active_Reconcile:
  "Reconcile uni order ds p = Inr q \<Longrightarrow> p_active q = p_active p \<and> p_admission p \<le> p_admission q"
  by (erule Reconcile_cases) simp

lemma next_unused: "tables_ok p \<Longrightarrow> map_of (p_active p) (p_next p + 1) = None"
  by (force simp: tables_ok_def map_of_eq_None_iff)

lemma bindAdmission_cases:
  "(\<exists>t. map_of (p_active p) i = Some t \<and> a \<in> current_ids (expireLocked now p)
     \<and> bindAdmission now i out a p = (True, (expireLocked now p)\<lparr>p_active :=
         AList.update i (t\<lparr>t_outbound := out, t_admission := a\<rparr>) (p_active p)\<rparr>))
   \<or> bindAdmission now i out a p = (False, expireLocked now p)"
  by (cases "map_of (p_active p) i")
    (auto simp: bindAdmission_def Let_def admissionCurrentLocked_iff)

lemma event_linked:
  assumes "handlers_ok uni s" and "apply_event uni parse e s = Some t"
  shows "linked uni (map_of (s_handlers t)) (map_of (p_active (s_proxy t))) (p_admission (s_proxy t))"
proof -
  let ?p = "s_proxy s"
  have ok: "tables_ok ?p" and L: "linked uni (map_of (s_handlers s)) (map_of (p_active ?p)) (p_admission ?p)"
    using assms(1) by (simp_all add: handlers_ok_def)
  show ?thesis
  proof (cases e)
    case (Accept c now)
    then obtain started q where q: "serve_accept now c ?p = (started, q)" "map_of (s_handlers s) c = None"
      "t = set_phase c (if started then Acquired else Finished, q) s"
      using assms(2) by (auto simp: fresh_conn_def split: if_splits prod.splits bool.splits)
    with linked_accept [OF L q(2), of "if started then Acquired else Finished"] serve_accept_tables [OF q(1)]
    show ?thesis by (simp add: same_tables_def split: if_splits)
  next
    case (Count c)
    then have c: "map_of (s_handlers s) c = Some Acquired" and t: "t = set_phase c (Accepted, serve_count ?p) s"
      using assms(2) by (auto split: option.splits phase.splits)
    with linked_keep [OF L c, of Accepted] show ?thesis by (simp add: serve_count_def)
  next
    case (Release c)
    then have c: "map_of (s_handlers s) c = Some Leaving" and t: "t = set_phase c (Released, serve_release ?p) s"
      using assms(2) by (auto split: option.splits phase.splits)
    with linked_keep [OF L c, of Released] show ?thesis by (simp add: serve_release_def)
  next
    case (Uncount c)
    then have c: "map_of (s_handlers s) c = Some Released" and t: "t = set_phase c (Finished, serve_uncount ?p) s"
      using assms(2) by (auto split: option.splits phase.splits)
    with linked_keep [OF L c, of Finished] show ?thesis by (simp add: serve_uncount_def)
  next
    case (Begin c)
    then have c: "map_of (s_handlers s) c = Some Accepted" and t: "t = set_phase c (handle_begin c ?p) s"
      using assms(2) by (auto split: option.splits phase.splits)
    show ?thesis
      unfolding t using linked_begin [OF L c next_unused [OF ok]]
      by (auto simp: handle_begin_def track_def Let_def update_conv')
  next
    case (Request c stream now l ts)
    then obtain i where c: "map_of (s_handlers s) c = Some (Reading i)"
      and t: "t = set_phase c (handle_request uni parse stream now l ts i ?p) s"
      using assms(2) by (auto split: option.splits phase.splits)
    have "linked uni ((map_of (s_handlers s))(c \<mapsto> fst (handle_request uni parse stream now l ts i ?p)))
        (map_of (p_active ?p)) (p_admission ?p)"
      using handle_request_cases [of uni parse stream now l ts i ?p]
    proof (elim exE disjE conjE)
      fix d a
      assume h: "handle_request uni parse stream now l ts i ?p = (Admitted i d a, snd (allowed uni now d ?p))"
        and "fst (allowed uni now d ?p) = Some a" and "valid_destination d"
      then have "issued (key uni d) a (p_admission ?p)"
        using allowed_issued [OF ok] by (metis prod.collapse)
      with h \<open>valid_destination d\<close> show ?thesis by (intro linked_keep [OF L c]) simp_all
    qed (auto intro!: linked_keep [OF L c])
    then show ?thesis unfolding t by simp
  next
    case (Dial c lookup dial l ts)
    then obtain i d a where c: "map_of (s_handlers s) c = Some (Admitted i d a)"
      and t: "t = dialed c d a (handle_dial (map_of lookup) (map_of dial) l ts i d a ?p) s"
      using assms(2) by (auto split: option.splits phase.splits)
    have "linked uni ((map_of (s_handlers s))(c \<mapsto> fst (handle_dial (map_of lookup) (map_of dial) l ts i d a ?p)))
        (map_of (p_active ?p)) (p_admission ?p)"
      using handle_dial_cases [of "map_of lookup" "map_of dial" l ts i d a ?p] linkedD(3) [OF L c]
      by (intro linked_keep [OF L c]) auto
    then show ?thesis unfolding t by simp
  next
    case (Bind c now l ts)
    then obtain i d a out where c: "map_of (s_handlers s) c = Some (Dialed i d a out)"
      and t: "t = set_phase c (handle_bind now l ts i d a out ?p) s"
      using assms(2) by (auto split: option.splits phase.splits)
    have adm: "issued (key uni d) a (p_admission ?p)" "valid_destination d"
      using linkedD(3) [OF L c] by simp_all
    from bindAdmission_cases [of ?p i a now "Some out"] show ?thesis
    proof (elim exE disjE conjE)
      fix tr
      assume "map_of (p_active ?p) i = Some tr" and "bindAdmission now i (Some out) a ?p = (True, (expireLocked now ?p)\<lparr>p_active :=
         AList.update i (tr\<lparr>t_outbound := Some out, t_admission := a\<rparr>) (p_active ?p)\<rparr>)"
      with linked_bind [OF L c, of i "Relaying i d a out" tr "tr\<lparr>t_outbound := Some out, t_admission := a\<rparr>"] adm
      show ?thesis unfolding t by (simp add: handle_bind_def update_conv')
    next
      assume "bindAdmission now i (Some out) a ?p = (False, expireLocked now ?p)"
      with linked_keep [OF L c, of "Returning i (Some out)"] show ?thesis unfolding t by (simp add: handle_bind_def)
    qed
  next
    case (RelayEnds c)
    then obtain i d a out where c: "map_of (s_handlers s) c = Some (Relaying i d a out)"
      and t: "t = set_phase c (Returning i (Some out), ?p) s"
      using assms(2) by (auto split: option.splits phase.splits)
    with linked_keep [OF L c, of "Returning i (Some out)"] show ?thesis by simp
  next
    case (Return c)
    then obtain i out where c: "map_of (s_handlers s) c = Some (Returning i out)"
      and t: "t = set_phase c (handle_return c i out ?p) s"
      using assms(2) by (auto split: option.splits phase.splits)
    with linked_return [OF L c, of i] show ?thesis
      by (simp add: handle_return_def Let_def untrack_def close_conn_def delete_conv' split: option.splits)
  qed (use assms(2) L in \<open>auto split: option.splits sum.splits if_splits intro: linked_mono
        dest!: active_Grant active_Reconcile\<close>)
qed

lemma is_start_facts:
  "is_start uni s \<Longrightarrow> s_handlers s = [] \<and> p_active (s_proxy s) = [] \<and> p_closed (s_proxy s) = []
     \<and> tables_ok (s_proxy s) \<and> p_sem (s_proxy s) = 0 \<and> p_handlers (s_proxy s) = 0 \<and> s_dials s = []
     \<and> 0 < o_MaxConnections (p_opts (s_proxy s)) \<and> 0 < o_ConnectionsPerSecond (p_opts (s_proxy s))
     \<and> p_rateCount (s_proxy s) = 0"
  by (auto simp: is_start_def start_def New_facts default_options_def)

interpretation handlers: state_invariant "apply_event uni parse" any_event "is_start uni" "handlers_ok uni"
  for uni parse
proof unfold_locales
  show "is_start uni s \<Longrightarrow> handlers_ok uni s" for s
    by (simp add: is_start_facts handlers_ok_def linked_def)
  show "handlers_ok uni s \<Longrightarrow> any_event e s \<Longrightarrow> apply_event uni parse e s = Some t \<Longrightarrow> handlers_ok uni t" for e s t
    using event_tables event_linked unfolding handlers_ok_def by blast
qed

section \<open>Open tunnels\<close>

text \<open>Every tracked connection that is bound to an admission is closed or its admission is current.\<close>

definition open_ok :: "Proxy \<Rightarrow> bool" where
  "open_ok p = (\<forall>i t. (i, t) \<in> set (p_active p) \<longrightarrow> t_admission t \<noteq> []
     \<longrightarrow> t_conn t \<in> set (p_closed p) \<or> t_admission t \<in> current_ids p)"

lemma open_ok_frame:
  assumes "open_ok p" and "set (p_active q) \<subseteq> set (p_active p)" and "set (p_closed p) \<subseteq> set (p_closed q)"
    and "current_ids p \<subseteq> current_ids q"
  shows "open_ok q"
  using assms unfolding open_ok_def by blast

lemma open_ok_drop:
  assumes "open_ok p" and "p_active q = p_active p" and "set (p_closed p) \<subseteq> set (p_closed q)"
    and "\<And>i t. (i, t) \<in> set (p_active p) \<Longrightarrow> t_admission t \<in> current_ids p - current_ids q
      \<Longrightarrow> t_conn t \<in> set (p_closed q)"
  shows "open_ok q"
  using assms unfolding open_ok_def by (metis DiffI subsetD)

lemma open_ok_expire:
  assumes "tables_ok p" and "open_ok p"
  shows "open_ok (expireLocked now p)"
proof -
  have eq: "expireLocked now p = p\<lparr>p_grants := filter (\<lambda>(k, g). g_expires g > now) (p_grants p),
      p_closed := expired_conns (expired now (p_grants p)) (p_active p) @ p_closed p\<rparr>"
    using assms(1) by (intro expireLocked_eq) (simp add: tables_ok_def)
  show ?thesis
  proof (rule open_ok_drop [OF assms(2)])
    fix i t
    assume t: "(i, t) \<in> set (p_active p)" and a: "t_admission t \<in> current_ids p - current_ids (expireLocked now p)"
    from a obtain k g where "(k, g) \<in> set (p_grants p)" "g_id g = t_admission t" "\<not> g_expires g > now"
      by (force simp: current_ids_def eq)
    then have "(k, g) \<in> set (expired now (p_grants p))" by (simp add: expired_def)
    with t \<open>g_id g = t_admission t\<close> show "t_conn t \<in> set (p_closed (expireLocked now p))"
      using expired_conns_conn by (simp add: eq)
  qed (simp_all add: eq)
qed

lemma map_of_distinct: "distinct (map fst xs) \<Longrightarrow> map_of xs k = Some v \<longleftrightarrow> (k, v) \<in> set xs"
  by simp

lemma open_ok_timer:
  assumes "tables_ok p" and "open_ok p"
  shows "open_ok (expireGrant k a p)"
proof -
  let ?q = "p\<lparr>p_grants := AList.delete k (p_grants p),
        p_closed := rev (map (t_conn \<circ> snd) (filter (\<lambda>(j, t). t_admission t = a) (p_active p))) @ p_closed p\<rparr>"
  have "open_ok ?q" if g: "map_of (p_grants p) k = Some g" "g_id g = a" for g
  proof (rule open_ok_drop [OF assms(2)])
    fix i t
    assume t: "(i, t) \<in> set (p_active p)" and d: "t_admission t \<in> current_ids p - current_ids ?q"
    then obtain g' where "(k, g') \<in> set (p_grants p)" "g_id g' = t_admission t"
      by (force simp: current_ids_def set_alist_delete)
    with g assms(1) have "t_admission t = a" by (auto simp: tables_ok_def)
    with t show "t_conn t \<in> set (p_closed ?q)" by force
  qed simp_all
  then show ?thesis
    using assms(2) by (simp add: expireGrant_eq split: option.splits)
qed

lemma open_ok_Remove:
  assumes "tables_ok p" and "open_ok p"
  shows "open_ok (Remove uni d p)"
proof (rule open_ok_drop [OF assms(2)])
  let ?k = "key uni d"
  fix i t
  assume t: "(i, t) \<in> set (p_active p)" and "t_admission t \<in> current_ids p - current_ids (Remove uni d p)"
  then have "(?k, t_admission t) \<in> set (p_durable p) \<or> (\<exists>g. (?k, g) \<in> set (p_grants p) \<and> g_id g = t_admission t)"
    by (force simp: current_ids_def Remove_eq set_alist_delete)
  with assms(1) have "map_of (p_durable p) ?k = Some (t_admission t)
      \<or> map_option g_id (map_of (p_grants p) ?k) = Some (t_admission t)"
    by (auto simp: tables_ok_def)
  with t show "t_conn t \<in> set (p_closed (Remove uni d p))"
    by (simp add: Remove_eq closing_conn)
qed (simp_all add: Remove_eq)

text \<open>After \<^verbatim>\<open>Reconcile\<close> and \<^verbatim>\<open>RevokeAll\<close> it holds whatever the state was before.\<close>

lemma open_ok_Reconcile: "Reconcile uni order ds p = Inr q \<Longrightarrow> open_ok q"
proof (erule Reconcile_cases)
  fix r m
  assume q: "q = p\<lparr>p_admission := m, p_durable := r, p_grants := [],
      p_closed := closing (\<lambda>a. a \<noteq> [] \<and> a \<notin> snd ` set r) (p_active p) @ p_closed p\<rparr>"
  have "t_conn t \<in> set (closing (\<lambda>a. a \<noteq> [] \<and> a \<notin> snd ` set r) (p_active p)) \<or> t_admission t \<in> snd ` set r"
    if "(i, t) \<in> set (p_active p)" "t_admission t \<noteq> []" for i t
    using that closing_conn [of i t "p_active p" "\<lambda>a. a \<noteq> [] \<and> a \<notin> snd ` set r"] by blast
  then show "open_ok q"
    unfolding open_ok_def q current_ids_def by (auto simp del: image_iff)
qed

lemma open_ok_RevokeAll: "open_ok (RevokeAll p)"
  unfolding open_ok_def RevokeAll_eq using closing_conn [where P = "\<lambda>_. True"] by auto

lemma open_ok_Grant:
  assumes "open_ok p" and "Grant uni now d duration p = Inr q" and "map_of (p_grants p) (key uni d) = None"
  shows "open_ok q"
proof (rule open_ok_frame [OF assms(1)])
  have "AList.update k v al = al @ [(k, v)]" if "map_of al k = None" for k v and al :: "(bytes \<times> grant) list"
    using that by (induction al) (auto split: if_splits)
  then show "current_ids p \<subseteq> current_ids q"
    using assms(2,3) by (auto simp: Grant_def newAdmissionLocked_def Let_def current_ids_def split: if_splits)
qed (use assms(2) in \<open>auto simp: Grant_def newAdmissionLocked_def Let_def split: if_splits\<close>)

lemma open_ok_track:
  "open_ok p \<Longrightarrow> tables_ok p \<Longrightarrow> open_ok (snd (track c p))"
  unfolding open_ok_def track_def Let_def
  by (auto simp: alist_simps tables_ok_def current_ids_def)

lemma open_ok_bind:
  assumes "tables_ok p" and "open_ok p"
  shows "open_ok (snd (bindAdmission now i out a p))"
proof -
  have e: "open_ok (expireLocked now p)" "distinct (map fst (p_active p))"
    using open_ok_expire [OF assms] assms(1) by (simp_all add: tables_ok_def)
  then show ?thesis
    using bindAdmission_cases [of p i a now out]
    by (elim disjE exE conjE) (auto simp: open_ok_def current_ids_def alist_simps)
qed

lemma open_ok_request:
  assumes "tables_ok p" and "open_ok p"
  shows "open_ok (snd (handle_request uni parse stream now l ts i p))"
proof -
  have e: "open_ok (expireLocked now p)" by (rule open_ok_expire [OF assms])
  then have "open_ok (observe l ts x d ((expireLocked now p)\<lparr>p_refused := n\<rparr>))" for x d n
    by (simp add: open_ok_def current_ids_def)
  with e assms(2) show ?thesis
    by (auto simp: handle_request_def allowed_def Let_def split: option.splits sum.splits prod.splits)
qed

lemma open_ok_same:
  "open_ok p \<Longrightarrow> same_tables p q \<Longrightarrow> set (p_closed p) \<subseteq> set (p_closed q) \<Longrightarrow> open_ok q"
  by (rule open_ok_frame) (auto simp: same_tables_def current_ids_def)

lemma serve_accept_closed: "serve_accept now c p = (ok, q) \<Longrightarrow> set (p_closed p) \<subseteq> set (p_closed q)"
  by (auto simp: serve_accept_def admitRate_def close_conn_def Let_def split: if_splits option.splits)

lemma event_open:
  assumes "tables_ok (s_proxy s)" and "open_ok (s_proxy s)" and "no_regrant uni e s"
    and "apply_event uni parse e s = Some t"
  shows "open_ok (s_proxy t)"
proof (cases e)
  case (Accept c now)
  then obtain ok q where q: "serve_accept now c (s_proxy s) = (ok, q)" "s_proxy t = q"
    using assms(4) by (auto split: if_splits prod.splits bool.splits)
  then show ?thesis
    using open_ok_same [OF assms(2) serve_accept_tables [OF q(1)] serve_accept_closed [OF q(1)]] by simp
next
  case (Begin c)
  then have "s_proxy t = snd (handle_begin c (s_proxy s))"
    using assms(4) by (auto split: option.splits phase.splits)
  then show ?thesis
    using open_ok_track [OF assms(2,1), of c] by (simp add: handle_begin_def split: prod.splits)
next
  case (Request c stream now l ts)
  then show ?thesis
    using assms open_ok_request by (auto split: option.splits phase.splits)
next
  case (Dial c lookup dial l ts)
  then obtain i d a where "s_proxy t = snd (snd (handle_dial (map_of lookup) (map_of dial) l ts i d a (s_proxy s)))"
    using assms(4) by (auto split: option.splits phase.splits)
  moreover have "open_ok (snd (snd (handle_dial (map_of lookup) (map_of dial) l ts i d a (s_proxy s))))"
    by (rule open_ok_same [OF assms(2)])
      (simp_all add: handle_dial_def same_tables_def split: prod.splits option.splits)
  ultimately show ?thesis by simp
next
  case (Bind c now l ts)
  then obtain i d a out where t: "s_proxy t = snd (handle_bind now l ts i d a out (s_proxy s))"
    using assms(4) by (auto split: option.splits phase.splits)
  obtain ok q where q: "bindAdmission now i (Some out) a (s_proxy s) = (ok, q)"
    by (cases "bindAdmission now i (Some out) a (s_proxy s)")
  with open_ok_bind [OF assms(1,2), of now i "Some out" a] have "open_ok q" by simp
  then show ?thesis
    unfolding t by (rule open_ok_same) (simp_all add: handle_bind_def q same_tables_def split: bool.splits)
next
  case (RelayEnds c)
  then show ?thesis
    using assms by (auto split: option.splits phase.splits)
next
  case (Return c)
  then obtain i out where t: "s_proxy t = snd (handle_return c i out (s_proxy s))"
    using assms(4) by (auto split: option.splits phase.splits)
  show ?thesis
    unfolding t by (rule open_ok_frame [OF assms(2)])
      (auto simp: handle_return_def Let_def untrack_def close_conn_def set_alist_delete current_ids_def split: option.splits)
next
  case (Count c)
  then show ?thesis
    using assms(4) open_ok_same [OF assms(2) count_tables(1)] by (auto simp: serve_count_def split: option.splits phase.splits)
next
  case (Release c)
  then show ?thesis
    using assms(4) open_ok_same [OF assms(2) count_tables(2)] by (auto simp: serve_release_def split: option.splits phase.splits)
next
  case (Uncount c)
  then show ?thesis
    using assms(4) open_ok_same [OF assms(2) count_tables(3)] by (auto simp: serve_uncount_def split: option.splits phase.splits)
next
  case (GrantFor d duration now)
  then show ?thesis
    using assms open_ok_Grant by (auto simp: no_regrant_def split: sum.splits)
next
  case (Timer k i)
  then show ?thesis using assms open_ok_timer by auto
next
  case (RemoveFor d)
  then show ?thesis using assms open_ok_Remove by auto
next
  case (ReconcileTo order ds)
  then show ?thesis
    using assms(4) open_ok_Reconcile by (auto split: sum.splits if_splits)
next
  case Revoke
  then show ?thesis using assms(4) open_ok_RevokeAll by auto
qed

interpretation tunnels: state_invariant "apply_event uni parse" "no_regrant uni" "is_start uni"
    "\<lambda>s. handlers_ok uni s \<and> open_ok (s_proxy s)"
  for uni parse
proof unfold_locales
  show "is_start uni s \<Longrightarrow> handlers_ok uni s \<and> open_ok (s_proxy s)" for s
    using handlers.inv_init by (simp add: is_start_facts open_ok_def)
  show "handlers_ok uni s \<and> open_ok (s_proxy s) \<Longrightarrow> no_regrant uni e s \<Longrightarrow> apply_event uni parse e s = Some t
      \<Longrightarrow> handlers_ok uni t \<and> open_ok (s_proxy t)" for e s t
    using handlers.inv_step [of uni s e parse t] event_open [of s uni e parse t]
    by (auto simp: any_event_def handlers_ok_def)
qed

section \<open>Bounds on concurrency\<close>

text \<open>The connections that have a token, and those that the counter of handlers includes.\<close>

definition has_token :: "phase \<Rightarrow> bool" where
  "has_token ph = (ph \<noteq> Released \<and> ph \<noteq> Finished)"

definition is_counted :: "phase \<Rightarrow> bool" where
  "is_counted ph = (ph \<noteq> Acquired \<and> ph \<noteq> Finished)"

definition conns_in :: "(phase \<Rightarrow> bool) \<Rightarrow> (nat \<rightharpoonup> phase) \<Rightarrow> nat set" where
  "conns_in P H = {c. \<exists>ph. H c = Some ph \<and> P ph}"

definition limits :: "Proxy \<Rightarrow> nat \<times> nat \<times> Options \<times> int" where
  "limits p = (p_sem p, p_handlers p, p_opts p, p_rateCount p)"

definition bounded :: "system \<Rightarrow> bool" where
  "bounded s = (p_sem (s_proxy s) = card (conns_in has_token (map_of (s_handlers s)))
     \<and> p_handlers (s_proxy s) = card (conns_in is_counted (map_of (s_handlers s)))
     \<and> int (p_sem (s_proxy s)) \<le> o_MaxConnections (p_opts (s_proxy s))
     \<and> p_rateCount (s_proxy s) \<le> o_ConnectionsPerSecond (p_opts (s_proxy s))
     \<and> 0 < o_ConnectionsPerSecond (p_opts (s_proxy s)))"

lemma finite_conns_in: "finite (conns_in P (map_of xs))"
  by (rule finite_subset [of _ "dom (map_of xs)"]) (auto simp: conns_in_def finite_dom_map_of)

lemma conns_in_update: "conns_in P (H(c \<mapsto> ph)) = (if P ph then insert c (conns_in P H) else conns_in P H - {c})"
  by (auto simp: conns_in_def)

lemma mem_conns_in: "H c = Some ph \<Longrightarrow> c \<in> conns_in P H \<longleftrightarrow> P ph"
  by (simp add: conns_in_def)

lemma fresh_conns_in: "H c = None \<Longrightarrow> c \<notin> conns_in P H"
  by (simp add: conns_in_def)

lemma conns_in_keep: "H c = Some ph \<Longrightarrow> P ph' = P ph \<Longrightarrow> conns_in P (H(c \<mapsto> ph')) = conns_in P H"
  by (auto simp: conns_in_def)

lemma limits_ops [simp]:
  "limits (expireLocked now p) = limits p"
  "limits (snd (track c p)) = limits p"
  "limits (snd (handle_begin c p)) = limits p"
  "limits (snd (handle_request uni parse stream now l ts i p)) = limits p"
  "limits (snd (snd (handle_dial lookup dial l ts i d a p))) = limits p"
  "limits (snd (handle_return c i out p)) = limits p"
  "limits (expireGrant k a p) = limits p"
  "limits (Remove uni d p) = limits p"
  "limits (RevokeAll p) = limits p"
  by (auto simp: limits_def track_def handle_begin_def handle_request_def allowed_def handle_dial_def observe_def
      handle_return_def untrack_def close_conn_def expireGrant_eq Remove_eq RevokeAll_eq Let_def
      split: option.splits sum.splits prod.splits)

lemma limits_bind [simp]: "limits (snd (handle_bind now l ts i d a out p)) = limits p"
  using bindAdmission_cases [of p i a now "Some out"]
  by (elim disjE exE conjE) (simp_all add: limits_def handle_bind_def observe_def)

lemma limits_Grant: "Grant uni now d duration p = Inr q \<Longrightarrow> limits q = limits p"
  by (auto simp: Grant_def newAdmissionLocked_def limits_def Let_def split: if_splits)

lemma limits_Reconcile: "Reconcile uni order ds p = Inr q \<Longrightarrow> limits q = limits p"
  by (erule Reconcile_cases) (simp add: limits_def)

text \<open>A phase in which a handler is at work: it has its token and is counted.\<close>

definition at_work :: "phase \<Rightarrow> bool" where
  "at_work ph = (has_token ph \<and> is_counted ph)"

lemma bounded_work:
  assumes "bounded s" and "map_of (s_handlers s) c = Some ph" and "at_work ph" and "at_work (fst r)"
    and "limits (snd r) = limits (s_proxy s)"
  shows "bounded (set_phase c r s)"
  using assms by (simp add: bounded_def limits_def at_work_def conns_in_keep)

lemma bounded_dialed:
  assumes "bounded s" and "map_of (s_handlers s) c = Some ph" and "at_work ph" and "at_work (fst r)"
    and "limits (snd (snd r)) = limits (s_proxy s)"
  shows "bounded (dialed c d a r s)"
  using assms by (simp add: bounded_def limits_def at_work_def conns_in_keep)

lemma bounded_same:
  assumes "bounded s" and "limits (s_proxy t) = limits (s_proxy s)" and "s_handlers t = s_handlers s"
  shows "bounded t"
  using assms by (simp add: bounded_def limits_def)

lemma working_phases [simp]:
  "at_work Accepted" "at_work (Reading i)" "at_work (Admitted i d a)" "at_work (Dialed i d a out)"
  "at_work (Relaying i d a out)" "at_work (Returning i r)" "at_work Leaving"
  by (simp_all add: at_work_def has_token_def is_counted_def)

lemma working_steps:
  "at_work (fst (handle_begin c p))"
  "at_work (fst (handle_request uni parse stream now l ts i p))"
  "at_work (fst (handle_dial lookup dial l ts i d a p))"
  "at_work (fst (handle_bind now l ts i d a out p))"
  "at_work (fst (handle_return c i r p))"
  using handle_request_cases [of uni parse stream now l ts i p] handle_dial_cases [of lookup dial l ts i d a p]
    bindAdmission_cases [of p i a now "Some out"]
  by (auto simp: handle_begin_def handle_bind_def handle_return_def split: prod.splits)

lemma event_bounded_accept:
  assumes "bounded s" and "apply_event uni parse (Accept c now) s = Some t"
  shows "bounded t"
proof -
  obtain started q where q: "serve_accept now c (s_proxy s) = (started, q)" "map_of (s_handlers s) c = None"
      "t = set_phase c (if started then Acquired else Finished, q) s"
    using assms(2) by (auto simp: fresh_conn_def split: if_splits prod.splits bool.splits)
  with assms(1) fresh_conns_in [of "map_of (s_handlers s)" c] finite_conns_in [of _ "s_handlers s"] show ?thesis
    by (auto simp: bounded_def serve_accept_def admitRate_def close_conn_def Let_def conns_in_update has_token_def is_counted_def
        split: if_splits option.splits)
qed

lemma event_bounded_count:
  assumes "bounded s" and "apply_event uni parse e s = Some t" and "e = Count c \<or> e = Release c \<or> e = Uncount c"
  shows "bounded t"
  using assms mem_conns_in [of "map_of (s_handlers s)" c] finite_conns_in [of _ "s_handlers s"]
  by (auto simp: bounded_def serve_count_def serve_release_def serve_uncount_def conns_in_update has_token_def is_counted_def
      insert_absorb split: option.splits phase.splits)

lemma event_bounded:
  assumes "bounded s" and "apply_event uni parse e s = Some t"
  shows "bounded t"
proof (cases e)
  case (Accept c now)
  with assms event_bounded_accept show ?thesis by blast
next
  case (GrantFor d duration now)
  with assms(2) show ?thesis
    by (auto split: sum.splits dest: limits_Grant intro!: bounded_same [OF assms(1)])
next
  case (ReconcileTo order ds)
  with assms(2) show ?thesis
    by (auto split: sum.splits if_splits dest: limits_Reconcile intro!: bounded_same [OF assms(1)])
next
  case (Count c)
  with assms event_bounded_count show ?thesis by blast
next
  case (Release c)
  with assms event_bounded_count show ?thesis by blast
next
  case (Uncount c)
  with assms event_bounded_count show ?thesis by blast
next
  case (Timer k i)
  with assms(2) show ?thesis by (auto intro!: bounded_same [OF assms(1)])
next
  case (RemoveFor d)
  with assms(2) show ?thesis by (auto intro!: bounded_same [OF assms(1)])
next
  case Revoke
  with assms(2) show ?thesis by (auto intro!: bounded_same [OF assms(1)])
qed (use assms(2) in \<open>auto split: option.splits phase.splits intro!: bounded_work [OF assms(1)] bounded_dialed [OF assms(1)] working_steps\<close>)

interpretation limits: state_invariant "apply_event uni parse" any_event "is_start uni" bounded
  for uni parse
proof unfold_locales
  show "is_start uni s \<Longrightarrow> bounded s" for s
    by (auto simp: is_start_facts bounded_def conns_in_def dest!: is_start_facts)
  show "bounded s \<Longrightarrow> any_event e s \<Longrightarrow> apply_event uni parse e s = Some t \<Longrightarrow> bounded t" for e s t
    by (rule event_bounded)
qed

end
