(* ===== verification/Proxy_Properties.thy ===== *)
theory Proxy_Properties
  imports Proxy_Safety
begin

text \<open>
  The promises of the proxy, for every interleaving of its accept loop, handlers, timers and control
  operations, with a run of the model on which each of them can be observed.
\<close>

section \<open>Facts about one state\<close>

lemma handler_bound:
  assumes "handlers_ok uni s" and "map_of (s_handlers s) c = Some (Relaying i d a out)"
  shows "\<exists>t. (i, t) \<in> set (p_active (s_proxy s)) \<and> t_conn t = c \<and> t_admission t = a \<and> t_outbound t = Some out
    \<and> issued (key uni d) a (p_admission (s_proxy s))"
proof -
  have L: "linked uni (map_of (s_handlers s)) (map_of (p_active (s_proxy s))) (p_admission (s_proxy s))"
    using assms(1) by (simp add: handlers_ok_def)
  from linkedD(1) [OF L assms(2), of i] linkedD(3) [OF L assms(2)] show ?thesis
    by (auto dest: map_of_SomeD)
qed

text \<open>An identity that is current and was issued for a key is recorded under that key.\<close>

lemma current_under_key:
  assumes "tables_ok p" and "a \<in> current_ids p" and "issued k a n"
  shows "map_of (p_durable p) k = Some a \<or> map_option g_id (map_of (p_grants p) k) = Some a"
proof -
  consider k' where "(k', a) \<in> set (p_durable p)" | k' g where "(k', g) \<in> set (p_grants p)" "g_id g = a"
    using assms(2) by (auto simp: current_ids_def)
  then show ?thesis
  proof cases
    case 1
    with assms(1) have "issued k' a (p_admission p)" by (simp add: tables_ok_def)
    with assms(3) issued_key have "k' = k" by blast
    with 1 assms(1) show ?thesis by (simp add: tables_ok_def)
  next
    case 2
    with assms(1) have "issued k' a (p_admission p)" by (auto simp: tables_ok_def)
    with assms(3) issued_key have "k' = k" by blast
    with 2 assms(1) show ?thesis by (simp add: tables_ok_def)
  qed
qed

lemma bind_needs_current:
  assumes "tables_ok p" and "a \<notin> current_ids p"
  shows "\<not> fst (bindAdmission now i out a p)"
proof -
  have "current_ids (expireLocked now p) \<subseteq> current_ids p"
    using assms(1) expireLocked_eq [of p now] by (auto simp: tables_ok_def current_ids_def)
  with assms(2) bindAdmission_cases [of p i a now out] show ?thesis by auto
qed

lemma refused_without_entry:
  assumes "tables_ok p" and "map_of (p_durable p) (key uni d) = None" and "map_of (p_grants p) (key uni d) = None"
  shows "fst (allowed uni now d p) = None"
proof -
  have "p_grants (expireLocked now p) = filter (\<lambda>(k, g). g_expires g > now) (p_grants p)"
    using assms(1) expireLocked_eq [of p now] by (simp add: tables_ok_def)
  then have "map_of (p_grants (expireLocked now p)) (key uni d) = None"
    using assms(3) by (auto simp: map_of_eq_None_iff)
  with assms(2) show ?thesis by (simp add: allowed_def Let_def)
qed

section \<open>A run\<close>

text \<open>A proxy for one declared destination, and requests whose first line is their target.\<close>

definition demo_destination :: Destination where
  "demo_destination = \<lparr>dst_Host = ''example.com'', dst_Port = 443\<rparr>"

definition demo_other :: Destination where
  "demo_other = \<lparr>dst_Host = ''Other.example.'', dst_Port = 80\<rparr>"

definition demo_start :: system where
  "demo_start = start id [demo_destination] \<lparr>o_MaxConnections = 0, o_ConnectionsPerSecond = 0, o_Generation = 1\<rparr>"

definition demo_parse :: "bytes \<Rightarrow> http_request option" where
  "demo_parse header = map_option (\<lambda>n. \<lparr>r_Method = ''CONNECT'', r_Host = take n header, r_URL = None\<rparr>)
     (IndexByte header (CHR 0x0A))"

definition demo_connect :: "nat \<Rightarrow> bytes \<Rightarrow> event list" where
  "demo_connect c target =
     [Accept c 0, Count c, Begin c, Request c (target @ [CHR 0x0A, CHR 0x0A]) 1 True ''t'',
      Dial c [(''example.com'', [''1.2.3.4'']), (''other.example'', [''9.9.9.9'', ''5.6.7.8''])]
        [(''1.2.3.4:443'', c + 100), (''5.6.7.8:80'', c + 100)] True ''t'', Bind c 2 True ''t'']"

definition demo_run :: "event list \<Rightarrow> system" where
  "demo_run es = the (run_events (apply_event id demo_parse) es demo_start)"

lemma demo_is_start: "is_start id demo_start"
  by (auto simp: is_start_def demo_start_def)

lemma demo_reach:
  assumes "guards_along (apply_event id demo_parse) G es demo_start"
    and "run_events (apply_event id demo_parse) es demo_start \<noteq> None"
  shows "reach (apply_event id demo_parse) G (is_start id) (demo_run es)"
proof -
  have "reach (apply_event id demo_parse) G (is_start id) demo_start"
    by (rule reach_init) (rule demo_is_start)
  with assms show ?thesis
    using reach_run [of "apply_event id demo_parse" G "is_start id" demo_start es] by (auto simp: demo_run_def)
qed

section \<open>Properties\<close>

text \<open>C21: as long as no destination is granted again while its earlier grant is recorded, a tunnel whose
  client connection is open always belongs to an admission that is in force for exactly the host and
  port it was opened to: the declared one, or the grant recorded for that destination.\<close>

theorem open_tunnels_admitted:
  assumes "reach (apply_event uni parse) (no_regrant uni) (is_start uni) s"
    and "map_of (s_handlers s) c = Some (Relaying i d a out)" and "c \<notin> set (p_closed (s_proxy s))"
  shows "map_of (p_durable (s_proxy s)) (key uni d) = Some a
    \<or> map_option g_id (map_of (p_grants (s_proxy s)) (key uni d)) = Some a"
proof -
  have inv: "handlers_ok uni s" "open_ok (s_proxy s)"
    using tunnels.inv_reach [OF assms(1)] by blast+
  obtain t where t: "(i, t) \<in> set (p_active (s_proxy s))" "t_conn t = c" "t_admission t = a"
    and a: "issued (key uni d) a (p_admission (s_proxy s))"
    using handler_bound [OF inv(1) assms(2)] by blast
  have "a \<in> current_ids (s_proxy s)"
    using inv(2) t assms(3) issued_not_Nil [OF a] by (auto simp: open_ok_def)
  then show ?thesis
    using inv(1) a by (intro current_under_key) (simp_all add: handlers_ok_def)
qed

theorem open_tunnels_admitted_witness:
  "map_of (s_handlers (demo_run (demo_connect 7 ''EXAMPLE.com.:443''))) 7
     = Some (Relaying 1 demo_destination ''declaration:example.com:443:1'' 107)
   \<and> (map_of (p_durable (s_proxy (demo_run (demo_connect 7 ''EXAMPLE.com.:443'')))) (key id demo_destination)
        = Some ''declaration:example.com:443:1''
      \<or> map_option g_id (map_of (p_grants (s_proxy (demo_run (demo_connect 7 ''EXAMPLE.com.:443'')))) (key id demo_destination))
        = Some ''declaration:example.com:443:1'')"
proof -
  let ?es = "demo_connect 7 ''EXAMPLE.com.:443''"
  have r: "reach (apply_event id demo_parse) (no_regrant id) (is_start id) (demo_run ?es)"
    by (rule demo_reach) code_simp+
  have h: "map_of (s_handlers (demo_run ?es)) 7 = Some (Relaying 1 demo_destination ''declaration:example.com:443:1'' 107)"
    by code_simp
  have c: "7 \<notin> set (p_closed (s_proxy (demo_run ?es)))"
    by code_simp
  show ?thesis using h open_tunnels_admitted [OF r h c] by blast
qed

fun phase_admission :: "phase \<Rightarrow> (nat \<times> Destination \<times> bytes) option" where
  "phase_admission (Admitted i d a) = Some (i, d, a)"
| "phase_admission (Dialed i d a out) = Some (i, d, a)"
| "phase_admission (Relaying i d a out) = Some (i, d, a)"
| "phase_admission ph = None"

lemma handler_issued:
  assumes "handlers_ok uni s" and "map_of (s_handlers s) c = Some ph" and "phase_admission ph = Some (i, d, a)"
  shows "issued (key uni d) a (p_admission (s_proxy s))"
proof -
  have L: "linked uni (map_of (s_handlers s)) (map_of (p_active (s_proxy s))) (p_admission (s_proxy s))"
    using assms(1) by (simp add: handlers_ok_def)
  from linkedD(3) [OF L assms(2)] assms(3) show ?thesis by (cases ph) auto
qed

lemma reach_any:
  "reach (apply_event uni parse) (no_regrant uni) (is_start uni) s
     \<Longrightarrow> reach (apply_event uni parse) any_event (is_start uni) s"
  by (erule reach_mono) (simp add: any_event_def)

text \<open>C22: as long as no destination is granted again while its earlier grant is recorded, removing a
  destination takes effect at once: requests for it are refused; a handler that was admitted before the
  removal but has not bound its tunnel yet cannot bind it any more; every tunnel to it has its client
  connection closed, and its outbound connection too if the tunnel was still open before the removal (the
  timer of a grant closes only the client side).\<close>

theorem removal_takes_effect:
  assumes "reach (apply_event uni parse) (no_regrant uni) (is_start uni) s"
    and "map_of (s_handlers s) c = Some ph" and "phase_admission ph = Some (i, d', a)" and "key uni d' = key uni d"
  shows "fst (allowed uni now d (Remove uni d (s_proxy s))) = None
    \<and> \<not> fst (bindAdmission now i out a (Remove uni d (s_proxy s)))
    \<and> (\<forall>out'. ph = Relaying i d' a out' \<longrightarrow> c \<in> set (p_closed (Remove uni d (s_proxy s)))
         \<and> (c \<notin> set (p_closed (s_proxy s)) \<longrightarrow> out' \<in> set (p_closed (Remove uni d (s_proxy s)))))"
proof -
  let ?q = "Remove uni d (s_proxy s)"
  have inv: "handlers_ok uni s" "open_ok (s_proxy s)" and ok: "tables_ok (s_proxy s)"
    using tunnels.inv_reach [OF assms(1)] by (simp_all add: handlers_ok_def)
  have ok': "tables_ok ?q" and open': "open_ok ?q"
    using tables_ok_Remove [OF ok] open_ok_Remove [OF ok inv(2)] by blast+
  have none: "map_of (p_durable ?q) (key uni d) = None" "map_of (p_grants ?q) (key uni d) = None"
    by (simp_all add: Remove_eq delete_conv')
  have a: "issued (key uni d) a (p_admission (s_proxy s))"
    using handler_issued [OF inv(1) assms(2,3)] assms(4) by simp
  have dead: "a \<notin> current_ids ?q"
    using current_under_key [OF ok' _ a] none by auto
  have "c \<in> set (p_closed ?q) \<and> (c \<notin> set (p_closed (s_proxy s)) \<longrightarrow> out' \<in> set (p_closed ?q))" if "ph = Relaying i d' a out'" for out'
  proof -
    obtain t where t: "(i, t) \<in> set (p_active (s_proxy s))" "t_conn t = c" "t_admission t = a" "t_outbound t = Some out'"
      using handler_bound [OF inv(1)] assms(2) \<open>ph = Relaying i d' a out'\<close> by blast
    have "out' \<in> set (p_closed ?q)" if "c \<notin> set (p_closed (s_proxy s))"
    proof -
      have "a \<in> current_ids (s_proxy s)"
        using inv(2) t that issued_not_Nil [OF a] by (auto simp: open_ok_def)
      from current_under_key [OF ok this a] t show ?thesis
        by (force simp: Remove_eq set_closing tracked_conns_def)
    qed
    with t open' dead issued_not_Nil [OF a] show ?thesis
      by (auto simp: open_ok_def)
  qed
  with refused_without_entry [OF ok' none] bind_needs_current [OF ok' dead] show ?thesis by blast
qed

theorem removal_takes_effect_witness:
  "map_of (s_handlers (demo_run (demo_connect 7 ''example.com:443''))) 7
     = Some (Relaying 1 demo_destination ''declaration:example.com:443:1'' 107)
   \<and> fst (allowed id 3 demo_destination (Remove id demo_destination (s_proxy (demo_run (demo_connect 7 ''example.com:443''))))) = None
   \<and> {7, 107} \<subseteq> set (p_closed (Remove id demo_destination (s_proxy (demo_run (demo_connect 7 ''example.com:443'')))))"
proof -
  let ?es = "demo_connect 7 ''example.com:443''"
  have r: "reach (apply_event id demo_parse) (no_regrant id) (is_start id) (demo_run ?es)"
    by (rule demo_reach) code_simp+
  have h: "map_of (s_handlers (demo_run ?es)) 7 = Some (Relaying 1 demo_destination ''declaration:example.com:443:1'' 107)"
    and c: "7 \<notin> set (p_closed (s_proxy (demo_run ?es)))"
    by code_simp+
  show ?thesis
    using h c removal_takes_effect [OF r h phase_admission.simps(3) refl, of 3] by blast
qed

text \<open>C23: an admission that has ceased to be in force never comes back: whatever happens afterwards,
  repeated grants and reconciliations of the same destination included, a handler that still holds it
  cannot bind a tunnel with it.\<close>

theorem dead_admission_stays_dead:
  assumes "reach (apply_event uni parse) any_event (is_start uni) s"
    and "map_of (s_handlers s) c = Some ph" and "phase_admission ph = Some (i, d, a)"
    and "a \<notin> current_ids (s_proxy s)"
    and "run_events (apply_event uni parse) es s = Some t"
  shows "\<not> fst (bindAdmission now j out a (s_proxy t))"
proof -
  have ok: "handlers_ok uni s" by (rule handlers.inv_reach [OF assms(1)])
  then have "tables_ok (s_proxy s)" and "issued (key uni d) a (p_admission (s_proxy s))"
    using handler_issued [OF ok assms(2,3)] by (simp_all add: handlers_ok_def)
  with assms(4,5) have "tables_ok (s_proxy t) \<and> a \<notin> current_ids (s_proxy t)"
  proof (induction es arbitrary: s)
    case Nil
    then show ?case by simp
  next
    case (Cons e es)
    from Cons.prems(2) obtain u where u: "apply_event uni parse e s = Some u" "run_events (apply_event uni parse) es u = Some t"
      by (auto split: option.splits)
    have "tables_ok (s_proxy u)" and ev: "evolves (s_proxy s) (s_proxy u)"
      using event_tables [OF Cons.prems(3) u(1)] by blast+
    with evolves_dead [OF ev Cons.prems(4,1)] u(2) Cons.IH show ?case by blast
  qed
  then show ?thesis using bind_needs_current by blast
qed

theorem dead_admission_stays_dead_witness:
  "\<not> fst (bindAdmission 9 1 (Some 107) ''declaration:example.com:443:1''
     (s_proxy (demo_run (take 4 (demo_connect 7 ''example.com:443'') @
        [RemoveFor demo_destination, ReconcileTo [''example.com:443''] [demo_destination]]))))"
proof -
  let ?pre = "take 4 (demo_connect 7 ''example.com:443'') @ [RemoveFor demo_destination]"
  have r: "reach (apply_event id demo_parse) any_event (is_start id) (demo_run ?pre)"
    by (rule demo_reach) code_simp+
  have h: "map_of (s_handlers (demo_run ?pre)) 7 = Some (Admitted 1 demo_destination ''declaration:example.com:443:1'')"
    and n: "''declaration:example.com:443:1'' \<notin> current_ids (s_proxy (demo_run ?pre))"
    and e: "run_events (apply_event id demo_parse) [ReconcileTo [''example.com:443''] [demo_destination]] (demo_run ?pre)
       = Some (demo_run (?pre @ [ReconcileTo [''example.com:443''] [demo_destination]]))"
    by code_simp+
  from dead_admission_stays_dead [OF r h phase_admission.simps(1) n e] show ?thesis by simp
qed

lemma Reconcile_same_keys:
  assumes "Reconcile uni order ds p = Inr q"
  shows "fst ` set (p_durable q) = set order \<and> p_grants q = []"
  using assms by (rule Reconcile_cases) simp

text \<open>C24: whatever happened before, repeated grants included, reconciliation with a declaration leaves
  exactly its destinations admitted, no grant, and no open tunnel to any other destination; an
  admission that was already declared keeps its identity, so the tunnels opened under it survive.\<close>

theorem reconciliation_conforms:
  assumes "reach (apply_event uni parse) any_event (is_start uni) s"
    and "set order = set (keys_of uni ds)" and "Reconcile uni order ds (s_proxy s) = Inr q"
  shows "fst ` set (p_durable q) = set (keys_of uni ds) \<and> p_grants q = []
    \<and> (\<forall>k a. map_of (p_durable (s_proxy s)) k = Some a \<longrightarrow> k \<in> set (keys_of uni ds) \<longrightarrow> map_of (p_durable q) k = Some a)
    \<and> (\<forall>c i d a out. map_of (s_handlers s) c = Some (Relaying i d a out) \<longrightarrow> c \<notin> set (p_closed q)
         \<longrightarrow> map_of (p_durable q) (key uni d) = Some a)"
proof -
  have inv: "handlers_ok uni s" and ok: "tables_ok (s_proxy s)"
    using handlers.inv_reach [OF assms(1)] by (simp_all add: handlers_ok_def)
  have ok': "tables_ok q" and open': "open_ok q"
    using tables_ok_Reconcile [OF ok assms(3)] open_ok_Reconcile [OF assms(3)] by blast+
  have keys: "fst ` set (p_durable q) = set (keys_of uni ds)" "p_grants q = []"
    using Reconcile_same_keys [OF assms(3)] assms(2) by simp_all
  have keep: "map_of (p_durable q) k = Some a"
    if old: "map_of (p_durable (s_proxy s)) k = Some a" and kept: "k \<in> set (keys_of uni ds)" for k a
    using assms(3)
  proof (rule Reconcile_cases)
    fix r m
    assume q: "q = (s_proxy s)\<lparr>p_admission := m, p_durable := r, p_grants := [],
        p_closed := closing (\<lambda>a. a \<noteq> [] \<and> a \<notin> snd ` set r) (p_active (s_proxy s)) @ p_closed (s_proxy s)\<rparr>"
      and r: "\<And>k i. (k, i) \<in> set r \<Longrightarrow> map_of (p_durable (s_proxy s)) k = Some i
           \<or> map_of (p_durable (s_proxy s)) k = None \<and> (\<exists>n. p_admission (s_proxy s) < n \<and> n \<le> m \<and> i = admission_id ''declaration'' k n)"
    have "k \<in> fst ` set r" using keys(1) kept by (simp add: q)
    then obtain i where "(k, i) \<in> set r" by auto
    with r [of k i] old ok' show ?thesis by (auto simp: q tables_ok_def)
  qed
  have "map_of (p_durable q) (key uni d) = Some a"
    if h: "map_of (s_handlers s) c = Some (Relaying i d a out)" and c: "c \<notin> set (p_closed q)" for c i d a out
  proof -
    obtain t where t: "(i, t) \<in> set (p_active (s_proxy s))" "t_conn t = c" "t_admission t = a"
      and a: "issued (key uni d) a (p_admission (s_proxy s))"
      using handler_bound [OF inv h] by blast
    have "p_active q = p_active (s_proxy s)" using active_Reconcile [OF assms(3)] by simp
    with open' t c issued_not_Nil [OF a] have "a \<in> current_ids q" by (auto simp: open_ok_def)
    with current_under_key [OF ok' _ a] keys(2) show ?thesis by simp
  qed
  with keys keep show ?thesis by blast
qed

theorem reconciliation_conforms_witness:
  "\<exists>q. Reconcile id [''other.example:80''] [demo_other] (s_proxy (demo_run (demo_connect 7 ''example.com:443''))) = Inr q
     \<and> fst ` set (p_durable q) = {''other.example:80''} \<and> 7 \<in> set (p_closed q)"
proof -
  let ?s = "demo_run (demo_connect 7 ''example.com:443'')"
  have r: "reach (apply_event id demo_parse) any_event (is_start id) ?s"
    by (rule demo_reach) code_simp+
  have k: "set [''other.example:80''] = set (keys_of id [demo_other])"
    and h: "map_of (s_handlers ?s) 7 = Some (Relaying 1 demo_destination ''declaration:example.com:443:1'' 107)"
    and n: "key id demo_destination \<noteq> ''other.example:80''"
    by code_simp+
  have "is_ok (Reconcile id [''other.example:80''] [demo_other] (s_proxy ?s))" by code_simp
  then obtain q where q: "Reconcile id [''other.example:80''] [demo_other] (s_proxy ?s) = Inr q"
    by (auto simp: is_ok_iff)
  have dom: "fst ` set (p_durable q) = {''other.example:80''}"
    using reconciliation_conforms [OF r k q] k by simp
  then have "map_of (p_durable q) (key id demo_destination) = None"
    using n by (auto simp: map_of_eq_None_iff)
  with dom q h reconciliation_conforms [OF r k q] show ?thesis by fastforce
qed

text \<open>C25: reconciling twice with one declaration is the same as reconciling once: the second call issues
  no identity, changes no admission and closes no connection that the first call left open.\<close>

theorem reconciliation_idempotent:
  assumes "Reconcile uni order ds p = Inr q" and "Reconcile uni order' ds q = Inr q'"
    and "set order = set (keys_of uni ds)" and "set order' = set (keys_of uni ds)"
  shows "map_of (p_durable q') = map_of (p_durable q) \<and> p_grants q' = [] \<and> p_active q' = p_active q
    \<and> set (p_closed q') = set (p_closed q)"
  using assms(1)
proof (rule Reconcile_cases)
  fix r m
  assume q: "q = p\<lparr>p_admission := m, p_durable := r, p_grants := [],
      p_closed := closing (\<lambda>a. a \<noteq> [] \<and> a \<notin> snd ` set r) (p_active p) @ p_closed p\<rparr>"
    and dr: "distinct (map fst r)" and kr: "fst ` set r = set order"
  from assms(2) show ?thesis
  proof (rule Reconcile_cases)
    fix r' m'
    assume q': "q' = q\<lparr>p_admission := m', p_durable := r', p_grants := [],
        p_closed := closing (\<lambda>a. a \<noteq> [] \<and> a \<notin> snd ` set r') (p_active q) @ p_closed q\<rparr>"
      and dr': "distinct (map fst r')" and kr': "fst ` set r' = set order'"
      and r': "\<And>k i. (k, i) \<in> set r' \<Longrightarrow> map_of (p_durable q) k = Some i
           \<or> map_of (p_durable q) k = None \<and> (\<exists>n. p_admission q < n \<and> n \<le> m' \<and> i = admission_id ''declaration'' k n)"
    have sub: "set r' \<subseteq> set r"
    proof
      fix x assume x: "x \<in> set r'"
      obtain k i where ki: "x = (k, i)" by (cases x)
      have "k \<in> fst ` set r'" using x ki by (simp add: rev_image_eqI)
      then have "k \<in> fst ` set r" unfolding kr kr' assms(3,4) .
      then have "map_of r k \<noteq> None" by (simp add: map_of_eq_None_iff)
      with r' [of k i] x ki show "x \<in> set r" by (auto simp: q dest: map_of_SomeD)
    qed
    have "x \<in> set r'" if "x \<in> set r" for x
    proof -
      obtain k i where ki: "x = (k, i)" by (cases x)
      with that have "k \<in> fst ` set r" by (simp add: rev_image_eqI)
      then have "k \<in> fst ` set r'" unfolding kr kr' assms(3,4) .
      then obtain i' where "(k, i') \<in> set r'" by auto
      with sub that ki distinct_keys_unique [OF dr, of k i' i] show ?thesis by auto
    qed
    with sub have eq: "set r' = set r" by blast
    with dr dr' have "map_of r' = map_of r"
      by (simp add: map_of_inject_set)
    with eq show ?thesis by (auto simp: q q')
  qed
qed

theorem reconciliation_idempotent_witness:
  "\<exists>q q'. Reconcile id [''other.example:80'', ''example.com:443''] [demo_other, demo_destination] (s_proxy demo_start) = Inr q
     \<and> Reconcile id [''example.com:443'', ''other.example:80''] [demo_other, demo_destination] q = Inr q'
     \<and> map_of (p_durable q') = map_of (p_durable q)"
proof -
  let ?ds = "[demo_other, demo_destination]" and ?o = "[''other.example:80'', ''example.com:443'']"
  let ?o' = "[''example.com:443'', ''other.example:80'']"
  have "is_ok (Reconcile id ?o ?ds (s_proxy demo_start))" by code_simp
  then obtain q where q: "Reconcile id ?o ?ds (s_proxy demo_start) = Inr q" by (auto simp: is_ok_iff)
  have valid: "list_all valid_destination ?ds" by code_simp
  then obtain q' where q': "Reconcile id ?o' ?ds q = Inr q'"
    unfolding Reconcile_def by (cases "replacement_loop ?o' [] q") (simp only: split if_False not_not simp_thms)
  have "set ?o = set (keys_of id ?ds)" "set ?o' = set (keys_of id ?ds)" by code_simp+
  with reconciliation_idempotent [OF q q'] q q' show ?thesis by blast
qed

text \<open>C26: after a full revocation the accept loop admits nobody, every tunnel has both its connections
  closed, no destination is allowed and no pending handler can bind.\<close>

theorem revocation_closes_everything:
  assumes "reach (apply_event uni parse) any_event (is_start uni) s"
    and "map_of (s_handlers s) c = Some (Relaying i d a out)"
  shows "{c, out} \<subseteq> set (p_closed (RevokeAll (s_proxy s)))
    \<and> fst (allowed uni now d' (RevokeAll (s_proxy s))) = None
    \<and> \<not> fst (bindAdmission now j out' a' (RevokeAll (s_proxy s)))
    \<and> \<not> fst (serve_accept now c' (RevokeAll (s_proxy s)))"
proof -
  let ?q = "RevokeAll (s_proxy s)"
  have inv: "handlers_ok uni s" and ok: "tables_ok ?q"
    using handlers.inv_reach [OF assms(1)] tables_ok_RevokeAll by (auto simp: handlers_ok_def)
  obtain t where t: "(i, t) \<in> set (p_active (s_proxy s))" "t_conn t = c" "t_outbound t = Some out"
    using handler_bound [OF inv assms(2)] by blast
  then have "{c, out} \<subseteq> set (closing (\<lambda>_. True) (p_active (s_proxy s)))"
    by (force simp: set_closing tracked_conns_def)
  then have "{c, out} \<subseteq> set (p_closed ?q)" by (auto simp: RevokeAll_eq)
  moreover have "fst (allowed uni now d' ?q) = None"
    by (rule refused_without_entry [OF ok]) (simp_all add: RevokeAll_eq)
  moreover have "\<not> fst (bindAdmission now j out' a' ?q)"
    by (rule bind_needs_current [OF ok]) (simp add: current_ids_def RevokeAll_eq)
  moreover have "\<not> fst (serve_accept now c' ?q)"
    by (simp add: serve_accept_def RevokeAll_eq)
  ultimately show ?thesis by blast
qed

theorem revocation_closes_everything_witness:
  "{7, 107} \<subseteq> set (p_closed (RevokeAll (s_proxy (demo_run (demo_connect 7 ''example.com:443'')))))"
proof -
  let ?s = "demo_run (demo_connect 7 ''example.com:443'')"
  have r: "reach (apply_event id demo_parse) any_event (is_start id) ?s"
    by (rule demo_reach) code_simp+
  have h: "map_of (s_handlers ?s) 7 = Some (Relaying 1 demo_destination ''declaration:example.com:443:1'' 107)"
    by code_simp
  from revocation_closes_everything [OF r h] show ?thesis by blast
qed

lemma phase_id_at_work: "phase_id ph = Some i \<Longrightarrow> at_work ph"
  by (cases ph) simp_all

text \<open>Every tracked connection has a handler of its own, which is at work.\<close>

lemma tracked_at_work:
  assumes "handlers_ok uni s"
  shows "length (p_active (s_proxy s)) \<le> card (conns_in at_work (map_of (s_handlers s)))"
proof -
  let ?A = "p_active (s_proxy s)" and ?H = "map_of (s_handlers s)"
  have L: "linked uni ?H (map_of ?A) (p_admission (s_proxy s))" and d: "distinct (map fst ?A)"
    using assms by (simp_all add: handlers_ok_def tables_ok_def)
  have tracked: "\<exists>ph. ?H (t_conn t) = Some ph \<and> phase_id ph = Some i" if "(i, t) \<in> set ?A" for i t
    using linkedD(2) [OF L, of i t] that d by simp
  have "inj_on (t_conn \<circ> snd) (set ?A)"
  proof (rule inj_onI)
    fix x y
    assume x: "x \<in> set ?A" and y: "y \<in> set ?A" and e: "(t_conn \<circ> snd) x = (t_conn \<circ> snd) y"
    then have "fst x = fst y" using tracked [of "fst x" "snd x"] tracked [of "fst y" "snd y"] by auto
    with x y d show "x = y" by (metis distinct_keys_unique prod.collapse)
  qed
  moreover have "(t_conn \<circ> snd) ` set ?A \<subseteq> conns_in at_work ?H"
    using tracked phase_id_at_work by (fastforce simp: conns_in_def)
  ultimately have "card (set ?A) \<le> card (conns_in at_work ?H)"
    using finite_conns_in by (intro card_inj_on_le)
  with d show ?thesis by (simp add: distinct_card distinct_map)
qed

lemma conns_in_mono: "(\<And>ph. P ph \<Longrightarrow> Q ph) \<Longrightarrow> card (conns_in P (map_of xs)) \<le> card (conns_in Q (map_of xs))"
  by (rule card_mono [OF finite_conns_in]) (auto simp: conns_in_def)

text \<open>C27: in every interleaving the tokens taken are those of the connections that have acquired one and
  not given it back, and they, like the tracked connections, never exceed the configured maximum; the
  counter of handlers counts exactly the connections between their counting and their uncounting, so it
  exceeds the tokens by at most the handlers that have given theirs back and are not uncounted yet; no
  window admits more connections than the configured rate; and the condition of \<^verbatim>\<open>WaitIdle\<close> holds exactly
  when every connection is finished or has only its token, which it takes before it is counted.\<close>

theorem handlers_bounded:
  assumes "reach (apply_event uni parse) any_event (is_start uni) s"
  shows "card (conns_in has_token (map_of (s_handlers s))) = p_sem (s_proxy s)
    \<and> int (p_sem (s_proxy s)) \<le> o_MaxConnections (p_opts (s_proxy s))
    \<and> int (length (p_active (s_proxy s))) \<le> o_MaxConnections (p_opts (s_proxy s))
    \<and> card (conns_in is_counted (map_of (s_handlers s))) = p_handlers (s_proxy s)
    \<and> p_handlers (s_proxy s) \<le> p_sem (s_proxy s) + card {c. map_of (s_handlers s) c = Some Released}
    \<and> p_rateCount (s_proxy s) \<le> o_ConnectionsPerSecond (p_opts (s_proxy s))
    \<and> (idle (s_proxy s) \<longleftrightarrow> (\<forall>c ph. map_of (s_handlers s) c = Some ph \<longrightarrow> ph = Acquired \<or> ph = Finished))"
proof -
  let ?H = "map_of (s_handlers s)"
  have b: "bounded s" by (rule limits.inv_reach [OF assms])
  have h: "handlers_ok uni s" by (rule handlers.inv_reach [OF assms])
  have w: "card (conns_in at_work ?H) \<le> card (conns_in has_token ?H)" "card (conns_in at_work ?H) \<le> card (conns_in is_counted ?H)"
    by (rule conns_in_mono, simp add: at_work_def)+
  have "conns_in is_counted ?H \<subseteq> conns_in has_token ?H \<union> {c. ?H c = Some Released}"
    by (auto simp: conns_in_def is_counted_def has_token_def)
  moreover have fin: "finite {c. ?H c = Some Released}"
    by (rule finite_subset [of _ "dom ?H"]) (auto simp: finite_dom_map_of)
  ultimately have "card (conns_in is_counted ?H) \<le> card (conns_in has_token ?H) + card {c. ?H c = Some Released}"
    by (meson card_Un_le card_mono finite_UnI finite_conns_in order_trans)
  moreover have "idle (s_proxy s) \<longleftrightarrow> conns_in is_counted ?H = {}"
  proof
    assume "conns_in is_counted ?H = {}"
    with b w(2) tracked_at_work [OF h] show "idle (s_proxy s)" by (simp add: idle_def bounded_def)
  qed (use b finite_conns_in [of is_counted "s_handlers s"] in \<open>simp add: idle_def bounded_def\<close>)
  then have "idle (s_proxy s) \<longleftrightarrow> (\<forall>c ph. ?H c = Some ph \<longrightarrow> ph = Acquired \<or> ph = Finished)"
    by (auto simp: conns_in_def is_counted_def)
  ultimately show ?thesis
    using b w(1) tracked_at_work [OF h] by (simp add: bounded_def)
qed

theorem handlers_bounded_witness:
  "card (conns_in has_token (map_of (s_handlers (demo_run (demo_connect 7 ''example.com:443'' @ [Accept 8 3]))))) = 2
   \<and> card (conns_in is_counted (map_of (s_handlers (demo_run (demo_connect 7 ''example.com:443'' @ [Accept 8 3]))))) = 1
   \<and> \<not> idle (s_proxy (demo_run (demo_connect 7 ''example.com:443'' @ [Accept 8 3])))"
proof -
  let ?s = "demo_run (demo_connect 7 ''example.com:443'' @ [Accept 8 3])"
  have r: "reach (apply_event id demo_parse) any_event (is_start id) ?s"
    by (rule demo_reach) code_simp+
  have "p_sem (s_proxy ?s) = 2" "p_handlers (s_proxy ?s) = 1" by code_simp+
  with handlers_bounded [OF r] show ?thesis by (auto simp: idle_def)
qed

text \<open>\<^verbatim>\<open>WaitIdle\<close> can find the proxy idle while a connection that was accepted has its token and is about to
  be counted and handled.\<close>

lemma idle_before_counting:
  "map_of (s_handlers (demo_run [Accept 7 0])) 7 = Some Acquired \<and> idle (s_proxy (demo_run [Accept 7 0]))"
  by code_simp

text \<open>What the guard of the first properties excludes: granting a destination again while its first
  grant is recorded forgets the first identity, so that a later removal of the destination leaves the
  tunnel opened under the first grant open.\<close>

theorem regrant_leaks_tunnel:
  "map_of (s_handlers (demo_run ([GrantFor demo_other 1000 0] @ demo_connect 7 ''other.example:80''
       @ [GrantFor demo_other 1000 5, RemoveFor demo_other]))) 7
     = Some (Relaying 1 \<lparr>dst_Host = ''other.example'', dst_Port = 80\<rparr> ''grant:other.example:80:2'' 107)
   \<and> 7 \<notin> set (p_closed (s_proxy (demo_run ([GrantFor demo_other 1000 0] @ demo_connect 7 ''other.example:80''
       @ [GrantFor demo_other 1000 5, RemoveFor demo_other]))))
   \<and> current_ids (s_proxy (demo_run ([GrantFor demo_other 1000 0] @ demo_connect 7 ''other.example:80''
       @ [GrantFor demo_other 1000 5, RemoveFor demo_other]))) = {''declaration:example.com:443:1''}"
  by code_simp

text \<open>When the timer of a grant fires, the client side of its tunnels is closed but the outbound side
  is not, unlike on every other path that ends an admission.\<close>

lemma timer_leaves_outbound_open:
  "map_of (s_handlers (demo_run ([GrantFor demo_other 1000 0] @ demo_connect 7 ''other.example:80''
       @ [Timer ''other.example:80'' ''grant:other.example:80:2'']))) 7
     = Some (Relaying 1 \<lparr>dst_Host = ''other.example'', dst_Port = 80\<rparr> ''grant:other.example:80:2'' 107)
   \<and> p_closed (s_proxy (demo_run ([GrantFor demo_other 1000 0] @ demo_connect 7 ''other.example:80''
       @ [Timer ''other.example:80'' ''grant:other.example:80:2'']))) = [7]"
  by code_simp

section \<open>Admission and dialling\<close>

text \<open>a request is admitted exactly when its host and port, with the letter case and a final dot of the
  host disregarded, are declared or are granted by a grant that has not expired; a declared destination
  is admitted under its declared identity.\<close>

theorem allowed_exact:
  assumes "tables_ok p"
  shows "fst (allowed uni now d p) = Some a \<longleftrightarrow>
    map_of (p_durable p) (key uni d) = Some a
    \<or> map_of (p_durable p) (key uni d) = None
      \<and> (\<exists>g. map_of (p_grants p) (key uni d) = Some g \<and> g_id g = a \<and> g_expires g > now)"
proof -
  let ?k = "key uni d"
  have dg: "distinct (map fst (p_grants p))" using assms by (simp add: tables_ok_def)
  have grants: "p_grants (expireLocked now p) = filter (\<lambda>(k, g). g_expires g > now) (p_grants p)"
    using expireLocked_eq [OF dg] by simp
  have "map_of (filter (\<lambda>(k, g). g_expires g > now) (p_grants p)) ?k = Some g \<longleftrightarrow>
      map_of (p_grants p) ?k = Some g \<and> g_expires g > now" for g
    using dg by (simp add: map_fst_filter_distinct)
  then show ?thesis
    by (auto simp: allowed_def Let_def grants split: option.splits)
qed

theorem allowed_exact_witness:
  "tables_ok (s_proxy demo_start)
   \<and> fst (allowed id 0 \<lparr>dst_Host = ''EXAMPLE.com.'', dst_Port = 443\<rparr> (s_proxy demo_start)) = Some ''declaration:example.com:443:1''
   \<and> fst (allowed id 0 \<lparr>dst_Host = ''example.com'', dst_Port = 80\<rparr> (s_proxy demo_start)) \<noteq> Some ''declaration:example.com:443:1''"
proof -
  have ok: "tables_ok (s_proxy demo_start)" by (simp add: demo_start_def start_def New_facts)
  have "map_of (p_durable (s_proxy demo_start)) (key id \<lparr>dst_Host = ''EXAMPLE.com.'', dst_Port = 443\<rparr>)
      = Some ''declaration:example.com:443:1''"
    "map_of (p_durable (s_proxy demo_start)) (key id \<lparr>dst_Host = ''example.com'', dst_Port = 80\<rparr>) = None"
    "p_grants (s_proxy demo_start) = []"
    by code_simp+
  with ok allowed_exact [OF ok] show ?thesis by simp
qed

text \<open>The addresses are tried in the order of the resolver's answer, up to the first that can be dialled.\<close>

lemma dial_loop_prefix:
  assumes "dial_loop dial port ips = (r, tried)"
  shows "prefix tried (map (\<lambda>ip. JoinHostPort ip (Itoa port)) ips)
    \<and> (case r of None \<Rightarrow> tried = map (\<lambda>ip. JoinHostPort ip (Itoa port)) ips \<and> (\<forall>x\<in>set tried. dial x = None)
       | Some (conn, x) \<Rightarrow> (\<exists>failed. tried = failed @ [x] \<and> (\<forall>y\<in>set failed. dial y = None)) \<and> dial x = Some conn)"
  using assms
proof (induction ips arbitrary: r tried)
  case (Cons ip ips)
  let ?x = "JoinHostPort ip (Itoa port)"
  show ?case
  proof (cases "dial ?x")
    case None
    then obtain tried' where t: "dial_loop dial port ips = (r, tried')" "tried = ?x # tried'"
      using Cons.prems by (cases "dial_loop dial port ips") (auto simp: Let_def)
    show ?thesis
    proof (cases r)
      case (Some cx)
      then obtain conn x where r: "r = Some (conn, x)" by (cases cx) auto
      then obtain failed where "tried' = failed @ [x]" "\<forall>y\<in>set failed. dial y = None"
        using Cons.IH [OF t(1)] by auto
      then have "tried = (?x # failed) @ [x] \<and> (\<forall>y\<in>set (?x # failed). dial y = None)" using t(2) None by simp
      then show ?thesis using Cons.IH [OF t(1)] t(2) r by (auto intro: exI [of _ "?x # failed"])
    qed (use Cons.IH [OF t(1)] None t(2) in auto)
  qed (use Cons.prems in \<open>auto simp: Let_def\<close>)
qed auto

lemma dials_unchanged:
  "apply_event uni parse e s = Some t \<Longrightarrow> (\<nexists>c lookup dial l ts. e = Dial c lookup dial l ts) \<Longrightarrow> s_dials t = s_dials s"
  by (cases e) (auto simp: set_phase_def set_proxy_def split: option.splits phase.splits sum.splits if_splits prod.splits bool.splits)

text \<open>C28: a step of the proxy in any reachable state tries no connection, or it is the dialling step of a
  handler that was admitted to a valid host and port, under an identity issued for exactly that host and
  port. Then the resolver is asked for exactly that host, the addresses tried are those of its answer with
  that port, in its order, and all but the last of them failed; and if the handler gets an outbound
  connection, it is the one to the last address tried.\<close>

theorem only_admitted_destinations_dialed:
  assumes "reach (apply_event uni parse) any_event (is_start uni) s" and "apply_event uni parse e s = Some t"
  shows "s_dials t = s_dials s
    \<or> (\<exists>c lookup dial locked ts i d a ips addresses.
         e = Dial c lookup dial locked ts \<and> map_of (s_handlers s) c = Some (Admitted i d a)
         \<and> valid_destination d \<and> (\<exists>kind n. a = admission_id kind (key uni d) n \<and> n \<le> p_admission (s_proxy s))
         \<and> map_of lookup (dst_Host d) = Some ips
         \<and> prefix addresses (map (\<lambda>ip. JoinHostPort ip (Itoa (dst_Port d))) ips)
         \<and> s_dials t = s_dials s @ map (\<lambda>x. \<lparr>dl_destination = d, dl_admission = a, dl_address = x\<rparr>) addresses
         \<and> (\<forall>x\<in>set (butlast addresses). map_of dial x = None)
         \<and> (\<forall>out. map_of (s_handlers t) c = Some (Dialed i d a out) \<longrightarrow> map_of dial (last addresses) = Some out))"
proof (cases "\<exists>c lookup dial l ts. e = Dial c lookup dial l ts")
  case False
  with dials_unchanged [OF assms(2)] show ?thesis by simp
next
  case True
  then obtain c lookup dial l ts where e: "e = Dial c lookup dial l ts" by blast
  then obtain i d a where c: "map_of (s_handlers s) c = Some (Admitted i d a)"
    and t: "t = dialed c d a (handle_dial (map_of lookup) (map_of dial) l ts i d a (s_proxy s)) s"
    using assms(2) by (auto split: option.splits phase.splits)
  have L: "linked uni (map_of (s_handlers s)) (map_of (p_active (s_proxy s))) (p_admission (s_proxy s))"
    using handlers.inv_reach [OF assms(1)] by (simp add: handlers_ok_def)
  have adm: "issued (key uni d) a (p_admission (s_proxy s))" "valid_destination d"
    using linkedD(3) [OF L c] by simp_all
  show ?thesis
  proof (cases "map_of lookup (dst_Host d)")
    case None
    then show ?thesis by (simp add: t dialed_def handle_dial_def dialResolved_def set_phase_def)
  next
    case (Some ips)
    obtain r tried where r: "dial_loop (map_of dial) (dst_Port d) ips = (r, tried)"
      by (cases "dial_loop (map_of dial) (dst_Port d) ips")
    note p = dial_loop_prefix [OF r]
    have "s_dials t = s_dials s @ map (\<lambda>x. \<lparr>dl_destination = d, dl_admission = a, dl_address = x\<rparr>) tried"
      by (simp add: t dialed_def handle_dial_def dialResolved_def Some r set_phase_def split: option.splits)
    moreover have "\<forall>x\<in>set (butlast tried). map_of dial x = None"
      using p by (cases r) (auto dest: in_set_butlastD)
    moreover have "\<forall>out. map_of (s_handlers t) c = Some (Dialed i d a out) \<longrightarrow> map_of dial (last tried) = Some out"
      using p by (cases r) (auto simp: t handle_dial_def dialResolved_def Some r)
    ultimately show ?thesis
      using e c adm Some p unfolding issued_def by blast
  qed
qed

theorem only_admitted_destinations_dialed_witness:
  "map dl_address (s_dials (demo_run ([GrantFor demo_other 1000 0] @ demo_connect 7 ''other.example:80''))) = [''9.9.9.9:80'', ''5.6.7.8:80'']
   \<and> prefix [''9.9.9.9:80'', ''5.6.7.8:80''] (map (\<lambda>ip. JoinHostPort ip ''80'') [''9.9.9.9'', ''5.6.7.8''])"
proof -
  let ?es = "[GrantFor demo_other 1000 0] @ take 4 (demo_connect 7 ''other.example:80'')"
  let ?lookup = "[(''example.com'', [''1.2.3.4'']), (''other.example'', [''9.9.9.9'', ''5.6.7.8''])]"
  let ?e = "Dial 7 ?lookup [(''1.2.3.4:443'', 107), (''5.6.7.8:80'', 107)] True ''t''"
  have r: "reach (apply_event id demo_parse) any_event (is_start id) (demo_run ?es)"
    by (rule demo_reach) code_simp+
  have e: "apply_event id demo_parse ?e (demo_run ?es) = Some (demo_run (?es @ [?e]))" by code_simp
  have h: "map_of (s_handlers (demo_run ?es)) 7 = Some (Admitted 1 \<lparr>dst_Host = ''other.example'', dst_Port = 80\<rparr> ''grant:other.example:80:2'')"
    and d: "s_dials (demo_run ?es) = []"
    and n: "map dl_address (s_dials (demo_run (?es @ [?e]))) = [''9.9.9.9:80'', ''5.6.7.8:80'']"
    and m: "map dl_address (s_dials (demo_run ([GrantFor demo_other 1000 0] @ demo_connect 7 ''other.example:80''))) = [''9.9.9.9:80'', ''5.6.7.8:80'']"
    and i: "Itoa 80 = ''80''"
    by code_simp+
  have "prefix (map dl_address (s_dials (demo_run (?es @ [?e])))) (map (\<lambda>ip. JoinHostPort ip (Itoa 80)) [''9.9.9.9'', ''5.6.7.8''])"
    using only_admitted_destinations_dialed [OF r e] h d n by (auto simp: comp_def)
  with n m i show ?thesis by simp
qed

section \<open>Control and destinations\<close>

lemma control_cases:
  "(\<exists>e. control uni dur now order req p = (control_error e, p))
   \<or> (\<exists>q. control uni dur now order req p = (control_ok, q))
   \<or> (\<exists>l m. 1 \<le> l \<and> l \<le> int MaxDiagnosticLimit \<and> 1 \<le> m \<and> m \<le> int MaxDiagnosticBytes
        \<and> control uni dur now order req p = (control_ok\<lparr>cp_Diagnostics := Some (snapshot l m (p_diagnostics p))\<rparr>, p))"
proof (cases req)
  case (Some r)
  consider "cr_Operation r = ''network-diagnostics''" | "cr_Operation r \<noteq> ''network-diagnostics''" by blast
  then show ?thesis
  proof cases
    case 1
    then show ?thesis
      by (cases "cr_Limit r < 1 \<or> cr_Limit r > int MaxDiagnosticLimit \<or> cr_MaxBytes r < 1 \<or> cr_MaxBytes r > int MaxDiagnosticBytes")
        (auto simp: control_def Some Let_def not_less)
  next
    case 2
    then show ?thesis
      by (cases "dur (cr_Duration r)"; cases "Reconcile uni order (cr_Destinations r) p";
          cases "Grant uni now \<lparr>dst_Host = cr_Host r, dst_Port = cr_Port r\<rparr> (projr (dur (cr_Duration r))) p")
        (auto simp: control_def Some Let_def)
  qed
qed (auto simp: control_def)

text \<open>a control request that is answered with an error, and a request that only observes, leaves the
  proxy as it was; the diagnostics it returns are within the limits asked for, which themselves are at
  most 256 events and 64 KiB.\<close>

theorem control_observes:
  "\<not> cp_OK (fst (control uni dur now order req p)) \<or> cp_Diagnostics (fst (control uni dur now order req p)) \<noteq> None
     \<Longrightarrow> snd (control uni dur now order req p) = p
       \<and> (\<forall>s. cp_Diagnostics (fst (control uni dur now order req p)) = Some s \<longrightarrow>
            length (sn_Events s) \<le> MaxDiagnosticLimit \<and> sn_EncodedBytes s \<le> MaxDiagnosticBytes)"
proof -
  assume a: "\<not> cp_OK (fst (control uni dur now order req p)) \<or> cp_Diagnostics (fst (control uni dur now order req p)) \<noteq> None"
  have b: "length (sn_Events (snapshot l m (p_diagnostics p))) \<le> MaxDiagnosticLimit
      \<and> sn_EncodedBytes (snapshot l m (p_diagnostics p)) \<le> MaxDiagnosticBytes"
    if "1 \<le> l" "l \<le> int MaxDiagnosticLimit" "1 \<le> m" "m \<le> int MaxDiagnosticBytes" for l m
    using snapshot_spec [of "p_diagnostics p" l m] that by auto
  show ?thesis
    using control_cases [of uni dur now order req p] a b
    by (elim disjE exE conjE) (simp_all add: control_ok_def control_error_def)
qed

theorem control_observes_witness:
  "snd (control id (\<lambda>_. Inr 5) 0 [] (Some \<lparr>cr_Operation = ''grant'', cr_Host = ''*'', cr_Port = 80, cr_Duration = ''5ns'',
      cr_Destinations = [], cr_Limit = 0, cr_MaxBytes = 0\<rparr>) (s_proxy demo_start)) = s_proxy demo_start"
proof -
  let ?r = "Some \<lparr>cr_Operation = ''grant'', cr_Host = ''*'', cr_Port = 80, cr_Duration = ''5ns'',
      cr_Destinations = [], cr_Limit = 0, cr_MaxBytes = 0\<rparr>"
  have "\<not> cp_OK (fst (control id (\<lambda>_. Inr 5) 0 [] ?r (s_proxy demo_start)))"
    by code_simp
  then show ?thesis
    using control_observes [of id "\<lambda>_. Inr 5" 0 "[]" ?r "s_proxy demo_start"] by blast
qed

text \<open>a destination text that is accepted is exactly the canonical text of the destination it denotes,
  which has a valid host and port.\<close>

theorem ParseDestination_canonical:
  assumes "ParseDestination raw = Inr d"
  shows "raw = JoinHostPort (dst_Host d) (Itoa (dst_Port d)) \<and> valid_destination d"
proof -
  obtain host pt where s: "SplitHostPort raw = Some (host, pt)" and h: "naming_Host host = Inr ()"
    using assms by (auto simp: ParseDestination_def split: if_splits option.splits)
  then obtain port where "Atoi pt = Some port" "1 \<le> port" "port \<le> 65535" "pt = Itoa port"
      "JoinHostPort host pt = raw" "d = \<lparr>dst_Host = host, dst_Port = port\<rparr>"
    using assms by (auto simp: ParseDestination_def split: if_splits option.splits)
  with h show ?thesis by (simp add: valid_destination_def)
qed

theorem ParseDestination_canonical_witness:
  "''[::1]:8080'' = JoinHostPort ''::1'' ''8080'' \<and> valid_destination \<lparr>dst_Host = ''::1'', dst_Port = 8080\<rparr>"
proof -
  have p: "ParseDestination ''[::1]:8080'' = Inr \<lparr>dst_Host = ''::1'', dst_Port = 8080\<rparr>" and i: "Itoa 8080 = ''8080''"
    by code_simp+
  from ParseDestination_canonical [OF p] i show ?thesis by simp
qed

end
