(* ===== verification/Jobcontract_Types.thy ===== *)
theory Jobcontract_Types
  imports Go_Struct
begin

text \<open>
  The documents of a governed job (\<^verbatim>\<open>internal/jobcontract/types.go\<close>): a record per struct, its shape from
  the struct tags and the conversions between the record and the value that \<^verbatim>\<open>encoding/json\<close> writes and
  fills. A nil slice or pointer is \<^const>\<open>None\<close>.
\<close>

record DeclarationBinding =
  bnd_Path :: bytes
  bnd_SHA256 :: bytes

definition DeclarationBinding_shape :: shape where
  "DeclarationBinding_shape = TStruct
     [(''path'', False, TString), (''sha256'', False, TString)]"

definition DeclarationBinding_value :: "DeclarationBinding \<Rightarrow> gval" where
  "DeclarationBinding_value x = VStruct
     [VString (bnd_Path x), VString (bnd_SHA256 x)]"

definition DeclarationBinding_of :: "gval \<Rightarrow> DeclarationBinding" where
  "DeclarationBinding_of v =
     (let vs = g_fields v in
      \<lparr>bnd_Path = g_string (vs ! 0), bnd_SHA256 = g_string (vs ! 1)\<rparr>)"

lemma DeclarationBinding_of_value [simp]: "DeclarationBinding_of (DeclarationBinding_value x) = x"
  by (cases x) (simp add: DeclarationBinding_of_def DeclarationBinding_value_def option.map_comp comp_def option.map_ident)

record EnvironmentItem =
  env_Name :: bytes
  env_PublicValue :: "bytes option"
  env_SecretFile :: bytes

definition EnvironmentItem_shape :: shape where
  "EnvironmentItem_shape = TStruct
     [(''name'', False, TString), (''public_value'', True, TPtr TString), (''secret_file'', True, TString)]"

definition EnvironmentItem_value :: "EnvironmentItem \<Rightarrow> gval" where
  "EnvironmentItem_value x = VStruct
     [VString (env_Name x), VPtr (map_option VString (env_PublicValue x)), VString (env_SecretFile x)]"

definition EnvironmentItem_of :: "gval \<Rightarrow> EnvironmentItem" where
  "EnvironmentItem_of v =
     (let vs = g_fields v in
      \<lparr>env_Name = g_string (vs ! 0), env_PublicValue = map_option g_string (g_ptr (vs ! 1)),
       env_SecretFile = g_string (vs ! 2)\<rparr>)"

lemma EnvironmentItem_of_value [simp]: "EnvironmentItem_of (EnvironmentItem_value x) = x"
  by (cases x) (simp add: EnvironmentItem_of_def EnvironmentItem_value_def option.map_comp comp_def option.map_ident)

record Command =
  cmd_Argv :: "bytes list option"
  cmd_WorkingDirectory :: bytes
  cmd_Environment :: "EnvironmentItem list option"

definition Command_shape :: shape where
  "Command_shape = TStruct
     [(''argv'', False, TSlice TString), (''working_directory'', False, TString),
      (''environment'', False, TSlice EnvironmentItem_shape)]"

definition Command_value :: "Command \<Rightarrow> gval" where
  "Command_value x = VStruct
     [VStrings (cmd_Argv x), VString (cmd_WorkingDirectory x),
      VSlice (map_option (map EnvironmentItem_value) (cmd_Environment x))]"

definition Command_of :: "gval \<Rightarrow> Command" where
  "Command_of v =
     (let vs = g_fields v in
      \<lparr>cmd_Argv = g_strings (vs ! 0), cmd_WorkingDirectory = g_string (vs ! 1),
       cmd_Environment = map_option (map EnvironmentItem_of) (g_slice (vs ! 2))\<rparr>)"

lemma Command_of_value [simp]: "Command_of (Command_value x) = x"
  by (cases x) (simp add: Command_of_def Command_value_def option.map_comp comp_def option.map_ident)

record Limits =
  lim_TimeoutNS :: int
  lim_FinalizeNS :: int
  lim_StdoutMaxBytes :: int
  lim_StderrMaxBytes :: int

definition Limits_shape :: shape where
  "Limits_shape = TStruct
     [(''timeout_ns'', False, TInt64), (''finalize_timeout_ns'', False, TInt64),
      (''stdout_max_bytes'', False, TInt64), (''stderr_max_bytes'', False, TInt64)]"

definition Limits_value :: "Limits \<Rightarrow> gval" where
  "Limits_value x = VStruct
     [VInt (lim_TimeoutNS x), VInt (lim_FinalizeNS x), VInt (lim_StdoutMaxBytes x), VInt (lim_StderrMaxBytes x)]"

definition Limits_of :: "gval \<Rightarrow> Limits" where
  "Limits_of v =
     (let vs = g_fields v in
      \<lparr>lim_TimeoutNS = g_int (vs ! 0), lim_FinalizeNS = g_int (vs ! 1), lim_StdoutMaxBytes = g_int (vs ! 2),
       lim_StderrMaxBytes = g_int (vs ! 3)\<rparr>)"

lemma Limits_of_value [simp]: "Limits_of (Limits_value x) = x"
  by (cases x) (simp add: Limits_of_def Limits_value_def option.map_comp comp_def option.map_ident)

record ArtifactRequest =
  art_ContainerRoot :: bytes
  art_MaxEntries :: int
  art_MaxBytes :: int

definition ArtifactRequest_shape :: shape where
  "ArtifactRequest_shape = TStruct
     [(''container_root'', False, TString), (''max_entries'', False, TInt64), (''max_bytes'', False, TInt64)]"

definition ArtifactRequest_value :: "ArtifactRequest \<Rightarrow> gval" where
  "ArtifactRequest_value x = VStruct
     [VString (art_ContainerRoot x), VInt (art_MaxEntries x), VInt (art_MaxBytes x)]"

definition ArtifactRequest_of :: "gval \<Rightarrow> ArtifactRequest" where
  "ArtifactRequest_of v =
     (let vs = g_fields v in
      \<lparr>art_ContainerRoot = g_string (vs ! 0), art_MaxEntries = g_int (vs ! 1), art_MaxBytes = g_int (vs ! 2)\<rparr>)"

lemma ArtifactRequest_of_value [simp]: "ArtifactRequest_of (ArtifactRequest_value x) = x"
  by (cases x) (simp add: ArtifactRequest_of_def ArtifactRequest_value_def option.map_comp comp_def option.map_ident)

record Request =
  req_Schema :: bytes
  req_JobID :: bytes
  req_Declaration :: DeclarationBinding
  req_Command :: Command
  req_Limits :: Limits
  req_Artifacts :: "ArtifactRequest option"

definition Request_shape :: shape where
  "Request_shape = TStruct
     [(''schema'', False, TString), (''job_id'', False, TString), (''declaration'', False, DeclarationBinding_shape),
      (''command'', False, Command_shape), (''limits'', False, Limits_shape),
      (''artifacts'', True, TPtr ArtifactRequest_shape)]"

definition Request_value :: "Request \<Rightarrow> gval" where
  "Request_value x = VStruct
     [VString (req_Schema x), VString (req_JobID x), DeclarationBinding_value (req_Declaration x),
      Command_value (req_Command x), Limits_value (req_Limits x),
      VPtr (map_option ArtifactRequest_value (req_Artifacts x))]"

definition Request_of :: "gval \<Rightarrow> Request" where
  "Request_of v =
     (let vs = g_fields v in
      \<lparr>req_Schema = g_string (vs ! 0), req_JobID = g_string (vs ! 1),
       req_Declaration = DeclarationBinding_of (vs ! 2), req_Command = Command_of (vs ! 3),
       req_Limits = Limits_of (vs ! 4), req_Artifacts = map_option ArtifactRequest_of (g_ptr (vs ! 5))\<rparr>)"

lemma Request_of_value [simp]: "Request_of (Request_value x) = x"
  by (cases x) (simp add: Request_of_def Request_value_def option.map_comp comp_def option.map_ident)

record ExecutionIdentity =
  exe_DeclarationSHA256 :: bytes
  exe_PlanSHA256 :: bytes
  exe_Generation :: int
  exe_ImageReference :: bytes
  exe_ImageDigest :: bytes
  exe_RuntimeSHA256 :: bytes
  exe_ProvenanceSHA256 :: bytes
  exe_RuntimeProvider :: bytes
  exe_EgressSHA256 :: bytes

definition ExecutionIdentity_shape :: shape where
  "ExecutionIdentity_shape = TStruct
     [(''declaration_sha256'', False, TString), (''plan_sha256'', False, TString), (''generation'', False, TInt64),
      (''image_reference'', False, TString), (''image_digest'', False, TString),
      (''runtime_evidence_sha256'', False, TString), (''provenance_sha256'', False, TString),
      (''runtime_provider'', False, TString), (''egress_sha256'', True, TString)]"

definition ExecutionIdentity_value :: "ExecutionIdentity \<Rightarrow> gval" where
  "ExecutionIdentity_value x = VStruct
     [VString (exe_DeclarationSHA256 x), VString (exe_PlanSHA256 x), VInt (exe_Generation x),
      VString (exe_ImageReference x), VString (exe_ImageDigest x), VString (exe_RuntimeSHA256 x),
      VString (exe_ProvenanceSHA256 x), VString (exe_RuntimeProvider x), VString (exe_EgressSHA256 x)]"

definition ExecutionIdentity_of :: "gval \<Rightarrow> ExecutionIdentity" where
  "ExecutionIdentity_of v =
     (let vs = g_fields v in
      \<lparr>exe_DeclarationSHA256 = g_string (vs ! 0), exe_PlanSHA256 = g_string (vs ! 1),
       exe_Generation = g_int (vs ! 2), exe_ImageReference = g_string (vs ! 3), exe_ImageDigest = g_string (vs ! 4),
       exe_RuntimeSHA256 = g_string (vs ! 5), exe_ProvenanceSHA256 = g_string (vs ! 6),
       exe_RuntimeProvider = g_string (vs ! 7), exe_EgressSHA256 = g_string (vs ! 8)\<rparr>)"

lemma ExecutionIdentity_of_value [simp]: "ExecutionIdentity_of (ExecutionIdentity_value x) = x"
  by (cases x) (simp add: ExecutionIdentity_of_def ExecutionIdentity_value_def option.map_comp comp_def option.map_ident)

record TargetResult =
  tgt_Kind :: bytes
  tgt_ExitStatus :: "int option"
  tgt_Signal :: "int option"
  tgt_StartedAt :: bytes
  tgt_FinishedAt :: bytes
  tgt_DurationNS :: "int option"

definition TargetResult_shape :: shape where
  "TargetResult_shape = TStruct
     [(''kind'', False, TString), (''exit_status'', True, TPtr TInt64), (''signal'', True, TPtr TInt64),
      (''started_at'', True, TString), (''finished_at'', True, TString), (''duration_ns'', True, TPtr TInt64)]"

definition TargetResult_value :: "TargetResult \<Rightarrow> gval" where
  "TargetResult_value x = VStruct
     [VString (tgt_Kind x), VPtr (map_option VInt (tgt_ExitStatus x)), VPtr (map_option VInt (tgt_Signal x)),
      VString (tgt_StartedAt x), VString (tgt_FinishedAt x), VPtr (map_option VInt (tgt_DurationNS x))]"

definition TargetResult_of :: "gval \<Rightarrow> TargetResult" where
  "TargetResult_of v =
     (let vs = g_fields v in
      \<lparr>tgt_Kind = g_string (vs ! 0), tgt_ExitStatus = map_option g_int (g_ptr (vs ! 1)),
       tgt_Signal = map_option g_int (g_ptr (vs ! 2)), tgt_StartedAt = g_string (vs ! 3),
       tgt_FinishedAt = g_string (vs ! 4), tgt_DurationNS = map_option g_int (g_ptr (vs ! 5))\<rparr>)"

lemma TargetResult_of_value [simp]: "TargetResult_of (TargetResult_value x) = x"
  by (cases x) (simp add: TargetResult_of_def TargetResult_value_def option.map_comp comp_def option.map_ident)

record StreamResult =
  stm_Path :: bytes
  stm_SHA256 :: bytes
  stm_CapturedBytes :: int
  stm_TotalBytes :: int
  stm_Truncated :: bool

definition StreamResult_shape :: shape where
  "StreamResult_shape = TStruct
     [(''path'', False, TString), (''sha256'', False, TString), (''captured_bytes'', False, TInt64),
      (''total_bytes'', False, TInt64), (''truncated'', False, TBool)]"

definition StreamResult_value :: "StreamResult \<Rightarrow> gval" where
  "StreamResult_value x = VStruct
     [VString (stm_Path x), VString (stm_SHA256 x), VInt (stm_CapturedBytes x), VInt (stm_TotalBytes x),
      VBool (stm_Truncated x)]"

definition StreamResult_of :: "gval \<Rightarrow> StreamResult" where
  "StreamResult_of v =
     (let vs = g_fields v in
      \<lparr>stm_Path = g_string (vs ! 0), stm_SHA256 = g_string (vs ! 1), stm_CapturedBytes = g_int (vs ! 2),
       stm_TotalBytes = g_int (vs ! 3), stm_Truncated = g_bool (vs ! 4)\<rparr>)"

lemma StreamResult_of_value [simp]: "StreamResult_of (StreamResult_value x) = x"
  by (cases x) (simp add: StreamResult_of_def StreamResult_value_def option.map_comp comp_def option.map_ident)

record FinalizationResult =
  fin_StartedAt :: bytes
  fin_FinishedAt :: bytes
  fin_DurationNS :: int

definition FinalizationResult_shape :: shape where
  "FinalizationResult_shape = TStruct
     [(''started_at'', False, TString), (''finished_at'', False, TString), (''duration_ns'', False, TInt64)]"

definition FinalizationResult_value :: "FinalizationResult \<Rightarrow> gval" where
  "FinalizationResult_value x = VStruct
     [VString (fin_StartedAt x), VString (fin_FinishedAt x), VInt (fin_DurationNS x)]"

definition FinalizationResult_of :: "gval \<Rightarrow> FinalizationResult" where
  "FinalizationResult_of v =
     (let vs = g_fields v in
      \<lparr>fin_StartedAt = g_string (vs ! 0), fin_FinishedAt = g_string (vs ! 1), fin_DurationNS = g_int (vs ! 2)\<rparr>)"

lemma FinalizationResult_of_value [simp]: "FinalizationResult_of (FinalizationResult_value x) = x"
  by (cases x) (simp add: FinalizationResult_of_def FinalizationResult_value_def option.map_comp comp_def option.map_ident)

record CleanupResult =
  cln_Status :: bytes
  cln_ContainerAbsent :: bool
  cln_ProxyAbsent :: bool
  cln_ProcessGroupEmpty :: bool
  cln_Forced :: bool
  cln_DurationNS :: int
  cln_Reasons :: "bytes list option"

definition CleanupResult_shape :: shape where
  "CleanupResult_shape = TStruct
     [(''status'', False, TString), (''container_absent'', False, TBool), (''proxy_absent'', False, TBool),
      (''process_group_empty'', False, TBool), (''forced'', False, TBool), (''duration_ns'', False, TInt64),
      (''reasons'', False, TSlice TString)]"

definition CleanupResult_value :: "CleanupResult \<Rightarrow> gval" where
  "CleanupResult_value x = VStruct
     [VString (cln_Status x), VBool (cln_ContainerAbsent x), VBool (cln_ProxyAbsent x),
      VBool (cln_ProcessGroupEmpty x), VBool (cln_Forced x), VInt (cln_DurationNS x), VStrings (cln_Reasons x)]"

definition CleanupResult_of :: "gval \<Rightarrow> CleanupResult" where
  "CleanupResult_of v =
     (let vs = g_fields v in
      \<lparr>cln_Status = g_string (vs ! 0), cln_ContainerAbsent = g_bool (vs ! 1), cln_ProxyAbsent = g_bool (vs ! 2),
       cln_ProcessGroupEmpty = g_bool (vs ! 3), cln_Forced = g_bool (vs ! 4), cln_DurationNS = g_int (vs ! 5),
       cln_Reasons = g_strings (vs ! 6)\<rparr>)"

lemma CleanupResult_of_value [simp]: "CleanupResult_of (CleanupResult_value x) = x"
  by (cases x) (simp add: CleanupResult_of_def CleanupResult_value_def option.map_comp comp_def option.map_ident)

record Result =
  res_Schema :: bytes
  res_JobID :: bytes
  res_Status :: bytes
  res_RequestSHA256 :: bytes
  res_EvidenceManifest :: bytes
  res_Identity :: ExecutionIdentity
  res_Target :: TargetResult
  res_Stdout :: StreamResult
  res_Stderr :: StreamResult
  res_Finalization :: FinalizationResult
  res_Cleanup :: CleanupResult
  res_Reasons :: "bytes list option"

definition Result_shape :: shape where
  "Result_shape = TStruct
     [(''schema'', False, TString), (''job_id'', False, TString), (''status'', False, TString),
      (''request_sha256'', False, TString), (''evidence_manifest'', False, TString),
      (''identity'', False, ExecutionIdentity_shape), (''target'', False, TargetResult_shape),
      (''stdout'', False, StreamResult_shape), (''stderr'', False, StreamResult_shape),
      (''finalization'', False, FinalizationResult_shape), (''cleanup'', False, CleanupResult_shape),
      (''reasons'', False, TSlice TString)]"

definition Result_value :: "Result \<Rightarrow> gval" where
  "Result_value x = VStruct
     [VString (res_Schema x), VString (res_JobID x), VString (res_Status x), VString (res_RequestSHA256 x),
      VString (res_EvidenceManifest x), ExecutionIdentity_value (res_Identity x), TargetResult_value (res_Target x),
      StreamResult_value (res_Stdout x), StreamResult_value (res_Stderr x),
      FinalizationResult_value (res_Finalization x), CleanupResult_value (res_Cleanup x), VStrings (res_Reasons x)]"

definition Result_of :: "gval \<Rightarrow> Result" where
  "Result_of v =
     (let vs = g_fields v in
      \<lparr>res_Schema = g_string (vs ! 0), res_JobID = g_string (vs ! 1), res_Status = g_string (vs ! 2),
       res_RequestSHA256 = g_string (vs ! 3), res_EvidenceManifest = g_string (vs ! 4),
       res_Identity = ExecutionIdentity_of (vs ! 5), res_Target = TargetResult_of (vs ! 6),
       res_Stdout = StreamResult_of (vs ! 7), res_Stderr = StreamResult_of (vs ! 8),
       res_Finalization = FinalizationResult_of (vs ! 9), res_Cleanup = CleanupResult_of (vs ! 10),
       res_Reasons = g_strings (vs ! 11)\<rparr>)"

lemma Result_of_value [simp]: "Result_of (Result_value x) = x"
  by (cases x) (simp add: Result_of_def Result_value_def option.map_comp comp_def option.map_ident)

record ManifestEntry =
  ent_Path :: bytes
  ent_Kind :: bytes
  ent_Size :: int
  ent_SHA256 :: bytes

definition ManifestEntry_shape :: shape where
  "ManifestEntry_shape = TStruct
     [(''path'', False, TString), (''kind'', False, TString), (''size'', False, TInt64), (''sha256'', False, TString)]"

definition ManifestEntry_value :: "ManifestEntry \<Rightarrow> gval" where
  "ManifestEntry_value x = VStruct
     [VString (ent_Path x), VString (ent_Kind x), VInt (ent_Size x), VString (ent_SHA256 x)]"

definition ManifestEntry_of :: "gval \<Rightarrow> ManifestEntry" where
  "ManifestEntry_of v =
     (let vs = g_fields v in
      \<lparr>ent_Path = g_string (vs ! 0), ent_Kind = g_string (vs ! 1), ent_Size = g_int (vs ! 2),
       ent_SHA256 = g_string (vs ! 3)\<rparr>)"

lemma ManifestEntry_of_value [simp]: "ManifestEntry_of (ManifestEntry_value x) = x"
  by (cases x) (simp add: ManifestEntry_of_def ManifestEntry_value_def option.map_comp comp_def option.map_ident)

record Manifest =
  man_Schema :: bytes
  man_JobID :: bytes
  man_RequestSHA256 :: bytes
  man_ResultSHA256 :: bytes
  man_ContentSHA256 :: bytes
  man_SealedAt :: bytes
  man_Entries :: "ManifestEntry list option"

definition Manifest_shape :: shape where
  "Manifest_shape = TStruct
     [(''schema'', False, TString), (''job_id'', False, TString), (''request_sha256'', False, TString),
      (''result_sha256'', False, TString), (''content_sha256'', False, TString), (''sealed_at'', False, TString),
      (''entries'', False, TSlice ManifestEntry_shape)]"

definition Manifest_value :: "Manifest \<Rightarrow> gval" where
  "Manifest_value x = VStruct
     [VString (man_Schema x), VString (man_JobID x), VString (man_RequestSHA256 x), VString (man_ResultSHA256 x),
      VString (man_ContentSHA256 x), VString (man_SealedAt x),
      VSlice (map_option (map ManifestEntry_value) (man_Entries x))]"

definition Manifest_of :: "gval \<Rightarrow> Manifest" where
  "Manifest_of v =
     (let vs = g_fields v in
      \<lparr>man_Schema = g_string (vs ! 0), man_JobID = g_string (vs ! 1), man_RequestSHA256 = g_string (vs ! 2),
       man_ResultSHA256 = g_string (vs ! 3), man_ContentSHA256 = g_string (vs ! 4), man_SealedAt = g_string (vs ! 5),
       man_Entries = map_option (map ManifestEntry_of) (g_slice (vs ! 6))\<rparr>)"

lemma Manifest_of_value [simp]: "Manifest_of (Manifest_value x) = x"
  by (cases x) (simp add: Manifest_of_def Manifest_value_def option.map_comp comp_def option.map_ident)

record Provenance =
  prv_Schema :: bytes
  prv_BuildKind :: bytes
  prv_Version :: bytes
  prv_Commit :: bytes
  prv_SourceDate :: bytes
  prv_GoVersion :: bytes
  prv_GOOS :: bytes
  prv_GOARCH :: bytes
  prv_ExecutableSHA256 :: bytes

definition Provenance_shape :: shape where
  "Provenance_shape = TStruct
     [(''schema'', False, TString), (''build_kind'', False, TString), (''version'', False, TString),
      (''commit'', False, TString), (''source_date'', False, TString), (''go_version'', False, TString),
      (''goos'', False, TString), (''goarch'', False, TString), (''executable_sha256'', False, TString)]"

definition Provenance_value :: "Provenance \<Rightarrow> gval" where
  "Provenance_value x = VStruct
     [VString (prv_Schema x), VString (prv_BuildKind x), VString (prv_Version x), VString (prv_Commit x),
      VString (prv_SourceDate x), VString (prv_GoVersion x), VString (prv_GOOS x), VString (prv_GOARCH x),
      VString (prv_ExecutableSHA256 x)]"

definition Provenance_of :: "gval \<Rightarrow> Provenance" where
  "Provenance_of v =
     (let vs = g_fields v in
      \<lparr>prv_Schema = g_string (vs ! 0), prv_BuildKind = g_string (vs ! 1), prv_Version = g_string (vs ! 2),
       prv_Commit = g_string (vs ! 3), prv_SourceDate = g_string (vs ! 4), prv_GoVersion = g_string (vs ! 5),
       prv_GOOS = g_string (vs ! 6), prv_GOARCH = g_string (vs ! 7), prv_ExecutableSHA256 = g_string (vs ! 8)\<rparr>)"

lemma Provenance_of_value [simp]: "Provenance_of (Provenance_value x) = x"
  by (cases x) (simp add: Provenance_of_def Provenance_value_def option.map_comp comp_def option.map_ident)

record RuntimeMountObservation =
  mnt_Role :: bytes
  mnt_AuthoritySource :: bytes
  mnt_AuthoritySHA256 :: bytes
  mnt_PermissionPolicy :: bytes
  mnt_Source :: bytes
  mnt_Target :: bytes
  mnt_Mode :: bytes
  mnt_Device :: int
  mnt_Inode :: int
  mnt_FileType :: bytes
  mnt_SHA256 :: bytes
  mnt_IdentityVerified :: bool

definition RuntimeMountObservation_shape :: shape where
  "RuntimeMountObservation_shape = TStruct
     [(''role'', False, TString), (''authority_source'', True, TString), (''authority_sha256'', True, TString),
      (''permission_policy'', True, TString), (''source'', False, TString), (''target'', False, TString),
      (''mode'', False, TString), (''device'', False, TUint64), (''inode'', False, TUint64),
      (''file_type'', False, TString), (''sha256'', True, TString), (''identity_verified'', False, TBool)]"

definition RuntimeMountObservation_value :: "RuntimeMountObservation \<Rightarrow> gval" where
  "RuntimeMountObservation_value x = VStruct
     [VString (mnt_Role x), VString (mnt_AuthoritySource x), VString (mnt_AuthoritySHA256 x),
      VString (mnt_PermissionPolicy x), VString (mnt_Source x), VString (mnt_Target x), VString (mnt_Mode x),
      VInt (mnt_Device x), VInt (mnt_Inode x), VString (mnt_FileType x), VString (mnt_SHA256 x),
      VBool (mnt_IdentityVerified x)]"

definition RuntimeMountObservation_of :: "gval \<Rightarrow> RuntimeMountObservation" where
  "RuntimeMountObservation_of v =
     (let vs = g_fields v in
      \<lparr>mnt_Role = g_string (vs ! 0), mnt_AuthoritySource = g_string (vs ! 1),
       mnt_AuthoritySHA256 = g_string (vs ! 2), mnt_PermissionPolicy = g_string (vs ! 3),
       mnt_Source = g_string (vs ! 4), mnt_Target = g_string (vs ! 5), mnt_Mode = g_string (vs ! 6),
       mnt_Device = g_int (vs ! 7), mnt_Inode = g_int (vs ! 8), mnt_FileType = g_string (vs ! 9),
       mnt_SHA256 = g_string (vs ! 10), mnt_IdentityVerified = g_bool (vs ! 11)\<rparr>)"

lemma RuntimeMountObservation_of_value [simp]: "RuntimeMountObservation_of (RuntimeMountObservation_value x) = x"
  by (cases x) (simp add: RuntimeMountObservation_of_def RuntimeMountObservation_value_def option.map_comp comp_def option.map_ident)

record NamespaceIdentity =
  ns_Device :: int
  ns_Inode :: int

definition NamespaceIdentity_shape :: shape where
  "NamespaceIdentity_shape = TStruct
     [(''device'', False, TUint64), (''inode'', False, TUint64)]"

definition NamespaceIdentity_value :: "NamespaceIdentity \<Rightarrow> gval" where
  "NamespaceIdentity_value x = VStruct
     [VInt (ns_Device x), VInt (ns_Inode x)]"

definition NamespaceIdentity_of :: "gval \<Rightarrow> NamespaceIdentity" where
  "NamespaceIdentity_of v =
     (let vs = g_fields v in
      \<lparr>ns_Device = g_int (vs ! 0), ns_Inode = g_int (vs ! 1)\<rparr>)"

lemma NamespaceIdentity_of_value [simp]: "NamespaceIdentity_of (NamespaceIdentity_value x) = x"
  by (cases x) (simp add: NamespaceIdentity_of_def NamespaceIdentity_value_def option.map_comp comp_def option.map_ident)

record RuntimeEgressAdmission =
  adm_AllowlistSHA256 :: bytes
  adm_ListenerAddress :: bytes
  adm_OwnerID :: bytes
  adm_PID :: int
  adm_ProcessStart :: bytes
  adm_UserNamespace :: NamespaceIdentity
  adm_NetworkNamespace :: NamespaceIdentity

definition RuntimeEgressAdmission_shape :: shape where
  "RuntimeEgressAdmission_shape = TStruct
     [(''allowlist_sha256'', False, TString), (''listener_address'', False, TString), (''owner_id'', False, TString),
      (''pid'', False, TInt64), (''process_start'', False, TString),
      (''user_namespace'', False, NamespaceIdentity_shape), (''network_namespace'', False, NamespaceIdentity_shape)]"

definition RuntimeEgressAdmission_value :: "RuntimeEgressAdmission \<Rightarrow> gval" where
  "RuntimeEgressAdmission_value x = VStruct
     [VString (adm_AllowlistSHA256 x), VString (adm_ListenerAddress x), VString (adm_OwnerID x), VInt (adm_PID x),
      VString (adm_ProcessStart x), NamespaceIdentity_value (adm_UserNamespace x),
      NamespaceIdentity_value (adm_NetworkNamespace x)]"

definition RuntimeEgressAdmission_of :: "gval \<Rightarrow> RuntimeEgressAdmission" where
  "RuntimeEgressAdmission_of v =
     (let vs = g_fields v in
      \<lparr>adm_AllowlistSHA256 = g_string (vs ! 0), adm_ListenerAddress = g_string (vs ! 1),
       adm_OwnerID = g_string (vs ! 2), adm_PID = g_int (vs ! 3), adm_ProcessStart = g_string (vs ! 4),
       adm_UserNamespace = NamespaceIdentity_of (vs ! 5), adm_NetworkNamespace = NamespaceIdentity_of (vs ! 6)\<rparr>)"

lemma RuntimeEgressAdmission_of_value [simp]: "RuntimeEgressAdmission_of (RuntimeEgressAdmission_value x) = x"
  by (cases x) (simp add: RuntimeEgressAdmission_of_def RuntimeEgressAdmission_value_def option.map_comp comp_def option.map_ident)

record RuntimeObservation =
  obs_Schema :: bytes
  obs_Phase :: bytes
  obs_ObservedAt :: bytes
  obs_Provider :: bytes
  obs_ContainerID :: bytes
  obs_ContainerName :: bytes
  obs_Running :: bool
  obs_ImageReference :: bytes
  obs_ImageDigest :: bytes
  obs_PlanSHA256 :: bytes
  obs_DeclarationSHA256 :: bytes
  obs_Generation :: int
  obs_NetworkMode :: bytes
  obs_IPCMode :: bytes
  obs_IPCIsolated :: bool
  obs_PIDMode :: bytes
  obs_UTSMode :: bytes
  obs_UserNSMode :: bytes
  obs_User :: bytes
  obs_Hostname :: bytes
  obs_WorkingDirectory :: bytes
  obs_BoundingCaps :: "bytes list option"
  obs_NoNewPrivileges :: bool
  obs_SeccompMode :: int
  obs_Devices :: int
  obs_UIDIdentity :: bool
  obs_GIDIdentity :: bool
  obs_MemoryBytes :: int
  obs_NanoCPUs :: int
  obs_PIDs :: int
  obs_Mounts :: "RuntimeMountObservation list option"
  obs_EgressAdmission :: "RuntimeEgressAdmission option"

definition RuntimeObservation_shape :: shape where
  "RuntimeObservation_shape = TStruct
     [(''schema'', False, TString), (''phase'', False, TString), (''observed_at'', False, TString),
      (''provider'', False, TString), (''container_id'', False, TString), (''container_name'', False, TString),
      (''running'', False, TBool), (''image_reference'', False, TString), (''image_digest'', False, TString),
      (''plan_sha256'', False, TString), (''declaration_sha256'', False, TString), (''generation'', False, TInt64),
      (''network_mode'', False, TString), (''ipc_mode'', False, TString), (''ipc_isolated'', False, TBool),
      (''pid_mode'', False, TString), (''uts_mode'', False, TString), (''userns_mode'', False, TString),
      (''user'', False, TString), (''hostname'', False, TString), (''working_directory'', False, TString),
      (''bounding_caps'', False, TSlice TString), (''no_new_privileges'', False, TBool),
      (''seccomp_mode'', False, TInt64), (''devices'', False, TInt64), (''uid_identity'', False, TBool),
      (''gid_identity'', False, TBool), (''memory_bytes'', False, TInt64), (''nano_cpus'', False, TInt64),
      (''pids'', False, TInt64), (''mounts'', False, TSlice RuntimeMountObservation_shape),
      (''egress_admission'', True, TPtr RuntimeEgressAdmission_shape)]"

definition RuntimeObservation_value :: "RuntimeObservation \<Rightarrow> gval" where
  "RuntimeObservation_value x = VStruct
     [VString (obs_Schema x), VString (obs_Phase x), VString (obs_ObservedAt x), VString (obs_Provider x),
      VString (obs_ContainerID x), VString (obs_ContainerName x), VBool (obs_Running x),
      VString (obs_ImageReference x), VString (obs_ImageDigest x), VString (obs_PlanSHA256 x),
      VString (obs_DeclarationSHA256 x), VInt (obs_Generation x), VString (obs_NetworkMode x),
      VString (obs_IPCMode x), VBool (obs_IPCIsolated x), VString (obs_PIDMode x), VString (obs_UTSMode x),
      VString (obs_UserNSMode x), VString (obs_User x), VString (obs_Hostname x), VString (obs_WorkingDirectory x),
      VStrings (obs_BoundingCaps x), VBool (obs_NoNewPrivileges x), VInt (obs_SeccompMode x), VInt (obs_Devices x),
      VBool (obs_UIDIdentity x), VBool (obs_GIDIdentity x), VInt (obs_MemoryBytes x), VInt (obs_NanoCPUs x),
      VInt (obs_PIDs x), VSlice (map_option (map RuntimeMountObservation_value) (obs_Mounts x)),
      VPtr (map_option RuntimeEgressAdmission_value (obs_EgressAdmission x))]"

definition RuntimeObservation_of :: "gval \<Rightarrow> RuntimeObservation" where
  "RuntimeObservation_of v =
     (let vs = g_fields v in
      \<lparr>obs_Schema = g_string (vs ! 0), obs_Phase = g_string (vs ! 1), obs_ObservedAt = g_string (vs ! 2),
       obs_Provider = g_string (vs ! 3), obs_ContainerID = g_string (vs ! 4), obs_ContainerName = g_string (vs ! 5),
       obs_Running = g_bool (vs ! 6), obs_ImageReference = g_string (vs ! 7), obs_ImageDigest = g_string (vs ! 8),
       obs_PlanSHA256 = g_string (vs ! 9), obs_DeclarationSHA256 = g_string (vs ! 10),
       obs_Generation = g_int (vs ! 11), obs_NetworkMode = g_string (vs ! 12), obs_IPCMode = g_string (vs ! 13),
       obs_IPCIsolated = g_bool (vs ! 14), obs_PIDMode = g_string (vs ! 15), obs_UTSMode = g_string (vs ! 16),
       obs_UserNSMode = g_string (vs ! 17), obs_User = g_string (vs ! 18), obs_Hostname = g_string (vs ! 19),
       obs_WorkingDirectory = g_string (vs ! 20), obs_BoundingCaps = g_strings (vs ! 21),
       obs_NoNewPrivileges = g_bool (vs ! 22), obs_SeccompMode = g_int (vs ! 23), obs_Devices = g_int (vs ! 24),
       obs_UIDIdentity = g_bool (vs ! 25), obs_GIDIdentity = g_bool (vs ! 26), obs_MemoryBytes = g_int (vs ! 27),
       obs_NanoCPUs = g_int (vs ! 28), obs_PIDs = g_int (vs ! 29),
       obs_Mounts = map_option (map RuntimeMountObservation_of) (g_slice (vs ! 30)),
       obs_EgressAdmission = map_option RuntimeEgressAdmission_of (g_ptr (vs ! 31))\<rparr>)"

lemma RuntimeObservation_of_value [simp]: "RuntimeObservation_of (RuntimeObservation_value x) = x"
  by (cases x) (simp add: RuntimeObservation_of_def RuntimeObservation_value_def option.map_comp comp_def option.map_ident)

record EgressEvidence =
  egr_Schema :: bytes
  egr_Status :: bytes
  egr_AllowlistSHA256 :: bytes
  egr_ListenerAddress :: bytes
  egr_OwnerID :: bytes
  egr_ContainerID :: bytes
  egr_Generation :: int
  egr_PID :: int
  egr_ProcessStart :: bytes
  egr_UserNamespace :: NamespaceIdentity
  egr_NetworkNamespace :: NamespaceIdentity
  egr_ReadyAt :: bytes
  egr_EnvironmentKeys :: "bytes list option"
  egr_Accepted :: int
  egr_Refused :: int
  egr_DialFailed :: int
  egr_Omitted :: int
  egr_RevokedAt :: bytes
  egr_ListenerClosed :: bool
  egr_ActiveConnectionsZero :: bool
  egr_Joined :: bool
  egr_Reasons :: "bytes list option"

definition EgressEvidence_shape :: shape where
  "EgressEvidence_shape = TStruct
     [(''schema'', False, TString), (''status'', False, TString), (''allowlist_sha256'', False, TString),
      (''listener_address'', False, TString), (''owner_id'', False, TString), (''container_id'', False, TString),
      (''generation'', False, TInt64), (''pid'', False, TInt64), (''process_start'', False, TString),
      (''user_namespace'', False, NamespaceIdentity_shape), (''network_namespace'', False, NamespaceIdentity_shape),
      (''ready_at'', False, TString), (''environment_keys'', False, TSlice TString), (''accepted'', False, TInt64),
      (''refused'', False, TInt64), (''dial_failed'', False, TInt64), (''omitted'', False, TInt64),
      (''revoked_at'', False, TString), (''listener_closed'', False, TBool),
      (''active_connections_zero'', False, TBool), (''joined'', False, TBool), (''reasons'', False, TSlice TString)]"

definition EgressEvidence_value :: "EgressEvidence \<Rightarrow> gval" where
  "EgressEvidence_value x = VStruct
     [VString (egr_Schema x), VString (egr_Status x), VString (egr_AllowlistSHA256 x),
      VString (egr_ListenerAddress x), VString (egr_OwnerID x), VString (egr_ContainerID x), VInt (egr_Generation x),
      VInt (egr_PID x), VString (egr_ProcessStart x), NamespaceIdentity_value (egr_UserNamespace x),
      NamespaceIdentity_value (egr_NetworkNamespace x), VString (egr_ReadyAt x), VStrings (egr_EnvironmentKeys x),
      VInt (egr_Accepted x), VInt (egr_Refused x), VInt (egr_DialFailed x), VInt (egr_Omitted x),
      VString (egr_RevokedAt x), VBool (egr_ListenerClosed x), VBool (egr_ActiveConnectionsZero x),
      VBool (egr_Joined x), VStrings (egr_Reasons x)]"

definition EgressEvidence_of :: "gval \<Rightarrow> EgressEvidence" where
  "EgressEvidence_of v =
     (let vs = g_fields v in
      \<lparr>egr_Schema = g_string (vs ! 0), egr_Status = g_string (vs ! 1), egr_AllowlistSHA256 = g_string (vs ! 2),
       egr_ListenerAddress = g_string (vs ! 3), egr_OwnerID = g_string (vs ! 4), egr_ContainerID = g_string (vs ! 5),
       egr_Generation = g_int (vs ! 6), egr_PID = g_int (vs ! 7), egr_ProcessStart = g_string (vs ! 8),
       egr_UserNamespace = NamespaceIdentity_of (vs ! 9), egr_NetworkNamespace = NamespaceIdentity_of (vs ! 10),
       egr_ReadyAt = g_string (vs ! 11), egr_EnvironmentKeys = g_strings (vs ! 12), egr_Accepted = g_int (vs ! 13),
       egr_Refused = g_int (vs ! 14), egr_DialFailed = g_int (vs ! 15), egr_Omitted = g_int (vs ! 16),
       egr_RevokedAt = g_string (vs ! 17), egr_ListenerClosed = g_bool (vs ! 18),
       egr_ActiveConnectionsZero = g_bool (vs ! 19), egr_Joined = g_bool (vs ! 20), egr_Reasons = g_strings (vs ! 21)\<rparr>)"

lemma EgressEvidence_of_value [simp]: "EgressEvidence_of (EgressEvidence_value x) = x"
  by (cases x) (simp add: EgressEvidence_of_def EgressEvidence_value_def option.map_comp comp_def option.map_ident)

lemmas contract_shapes =
  DeclarationBinding_shape_def EnvironmentItem_shape_def Command_shape_def Limits_shape_def ArtifactRequest_shape_def Request_shape_def ExecutionIdentity_shape_def TargetResult_shape_def StreamResult_shape_def FinalizationResult_shape_def CleanupResult_shape_def Result_shape_def ManifestEntry_shape_def Manifest_shape_def Provenance_shape_def RuntimeMountObservation_shape_def NamespaceIdentity_shape_def RuntimeEgressAdmission_shape_def RuntimeObservation_shape_def EgressEvidence_shape_def

lemmas contract_values =
  DeclarationBinding_value_def EnvironmentItem_value_def Command_value_def Limits_value_def ArtifactRequest_value_def Request_value_def ExecutionIdentity_value_def TargetResult_value_def StreamResult_value_def FinalizationResult_value_def CleanupResult_value_def Result_value_def ManifestEntry_value_def Manifest_value_def Provenance_value_def RuntimeMountObservation_value_def NamespaceIdentity_value_def RuntimeEgressAdmission_value_def RuntimeObservation_value_def EgressEvidence_value_def

end
