(* ===== verification/Jobcontract.thy ===== *)
theory Jobcontract
  imports Jobcontract_Types Go_Time Go_Net Go_Path Go_Crypto "HOL-Library.Char_ord" "HOL-Library.List_Lexorder"
begin

text \<open>
  The validation of the documents of a governed job (\<^verbatim>\<open>internal/jobcontract/validate.go\<close>,
  \<^verbatim>\<open>runtime_observation.go\<close> and \<^verbatim>\<open>mount_source.go\<close>). Strings are compared byte by byte, which is the
  lexicographic order on \<^typ>\<open>bytes\<close>.
\<close>

text \<open>Errors carry the message of the code; those that quote a part of the document carry that part too.\<close>

datatype contract_error =
    Refused bytes
  | RefusedFor bytes bytes
  | DocumentEmpty
  | DocumentTooLarge
  | DocumentNotUTF8
  | DocumentMalformed

type_synonym 'a contract_result = "contract_error + 'a"

section \<open>Texts\<close>

definition MaximumWireInteger :: int where "MaximumWireInteger = 9007199254740991"
definition MaxRuntimeMounts :: nat where "MaxRuntimeMounts = 512"
definition maximumPathBytes :: nat where "maximumPathBytes = 4096"
definition maximumArgumentBytes :: nat where "maximumArgumentBytes = 4096"
definition maximumArguments :: nat where "maximumArguments = 128"
definition maximumEnvironmentItems :: nat where "maximumEnvironmentItems = 128"
definition maximumEnvironmentValue :: nat where "maximumEnvironmentValue = 16384"
definition maximumOutputBytes :: int where "maximumOutputBytes = 67108864"
definition maximumArtifactEntries :: int where "maximumArtifactEntries = 10000"
definition maximumArtifactBytes :: int where "maximumArtifactBytes = 1073741824"
definition maximumManifestEntries :: nat where "maximumManifestEntries = 10032"
definition minimumTimeoutNS :: int where "minimumTimeoutNS = 1000000"
definition maximumTimeoutNS :: int where "maximumTimeoutNS = 24 * 3600 * 1000000000"
definition maximumFinalizeNS :: int where "maximumFinalizeNS = 10 * 60 * 1000000000"

definition is_upper :: "char \<Rightarrow> bool" where "is_upper c = (65 \<le> byte c \<and> byte c \<le> 90)"
definition is_lower :: "char \<Rightarrow> bool" where "is_lower c = (97 \<le> byte c \<and> byte c \<le> 122)"
definition is_alpha :: "char \<Rightarrow> bool" where "is_alpha c = (is_upper c \<or> is_lower c)"
definition is_word :: "char \<Rightarrow> bool" where "is_word c = (is_alpha c \<or> is_digit c)"

text \<open>A pattern of one leading class and a bounded rest.\<close>

definition class_text :: "(char \<Rightarrow> bool) \<Rightarrow> (char \<Rightarrow> bool) \<Rightarrow> nat \<Rightarrow> bytes \<Rightarrow> bool" where
  "class_text P Q n s = (case s of [] \<Rightarrow> False | c # t \<Rightarrow> P c \<and> list_all Q t \<and> length t \<le> n)"

definition portableIDPattern :: "bytes \<Rightarrow> bool" where
  "portableIDPattern = class_text is_word (\<lambda>c. is_word c \<or> c \<in> set ''_.-'') 62"
definition environmentName :: "bytes \<Rightarrow> bool" where
  "environmentName = class_text (\<lambda>c. is_alpha c \<or> c = CHR ''_'') (\<lambda>c. is_word c \<or> c = CHR ''_'') 127"
definition digestPattern :: "bytes \<Rightarrow> bool" where
  "digestPattern s = (HasPrefix s ''sha256:'' \<and> length s = 71 \<and> list_all is_lower_hex (drop 7 s))"
definition containerIDPattern :: "bytes \<Rightarrow> bool" where
  "containerIDPattern s = (length s = 64 \<and> list_all is_lower_hex s)"
definition ownerIDPattern :: "bytes \<Rightarrow> bool" where
  "ownerIDPattern s = (length s = 32 \<and> list_all is_lower_hex s)"
definition commitPattern :: "bytes \<Rightarrow> bool" where
  "commitPattern s = (length s = 40 \<and> list_all is_lower_hex s)"
definition reasonPattern :: "bytes \<Rightarrow> bool" where
  "reasonPattern = class_text is_upper (\<lambda>c. is_upper c \<or> is_digit c \<or> c = CHR ''_'') 63"
definition platformPattern :: "bytes \<Rightarrow> bool" where
  "platformPattern = class_text (\<lambda>c. is_lower c \<or> is_digit c) (\<lambda>c. is_lower c \<or> is_digit c \<or> c \<in> set ''_-'') 31"

definition numeric_identifier :: "bytes \<Rightarrow> bool" where
  "numeric_identifier s = (s = ''0'' \<or> s \<noteq> [] \<and> hd s \<noteq> CHR ''0'' \<and> list_all is_digit s)"

definition prerelease_identifier :: "bytes \<Rightarrow> bool" where
  "prerelease_identifier s = (s \<noteq> [] \<and> list_all (\<lambda>c. is_word c \<or> c = CHR ''-'') s)"

definition versionPattern :: "bytes \<Rightarrow> bool" where
  "versionPattern s =
     (HasPrefix s ''v''
      \<and> (let core = takeWhile (\<lambda>c. c \<noteq> CHR ''-'') (drop 1 s); rest = dropWhile (\<lambda>c. c \<noteq> CHR ''-'') (drop 1 s) in
         length (split_on CHR ''.'' core) = 3 \<and> list_all numeric_identifier (split_on CHR ''.'' core)
         \<and> (rest = [] \<or> list_all prerelease_identifier (split_on CHR ''.'' (tl rest)))))"

definition validVersion :: "bytes \<Rightarrow> bool" where
  "validVersion value =
     (versionPattern value
      \<and> (case IndexByte value CHR ''-'' of
           None \<Rightarrow> True
         | Some at \<Rightarrow>
             list_all (\<lambda>identifier. \<not> (list_all is_digit identifier \<and> 1 < length identifier \<and> hd identifier = CHR ''0''))
               (split_on CHR ''.'' (drop (at + 1) value))))"

definition validID :: "bytes \<Rightarrow> bool" where
  "validID value = (length value \<le> 63 \<and> portableIDPattern value)"

definition validDigest :: "bytes \<Rightarrow> bool" where
  "validDigest value = digestPattern value"

definition validOpaqueText :: "bytes \<Rightarrow> nat \<Rightarrow> nat \<Rightarrow> bool" where
  "validOpaqueText value minimum maximum =
     (minimum \<le> length value \<and> length value \<le> maximum \<and> ValidUTF8 value \<and> CHR 0x00 \<notin> set value)"

definition hasDisplayControls :: "bytes \<Rightarrow> bool" where
  "hasDisplayControls value = list_ex (\<lambda>(r, ok). IsControl r \<or> IsFormat r \<or> r = 8232 \<or> r = 8233) (runes value)"

definition validContainerPath :: "bytes \<Rightarrow> bool" where
  "validContainerPath value =
     (1 < length value \<and> length value \<le> maximumPathBytes \<and> HasPrefix value ''/'' \<and> Clean value = value
      \<and> validOpaqueText value 1 maximumPathBytes)"

definition validOperatorPath :: "bytes \<Rightarrow> bool" where
  "validOperatorPath value = (validContainerPath value \<and> \<not> hasDisplayControls value)"

definition validEvidencePath :: "bytes \<Rightarrow> bool" where
  "validEvidencePath value =
     (validOpaqueText value 1 maximumPathBytes \<and> \<not> HasPrefix value ''/'' \<and> Clean value = value \<and> value \<noteq> ''.''
      \<and> value \<noteq> ''manifest.json'' \<and> \<not> HasPrefix value ''../'' \<and> \<not> Contains value ''/../''
      \<and> \<not> hasDisplayControls value)"

definition ValidateEvidenceRelativePath :: "bytes \<Rightarrow> unit contract_result" where
  "ValidateEvidenceRelativePath value = require (validEvidencePath value) (Refused ''evidence-relative path is invalid'')"

definition validTimestamp :: "bytes \<Rightarrow> bool" where
  "validTimestamp value =
     (case ParseRFC3339Nano value of
        None \<Rightarrow> False
      | Some parsed \<Rightarrow> FormatRFC3339Nano parsed = value \<and> HasSuffix value ''Z'')"

definition validateInterval :: "bytes \<Rightarrow> bytes \<Rightarrow> int \<Rightarrow> unit contract_result" where
  "validateInterval startRaw finishRaw duration =
     (if duration < 0 \<or> MaximumWireInteger < duration \<or> \<not> validTimestamp startRaw \<or> \<not> validTimestamp finishRaw
      then Inl (Refused ''interval is malformed or outside the wire bound'')
      else if Before (the (ParseRFC3339Nano finishRaw)) (the (ParseRFC3339Nano startRaw)) then
          Inl (Refused ''interval finishes before it starts'')
      else Inr ())"

definition validReasons :: "bytes list \<Rightarrow> bool" where
  "validReasons values = (length values \<le> 64 \<and> list_all reasonPattern values \<and> no_repeat [] values)"

section \<open>Requests\<close>

definition RequestSchema :: bytes where "RequestSchema = ''kenogram.job-request.v1''"

text \<open>\<^verbatim>\<open>strings.ToUpper\<close> is only applied to names that match \<open>environmentName\<close>, which are ASCII.\<close>

definition reservedProxyEnvironment :: "bytes \<Rightarrow> bool" where
  "reservedProxyEnvironment name =
     (map upper_ascii name \<in> {''HTTP_PROXY'', ''HTTPS_PROXY'', ''ALL_PROXY'', ''NO_PROXY''})"

fun validate_environment :: "bytes list \<Rightarrow> EnvironmentItem list \<Rightarrow> unit contract_result" where
  "validate_environment seen [] = Inr ()"
| "validate_environment seen (item # rest) =
     (let public = env_PublicValue item \<noteq> None; secret = env_SecretFile item \<noteq> [] in
      if \<not> environmentName (env_Name item) \<or> public = secret
         \<or> (public \<and> \<not> validOpaqueText (the (env_PublicValue item)) 0 maximumEnvironmentValue)
         \<or> (secret \<and> \<not> validOperatorPath (env_SecretFile item)) then
             Inl (Refused ''command environment entry is invalid'')
      else if env_Name item \<in> set seen then Inl (RefusedFor ''command environment contains duplicate name'' (env_Name item))
      else if reservedProxyEnvironment (env_Name item) then
          Inl (Refused ''command environment cannot override governed proxy variables'')
      else validate_environment (env_Name item # seen) rest)"

definition limits_ok :: "Limits \<Rightarrow> bool" where
  "limits_ok l =
     (minimumTimeoutNS \<le> lim_TimeoutNS l \<and> lim_TimeoutNS l \<le> maximumTimeoutNS
      \<and> minimumTimeoutNS \<le> lim_FinalizeNS l \<and> lim_FinalizeNS l \<le> maximumFinalizeNS
      \<and> 0 \<le> lim_StdoutMaxBytes l \<and> lim_StdoutMaxBytes l \<le> maximumOutputBytes
      \<and> 0 \<le> lim_StderrMaxBytes l \<and> lim_StderrMaxBytes l \<le> maximumOutputBytes)"

definition artifacts_ok :: "ArtifactRequest \<Rightarrow> bool" where
  "artifacts_ok a =
     (validOperatorPath (art_ContainerRoot a) \<and> 1 \<le> art_MaxEntries a \<and> art_MaxEntries a \<le> maximumArtifactEntries
      \<and> 1 \<le> art_MaxBytes a \<and> art_MaxBytes a \<le> maximumArtifactBytes)"

definition ValidateRequest :: "Request \<Rightarrow> unit contract_result" where
  "ValidateRequest value =
     (let command = req_Command value; argv = elems (cmd_Argv command) in
      bind_result (require (req_Schema value = RequestSchema) (Refused ''job request schema is invalid'')) (\<lambda>_.
      bind_result (require (validID (req_JobID value)) (Refused ''job_id is not a bounded portable identifier'')) (\<lambda>_.
      bind_result (require (validOperatorPath (bnd_Path (req_Declaration value))
                            \<and> validDigest (bnd_SHA256 (req_Declaration value)))
                                (Refused ''declaration binding is invalid'')) (\<lambda>_.
      bind_result (require (argv \<noteq> [] \<and> length argv \<le> maximumArguments)
          (Refused ''command argv is empty or exceeds its bound'')) (\<lambda>_.
      bind_result (for_each (\<lambda>argument. require (validOpaqueText argument 1 maximumArgumentBytes)
          (Refused ''command argv contains an empty, oversized, invalid, or NUL-bearing argument'')) argv) (\<lambda>_.
      bind_result (require (validOperatorPath (cmd_WorkingDirectory command))
          (Refused ''command working_directory is invalid'')) (\<lambda>_.
      bind_result (require (length (elems (cmd_Environment command)) \<le> maximumEnvironmentItems)
          (Refused ''command environment exceeds its bound'')) (\<lambda>_.
      bind_result (validate_environment [] (elems (cmd_Environment command))) (\<lambda>_.
      bind_result (require (limits_ok (req_Limits value))
          (Refused ''job limits are outside the normative bounds'')) (\<lambda>_.
      require (case req_Artifacts value of None \<Rightarrow> True | Some a \<Rightarrow> artifacts_ok a)
          (Refused ''artifact request is outside the normative bounds'')))))))))))"

section \<open>Results\<close>

definition ResultSchema :: bytes where "ResultSchema = ''kenogram.job-result.v1''"

definition validateExecutionIdentity :: "ExecutionIdentity \<Rightarrow> bool \<Rightarrow> unit contract_result" where
  "validateExecutionIdentity value complete =
     (if \<not> validDigest (exe_DeclarationSHA256 value) \<or> \<not> validDigest (exe_PlanSHA256 value)
         \<or> exe_Generation value < 0 \<or> MaximumWireInteger < exe_Generation value
         \<or> \<not> validOpaqueText (exe_ImageReference value) 1 maximumPathBytes
         \<or> (exe_ImageDigest value \<noteq> [] \<and> \<not> validDigest (exe_ImageDigest value))
         \<or> (exe_RuntimeSHA256 value \<noteq> [] \<and> \<not> validDigest (exe_RuntimeSHA256 value))
         \<or> (exe_EgressSHA256 value \<noteq> [] \<and> \<not> validDigest (exe_EgressSHA256 value))
         \<or> \<not> validDigest (exe_ProvenanceSHA256 value) then Inl (Refused ''execution identity is invalid'')
      else if exe_RuntimeProvider value \<noteq> [] \<and> exe_RuntimeProvider value \<noteq> ''podman-cli'' then
          Inl (Refused ''execution runtime provider is invalid'')
      else if complete \<and> (exe_Generation value < 1 \<or> exe_ImageDigest value = [] \<or> exe_RuntimeSHA256 value = []
                \<or> exe_RuntimeProvider value \<noteq> ''podman-cli'') then
                    Inl (Refused ''complete result lacks an observed execution identity'')
      else Inr ())"

definition validateTarget :: "TargetResult \<Rightarrow> unit contract_result" where
  "validateTarget value =
     (let timed = (case tgt_DurationNS value of
                     None \<Rightarrow> Inl (Refused ''observed target result lacks a duration'')
                   | Some duration \<Rightarrow> validateInterval (tgt_StartedAt value) (tgt_FinishedAt value) duration) in
      if tgt_Kind value = ''exited'' then
        (case tgt_ExitStatus value of
           None \<Rightarrow> Inl (Refused ''exited target result has invalid status or signal'')
         | Some status \<Rightarrow>
             if status < 0 \<or> 255 < status \<or> tgt_Signal value \<noteq> None then
                 Inl (Refused ''exited target result has invalid status or signal'') else timed)
      else if tgt_Kind value = ''signaled'' then
        (case tgt_Signal value of
           None \<Rightarrow> Inl (Refused ''signaled target result has invalid signal or status'')
         | Some signal \<Rightarrow>
             if signal < 1 \<or> 64 < signal \<or> tgt_ExitStatus value \<noteq> None then
                 Inl (Refused ''signaled target result has invalid signal or status'') else timed)
      else if tgt_Kind value = ''not_started'' \<or> tgt_Kind value = ''unknown'' then
        (if tgt_ExitStatus value \<noteq> None \<or> tgt_Signal value \<noteq> None \<or> tgt_StartedAt value \<noteq> []
            \<or> tgt_FinishedAt value \<noteq> [] \<or> tgt_DurationNS value \<noteq> None
         then Inl (RefusedFor ''target result invents lifecycle evidence'' (tgt_Kind value)) else Inr ())
      else Inl (Refused ''target result kind is invalid''))"

definition validateStream :: "StreamResult \<Rightarrow> bytes \<Rightarrow> unit contract_result" where
  "validateStream value expectedPath =
     require (stm_Path value = expectedPath \<and> validDigest (stm_SHA256 value) \<and> 0 \<le> stm_CapturedBytes value
       \<and> 0 \<le> stm_TotalBytes value \<and> stm_CapturedBytes value \<le> stm_TotalBytes value
       \<and> stm_TotalBytes value \<le> MaximumWireInteger
       \<and> stm_Truncated value = (stm_CapturedBytes value < stm_TotalBytes value))
           (Refused ''stream evidence is invalid'')"

definition validateCleanup :: "CleanupResult \<Rightarrow> unit contract_result" where
  "validateCleanup value =
     (if cln_Status value \<notin> {''complete'', ''incomplete''} \<or> cln_DurationNS value < 0
         \<or> MaximumWireInteger < cln_DurationNS value \<or> \<not> validReasons (elems (cln_Reasons value)) then
             Inl (Refused ''cleanup evidence is invalid'')
      else if cln_Status value = ''complete'' then
        (if \<not> cln_ContainerAbsent value \<or> \<not> cln_ProxyAbsent value \<or> \<not> cln_ProcessGroupEmpty value
            \<or> elems (cln_Reasons value) \<noteq> [] then
                Inl (Refused ''complete cleanup does not prove owned resources absent'') else Inr ())
      else require (elems (cln_Reasons value) \<noteq> []) (Refused ''incomplete cleanup lacks a reason''))"

definition ValidateTargetResult :: "TargetResult \<Rightarrow> unit contract_result" where
  "ValidateTargetResult value = validateTarget value"

definition ValidateCleanupResult :: "CleanupResult \<Rightarrow> unit contract_result" where
  "ValidateCleanupResult value = validateCleanup value"

definition validate_status :: "Result \<Rightarrow> unit contract_result" where
  "validate_status value =
     (let reasons = elems (res_Reasons value); kind = tgt_Kind (res_Target value); cleanup = cln_Status (res_Cleanup value) in
      if res_Status value = ''complete'' then
        require (\<not> (reasons \<noteq> [] \<or> kind = ''not_started'' \<or> kind = ''unknown'' \<or> stm_Truncated (res_Stdout value)
          \<or> stm_Truncated (res_Stderr value) \<or> cleanup \<noteq> ''complete''))
              (Refused ''complete job result carries incomplete evidence'')
      else if res_Status value = ''incomplete'' then require (reasons \<noteq> [])
          (Refused ''incomplete job result lacks a reason'')
      else require (\<not> (reasons = [] \<or> kind \<noteq> ''not_started'' \<or> cleanup \<noteq> ''complete''))
          (Refused ''refused job result has inconsistent target or cleanup evidence''))"

definition ValidateResult :: "Result \<Rightarrow> unit contract_result" where
  "ValidateResult value =
     bind_result (require (res_Schema value = ResultSchema \<and> validID (res_JobID value)
       \<and> validDigest (res_RequestSHA256 value) \<and> res_EvidenceManifest value = ''manifest.json'')
           (Refused ''job result envelope is invalid'')) (\<lambda>_.
     bind_result (require (res_Status value \<in> {''complete'', ''incomplete'', ''refused''})
         (Refused ''job result status is invalid'')) (\<lambda>_.
     bind_result (validateExecutionIdentity (res_Identity value) (res_Status value = ''complete'')) (\<lambda>_.
     bind_result (validateTarget (res_Target value)) (\<lambda>_.
     bind_result (validateStream (res_Stdout value) ''stdout.bin'') (\<lambda>_.
     bind_result (validateStream (res_Stderr value) ''stderr.bin'') (\<lambda>_.
     bind_result (validateInterval (fin_StartedAt (res_Finalization value)) (fin_FinishedAt (res_Finalization value))
       (fin_DurationNS (res_Finalization value))) (\<lambda>_.
     bind_result (validateCleanup (res_Cleanup value)) (\<lambda>_.
     bind_result (require (validReasons (elems (res_Reasons value)))
         (Refused ''job result reasons are invalid'')) (\<lambda>_.
     validate_status value)))))))))"

section \<open>Manifests\<close>

definition ManifestSchema :: bytes where "ManifestSchema = ''kenogram.job-evidence-manifest.v1''"

definition entry_kinds :: "bytes list" where
  "entry_kinds = [''request'', ''declaration'', ''plan'', ''provenance'', ''runtime'', ''egress'', ''stdout'', ''stderr'', ''result'',
     ''target_inventory'', ''target_artifact'']"

definition required_entries :: "bytes list" where
  "required_entries = [''declaration.toml'', ''plan.json'', ''provenance.json'', ''request.json'', ''result.json'',
     ''runtime-after.json'', ''runtime-before.json'', ''stderr.bin'', ''stdout.bin'']"

definition expected_kinds :: "(bytes \<times> bytes) list" where
  "expected_kinds =
     [(''declaration.toml'', ''declaration''), (''plan.json'', ''plan''), (''provenance.json'', ''provenance''),
      (''request.json'', ''request''), (''result.json'', ''result''), (''runtime-after.json'', ''runtime''),
      (''runtime-before.json'', ''runtime''), (''stderr.bin'', ''stderr''), (''stdout.bin'', ''stdout''),
      (''egress.json'', ''egress''), (''target-inventory.json'', ''target_inventory'')]"

fun manifest_entries :: "Manifest \<Rightarrow> bytes \<Rightarrow> ManifestEntry list \<Rightarrow> unit contract_result" where
  "manifest_entries value prior [] = Inr ()"
| "manifest_entries value prior (entry # rest) =
     (if \<not> validEvidencePath (ent_Path entry) \<or> ent_Path entry \<le> prior \<or> ent_Kind entry \<notin> set entry_kinds
         \<or> ent_Size entry < 0 \<or> MaximumWireInteger < ent_Size entry \<or> \<not> validDigest (ent_SHA256 entry)
      then Inl (Refused ''job evidence manifest entry is invalid, duplicated, or unordered'')
      else if ent_Path entry = ''request.json'' \<and> ent_SHA256 entry \<noteq> man_RequestSHA256 value then
          Inl (Refused ''manifest request digest disagrees with request entry'')
      else if ent_Path entry = ''result.json'' \<and> ent_SHA256 entry \<noteq> man_ResultSHA256 value then
          Inl (Refused ''manifest result digest disagrees with result entry'')
      else manifest_entries value (ent_Path entry) rest)"

definition ValidateManifest :: "Manifest \<Rightarrow> unit contract_result" where
  "ValidateManifest value =
     (let entries = elems (man_Entries value) in
      bind_result (require (man_Schema value = ManifestSchema \<and> validID (man_JobID value) \<and> validDigest (man_RequestSHA256 value)
        \<and> validDigest (man_ResultSHA256 value) \<and> validDigest (man_ContentSHA256 value) \<and> validTimestamp (man_SealedAt value)
        \<and> entries \<noteq> [] \<and> length entries \<le> maximumManifestEntries)
            (Refused ''job evidence manifest envelope is invalid'')) (\<lambda>_.
      bind_result (manifest_entries value [] entries) (\<lambda>_.
      bind_result (for_each (\<lambda>required. require (required \<in> set (map ent_Path entries)) (RefusedFor ''job evidence manifest omits'' required)) required_entries) (\<lambda>_.
      for_each (\<lambda>entry. require (case map_of expected_kinds (ent_Path entry) of None \<Rightarrow> True | Some k \<Rightarrow> ent_Kind entry = k)
        (RefusedFor ''manifest entry has an unexpected kind'' (ent_Path entry))) entries))))"

section \<open>Egress evidence and provenance\<close>

definition EgressEvidenceSchema :: bytes where "EgressEvidenceSchema = ''kenogram.job-egress-evidence.v1''"

definition validNamespaceIdentity :: "NamespaceIdentity \<Rightarrow> bool" where
  "validNamespaceIdentity value = (ns_Device value \<le> MaximumWireInteger \<and> 0 < ns_Inode value \<and> ns_Inode value \<le> MaximumWireInteger)"

definition validWireCount :: "int \<Rightarrow> bool" where
  "validWireCount value = (0 \<le> value \<and> value \<le> MaximumWireInteger)"

definition proxy_keys :: "bytes list" where
  "proxy_keys = [''ALL_PROXY'', ''HTTPS_PROXY'', ''HTTP_PROXY'', ''all_proxy'', ''https_proxy'', ''http_proxy'']"

definition egress_envelope :: "EgressEvidence \<Rightarrow> bool" where
  "egress_envelope value =
     (egr_Schema value = EgressEvidenceSchema \<and> egr_Status value \<in> {''complete'', ''incomplete''}
      \<and> validDigest (egr_AllowlistSHA256 value)
      \<and> containerIDPattern (egr_ContainerID value) \<and> ownerIDPattern (egr_OwnerID value)
      \<and> 1 \<le> egr_Generation value \<and> egr_Generation value \<le> MaximumWireInteger
      \<and> 1 \<le> egr_PID value \<and> egr_PID value \<le> MaximumWireInteger \<and> validOpaqueText (egr_ProcessStart value) 1 256
      \<and> validTimestamp (egr_ReadyAt value)
      \<and> validNamespaceIdentity (egr_UserNamespace value) \<and> validNamespaceIdentity (egr_NetworkNamespace value)
      \<and> validWireCount (egr_Accepted value) \<and> validWireCount (egr_Refused value) \<and> validWireCount (egr_DialFailed value)
      \<and> validWireCount (egr_Omitted value) \<and> validReasons (elems (egr_Reasons value)))"

definition ValidateEgressEvidence :: "EgressEvidence \<Rightarrow> unit contract_result" where
  "ValidateEgressEvidence value =
     bind_result (require (egress_envelope value) (Refused ''egress evidence envelope is invalid'')) (\<lambda>_.
     bind_result (require (canonical_loopback (egr_ListenerAddress value))
         (Refused ''egress listener is not a canonical loopback address'')) (\<lambda>_.
     bind_result (require (elems (egr_EnvironmentKeys value) = proxy_keys)
         (Refused ''egress environment key inventory is invalid'')) (\<lambda>_.
     bind_result (require (egr_RevokedAt value \<noteq> [] \<and> validTimestamp (egr_RevokedAt value))
         (Refused ''egress revocation timestamp is invalid'')) (\<lambda>_.
     if egr_Status value = ''complete''
     then require (egr_ListenerClosed value \<and> egr_ActiveConnectionsZero value \<and> egr_Joined value
            \<and> elems (egr_Reasons value) = []) (Refused ''complete egress evidence lacks revocation and join proof'')
     else require (elems (egr_Reasons value) \<noteq> []) (Refused ''incomplete egress evidence lacks a reason'')))))"

definition ProvenanceSchema :: bytes where "ProvenanceSchema = ''kenogram.executable-provenance.v1''"

definition ValidateProvenance :: "Provenance \<Rightarrow> unit contract_result" where
  "ValidateProvenance value =
     bind_result (require (prv_Schema value = ProvenanceSchema \<and> prv_BuildKind value \<in> {''development'', ''release''}
       \<and> validOpaqueText (prv_Version value) 1 128 \<and> validOpaqueText (prv_GoVersion value) 1 128
       \<and> HasPrefix (prv_GoVersion value) ''go1.'' \<and> platformPattern (prv_GOOS value) \<and> platformPattern (prv_GOARCH value)
       \<and> validDigest (prv_ExecutableSHA256 value)) (Refused ''executable provenance envelope is invalid'')) (\<lambda>_.
     if prv_BuildKind value = ''release''
     then require (validVersion (prv_Version value) \<and> commitPattern (prv_Commit value) \<and> validTimestamp (prv_SourceDate value))
         (Refused ''release provenance contains placeholder or malformed source identity'')
     else
       bind_result (require (prv_Version value = ''dev'' \<or> validVersion (prv_Version value))
           (Refused ''development provenance version is invalid'')) (\<lambda>_.
       bind_result (require (prv_Commit value = ''unknown'' \<or> commitPattern (prv_Commit value))
           (Refused ''development provenance commit is invalid'')) (\<lambda>_.
       require (prv_SourceDate value = ''unknown'' \<or> validTimestamp (prv_SourceDate value))
           (Refused ''development provenance source date is invalid''))))"

section \<open>Runtime observations\<close>

definition RuntimeObservationSchema :: bytes where "RuntimeObservationSchema = ''kenogram.podman-runtime-observation.v1''"
definition RuntimeLifecycleSource :: bytes where "RuntimeLifecycleSource = ''kenogram-lifecycle:v1''"
definition RuntimeReadOnlyPermissionPolicy :: bytes where "RuntimeReadOnlyPermissionPolicy = ''portable-readonly-v1''"
definition RuntimeWorkspacePermissionPolicy :: bytes where "RuntimeWorkspacePermissionPolicy = ''portable-writable-v1''"

definition RuntimeMountSource :: "bytes \<Rightarrow> bytes \<Rightarrow> bytes \<Rightarrow> bytes \<Rightarrow> bytes \<Rightarrow> bytes contract_result" where
  "RuntimeMountSource role target mode authoritySource contentDigest =
     (if role = ''declared'' then
        (if \<not> IsAbs authoritySource \<or> Clean authoritySource \<noteq> authoritySource then
            Inl (Refused ''declared mount authority source is invalid'')
         else if mode = ''rw'' \<and> contentDigest = [] then Inr authoritySource
         else if mode = ''ro'' \<and> digestPattern contentDigest then Inr (''kenogram-snapshot:'' @ contentDigest)
         else Inl (Refused ''runtime mount role, mode, authority, and digest are inconsistent''))
      else if role = ''helper'' \<and> mode = ''ro'' \<and> authoritySource = [] \<and> digestPattern contentDigest
      then Inr (''kenogram-snapshot:'' @ contentDigest)
      else if role = ''workspace'' \<and> mode = ''rw'' \<and> authoritySource = [] \<and> IsAbs target \<and> Clean target = target \<and> contentDigest = []
      then Inr (''kenogram-workspace:sha256:'' @ sha256_hex target)
      else if role = ''lifecycle'' \<and> mode = ''rw'' \<and> authoritySource = [] \<and> contentDigest = [] then Inr RuntimeLifecycleSource
      else Inl (Refused ''runtime mount role, mode, authority, and digest are inconsistent''))"

definition mount_ok :: "RuntimeMountObservation \<Rightarrow> bool" where
  "mount_ok mount =
     (let role = mnt_Role mount; mode = mnt_Mode mount;
          validRole = (role \<in> {''declared'', ''workspace'', ''helper'', ''lifecycle''});
          validRoleType = (role = ''declared'' \<or> ((role = ''helper'' \<or> role = ''lifecycle'') \<and> mnt_FileType mount = ''file'')
            \<or> (role = ''workspace'' \<and> mnt_FileType mount = ''directory''));
          validContent = ((mode = ''ro'' \<and> digestPattern (mnt_SHA256 mount)) \<or> (mode = ''rw'' \<and> mnt_SHA256 mount = []));
          validAuthority = ((role = ''declared'' \<and> IsAbs (mnt_AuthoritySource mount)
              \<and> Clean (mnt_AuthoritySource mount) = mnt_AuthoritySource mount)
            \<or> (role \<noteq> ''declared'' \<and> mnt_AuthoritySource mount = []));
          declaredReadOnly = (role = ''declared'' \<and> mode = ''ro'');
          workspace = (role = ''workspace'');
          validProjection =
            ((declaredReadOnly \<and> digestPattern (mnt_AuthoritySHA256 mount) \<and> mnt_PermissionPolicy mount = RuntimeReadOnlyPermissionPolicy)
             \<or> (workspace \<and> mnt_AuthoritySHA256 mount = [] \<and> mnt_PermissionPolicy mount = RuntimeWorkspacePermissionPolicy)
             \<or> (\<not> declaredReadOnly \<and> \<not> workspace \<and> mnt_AuthoritySHA256 mount = [] \<and> mnt_PermissionPolicy mount = []));
          expected = RuntimeMountSource role (mnt_Target mount) mode (mnt_AuthoritySource mount) (mnt_SHA256 mount)
      in validRole \<and> validRoleType \<and> validContent \<and> validAuthority \<and> validProjection \<and> expected = Inr (mnt_Source mount)
         \<and> IsAbs (mnt_Target mount) \<and> Clean (mnt_Target mount) = mnt_Target mount \<and> (mode = ''ro'' \<or> mode = ''rw'')
         \<and> mnt_Device mount \<le> MaximumWireInteger \<and> mnt_Inode mount \<noteq> 0 \<and> mnt_Inode mount \<le> MaximumWireInteger
         \<and> (mnt_FileType mount = ''file'' \<or> mnt_FileType mount = ''directory'') \<and> mnt_IdentityVerified mount)"

fun validate_runtime_mounts :: "bytes list \<Rightarrow> RuntimeMountObservation list \<Rightarrow> unit contract_result" where
  "validate_runtime_mounts seen [] = Inr ()"
| "validate_runtime_mounts seen (mount # rest) =
     (if \<not> mount_ok mount then Inl (RefusedFor ''runtime mount is invalid'' (mnt_Target mount))
      else if mnt_Target mount \<in> set seen then Inl (RefusedFor ''duplicate runtime mount'' (mnt_Target mount))
      else validate_runtime_mounts (mnt_Target mount # seen) rest)"

definition admission_ok :: "RuntimeEgressAdmission \<Rightarrow> bool" where
  "admission_ok admission =
     (validDigest (adm_AllowlistSHA256 admission) \<and> ownerIDPattern (adm_OwnerID admission)
      \<and> 1 \<le> adm_PID admission \<and> adm_PID admission \<le> MaximumWireInteger \<and> validOpaqueText (adm_ProcessStart admission) 1 256
      \<and> validNamespaceIdentity (adm_UserNamespace admission) \<and> validNamespaceIdentity (adm_NetworkNamespace admission)
      \<and> canonical_loopback (adm_ListenerAddress admission))"

definition ValidateRuntimeObservation :: "RuntimeObservation \<Rightarrow> unit contract_result" where
  "ValidateRuntimeObservation value =
     (let mounts = elems (obs_Mounts value) in
      bind_result (require (obs_Schema value = RuntimeObservationSchema \<and> obs_Phase value \<in> {''before'', ''after''}
        \<and> obs_Provider value = ''podman-cli'')
            (Refused ''runtime observation schema, phase, or provider is invalid'')) (\<lambda>_.
      bind_result (require (ParseRFC3339Nano (obs_ObservedAt value) \<noteq> None)
          (Refused ''runtime observation timestamp is invalid'')) (\<lambda>_.
      bind_result (require (containerIDPattern (obs_ContainerID value) \<and> obs_ContainerName value \<noteq> []
        \<and> \<not> ContainsAny (obs_ContainerName value) [CHR 0x00, CHR ''/'', CHR 0x0D, CHR 0x0A])
            (Refused ''runtime container identity is invalid'')) (\<lambda>_.
      bind_result (require (obs_ImageReference value \<noteq> [] \<and> digestPattern (obs_ImageDigest value) \<and> digestPattern (obs_PlanSHA256 value)
        \<and> digestPattern (obs_DeclarationSHA256 value) \<and> 1 \<le> obs_Generation value \<and> obs_Generation value \<le> MaximumWireInteger)
            (Refused ''runtime content identity is invalid'')) (\<lambda>_.
      bind_result (require (obs_NetworkMode value \<noteq> [] \<and> obs_IPCMode value \<noteq> [] \<and> obs_PIDMode value \<noteq> [] \<and> obs_UTSMode value \<noteq> []
        \<and> obs_UserNSMode value \<noteq> [] \<and> obs_User value \<noteq> [] \<and> obs_Hostname value \<noteq> [] \<and> IsAbs (obs_WorkingDirectory value)
        \<and> Clean (obs_WorkingDirectory value) = obs_WorkingDirectory value)
            (Refused ''runtime configuration observation is invalid'')) (\<lambda>_.
      bind_result (require (0 \<le> obs_Devices value \<and> 1 \<le> obs_MemoryBytes value \<and> 1 \<le> obs_NanoCPUs value \<and> 1 \<le> obs_PIDs value)
          (Refused ''runtime resource observation is invalid'')) (\<lambda>_.
      bind_result (validate_runtime_mounts [] mounts) (\<lambda>_.
      bind_result (require (mounts \<noteq> [] \<and> length mounts \<le> MaxRuntimeMounts \<and> sorted (map mnt_Target mounts))
          (Refused ''runtime mount inventory is empty or unsorted'')) (\<lambda>_.
      bind_result (require (\<not> (obs_Phase value = ''after'' \<and> obs_EgressAdmission value \<noteq> None))
          (Refused ''stopped runtime observation cannot claim a live egress admission'')) (\<lambda>_.
      require (case obs_EgressAdmission value of None \<Rightarrow> True | Some admission \<Rightarrow> admission_ok admission)
          (Refused ''runtime egress admission is invalid'')))))))))))"

end
