(* ===== verification/Go_Document.thy ===== *)
theory Go_Document
  imports Go_Struct
begin

text \<open>
  Whole documents as \<^verbatim>\<open>json.Encoder\<close> writes them: one value without HTML escapes and a newline, compact
  or indented by two spaces. Both forms are valid UTF-8 and read back as the value that was written.
\<close>

definition Encode :: "shape \<Rightarrow> gval \<Rightarrow> bytes" where
  "Encode t v = json_encode False (marshal t v) @ [newline]"

fun distinct_keys :: "json \<Rightarrow> bool" where
  "distinct_keys (JArr js) = list_all distinct_keys js"
| "distinct_keys (JObj ms) = (distinct (map fst ms) \<and> list_all (\<lambda>(k, j). distinct_keys j) ms)"
| "distinct_keys _ = True"

section \<open>Keys\<close>

lemma marshal_keys: "set (map fst (marshal_fields fs vs)) \<subseteq> set (map fst fs)"
  by (induction fs vs rule: marshal_marshal_list_marshal_fields.induct(3) [where P = "\<lambda>t v. True" and Q = "\<lambda>t vs. True"]) auto

lemma marshal_distinct_keys:
  "shaped t v \<Longrightarrow> distinct_keys (marshal t v)"
  "shaped_list t vs \<Longrightarrow> list_all distinct_keys (marshal_list t vs)"
  "shaped_fields fs ws \<Longrightarrow> distinct (map fst fs) \<Longrightarrow>
     distinct (map fst (marshal_fields fs ws)) \<and> list_all (\<lambda>(k, j). distinct_keys j) (marshal_fields fs ws)"
proof (induction t v and t vs and fs ws rule: marshal_marshal_list_marshal_fields.induct)
  case (10 n om t fs v vs)
  then show ?case using marshal_keys [of fs vs] by auto
qed (auto simp: jint_def)

section \<open>Valid UTF-8\<close>

definition utf8_piece :: "bytes \<Rightarrow> bool" where
  "utf8_piece s = (\<forall>t. ValidUTF8 (s @ t) \<longleftrightarrow> ValidUTF8 t)"

lemma utf8_piece_ascii: "list_all is_ascii s \<Longrightarrow> utf8_piece s"
  by (induction s) (auto simp: utf8_piece_def ValidUTF8_ascii_Cons is_ascii_def)

lemma utf8_piece_append: "utf8_piece s \<Longrightarrow> utf8_piece t \<Longrightarrow> utf8_piece (s @ t)"
  by (simp add: utf8_piece_def)

lemma utf8_piece_Nil [simp]: "utf8_piece []"
  by (simp add: utf8_piece_def)

lemma utf8_piece_Cons: "is_ascii c \<Longrightarrow> utf8_piece (c # s) \<longleftrightarrow> utf8_piece s"
  by (simp add: utf8_piece_def ValidUTF8_ascii_Cons is_ascii_def)

lemma utf8_piece_join: "list_all utf8_piece ss \<Longrightarrow> utf8_piece sep \<Longrightarrow> utf8_piece (join_with sep ss)"
  by (induction sep ss rule: join_with.induct) (auto intro: utf8_piece_append)

lemma utf8_piece_valid: "utf8_piece s \<Longrightarrow> ValidUTF8 s"
  unfolding utf8_piece_def by (metis ValidUTF8_Nil append_Nil2)

lemma escape_ascii_ascii: "byte c < (128 :: nat) \<Longrightarrow> list_all is_ascii (escape_ascii html c)"
proof -
  assume c: "byte c < (128 :: nat)"
  have "is_ascii (hex_digit d)" if "d < 16" for d
    using that by (auto simp: is_ascii_def hex_digit_def)
  then have "is_ascii (hex_digit (byte c div 16))" "is_ascii (hex_digit (byte c mod 16))" by simp_all
  moreover have "is_ascii c" "is_ascii backslash" using c by (simp_all add: is_ascii_def backslash_def)
  ultimately show ?thesis
    by (auto simp: escape_ascii_def is_ascii_def)
qed

lemma utf8_json_escape: "utf8_piece (json_escape html s)"
proof (induction html s rule: json_escape.induct)
  case (2 html c s)
  show ?case
  proof (cases "byte c < (128 :: nat)")
    case True
    then show ?thesis
      using 2(1) escape_ascii_ascii [of c html] by (auto intro: utf8_piece_append utf8_piece_ascii)
  next
    case False
    obtain r k ok where d: "decode_rune c s = (r, k, ok)" by (cases "decode_rune c s")
    have esc: "list_all is_ascii ([backslash] @ ''ufffd'')" "list_all is_ascii ([backslash] @ ''u2028'')"
      "list_all is_ascii ([backslash] @ ''u2029'')" by (simp_all add: is_ascii_def backslash_def)
    have "utf8_piece (c # take k s)" if ok
      using ValidUTF8_rune [of c s r k] d that by (simp add: utf8_piece_def)
    then show ?thesis
      using 2 False d esc [THEN utf8_piece_ascii] utf8_piece_append [of "c # take k s"]
      by (cases ok) (auto intro: utf8_piece_append simp flip: append_assoc append.simps(2) simp del: append_assoc)
  qed
qed simp

lemma utf8_json_quote: "utf8_piece (json_quote html s)"
  unfolding json_quote_def
  by (intro utf8_piece_append utf8_json_escape utf8_piece_ascii) (simp_all add: is_ascii_def quote_char_def)

lemma num_char_ascii: "num_char c \<Longrightarrow> is_ascii c"
  by (auto simp: num_char_def is_digit_def is_ascii_def)

lemma utf8_json_encode: "json_ok v \<Longrightarrow> utf8_piece (json_encode html v)"
proof (induction html v rule: json_encode.induct)
  case (3 html n)
  then show ?case by (auto intro!: utf8_piece_ascii num_char_ascii simp: list_all_iff)
next
  case (5 html vs)
  then have "utf8_piece (join_with '','' (map (json_encode html) vs))"
    by (intro utf8_piece_join) (auto simp: list_all_iff utf8_piece_Cons is_ascii_def)
  then show ?case by (simp add: utf8_piece_Cons is_ascii_def) (rule utf8_piece_append, simp_all add: utf8_piece_Cons is_ascii_def)
next
  case (6 html ms)
  have "utf8_piece (json_quote html k @ '':'' @ json_encode html v)" if "(k, v) \<in> set ms" for k v
    using 6 that by (intro utf8_piece_append utf8_json_quote) (auto simp: list_all_iff utf8_piece_Cons is_ascii_def)
  then have "utf8_piece (join_with '','' (map (\<lambda>(k, v). json_quote html k @ '':'' @ json_encode html v) ms))"
    by (intro utf8_piece_join) (auto simp: list_all_iff utf8_piece_Cons is_ascii_def)
  then show ?case by (simp add: utf8_piece_Cons is_ascii_def) (rule utf8_piece_append, simp_all add: utf8_piece_Cons is_ascii_def)
qed (auto simp: utf8_piece_Cons is_ascii_def utf8_json_quote)

section \<open>Round trip\<close>

lemma is_ws_newline [simp]: "is_ws newline"
  by (simp add: newline_def is_ws_def)

lemma Unmarshal_encode:
  assumes "shaped t v" and "utf8_value v" and "shape_names t" and "shape_depth t \<le> max_nesting" and "skip_ws ws = []"
  shows "Unmarshal strict t (json_encode html (marshal t v) @ ws) = Some v"
proof -
  have "json_parse (json_encode html (marshal t v) @ ws) = Some (marshal t v)"
    by (rule json_parse_encode [OF marshal_ok(1) [OF assms(2,3)] assms(5)])
  moreover have "json_depth (marshal t v) \<le> max_nesting"
    using marshal_depth(1) assms(4) order_trans by blast
  ultimately show ?thesis
    by (simp add: Unmarshal_def unmarshal_marshal(1) [OF assms(1)])
qed

lemma Unmarshal_Encode:
  assumes "shaped t v" and "utf8_value v" and "shape_names t" and "shape_depth t \<le> max_nesting"
  shows "Unmarshal strict t (Encode t v) = Some v"
  using Unmarshal_encode [OF assms, of "[newline]"] by (simp add: Encode_def)

lemma Encode_parse:
  assumes "utf8_value v" and "shape_names t"
  shows "json_parse (Encode t v) = Some (marshal t v)"
  unfolding Encode_def by (rule json_parse_encode [OF marshal_ok(1) [OF assms]]) simp

lemma Encode_valid:
  assumes "utf8_value v" and "shape_names t"
  shows "ValidUTF8 (Encode t v)"
proof -
  have "utf8_piece (Encode t v)"
    unfolding Encode_def
    by (rule utf8_piece_append [OF utf8_json_encode [OF marshal_ok(1) [OF assms]]]) (simp add: utf8_piece_Cons is_ascii_def newline_def)
  then show ?thesis by (rule utf8_piece_valid)
qed

end
