(* ===== verification/Jobcontract_Decode.thy ===== *)
theory Jobcontract_Decode
  imports Jobcontract Go_Document
begin

text \<open>
  Reading the documents of a governed job (\<^verbatim>\<open>internal/jobcontract/decode.go\<close>) and what the readers and
  validators guarantee. \<open>decode\<close> walks the tokens once for repeated keys and once for the value; a
  document that either walk refuses is \<open>DocumentMalformed\<close>.
\<close>

definition MaximumRequestBytes :: nat where "MaximumRequestBytes = 1048576"
definition MaximumResultBytes :: nat where "MaximumResultBytes = 1048576"
definition MaximumManifestBytes :: nat where "MaximumManifestBytes = 8388608"
definition MaximumProvenanceBytes :: nat where "MaximumProvenanceBytes = 65536"
definition MaximumEgressEvidenceBytes :: nat where "MaximumEgressEvidenceBytes = 65536"

definition decode_bounds :: "bytes \<Rightarrow> nat \<Rightarrow> unit contract_result" where
  "decode_bounds raw maximum =
     bind_result (require (raw \<noteq> []) DocumentEmpty) (\<lambda>_.
     bind_result (require (length raw \<le> maximum) DocumentTooLarge) (\<lambda>_.
     require (ValidUTF8 raw) DocumentNotUTF8))"

definition rejectDuplicateKeys :: "bytes \<Rightarrow> unit contract_result" where
  "rejectDuplicateKeys raw =
     (case json_parse raw of
        None \<Rightarrow> Inl DocumentMalformed
      | Some j \<Rightarrow> require (distinct_keys j) DocumentMalformed)"

definition decode :: "shape \<Rightarrow> bytes \<Rightarrow> nat \<Rightarrow> gval contract_result" where
  "decode target raw maximum =
     bind_result (decode_bounds raw maximum) (\<lambda>_.
     bind_result (rejectDuplicateKeys raw) (\<lambda>_.
     case Unmarshal True target raw of None \<Rightarrow> Inl DocumentMalformed | Some v \<Rightarrow> Inr v))"

definition ValidateJSONDocument :: "bytes \<Rightarrow> nat \<Rightarrow> unit contract_result" where
  "ValidateJSONDocument raw maximum =
     bind_result (decode_bounds raw maximum) (\<lambda>_.
     bind_result (rejectDuplicateKeys raw) (\<lambda>_.
     case json_parse raw of
       None \<Rightarrow> Inl DocumentMalformed
     | Some j \<Rightarrow> require (json_depth j \<le> max_nesting) DocumentMalformed))"

definition ParseRequest :: "bytes \<Rightarrow> Request contract_result" where
  "ParseRequest raw =
     bind_result (decode Request_shape raw MaximumRequestBytes) (\<lambda>v.
     bind_result (ValidateRequest (Request_of v)) (\<lambda>_. Inr (Request_of v)))"

definition ParseResult :: "bytes \<Rightarrow> Result contract_result" where
  "ParseResult raw =
     bind_result (decode Result_shape raw MaximumResultBytes) (\<lambda>v.
     bind_result (ValidateResult (Result_of v)) (\<lambda>_. Inr (Result_of v)))"

definition ParseManifest :: "bytes \<Rightarrow> Manifest contract_result" where
  "ParseManifest raw =
     bind_result (decode Manifest_shape raw MaximumManifestBytes) (\<lambda>v.
     bind_result (ValidateManifest (Manifest_of v)) (\<lambda>_. Inr (Manifest_of v)))"

definition ParseProvenance :: "bytes \<Rightarrow> Provenance contract_result" where
  "ParseProvenance raw =
     bind_result (decode Provenance_shape raw MaximumProvenanceBytes) (\<lambda>v.
     bind_result (ValidateProvenance (Provenance_of v)) (\<lambda>_. Inr (Provenance_of v)))"

definition ParseRuntimeObservation :: "bytes \<Rightarrow> RuntimeObservation contract_result" where
  "ParseRuntimeObservation raw =
     bind_result (decode RuntimeObservation_shape raw MaximumManifestBytes) (\<lambda>v.
     bind_result (ValidateRuntimeObservation (RuntimeObservation_of v)) (\<lambda>_. Inr (RuntimeObservation_of v)))"

definition ParseEgressEvidence :: "bytes \<Rightarrow> EgressEvidence contract_result" where
  "ParseEgressEvidence raw =
     bind_result (decode EgressEvidence_shape raw MaximumEgressEvidenceBytes) (\<lambda>v.
     bind_result (ValidateEgressEvidence (EgressEvidence_of v)) (\<lambda>_. Inr (EgressEvidence_of v)))"

section \<open>Texts of the contract are valid UTF-8\<close>

named_theorems contract_utf8

lemma ascii_words: "is_word c \<Longrightarrow> is_ascii c" "is_upper c \<Longrightarrow> is_ascii c" "is_lower c \<Longrightarrow> is_ascii c" "is_alpha c \<Longrightarrow> is_ascii c"
  by (auto simp: is_word_def is_alpha_def is_upper_def is_lower_def is_digit_def is_ascii_def)

lemma class_text_utf8:
  assumes "class_text P Q n s" and "\<And>c. P c \<Longrightarrow> is_ascii c" and "\<And>c. Q c \<Longrightarrow> is_ascii c"
  shows "ValidUTF8 s"
  using assms by (intro ValidUTF8_ascii) (cases s; auto simp: class_text_def list_all_iff)

lemma validID_utf8 [contract_utf8]: "validID s \<Longrightarrow> ValidUTF8 s"
  by (auto simp: validID_def portableIDPattern_def intro: ascii_words elim!: class_text_utf8) (simp_all add: is_ascii_def)

lemma environmentName_utf8 [contract_utf8]: "environmentName s \<Longrightarrow> ValidUTF8 s"
  by (auto simp: environmentName_def intro: ascii_words elim!: class_text_utf8) (simp_all add: is_ascii_def)

lemma reason_utf8 [contract_utf8]: "reasonPattern s \<Longrightarrow> ValidUTF8 s"
  by (auto simp: reasonPattern_def intro: ascii_words digits_ascii elim!: class_text_utf8) (simp_all add: is_ascii_def)

lemma digest_utf8 [contract_utf8]: "validDigest s \<Longrightarrow> ValidUTF8 s"
proof (rule ValidUTF8_ascii)
  assume "validDigest s"
  then obtain t where "s = ''sha256:'' @ t" "list_all is_lower_hex t"
    by (auto simp: validDigest_def digestPattern_def HasPrefix_iff)
  moreover have "is_lower_hex c \<Longrightarrow> is_ascii c" for c by (auto simp: is_lower_hex_def is_digit_def is_ascii_def)
  ultimately show "list_all is_ascii s" by (auto simp: list_all_iff is_ascii_def)
qed

lemma opaque_utf8 [contract_utf8]: "validOpaqueText s m n \<Longrightarrow> ValidUTF8 s"
  by (simp add: validOpaqueText_def)

lemma operator_path_utf8 [contract_utf8]: "validOperatorPath s \<Longrightarrow> ValidUTF8 s"
  by (auto simp: validOperatorPath_def validContainerPath_def opaque_utf8)

lemma evidence_path_utf8 [contract_utf8]: "validEvidencePath s \<Longrightarrow> ValidUTF8 s"
  by (auto simp: validEvidencePath_def opaque_utf8)

lemma timestamp_utf8 [contract_utf8]: "validTimestamp s \<Longrightarrow> ValidUTF8 s"
  by (auto simp: validTimestamp_def split: option.splits dest!: arg_cong [of "FormatRFC3339Nano _" _ ValidUTF8])

section \<open>Reading what was written\<close>

lemma decode_Encode:
  assumes "shaped t v" and "utf8_value v" and "shape_names t" and "shape_depth t \<le> max_nesting"
    and "length (Encode t v) \<le> maximum"
  shows "decode t (Encode t v) maximum = Inr v"
proof -
  have "Encode t v \<noteq> []" by (simp add: Encode_def)
  then have "decode_bounds (Encode t v) maximum = Inr ()"
    using assms Encode_valid by (simp add: decode_bounds_def result_simps)
  moreover have "rejectDuplicateKeys (Encode t v) = Inr ()"
    using assms by (simp add: rejectDuplicateKeys_def Encode_parse marshal_distinct_keys)
  ultimately show ?thesis
    using assms by (simp add: decode_def Unmarshal_Encode)
qed

lemma shape_facts:
  "shape_names Request_shape" "shape_depth Request_shape \<le> max_nesting"
  "shape_names Result_shape" "shape_depth Result_shape \<le> max_nesting"
  "shape_names Manifest_shape" "shape_depth Manifest_shape \<le> max_nesting"
  "shape_names Provenance_shape" "shape_depth Provenance_shape \<le> max_nesting"
  "shape_names EgressEvidence_shape" "shape_depth EgressEvidence_shape \<le> max_nesting"
  "shape_names RuntimeObservation_shape" "shape_depth RuntimeObservation_shape \<le> max_nesting"
  by (simp_all add: contract_shapes TInt64_def TUint64_def ValidUTF8_ascii is_ascii_def max_nesting_def)

definition env_ok :: "EnvironmentItem \<Rightarrow> bool" where
  "env_ok item = (environmentName (env_Name item) \<and> (env_PublicValue item \<noteq> None) \<noteq> (env_SecretFile item \<noteq> [])
     \<and> (case env_PublicValue item of None \<Rightarrow> True | Some v \<Rightarrow> validOpaqueText v 0 maximumEnvironmentValue)
     \<and> (env_SecretFile item \<noteq> [] \<longrightarrow> validOperatorPath (env_SecretFile item))
     \<and> \<not> reservedProxyEnvironment (env_Name item))"

lemma validate_environment_iff:
  "validate_environment seen items = Inr () \<longleftrightarrow>
     list_all env_ok items \<and> distinct (map env_Name items) \<and> set seen \<inter> set (map env_Name items) = {}"
  by (induction items arbitrary: seen) (auto simp: env_ok_def Let_def split: option.splits)

lemma env_ok_utf8: "env_ok item \<Longrightarrow> utf8_value (EnvironmentItem_value item)"
  by (cases "env_SecretFile item = []"; cases "env_PublicValue item") (auto simp: env_ok_def EnvironmentItem_value_def contract_utf8 dest: opaque_utf8)

end
