(* ===== verification/Job_Evidence.thy ===== *)
theory Job_Evidence
  imports Jobcontract_Decode
begin

text \<open>
  The evidence directory of a governed job (\<^verbatim>\<open>internal/job/evidence.go\<close>), the digests that bind it and the
  provenance of the executable (\<^verbatim>\<open>internal/job/provenance.go\<close>). The writer holds the files it created, all
  below one directory that nothing else writes to; the host may refuse any single file, which is the
  argument \<open>fails\<close>. Reading an artifact either yields its bytes before the deadline or fails.
\<close>

datatype job_error =
    JobRefused bytes
  | JobRefusedFor bytes bytes
  | JobContract contract_error
  | JobHost bytes

type_synonym 'a job_result = "job_error + 'a"

definition of_contract :: "'a contract_result \<Rightarrow> 'a job_result" where
  "of_contract r = (case r of Inl e \<Rightarrow> Inl (JobContract e) | Inr x \<Rightarrow> Inr x)"

lemma of_contract_Inr [simp]: "of_contract r = Inr x \<longleftrightarrow> r = Inr x" "of_contract (Inr x) = Inr x"
  by (cases r) (simp_all add: of_contract_def)

section \<open>Digests\<close>

definition digest :: "bytes \<Rightarrow> bytes" where
  "digest raw = ''sha256:'' @ sha256_hex raw"

definition prefixedDigest :: "bytes \<Rightarrow> bytes" where
  "prefixedDigest s = (if HasPrefix s ''sha256:'' then s else ''sha256:'' @ s)"

definition entry_line :: "ManifestEntry \<Rightarrow> bytes" where
  "entry_line e = ent_Path e @ [CHR 0x00] @ ent_Kind e @ [CHR 0x00] @ Itoa (ent_Size e) @ [CHR 0x00] @ ent_SHA256 e @ [newline]"

definition contentDigest :: "ManifestEntry list \<Rightarrow> bytes" where
  "contentDigest entries = ''sha256:'' @ sha256_hex (concat (map entry_line entries))"

definition framed :: "bytes \<Rightarrow> bytes" where
  "framed raw = Itoa (int (length raw)) @ [CHR 0x00] @ raw"

definition runtimeEvidenceDigest :: "bytes \<Rightarrow> bytes \<Rightarrow> bytes" where
  "runtimeEvidenceDigest before after = ''sha256:'' @ sha256_hex (framed before @ framed after)"

section \<open>Provenance\<close>

record BuildIdentity =
  bld_Version :: bytes
  bld_Commit :: bytes
  bld_SourceDate :: bytes

text \<open>The version, operating system and architecture that the Go runtime reports.\<close>

record go_runtime =
  go_Version :: bytes
  go_OS :: bytes
  go_Arch :: bytes

definition currentProvenance :: "go_runtime \<Rightarrow> BuildIdentity \<Rightarrow> bytes \<Rightarrow> Provenance" where
  "currentProvenance go build executableDigest =
     (let version = bld_Version build; commit = bld_Commit build; date = bld_SourceDate build in
      \<lparr>prv_Schema = ProvenanceSchema,
       prv_BuildKind = (if version = [] \<or> version = ''dev'' \<or> commit = [] \<or> commit = ''unknown'' \<or> date = [] \<or> date = ''unknown''
         then ''development'' else ''release''),
       prv_Version = (if version = [] then ''dev'' else version),
       prv_Commit = (if commit = [] then ''unknown'' else commit),
       prv_SourceDate = (if date = [] then ''unknown'' else date),
       prv_GoVersion = go_Version go, prv_GOOS = go_OS go, prv_GOARCH = go_Arch go,
       prv_ExecutableSHA256 = executableDigest\<rparr>)"

text \<open>\<^verbatim>\<open>executableProvenanceContext\<close> after the executable was read.\<close>

definition executableProvenance :: "go_runtime \<Rightarrow> BuildIdentity \<Rightarrow> bytes \<Rightarrow> (Provenance \<times> bytes) job_result" where
  "executableProvenance go build executable =
     (let provenance = currentProvenance go build (digest executable);
          encoded = Encode Provenance_shape (Provenance_value provenance) in
      bind_result (of_contract (ParseProvenance encoded)) (\<lambda>_. Inr (provenance, encoded)))"

section \<open>The writer\<close>

text \<open>
  The directories above a relative path, innermost first: the loop over \<^verbatim>\<open>path.Dir\<close> that ends at the dot.
  Every step shortens the path, so its length is enough fuel for the paths that evidence may have.
\<close>

fun climb :: "nat \<Rightarrow> bytes \<Rightarrow> bytes list" where
  "climb 0 p = []"
| "climb (Suc n) p = (let d = Dir p in if d = ''.'' then [] else d # climb n d)"

definition parents :: "bytes \<Rightarrow> bytes list" where
  "parents p = climb (length p) p"

record evidenceWriter =
  w_files :: "(bytes \<times> bytes) list"
  w_entries :: "ManifestEntry list"

text \<open>
  \<^verbatim>\<open>OpenFile\<close> with \<^verbatim>\<open>O_CREATE|O_EXCL\<close> after \<^verbatim>\<open>MkdirAll\<close> of the parent: the name is new, no file stands where a
  directory is needed, and no directory stands where the file is created.
\<close>

definition can_create :: "(bytes \<Rightarrow> bool) \<Rightarrow> evidenceWriter \<Rightarrow> bytes \<Rightarrow> bool" where
  "can_create fails w name =
     (\<not> fails name \<and> name \<noteq> ''.'' \<and> name \<notin> set (map fst (w_files w))
      \<and> list_all (\<lambda>d. d \<notin> set (map fst (w_files w))) (parents name)
      \<and> list_all (\<lambda>(f, _). name \<notin> set (parents f)) (w_files w))"

definition evidence_Write :: "(bytes \<Rightarrow> bool) \<Rightarrow> bytes \<Rightarrow> bytes \<Rightarrow> bytes \<Rightarrow> evidenceWriter \<Rightarrow> evidenceWriter job_result" where
  "evidence_Write fails name kind raw w =
     bind_result (require (can_create fails w name) (JobHost name)) (\<lambda>_.
     Inr (w\<lparr>w_files := w_files w @ [(name, raw)],
            w_entries := w_entries w @ [\<lparr>ent_Path = name, ent_Kind = kind, ent_Size = int (length raw), ent_SHA256 = digest raw\<rparr>]\<rparr>))"

section \<open>Captured streams\<close>

text \<open>\<open>cap_file\<close> is what the file holds, \<open>cap_hashed\<close> what was written completely and hashed.\<close>

record capture =
  cap_name :: bytes
  cap_kind :: bytes
  cap_maximum :: int
  cap_total :: int
  cap_file :: bytes
  cap_hashed :: bytes
  cap_closed :: bool

definition evidence_Stream :: "(bytes \<Rightarrow> bool) \<Rightarrow> bytes \<Rightarrow> bytes \<Rightarrow> int \<Rightarrow> evidenceWriter \<Rightarrow> capture job_result" where
  "evidence_Stream fails name kind maximum w =
     bind_result (require (can_create fails w name) (JobHost name)) (\<lambda>_.
     Inr \<lparr>cap_name = name, cap_kind = kind, cap_maximum = maximum, cap_total = 0, cap_file = [], cap_hashed = [], cap_closed = False\<rparr>)"

text \<open>
  One \<^verbatim>\<open>Write\<close> to a captured stream; \<open>short\<close> is the number of bytes after which the host fails, if it does.
  The result is the count that the writer reports.
\<close>

definition capture_Write :: "nat option \<Rightarrow> bytes \<Rightarrow> capture \<Rightarrow> nat job_result \<times> capture" where
  "capture_Write short raw c =
     (if cap_closed c then (Inl (JobHost (cap_name c)), c)
      else if int (length raw) > MaximumWireInteger - cap_total c then
        (Inl (JobRefused ''stream byte count exceeds JSON wire integer''), c)
      else
        let d = c\<lparr>cap_total := cap_total c + int (length raw)\<rparr>;
            remaining = max 0 (cap_maximum c - int (length (cap_hashed c)));
            retained = (if int (length raw) > remaining then take (nat remaining) raw else raw)
        in if retained = [] then (Inr (length raw), d)
           else case short of
             Some k \<Rightarrow> (Inl (JobHost (cap_name c)), d\<lparr>cap_file := cap_file c @ take k retained\<rparr>)
           | None \<Rightarrow>
               (Inr (length raw), d\<lparr>cap_file := cap_file c @ retained, cap_hashed := cap_hashed c @ retained\<rparr>))"

definition capture_CloseResult :: "(bytes \<Rightarrow> bool) \<Rightarrow> capture \<Rightarrow> evidenceWriter \<Rightarrow> (StreamResult \<times> evidenceWriter) job_result" where
  "capture_CloseResult fails c w =
     bind_result (require (\<not> cap_closed c) (JobRefused ''stream already closed'')) (\<lambda>_.
     bind_result (require (\<not> fails (cap_name c)) (JobHost (cap_name c))) (\<lambda>_.
     let sum = digest (cap_hashed c); written = int (length (cap_hashed c)) in
     Inr (\<lparr>stm_Path = cap_name c, stm_SHA256 = sum, stm_CapturedBytes = written, stm_TotalBytes = cap_total c,
           stm_Truncated = (written < cap_total c)\<rparr>,
          w\<lparr>w_files := w_files w @ [(cap_name c, cap_file c)],
            w_entries := w_entries w @ [\<lparr>ent_Path = cap_name c, ent_Kind = cap_kind c, ent_Size = written, ent_SHA256 = sum\<rparr>]\<rparr>)))"

text \<open>The writes that reach a stream before it is closed, in the order of its lock.\<close>

fun capture_all :: "(nat option \<times> bytes) list \<Rightarrow> capture \<Rightarrow> capture" where
  "capture_all [] c = c"
| "capture_all ((short, raw) # rest) c = capture_all rest (snd (capture_Write short raw c))"

section \<open>Artifacts\<close>

text \<open>\<open>a_Open\<close> is \<^const>\<open>None\<close> for a nil function, and otherwise what opening, reading and closing gives.\<close>

record Artifact =
  a_Path :: bytes
  a_Open :: "bytes option option"

record artifactInventoryEntry =
  inv_Path :: bytes
  inv_Size :: int
  inv_SHA256 :: bytes

record artifactInventory =
  inv_Schema :: bytes
  inv_Root :: bytes
  inv_Entries :: "artifactInventoryEntry list option"

definition artifactInventoryEntry_shape :: shape where
  "artifactInventoryEntry_shape = TStruct [(''path'', False, TString), (''size'', False, TInt64), (''sha256'', False, TString)]"

definition artifactInventoryEntry_value :: "artifactInventoryEntry \<Rightarrow> gval" where
  "artifactInventoryEntry_value x = VStruct [VString (inv_Path x), VInt (inv_Size x), VString (inv_SHA256 x)]"

definition artifactInventoryEntry_of :: "gval \<Rightarrow> artifactInventoryEntry" where
  "artifactInventoryEntry_of v =
     (let vs = g_fields v in \<lparr>inv_Path = g_string (vs ! 0), inv_Size = g_int (vs ! 1), inv_SHA256 = g_string (vs ! 2)\<rparr>)"

definition artifactInventory_shape :: shape where
  "artifactInventory_shape = TStruct [(''schema'', False, TString), (''root'', False, TString),
     (''entries'', False, TSlice artifactInventoryEntry_shape)]"

definition artifactInventory_value :: "artifactInventory \<Rightarrow> gval" where
  "artifactInventory_value x = VStruct [VString (inv_Schema x), VString (inv_Root x),
     VSlice (map_option (map artifactInventoryEntry_value) (inv_Entries x))]"

definition artifactInventory_of :: "gval \<Rightarrow> artifactInventory" where
  "artifactInventory_of v =
     (let vs = g_fields v in \<lparr>inv_Schema = g_string (vs ! 0), inv_Root = g_string (vs ! 1),
        inv_Entries = map_option (map artifactInventoryEntry_of) (g_slice (vs ! 2))\<rparr>)"

lemma artifactInventory_of_value [simp]: "artifactInventory_of (artifactInventory_value x) = x"
proof -
  have "artifactInventoryEntry_of \<circ> artifactInventoryEntry_value = id"
    by (rule ext) (simp add: artifactInventoryEntry_of_def artifactInventoryEntry_value_def)
  then show ?thesis
    by (cases x) (simp add: artifactInventory_of_def artifactInventory_value_def option.map_comp option.map_id)
qed

definition inventory_schema :: bytes where
  "inventory_schema = ''kenogram.target-artifact-inventory.v1''"

definition artifacts_directory :: bytes where
  "artifacts_directory = ''target-artifacts''"

fun write_artifacts :: "(bytes \<Rightarrow> bool) \<Rightarrow> ArtifactRequest \<Rightarrow> bytes \<Rightarrow> int \<Rightarrow> Artifact list \<Rightarrow> evidenceWriter
    \<Rightarrow> (artifactInventoryEntry list \<times> evidenceWriter) job_result" where
  "write_artifacts fails request prior used [] w = Inr ([], w)"
| "write_artifacts fails request prior used (artifact # rest) w =
     bind_result (require (\<not> (a_Path artifact \<le> prior \<or> a_Open artifact = None
         \<or> ValidateEvidenceRelativePath (a_Path artifact) \<noteq> Inr ()))
       (JobRefusedFor ''artifact path is invalid, duplicated, or unordered'' (a_Path artifact))) (\<lambda>_.
     case the (a_Open artifact) of
       None \<Rightarrow> Inl (JobHost (a_Path artifact))
     | Some content \<Rightarrow>
         let name = Join artifacts_directory (a_Path artifact);
             remaining = art_MaxBytes request - used;
             kept = take (nat (remaining + 1)) content;
             written = int (length kept); sum = digest kept in
         bind_result (require (can_create fails w name) (JobHost name)) (\<lambda>_.
         bind_result (require (\<not> written > remaining) (JobRefused ''artifact content exceeds its bound'')) (\<lambda>_.
         bind_result (write_artifacts fails request (a_Path artifact) (used + written) rest
             (w\<lparr>w_files := w_files w @ [(name, kept)],
                w_entries := w_entries w @ [\<lparr>ent_Path = name, ent_Kind = ''target_artifact'', ent_Size = written, ent_SHA256 = sum\<rparr>]\<rparr>))
           (\<lambda>(entries, w'). Inr (\<lparr>inv_Path = a_Path artifact, inv_Size = written, inv_SHA256 = sum\<rparr> # entries, w')))))"

text \<open>On any failure the entries and the directory of the artifacts are rolled back.\<close>

definition WriteArtifacts :: "(bytes \<Rightarrow> bool) \<Rightarrow> ArtifactRequest \<Rightarrow> Artifact list \<Rightarrow> evidenceWriter
    \<Rightarrow> artifactInventory job_result \<times> evidenceWriter" where
  "WriteArtifacts fails request artifacts w =
     (if int (length artifacts) > art_MaxEntries request then (Inl (JobRefused ''artifact inventory exceeds its entries''), w)
      else case write_artifacts fails request [] 0 (sort_key a_Path artifacts) w of
        Inl e \<Rightarrow> (Inl e, w\<lparr>w_files := filter (\<lambda>(f, _). f \<noteq> artifacts_directory \<and> \<not> HasPrefix f (artifacts_directory @ [slash])) (w_files w)\<rparr>)
      | Inr (entries, w') \<Rightarrow>
          (Inr \<lparr>inv_Schema = inventory_schema, inv_Root = art_ContainerRoot request, inv_Entries = Some entries\<rparr>, w'))"

section \<open>Sealing\<close>

definition manifest_of :: "bytes \<Rightarrow> bytes \<Rightarrow> bytes \<Rightarrow> gotime \<Rightarrow> ManifestEntry list \<Rightarrow> Manifest" where
  "manifest_of jobID requestDigest resultDigest at entries =
     \<lparr>man_Schema = ManifestSchema, man_JobID = jobID, man_RequestSHA256 = requestDigest, man_ResultSHA256 = resultDigest,
      man_ContentSHA256 = contentDigest entries, man_SealedAt = FormatRFC3339Nano at, man_Entries = Some entries\<rparr>"

definition Seal :: "(bytes \<Rightarrow> bool) \<Rightarrow> bytes \<Rightarrow> bytes \<Rightarrow> bytes \<Rightarrow> gotime \<Rightarrow> evidenceWriter \<Rightarrow> (Manifest \<times> evidenceWriter) job_result" where
  "Seal fails jobID requestDigest resultDigest at w =
     (let entries = sort_key ent_Path (w_entries w);
          manifest = manifest_of jobID requestDigest resultDigest at entries;
          raw = Encode Manifest_shape (Manifest_value manifest) in
      bind_result (of_contract (ParseManifest raw)) (\<lambda>_.
      bind_result (require (can_create fails w ''manifest.json'') (JobHost ''manifest.json'')) (\<lambda>_.
      Inr (manifest, w\<lparr>w_files := w_files w @ [(''manifest.json'', raw)], w_entries := entries\<rparr>))))"

end
