(* ===== verification/Decl_Parse.thy ===== *)
theory Decl_Parse
  imports Decl Go_Scan Go_Struct
begin

text \<open>
  The reader of declarations: the subset of TOML (\<^verbatim>\<open>internal/decl/parse.go\<close>) and the decoding of its
  tables into a declaration (\<^verbatim>\<open>internal/decl/decode.go\<close>). Go maps of tables are association lists; the
  table that the parser currently fills, a pointer into the root in the code, is the path at which the
  root is updated. Errors carry the message of the code without the parts that it quotes.
\<close>

datatype toml =
    TInteger int
  | TBoolean bool
  | TText bytes
  | TArray "toml list"
  | TTable "(bytes \<times> toml) list"

type_synonym table = "(bytes \<times> toml) list"

datatype parse_error =
    ParseNotUTF8
  | ParseLine nat bytes
  | ParseTooLong
  | ParseSchema bytes bytes bytes

type_synonym 'a text_result = "bytes + 'a"

section \<open>Lines\<close>

text \<open>The loops over runes only look for ASCII characters, which in valid UTF-8 are the bytes below 128.\<close>

fun withoutComment :: "bool \<Rightarrow> bool \<Rightarrow> bytes \<Rightarrow> bytes text_result" where
  "withoutComment inString escaped [] = (if inString then Inl ''unterminated string'' else Inr [])"
| "withoutComment inString escaped (r # s) =
     (if inString then
        (let (inString', escaped') =
           (if escaped then (True, False) else if r = backslash then (True, True)
            else if r = quote_char then (False, False) else (True, False))
         in bind_result (withoutComment inString' escaped' s) (\<lambda>t. Inr (r # t)))
      else if r = CHR ''#'' then Inr []
      else bind_result (withoutComment (r = quote_char) False s) (\<lambda>t. Inr (r # t)))"

definition key_char :: "char \<Rightarrow> bool" where
  "key_char r = (is_alnum r \<or> r = CHR ''_'' \<or> r = CHR ''-'')"

definition bareKey :: "bytes \<Rightarrow> bool" where
  "bareKey s = (s \<noteq> [] \<and> list_all key_char s)"

definition parseHeader :: "bytes \<Rightarrow> (bytes list \<times> bool) text_result" where
  "parseHeader line =
     (let array = HasPrefix line ''[['';
          opening = (if array then ''[['' else ''[''); closing = (if array then '']]'' else '']'')
      in if \<not> HasSuffix line closing then Inl ''malformed table header''
         else let body = TrimSpace (TrimSuffix (TrimPrefix line opening) closing) in
           if body = [] \<or> ContainsAny body ''[]'' then Inl ''malformed table header''
           else let parts = split_on CHR ''.'' body in
             bind_result (for_each (\<lambda>part. require (bareKey part) ''invalid table name'') parts) (\<lambda>_. Inr (parts, array)))"

fun split_at_equals :: "bool \<Rightarrow> bool \<Rightarrow> int \<Rightarrow> bytes \<Rightarrow> (bytes \<times> bytes) option" where
  "split_at_equals inString escaped depth [] = None"
| "split_at_equals inString escaped depth (r # s) =
     (if \<not> inString \<and> r = CHR ''='' \<and> depth = 0 then Some ([], s)
      else case
        (if inString then
           (if escaped then (True, False, depth) else if r = backslash then (True, True, depth)
            else if r = quote_char then (False, False, depth) else (True, False, depth))
         else if r = quote_char then (True, False, depth)
         else if r = CHR ''['' then (False, False, depth + 1)
         else if r = CHR '']'' then (False, False, depth - 1)
         else (False, False, depth))
      of (inString', escaped', depth') \<Rightarrow> map_option (apfst (\<lambda>k. r # k)) (split_at_equals inString' escaped' depth' s))"

definition splitAssignment :: "bytes \<Rightarrow> (bytes \<times> bytes) text_result" where
  "splitAssignment line =
     (case split_at_equals False False 0 line of
        None \<Rightarrow> Inl ''expected key = value''
      | Some (k, v) \<Rightarrow>
          let key = TrimSpace k; raw = TrimSpace v in
          if \<not> bareKey key \<or> raw = [] then Inl ''invalid assignment'' else Inr (key, raw))"

section \<open>Values\<close>

definition skip_blank :: "bytes \<Rightarrow> bytes" where
  "skip_blank s = dropWhile (\<lambda>c. c = CHR '' '' \<or> c = CHR 0x09) s"

definition parseInteger :: "bytes \<Rightarrow> int text_result" where
  "parseInteger token =
     (if token = [] then Inl ''missing value''
      else let digits = (if hd token = CHR ''+'' \<or> hd token = CHR ''-'' then tl token else token) in
        if digits = [] \<or> hd digits = CHR ''_'' \<or> last digits = CHR ''_'' \<or> Contains digits ''__''
           \<or> \<not> list_all (\<lambda>r. is_digit r \<or> r = CHR ''_'') digits
        then Inl ''unsupported value''
        else case Atoi (filter (\<lambda>c. c \<noteq> CHR ''_'') token) of None \<Rightarrow> Inl ''invalid integer'' | Some n \<Rightarrow> Inr n)"

text \<open>The bytes of a string literal after its opening quote, up to the first quote that is not escaped.\<close>

fun string_literal :: "bool \<Rightarrow> bytes \<Rightarrow> (bytes \<times> bytes) option" where
  "string_literal escaped [] = None"
| "string_literal escaped (c # s) =
     (if \<not> escaped \<and> c = quote_char then Some ([c], s)
      else map_option (apfst (\<lambda>l. c # l)) (string_literal (\<not> escaped \<and> c = backslash) s))"

definition stringValue :: "bytes \<Rightarrow> (bytes \<times> bytes) text_result" where
  "stringValue s =
     (case string_literal False s of
        None \<Rightarrow> Inl ''unterminated string''
      | Some (literal, rest) \<Rightarrow>
          (case json_parse (quote_char # literal) of
             Some (JStr value) \<Rightarrow> Inr (value, rest)
           | _ \<Rightarrow> Inl ''invalid string''))"

definition scalar_token :: "bytes \<Rightarrow> (toml \<times> bytes) text_result" where
  "scalar_token s =
     (let token = takeWhile (\<lambda>c. c \<notin> set '' ,]'') s; rest = dropWhile (\<lambda>c. c \<notin> set '' ,]'') s in
      if token = ''true'' then Inr (TBoolean True, rest)
      else if token = ''false'' then Inr (TBoolean False, rest)
      else bind_result (parseInteger token) (\<lambda>n. Inr (TInteger n, rest)))"

text \<open>
  An element of an array. The code parses a nested array before it refuses it; either way the
  declaration is refused.
\<close>

definition array_element :: "bytes \<Rightarrow> (toml \<times> bytes) text_result" where
  "array_element s =
     (case skip_blank s of
        [] \<Rightarrow> Inl ''missing value''
      | c # t \<Rightarrow>
          if c = quote_char then bind_result (stringValue t) (\<lambda>(v, rest). Inr (TText v, rest))
          else if c = CHR ''['' then Inl ''nested arrays are not supported''
          else scalar_token (c # t))"

fun same_kind :: "toml \<Rightarrow> toml \<Rightarrow> bool" where
  "same_kind (TInteger _) (TInteger _) = True"
| "same_kind (TBoolean _) (TBoolean _) = True"
| "same_kind (TText _) (TText _) = True"
| "same_kind _ _ = False"

lemma length_skip_blank: "length (skip_blank s) \<le> length s"
  by (simp add: skip_blank_def length_dropWhile_le)

lemma string_literal_length: "string_literal escaped s = Some (l, t) \<Longrightarrow> length t < length s"
  by (induction s arbitrary: escaped l t) (fastforce split: if_splits)+

lemma scalar_token_length: "scalar_token s = Inr (v, t) \<Longrightarrow> length t \<le> length s"
  using length_dropWhile_le [of "\<lambda>c. c \<notin> set '' ,]''" s]
  by (auto simp: scalar_token_def Let_def result_simps split: if_splits)

lemma array_element_length: "array_element s = Inr (v, t) \<Longrightarrow> length t \<le> length s"
  using length_skip_blank [of s]
  by (auto simp: array_element_def stringValue_def result_simps split: list.splits if_splits option.splits json.splits prod.splits
      dest!: string_literal_length scalar_token_length)

text \<open>The elements of an array after its opening bracket; at least one follows.\<close>

function array_elements :: "toml option \<Rightarrow> bytes \<Rightarrow> (toml list \<times> bytes) text_result" where
  "array_elements kind s =
     (case array_element s of
        Inl e \<Rightarrow> Inl e
      | Inr (v, t) \<Rightarrow>
          if kind \<noteq> None \<and> \<not> same_kind (the kind) v then Inl ''array elements must have one type''
          else (case skip_blank t of
             [] \<Rightarrow> Inl ''unterminated array''
           | c # u \<Rightarrow>
               if c = CHR '']'' then Inr ([v], u)
               else if c \<noteq> CHR '','' then Inl ''expected comma in array''
               else (case skip_blank u of
                  [] \<Rightarrow> Inl ''missing value''
                | d # w \<Rightarrow>
                    if d = CHR '']'' then Inr ([v], w)
                    else bind_result (array_elements (Some v) u) (\<lambda>(vs, rest). Inr (v # vs, rest)))))"
  by pat_completeness auto
termination
proof (relation "measure (\<lambda>(kind, s). length s)", goal_cases)
  case (2 kind s p v t c u d w)
  then show ?case using array_element_length [of s v t] length_skip_blank [of t] by (auto dest: arg_cong [where f = length])
qed simp

declare array_elements.simps [simp del]

definition arrayValue :: "bytes \<Rightarrow> (toml list \<times> bytes) text_result" where
  "arrayValue s =
     (case skip_blank s of
        c # t \<Rightarrow> if c = CHR '']'' then Inr ([], t) else array_elements None s
      | [] \<Rightarrow> array_elements None s)"

definition parseScalarOrArray :: "bytes \<Rightarrow> toml text_result" where
  "parseScalarOrArray raw =
     bind_result
       (case skip_blank raw of
          [] \<Rightarrow> Inl ''missing value''
        | c # t \<Rightarrow>
            if c = quote_char then bind_result (stringValue t) (\<lambda>(v, rest). Inr (TText v, rest))
            else if c = CHR ''['' then bind_result (arrayValue t) (\<lambda>(vs, rest). Inr (TArray vs, rest))
            else scalar_token (c # t))
       (\<lambda>(v, rest). if skip_blank rest \<noteq> [] then Inl ''unexpected trailing material'' else Inr v)"

section \<open>Tables\<close>

fun enterTable :: "bytes list \<Rightarrow> bool \<Rightarrow> table \<Rightarrow> table text_result" where
  "enterTable [] array cur = Inr cur"
| "enterTable (name # path) array cur =
     (if path = [] \<and> array then
        (case map_of cur name of
           None \<Rightarrow> Inr (AList.update name (TArray [TTable []]) cur)
         | Some (TArray items) \<Rightarrow> Inr (AList.update name (TArray (items @ [TTable []])) cur)
         | Some _ \<Rightarrow> Inl ''is already a non-array value'')
      else
        (case map_of cur name of
           None \<Rightarrow> bind_result (enterTable path array []) (\<lambda>t. Inr (AList.update name (TTable t) cur))
         | Some (TTable u) \<Rightarrow> bind_result (enterTable path array u) (\<lambda>t. Inr (AList.update name (TTable t) cur))
         | Some _ \<Rightarrow> Inl ''is already a value or array''))"

text \<open>The table at a path, for an array of tables its last element, and the root with that table changed.\<close>

fun current_table :: "bytes list \<Rightarrow> bool \<Rightarrow> table \<Rightarrow> table" where
  "current_table [] array t = t"
| "current_table (name # path) array t =
     (if path = [] \<and> array then
        (case map_of t name of Some (TArray items) \<Rightarrow> (case rev items of TTable u # _ \<Rightarrow> u | _ \<Rightarrow> []) | _ \<Rightarrow> [])
      else (case map_of t name of Some (TTable u) \<Rightarrow> current_table path array u | _ \<Rightarrow> []))"

fun set_table :: "bytes list \<Rightarrow> bool \<Rightarrow> table \<Rightarrow> table \<Rightarrow> table" where
  "set_table [] array new t = new"
| "set_table (name # path) array new t =
     (if path = [] \<and> array then
        (case map_of t name of Some (TArray items) \<Rightarrow> AList.update name (TArray (butlast items @ [TTable new])) t | _ \<Rightarrow> t)
      else (case map_of t name of Some (TTable u) \<Rightarrow> AList.update name (TTable (set_table path array new u)) t | _ \<Rightarrow> t))"

definition line_error :: "nat \<Rightarrow> 'a text_result \<Rightarrow> parse_error + 'a" where
  "line_error lineNo r = (case r of Inl e \<Rightarrow> Inl (ParseLine lineNo e) | Inr x \<Rightarrow> Inr x)"

text \<open>One line: the root, the path of the current table with whether it is an array, and the declared tables.\<close>

definition parse_line :: "bytes \<Rightarrow> table \<times> (bytes list \<times> bool) \<times> bytes list list \<Rightarrow> (table \<times> (bytes list \<times> bool) \<times> bytes list list) text_result" where
  "parse_line raw_line st =
     (case st of (root, (path, array), declared) \<Rightarrow>
      bind_result (withoutComment False False raw_line) (\<lambda>uncommented.
      let line = TrimSpace uncommented in
      if line = [] then Inr st
      else if HasPrefix line ''['' then
        bind_result (parseHeader line) (\<lambda>(path', array').
        bind_result (enterTable path' array' root) (\<lambda>root'.
        if array' then Inr (root', (path', array'), declared)
        else if path' \<in> set declared then Inl ''duplicate table''
        else Inr (root', (path', array'), path' # declared)))
      else
        bind_result (splitAssignment line) (\<lambda>(key, raw).
        let current = current_table path array root in
        if map_of current key \<noteq> None then Inl ''duplicate key''
        else bind_result (parseScalarOrArray raw) (\<lambda>value.
          Inr (set_table path array (AList.update key value current) root, (path, array), declared)))))"

fun parse_lines :: "nat \<Rightarrow> table \<times> (bytes list \<times> bool) \<times> bytes list list \<Rightarrow> bytes list \<Rightarrow> parse_error + table" where
  "parse_lines lineNo st [] = Inr (fst st)"
| "parse_lines lineNo st (l # ls) =
     (if max_token \<le> length l then Inl ParseTooLong
      else bind_result (line_error lineNo (parse_line (drop_cr l) st)) (\<lambda>st'. parse_lines (Suc lineNo) st' ls))"

definition parseDocument :: "bytes \<Rightarrow> parse_error + table" where
  "parseDocument data = parse_lines 1 ([], ([], False), []) (raw_lines data)"

section \<open>Decoding tables\<close>

text \<open>
  A decoder takes the keys it knows out of its table; \<open>done_decoder\<close> refuses what is left. The state
  of a \<^verbatim>\<open>decoder\<close> value is the remaining table, its path is only used in messages.
\<close>

type_synonym 'a decoder = "table \<Rightarrow> parse_error + ('a \<times> table)"

definition bind_decoder :: "'a decoder \<Rightarrow> ('a \<Rightarrow> 'b decoder) \<Rightarrow> 'b decoder" where
  "bind_decoder m f t = bind_result (m t) (\<lambda>(x, u). f x u)"

definition return_decoder :: "'a \<Rightarrow> 'a decoder" where
  "return_decoder x t = Inr (x, t)"

definition take_key :: "bytes \<Rightarrow> bytes \<Rightarrow> bool \<Rightarrow> toml option decoder" where
  "take_key path key required t =
     (case map_of t key of
        None \<Rightarrow> if required then Inl (ParseSchema path key ''is required'') else Inr (None, t)
      | Some v \<Rightarrow> Inr (Some v, AList.delete key t))"

definition decoder_string :: "bytes \<Rightarrow> bytes \<Rightarrow> bool \<Rightarrow> bytes decoder" where
  "decoder_string path key required =
     bind_decoder (take_key path key required) (\<lambda>v t.
       case v of None \<Rightarrow> Inr ([], t) | Some (TText s) \<Rightarrow> Inr (s, t) | Some _ \<Rightarrow> Inl (ParseSchema path key ''must be a string''))"

definition decoder_integer :: "bytes \<Rightarrow> bytes \<Rightarrow> bool \<Rightarrow> int decoder" where
  "decoder_integer path key required =
     bind_decoder (take_key path key required) (\<lambda>v t.
       case v of None \<Rightarrow> Inr (0, t) | Some (TInteger n) \<Rightarrow> Inr (n, t) | Some _ \<Rightarrow> Inl (ParseSchema path key ''must be an integer''))"

definition decoder_boolean :: "bytes \<Rightarrow> bytes \<Rightarrow> bool \<Rightarrow> bool decoder" where
  "decoder_boolean path key required =
     bind_decoder (take_key path key required) (\<lambda>v t.
       case v of None \<Rightarrow> Inr (False, t) | Some (TBoolean b) \<Rightarrow> Inr (b, t) | Some _ \<Rightarrow> Inl (ParseSchema path key ''must be a boolean''))"

fun text_items :: "toml list \<Rightarrow> bytes list option" where
  "text_items [] = Some []"
| "text_items (TText s # vs) = map_option (\<lambda>ss. s # ss) (text_items vs)"
| "text_items (_ # vs) = None"

definition decoder_strings :: "bytes \<Rightarrow> bytes \<Rightarrow> bool \<Rightarrow> bytes list decoder" where
  "decoder_strings path key required =
     bind_decoder (take_key path key required) (\<lambda>v t.
       case v of
         None \<Rightarrow> Inr ([], t)
       | Some (TArray values) \<Rightarrow>
           (case text_items values of
              None \<Rightarrow> Inl (ParseSchema path key ''must contain only strings'')
            | Some ss \<Rightarrow> Inr (ss, t))
       | Some _ \<Rightarrow> Inl (ParseSchema path key ''must be an array''))"

definition child :: "bytes \<Rightarrow> bytes \<Rightarrow> bool \<Rightarrow> table option decoder" where
  "child path key required =
     bind_decoder (take_key path key required) (\<lambda>v t.
       case v of None \<Rightarrow> Inr (None, t) | Some (TTable u) \<Rightarrow> Inr (Some u, t) | Some _ \<Rightarrow> Inl (ParseSchema path key ''must be a table''))"

fun table_items :: "toml list \<Rightarrow> table list option" where
  "table_items [] = Some []"
| "table_items (TTable u # vs) = map_option (\<lambda>us. u # us) (table_items vs)"
| "table_items (_ # vs) = None"

definition children :: "bytes \<Rightarrow> bytes \<Rightarrow> table list decoder" where
  "children path key =
     bind_decoder (take_key path key False) (\<lambda>v t.
       case v of
         None \<Rightarrow> Inr ([], t)
       | Some (TArray items) \<Rightarrow>
           (case table_items items of
              None \<Rightarrow> Inl (ParseSchema path key ''must be a table'')
            | Some us \<Rightarrow> Inr (us, t))
       | Some _ \<Rightarrow> Inl (ParseSchema path key ''must be an array of tables''))"

text \<open>Running a decoder on its own table to the end, with the check for unknown keys.\<close>

definition done_decoder :: "bytes \<Rightarrow> 'a decoder \<Rightarrow> table \<Rightarrow> parse_error + 'a" where
  "done_decoder path m t =
     bind_result (m t) (\<lambda>(x, u). case u of [] \<Rightarrow> Inr x | (k, v) # _ \<Rightarrow> Inl (ParseSchema path k ''unknown key or table''))"

definition embed :: "(parse_error + 'a) \<Rightarrow> 'a decoder" where
  "embed r t = bind_result r (\<lambda>x. Inr (x, t))"

definition world_decoder :: "decl_world decoder" where
  "world_decoder =
     bind_decoder (decoder_string ''root.world'' ''hostname'' True) (\<lambda>hostname.
     bind_decoder (decoder_string ''root.world'' ''base'' True) (\<lambda>base.
     bind_decoder (decoder_string ''root.world'' ''workdir'' True) (\<lambda>workdir.
     bind_decoder (decoder_string ''root.world'' ''user'' True) (\<lambda>user.
     return_decoder \<lparr>dw_Hostname = hostname, dw_Base = base, dw_Workdir = workdir, dw_User = user\<rparr>))))"

definition resources_decoder :: "decl_resources decoder" where
  "resources_decoder =
     bind_decoder (decoder_integer ''root.resources'' ''cpus'' True) (\<lambda>cpus.
     bind_decoder (decoder_integer ''root.resources'' ''memory_bytes'' True) (\<lambda>memory.
     bind_decoder (decoder_integer ''root.resources'' ''pids'' True) (\<lambda>pids.
     return_decoder \<lparr>dr_CPUs = cpus, dr_MemoryBytes = memory, dr_PIDs = pids\<rparr>)))"

definition copy_decoder :: "decl_copy decoder" where
  "copy_decoder =
     bind_decoder (decoder_string ''root.copies'' ''source'' True) (\<lambda>source.
     bind_decoder (decoder_string ''root.copies'' ''target'' True) (\<lambda>target.
     bind_decoder (decoder_string ''root.copies'' ''mode'' True) (\<lambda>mode.
     bind_decoder (decoder_boolean ''root.copies'' ''secret'' False) (\<lambda>secret.
     return_decoder \<lparr>dc_Source = source, dc_Target = target, dc_Mode = mode, dc_Secret = secret\<rparr>))))"

definition mount_decoder :: "decl_mount decoder" where
  "mount_decoder =
     bind_decoder (decoder_string ''root.mounts'' ''source'' True) (\<lambda>source.
     bind_decoder (decoder_string ''root.mounts'' ''target'' True) (\<lambda>target.
     bind_decoder (decoder_string ''root.mounts'' ''mode'' True) (\<lambda>mode.
     return_decoder \<lparr>dm_Source = source, dm_Target = target, dm_Mode = mode\<rparr>)))"

definition allow_decoder :: "decl_allow decoder" where
  "allow_decoder =
     bind_decoder (decoder_string ''root.network.allow'' ''host'' True) (\<lambda>host.
     bind_decoder (decoder_integer ''root.network.allow'' ''port'' True) (\<lambda>port.
     return_decoder \<lparr>da_Host = host, da_Port = port\<rparr>))"

definition interface_decoder :: "decl_interface decoder" where
  "interface_decoder =
     bind_decoder (decoder_string ''root.interfaces'' ''name'' True) (\<lambda>name.
     bind_decoder (decoder_string ''root.interfaces'' ''address'' True) (\<lambda>address.
     return_decoder \<lparr>di_Name = name, di_Address = address\<rparr>))"

definition service_decoder :: "decl_service decoder" where
  "service_decoder =
     bind_decoder (decoder_string ''root.services'' ''name'' True) (\<lambda>name.
     bind_decoder (decoder_strings ''root.services'' ''command'' True) (\<lambda>command.
     bind_decoder (decoder_boolean ''root.services'' ''autostart'' False) (\<lambda>autostart.
     bind_decoder (decoder_string ''root.services'' ''restart'' True) (\<lambda>restart.
     return_decoder \<lparr>ds_Name = name, ds_Command = command, ds_Autostart = autostart, ds_Restart = restart\<rparr>))))"

definition required_child :: "bytes \<Rightarrow> 'a decoder \<Rightarrow> 'a decoder" where
  "required_child key m =
     bind_decoder (child ''root'' key True) (\<lambda>t. embed (done_decoder (''root.'' @ key) m (case t of None \<Rightarrow> [] | Some u \<Rightarrow> u)))"

definition items :: "bytes \<Rightarrow> bytes \<Rightarrow> 'a decoder \<Rightarrow> 'a list decoder" where
  "items path key m = bind_decoder (children path key) (\<lambda>ts. embed (map_result (done_decoder (path @ ''.'' @ key) m) ts))"

definition network_decoder :: "decl_allow list decoder" where
  "network_decoder =
     bind_decoder (child ''root'' ''network'' False) (\<lambda>t.
       case t of
         None \<Rightarrow> return_decoder []
       | Some u \<Rightarrow> embed (done_decoder ''root.network'' (items ''root.network'' ''allow'' allow_decoder) u))"

definition declaration_decoder :: "Declaration decoder" where
  "declaration_decoder =
     bind_decoder (decoder_integer ''root'' ''version'' True) (\<lambda>version.
     bind_decoder (decoder_string ''root'' ''name'' True) (\<lambda>name.
     bind_decoder (decoder_boolean ''root'' ''allow_unpinned'' False) (\<lambda>unpinned.
     bind_decoder (required_child ''world'' world_decoder) (\<lambda>world.
     bind_decoder (required_child ''resources'' resources_decoder) (\<lambda>resources.
     bind_decoder (required_child ''workspace'' (decoder_strings ''root.workspace'' ''paths'' True)) (\<lambda>workspace.
     bind_decoder (items ''root'' ''copies'' copy_decoder) (\<lambda>copies.
     bind_decoder (items ''root'' ''mounts'' mount_decoder) (\<lambda>mounts.
     bind_decoder network_decoder (\<lambda>allow.
     bind_decoder (items ''root'' ''interfaces'' interface_decoder) (\<lambda>interfaces.
     bind_decoder (items ''root'' ''services'' service_decoder) (\<lambda>services.
     return_decoder
       \<lparr>d_Version = version, d_Name = name, d_AllowUnpinned = unpinned, d_World = world, d_Resources = resources,
        d_Workspace = workspace, d_Copies = copies, d_Mounts = mounts, d_Allow = allow, d_Interfaces = interfaces,
        d_Services = services\<rparr>)))))))))))"

definition decodeDeclaration :: "table \<Rightarrow> parse_error + Declaration" where
  "decodeDeclaration root = done_decoder ''root'' declaration_decoder root"

definition Parse :: "bytes \<Rightarrow> parse_error + Declaration" where
  "Parse data =
     (if \<not> ValidUTF8 data then Inl ParseNotUTF8 else bind_result (parseDocument data) decodeDeclaration)"

end
