(* ===== verification/Go_Indent.thy ===== *)
theory Go_Indent
  imports Go_Document
begin

text \<open>
  Documents that \<^verbatim>\<open>json.Encoder\<close> indents by two spaces per level, as \<^verbatim>\<open>SetIndent("", "  ")\<close> asks: every
  element and member on a line of its own, empty arrays and objects unbroken. The indented document is
  read back as the value that was written.
\<close>

definition line_break :: "nat \<Rightarrow> bytes" where
  "line_break l = newline # replicate (2 * l) CHR '' ''"

fun json_indent :: "bool \<Rightarrow> nat \<Rightarrow> json \<Rightarrow> bytes" where
  "json_indent html l (JArr vs) =
     (if vs = [] then ''[]''
      else ''['' @ line_break (Suc l) @ join_with ('','' @ line_break (Suc l)) (map (json_indent html (Suc l)) vs)
        @ line_break l @ '']'')"
| "json_indent html l (JObj ms) =
     (if ms = [] then ''{}''
      else ''{'' @ line_break (Suc l)
        @ join_with ('','' @ line_break (Suc l)) (map (\<lambda>(k, v). json_quote html k @ '': '' @ json_indent html (Suc l) v) ms)
        @ line_break l @ ''}'')"
| "json_indent html l JNull = json_encode html JNull"
| "json_indent html l (JBool b) = json_encode html (JBool b)"
| "json_indent html l (JNum n) = json_encode html (JNum n)"
| "json_indent html l (JStr s) = json_encode html (JStr s)"

section \<open>Reading past line breaks\<close>

lemma skip_ws_blanks: "skip_ws (replicate n CHR '' '' @ s) = skip_ws s"
  by (induction n) (simp_all add: is_ws_def)

lemma skip_ws_break [simp]: "skip_ws (line_break l @ s) = skip_ws s"
  by (simp add: line_break_def skip_ws_blanks)

lemma json_value_break: "json_value n (line_break l @ s) = json_value n s"
  by (cases n) simp_all

lemma json_elements_break: "json_elements n (line_break l @ s) = json_elements n s"
  by (cases n) (simp_all add: json_value_break)

lemma json_members_break: "json_members n (line_break l @ s) = json_members n s"
  by (cases n) simp_all

lemma json_value_blank: "json_value n (CHR '' '' # s) = json_value n s"
  by (cases n) (simp_all add: is_ws_def)

lemma stops_break [simp]: "stops (line_break l @ s)"
  by (simp add: line_break_def newline_def num_char_def is_digit_def)

lemmas reading_breaks = json_value_break json_elements_break json_members_break json_value_blank

section \<open>Round trip\<close>

lemma json_elements_indent:
  assumes "\<And>v n t. v \<in> set vs \<Longrightarrow> json_fuel v \<le> n \<Longrightarrow> stops t \<Longrightarrow> json_value n (enc v @ t) = Some (v, t)"
    and "vs \<noteq> []" and "sum_list (map (\<lambda>v. Suc (json_fuel v)) vs) \<le> n"
  shows "json_elements n (join_with ('','' @ line_break l) (map enc vs) @ line_break k @ CHR '']'' # t) = Some (vs, t)"
  using assms
proof (induction vs arbitrary: n)
  case (Cons v vs)
  then obtain m where n: "n = Suc m" and m: "json_fuel v \<le> m" "sum_list (map (\<lambda>v. Suc (json_fuel v)) vs) \<le> m"
    by (cases n) auto
  let ?close = "line_break k @ CHR '']'' # t"
  have read: "json_value m (enc v @ u) = Some (v, u)" if "stops u" for u
    using Cons.prems(1) m that by simp
  show ?case
  proof (cases vs)
    case Nil
    with n read [of ?close] show ?thesis by simp
  next
    case (Cons w ws)
    let ?rest = "join_with ('','' @ line_break l) (map enc vs) @ ?close"
    have "json_elements m ?rest = Some (vs, t)"
      using Cons.IH [of m] Cons.prems(1) m Cons by simp
    with n Cons read [of "CHR '','' # line_break l @ ?rest"] show ?thesis
      by (simp add: reading_breaks)
  qed
qed simp

lemma json_members_indent:
  assumes "\<And>k v n t. (k, v) \<in> set ms \<Longrightarrow> json_fuel v \<le> n \<Longrightarrow> stops t \<Longrightarrow> json_value n (enc v @ t) = Some (v, t)"
    and "\<And>k v. (k, v) \<in> set ms \<Longrightarrow> ValidUTF8 k"
    and "ms \<noteq> []" and "sum_list (map (\<lambda>(k, v). Suc (json_fuel v)) ms) \<le> n"
  shows "json_members n (join_with ('','' @ line_break l) (map (\<lambda>(k, v). json_quote html k @ '': '' @ enc v) ms)
           @ line_break j @ CHR ''}'' # t) = Some (ms, t)"
  using assms
proof (induction ms arbitrary: n)
  case (Cons kv ms)
  obtain k v where kv: "kv = (k, v)" by (cases kv)
  with Cons.prems obtain m where n: "n = Suc m" and m: "json_fuel v \<le> m"
    "sum_list (map (\<lambda>(k, v). Suc (json_fuel v)) ms) \<le> m"
    by (cases n) auto
  have key: "json_string (json_escape html k @ quote_char # u) = Some (k, u)" for u
    using Cons.prems(2) [of k v] kv by (intro json_string_escape) simp
  let ?close = "line_break j @ CHR ''}'' # t"
  have read: "json_value m (enc v @ u) = Some (v, u)" if "stops u" for u
    using Cons.prems(1) [of k v] m that kv by simp
  show ?case
  proof (cases ms)
    case Nil
    with n kv key read [of ?close] show ?thesis by (simp add: json_quote_def json_value_blank)
  next
    case (Cons w ws)
    let ?rest = "join_with ('','' @ line_break l) (map (\<lambda>(k, v). json_quote html k @ '': '' @ enc v) ms) @ ?close"
    have "json_members m ?rest = Some (ms, t)"
    proof (rule Cons.IH)
      show "json_value n (enc v @ t) = Some (v, t)" if "(k, v) \<in> set ms" "json_fuel v \<le> n" "stops t" for k v n t
        using that by (intro Cons.prems(1) [of k]) simp_all
      show "ValidUTF8 k" if "(k, v) \<in> set ms" for k v
        using that Cons.prems(2) [of k v] by simp
    qed (use m Cons in simp_all)
    with n Cons kv key read [of "CHR '','' # line_break l @ ?rest"] show ?thesis
      by (simp add: json_quote_def reading_breaks)
  qed
qed simp

lemma json_indent_head: "json_ok v \<Longrightarrow> \<exists>c s. json_indent html l v = c # s \<and> \<not> is_ws c \<and> c \<noteq> CHR '']''"
  using json_encode_head [of v html] by (cases v) auto

lemma json_value_indent:
  "json_ok v \<Longrightarrow> json_fuel v \<le> n \<Longrightarrow> stops t \<Longrightarrow> json_value n (json_indent html l v @ t) = Some (v, t)"
proof (induction html l v arbitrary: n t rule: json_indent.induct)
  case (1 html l vs)
  then obtain m where n: "n = Suc m" by (cases n) auto
  show ?case
  proof (cases vs)
    case Nil
    with n show ?thesis by (simp add: quote_char_def)
  next
    case (Cons w ws)
    have "json_elements m (join_with ('','' @ line_break (Suc l)) (map (json_indent html (Suc l)) vs) @ line_break l @ CHR '']'' # t)
        = Some (vs, t)"
      using 1 n Cons by (intro json_elements_indent) (auto simp: list_all_iff)
    moreover obtain c s where "json_indent html (Suc l) w = c # s" "\<not> is_ws c" "c \<noteq> CHR '']''"
      using json_indent_head [of w html "Suc l"] "1.prems"(1) Cons by auto
    ultimately show ?thesis
      using n Cons by (auto simp: quote_char_def reading_breaks join_with_Cons)
  qed
next
  case (2 html l ms)
  then obtain m where n: "n = Suc m" by (cases n) auto
  show ?case
  proof (cases ms)
    case Nil
    with n show ?thesis by (simp add: quote_char_def)
  next
    case (Cons w ws)
    let ?enc = "join_with ('','' @ line_break (Suc l)) (map (\<lambda>(k, v). json_quote html k @ '': '' @ json_indent html (Suc l) v) ms)"
    have "json_members m (?enc @ line_break l @ CHR ''}'' # t) = Some (ms, t)"
    proof (rule json_members_indent)
      show "json_value n (json_indent html (Suc l) v @ t) = Some (v, t)"
        if "(k, v) \<in> set ms" "json_fuel v \<le> n" "stops t" for k v n t
        using that "2.prems"(1) Cons by (intro "2.IH" [OF _ that(1) refl]) (auto simp: list_all_iff)
      show "ValidUTF8 k" if "(k, v) \<in> set ms" for k v
        using that "2.prems"(1) by (auto simp: list_all_iff)
    qed (use n Cons "2.prems" in simp_all)
    moreover have "\<exists>s. ?enc = quote_char # s"
      using Cons by (cases w) (simp add: join_with_Cons json_quote_def)
    ultimately show ?thesis
      using n Cons by (auto simp: quote_char_def is_ws_def reading_breaks)
  qed
qed (use json_value_encode in fastforce)+

lemma length_join_mono:
  "list_all2 (\<lambda>s t. length s \<le> length t) ss ts \<Longrightarrow> length sep \<le> length sep'
     \<Longrightarrow> length (join_with sep ss) \<le> length (join_with sep' ts)"
proof (induction ss ts rule: list_all2_induct)
  case (Cons s ss t ts)
  then show ?case by (cases ss; cases ts) auto
qed simp

lemma length_json_indent: "length (json_encode html v) \<le> length (json_indent html l v)"
proof (induction html l v rule: json_indent.induct)
  case (1 html l vs)
  then have "list_all2 (\<lambda>s t. length s \<le> length t) (map (json_encode html) vs) (map (json_indent html (Suc l)) vs)"
    by (fastforce simp: list.rel_map intro!: list.rel_refl_strong)
  from length_join_mono [OF this, of "'',''" "'','' @ line_break (Suc l)"] show ?case by simp
next
  case (2 html l ms)
  then have "list_all2 (\<lambda>s t. length s \<le> length t)
      (map (\<lambda>(k, v). json_quote html k @ '':'' @ json_encode html v) ms)
      (map (\<lambda>(k, v). json_quote html k @ '': '' @ json_indent html (Suc l) v) ms)"
    by (fastforce simp: list.rel_map split: prod.splits intro!: list.rel_refl_strong)
  from length_join_mono [OF this, of "'',''" "'','' @ line_break (Suc l)"] show ?case by simp
qed simp_all

lemma json_parse_indent:
  assumes "json_ok v" and "skip_ws t = []"
  shows "json_parse (json_indent html l v @ t) = Some v"
proof -
  have "stops t"
    using assms(2) by (cases t) (auto split: if_splits dest: num_char_facts)
  moreover have "json_fuel v \<le> 2 * length (json_indent html l v @ t) + 1"
    using json_fuel_bound [of v html] length_json_indent [of html v l] by simp
  ultimately show ?thesis
    using assms json_value_indent [of v "2 * length (json_indent html l v @ t) + 1" t html l]
    by (simp add: json_parse_def)
qed

lemma Unmarshal_indent:
  assumes "shaped t v" and "utf8_value v" and "shape_names t" and "shape_depth t \<le> max_nesting" and "skip_ws ws = []"
  shows "Unmarshal strict t (json_indent html l (marshal t v) @ ws) = Some v"
proof -
  have "json_parse (json_indent html l (marshal t v) @ ws) = Some (marshal t v)"
    by (rule json_parse_indent [OF marshal_ok(1) [OF assms(2,3)] assms(5)])
  moreover have "json_depth (marshal t v) \<le> max_nesting"
    using marshal_depth(1) assms(4) order_trans by blast
  ultimately show ?thesis
    by (simp add: Unmarshal_def unmarshal_marshal(1) [OF assms(1)])
qed

section \<open>Valid UTF-8\<close>

lemma utf8_line_break: "utf8_piece (line_break l)"
  by (rule utf8_piece_ascii) (simp add: line_break_def newline_def is_ascii_def list_all_iff)

lemma utf8_json_indent: "json_ok v \<Longrightarrow> utf8_piece (json_indent html l v)"
proof (induction html l v rule: json_indent.induct)
  case (1 html l vs)
  have "utf8_piece (json_indent html (Suc l) x)" if "x \<in> set vs" for x
    using 1 that by (cases vs) (auto simp: list_all_iff)
  then have "utf8_piece (join_with ('','' @ line_break (Suc l)) (map (json_indent html (Suc l)) vs))"
    by (intro utf8_piece_join utf8_piece_append utf8_line_break) (auto simp: list_all_iff utf8_piece_Cons is_ascii_def)
  then show ?case
    by (auto intro!: utf8_piece_append utf8_line_break simp: utf8_piece_Cons is_ascii_def)
next
  case (2 html l ms)
  have "utf8_piece (json_quote html k @ '': '' @ json_indent html (Suc l) v)" if "(k, v) \<in> set ms" for k v
  proof -
    have "ms \<noteq> []" "json_ok v" using 2(2) that by (auto simp: list_all_iff)
    then have "utf8_piece (json_indent html (Suc l) v)" using 2(1) that by blast
    then show ?thesis by (intro utf8_piece_append utf8_json_quote) (simp_all add: utf8_piece_Cons is_ascii_def)
  qed
  then have "utf8_piece (join_with ('','' @ line_break (Suc l)) (map (\<lambda>(k, v). json_quote html k @ '': '' @ json_indent html (Suc l) v) ms))"
    by (intro utf8_piece_join utf8_piece_append utf8_line_break) (auto simp: list_all_iff utf8_piece_Cons is_ascii_def)
  then show ?case
    by (auto intro!: utf8_piece_append utf8_line_break simp: utf8_piece_Cons is_ascii_def)
qed (auto simp: utf8_json_encode simp del: json_encode.simps)

end
