(* ===== verification/Plan_Types.thy ===== *)
theory Plan_Types
  imports Go_Struct
begin

text \<open>
  The plan of a world and the result that carries it (\<^verbatim>\<open>internal/plan/plan.go\<close>): a record per struct, its
  shape from the struct tags and the conversions to and from the value that \<^verbatim>\<open>encoding/json\<close> writes and
  fills. A nil slice is \<^const>\<open>None\<close>.
\<close>

record plan_World =
  pw_Hostname :: bytes
  pw_Base :: bytes
  pw_Workdir :: bytes
  pw_User :: bytes

definition plan_World_shape :: shape where
  "plan_World_shape = TStruct
     [(''hostname'', False, TString), (''base'', False, TString), (''workdir'', False, TString),
      (''user'', False, TString)]"

definition plan_World_value :: "plan_World \<Rightarrow> gval" where
  "plan_World_value x = VStruct
     [VString (pw_Hostname x), VString (pw_Base x), VString (pw_Workdir x), VString (pw_User x)]"

definition plan_World_of :: "gval \<Rightarrow> plan_World" where
  "plan_World_of v =
     (let vs = g_fields v in
      \<lparr>pw_Hostname = g_string (vs ! 0), pw_Base = g_string (vs ! 1), pw_Workdir = g_string (vs ! 2),
       pw_User = g_string (vs ! 3)\<rparr>)"

lemma plan_World_of_value [simp]: "plan_World_of (plan_World_value x) = x"
  by (cases x) (simp add: plan_World_of_def plan_World_value_def option.map_comp comp_def option.map_ident)

record plan_Resources =
  pr_CPUs :: int
  pr_MemoryBytes :: int
  pr_PIDs :: int

definition plan_Resources_shape :: shape where
  "plan_Resources_shape = TStruct
     [(''cpus'', False, TInt64), (''memory_bytes'', False, TInt64), (''pids'', False, TInt64)]"

definition plan_Resources_value :: "plan_Resources \<Rightarrow> gval" where
  "plan_Resources_value x = VStruct
     [VInt (pr_CPUs x), VInt (pr_MemoryBytes x), VInt (pr_PIDs x)]"

definition plan_Resources_of :: "gval \<Rightarrow> plan_Resources" where
  "plan_Resources_of v =
     (let vs = g_fields v in
      \<lparr>pr_CPUs = g_int (vs ! 0), pr_MemoryBytes = g_int (vs ! 1), pr_PIDs = g_int (vs ! 2)\<rparr>)"

lemma plan_Resources_of_value [simp]: "plan_Resources_of (plan_Resources_value x) = x"
  by (cases x) (simp add: plan_Resources_of_def plan_Resources_value_def option.map_comp comp_def option.map_ident)

record plan_Copy =
  pc_Source :: bytes
  pc_SourceDigest :: bytes
  pc_Target :: bytes
  pc_Mode :: bytes
  pc_Secret :: bool

definition plan_Copy_shape :: shape where
  "plan_Copy_shape = TStruct
     [(''source'', False, TString), (''source_digest'', False, TString), (''target'', False, TString),
      (''mode'', False, TString), (''secret'', False, TBool)]"

definition plan_Copy_value :: "plan_Copy \<Rightarrow> gval" where
  "plan_Copy_value x = VStruct
     [VString (pc_Source x), VString (pc_SourceDigest x), VString (pc_Target x), VString (pc_Mode x),
      VBool (pc_Secret x)]"

definition plan_Copy_of :: "gval \<Rightarrow> plan_Copy" where
  "plan_Copy_of v =
     (let vs = g_fields v in
      \<lparr>pc_Source = g_string (vs ! 0), pc_SourceDigest = g_string (vs ! 1), pc_Target = g_string (vs ! 2),
       pc_Mode = g_string (vs ! 3), pc_Secret = g_bool (vs ! 4)\<rparr>)"

lemma plan_Copy_of_value [simp]: "plan_Copy_of (plan_Copy_value x) = x"
  by (cases x) (simp add: plan_Copy_of_def plan_Copy_value_def option.map_comp comp_def option.map_ident)

record plan_Mount =
  pm_Source :: bytes
  pm_SourceType :: bytes
  pm_Target :: bytes
  pm_Mode :: bytes

definition plan_Mount_shape :: shape where
  "plan_Mount_shape = TStruct
     [(''source'', False, TString), (''source_type'', False, TString), (''target'', False, TString),
      (''mode'', False, TString)]"

definition plan_Mount_value :: "plan_Mount \<Rightarrow> gval" where
  "plan_Mount_value x = VStruct
     [VString (pm_Source x), VString (pm_SourceType x), VString (pm_Target x), VString (pm_Mode x)]"

definition plan_Mount_of :: "gval \<Rightarrow> plan_Mount" where
  "plan_Mount_of v =
     (let vs = g_fields v in
      \<lparr>pm_Source = g_string (vs ! 0), pm_SourceType = g_string (vs ! 1), pm_Target = g_string (vs ! 2),
       pm_Mode = g_string (vs ! 3)\<rparr>)"

lemma plan_Mount_of_value [simp]: "plan_Mount_of (plan_Mount_value x) = x"
  by (cases x) (simp add: plan_Mount_of_def plan_Mount_value_def option.map_comp comp_def option.map_ident)

record plan_NetworkAllow =
  pa_Host :: bytes
  pa_Port :: int

definition plan_NetworkAllow_shape :: shape where
  "plan_NetworkAllow_shape = TStruct
     [(''host'', False, TString), (''port'', False, TInt64)]"

definition plan_NetworkAllow_value :: "plan_NetworkAllow \<Rightarrow> gval" where
  "plan_NetworkAllow_value x = VStruct
     [VString (pa_Host x), VInt (pa_Port x)]"

definition plan_NetworkAllow_of :: "gval \<Rightarrow> plan_NetworkAllow" where
  "plan_NetworkAllow_of v =
     (let vs = g_fields v in
      \<lparr>pa_Host = g_string (vs ! 0), pa_Port = g_int (vs ! 1)\<rparr>)"

lemma plan_NetworkAllow_of_value [simp]: "plan_NetworkAllow_of (plan_NetworkAllow_value x) = x"
  by (cases x) (simp add: plan_NetworkAllow_of_def plan_NetworkAllow_value_def option.map_comp comp_def option.map_ident)

record plan_Interface =
  pi_Name :: bytes
  pi_Address :: bytes

definition plan_Interface_shape :: shape where
  "plan_Interface_shape = TStruct
     [(''name'', False, TString), (''address'', False, TString)]"

definition plan_Interface_value :: "plan_Interface \<Rightarrow> gval" where
  "plan_Interface_value x = VStruct
     [VString (pi_Name x), VString (pi_Address x)]"

definition plan_Interface_of :: "gval \<Rightarrow> plan_Interface" where
  "plan_Interface_of v =
     (let vs = g_fields v in
      \<lparr>pi_Name = g_string (vs ! 0), pi_Address = g_string (vs ! 1)\<rparr>)"

lemma plan_Interface_of_value [simp]: "plan_Interface_of (plan_Interface_value x) = x"
  by (cases x) (simp add: plan_Interface_of_def plan_Interface_value_def option.map_comp comp_def option.map_ident)

record plan_Service =
  ps_Name :: bytes
  ps_Command :: "bytes list option"
  ps_Autostart :: bool
  ps_Restart :: bytes

definition plan_Service_shape :: shape where
  "plan_Service_shape = TStruct
     [(''name'', False, TString), (''command'', False, TSlice TString), (''autostart'', False, TBool),
      (''restart'', False, TString)]"

definition plan_Service_value :: "plan_Service \<Rightarrow> gval" where
  "plan_Service_value x = VStruct
     [VString (ps_Name x), VStrings (ps_Command x), VBool (ps_Autostart x), VString (ps_Restart x)]"

definition plan_Service_of :: "gval \<Rightarrow> plan_Service" where
  "plan_Service_of v =
     (let vs = g_fields v in
      \<lparr>ps_Name = g_string (vs ! 0), ps_Command = g_strings (vs ! 1), ps_Autostart = g_bool (vs ! 2),
       ps_Restart = g_string (vs ! 3)\<rparr>)"

lemma plan_Service_of_value [simp]: "plan_Service_of (plan_Service_value x) = x"
  by (cases x) (simp add: plan_Service_of_def plan_Service_value_def option.map_comp comp_def option.map_ident)

record Plan =
  pl_Version :: int
  pl_Name :: bytes
  pl_AllowUnpinned :: bool
  pl_World :: plan_World
  pl_Resources :: plan_Resources
  pl_Workspace :: "bytes list option"
  pl_Copies :: "plan_Copy list option"
  pl_Mounts :: "plan_Mount list option"
  pl_NetworkAllow :: "plan_NetworkAllow list option"
  pl_Interfaces :: "plan_Interface list option"
  pl_Services :: "plan_Service list option"

definition Plan_shape :: shape where
  "Plan_shape = TStruct
     [(''version'', False, TInt64), (''name'', False, TString), (''allow_unpinned'', False, TBool),
      (''world'', False, plan_World_shape), (''resources'', False, plan_Resources_shape),
      (''workspace_paths'', False, TSlice TString), (''copies'', False, TSlice plan_Copy_shape),
      (''mounts'', False, TSlice plan_Mount_shape), (''network_allow'', False, TSlice plan_NetworkAllow_shape),
      (''interfaces'', True, TSlice plan_Interface_shape), (''services'', False, TSlice plan_Service_shape)]"

definition Plan_value :: "Plan \<Rightarrow> gval" where
  "Plan_value x = VStruct
     [VInt (pl_Version x), VString (pl_Name x), VBool (pl_AllowUnpinned x), plan_World_value (pl_World x),
      plan_Resources_value (pl_Resources x), VStrings (pl_Workspace x),
      VSlice (map_option (map plan_Copy_value) (pl_Copies x)),
      VSlice (map_option (map plan_Mount_value) (pl_Mounts x)),
      VSlice (map_option (map plan_NetworkAllow_value) (pl_NetworkAllow x)),
      VSlice (map_option (map plan_Interface_value) (pl_Interfaces x)),
      VSlice (map_option (map plan_Service_value) (pl_Services x))]"

definition Plan_of :: "gval \<Rightarrow> Plan" where
  "Plan_of v =
     (let vs = g_fields v in
      \<lparr>pl_Version = g_int (vs ! 0), pl_Name = g_string (vs ! 1), pl_AllowUnpinned = g_bool (vs ! 2),
       pl_World = plan_World_of (vs ! 3), pl_Resources = plan_Resources_of (vs ! 4), pl_Workspace = g_strings (vs ! 5),
       pl_Copies = map_option (map plan_Copy_of) (g_slice (vs ! 6)),
       pl_Mounts = map_option (map plan_Mount_of) (g_slice (vs ! 7)),
       pl_NetworkAllow = map_option (map plan_NetworkAllow_of) (g_slice (vs ! 8)),
       pl_Interfaces = map_option (map plan_Interface_of) (g_slice (vs ! 9)),
       pl_Services = map_option (map plan_Service_of) (g_slice (vs ! 10))\<rparr>)"

lemma Plan_of_value [simp]: "Plan_of (Plan_value x) = x"
  by (cases x) (simp add: Plan_of_def Plan_value_def option.map_comp comp_def option.map_ident)

record plan_Result =
  rs_PlanDigest :: bytes
  rs_EvidenceDigest :: bytes
  rs_DeclarationDigest :: bytes
  rs_SourceAnchor :: bytes
  rs_Warnings :: "bytes list option"
  rs_Plan :: Plan

definition plan_Result_shape :: shape where
  "plan_Result_shape = TStruct
     [(''plan_digest'', False, TString), (''evidence_digest'', False, TString),
      (''declaration_digest'', False, TString), (''source_anchor'', True, TString),
      (''warnings'', False, TSlice TString), (''plan'', False, Plan_shape)]"

definition plan_Result_value :: "plan_Result \<Rightarrow> gval" where
  "plan_Result_value x = VStruct
     [VString (rs_PlanDigest x), VString (rs_EvidenceDigest x), VString (rs_DeclarationDigest x),
      VString (rs_SourceAnchor x), VStrings (rs_Warnings x), Plan_value (rs_Plan x)]"

definition plan_Result_of :: "gval \<Rightarrow> plan_Result" where
  "plan_Result_of v =
     (let vs = g_fields v in
      \<lparr>rs_PlanDigest = g_string (vs ! 0), rs_EvidenceDigest = g_string (vs ! 1),
       rs_DeclarationDigest = g_string (vs ! 2), rs_SourceAnchor = g_string (vs ! 3), rs_Warnings = g_strings (vs ! 4),
       rs_Plan = Plan_of (vs ! 5)\<rparr>)"

lemma plan_Result_of_value [simp]: "plan_Result_of (plan_Result_value x) = x"
  by (cases x) (simp add: plan_Result_of_def plan_Result_value_def option.map_comp comp_def option.map_ident)

lemmas plan_shapes =
  plan_World_shape_def plan_Resources_shape_def plan_Copy_shape_def plan_Mount_shape_def plan_NetworkAllow_shape_def plan_Interface_shape_def plan_Service_shape_def Plan_shape_def plan_Result_shape_def

lemmas plan_values =
  plan_World_value_def plan_Resources_value_def plan_Copy_value_def plan_Mount_value_def plan_NetworkAllow_value_def plan_Interface_value_def plan_Service_value_def Plan_value_def plan_Result_value_def

end
