(* ===== verification/Plan_Build.thy ===== *)
theory Plan_Build
  imports Decl Go_Crypto Go_Indent Plan_Types
begin

text \<open>
  From declarations to plans (\<^verbatim>\<open>internal/plan/plan.go\<close> and \<^verbatim>\<open>internal/plan/render.go\<close>): building a plan on
  the host, its canonical forms with and without the digests of secrets, the documents and the text
  that leave the program, and the projection by which retained evidence is derived again from a
  declaration. The working directory of the process is the parameter \<open>wd\<close>, the host and the polls of
  the context are those of the declaration; a cancellation that is observed while a source is digested
  is one of the errors of \<^const>\<open>fs_digest\<close>. Encoding a plan as JSON cannot fail.
\<close>

datatype plan_error =
    PlanCanceled
  | NoWorkingDirectory
  | PlanDeclaration decl_error
  | WorkspaceGrammar bytes
  | DigestFailed bytes
  | MountInspection bytes
  | MountSourceGrammar bytes
  | MountTargetGrammar bytes
  | AnchorNotClean
  | RetainedAnchor
  | RetainedCardinality
  | SecretNotRedacted nat
  | RetainedDigest nat
  | RetainedSourceType nat

type_synonym 'a plan_result = "plan_error + 'a"

definition of_decl :: "'a decl_result \<Rightarrow> 'a plan_result" where
  "of_decl r = (case r of Inl e \<Rightarrow> Inl (PlanDeclaration e) | Inr x \<Rightarrow> Inr x)"

lemma of_decl_Inr [simp]: "of_decl r = Inr x \<longleftrightarrow> r = Inr x"
  by (cases r) (simp_all add: of_decl_def)

definition poll_context :: "poll \<Rightarrow> nat \<Rightarrow> unit plan_result" where
  "poll_context ctx k = require (\<not> ctx k) PlanCanceled"

definition redaction :: bytes where
  "redaction = ''<redacted>''"

definition unpinned_warning :: bytes where
  "unpinned_warning = ''UNPINNED BASE IMAGE: reproducibility depends on mutable external state''"

section \<open>Canonical forms\<close>

definition Canonical :: "Plan \<Rightarrow> bytes" where
  "Canonical p = Go_Document.Encode Plan_shape (Plan_value p)"

definition redact_copy :: "plan_Copy \<Rightarrow> plan_Copy" where
  "redact_copy c = (if pc_Secret c then c\<lparr>pc_SourceDigest := redaction\<rparr> else c)"

text \<open>\<^verbatim>\<open>append([]Copy{}, p.Copies...)\<close> is never nil.\<close>

definition redacted_plan :: "Plan \<Rightarrow> Plan" where
  "redacted_plan p = p\<lparr>pl_Copies := Some (map redact_copy (elems (pl_Copies p)))\<rparr>"

definition EvidenceCanonical :: "Plan \<Rightarrow> Plan \<times> bytes" where
  "EvidenceCanonical p = (let redacted = redacted_plan p in (redacted, sha256_hex (Canonical redacted)))"

definition anchored_shape :: shape where
  "anchored_shape = TStruct [(''source_anchor'', False, TString), (''plan'', False, Plan_shape)]"

definition EvidenceCanonicalWithAnchor :: "Plan \<Rightarrow> bytes \<Rightarrow> (Plan \<times> bytes) plan_result" where
  "EvidenceCanonicalWithAnchor p sourceAnchor =
     bind_result (require (\<not> (\<not> IsAbs sourceAnchor \<or> Clean sourceAnchor \<noteq> sourceAnchor)) AnchorNotClean) (\<lambda>_.
     let redacted = fst (EvidenceCanonical p);
         canonical = Go_Document.Encode anchored_shape (VStruct [VString sourceAnchor, Plan_value redacted])
     in Inr (redacted, sha256_hex canonical))"

definition evidenceCanonicalForResult :: "plan_Result \<Rightarrow> (Plan \<times> bytes) plan_result" where
  "evidenceCanonicalForResult result =
     (if rs_SourceAnchor result = [] then Inr (EvidenceCanonical (rs_Plan result))
      else EvidenceCanonicalWithAnchor (rs_Plan result) (rs_SourceAnchor result))"

section \<open>Documents\<close>

text \<open>The value that \<^verbatim>\<open>MarshalJSON\<close> writes, its compact text, and the indented document of \<^verbatim>\<open>JSON\<close>.\<close>

definition safe_value :: "plan_Result \<Rightarrow> json plan_result" where
  "safe_value r =
     bind_result (evidenceCanonicalForResult r) (\<lambda>(redacted, digest).
     Inr (marshal plan_Result_shape (plan_Result_value (r\<lparr>rs_Plan := redacted, rs_EvidenceDigest := digest\<rparr>))))"

definition MarshalJSON :: "plan_Result \<Rightarrow> bytes plan_result" where
  "MarshalJSON r = bind_result (safe_value r) (\<lambda>j. Inr (json_encode True j))"

definition plan_JSON :: "plan_Result \<Rightarrow> bytes plan_result" where
  "plan_JSON result =
     bind_result (evidenceCanonicalForResult result) (\<lambda>(_, evidenceDigest).
     bind_result (safe_value (result\<lparr>rs_PlanDigest := evidenceDigest, rs_EvidenceDigest := evidenceDigest\<rparr>)) (\<lambda>j.
     Inr (json_indent True 0 j @ [newline])))"

section \<open>Building\<close>

definition Abs :: "bytes option \<Rightarrow> bytes \<Rightarrow> bytes plan_result" where
  "Abs wd p =
     (if IsAbs p then Inr (Clean p)
      else case wd of None \<Rightarrow> Inl NoWorkingDirectory | Some w \<Rightarrow> Inr (Join w p))"

definition mountSourceType :: "host_fs \<Rightarrow> bytes \<Rightarrow> bytes option" where
  "mountSourceType host source =
     (case fs_lstat host source of
        None \<Rightarrow> None
      | Some info \<Rightarrow>
          if n_kind info = Symlink then None
          else if n_kind info = Directory then Some ''directory''
          else if n_kind info = Regular then Some ''file''
          else None)"

text \<open>The fields that both \<^verbatim>\<open>BuildContext\<close> and \<^verbatim>\<open>ProjectEvidence\<close> copy from the declaration.\<close>

definition plan_service :: "decl_service \<Rightarrow> plan_Service" where
  "plan_service s =
     \<lparr>ps_Name = ds_Name s, ps_Command = Some (ds_Command s), ps_Autostart = ds_Autostart s, ps_Restart = ds_Restart s\<rparr>"

definition assembled :: "Declaration \<Rightarrow> plan_Copy list \<Rightarrow> plan_Mount list \<Rightarrow> plan_Interface list option \<Rightarrow> Plan" where
  "assembled d copies mounts interfaces =
     \<lparr>pl_Version = d_Version d, pl_Name = d_Name d, pl_AllowUnpinned = d_AllowUnpinned d,
      pl_World = \<lparr>pw_Hostname = dw_Hostname (d_World d), pw_Base = dw_Base (d_World d),
                  pw_Workdir = Clean (dw_Workdir (d_World d)), pw_User = dw_User (d_World d)\<rparr>,
      pl_Resources = \<lparr>pr_CPUs = dr_CPUs (d_Resources d), pr_MemoryBytes = dr_MemoryBytes (d_Resources d),
                      pr_PIDs = dr_PIDs (d_Resources d)\<rparr>,
      pl_Workspace = Some (d_Workspace d), pl_Copies = Some copies, pl_Mounts = Some mounts,
      pl_NetworkAllow = Some (map (\<lambda>a. \<lparr>pa_Host = da_Host a, pa_Port = da_Port a\<rparr>) (d_Allow d)),
      pl_Interfaces = interfaces, pl_Services = Some (map plan_service (d_Services d))\<rparr>"

definition plan_interfaces :: "Declaration \<Rightarrow> plan_Interface list" where
  "plan_interfaces d = map (\<lambda>e. \<lparr>pi_Name = di_Name e, pi_Address = di_Address e\<rparr>) (d_Interfaces d)"

definition workspace_targets :: "bytes list \<Rightarrow> unit plan_result" where
  "workspace_targets paths = for_each (\<lambda>target. require (mountpath_Validate target) (WorkspaceGrammar target)) paths"

fun build_copies :: "poll \<Rightarrow> nat \<Rightarrow> host_fs \<Rightarrow> bytes \<Rightarrow> decl_copy list \<Rightarrow> plan_Copy list plan_result" where
  "build_copies ctx k host dir [] = Inr []"
| "build_copies ctx k host dir (c # cs) =
     bind_result (poll_context ctx k) (\<lambda>_.
     bind_result (of_decl (ResolveSource host dir (dc_Source c))) (\<lambda>source.
     bind_result (case fs_digest host source of None \<Rightarrow> Inl (DigestFailed (dc_Source c)) | Some d \<Rightarrow> Inr d) (\<lambda>digest.
     bind_result (build_copies ctx (Suc k) host dir cs) (\<lambda>rest.
     Inr (\<lparr>pc_Source = source, pc_SourceDigest = digest, pc_Target = Clean (dc_Target c), pc_Mode = dc_Mode c,
           pc_Secret = dc_Secret c\<rparr> # rest)))))"

fun build_mounts :: "poll \<Rightarrow> nat \<Rightarrow> host_fs \<Rightarrow> bytes \<Rightarrow> decl_mount list \<Rightarrow> plan_Mount list plan_result" where
  "build_mounts ctx k host dir [] = Inr []"
| "build_mounts ctx k host dir (m # ms) =
     bind_result (poll_context ctx k) (\<lambda>_.
     bind_result (of_decl (ResolveSource host dir (dm_Source m))) (\<lambda>source.
     bind_result (case mountSourceType host source of None \<Rightarrow> Inl (MountInspection (dm_Source m)) | Some t \<Rightarrow> Inr t) (\<lambda>sourceType.
     bind_result (require (mountpath_Validate source) (MountSourceGrammar (dm_Source m))) (\<lambda>_.
     bind_result (require (mountpath_Validate (Clean (dm_Target m))) (MountTargetGrammar (dm_Target m))) (\<lambda>_.
     bind_result (build_mounts ctx (Suc k) host dir ms) (\<lambda>rest.
     Inr (\<lparr>pm_Source = source, pm_SourceType = sourceType, pm_Target = Clean (dm_Target m), pm_Mode = dm_Mode m\<rparr>
           # rest)))))))"

definition warnings_for :: "Declaration \<Rightarrow> bytes list option" where
  "warnings_for d = Some (if ImagePinned (dw_Base (d_World d)) then [] else [unpinned_warning])"

text \<open>
  \<^verbatim>\<open>BuildContext\<close> polls its context once, then validation polls it \<^const>\<open>polls\<close> times, then every copy
  and every mount polls it once.
\<close>

definition BuildContext :: "host_fs \<Rightarrow> (bytes \<Rightarrow> bytes) \<Rightarrow> bytes option \<Rightarrow> poll \<Rightarrow> Declaration \<Rightarrow> bytes \<Rightarrow> bytes
    \<Rightarrow> plan_Result plan_result" where
  "BuildContext host uni wd ctx d declarationPath declarationBytes =
     bind_result (poll_context ctx 0) (\<lambda>_.
     bind_result (Abs wd (Dir declarationPath)) (\<lambda>dir.
     bind_result (of_decl (ValidateContext host uni (\<lambda>k. ctx (Suc k)) d dir)) (\<lambda>_.
     bind_result (of_decl (CanonicalSourceAnchor host dir)) (\<lambda>sourceAnchor.
     bind_result (workspace_targets (d_Workspace d)) (\<lambda>_.
     bind_result (build_copies ctx (1 + polls d) host dir (d_Copies d)) (\<lambda>copies.
     bind_result (build_mounts ctx (1 + polls d + length (d_Copies d)) host dir (d_Mounts d)) (\<lambda>mounts.
     let p = assembled d copies mounts (Some (plan_interfaces d)) in
     bind_result (EvidenceCanonicalWithAnchor p sourceAnchor) (\<lambda>(_, evidenceDigest).
     Inr \<lparr>rs_PlanDigest = sha256_hex (Canonical p), rs_EvidenceDigest = evidenceDigest,
          rs_DeclarationDigest = sha256_hex declarationBytes, rs_SourceAnchor = sourceAnchor,
          rs_Warnings = warnings_for d, rs_Plan = p\<rparr>))))))))"

definition Build :: "host_fs \<Rightarrow> (bytes \<Rightarrow> bytes) \<Rightarrow> bytes option \<Rightarrow> Declaration \<Rightarrow> bytes \<Rightarrow> bytes \<Rightarrow> plan_Result plan_result" where
  "Build host uni wd d declarationPath declarationBytes =
     BuildContext host uni wd background d declarationPath declarationBytes"

section \<open>Projection of retained evidence\<close>

definition validPlanDigest :: "bytes \<Rightarrow> bool" where
  "validPlanDigest s = (length s = 64 \<and> hex_decodes s)"

fun project_copies :: "nat \<Rightarrow> bytes \<Rightarrow> decl_copy list \<Rightarrow> plan_Copy list \<Rightarrow> plan_Copy list plan_result" where
  "project_copies i anchor (c # cs) (r # rs) =
     bind_result (of_decl (ResolveEvidenceSource anchor (dc_Source c))) (\<lambda>source.
     bind_result
       (if dc_Secret c then require (pc_SourceDigest r = redaction) (SecretNotRedacted i)
        else require (validPlanDigest (pc_SourceDigest r)) (RetainedDigest i)) (\<lambda>_.
     bind_result (project_copies (Suc i) anchor cs rs) (\<lambda>rest.
     Inr (\<lparr>pc_Source = source, pc_SourceDigest = pc_SourceDigest r, pc_Target = Clean (dc_Target c), pc_Mode = dc_Mode c,
           pc_Secret = dc_Secret c\<rparr> # rest))))"
| "project_copies i anchor _ _ = Inr []"

fun project_mounts :: "nat \<Rightarrow> bytes \<Rightarrow> decl_mount list \<Rightarrow> plan_Mount list \<Rightarrow> plan_Mount list plan_result" where
  "project_mounts i anchor (m # ms) (r # rs) =
     bind_result (of_decl (ResolveEvidenceSource anchor (dm_Source m))) (\<lambda>source.
     bind_result (require (\<not> (pm_SourceType r \<noteq> ''file'' \<and> pm_SourceType r \<noteq> ''directory'')) (RetainedSourceType i)) (\<lambda>_.
     bind_result (require (mountpath_Validate source) (MountSourceGrammar (dm_Source m))) (\<lambda>_.
     bind_result (require (mountpath_Validate (Clean (dm_Target m))) (MountTargetGrammar (dm_Target m))) (\<lambda>_.
     bind_result (project_mounts (Suc i) anchor ms rs) (\<lambda>rest.
     Inr (\<lparr>pm_Source = source, pm_SourceType = pm_SourceType r, pm_Target = Clean (dm_Target m), pm_Mode = dm_Mode m\<rparr>
           # rest))))))"
| "project_mounts i anchor _ _ = Inr []"

text \<open>The interfaces are appended to a nil slice, so a plan without interfaces keeps nil.\<close>

definition appended :: "'a list \<Rightarrow> 'a list option" where
  "appended xs = (if xs = [] then None else Some xs)"

definition ProjectEvidence :: "host_fs \<Rightarrow> (bytes \<Rightarrow> bytes) \<Rightarrow> Declaration \<Rightarrow> bytes \<Rightarrow> plan_Result \<Rightarrow> plan_Result plan_result" where
  "ProjectEvidence host uni d declarationBytes retained =
     (let anchor = rs_SourceAnchor retained;
          retainedCopies = elems (pl_Copies (rs_Plan retained));
          retainedMounts = elems (pl_Mounts (rs_Plan retained)) in
      bind_result (require (\<not> (\<not> IsAbs anchor \<or> Clean anchor \<noteq> anchor)) RetainedAnchor) (\<lambda>_.
      bind_result (of_decl (ValidateEvidence host uni d anchor)) (\<lambda>_.
      bind_result (require (length retainedCopies = length (d_Copies d) \<and> length retainedMounts = length (d_Mounts d))
        RetainedCardinality) (\<lambda>_.
      bind_result (workspace_targets (d_Workspace d)) (\<lambda>_.
      bind_result (project_copies 0 anchor (d_Copies d) retainedCopies) (\<lambda>copies.
      bind_result (project_mounts 0 anchor (d_Mounts d) retainedMounts) (\<lambda>mounts.
      let p = assembled d copies mounts (appended (plan_interfaces d)) in
      bind_result (EvidenceCanonicalWithAnchor p anchor) (\<lambda>(_, evidenceDigest).
      Inr \<lparr>rs_PlanDigest = evidenceDigest, rs_EvidenceDigest = evidenceDigest,
           rs_DeclarationDigest = sha256_hex declarationBytes, rs_SourceAnchor = anchor,
           rs_Warnings = warnings_for d, rs_Plan = p\<rparr>))))))))"

section \<open>The digest of one regular file\<close>

text \<open>\<^verbatim>\<open>FileMode.Perm().String()\<close>: a dash and the nine permission letters.\<close>

definition perm_string :: "nat \<Rightarrow> bytes" where
  "perm_string perm =
     CHR ''-'' # map (\<lambda>(i, c). if bit perm (8 - i) then c else CHR ''-'') (zip [0..<9] ''rwxrwxrwx'')"

definition nul :: char where
  "nul = CHR 0x00"

definition DigestRegularCopyBytes :: "bytes \<Rightarrow> nat \<Rightarrow> bytes" where
  "DigestRegularCopyBytes raw perm =
     sha256_hex (''f'' @ [nul] @ ''.'' @ [nul] @ sha256_hex raw @ [nul] @ perm_string (perm mod 512) @ [newline])"

section \<open>Text\<close>

text \<open>
  \<^verbatim>\<open>strconv.Quote\<close>. Which runes beyond ASCII are printable is the parameter \<open>printable\<close>, the table of
  \<^verbatim>\<open>strconv.IsPrint\<close>.
\<close>

fun hex_width :: "nat \<Rightarrow> nat \<Rightarrow> bytes" where
  "hex_width 0 n = []"
| "hex_width (Suc w) n = hex_width w (n div 16) @ [hex_digit (n mod 16)]"

definition quote_rune :: "(nat \<Rightarrow> bool) \<Rightarrow> nat \<times> bool \<Rightarrow> nat \<Rightarrow> bytes" where
  "quote_rune printable rune raw =
     (case rune of (r, ok) \<Rightarrow>
      if \<not> ok then [backslash] @ ''x'' @ hex_width 2 raw
      else if r = 34 \<or> r = 92 then [backslash, char_of r]
      else if (32 \<le> r \<and> r < 127) \<or> (128 \<le> r \<and> printable r) then utf8_encode r
      else if r = 7 then [backslash, CHR ''a'']
      else if r = 8 then [backslash, CHR ''b'']
      else if r = 12 then [backslash, CHR ''f'']
      else if r = 10 then [backslash, CHR ''n'']
      else if r = 13 then [backslash, CHR ''r'']
      else if r = 9 then [backslash, CHR ''t'']
      else if r = 11 then [backslash, CHR ''v'']
      else if r < 32 \<or> r = 127 then [backslash] @ ''x'' @ hex_width 2 r
      else if r < 65536 then [backslash] @ ''u'' @ hex_width 4 r
      else [backslash] @ ''U'' @ hex_width 8 r)"

function quote_body :: "(nat \<Rightarrow> bool) \<Rightarrow> bytes \<Rightarrow> bytes" where
  "quote_body printable [] = []"
| "quote_body printable (c # s) =
     (case decode_rune c s of (r, n, ok) \<Rightarrow> quote_rune printable (r, ok) (byte c) @ quote_body printable (drop n s))"
  by pat_completeness auto
termination
  by (relation "measure (\<lambda>(p, s). length s)") auto

definition Quote :: "(nat \<Rightarrow> bool) \<Rightarrow> bytes \<Rightarrow> bytes" where
  "Quote printable s = [quote_char] @ quote_body printable s @ [quote_char]"

definition quoteCommand :: "(nat \<Rightarrow> bool) \<Rightarrow> bytes list \<Rightarrow> bytes" where
  "quoteCommand printable command = ''['' @ join_with '', '' (map (Quote printable) command) @ '']''"

definition bool_text :: "bool \<Rightarrow> bytes" where
  "bool_text b = (if b then ''true'' else ''false'')"

definition render_chunks :: "(nat \<Rightarrow> bool) \<Rightarrow> plan_Result \<Rightarrow> bytes list" where
  "render_chunks printable result =
     (let p = rs_Plan result; w = pl_World p; r = pl_Resources p in
      [''Kenogram plan'' @ [newline] @ ''world: '' @ pl_Name p @ [newline] @ ''plan digest: '' @ rs_PlanDigest result @ [newline]
         @ ''declaration digest: '' @ rs_DeclarationDigest result @ [newline] @ ''base: '' @ pw_Base w @ [newline]
         @ ''workdir: '' @ pw_Workdir w @ [newline] @ ''user: '' @ pw_User w @ [newline]
         @ ''resources: cpus='' @ Itoa (pr_CPUs r) @ '' memory_bytes='' @ Itoa (pr_MemoryBytes r) @ '' pids='' @ Itoa (pr_PIDs r) @ [newline]]
      @ map (\<lambda>warning. ''warning: '' @ warning @ [newline]) (elems (rs_Warnings result))
      @ [''workspace: '' @ join_with '', '' (elems (pl_Workspace p)) @ [newline]]
      @ map (\<lambda>c. let digest = (if pc_Secret c then redaction else pc_SourceDigest c) in
           ''copy: '' @ pc_Source c @ '' -> '' @ pc_Target c @ '' mode='' @ pc_Mode c @ '' secret='' @ bool_text (pc_Secret c)
           @ '' digest='' @ digest @ [newline]) (elems (pl_Copies p))
      @ map (\<lambda>m. ''mount: '' @ pm_Source m @ '' -> '' @ pm_Target m @ '' mode='' @ pm_Mode m @ [newline]) (elems (pl_Mounts p))
      @ map (\<lambda>a. ''network: '' @ pa_Host a @ '':'' @ Itoa (pa_Port a) @ [newline]) (elems (pl_NetworkAllow p))
      @ map (\<lambda>e. ''interface: '' @ pi_Name e @ '' address='' @ pi_Address e @ [newline]) (elems (pl_Interfaces p))
      @ map (\<lambda>s. ''service: '' @ ps_Name s @ '' command='' @ quoteCommand printable (elems (ps_Command s))
           @ '' autostart='' @ bool_text (ps_Autostart s) @ '' restart='' @ ps_Restart s @ [newline]) (elems (pl_Services p)))"

text \<open>A writer that fails after \<open>accepted\<close> bytes: what it got, and whether the rendering succeeded.\<close>

definition RenderText :: "(nat \<Rightarrow> bool) \<Rightarrow> nat \<Rightarrow> plan_Result \<Rightarrow> bytes \<times> bool" where
  "RenderText printable accepted result =
     (let text = concat (render_chunks printable result) in (take accepted text, length text \<le> accepted))"

end
