(* ===== verification/Job_Verify.thy ===== *)
theory Job_Verify
  imports Job_Evidence Decl_Parse Plan_Build
begin

text \<open>
  Offline verification of the evidence of a governed job (\<^verbatim>\<open>internal/job/verify.go\<close>, \<^verbatim>\<open>egress.go\<close> and the
  checks of \<^verbatim>\<open>job.go\<close> that both the executor and the verifier run). The directory is the list of the nodes
  below it, in the order of \<^verbatim>\<open>fs.WalkDir\<close>; it does not change while it is verified, so the comparisons of
  file identities before and after a read succeed. The iteration over Go maps is in a fixed order, which
  only decides which of several errors is reported.
\<close>

datatype enode = EvidenceFile bytes | EvidenceDirectory | EvidenceOther

type_synonym edir = "(bytes \<times> enode) list"

record Verification =
  ver_Schema :: bytes
  ver_JobID :: bytes
  ver_Status :: bytes
  ver_Entries :: int

section \<open>Reading\<close>

definition readRegular :: "edir \<Rightarrow> bytes \<Rightarrow> int \<Rightarrow> bytes job_result" where
  "readRegular root name maximum =
     (case map_of root name of
        Some (EvidenceFile raw) \<Rightarrow>
          if maximum < 0 \<or> int (length raw) > maximum then Inl (JobRefusedFor ''evidence entry exceeds its bound'' name)
          else Inr raw
      | Some _ \<Rightarrow> Inl (JobRefusedFor ''evidence entry is not a regular file'' name)
      | None \<Rightarrow> Inl (JobHost name))"

definition readSealedEntry :: "edir \<Rightarrow> ManifestEntry \<Rightarrow> int \<Rightarrow> bytes job_result" where
  "readSealedEntry root entry maximum =
     bind_result (require (\<not> (maximum < 0 \<or> ent_Size entry < 0 \<or> ent_Size entry > maximum))
       (JobRefusedFor ''evidence entry exceeds its semantic bound'' (ent_Path entry))) (\<lambda>_.
     bind_result (readRegular root (ent_Path entry) maximum) (\<lambda>raw.
     bind_result (require (\<not> (int (length raw) \<noteq> ent_Size entry \<or> digest raw \<noteq> ent_SHA256 entry))
       (JobRefusedFor ''evidence entry has changed'' (ent_Path entry))) (\<lambda>_. Inr raw)))"

definition verifyRegularDigest :: "edir \<Rightarrow> ManifestEntry \<Rightarrow> int \<Rightarrow> unit job_result" where
  "verifyRegularDigest root entry maximum =
     (if ent_Size entry < 0 \<or> ent_Size entry > maximum then
        Inl (JobRefusedFor ''target artifact exceeds its semantic bound'' (ent_Path entry))
      else case map_of root (ent_Path entry) of
        Some (EvidenceFile raw) \<Rightarrow>
          if int (length raw) \<noteq> ent_Size entry then
            Inl (JobRefusedFor ''target artifact is absent, changed, or not regular'' (ent_Path entry))
          else require (digest raw = ent_SHA256 entry) (JobRefusedFor ''target artifact digest mismatch'' (ent_Path entry))
      | _ \<Rightarrow> Inl (JobRefusedFor ''target artifact is absent, changed, or not regular'' (ent_Path entry)))"

section \<open>The inventory of the directory\<close>

definition mandatoryEvidenceKinds :: "(bytes \<times> bytes) list" where
  "mandatoryEvidenceKinds =
     [(''declaration.toml'', ''declaration''), (''plan.json'', ''plan''), (''provenance.json'', ''provenance''),
      (''request.json'', ''request''), (''result.json'', ''result''), (''runtime-before.json'', ''runtime''),
      (''runtime-after.json'', ''runtime''), (''stdout.bin'', ''stdout''), (''stderr.bin'', ''stderr'')]"

fun classify_entries :: "(bytes \<times> ManifestEntry) list \<Rightarrow> ManifestEntry list \<Rightarrow> ManifestEntry list
    \<Rightarrow> ((bytes \<times> ManifestEntry) list \<times> ManifestEntry list) job_result" where
  "classify_entries known artifacts [] = Inr (known, artifacts)"
| "classify_entries known artifacts (entry # rest) =
     (let path = ent_Path entry in
      case map_of (mandatoryEvidenceKinds @ [(''target-inventory.json'', ''target_inventory''), (''egress.json'', ''egress'')]) path of
        Some kind \<Rightarrow>
          if ent_Kind entry \<noteq> kind then Inl (JobRefusedFor ''evidence entry has another kind'' path)
          else classify_entries (AList.update path entry known) artifacts rest
      | None \<Rightarrow>
          if HasPrefix path (artifacts_directory @ [slash]) \<and> ent_Kind entry = ''target_artifact''
          then classify_entries known (artifacts @ [entry]) rest
          else Inl (JobRefusedFor ''evidence entry has an unknown path or kind'' path))"

definition classifyManifest :: "Manifest \<Rightarrow> ((bytes \<times> ManifestEntry) list \<times> ManifestEntry list) job_result" where
  "classifyManifest manifest =
     bind_result (classify_entries [] [] (elems (man_Entries manifest))) (\<lambda>(known, artifacts).
     bind_result (for_each (\<lambda>path. require (map_of known path \<noteq> None) (JobRefusedFor ''mandatory evidence entry is absent'' path))
       (map fst mandatoryEvidenceKinds)) (\<lambda>_. Inr (known, artifacts)))"

fun walk_inventory :: "nat \<Rightarrow> bytes list \<Rightarrow> edir \<Rightarrow> bytes list job_result" where
  "walk_inventory budget directories [] = Inr []"
| "walk_inventory budget directories ((path, node) # rest) =
     (case budget of
        0 \<Rightarrow> Inl (JobRefused ''evidence inventory traversal exceeds sealed bounds'')
      | Suc budget' \<Rightarrow>
          if node = EvidenceDirectory then
            bind_result (require (path \<in> set directories) (JobRefusedFor ''evidence directory contains undeclared directory'' path)) (\<lambda>_.
            walk_inventory budget' directories rest)
          else bind_result (walk_inventory budget' directories rest) (\<lambda>observed. Inr (path # observed)))"

definition verifyClosedInventory :: "edir \<Rightarrow> Manifest \<Rightarrow> unit job_result" where
  "verifyClosedInventory root manifest =
     (let paths = map ent_Path (elems (man_Entries manifest));
          expected = remdups (''manifest.json'' # paths);
          directories = remdups (''.'' # concat (map parents paths)) in
      bind_result (walk_inventory (length expected + length directories) directories root) (\<lambda>observed.
      bind_result (require (length observed = length expected) (JobRefused ''evidence directory contains an unsealed or missing entry'')) (\<lambda>_.
      for_each (\<lambda>path. require (path \<in> set expected) (JobRefusedFor ''evidence directory contains undeclared entry'' path)) (sort observed))))"

section \<open>Artifacts\<close>

fun artifact_bytes_ok :: "int \<Rightarrow> int \<Rightarrow> ManifestEntry list \<Rightarrow> bool" where
  "artifact_bytes_ok maximum used [] = True"
| "artifact_bytes_ok maximum used (entry # rest) =
     (\<not> (ent_Size entry < 0 \<or> ent_Size entry > maximum - used) \<and> artifact_bytes_ok maximum (used + ent_Size entry) rest)"

definition validateArtifactManifestAuthority :: "Request \<Rightarrow> (bytes \<times> ManifestEntry) list \<Rightarrow> ManifestEntry list \<Rightarrow> unit job_result" where
  "validateArtifactManifestAuthority request known artifacts =
     (let hasInventory = (map_of known ''target-inventory.json'' \<noteq> None) in
      case req_Artifacts request of
        None \<Rightarrow> require (\<not> (hasInventory \<or> artifacts \<noteq> [])) (JobRefused ''unrequested target artifact evidence is present'')
      | Some a \<Rightarrow>
          bind_result (require hasInventory (JobRefused ''requested target artifact inventory is absent'')) (\<lambda>_.
          bind_result (require (\<not> int (length artifacts) > art_MaxEntries a) (JobRefused ''target artifact manifest exceeds requested entry bound'')) (\<lambda>_.
          require (artifact_bytes_ok (art_MaxBytes a) 0 artifacts) (JobRefused ''target artifact manifest exceeds requested byte bound''))))"

fun inventory_entries :: "int \<Rightarrow> (bytes \<times> ManifestEntry) list \<Rightarrow> bytes \<Rightarrow> int \<Rightarrow> artifactInventoryEntry list \<Rightarrow> unit job_result" where
  "inventory_entries maximum sealed prior used [] = Inr ()"
| "inventory_entries maximum sealed prior used (artifact # rest) =
     bind_result (require (\<not> (inv_Path artifact \<le> prior \<or> ValidateEvidenceRelativePath (inv_Path artifact) \<noteq> Inr ()
         \<or> inv_Size artifact < 0 \<or> inv_Size artifact > maximum - used))
       (JobRefused ''target artifact inventory is invalid, duplicated, unordered, or oversized'')) (\<lambda>_.
     bind_result (require (case map_of sealed (artifacts_directory @ [slash] @ inv_Path artifact) of
           None \<Rightarrow> False
         | Some entry \<Rightarrow> ent_Size entry = inv_Size artifact \<and> ent_SHA256 entry = inv_SHA256 artifact)
       (JobRefusedFor ''target artifact disagrees with sealed evidence'' (inv_Path artifact))) (\<lambda>_.
     inventory_entries maximum sealed (inv_Path artifact) (used + inv_Size artifact) rest))"

definition verifyArtifacts :: "Request \<Rightarrow> Manifest \<Rightarrow> (bytes \<times> bytes) list \<Rightarrow> unit job_result" where
  "verifyArtifacts request manifest observed =
     (let sealed = map (\<lambda>e. (ent_Path e, e)) (filter (\<lambda>e. ent_Kind e = ''target_artifact'') (elems (man_Entries manifest))) in
      case req_Artifacts request of
        None \<Rightarrow> require (\<not> (sealed \<noteq> [] \<or> map_of observed ''target-inventory.json'' \<noteq> None))
          (JobRefused ''unrequested target artifact evidence is present'')
      | Some a \<Rightarrow>
          (case map_of observed ''target-inventory.json'' of
             None \<Rightarrow> Inl (JobRefused ''requested target artifact inventory is absent'')
           | Some raw \<Rightarrow>
               bind_result (of_contract (ValidateJSONDocument raw MaximumManifestBytes)) (\<lambda>_.
               case Unmarshal True artifactInventory_shape raw of
                 None \<Rightarrow> Inl (JobContract DocumentMalformed)
               | Some v \<Rightarrow>
                   let inventory = artifactInventory_of v; entries = elems (inv_Entries inventory) in
                   bind_result (require (\<not> (inv_Schema inventory \<noteq> inventory_schema \<or> inv_Root inventory \<noteq> art_ContainerRoot a
                       \<or> int (length entries) > art_MaxEntries a \<or> length entries \<noteq> length sealed))
                     (JobRefused ''target artifact inventory envelope is inconsistent'')) (\<lambda>_.
                   inventory_entries (art_MaxBytes a) sealed [] 0 entries))))"

section \<open>Plans\<close>

definition of_plan :: "'a plan_result \<Rightarrow> 'a job_result" where
  "of_plan r = (case r of Inl e \<Rightarrow> Inl (JobRefused ''plan'') | Inr x \<Rightarrow> Inr x)"

lemma of_plan_Inr [simp]: "of_plan r = Inr x \<longleftrightarrow> r = Inr x" "of_plan (Inr x) = Inr x"
  by (cases r) (simp_all add: of_plan_def)

definition of_parse :: "(parse_error + 'a) \<Rightarrow> 'a job_result" where
  "of_parse r = (case r of Inl e \<Rightarrow> Inl (JobRefused ''declaration'') | Inr x \<Rightarrow> Inr x)"

lemma of_parse_Inr [simp]: "of_parse r = Inr x \<longleftrightarrow> r = Inr x" "of_parse (Inr x) = Inr x"
  by (cases r) (simp_all add: of_parse_def)

definition planContentDigest :: "bytes \<Rightarrow> (plan_Result \<times> bytes) job_result" where
  "planContentDigest raw =
     bind_result (of_contract (ValidateJSONDocument raw MaximumManifestBytes)) (\<lambda>_.
     case Unmarshal True plan_Result_shape raw of
       None \<Rightarrow> Inl (JobContract DocumentMalformed)
     | Some v \<Rightarrow>
         let result = plan_Result_of v in
         bind_result (of_plan (EvidenceCanonicalWithAnchor (rs_Plan result) (rs_SourceAnchor result))) (\<lambda>(_, evidenceDigest).
         Inr (result, prefixedDigest evidenceDigest)))"

definition validateSecretEnvironment :: "Request \<Rightarrow> plan_Result \<Rightarrow> unit job_result" where
  "validateSecretEnvironment request prepared =
     (let secretTargets = map pc_Target (filter pc_Secret (elems (pl_Copies (rs_Plan prepared)))) in
      for_each (\<lambda>item. require (env_SecretFile item = [] \<or> count_list secretTargets (env_SecretFile item) = 1)
          (JobRefusedFor ''secret_file is not bound to exactly one declaration-owned secret copy target'' (env_SecretFile item)))
        (elems (cmd_Environment (req_Command request))))"

text \<open>\<^verbatim>\<open>strings.LastIndex\<close>.\<close>

fun LastIndex :: "bytes \<Rightarrow> bytes \<Rightarrow> nat option" where
  "LastIndex [] p = (if p = [] then Some 0 else None)"
| "LastIndex (c # s) p =
     (case LastIndex s p of
        Some i \<Rightarrow> Some (Suc i)
      | None \<Rightarrow> if HasPrefix (c # s) p then Some 0 else None)"

text \<open>The digest after the last marker of a pinned reference.\<close>

definition declared_digest :: "bytes \<Rightarrow> bytes option" where
  "declared_digest base = map_option (\<lambda>i. drop (i + 1) base) (LastIndex base ''@sha256:'')"

section \<open>Runtime observations\<close>

definition helper_path :: bytes where "helper_path = ''/etc/kenogram/job-exec''"
definition lifecycle_path :: bytes where "lifecycle_path = ''/etc/kenogram/target-lifecycle.json''"

text \<open>Multiplication of signed 64-bit integers.\<close>

definition wrap64 :: "int \<Rightarrow> int" where
  "wrap64 n = (n + 2 ^ 63) mod 2 ^ 64 - 2 ^ 63"

text \<open>The mounts that the retained plan authorizes, by target: mode, role and source, empty when any is right.\<close>

definition expected_mounts :: "Plan \<Rightarrow> (bytes \<times> bytes \<times> bytes \<times> bytes) list" where
  "expected_mounts p =
     (let base = [(helper_path, ''ro'', ''helper'', []), (lifecycle_path, ''rw'', ''lifecycle'', [])];
          workspaces = map (\<lambda>target. (target, ''rw'', ''workspace'', [])) (elems (pl_Workspace p));
          mounts = map (\<lambda>m. (pm_Target m, pm_Mode m, ''declared'', pm_Source m)) (elems (pl_Mounts p)) in
      foldl (\<lambda>acc (target, authority). AList.update target authority acc) [] (base @ workspaces @ mounts))"

definition check_mount :: "Plan \<Rightarrow> Provenance \<Rightarrow> RuntimeMountObservation \<Rightarrow> unit job_result" where
  "check_mount p provenance mount =
     (let target = mnt_Target mount; role = mnt_Role mount in
      bind_result (require (case map_of (expected_mounts p) target of
            None \<Rightarrow> False
          | Some (mode, role', source) \<Rightarrow>
              mode = mnt_Mode mount \<and> role' = role \<and> (source = [] \<or> source = mnt_AuthoritySource mount))
        (JobRefusedFor ''runtime mount is undeclared or has the wrong mode'' target)) (\<lambda>_.
      bind_result (require (RuntimeMountSource role target (mnt_Mode mount) (mnt_AuthoritySource mount) (mnt_SHA256 mount) = Inr (mnt_Source mount))
        (JobRefusedFor ''runtime mount semantic source is invalid'' target)) (\<lambda>_.
      bind_result
        (if role = ''helper'' \<or> role = ''lifecycle'' then require (mnt_FileType mount = ''file'') (JobRefusedFor ''runtime mount is not a file'' role)
         else if role = ''workspace'' then require (mnt_FileType mount = ''directory'') (JobRefusedFor ''runtime mount is not a directory'' role)
         else if role = ''declared'' then
           for_each (\<lambda>m. require (\<not> (pm_Target m = target \<and> pm_SourceType m \<noteq> mnt_FileType mount))
             (JobRefusedFor ''runtime declared mount type disagrees with retained plan'' target)) (elems (pl_Mounts p))
         else Inr ()) (\<lambda>_.
      require (\<not> (target = helper_path \<and> mnt_SHA256 mount \<noteq> prv_ExecutableSHA256 provenance))
        (JobRefused ''runtime helper mount is not bound to executable provenance'')))))"

definition contained :: "RuntimeObservation \<Rightarrow> bool" where
  "contained before =
     (\<not> (obs_NetworkMode before \<noteq> ''none'' \<or> (obs_IPCMode before \<noteq> ''private'' \<and> obs_IPCMode before \<noteq> ''shareable'')
       \<or> \<not> obs_IPCIsolated before \<or> obs_PIDMode before \<noteq> ''private'' \<or> obs_UTSMode before \<noteq> ''private''
       \<or> obs_UserNSMode before = ''host'' \<or> \<not> obs_UIDIdentity before \<or> \<not> obs_GIDIdentity before
       \<or> elems (obs_BoundingCaps before) \<noteq> [] \<or> \<not> obs_NoNewPrivileges before \<or> obs_SeccompMode before \<noteq> 2
       \<or> obs_Devices before \<noteq> 0))"

definition verifyRuntimeBeforeObservation :: "RuntimeObservation \<Rightarrow> Result \<Rightarrow> Request \<Rightarrow> plan_Result \<Rightarrow> Provenance \<Rightarrow> unit job_result" where
  "verifyRuntimeBeforeObservation before result request retained provenance =
     (let identity = res_Identity result; p = rs_Plan retained; network = elems (pl_NetworkAllow p) in
      bind_result (require (\<not> (obs_Phase before \<noteq> ''before'' \<or> \<not> obs_Running before))
        (JobRefused ''before-runtime observation phase or running state disagrees'')) (\<lambda>_.
      bind_result (require (\<not> (obs_ImageReference before \<noteq> exe_ImageReference identity \<or> obs_ImageDigest before \<noteq> exe_ImageDigest identity
          \<or> obs_Generation before \<noteq> exe_Generation identity \<or> obs_PlanSHA256 before \<noteq> exe_PlanSHA256 identity
          \<or> obs_DeclarationSHA256 before \<noteq> exe_DeclarationSHA256 identity))
        (JobRefused ''runtime observation disagrees with result identity'')) (\<lambda>_.
      bind_result (require (exe_RuntimeProvider identity = obs_Provider before) (JobRefused ''runtime provider identity mismatch'')) (\<lambda>_.
      bind_result (require (contained before) (JobRefused ''runtime observation does not prove required containment'')) (\<lambda>_.
      bind_result (require (\<not> (obs_User before \<noteq> pw_User (pl_World p) \<or> obs_Hostname before \<noteq> pw_Hostname (pl_World p)
          \<or> obs_WorkingDirectory before \<noteq> cmd_WorkingDirectory (req_Command request)
          \<or> obs_MemoryBytes before \<noteq> pr_MemoryBytes (pl_Resources p)
          \<or> obs_NanoCPUs before \<noteq> wrap64 (pr_CPUs (pl_Resources p) * 1000000000) \<or> obs_PIDs before \<noteq> pr_PIDs (pl_Resources p)))
        (JobRefused ''runtime observation disagrees with retained execution authority'')) (\<lambda>_.
      bind_result (require (\<not> (network = [] \<and> obs_EgressAdmission before \<noteq> None)) (JobRefused ''networkless runtime carries an egress admission'')) (\<lambda>_.
      bind_result (require (\<not> (network \<noteq> [] \<and> obs_EgressAdmission before = None))
        (JobRefused ''declared egress lacks an independently retained runtime admission'')) (\<lambda>_.
      bind_result (require (length (elems (obs_Mounts before)) = length (expected_mounts p))
        (JobRefused ''runtime mount inventory disagrees with retained plan'')) (\<lambda>_.
      for_each (check_mount p provenance) (elems (obs_Mounts before)))))))))))"

text \<open>The facts that stopping must not change; those of the live process are blanked.\<close>

definition stable_before :: "RuntimeObservation \<Rightarrow> RuntimeObservation" where
  "stable_before o' = o'\<lparr>obs_Phase := [], obs_ObservedAt := [], obs_Running := False, obs_IPCIsolated := False, obs_UIDIdentity := False,
     obs_GIDIdentity := False, obs_NoNewPrivileges := False, obs_SeccompMode := 0, obs_BoundingCaps := Some [], obs_EgressAdmission := None\<rparr>"

definition stable_after :: "RuntimeObservation \<Rightarrow> RuntimeObservation" where
  "stable_after o' = o'\<lparr>obs_Phase := [], obs_ObservedAt := [], obs_Running := False\<rparr>"

definition same_runtime :: "RuntimeObservation \<Rightarrow> RuntimeObservation \<Rightarrow> bool" where
  "same_runtime before after =
     (obs_ContainerID before = obs_ContainerID after \<and> obs_ContainerName before = obs_ContainerName after
      \<and> obs_ImageReference before = obs_ImageReference after \<and> obs_ImageDigest before = obs_ImageDigest after
      \<and> obs_PlanSHA256 before = obs_PlanSHA256 after \<and> obs_DeclarationSHA256 before = obs_DeclarationSHA256 after
      \<and> obs_Generation before = obs_Generation after)"

definition verifyRuntimeObservations :: "RuntimeObservation \<Rightarrow> RuntimeObservation \<Rightarrow> Result \<Rightarrow> Request \<Rightarrow> plan_Result \<Rightarrow> Provenance
    \<Rightarrow> unit job_result" where
  "verifyRuntimeObservations before after result request retained provenance =
     bind_result (verifyRuntimeBeforeObservation before result request retained provenance) (\<lambda>_.
     bind_result (require (\<not> (obs_Phase after \<noteq> ''after'' \<or> obs_Running after))
       (JobRefused ''runtime observation phases or running states disagree'')) (\<lambda>_.
     bind_result (require (same_runtime before after) (JobRefused ''runtime identity changed across phases'')) (\<lambda>_.
     require (stable_before before = stable_after after) (JobRefused ''stable runtime enforcement facts changed across phases''))))"

definition parseRetainedRuntimeObservation :: "bytes \<Rightarrow> RuntimeObservation option job_result" where
  "parseRetainedRuntimeObservation raw =
     (if TrimSpace raw = ''{}'' then Inr None
      else bind_result (of_contract (ParseRuntimeObservation raw)) (\<lambda>observation. Inr (Some observation)))"

definition verifyRetainedRuntimeEvidence :: "RuntimeObservation option \<Rightarrow> RuntimeObservation option \<Rightarrow> Result \<Rightarrow> Request \<Rightarrow> plan_Result
    \<Rightarrow> Provenance \<Rightarrow> unit job_result" where
  "verifyRetainedRuntimeEvidence before after result request retained provenance =
     (let identity = res_Identity result; reasons = elems (res_Reasons result) in
      case before of
        None \<Rightarrow>
          if after = None then
            bind_result (require (\<not> (exe_RuntimeProvider identity \<noteq> [] \<or> exe_Generation identity \<noteq> 0 \<or> exe_ImageDigest identity \<noteq> []))
              (JobRefused ''absent runtime observations contradict retained runtime identity'')) (\<lambda>_.
            require (''RUNTIME_START_FAILED'' \<in> set reasons \<or> ''RUNTIME_START_OBSERVATION_FAILED'' \<in> set reasons
                \<or> ''RUNTIME_OBSERVATION_INVALID'' \<in> set reasons)
              (JobRefused ''absent runtime observations lack a justified start failure''))
          else Inl (JobRefused ''after-runtime observation exists without its before-runtime authority'')
      | Some b \<Rightarrow>
          bind_result (verifyRuntimeBeforeObservation b result request retained provenance) (\<lambda>_.
          case after of
            Some a \<Rightarrow> verifyRuntimeObservations b a result request retained provenance
          | None \<Rightarrow>
              require (\<not> (res_Status result = ''complete'' \<or> ''FINALIZATION_FAILED'' \<notin> set reasons))
                (JobRefused ''missing after-runtime observation lacks a justified finalization failure'')))"

section \<open>Egress\<close>

definition EgressAllowlistDigest :: "(bytes \<Rightarrow> bytes) \<Rightarrow> plan_NetworkAllow list \<Rightarrow> bytes" where
  "EgressAllowlistDigest uni allows =
     (let values = map (\<lambda>a. JoinHostPort (ToLower uni (TrimSuffix (pa_Host a) ''.'')) (Itoa (pa_Port a))) allows in
      ''sha256:'' @ sha256_hex (concat (map (\<lambda>v. v @ [newline]) (sort values))))"

definition egress_boundaries :: "EgressEvidence \<Rightarrow> Result \<Rightarrow> unit job_result" where
  "egress_boundaries observation result =
     (case (ParseRFC3339Nano (egr_ReadyAt observation), ParseRFC3339Nano (tgt_StartedAt (res_Target result)),
            ParseRFC3339Nano (tgt_FinishedAt (res_Target result)), ParseRFC3339Nano (egr_RevokedAt observation),
            ParseRFC3339Nano (fin_FinishedAt (res_Finalization result))) of
        (Some ready, Some started, Some finished, Some revoked, Some finalized) \<Rightarrow>
          require (\<not> (Before started ready \<or> Before revoked finished \<or> Before finalized revoked))
            (JobRefused ''egress lifecycle is outside target and finalization boundaries'')
      | _ \<Rightarrow> Inl (JobRefused ''egress lifecycle timestamps are invalid''))"

definition verifyEgressEvidence :: "(bytes \<Rightarrow> bytes) \<Rightarrow> EgressEvidence \<Rightarrow> plan_Result \<Rightarrow> Result \<Rightarrow> RuntimeObservation \<Rightarrow> unit job_result" where
  "verifyEgressEvidence uni observation retained result runtimeBefore =
     (let network = elems (pl_NetworkAllow (rs_Plan retained)) in
      bind_result (require (network \<noteq> []) (JobRefused ''networkless job retained egress evidence'')) (\<lambda>_.
      bind_result (require (egr_AllowlistSHA256 observation = EgressAllowlistDigest uni network)
        (JobRefused ''egress allowlist digest disagrees with retained authority'')) (\<lambda>_.
      bind_result (require (\<not> (egr_ContainerID observation \<noteq> obs_ContainerID runtimeBefore
          \<or> egr_Generation observation \<noteq> exe_Generation (res_Identity result) \<or> egr_Generation observation \<noteq> obs_Generation runtimeBefore))
        (JobRefused ''egress runtime identity disagrees with container evidence'')) (\<lambda>_.
      case obs_EgressAdmission runtimeBefore of
        None \<Rightarrow> Inl (JobRefused ''egress admission is absent from independently retained runtime evidence'')
      | Some admission \<Rightarrow>
          bind_result (require (\<not> (egr_AllowlistSHA256 observation \<noteq> adm_AllowlistSHA256 admission
              \<or> egr_ListenerAddress observation \<noteq> adm_ListenerAddress admission \<or> egr_OwnerID observation \<noteq> adm_OwnerID admission
              \<or> egr_PID observation \<noteq> adm_PID admission \<or> egr_ProcessStart observation \<noteq> adm_ProcessStart admission
              \<or> egr_UserNamespace observation \<noteq> adm_UserNamespace admission \<or> egr_NetworkNamespace observation \<noteq> adm_NetworkNamespace admission))
            (JobRefused ''egress lifecycle identity disagrees with independently retained runtime admission'')) (\<lambda>_.
          bind_result (require (\<not> (res_Status result = ''complete'' \<and> egr_Status observation \<noteq> ''complete''))
            (JobRefused ''complete result lacks complete egress lifecycle evidence'')) (\<lambda>_.
          bind_result (require (\<not> (egr_Status observation = ''complete''
              \<and> (\<not> cln_ProxyAbsent (res_Cleanup result) \<or> obs_NetworkMode runtimeBefore \<noteq> ''none'')))
            (JobRefused ''complete egress evidence lacks proxy absence or network-none containment'')) (\<lambda>_.
          if tgt_Kind (res_Target result) = ''exited'' \<or> tgt_Kind (res_Target result) = ''signaled''
          then egress_boundaries observation result else Inr ())))))))"

section \<open>Verification\<close>

text \<open>The seal: the manifest, its content root, the kinds of its entries, and a directory that holds nothing else.\<close>

definition open_seal :: "edir \<Rightarrow> (Manifest \<times> (bytes \<times> ManifestEntry) list \<times> ManifestEntry list) job_result" where
  "open_seal root =
     bind_result (readRegular root ''manifest.json'' (int MaximumManifestBytes)) (\<lambda>manifestRaw.
     bind_result (of_contract (ParseManifest manifestRaw)) (\<lambda>manifest.
     bind_result (require (contentDigest (elems (man_Entries manifest)) = man_ContentSHA256 manifest)
       (JobRefused ''manifest content root mismatch'')) (\<lambda>_.
     bind_result (classifyManifest manifest) (\<lambda>(known, artifacts).
     bind_result (verifyClosedInventory root manifest) (\<lambda>_.
     Inr (manifest, known, artifacts))))))"

definition read_limits :: "Request \<Rightarrow> (bytes \<times> ManifestEntry) list \<Rightarrow> (bytes \<times> int) list" where
  "read_limits request known =
     [(''declaration.toml'', int MaximumRequestBytes), (''plan.json'', int MaximumManifestBytes),
      (''provenance.json'', int MaximumProvenanceBytes), (''result.json'', int MaximumResultBytes),
      (''runtime-before.json'', int MaximumManifestBytes), (''runtime-after.json'', int MaximumManifestBytes),
      (''stdout.bin'', lim_StdoutMaxBytes (req_Limits request)), (''stderr.bin'', lim_StderrMaxBytes (req_Limits request))]
     @ (if req_Artifacts request \<noteq> None then [(''target-inventory.json'', int MaximumManifestBytes)] else [])
     @ (if map_of known ''egress.json'' \<noteq> None then [(''egress.json'', int MaximumEgressEvidenceBytes)] else [])"

definition read_known :: "edir \<Rightarrow> (bytes \<times> ManifestEntry) list \<Rightarrow> bytes \<times> int \<Rightarrow> (bytes \<times> bytes) job_result" where
  "read_known root known limit =
     (case limit of (name, maximum) \<Rightarrow>
        case map_of known name of
          None \<Rightarrow> Inl (JobHost name)
        | Some entry \<Rightarrow> bind_result (readSealedEntry root entry maximum) (\<lambda>raw. Inr (name, raw)))"

definition verify_identities :: "Manifest \<Rightarrow> Request \<Rightarrow> bytes \<Rightarrow> Result \<Rightarrow> bytes \<Rightarrow> bytes \<Rightarrow> unit job_result" where
  "verify_identities manifest request requestRaw result resultRaw declarationRaw =
     bind_result (require (\<not> (req_JobID request \<noteq> man_JobID manifest \<or> res_JobID result \<noteq> man_JobID manifest
         \<or> digest requestRaw \<noteq> man_RequestSHA256 manifest \<or> digest resultRaw \<noteq> man_ResultSHA256 manifest
         \<or> res_RequestSHA256 result \<noteq> man_RequestSHA256 manifest))
       (JobRefused ''job, request, result, and manifest identities disagree'')) (\<lambda>_.
     require (\<not> (digest declarationRaw \<noteq> bnd_SHA256 (req_Declaration request)
         \<or> exe_DeclarationSHA256 (res_Identity result) \<noteq> bnd_SHA256 (req_Declaration request)))
       (JobRefused ''declaration identity mismatch''))"

definition verify_plan :: "(bytes \<Rightarrow> bytes) \<Rightarrow> Request \<Rightarrow> Result \<Rightarrow> bytes \<Rightarrow> bytes \<Rightarrow> plan_Result job_result" where
  "verify_plan uni request result planRaw declarationRaw =
     bind_result (planContentDigest planRaw) (\<lambda>(retainedPlan, planDigest).
     bind_result (of_parse (Parse declarationRaw)) (\<lambda>declaration.
     bind_result (of_plan (ProjectEvidence empty_host uni declaration declarationRaw retainedPlan)) (\<lambda>expectedPlan.
     bind_result (require (retainedPlan = expectedPlan) (JobRefused ''retained public plan disagrees with declaration semantics'')) (\<lambda>_.
     bind_result (require (\<not> (planDigest \<noteq> prefixedDigest (rs_PlanDigest retainedPlan)
         \<or> rs_PlanDigest retainedPlan \<noteq> rs_EvidenceDigest retainedPlan \<or> exe_PlanSHA256 (res_Identity result) \<noteq> planDigest))
       (JobRefused ''plan identity mismatch'')) (\<lambda>_.
     bind_result (validateSecretEnvironment request retainedPlan) (\<lambda>_.
     Inr retainedPlan))))))"

definition verify_image :: "Result \<Rightarrow> plan_Result \<Rightarrow> unit job_result" where
  "verify_image result retainedPlan =
     (let base = pw_Base (pl_World (rs_Plan retainedPlan)); image = exe_ImageDigest (res_Identity result) in
      bind_result (require (exe_ImageReference (res_Identity result) = base)
        (JobRefused ''result image reference disagrees with retained plan'')) (\<lambda>_.
      case declared_digest base of
        None \<Rightarrow> Inr ()
      | Some declared \<Rightarrow>
          if image \<noteq> [] \<and> image \<noteq> declared then
            bind_result (require (res_Status result \<noteq> ''complete'') (JobRefused ''complete result carries a mismatched observed image digest'')) (\<lambda>_.
            require (''RUNTIME_START_OBSERVATION_FAILED'' \<in> set (elems (res_Reasons result)))
              (JobRefused ''image digest mismatch lacks runtime observation failure''))
          else Inr ()))"

definition verify_egress :: "(bytes \<Rightarrow> bytes) \<Rightarrow> bytes option \<Rightarrow> plan_Result \<Rightarrow> Result \<Rightarrow> RuntimeObservation option \<Rightarrow> unit job_result" where
  "verify_egress uni egressRaw retainedPlan result before =
     (let bound = exe_EgressSHA256 (res_Identity result) in
      if elems (pl_NetworkAllow (rs_Plan retainedPlan)) = [] then
        require (\<not> (egressRaw \<noteq> None \<or> bound \<noteq> [])) (JobRefused ''networkless job carries egress evidence'')
      else case egressRaw of
        None \<Rightarrow> require (\<not> (res_Status result = ''complete'' \<or> bound \<noteq> []))
          (JobRefused ''declared egress evidence is absent or inconsistently bound'')
      | Some raw \<Rightarrow>
          bind_result (require (digest raw = bound) (JobRefused ''declared egress evidence is unbound'')) (\<lambda>_.
          bind_result (of_contract (ParseEgressEvidence raw)) (\<lambda>egress.
          case before of
            None \<Rightarrow> Inl (JobRefused ''retained egress lacks a strict before-runtime observation'')
          | Some b \<Rightarrow> verifyEgressEvidence uni egress retainedPlan result b)))"

definition verify_streams :: "Result \<Rightarrow> bytes \<Rightarrow> bytes \<Rightarrow> unit job_result" where
  "verify_streams result stdout stderr =
     require (\<not> (digest stdout \<noteq> stm_SHA256 (res_Stdout result) \<or> int (length stdout) \<noteq> stm_CapturedBytes (res_Stdout result)
         \<or> digest stderr \<noteq> stm_SHA256 (res_Stderr result) \<or> int (length stderr) \<noteq> stm_CapturedBytes (res_Stderr result)))
       (JobRefused ''stream evidence mismatch'')"

text \<open>The checks after the documents were read; \<open>file\<close> gives the bytes of a document that was read.\<close>

definition verify_documents :: "(bytes \<Rightarrow> bytes) \<Rightarrow> edir \<Rightarrow> Manifest \<Rightarrow> ManifestEntry list \<Rightarrow> Request \<Rightarrow> bytes \<Rightarrow> (bytes \<times> bytes) list
    \<Rightarrow> Verification job_result" where
  "verify_documents uni root manifest artifacts request requestRaw observed =
     (let doc = (\<lambda>name. case map_of observed name of None \<Rightarrow> [] | Some raw \<Rightarrow> raw) in
      bind_result (of_contract (ParseResult (doc ''result.json''))) (\<lambda>result.
      bind_result (of_contract (ParseProvenance (doc ''provenance.json''))) (\<lambda>provenance.
      bind_result (verify_identities manifest request requestRaw result (doc ''result.json'') (doc ''declaration.toml'')) (\<lambda>_.
      bind_result (verify_plan uni request result (doc ''plan.json'') (doc ''declaration.toml'')) (\<lambda>retainedPlan.
      bind_result (verify_image result retainedPlan) (\<lambda>_.
      bind_result (require (\<not> (digest (doc ''provenance.json'') \<noteq> exe_ProvenanceSHA256 (res_Identity result) \<or> prv_ExecutableSHA256 provenance = []))
        (JobRefused ''provenance identity mismatch'')) (\<lambda>_.
      bind_result (require (runtimeEvidenceDigest (doc ''runtime-before.json'') (doc ''runtime-after.json'') = exe_RuntimeSHA256 (res_Identity result))
        (JobRefused ''runtime evidence identity mismatch'')) (\<lambda>_.
      bind_result (parseRetainedRuntimeObservation (doc ''runtime-before.json'')) (\<lambda>before.
      bind_result (parseRetainedRuntimeObservation (doc ''runtime-after.json'')) (\<lambda>after.
      bind_result (verifyRetainedRuntimeEvidence before after result request retainedPlan provenance) (\<lambda>_.
      bind_result (verify_egress uni (map_of observed ''egress.json'') retainedPlan result before) (\<lambda>_.
      bind_result (verifyArtifacts request manifest observed) (\<lambda>_.
      bind_result (case req_Artifacts request of
          None \<Rightarrow> Inr ()
        | Some a \<Rightarrow> for_each (\<lambda>entry. verifyRegularDigest root entry (art_MaxBytes a)) artifacts) (\<lambda>_.
      bind_result (verify_streams result (doc ''stdout.bin'') (doc ''stderr.bin'')) (\<lambda>_.
      Inr \<lparr>ver_Schema = ''kenogram.job-verification.v1'', ver_JobID = man_JobID manifest, ver_Status = res_Status result,
           ver_Entries = int (length (elems (man_Entries manifest)))\<rparr>)))))))))))))))"

definition Verify :: "(bytes \<Rightarrow> bytes) \<Rightarrow> bytes \<Rightarrow> edir option \<Rightarrow> Verification job_result" where
  "Verify uni evidenceDir directory =
     bind_result (require (\<not> (\<not> IsAbs evidenceDir \<or> Clean evidenceDir \<noteq> evidenceDir))
       (JobRefused ''evidence directory must be an absolute clean path'')) (\<lambda>_.
     case directory of
       None \<Rightarrow> Inl (JobHost evidenceDir)
     | Some root \<Rightarrow>
         bind_result (open_seal root) (\<lambda>(manifest, known, artifacts).
         bind_result (case map_of known ''request.json'' of
             None \<Rightarrow> Inl (JobHost ''request.json'')
           | Some entry \<Rightarrow> readSealedEntry root entry (int MaximumRequestBytes)) (\<lambda>requestRaw.
         bind_result (of_contract (ParseRequest requestRaw)) (\<lambda>request.
         bind_result (validateArtifactManifestAuthority request known artifacts) (\<lambda>_.
         bind_result (map_result (read_known root known) (read_limits request known)) (\<lambda>observed.
         verify_documents uni root manifest artifacts request requestRaw observed))))))"

end
