(* ===== verification/Job_Run.thy ===== *)
theory Job_Run
  imports Job_Verify
begin

text \<open>
  One governed job from the request to the sealed evidence (\<^verbatim>\<open>internal/job/job.go\<close>). What the host and
  the runtime do in a run are the records \<open>job_host\<close> and \<open>runtime_run\<close>: a call that the executor bounds by a
  deadline either returns, possibly after the deadline passed, or is given up; the writes of the target to
  a captured stream are those before the stream is closed. A Go error is the list of the errors
  that were joined, empty for nil; of an error only matters whether it is one of a context. The third result
  of \<open>Run\<close> lists the calls made on the runtime.
\<close>

datatype call_error = ContextDone | CallFailed

type_synonym errs = "call_error list"

datatype 'a bounded = Returned 'a bool | Expired

datatype start_call = StartNotCalled | StartCalled "(bool \<times> errs) bounded"

datatype cleanup_call = CleanupObserved "CleanupResult bounded" | CleanupExpired

datatype runtime_call =
    CallStart | CallIdentity | CallBeginWait | CallWait | CallJoinWait | CallBeginFinalization | CallFinalize
  | CallJoinFinalization | CallCleanup

record RuntimeIdentity =
  id_Provider :: bytes
  id_Generation :: int
  id_ImageReference :: bytes
  id_ImageDigest :: bytes
  id_Before :: bytes

record RuntimeFinalization =
  fz_After :: bytes
  fz_Egress :: bytes
  fz_Artifacts :: "Artifact list"

record Executor =
  ex_Runtime :: bool
  ex_Build :: BuildIdentity

record Outcome =
  oc_Result :: Result
  oc_Sealed :: bool

datatype run_error = BeforeIdentity job_error | AfterIdentity job_error

definition IsPostIdentityError :: "run_error \<Rightarrow> bool" where
  "IsPostIdentityError e = (case e of AfterIdentity _ \<Rightarrow> True | BeforeIdentity _ \<Rightarrow> False)"

record job_host =
  h_canceled :: bool
  h_declaration :: "bytes \<Rightarrow> bytes option"
  h_prepareCanceled :: bool
  h_poll :: poll
  h_fs :: host_fs
  h_wd :: "bytes option"
  h_executable :: "bytes option"
  h_go :: go_runtime
  h_create :: bool
  h_fails :: "bytes \<Rightarrow> bool"

record runtime_run =
  x_started :: bool
  x_start :: start_call
  x_stdout :: "(nat option \<times> bytes) list"
  x_stderr :: "(nat option \<times> bytes) list"
  x_identity :: "(RuntimeIdentity \<times> errs) bounded"
  x_wait :: "(TargetResult \<times> errs) bounded"
  x_joinWait :: errs
  x_finalize :: "(RuntimeFinalization \<times> errs) bounded"
  x_finalStarted :: gotime
  x_finalFinished :: gotime
  x_finalElapsed :: int
  x_now :: gotime
  x_cleanupJoinWait :: errs
  x_joinFinalization :: errs
  x_cleanup :: cleanup_call
  x_elapsed :: "nat \<Rightarrow> int"
  x_sealedAt :: gotime

section \<open>Bounded calls\<close>

definition no_identity :: RuntimeIdentity where
  "no_identity = \<lparr>id_Provider = [], id_Generation = 0, id_ImageReference = [], id_ImageDigest = [], id_Before = []\<rparr>"

definition no_finalization :: RuntimeFinalization where
  "no_finalization = \<lparr>fz_After = [], fz_Egress = [], fz_Artifacts = []\<rparr>"

definition target_of :: "bytes \<Rightarrow> TargetResult" where
  "target_of kind = \<lparr>tgt_Kind = kind, tgt_ExitStatus = None, tgt_Signal = None, tgt_StartedAt = [], tgt_FinishedAt = [], tgt_DurationNS = None\<rparr>"

definition no_cleanup :: CleanupResult where
  "no_cleanup = \<lparr>cln_Status = [], cln_ContainerAbsent = False, cln_ProxyAbsent = False, cln_ProcessGroupEmpty = False,
     cln_Forced = False, cln_DurationNS = 0, cln_Reasons = None\<rparr>"

definition startRuntimeBounded :: "start_call \<Rightarrow> (bool \<times> errs) \<times> runtime_call list" where
  "startRuntimeBounded call =
     (case call of
        StartNotCalled \<Rightarrow> ((False, [ContextDone]), [])
      | StartCalled (Returned (process, err) late) \<Rightarrow> ((process, if late then err @ [ContextDone] else err), [CallStart])
      | StartCalled Expired \<Rightarrow> ((False, [ContextDone]), [CallStart]))"

definition identityProcessBounded :: "(RuntimeIdentity \<times> errs) bounded \<Rightarrow> RuntimeIdentity \<times> errs" where
  "identityProcessBounded call =
     (case call of
        Returned (identity, err) late \<Rightarrow> if late then (no_identity, err @ [ContextDone]) else (identity, err)
      | Expired \<Rightarrow> (no_identity, [ContextDone]))"

definition waitProcessBounded :: "(TargetResult \<times> errs) bounded \<Rightarrow> TargetResult \<times> errs" where
  "waitProcessBounded call =
     (case call of
        Returned (target, err) late \<Rightarrow> if late then (target_of ''unknown'', [ContextDone]) else (target, err)
      | Expired \<Rightarrow> (target_of ''unknown'', [ContextDone]))"

definition finalizeProcessBounded :: "(RuntimeFinalization \<times> errs) bounded \<Rightarrow> RuntimeFinalization \<times> errs" where
  "finalizeProcessBounded call =
     (case call of
        Returned (final, err) late \<Rightarrow> if late then (no_finalization, [ContextDone]) else (final, err)
      | Expired \<Rightarrow> (no_finalization, [ContextDone]))"

definition cleanupRuntimeBounded :: "CleanupResult bounded \<Rightarrow> CleanupResult \<times> errs" where
  "cleanupRuntimeBounded call =
     (case call of
        Returned result late \<Rightarrow> if late then (no_cleanup, [ContextDone]) else (result, [])
      | Expired \<Rightarrow> (no_cleanup, [ContextDone]))"

definition cleanupRuntimeAfterStartBounded :: "cleanup_call \<Rightarrow> CleanupResult \<times> errs" where
  "cleanupRuntimeAfterStartBounded call =
     (case call of
        CleanupObserved observed \<Rightarrow> cleanupRuntimeBounded observed
      | CleanupExpired \<Rightarrow> (no_cleanup, [ContextDone]))"

section \<open>Helpers\<close>

definition validRuntimeDigest :: "bytes \<Rightarrow> bool" where
  "validRuntimeDigest value =
     (\<not> (length value \<noteq> length ''sha256:'' + 64 \<or> \<not> HasPrefix value ''sha256:'') \<and> hex_decodes (TrimPrefix value ''sha256:''))"

definition validateRuntimeIdentity :: "RuntimeIdentity \<Rightarrow> plan_Result \<Rightarrow> unit job_result" where
  "validateRuntimeIdentity identity prepared =
     (let base = pw_Base (pl_World (rs_Plan prepared)) in
      bind_result (require (\<not> (id_Generation identity < 1 \<or> id_Generation identity > MaximumWireInteger))
        (JobRefused ''runtime generation is outside the evidence boundary'')) (\<lambda>_.
      bind_result (require (id_ImageReference identity = base)
        (JobRefused ''runtime image reference disagrees with declared authority'')) (\<lambda>_.
      bind_result (require (validRuntimeDigest (id_ImageDigest identity)) (JobRefused ''runtime image digest is invalid or absent'')) (\<lambda>_.
      case declared_digest base of
        None \<Rightarrow> Inr ()
      | Some declared \<Rightarrow> require (id_ImageDigest identity = declared)
          (JobRefused ''observed image digest disagrees with pinned declaration'')))))"

definition boundedDuration :: "int \<Rightarrow> int" where
  "boundedDuration value = (if value < 0 then 0 else if value > MaximumWireInteger then MaximumWireInteger else value)"

definition interval :: "gotime \<Rightarrow> gotime \<Rightarrow> int \<Rightarrow> FinalizationResult" where
  "interval start finish duration =
     \<lparr>fin_StartedAt = FormatRFC3339Nano start, fin_FinishedAt = FormatRFC3339Nano finish, fin_DurationNS = boundedDuration duration\<rparr>"

definition appendReason :: "bytes list option \<Rightarrow> bytes \<Rightarrow> bytes list option" where
  "appendReason values value = (if value \<in> set (elems values) then values else Some (elems values @ [value]))"

definition sortedUnique :: "bytes list option \<Rightarrow> bytes list option" where
  "sortedUnique values = map_option sort values"

definition readBoundRegular :: "bytes option \<Rightarrow> nat \<Rightarrow> bytes \<Rightarrow> bytes job_result" where
  "readBoundRegular content maximum path =
     (case content of
        None \<Rightarrow> Inl (JobHost path)
      | Some raw \<Rightarrow> if length raw > maximum then Inl (JobRefusedFor ''is not a bounded regular file'' path) else Inr raw)"

definition incomplete :: "bytes \<Rightarrow> Result \<Rightarrow> Result" where
  "incomplete reason result = result\<lparr>res_Status := ''incomplete'', res_Reasons := appendReason (res_Reasons result) reason\<rparr>"

section \<open>Before the runtime\<close>

text \<open>The request, its bound declaration and the plan: what establishes the identity of the job.\<close>

definition establish :: "(bytes \<Rightarrow> bytes) \<Rightarrow> Executor \<Rightarrow> job_host \<Rightarrow> bytes \<Rightarrow> (Request \<times> bytes \<times> plan_Result) job_result" where
  "establish uni executor host requestRaw =
     bind_result (require (\<not> h_canceled host) (JobHost ''context'')) (\<lambda>_.
     bind_result (of_contract (ParseRequest requestRaw)) (\<lambda>request.
     bind_result (require (ex_Runtime executor) (JobRefused ''governed job runtime is unavailable'')) (\<lambda>_.
     let path = bnd_Path (req_Declaration request) in
     bind_result (readBoundRegular (h_declaration host path) MaximumRequestBytes path) (\<lambda>declarationRaw.
     bind_result (require (digest declarationRaw = bnd_SHA256 (req_Declaration request))
       (JobRefused ''declaration digest does not match job request'')) (\<lambda>_.
     bind_result (require (\<not> h_prepareCanceled host) (JobHost ''context'')) (\<lambda>_.
     bind_result (of_parse (Parse declarationRaw)) (\<lambda>declaration.
     bind_result (of_plan (BuildContext (h_fs host) uni (h_wd host) (h_poll host) declaration path declarationRaw)) (\<lambda>prepared.
     bind_result (validateSecretEnvironment request prepared) (\<lambda>_.
     Inr (request, declarationRaw, prepared))))))))))"

definition new_writer :: evidenceWriter where
  "new_writer = \<lparr>w_files = [], w_entries = []\<rparr>"

text \<open>The evidence directory with the documents that exist before the runtime is started.\<close>

definition createEvidence :: "job_host \<Rightarrow> bytes \<Rightarrow> evidenceWriter job_result" where
  "createEvidence host path =
     bind_result (require (\<not> (\<not> IsAbs path \<or> Clean path \<noteq> path)) (JobRefused ''evidence directory must be an absolute clean path'')) (\<lambda>_.
     bind_result (require (h_create host) (JobHost path)) (\<lambda>_. Inr new_writer))"

definition open_evidence :: "Executor \<Rightarrow> job_host \<Rightarrow> bytes \<Rightarrow> bytes \<Rightarrow> Request \<Rightarrow> bytes \<Rightarrow> plan_Result
    \<Rightarrow> (Provenance \<times> bytes \<times> evidenceWriter \<times> capture \<times> capture) job_result" where
  "open_evidence executor host evidenceDir requestRaw request declarationRaw prepared =
     bind_result (of_plan (plan_JSON prepared)) (\<lambda>planRaw.
     bind_result (readBoundRegular (h_executable host) (2 ^ 30) ''executable'') (\<lambda>executable.
     bind_result (executableProvenance (h_go host) (ex_Build executor) executable) (\<lambda>(provenance, provenanceRaw).
     bind_result (createEvidence host evidenceDir) (\<lambda>w.
     bind_result (evidence_Write (h_fails host) ''declaration.toml'' ''declaration'' declarationRaw w) (\<lambda>w.
     bind_result (evidence_Write (h_fails host) ''plan.json'' ''plan'' planRaw w) (\<lambda>w.
     bind_result (evidence_Write (h_fails host) ''provenance.json'' ''provenance'' provenanceRaw w) (\<lambda>w.
     bind_result (evidence_Write (h_fails host) ''request.json'' ''request'' requestRaw w) (\<lambda>w.
     bind_result (evidence_Stream (h_fails host) ''stdout.bin'' ''stdout'' (lim_StdoutMaxBytes (req_Limits request)) w) (\<lambda>stdout.
     bind_result (evidence_Stream (h_fails host) ''stderr.bin'' ''stderr'' (lim_StderrMaxBytes (req_Limits request)) w) (\<lambda>stderr.
     Inr (provenance, provenanceRaw, w, stdout, stderr)))))))))))"

definition initial_result :: "Request \<Rightarrow> bytes \<Rightarrow> plan_Result \<Rightarrow> bytes \<Rightarrow> Result" where
  "initial_result request requestRaw prepared provenanceRaw =
     \<lparr>res_Schema = ResultSchema, res_JobID = req_JobID request, res_Status = ''refused'', res_RequestSHA256 = digest requestRaw,
      res_EvidenceManifest = ''manifest.json'',
      res_Identity = \<lparr>exe_DeclarationSHA256 = bnd_SHA256 (req_Declaration request),
        exe_PlanSHA256 = prefixedDigest (rs_EvidenceDigest prepared), exe_Generation = 0,
        exe_ImageReference = pw_Base (pl_World (rs_Plan prepared)), exe_ImageDigest = [], exe_RuntimeSHA256 = [],
        exe_ProvenanceSHA256 = digest provenanceRaw, exe_RuntimeProvider = [], exe_EgressSHA256 = []\<rparr>,
      res_Target = target_of ''not_started'',
      res_Stdout = \<lparr>stm_Path = [], stm_SHA256 = [], stm_CapturedBytes = 0, stm_TotalBytes = 0, stm_Truncated = False\<rparr>,
      res_Stderr = \<lparr>stm_Path = [], stm_SHA256 = [], stm_CapturedBytes = 0, stm_TotalBytes = 0, stm_Truncated = False\<rparr>,
      res_Finalization = \<lparr>fin_StartedAt = [], fin_FinishedAt = [], fin_DurationNS = 0\<rparr>,
      res_Cleanup = no_cleanup, res_Reasons = Some [''RUNTIME_START_FAILED'']\<rparr>"

section \<open>The runtime\<close>

record run_state =
  st_result :: Result
  st_before :: bytes
  st_after :: bytes
  st_egress :: bytes
  st_writer :: evidenceWriter
  st_calls :: "runtime_call list"

definition with_identity :: "(ExecutionIdentity \<Rightarrow> ExecutionIdentity) \<Rightarrow> Result \<Rightarrow> Result" where
  "with_identity f result = result\<lparr>res_Identity := f (res_Identity result)\<rparr>"

definition no_runtime :: "ExecutionIdentity \<Rightarrow> ExecutionIdentity" where
  "no_runtime i = i\<lparr>exe_Generation := 0, exe_RuntimeProvider := [], exe_ImageDigest := []\<rparr>"

text \<open>Starting the runtime: whether there is a process, whether the start was admitted, and the error.\<close>

definition start_runtime :: "runtime_run \<Rightarrow> (bool \<times> bool \<times> errs) \<times> runtime_call list" where
  "start_runtime x =
     (case startRuntimeBounded (if x_started x then x_start x else StartNotCalled) of
        ((process, err), calls) \<Rightarrow>
          ((process, process \<or> (x_started x \<and> ContextDone \<in> set err), if err = [] \<and> \<not> process then [CallFailed] else err), calls))"

text \<open>The identity of the started container, when the start succeeded.\<close>

definition observe_identity :: "runtime_run \<Rightarrow> plan_Result \<Rightarrow> errs \<Rightarrow> run_state \<Rightarrow> errs \<times> run_state" where
  "observe_identity x prepared startErr st =
     (if startErr \<noteq> [] then (startErr, st)
      else case identityProcessBounded (x_identity x) of (identity, identityErr) \<Rightarrow>
        let result = with_identity (\<lambda>i. i\<lparr>exe_Generation := id_Generation identity, exe_RuntimeProvider := id_Provider identity,
              exe_ImageDigest := (if validRuntimeDigest (id_ImageDigest identity) then id_ImageDigest identity else exe_ImageDigest i)\<rparr>) (st_result st);
            documentErr = (if is_ok (ValidateJSONDocument (id_Before identity) MaximumManifestBytes) then [] else [CallFailed]);
            validateErr = (if is_ok (validateRuntimeIdentity identity prepared) then [] else [CallFailed])
        in (documentErr @ identityErr @ validateErr,
            st\<lparr>st_result := result, st_before := id_Before identity, st_calls := st_calls st @ [CallIdentity]\<rparr>))"

definition settle_admitted :: "bool \<Rightarrow> errs \<Rightarrow> run_state \<Rightarrow> run_state" where
  "settle_admitted admitted startErr st =
     (if startErr \<noteq> [] \<and> admitted then
        st\<lparr>st_before := [], st_result := (with_identity no_runtime (st_result st))
          \<lparr>res_Status := ''incomplete'', res_Target := target_of ''unknown'', res_Reasons := Some [''RUNTIME_START_OBSERVATION_FAILED'']\<rparr>\<rparr>
      else st)"

definition observe_target :: "runtime_run \<Rightarrow> run_state \<Rightarrow> run_state" where
  "observe_target x st =
     (case waitProcessBounded (x_wait x) of (target, err) \<Rightarrow>
      let valid = is_ok (ValidateTargetResult target);
          result = (st_result st)\<lparr>res_Target := (if valid then target else target_of ''unknown'')\<rparr>
      in st\<lparr>st_calls := st_calls st @ [CallBeginWait, CallWait],
            st_result := (if err \<noteq> [] \<or> \<not> valid
              then result\<lparr>res_Status := ''incomplete'', res_Reasons := Some [''TARGET_OBSERVATION_FAILED'']\<rparr>
              else result\<lparr>res_Status := ''complete'', res_Reasons := Some []\<rparr>)\<rparr>)"

definition observation_failed :: "Result \<Rightarrow> Request \<Rightarrow> plan_Result \<Rightarrow> Provenance \<Rightarrow> bytes \<Rightarrow> bytes \<Rightarrow> bool" where
  "observation_failed result request prepared provenance before after =
     (case ParseRuntimeObservation before of
        Inl _ \<Rightarrow> True
      | Inr b \<Rightarrow>
          if after = [] then \<not> is_ok (verifyRuntimeBeforeObservation b result request prepared provenance)
          else case ParseRuntimeObservation after of
            Inl _ \<Rightarrow> True
          | Inr a \<Rightarrow> \<not> is_ok (verifyRuntimeObservations b a result request prepared provenance))"

text \<open>Joining the wait and finalizing: the observation of the stopped container against the plan.\<close>

definition finalize_runtime :: "runtime_run \<Rightarrow> Request \<Rightarrow> plan_Result \<Rightarrow> Provenance \<Rightarrow> run_state \<Rightarrow> (RuntimeFinalization \<times> errs) \<times> run_state" where
  "finalize_runtime x request prepared provenance st =
     (let join = x_joinWait x;
          (final, err) = (if join = [] then finalizeProcessBounded (x_finalize x) else (no_finalization, join));
          calls = [CallJoinWait] @ (if join = [] then [CallBeginFinalization, CallFinalize] else []);
          result = (st_result st)\<lparr>res_Finalization := interval (x_finalStarted x) (x_finalFinished x) (x_finalElapsed x)\<rparr>;
          finalErr = err @ (if is_ok (ValidateJSONDocument (fz_After final) MaximumManifestBytes) then [] else [CallFailed]);
          invalid = (exe_RuntimeProvider (res_Identity result) = ''podman-cli''
            \<and> observation_failed result request prepared provenance (st_before st) (fz_After final));
          finalErr = (if invalid then [CallFailed] else finalErr);
          result = (if invalid then with_identity no_runtime (result\<lparr>res_Reasons := appendReason (res_Reasons result) ''RUNTIME_OBSERVATION_INVALID''\<rparr>)
                    else result);
          result = (if finalErr \<noteq> [] then incomplete ''FINALIZATION_FAILED'' result else result)
      in ((final, finalErr),
          st\<lparr>st_result := result, st_before := (if invalid then [] else st_before st), st_after := (if invalid then [] else fz_After final),
             st_egress := fz_Egress final, st_calls := st_calls st @ calls\<rparr>))"

definition empty_inventory :: "ArtifactRequest \<Rightarrow> artifactInventory" where
  "empty_inventory request = \<lparr>inv_Schema = inventory_schema, inv_Root = art_ContainerRoot request, inv_Entries = Some []\<rparr>"

definition write_inventory :: "(bytes \<Rightarrow> bool) \<Rightarrow> artifactInventory \<Rightarrow> run_state \<Rightarrow> run_state job_result" where
  "write_inventory fails inventory st =
     bind_result (evidence_Write fails ''target-inventory.json'' ''target_inventory''
       (Encode artifactInventory_shape (artifactInventory_value inventory)) (st_writer st)) (\<lambda>w.
     Inr (st\<lparr>st_writer := w\<rparr>))"

text \<open>The artifacts of a run that finalized, and the inventory of a run that did not get so far.\<close>

definition collect_artifacts :: "(bytes \<Rightarrow> bool) \<Rightarrow> Request \<Rightarrow> RuntimeFinalization \<Rightarrow> errs \<Rightarrow> run_state \<Rightarrow> run_state job_result" where
  "collect_artifacts fails request final finalErr st =
     (case req_Artifacts request of
        None \<Rightarrow> Inr (if fz_Artifacts final \<noteq> [] then st\<lparr>st_result := incomplete ''UNREQUESTED_ARTIFACTS'' (st_result st)\<rparr> else st)
      | Some a \<Rightarrow>
          (case WriteArtifacts fails a (if finalErr \<noteq> [] then [] else fz_Artifacts final) (st_writer st) of
             (Inl e, w) \<Rightarrow> write_inventory fails (empty_inventory a)
               (st\<lparr>st_writer := w, st_result := incomplete ''ARTIFACT_COLLECTION_FAILED'' (st_result st)\<rparr>)
           | (Inr inventory, w) \<Rightarrow> write_inventory fails inventory (st\<lparr>st_writer := w\<rparr>)))"

definition absent_artifacts :: "(bytes \<Rightarrow> bool) \<Rightarrow> Request \<Rightarrow> run_state \<Rightarrow> run_state job_result" where
  "absent_artifacts fails request st =
     (case req_Artifacts request of
        None \<Rightarrow> Inr st
      | Some a \<Rightarrow>
          (case WriteArtifacts fails a [] (st_writer st) of
             (Inl e, w) \<Rightarrow> Inl e
           | (Inr inventory, w) \<Rightarrow> write_inventory fails inventory (st\<lparr>st_writer := w\<rparr>)))"

definition observe_run :: "(bytes \<Rightarrow> bool) \<Rightarrow> runtime_run \<Rightarrow> Request \<Rightarrow> plan_Result \<Rightarrow> Provenance \<Rightarrow> errs \<Rightarrow> run_state
    \<Rightarrow> run_state job_result \<times> runtime_call list" where
  "observe_run fails x request prepared provenance startErr st =
     (if startErr = [] then
        case finalize_runtime x request prepared provenance (observe_target x st) of
          ((final, finalErr), st') \<Rightarrow> (collect_artifacts fails request final finalErr st', st_calls st')
      else (absent_artifacts fails request (st\<lparr>st_result := (st_result st)\<lparr>res_Finalization := interval (x_now x) (x_now x) 0\<rparr>\<rparr>), st_calls st))"

section \<open>After the runtime\<close>

definition incomplete_cleanup :: "bytes \<Rightarrow> int \<Rightarrow> CleanupResult" where
  "incomplete_cleanup reason elapsed = no_cleanup\<lparr>cln_Status := ''incomplete'', cln_DurationNS := boundedDuration elapsed, cln_Reasons := Some [reason]\<rparr>"

definition observe_cleanup :: "runtime_run \<Rightarrow> bool \<Rightarrow> CleanupResult \<times> runtime_call list" where
  "observe_cleanup x process =
     (let joinErr = (if \<not> process then [] else if x_cleanupJoinWait x = [] then x_joinFinalization x else x_cleanupJoinWait x);
          joins = (if \<not> process then [] else if x_cleanupJoinWait x = [] then [CallJoinWait, CallJoinFinalization] else [CallJoinWait]);
          (cleanup, err) = (if joinErr = [] then cleanupRuntimeAfterStartBounded (x_cleanup x) else (no_cleanup, joinErr));
          cleanup = cleanup\<lparr>cln_DurationNS := boundedDuration (x_elapsed x 0)\<rparr>;
          cleanup = (if err \<noteq> [] then incomplete_cleanup ''CLEANUP_DEADLINE_EXCEEDED'' (x_elapsed x 1) else cleanup);
          cleanup = (if is_ok (ValidateCleanupResult cleanup) then cleanup
                     else incomplete_cleanup ''CLEANUP_OBSERVATION_INVALID'' (x_elapsed x 2))
      in (cleanup, joins @ (if joinErr = [] then [CallCleanup] else [])))"

definition settle_cleanup :: "CleanupResult \<Rightarrow> Result \<Rightarrow> Result" where
  "settle_cleanup cleanup result =
     (let result = result\<lparr>res_Cleanup := cleanup\<rparr> in
      if cln_Status cleanup \<noteq> ''complete'' then incomplete ''CLEANUP_INCOMPLETE'' result else result)"

definition settle_egress :: "(bytes \<Rightarrow> bytes) \<Rightarrow> plan_Result \<Rightarrow> run_state \<Rightarrow> run_state" where
  "settle_egress uni prepared st =
     (let result = st_result st; raw = st_egress st in
      if elems (pl_NetworkAllow (rs_Plan prepared)) \<noteq> [] then
        if raw = [] then st\<lparr>st_result := incomplete ''EGRESS_EVIDENCE_MISSING'' result\<rparr>
        else case (ParseEgressEvidence raw, ParseRuntimeObservation (st_before st)) of
            (Inr egress, Inr before) \<Rightarrow>
              if is_ok (verifyEgressEvidence uni egress prepared result before)
              then st\<lparr>st_result := with_identity (\<lambda>i. i\<lparr>exe_EgressSHA256 := digest raw\<rparr>) result\<rparr>
              else st\<lparr>st_result := incomplete ''EGRESS_EVIDENCE_INVALID'' result, st_egress := []\<rparr>
          | _ \<Rightarrow> st\<lparr>st_result := incomplete ''EGRESS_EVIDENCE_INVALID'' result, st_egress := []\<rparr>
      else if raw \<noteq> [] then st\<lparr>st_result := incomplete ''UNREQUESTED_EGRESS_EVIDENCE'' result, st_egress := []\<rparr>
      else st)"

definition settle_start :: "errs \<Rightarrow> bool \<Rightarrow> Result \<Rightarrow> Result" where
  "settle_start startErr admitted result =
     (if startErr \<noteq> [] \<and> cln_Status (res_Cleanup result) = ''complete'' then
        if admitted then result\<lparr>res_Status := ''incomplete'', res_Target := target_of ''unknown'', res_Reasons := Some [''RUNTIME_START_OBSERVATION_FAILED'']\<rparr>
        else result\<lparr>res_Status := ''refused'', res_Reasons := Some [''RUNTIME_START_FAILED'']\<rparr>
      else result)"

definition settle_streams :: "StreamResult \<Rightarrow> StreamResult \<Rightarrow> Result \<Rightarrow> Result" where
  "settle_streams stdout stderr result =
     (let result = result\<lparr>res_Stdout := stdout, res_Stderr := stderr\<rparr>;
          result = (if stm_Truncated stdout \<or> stm_Truncated stderr then incomplete ''OUTPUT_TRUNCATED'' result else result);
          result = (if res_Status result = ''complete'' \<and> (exe_Generation (res_Identity result) < 1 \<or> exe_ImageDigest (res_Identity result) = [])
                    then incomplete ''RUNTIME_IDENTITY_INCOMPLETE'' result else result)
      in result\<lparr>res_Reasons := sortedUnique (res_Reasons result)\<rparr>)"

definition or_empty :: "bytes \<Rightarrow> bytes" where
  "or_empty raw = (if raw = [] then ''{}'' @ [newline] else raw)"

definition publish :: "(bytes \<Rightarrow> bool) \<Rightarrow> runtime_run \<Rightarrow> Request \<Rightarrow> capture \<Rightarrow> capture \<Rightarrow> run_state \<Rightarrow> (Outcome \<times> evidenceWriter) job_result" where
  "publish fails x request stdout stderr st =
     (let before = or_empty (st_before st); after = or_empty (st_after st);
          result = with_identity (\<lambda>i. i\<lparr>exe_RuntimeSHA256 := runtimeEvidenceDigest before after\<rparr>) (st_result st) in
      bind_result (evidence_Write fails ''runtime-before.json'' ''runtime'' before (st_writer st)) (\<lambda>w.
      bind_result (evidence_Write fails ''runtime-after.json'' ''runtime'' after w) (\<lambda>w.
      bind_result (if st_egress st \<noteq> [] then evidence_Write fails ''egress.json'' ''egress'' (st_egress st) w else Inr w) (\<lambda>w.
      bind_result (capture_CloseResult fails (capture_all (x_stdout x) stdout) w) (\<lambda>(out, w).
      bind_result (capture_CloseResult fails (capture_all (x_stderr x) stderr) w) (\<lambda>(err, w).
      let result = settle_streams out err result; resultRaw = Encode Result_shape (Result_value result) in
      bind_result (of_contract (ParseResult resultRaw)) (\<lambda>_.
      bind_result (evidence_Write fails ''result.json'' ''result'' resultRaw w) (\<lambda>w.
      bind_result (Seal fails (req_JobID request) (res_RequestSHA256 result) (digest resultRaw) (x_sealedAt x) w) (\<lambda>(_, w).
      Inr (\<lparr>oc_Result = result, oc_Sealed = True\<rparr>, w))))))))))"

text \<open>
  The deferred cleanup runs on every early return between the opened evidence and the
  executor's own cleanup.
\<close>

definition execute :: "(bytes \<Rightarrow> bytes) \<Rightarrow> (bytes \<Rightarrow> bool) \<Rightarrow> runtime_run \<Rightarrow> Request \<Rightarrow> bytes \<Rightarrow> plan_Result \<Rightarrow> Provenance \<Rightarrow> bytes
    \<Rightarrow> evidenceWriter \<Rightarrow> capture \<Rightarrow> capture \<Rightarrow> (Outcome \<times> evidenceWriter) job_result \<times> runtime_call list" where
  "execute uni fails x request requestRaw prepared provenance provenanceRaw w stdout stderr =
     (case start_runtime x of ((process, admitted, startErr), calls) \<Rightarrow>
        let st = \<lparr>st_result = initial_result request requestRaw prepared provenanceRaw, st_before = [], st_after = [], st_egress = [],
              st_writer = w, st_calls = calls\<rparr> in
        case observe_identity x prepared startErr st of (startErr, st) \<Rightarrow>
        case observe_run fails x request prepared provenance startErr (settle_admitted admitted startErr st) of
          (Inl e, calls) \<Rightarrow> (Inl e, calls @ [CallCleanup])
        | (Inr st, calls) \<Rightarrow>
            case observe_cleanup x process of (cleanup, cleanupCalls) \<Rightarrow>
            let st = settle_egress uni prepared (st\<lparr>st_result := settle_cleanup cleanup (st_result st)\<rparr>);
                st = st\<lparr>st_result := settle_start startErr admitted (st_result st)\<rparr>
            in (publish fails x request stdout stderr st, calls @ cleanupCalls))"

definition Run :: "(bytes \<Rightarrow> bytes) \<Rightarrow> Executor \<Rightarrow> job_host \<Rightarrow> runtime_run \<Rightarrow> bytes \<Rightarrow> bytes
    \<Rightarrow> (run_error + Outcome \<times> evidenceWriter) \<times> runtime_call list" where
  "Run uni executor host x requestRaw evidenceDir =
     (case establish uni executor host requestRaw of
        Inl e \<Rightarrow> (Inl (BeforeIdentity e), [])
      | Inr (request, declarationRaw, prepared) \<Rightarrow>
          case open_evidence executor host evidenceDir requestRaw request declarationRaw prepared of
            Inl e \<Rightarrow> (Inl (AfterIdentity e), [])
          | Inr (provenance, provenanceRaw, w, stdout, stderr) \<Rightarrow>
              case execute uni (h_fails host) x request requestRaw prepared provenance provenanceRaw w stdout stderr of
                (Inl e, calls) \<Rightarrow> (Inl (AfterIdentity e), calls)
              | (Inr sealed, calls) \<Rightarrow> (Inr sealed, calls))"

end
