(* ===== verification/Jobcontract_Properties.thy ===== *)
theory Jobcontract_Properties
  imports Jobcontract_Decode
begin

text \<open>
  What the job contract promises: valid documents survive the wire unchanged, a validated manifest
  names every required file once and in order, timestamps have one spelling, retained paths stay below
  the evidence directory, and where the code is weaker than its comments.
\<close>

section \<open>Requests\<close>

definition request_ok :: "Request \<Rightarrow> bool" where
  "request_ok q =
     (let c = req_Command q; argv = elems (cmd_Argv c); env = elems (cmd_Environment c) in
      req_Schema q = RequestSchema \<and> validID (req_JobID q) \<and> validOperatorPath (bnd_Path (req_Declaration q))
      \<and> validDigest (bnd_SHA256 (req_Declaration q))
      \<and> argv \<noteq> [] \<and> length argv \<le> maximumArguments \<and> list_all (\<lambda>a. validOpaqueText a 1 maximumArgumentBytes) argv
      \<and> validOperatorPath (cmd_WorkingDirectory c) \<and> length env \<le> maximumEnvironmentItems
      \<and> list_all env_ok env
      \<and> distinct (map env_Name env)
      \<and> limits_ok (req_Limits q) \<and> (case req_Artifacts q of None \<Rightarrow> True | Some a \<Rightarrow> artifacts_ok a))"

lemma ValidateRequest_ok: "ValidateRequest q = Inr () \<longleftrightarrow> request_ok q"
  by (auto simp: ValidateRequest_def request_ok_def result_simps validate_environment_iff Let_def list_all_iff)

text \<open>
  What the contract asks of a request, written out with its numbers and its alphabets and without the
  constants and predicates of the validation. A path is a slash before each of its elements, none of
  them empty or a dot name.
\<close>

definition contract_word :: "char \<Rightarrow> bool" where
  "contract_word c = (byte c \<in> {48..57} \<union> {65..90} \<union> {97..122})"

definition contract_text :: "nat \<Rightarrow> nat \<Rightarrow> bytes \<Rightarrow> bool" where
  "contract_text lo hi s = (length s \<in> {lo..hi} \<and> ValidUTF8 s \<and> CHR 0x00 \<notin> set s)"

definition contract_path :: "bytes \<Rightarrow> bool" where
  "contract_path p =
     ((\<exists>es. es \<noteq> [] \<and> p = concat (map (\<lambda>e. ''/'' @ e) es) \<and> (\<forall>e\<in>set es. e \<notin> {[], ''.'', ''..''} \<and> CHR ''/'' \<notin> set e))
      \<and> contract_text 1 4096 p
      \<and> (\<forall>(r, valid) \<in> set (runes p). \<not> IsControl r \<and> \<not> IsFormat r \<and> r \<noteq> 0x2028 \<and> r \<noteq> 0x2029))"

definition contract_identifier :: "bytes \<Rightarrow> bool" where
  "contract_identifier s =
     (length s \<in> {1..63} \<and> contract_word (hd s) \<and> (\<forall>c\<in>set s. contract_word c \<or> c = CHR ''_'' \<or> c = CHR ''.'' \<or> c = CHR ''-''))"

definition contract_digest :: "bytes \<Rightarrow> bool" where
  "contract_digest s =
     (\<exists>hex. s = ''sha256:'' @ hex \<and> length hex = 64 \<and> (\<forall>c\<in>set hex. byte c \<in> {48..57} \<union> {97..102}))"

definition contract_variable :: "bytes \<Rightarrow> bool" where
  "contract_variable s =
     (length s \<in> {1..128} \<and> byte (hd s) \<notin> {48..57} \<and> (\<forall>c\<in>set s. contract_word c \<or> c = CHR ''_'')
      \<and> map upper_ascii s \<notin> {''HTTP_PROXY'', ''HTTPS_PROXY'', ''ALL_PROXY'', ''NO_PROXY''})"

definition contract_item :: "EnvironmentItem \<Rightarrow> bool" where
  "contract_item item =
     (contract_variable (env_Name item)
      \<and> (case env_PublicValue item of
           None \<Rightarrow> contract_path (env_SecretFile item)
         | Some v \<Rightarrow> env_SecretFile item = [] \<and> contract_text 0 16384 v))"

definition contract_limits :: "Limits \<Rightarrow> bool" where
  "contract_limits l =
     (lim_TimeoutNS l \<in> {1000000..86400000000000} \<and> lim_FinalizeNS l \<in> {1000000..600000000000}
      \<and> lim_StdoutMaxBytes l \<in> {0..67108864} \<and> lim_StderrMaxBytes l \<in> {0..67108864})"

definition contract_artifacts :: "ArtifactRequest \<Rightarrow> bool" where
  "contract_artifacts a =
     (contract_path (art_ContainerRoot a) \<and> art_MaxEntries a \<in> {1..10000} \<and> art_MaxBytes a \<in> {1..1073741824})"

definition request_contract :: "Request \<Rightarrow> bool" where
  "request_contract q =
     (let argv = elems (cmd_Argv (req_Command q)); env = elems (cmd_Environment (req_Command q)) in
      req_Schema q = ''kenogram.job-request.v1'' \<and> contract_identifier (req_JobID q)
      \<and> contract_path (bnd_Path (req_Declaration q)) \<and> contract_digest (bnd_SHA256 (req_Declaration q))
      \<and> length argv \<in> {1..128} \<and> (\<forall>a\<in>set argv. contract_text 1 4096 a)
      \<and> contract_path (cmd_WorkingDirectory (req_Command q))
      \<and> length env \<le> 128 \<and> (\<forall>item\<in>set env. contract_item item) \<and> distinct (map env_Name env)
      \<and> contract_limits (req_Limits q) \<and> (\<forall>a. req_Artifacts q = Some a \<longrightarrow> contract_artifacts a))"

lemma contract_word_iff: "is_word c \<longleftrightarrow> contract_word c"
  by (auto simp: is_word_def is_alpha_def is_upper_def is_lower_def is_digit_def contract_word_def)

lemma contract_text_iff: "validOpaqueText s lo hi \<longleftrightarrow> contract_text lo hi s"
  by (auto simp: validOpaqueText_def contract_text_def)

lemma slashed_elements: "es \<noteq> [] \<Longrightarrow> concat (map (\<lambda>e. ''/'' @ e) es) = abs_path es"
  by (induction es) (auto simp: abs_path_def slash_def join_with_Cons)

lemma contract_path_iff: "validOperatorPath p \<longleftrightarrow> contract_path p"
proof -
  have "(1 < length p \<and> HasPrefix p ''/'' \<and> Clean p = p) \<longleftrightarrow>
    (\<exists>es. es \<noteq> [] \<and> p = concat (map (\<lambda>e. ''/'' @ e) es) \<and> (\<forall>e\<in>set es. e \<notin> {[], ''.'', ''..''} \<and> CHR ''/'' \<notin> set e))" (is "?l = ?r")
  proof
    assume ?l
    then have "clean_abs p" by (cases p) (auto simp: clean_abs_def IsAbs_def HasPrefix_def slash_def)
    then obtain es where es: "p = abs_path es" "list_all plain_element es" using clean_abs_iff by auto
    then have "es \<noteq> []" using \<open>?l\<close> by (auto simp: abs_path_def)
    moreover have "\<forall>e\<in>set es. e \<notin> {[], ''.'', ''..''} \<and> CHR ''/'' \<notin> set e"
      using es(2) by (simp add: plain_element_def list_all_iff slash_def)
    ultimately show ?r using es(1) slashed_elements [of es] by metis
  next
    assume ?r
    then obtain es where "es \<noteq> []" "p = concat (map (\<lambda>e. ''/'' @ e) es)" "\<forall>e\<in>set es. e \<notin> {[], ''.'', ''..''} \<and> CHR ''/'' \<notin> set e"
      by blast
    moreover from this have "list_all plain_element es" by (simp add: plain_element_def list_all_iff slash_def)
    ultimately have es: "es \<noteq> []" "p = abs_path es" "list_all plain_element es"
      using slashed_elements [of es] by simp_all
    then have "clean_abs p" using clean_abs_iff by auto
    moreover have "1 < length p" using es by (cases es) (auto simp: abs_path_def join_with_Cons plain_element_def)
    moreover have "HasPrefix p ''/''" using es by (simp add: abs_path_def slash_def HasPrefix_def)
    ultimately show ?l by (simp add: clean_abs_def)
  qed
  moreover have "validOperatorPath p \<longleftrightarrow>
      (1 < length p \<and> HasPrefix p ''/'' \<and> Clean p = p) \<and> contract_text 1 4096 p \<and> \<not> hasDisplayControls p"
    by (auto simp: validOperatorPath_def validContainerPath_def contract_text_iff maximumPathBytes_def contract_text_def)
  moreover have "\<not> hasDisplayControls p \<longleftrightarrow>
      (\<forall>(r, valid) \<in> set (runes p). \<not> IsControl r \<and> \<not> IsFormat r \<and> r \<noteq> 0x2028 \<and> r \<noteq> 0x2029)"
    by (fastforce simp: hasDisplayControls_def list_ex_iff)
  ultimately show ?thesis by (simp only: contract_path_def)
qed

lemma contract_identifier_iff: "validID s \<longleftrightarrow> contract_identifier s"
  by (cases s) (auto simp: validID_def portableIDPattern_def class_text_def contract_identifier_def contract_word_iff list_all_iff)

lemma contract_digest_iff: "validDigest s \<longleftrightarrow> contract_digest s"
proof
  assume "validDigest s"
  then obtain hex where "s = ''sha256:'' @ hex" "length hex = 64" "\<forall>c\<in>set hex. is_lower_hex c"
    by (auto simp: validDigest_def digestPattern_def HasPrefix_iff list_all_iff)
  then show "contract_digest s"
    unfolding contract_digest_def by (intro exI [of _ hex]) (auto simp: is_lower_hex_def is_digit_def)
qed (auto simp: validDigest_def digestPattern_def contract_digest_def HasPrefix_def is_lower_hex_def is_digit_def list_all_iff)

lemma contract_variable_iff: "environmentName s \<and> \<not> reservedProxyEnvironment s \<longleftrightarrow> contract_variable s"
  by (cases s) (auto simp: environmentName_def class_text_def contract_variable_def reservedProxyEnvironment_def contract_word_iff
      contract_word_def is_alpha_def is_upper_def is_lower_def list_all_iff)

lemma contract_item_iff: "env_ok item \<longleftrightarrow> contract_item item"
proof -
  have "\<not> contract_path []" by (auto simp: contract_path_def contract_text_def)
  then show ?thesis
    using contract_variable_iff [of "env_Name item"]
    by (auto simp: env_ok_def contract_item_def contract_text_iff contract_path_iff maximumEnvironmentValue_def split: option.splits)
qed

lemma contract_limits_iff: "limits_ok l \<longleftrightarrow> contract_limits l"
  by (auto simp: limits_ok_def contract_limits_def minimumTimeoutNS_def maximumTimeoutNS_def maximumFinalizeNS_def maximumOutputBytes_def)

lemma contract_artifacts_iff: "artifacts_ok a \<longleftrightarrow> contract_artifacts a"
  by (auto simp: artifacts_ok_def contract_artifacts_def contract_path_iff maximumArtifactEntries_def maximumArtifactBytes_def)

lemmas contract_iffs = contract_text_iff contract_path_iff contract_identifier_iff contract_digest_iff contract_item_iff
  contract_limits_iff contract_artifacts_iff

text \<open>
  C35: A request is accepted exactly when it meets the contract: the schema name; a job identifier of
  at most 63 bytes; a declaration bound by a clean absolute path and a SHA-256 digest; 1 to 128
  arguments of 1 to 4096 bytes; a clean working directory; at most 128 environment entries with
  distinct names, each with exactly one of a public value of at most 16384 bytes and a secret file, none
  of them a proxy variable in any letter case; a timeout from one millisecond to 24 hours and a
  finalisation from one millisecond to ten minutes; at most 64 MiB of each output; and, if
  artifacts are asked for, 1 to 10000 entries of 1 byte to 1 GiB below a clean root.
\<close>

theorem ValidateRequest_iff: "ValidateRequest q = Inr () \<longleftrightarrow> request_contract q"
  unfolding ValidateRequest_ok request_ok_def request_contract_def contract_iffs list_all_iff
  by (auto simp: Let_def RequestSchema_def maximumArguments_def maximumArgumentBytes_def maximumEnvironmentItems_def Suc_le_eq
      split: option.splits)

lemma int64_bounds:
  "limits_ok l \<Longrightarrow> shaped Limits_shape (Limits_value l)"
  "artifacts_ok a \<Longrightarrow> shaped ArtifactRequest_shape (ArtifactRequest_value a)"
  by (auto simp: limits_ok_def artifacts_ok_def contract_shapes contract_values TInt64_def minimumTimeoutNS_def maximumTimeoutNS_def
      maximumFinalizeNS_def maximumOutputBytes_def maximumArtifactEntries_def maximumArtifactBytes_def)

lemma pointee_shapes [simp]: "pointee ArtifactRequest_shape" "pointee RuntimeEgressAdmission_shape" "pointee TInt64"
  by (simp_all add: contract_shapes TInt64_def)

lemma command_shaped: "shaped Command_shape (Command_value c)"
  by (auto simp: Command_shape_def EnvironmentItem_shape_def Command_value_def EnvironmentItem_value_def list_all_iff split: option.splits)

lemma request_shaped:
  assumes "request_ok q"
  shows "shaped Request_shape (Request_value q)"
proof -
  have "shaped Limits_shape (Limits_value (req_Limits q))"
    "case req_Artifacts q of None \<Rightarrow> True | Some a \<Rightarrow> shaped ArtifactRequest_shape (ArtifactRequest_value a)"
    using assms int64_bounds by (auto simp: request_ok_def Let_def split: option.splits)
  moreover have "shaped DeclarationBinding_shape (DeclarationBinding_value (req_Declaration q))"
    by (simp add: DeclarationBinding_shape_def DeclarationBinding_value_def)
  ultimately show ?thesis
    using command_shaped by (auto simp: Request_shape_def Request_value_def split: option.splits)
qed

lemma request_utf8:
  assumes "request_ok q"
  shows "utf8_value (Request_value q)"
proof -
  have "ValidUTF8 RequestSchema" by code_simp
  moreover have "utf8_value (EnvironmentItem_value item)" if "item \<in> set (elems (cmd_Environment (req_Command q)))" for item
    using assms that by (intro env_ok_utf8) (simp add: request_ok_def Let_def list_all_iff)
  moreover have "ValidUTF8 a" if "a \<in> set (elems (cmd_Argv (req_Command q)))" for a
    using assms that by (auto simp: request_ok_def Let_def list_all_iff dest: opaque_utf8)
  ultimately show ?thesis
    using assms
    by (auto simp: request_ok_def Let_def Request_value_def DeclarationBinding_value_def Command_value_def Limits_value_def
        ArtifactRequest_value_def utf8_strings elems_all list_all_iff artifacts_ok_def contract_utf8 split: option.splits)
qed

text \<open>
  Every valid request that fits the size limit is read back unchanged from the document that the
  encoder writes for it.
\<close>

theorem request_round_trip:
  assumes "ValidateRequest q = Inr ()" and "length (Encode Request_shape (Request_value q)) \<le> MaximumRequestBytes"
  shows "ParseRequest (Encode Request_shape (Request_value q)) = Inr q"
proof -
  have "request_ok q" using assms(1) by (simp add: ValidateRequest_ok)
  then show ?thesis
    using decode_Encode [OF request_shaped request_utf8 shape_facts(1,2) assms(2)] assms(1) by (simp add: ParseRequest_def)
qed

definition demo_digest :: bytes where
  "demo_digest = ''sha256:'' @ replicate 64 CHR ''a''"

definition demo_request :: Request where
  "demo_request =
     \<lparr>req_Schema = RequestSchema, req_JobID = ''job-1'',
      req_Declaration = \<lparr>bnd_Path = ''/srv/world.toml'', bnd_SHA256 = demo_digest\<rparr>,
      req_Command = \<lparr>cmd_Argv = Some [''/bin/true''], cmd_WorkingDirectory = ''/work'',
        cmd_Environment = Some [\<lparr>env_Name = ''A'', env_PublicValue = Some ''1'', env_SecretFile = []\<rparr>]\<rparr>,
      req_Limits = \<lparr>lim_TimeoutNS = 1000000000, lim_FinalizeNS = 1000000000, lim_StdoutMaxBytes = 10, lim_StderrMaxBytes = 0\<rparr>,
      req_Artifacts = None\<rparr>"

lemma demo_request_valid: "ValidateRequest demo_request = Inr ()"
  by code_simp

lemma demo_request_size: "length (Encode Request_shape (Request_value demo_request)) \<le> MaximumRequestBytes"
  by code_simp

theorem request_round_trip_witness:
  "ValidateRequest demo_request = Inr () \<and> ParseRequest (Encode Request_shape (Request_value demo_request)) = Inr demo_request"
  using demo_request_valid request_round_trip [OF demo_request_valid demo_request_size] by simp

section \<open>Results\<close>

lemmas wire_bounds = MaximumWireInteger_def TInt64_def

lemma interval_ok: "validateInterval a b d = Inr () \<Longrightarrow> 0 \<le> d \<and> d \<le> MaximumWireInteger \<and> validTimestamp a \<and> validTimestamp b"
  by (simp add: validateInterval_def split: if_splits)

lemma identity_ok:
  assumes "validateExecutionIdentity x complete = Inr ()"
  shows "shaped ExecutionIdentity_shape (ExecutionIdentity_value x) \<and> utf8_value (ExecutionIdentity_value x)"
proof -
  have "ValidUTF8 ''podman-cli''" by code_simp
  then show ?thesis
    using assms
    by (auto simp: validateExecutionIdentity_def ExecutionIdentity_shape_def ExecutionIdentity_value_def wire_bounds
        contract_utf8 split: if_splits dest: opaque_utf8)
qed

lemma target_ok:
  assumes "validateTarget x = Inr ()"
  shows "shaped TargetResult_shape (TargetResult_value x) \<and> utf8_value (TargetResult_value x)"
proof -
  have "ValidUTF8 ''exited''" "ValidUTF8 ''signaled''" "ValidUTF8 ''not_started''" "ValidUTF8 ''unknown''" by code_simp+
  then show ?thesis
    using assms
    by (auto simp: validateTarget_def TargetResult_shape_def TargetResult_value_def wire_bounds Let_def
        split: if_splits option.splits dest!: interval_ok intro: timestamp_utf8)
qed

lemma stream_ok:
  assumes "validateStream x p = Inr ()" and "ValidUTF8 p"
  shows "shaped StreamResult_shape (StreamResult_value x) \<and> utf8_value (StreamResult_value x)"
  using assms by (auto simp: validateStream_def StreamResult_shape_def StreamResult_value_def wire_bounds contract_utf8)

lemma reasons_utf8: "validReasons xs \<Longrightarrow> list_all ValidUTF8 xs"
  by (auto simp: validReasons_def list_all_iff contract_utf8)

lemma cleanup_ok:
  assumes "validateCleanup x = Inr ()"
  shows "shaped CleanupResult_shape (CleanupResult_value x) \<and> utf8_value (CleanupResult_value x)"
proof -
  have "ValidUTF8 ''complete''" "ValidUTF8 ''incomplete''" by code_simp+
  then show ?thesis
    using assms reasons_utf8
    by (auto simp: validateCleanup_def CleanupResult_shape_def CleanupResult_value_def wire_bounds utf8_strings elems_all split: if_splits)
qed

lemma finalization_ok:
  assumes "validateInterval (fin_StartedAt x) (fin_FinishedAt x) (fin_DurationNS x) = Inr ()"
  shows "shaped FinalizationResult_shape (FinalizationResult_value x) \<and> utf8_value (FinalizationResult_value x)"
  using interval_ok [OF assms]
  by (auto simp: FinalizationResult_shape_def FinalizationResult_value_def wire_bounds contract_utf8)

lemma result_document:
  assumes "ValidateResult r = Inr ()"
  shows "shaped Result_shape (Result_value r) \<and> utf8_value (Result_value r)"
proof -
  have utf8: "ValidUTF8 ResultSchema" "ValidUTF8 ''manifest.json''" "ValidUTF8 ''stdout.bin''" "ValidUTF8 ''stderr.bin''"
    "ValidUTF8 ''complete''" "ValidUTF8 ''incomplete''" "ValidUTF8 ''refused''" by code_simp+
  have parts: "validateExecutionIdentity (res_Identity r) (res_Status r = ''complete'') = Inr ()" "validateTarget (res_Target r) = Inr ()"
    "validateStream (res_Stdout r) ''stdout.bin'' = Inr ()" "validateStream (res_Stderr r) ''stderr.bin'' = Inr ()"
    "validateInterval (fin_StartedAt (res_Finalization r)) (fin_FinishedAt (res_Finalization r)) (fin_DurationNS (res_Finalization r)) = Inr ()"
    "validateCleanup (res_Cleanup r) = Inr ()" "validReasons (elems (res_Reasons r))"
    "res_Schema r = ResultSchema" "validID (res_JobID r)" "validDigest (res_RequestSHA256 r)" "res_EvidenceManifest r = ''manifest.json''"
    "res_Status r \<in> {''complete'', ''incomplete'', ''refused''}"
    using assms by (simp_all add: ValidateResult_def result_simps)
  have "list_all ValidUTF8 (elems (res_Reasons r))" using parts(7) by (rule reasons_utf8)
  then show ?thesis
    using identity_ok [OF parts(1)] target_ok [OF parts(2)] stream_ok [OF parts(3) utf8(3)] stream_ok [OF parts(4) utf8(4)]
      finalization_ok [OF parts(5)] cleanup_ok [OF parts(6)] parts(8-12) utf8
    by (auto simp: Result_shape_def Result_value_def utf8_strings elems_all contract_utf8)
qed

text \<open>
  Every result that passes validation and fits the size limit is read back unchanged from the
  document that the encoder writes for it.
\<close>

theorem result_round_trip:
  assumes "ValidateResult r = Inr ()" and "length (Encode Result_shape (Result_value r)) \<le> MaximumResultBytes"
  shows "ParseResult (Encode Result_shape (Result_value r)) = Inr r"
  using decode_Encode [OF _ _ shape_facts(3,4) assms(2)] result_document [OF assms(1)] assms(1) by (simp add: ParseResult_def)

definition demo_result :: Result where
  "demo_result =
     \<lparr>res_Schema = ResultSchema, res_JobID = ''job-1'', res_Status = ''refused'', res_RequestSHA256 = demo_digest,
      res_EvidenceManifest = ''manifest.json'',
      res_Identity = \<lparr>exe_DeclarationSHA256 = demo_digest, exe_PlanSHA256 = demo_digest, exe_Generation = 0,
        exe_ImageReference = ''base'', exe_ImageDigest = [], exe_RuntimeSHA256 = demo_digest, exe_ProvenanceSHA256 = demo_digest,
        exe_RuntimeProvider = [], exe_EgressSHA256 = []\<rparr>,
      res_Target = \<lparr>tgt_Kind = ''not_started'', tgt_ExitStatus = None, tgt_Signal = None, tgt_StartedAt = [], tgt_FinishedAt = [],
        tgt_DurationNS = None\<rparr>,
      res_Stdout = \<lparr>stm_Path = ''stdout.bin'', stm_SHA256 = demo_digest, stm_CapturedBytes = 0, stm_TotalBytes = 0, stm_Truncated = False\<rparr>,
      res_Stderr = \<lparr>stm_Path = ''stderr.bin'', stm_SHA256 = demo_digest, stm_CapturedBytes = 0, stm_TotalBytes = 0, stm_Truncated = False\<rparr>,
      res_Finalization = \<lparr>fin_StartedAt = ''2026-01-02T03:04:05Z'', fin_FinishedAt = ''2026-01-02T03:04:05Z'', fin_DurationNS = 0\<rparr>,
      res_Cleanup = \<lparr>cln_Status = ''complete'', cln_ContainerAbsent = True, cln_ProxyAbsent = True, cln_ProcessGroupEmpty = True,
        cln_Forced = False, cln_DurationNS = 5, cln_Reasons = Some []\<rparr>,
      res_Reasons = Some [''RUNTIME_START_FAILED'']\<rparr>"

lemma demo_result_facts: "ValidateResult demo_result = Inr ()" "length (Encode Result_shape (Result_value demo_result)) \<le> MaximumResultBytes"
  by code_simp+

theorem result_round_trip_witness:
  "ValidateResult demo_result = Inr () \<and> ParseResult (Encode Result_shape (Result_value demo_result)) = Inr demo_result"
  using demo_result_facts result_round_trip [OF demo_result_facts] by simp

section \<open>Timestamps\<close>

text \<open>
  The timestamps of the contract are exactly the texts that formatting a UTC time with a year up to
  9999 gives, so two documents that name the same instant name it with the same bytes.
\<close>

theorem validTimestamp_iff: "validTimestamp s \<longleftrightarrow> (\<exists>t. wf_time t \<and> t_offset t = 0 \<and> s = FormatRFC3339Nano t)"
proof
  assume "validTimestamp s"
  then obtain t where t: "ParseRFC3339Nano s = Some t" "FormatRFC3339Nano t = s" "HasSuffix s ''Z''"
    by (auto simp: validTimestamp_def split: option.splits)
  have last: "last s = CHR ''Z''" "s \<noteq> []" using t(3) by (auto simp: HasSuffix_iff)
  have "t_offset t = 0"
  proof (rule ccontr)
    assume "t_offset t \<noteq> 0"
    then have "is_digit (last (FormatRFC3339Nano t))"
      using pad_digits [of 2 "nat \<bar>t_offset t\<bar> mod 60"] last_in_set [of "pad 2 (nat \<bar>t_offset t\<bar> mod 60)"]
      by (auto simp: FormatRFC3339Nano_def format_zone_def list_all_iff pad_def)
    then show False using last t(2) by (simp add: is_digit_def)
  qed
  then show "\<exists>t. wf_time t \<and> t_offset t = 0 \<and> s = FormatRFC3339Nano t" using t Parse_wf by blast
next
  assume "\<exists>t. wf_time t \<and> t_offset t = 0 \<and> s = FormatRFC3339Nano t"
  then obtain t where "wf_time t" "t_offset t = 0" "s = FormatRFC3339Nano t" by blast
  moreover have "HasSuffix (FormatRFC3339Nano t) ''Z''" if "t_offset t = 0"
    using that unfolding HasSuffix_iff FormatRFC3339Nano_def format_zone_def by auto
  ultimately show "validTimestamp s"
    using Parse_Format [of t] by (simp add: validTimestamp_def)
qed

section \<open>Manifests\<close>

lemma manifest_entries_iff:
  "manifest_entries m prior es = Inr () \<longleftrightarrow>
     sorted_wrt (<) (prior # map ent_Path es) \<and>
     list_all (\<lambda>e. validEvidencePath (ent_Path e) \<and> ent_Kind e \<in> set entry_kinds \<and> 0 \<le> ent_Size e
       \<and> ent_Size e \<le> MaximumWireInteger \<and> validDigest (ent_SHA256 e)
       \<and> (ent_Path e = ''request.json'' \<longrightarrow> ent_SHA256 e = man_RequestSHA256 m)
       \<and> (ent_Path e = ''result.json'' \<longrightarrow> ent_SHA256 e = man_ResultSHA256 m)) es"
proof (induction es arbitrary: prior)
  case (Cons e es)
  have "sorted_wrt (<) (prior # ent_Path e # map ent_Path es) \<longleftrightarrow> prior < ent_Path e \<and> sorted_wrt (<) (ent_Path e # map ent_Path es)"
    by auto
  then show ?case by (simp add: Cons.IH not_le not_less) (auto simp: not_le)
qed simp

text \<open>
  A manifest that passes validation lists its entries by strictly increasing path, so no path
  twice, names every required file with its own kind, and binds the request and the result files to
  the digests of its envelope.
\<close>

theorem manifest_complete:
  assumes "ValidateManifest m = Inr ()"
  shows "sorted_wrt (<) (map ent_Path (elems (man_Entries m))) \<and> distinct (map ent_Path (elems (man_Entries m)))
    \<and> (\<forall>p k. p \<in> set required_entries \<and> map_of expected_kinds p = Some k \<longrightarrow>
         (\<exists>!e. e \<in> set (elems (man_Entries m)) \<and> ent_Path e = p \<and> ent_Kind e = k))
    \<and> (\<exists>e\<in>set (elems (man_Entries m)). ent_Path e = ''request.json'' \<and> ent_SHA256 e = man_RequestSHA256 m)
    \<and> (\<exists>e\<in>set (elems (man_Entries m)). ent_Path e = ''result.json'' \<and> ent_SHA256 e = man_ResultSHA256 m)"
proof -
  let ?es = "elems (man_Entries m)"
  have ent: "manifest_entries m [] ?es = Inr ()"
    and req: "\<forall>p\<in>set required_entries. p \<in> ent_Path ` set ?es"
    and kind: "\<forall>e\<in>set ?es. case map_of expected_kinds (ent_Path e) of None \<Rightarrow> True | Some k \<Rightarrow> ent_Kind e = k"
    using assms by (auto simp: ValidateManifest_def result_simps Let_def)
  have srt: "sorted_wrt (<) (map ent_Path ?es)" using ent by (simp add: manifest_entries_iff)
  then have dist: "distinct (map ent_Path ?es)" by (simp add: strict_sorted_iff)
  have "\<exists>!e. e \<in> set ?es \<and> ent_Path e = p \<and> ent_Kind e = k" if p: "p \<in> set required_entries" "map_of expected_kinds p = Some k" for p k
  proof -
    obtain e where "e \<in> set ?es" "ent_Path e = p" using req p by force
    moreover have "ent_Kind e = k" using kind calculation p(2) by force
    ultimately show ?thesis using dist by (auto simp: distinct_map inj_on_def)
  qed
  moreover have "\<exists>e\<in>set ?es. ent_Path e = ''request.json'' \<and> ent_SHA256 e = man_RequestSHA256 m"
  proof -
    have "''request.json'' \<in> ent_Path ` set ?es" using req by (simp add: required_entries_def)
    then show ?thesis using ent by (auto simp: manifest_entries_iff list_all_iff)
  qed
  moreover have "\<exists>e\<in>set ?es. ent_Path e = ''result.json'' \<and> ent_SHA256 e = man_ResultSHA256 m"
  proof -
    have "''result.json'' \<in> ent_Path ` set ?es" using req by (simp add: required_entries_def)
    then show ?thesis using ent by (auto simp: manifest_entries_iff list_all_iff)
  qed
  ultimately show ?thesis using srt dist by blast
qed

definition demo_manifest :: Manifest where
  "demo_manifest =
     \<lparr>man_Schema = ManifestSchema, man_JobID = ''job-1'', man_RequestSHA256 = demo_digest, man_ResultSHA256 = demo_digest,
      man_ContentSHA256 = demo_digest, man_SealedAt = ''2026-01-02T03:04:05Z'',
      man_Entries = Some (map (\<lambda>p. \<lparr>ent_Path = p, ent_Kind = the (map_of expected_kinds p), ent_Size = 3, ent_SHA256 = demo_digest\<rparr>)
        required_entries)\<rparr>"

theorem manifest_complete_witness:
  "ValidateManifest demo_manifest = Inr () \<and> distinct (map ent_Path (elems (man_Entries demo_manifest)))"
proof -
  have "ValidateManifest demo_manifest = Inr ()" by code_simp
  then show ?thesis using manifest_complete [of demo_manifest] by simp
qed

section \<open>Retained paths\<close>

lemma foldl_clean_relative:
  assumes "\<forall>e\<in>set es. slash \<notin> set e" and "out = rev ps @ replicate k ''..''" and "list_all plain_element ps"
  shows "\<exists>k qs. foldl (clean_step False) out es = rev qs @ replicate k ''..'' \<and> list_all plain_element qs"
  using assms
proof (induction es arbitrary: out ps k)
  case (Cons e es)
  have step: "\<exists>k qs. clean_step False out e = rev qs @ replicate k ''..'' \<and> list_all plain_element qs"
  proof (cases "e = ''..''")
    case True
    show ?thesis
    proof (cases ps rule: rev_cases)
      case Nil
      then have "clean_step False out e = rev [] @ replicate (Suc k) ''..''"
        using True Cons.prems by (cases k) (simp_all add: clean_step.simps)
      then show ?thesis by (intro exI2 [where a = "Suc k" and b = "[]"]) simp
    next
      case (snoc qs q)
      then have "clean_step False out e = rev qs @ replicate k ''..''" "list_all plain_element qs"
        using True Cons.prems by (auto simp: clean_step.simps) (auto simp: plain_element_def)
      then show ?thesis by blast
    qed
  next
    case False
    show ?thesis
    proof (cases "e = [] \<or> e = ''.''")
      case True
      then show ?thesis using Cons.prems by (auto simp: clean_step.simps)
    next
      case plain: False
      then have "clean_step False out e = rev (ps @ [e]) @ replicate k ''..''" "list_all plain_element (ps @ [e])"
        using False Cons.prems by (auto simp: clean_step.simps) (auto simp: plain_element_def)
      then show ?thesis by blast
    qed
  qed
  then show ?case using Cons.IH Cons.prems(1) by auto
qed (simp, blast)

lemma clean_relative:
  assumes "\<not> IsAbs p" and "Clean p = p" and "p \<noteq> ''.''" and "p \<noteq> ''..''" and "\<not> HasPrefix p (''..'' @ [slash])"
  shows "list_all plain_element (split_on slash p)"
proof -
  have ne: "p \<noteq> []" using assms(2) by (auto simp: Clean_def)
  let ?es = "clean_elements False (split_on slash p)"
  obtain k qs where es: "?es = replicate k ''..'' @ qs" and qs: "list_all plain_element qs"
    using foldl_clean_relative [of "split_on slash p" "[]" "[]" 0] split_on_no_sep
    by (auto simp: clean_elements_def)
  have p: "p = join_with [slash] ?es" "?es \<noteq> []"
    using assms(1-3) ne by (auto simp: Clean_def IsAbs_def Let_def split: if_splits)
  have "k = 0"
  proof (rule ccontr)
    assume "k \<noteq> 0"
    then obtain j where "k = Suc j" using not0_implies_Suc by blast
    then have "p = join_with [slash] (''..'' # replicate j ''..'' @ qs)" using p es by simp
    then show False using join_with_dotdot assms(4,5) by metis
  qed
  then have "p = join_with [slash] qs" "qs \<noteq> []" using p es by simp_all
  then have "split_on slash p = qs" using qs by (simp add: split_join plain_no_slash)
  then show ?thesis using qs by simp
qed

text \<open>
  Below a clean absolute evidence directory, a path accepted for retention names a file strictly
  inside that directory, element by element as written; the one exception is the path that consists
  of two dots, which is accepted and names the parent.
\<close>

theorem retained_path_contained:
  assumes "validEvidencePath p" and "clean_abs root"
  shows "path_elements (Join root p) = path_elements root @ split_on slash p \<or> p = ''..''"
proof (cases "p = ''..''")
  case False
  have "\<not> IsAbs p" using assms(1) by (auto simp: validEvidencePath_def IsAbs_def HasPrefix_iff slash_def neq_Nil_conv)
  moreover have "p \<noteq> []" using assms(1) by (auto simp: validEvidencePath_def validOpaqueText_def)
  moreover have "\<not> HasPrefix p (''..'' @ [slash])" using assms(1) by (simp add: validEvidencePath_def slash_def)
  ultimately have plain: "list_all plain_element (split_on slash p)"
    using clean_relative assms(1) False by (simp add: validEvidencePath_def)
  have root: "IsAbs root" "list_all plain_element (path_elements root)"
    using assms(2) path_elements_plain by (auto simp: clean_abs_def)
  have "root \<noteq> []" using root(1) by (auto simp: IsAbs_def)
  then have "Join root p = abs_path (path_elements root @ split_on slash p)"
    using \<open>p \<noteq> []\<close> plain Clean_append_rooted [OF root(1), of p] by (simp add: Join_def foldl_clean_plain)
  then show ?thesis using plain root(2) by simp
qed simp

theorem retained_path_contained_witness:
  "validEvidencePath ''target-artifacts/log.txt'' \<and> clean_abs ''/evidence''
   \<and> path_elements (Join ''/evidence'' ''target-artifacts/log.txt'') = [''evidence'', ''target-artifacts'', ''log.txt'']"
proof -
  have "validEvidencePath ''target-artifacts/log.txt''" "clean_abs ''/evidence''"
    "path_elements ''/evidence'' @ split_on slash ''target-artifacts/log.txt'' = [''evidence'', ''target-artifacts'', ''log.txt'']"
    by code_simp+
  then show ?thesis using retained_path_contained [of "''target-artifacts/log.txt''" "''/evidence''"] by simp
qed

text \<open>
  The relative path that consists of two dots passes validation, although it leaves the evidence
  directory.
\<close>

lemma parent_path_accepted:
  "ValidateEvidenceRelativePath ''..'' = Inr () \<and> Join ''/srv/evidence'' ''..'' = ''/srv''"
  by code_simp

section \<open>Repeated keys\<close>

definition demo_provenance_document :: "bytes \<Rightarrow> bytes" where
  "demo_provenance_document extra =
     (let q = [quote_char]; member = (\<lambda>k v. q @ k @ q @ '':'' @ q @ v @ q) in
      ''{'' @ join_with '',''
        [member ''schema'' ProvenanceSchema, member ''build_kind'' ''development'', member ''version'' ''dev'',
         member extra ''v9.9.9'', member ''commit'' ''unknown'', member ''source_date'' ''unknown'', member ''go_version'' ''go1.24'',
         member ''goos'' ''linux'', member ''goarch'' ''amd64'', member ''executable_sha256'' demo_digest] @ ''}'')"

text \<open>
  A document that repeats a member with the same name is refused, but the decoder matches names
  without regard to letter case: a second member that differs in case passes the check for repeated
  keys and its value replaces the first.
\<close>

theorem case_variant_key_overrides:
  "ParseProvenance (demo_provenance_document ''version'') = Inl DocumentMalformed
   \<and> map_sum id prv_Version (ParseProvenance (demo_provenance_document ''VERSION'')) = Inr ''v9.9.9''"
  by (rule conjI; code_simp)

end
