(* ===== verification/Job_Seal.thy ===== *)
theory Job_Seal
  imports Job_Run Jobcontract_Properties
begin

text \<open>
  The evidence directory as the writer leaves it and as the verifier reads it: what the verifier's scan of
  the directory and its classification of the manifest decide, and that the writer keeps its manifest entries
  in step with its files.
\<close>

lemma map_result_member: "map_result f xs = Inr ys \<Longrightarrow> x \<in> set xs \<Longrightarrow> \<exists>y. f x = Inr y"
  by (induction xs arbitrary: ys) (auto simp: result_simps)

section \<open>Classification\<close>

definition known_kinds :: "(bytes \<times> bytes) list" where
  "known_kinds = mandatoryEvidenceKinds @ [(''target-inventory.json'', ''target_inventory''), (''egress.json'', ''egress'')]"

definition known_name :: "bytes \<Rightarrow> bool" where
  "known_name p = (map_of known_kinds p \<noteq> None)"

definition entry_good :: "ManifestEntry \<Rightarrow> bool" where
  "entry_good e = (case map_of known_kinds (ent_Path e) of
     Some kind \<Rightarrow> ent_Kind e = kind
   | None \<Rightarrow> HasPrefix (ent_Path e) (artifacts_directory @ [slash]) \<and> ent_Kind e = ''target_artifact'')"

abbreviation keyed :: "ManifestEntry list \<Rightarrow> (bytes \<times> ManifestEntry) list" where
  "keyed es \<equiv> map (\<lambda>e. (ent_Path e, e)) es"

definition known_part :: "ManifestEntry list \<Rightarrow> ManifestEntry list" where
  "known_part es = filter (\<lambda>e. known_name (ent_Path e)) es"

definition artifact_part :: "ManifestEntry list \<Rightarrow> ManifestEntry list" where
  "artifact_part es = filter (\<lambda>e. \<not> known_name (ent_Path e)) es"

lemma classify_entries_iff:
  "classify_entries known artifacts es = Inr r \<longleftrightarrow> list_all entry_good es
     \<and> r = (foldl (\<lambda>k e. AList.update (ent_Path e) e k) known (known_part es), artifacts @ artifact_part es)"
  by (induction es arbitrary: known artifacts)
    (auto simp: Let_def entry_good_def known_name_def known_part_def artifact_part_def simp flip: known_kinds_def split: option.splits)

lemma map_of_updates:
  "distinct (map ent_Path es) \<Longrightarrow>
     map_of (foldl (\<lambda>k e. AList.update (ent_Path e) e k) known es) p = (map_of known ++ map_of (keyed es)) p"
proof (induction es arbitrary: known)
  case (Cons e es)
  have "map_of (keyed es) (ent_Path e) = None" using Cons.prems by (auto simp: map_of_eq_None_iff)
  then show ?case using Cons by (auto simp: update_conv' map_add_def split: option.splits)
qed simp

lemma distinct_parts: "distinct (map ent_Path es) \<Longrightarrow> distinct (map ent_Path (known_part es))"
  by (simp add: known_part_def distinct_map_filter)

lemma classifyManifest_iff:
  assumes "distinct (map ent_Path (elems (man_Entries m)))"
  shows "classifyManifest m = Inr (known, artifacts) \<longleftrightarrow>
     list_all entry_good (elems (man_Entries m)) \<and> set (map fst mandatoryEvidenceKinds) \<subseteq> ent_Path ` set (elems (man_Entries m))
     \<and> known = foldl (\<lambda>k e. AList.update (ent_Path e) e k) [] (known_part (elems (man_Entries m)))
     \<and> artifacts = artifact_part (elems (man_Entries m))"
proof -
  let ?es = "elems (man_Entries m)"
  let ?k = "foldl (\<lambda>k e. AList.update (ent_Path e) e k) [] (known_part ?es)"
  have "map_of ?k p \<noteq> None \<longleftrightarrow> p \<in> ent_Path ` set ?es \<and> known_name p" for p
    using map_of_updates [OF distinct_parts [OF assms], of "[]" p]
    by (auto simp: known_part_def map_of_eq_None_iff image_iff simp del: not_None_eq)
  moreover have "known_name p" if "p \<in> set (map fst mandatoryEvidenceKinds)" for p
    using that unfolding known_name_def known_kinds_def by (auto simp: mandatoryEvidenceKinds_def)
  ultimately show ?thesis
    by (auto simp: classifyManifest_def result_simps classify_entries_iff subset_iff)
qed

lemma classified_known:
  assumes "classifyManifest m = Inr (known, artifacts)" and "distinct (map ent_Path (elems (man_Entries m)))"
  shows "map_of known p = (if known_name p then map_of (keyed (elems (man_Entries m))) p else None)"
proof -
  have "map_of (keyed (known_part es)) p = (if known_name p then map_of (keyed es) p else None)" for es
    by (induction es) (auto simp: known_part_def)
  then show ?thesis
    using assms map_of_updates [OF distinct_parts [OF assms(2)], of "[]" p] by (simp add: classifyManifest_iff)
qed

lemma manifest_paths:
  assumes "ParseManifest raw = Inr m"
  shows "distinct (map ent_Path (elems (man_Entries m)))"
  using assms strict_sorted_iff
  by (auto simp: ParseManifest_def result_simps ValidateManifest_def Let_def manifest_entries_iff)

section \<open>Reading sealed entries\<close>

definition sealed_as :: "edir \<Rightarrow> ManifestEntry \<Rightarrow> bool" where
  "sealed_as root e = (\<exists>raw. map_of root (ent_Path e) = Some (EvidenceFile raw) \<and> int (length raw) = ent_Size e \<and> digest raw = ent_SHA256 e)"

lemma readRegular_Inr:
  "readRegular root name maximum = Inr raw \<longleftrightarrow>
     map_of root name = Some (EvidenceFile raw) \<and> 0 \<le> maximum \<and> int (length raw) \<le> maximum"
  by (auto simp: readRegular_def split: option.splits enode.splits if_splits)

lemma readSealedEntry_Inr:
  "readSealedEntry root e maximum = Inr raw \<longleftrightarrow>
     map_of root (ent_Path e) = Some (EvidenceFile raw) \<and> int (length raw) = ent_Size e \<and> digest raw = ent_SHA256 e
     \<and> ent_Size e \<le> maximum"
  by (auto simp: readSealedEntry_def result_simps readRegular_Inr)

lemma verifyRegularDigest_Inr:
  "verifyRegularDigest root e maximum = Inr () \<longleftrightarrow> sealed_as root e \<and> ent_Size e \<le> maximum"
  by (auto simp: verifyRegularDigest_def sealed_as_def split: option.splits enode.splits if_splits)

section \<open>The closed inventory\<close>

definition node_files :: "edir \<Rightarrow> bytes set" where
  "node_files root = fst ` set (filter (\<lambda>(_, node). node \<noteq> EvidenceDirectory) root)"

definition node_directories :: "edir \<Rightarrow> bytes set" where
  "node_directories root = fst ` set (filter (\<lambda>(_, node). node = EvidenceDirectory) root)"

lemma walk_inventory_iff:
  "walk_inventory budget directories root = Inr observed \<longleftrightarrow>
     length root \<le> budget \<and> node_directories root \<subseteq> set directories
     \<and> observed = map fst (filter (\<lambda>(_, node). node \<noteq> EvidenceDirectory) root)"
proof (induction root arbitrary: budget observed)
  case (Cons entry root)
  obtain path node where entry: "entry = (path, node)" by (cases entry)
  show ?case
  proof (cases budget)
    case (Suc n)
    then show ?thesis
      using Cons.IH entry by (cases "node = EvidenceDirectory") (auto simp: result_simps node_directories_def)
  qed (simp add: entry)
qed (auto simp: node_directories_def)

lemma length_nodes:
  assumes "distinct (map fst root)"
  shows "length root = card (node_files root) + card (node_directories root)"
proof -
  let ?f = "filter (\<lambda>(_, node). node \<noteq> EvidenceDirectory) root" and ?d = "filter (\<lambda>(_, node). node = EvidenceDirectory) root"
  have "length root = length ?f + length ?d"
    by (induction root) auto
  moreover have "card (node_files root) = length ?f" "card (node_directories root) = length ?d"
    using assms distinct_card [of "map fst ?f"] distinct_card [of "map fst ?d"]
    by (simp_all add: node_files_def node_directories_def distinct_map_filter)
  ultimately show ?thesis by simp
qed

lemma counted_equal:
  assumes "finite E" and "finite D"
  shows "card F + card G \<le> card E + card D \<and> G \<subseteq> D \<and> card F = card E \<and> F \<subseteq> E \<longleftrightarrow> G \<subseteq> D \<and> F = E"
  using assms card_mono [OF assms(2), of G] card_subset_eq [OF assms(1), of F] by auto

lemma closed_inventory:
  assumes "distinct (map fst root)"
  shows "verifyClosedInventory root m = Inr () \<longleftrightarrow>
     node_files root = insert ''manifest.json'' (ent_Path ` set (elems (man_Entries m)))
     \<and> node_directories root \<subseteq> insert ''.'' (\<Union>e\<in>set (elems (man_Entries m)). set (parents (ent_Path e)))"
proof -
  let ?paths = "map ent_Path (elems (man_Entries m))"
  let ?expected = "remdups (''manifest.json'' # ?paths)" and ?dirs = "remdups (''.'' # concat (map parents ?paths))"
  let ?observed = "map fst (filter (\<lambda>(_, node). node \<noteq> EvidenceDirectory) root)"
  have sets: "set ?expected = insert ''manifest.json'' (ent_Path ` set (elems (man_Entries m)))"
    "set ?dirs = insert ''.'' (\<Union>e\<in>set (elems (man_Entries m)). set (parents (ent_Path e)))"
    "set ?observed = node_files root"
    by (auto simp: node_files_def)
  have lengths: "length ?observed = card (node_files root)" "length ?expected = card (set ?expected)" "length ?dirs = card (set ?dirs)"
    using assms distinct_card [of ?observed] distinct_card [of ?expected] distinct_card [of ?dirs] sets(3)
    by (simp_all add: distinct_map_filter del: remdups.simps)
  have "verifyClosedInventory root m = Inr () \<longleftrightarrow>
      length root \<le> length ?expected + length ?dirs \<and> node_directories root \<subseteq> set ?dirs
      \<and> length ?observed = length ?expected \<and> set ?observed \<subseteq> set ?expected"
    by (auto simp: verifyClosedInventory_def Let_def result_simps walk_inventory_iff subset_iff simp del: remdups.simps)
  also have "\<dots> \<longleftrightarrow> node_directories root \<subseteq> set ?dirs \<and> node_files root = set ?expected"
    unfolding lengths sets(3) length_nodes [OF assms] by (rule counted_equal) (rule finite_set)+
  finally show ?thesis unfolding sets by blast
qed

text \<open>
  C37: The scan of the evidence directory accepts exactly the directories that hold the manifest and the
  files it names, nothing else and nothing less, with no directory that is not above one of them.
\<close>

theorem closed_inventory_iff:
  assumes "distinct (map fst root)"
  shows "verifyClosedInventory root m = Inr () \<longleftrightarrow>
     node_files root = insert ''manifest.json'' (ent_Path ` set (elems (man_Entries m)))
     \<and> node_directories root \<subseteq> insert ''.'' (\<Union>e\<in>set (elems (man_Entries m)). set (parents (ent_Path e)))"
  using assms by (rule closed_inventory)

definition demo_root :: edir where
  "demo_root = [(''manifest.json'', EvidenceFile []), (''target-artifacts'', EvidenceDirectory), (''target-artifacts/log'', EvidenceFile [])]"

definition demo_artifact :: ManifestEntry where
  "demo_artifact = \<lparr>ent_Path = ''target-artifacts/log'', ent_Kind = ''target_artifact'', ent_Size = 0, ent_SHA256 = []\<rparr>"

theorem closed_inventory_iff_witness:
  "verifyClosedInventory demo_root (demo_manifest\<lparr>man_Entries := Some [demo_artifact]\<rparr>) = Inr ()
   \<and> node_files demo_root = {''manifest.json'', ''target-artifacts/log''}"
proof -
  let ?m = "demo_manifest\<lparr>man_Entries := Some [demo_artifact]\<rparr>"
  have "distinct (map fst demo_root)" by code_simp
  note iff = closed_inventory_iff [OF this, of ?m]
  have "verifyClosedInventory demo_root ?m = Inr ()" by code_simp
  with iff show ?thesis by (simp add: demo_artifact_def)
qed

end
