(* ===== verification/Job_Paths.thy ===== *)
theory Job_Paths
  imports Job_Evidence Jobcontract_Properties Go_Net
begin

text \<open>
  Relative paths of the evidence directory: their elements, the directories above them, and why the loop
  that climbs from an entry to the root of the evidence ends.
\<close>

abbreviation rel_path :: "bytes list \<Rightarrow> bytes" where
  "rel_path es \<equiv> join_with [slash] es"

lemma rel_path_snoc: "rel_path (es @ [e]) = (if es = [] then e else rel_path es @ slash # e)"
  by (induction es) (auto simp: join_with_Cons)

lemma rel_path_not_rooted:
  assumes "list_all plain_element es" and "es \<noteq> []"
  shows "rel_path es \<noteq> []" "hd (rel_path es) \<noteq> slash"
proof -
  obtain e es' where es: "es = e # es'" using assms(2) by (cases es) auto
  then have "e \<noteq> []" "slash \<notin> set e" using assms(1) by (simp_all add: plain_element_def)
  moreover have "hd e \<noteq> slash" using calculation by (metis hd_in_set)
  ultimately show "rel_path es \<noteq> []" "hd (rel_path es) \<noteq> slash" by (simp_all add: es join_with_Cons)
qed

lemma Clean_rel_path:
  assumes "list_all plain_element es" and "es \<noteq> []"
  shows "Clean (rel_path es) = rel_path es" "Clean (rel_path es @ [slash]) = rel_path es"
proof -
  have split: "split_on slash (rel_path es) = es" "split_on slash (rel_path es @ [slash]) = es @ [[]]"
    using assms split_prefix [of slash "rel_path es" "[]"] by (simp_all add: split_join plain_no_slash)
  have "clean_elements False (es @ [[]]) = es"
    using assms by (simp add: clean_elements_def foldl_clean_plain clean_step.simps)
  then show "Clean (rel_path es) = rel_path es" "Clean (rel_path es @ [slash]) = rel_path es"
    using rel_path_not_rooted [OF assms] split assms by (simp_all add: Clean_def)
qed

lemma Dir_rel_path:
  assumes "list_all plain_element (es @ [e])"
  shows "Dir (rel_path (es @ [e])) = (if es = [] then ''.'' else rel_path es)"
proof -
  have e: "slash \<notin> set e" using assms by (simp add: plain_element_def)
  show ?thesis
  proof (cases "es = []")
    case True
    then show ?thesis using e by (simp add: Dir_def Clean_def LastIndexByte_None [THEN iffD2])
  next
    case False
    then have "Dir (rel_path (es @ [e])) = Clean (rel_path es @ [slash])"
      using LastIndexByte_append [OF e, of "rel_path es"] by (simp add: Dir_def rel_path_snoc)
    then show ?thesis using Clean_rel_path [of es] assms False by simp
  qed
qed

lemma rel_path_not_dot: "list_all plain_element es \<Longrightarrow> rel_path es \<noteq> ''.''"
proof (cases es)
  case (Cons e es')
  then show "list_all plain_element es \<Longrightarrow> rel_path es \<noteq> ''.''"
    by (auto simp: join_with_Cons plain_element_def slash_def Cons_eq_append_conv append_eq_Cons_conv)
qed simp

text \<open>The directories above a path with plain elements are its proper prefixes, longest first.\<close>

lemma climb_rel_path:
  assumes "list_all plain_element es" and "es \<noteq> []" and "length es \<le> n"
  shows "climb n (rel_path es) = map (\<lambda>k. rel_path (take k es)) (rev [1..<length es])"
  using assms
proof (induction es arbitrary: n rule: rev_induct)
  case (snoc e es)
  then obtain n' where n: "n = Suc n'" by (cases n) auto
  show ?case
  proof (cases "es = []")
    case True
    then show ?thesis using Dir_rel_path [OF snoc.prems(1)] by (simp add: n)
  next
    case False
    have "climb n (rel_path (es @ [e])) = rel_path es # climb n' (rel_path es)"
      using Dir_rel_path [OF snoc.prems(1)] False snoc.prems rel_path_not_dot [of es] by (simp add: n Let_def)
    also have "climb n' (rel_path es) = map (\<lambda>k. rel_path (take k es)) (rev [1..<length es])"
      using snoc n False by simp
    also have "rel_path es # \<dots> = map (\<lambda>k. rel_path (take k (es @ [e]))) (rev [1..<length (es @ [e])])"
      using False by (simp add: Suc_le_eq)
    finally show ?thesis .
  qed
qed simp

lemma length_rel_path:
  assumes "list_all plain_element es"
  shows "length es \<le> length (rel_path es)"
  using assms by (induction es) (auto simp: join_with_Cons plain_element_def Suc_le_eq)

lemma parents_rel_path:
  assumes "list_all plain_element es" and "es \<noteq> []"
  shows "parents (rel_path es) = map (\<lambda>k. rel_path (take k es)) (rev [1..<length es])"
  unfolding parents_def by (rule climb_rel_path) (use assms length_rel_path in auto)

lemma evidence_elements:
  assumes "validEvidencePath p"
  shows "p = ''..'' \<or> list_all plain_element (split_on slash p) \<and> rel_path (split_on slash p) = p"
proof -
  have "\<not> IsAbs p" using assms by (auto simp: validEvidencePath_def IsAbs_def HasPrefix_iff slash_def neq_Nil_conv)
  moreover have "\<not> HasPrefix p (''..'' @ [slash])" using assms by (simp add: validEvidencePath_def slash_def)
  ultimately show ?thesis
    using clean_relative [of p] assms by (auto simp: validEvidencePath_def join_split)
qed

lemma Join_artifacts:
  assumes "validEvidencePath p"
  shows "Join artifacts_directory p = (if p = ''..'' then ''.'' else artifacts_directory @ slash # p)"
proof (cases "p = ''..''")
  case True
  have "Join artifacts_directory ''..'' = ''.''" by code_simp
  then show ?thesis using True by simp
next
  case False
  then have p: "list_all plain_element (split_on slash p)" "rel_path (split_on slash p) = p"
    using evidence_elements [OF assms] by auto
  have "plain_element artifacts_directory" by code_simp
  then have "Clean (rel_path (artifacts_directory # split_on slash p)) = rel_path (artifacts_directory # split_on slash p)"
    using p by (intro Clean_rel_path) simp_all
  moreover have "rel_path (artifacts_directory # split_on slash p) = artifacts_directory @ slash # p"
    using p by (simp add: join_with_Cons)
  moreover have "p \<noteq> []" using assms by (auto simp: validEvidencePath_def validOpaqueText_def)
  ultimately show ?thesis using False by (simp add: Join_def artifacts_directory_def)
qed

section \<open>The climb ends\<close>

lemma Dir_iterate:
  assumes "list_all plain_element es" and "es \<noteq> []" and "k < length es"
  shows "(Dir ^^ k) (rel_path es) = rel_path (take (length es - k) es)"
  using assms
proof (induction k)
  case (Suc k)
  let ?j = "length es - k"
  have j: "take ?j es = take (?j - 1) es @ [es ! (?j - 1)]"
    using Suc.prems take_Suc_conv_app_nth [of "?j - 1" es] by (simp add: Suc_diff_Suc)
  have "list_all plain_element (take ?j es)" using Suc.prems(1) by (auto simp: list_all_iff dest: in_set_takeD)
  moreover have "take (?j - 1) es \<noteq> []" using Suc.prems by auto
  ultimately have "Dir (rel_path (take ?j es)) = rel_path (take (?j - 1) es)"
    using Dir_rel_path [of "take (?j - 1) es" "es ! (?j - 1)"] j by simp
  then show ?case using Suc by simp
qed simp

text \<open>
  C38: The loop \<^verbatim>\<open>for d := path.Dir(p); d != "."; d = path.Dir(d)\<close> ends on every path that a manifest may hold,
  after at most as many steps as the path has bytes, and the fuel of the model is enough: the directories
  it lists are all the values that \<^verbatim>\<open>d\<close> takes before the dot.
\<close>

theorem parents_complete:
  assumes "validEvidencePath p"
  shows "\<exists>n\<le>length p. (Dir ^^ n) p = ''.'' \<and> parents p = map (\<lambda>i. (Dir ^^ i) p) [1..<n] \<and> ''.'' \<notin> set (parents p)"
proof (cases "p = ''..''")
  case True
  have "Dir ''..'' = ''.''" "parents ''..'' = []" by code_simp+
  then show ?thesis using True by (intro exI [of _ 1]) simp
next
  case False
  then obtain es where es: "es = split_on slash p" "list_all plain_element es" "rel_path es = p"
    using evidence_elements [OF assms] by auto
  have ne: "es \<noteq> []" by (simp add: es(1))
  let ?n = "length es"
  have one: "(Dir ^^ (?n - 1)) p = rel_path (take 1 es)"
    using Dir_iterate [OF es(2) ne, of "?n - 1"] ne by (simp add: es(3) Suc_le_eq)
  have first: "Dir (rel_path (take 1 es)) = ''.''"
    using Dir_rel_path [of "[]" "hd es"] es(2) ne by (cases es) simp_all
  have end': "(Dir ^^ ?n) p = ''.''"
    using one first ne by (cases ?n) simp_all
  have ps: "parents p = map (\<lambda>k. rel_path (take k es)) (rev [1..<?n])"
    using parents_rel_path [OF es(2) ne] by (simp add: es(3))
  also have "\<dots> = map (\<lambda>i. (Dir ^^ i) p) [1..<?n]"
  proof (rule nth_equalityI)
    fix i assume "i < length (map (\<lambda>k. rel_path (take k es)) (rev [1..<?n]))"
    then have i: "Suc i < ?n" "Suc (?n - Suc (Suc i)) = ?n - Suc i" by simp_all
    have at: "rev [1..<?n] ! i = ?n - Suc i" "[1..<?n] ! i = Suc i" using i by (simp_all add: rev_nth less_diff_conv)
    have "i < length (rev [1..<?n])" "i < length [1..<?n]" using i by simp_all
    then show "map (\<lambda>k. rel_path (take k es)) (rev [1..<?n]) ! i = map (\<lambda>i. (Dir ^^ i) p) [1..<?n] ! i"
      using Dir_iterate [OF es(2) ne i(1)] at by (simp only: nth_map es(3))
  qed simp
  finally have "parents p = map (\<lambda>i. (Dir ^^ i) p) [1..<?n]" .
  moreover have "rel_path (take k es) \<noteq> ''.''" for k
    by (rule rel_path_not_dot) (use es(2) in \<open>auto simp: list_all_iff dest: in_set_takeD\<close>)
  then have "''.'' \<notin> set (parents p)" using ps by (auto simp: eq_commute)
  moreover have "?n \<le> length p" using length_rel_path [OF es(2)] es(3) by simp
  ultimately show ?thesis using end' by blast
qed

theorem parents_complete_witness:
  "validEvidencePath ''target-artifacts/logs/a.txt'' \<and> parents ''target-artifacts/logs/a.txt'' = [''target-artifacts/logs'', ''target-artifacts'']
   \<and> (\<exists>n. (Dir ^^ n) ''target-artifacts/logs/a.txt'' = ''.'')"
proof -
  have "validEvidencePath ''target-artifacts/logs/a.txt''" "parents ''target-artifacts/logs/a.txt'' = [''target-artifacts/logs'', ''target-artifacts'']"
    by code_simp+
  then show ?thesis using parents_complete [of "''target-artifacts/logs/a.txt''"] by blast
qed

end
