(* ===== verification/Go_Path_Utf8.thy ===== *)
theory Go_Path_Utf8
  imports Go_Path Go_Document
begin

text \<open>
  Cutting valid UTF-8 at ASCII characters leaves valid UTF-8, so cleaning and joining paths keeps it.
\<close>

lemma continuation_append:
  assumes "is_ascii c" and "128 \<le> lo"
  shows "continuation lo hi (s @ c # t) = continuation lo hi s"
  using assms by (cases s) (simp_all add: continuation_def is_ascii_def)

lemma continuation_drop:
  assumes "is_ascii c" and "128 \<le> lo" and "n \<le> length s"
  shows "continuation lo hi (drop n (s @ c # t)) = continuation lo hi (drop n s)"
  using assms continuation_append by simp

lemma continuation_Nil [simp]: "continuation lo hi [] = None"
  by (simp add: continuation_def)

lemma decode_rune_append:
  assumes "is_ascii c"
  shows "decode_rune x (s @ c # t) = decode_rune x s"
proof (cases "length s < 2")
  case True
  then consider "s = []" | a where "s = [a]" by (cases s; cases "tl s") auto
  then show ?thesis
  proof cases
    case 1
    with continuation_append [OF assms, of _ _ "[]"] show ?thesis by (simp add: decode_rune_def Let_def)
  next
    case 2
    with continuation_append [OF assms, of _ _ "[a]"] continuation_append [OF assms, of _ _ "[]"] show ?thesis
      by (simp add: decode_rune_def Let_def split: option.split)
  qed
next
  case False
  have "continuation lo hi (s @ c # t) = continuation lo hi s" if "128 \<le> lo" for lo hi
    using continuation_append [OF assms that] .
  moreover have "continuation 128 191 (drop 1 (s @ c # t)) = continuation 128 191 (drop 1 s)"
    "continuation 128 191 (drop 2 (s @ c # t)) = continuation 128 191 (drop 2 s)"
    using False by (intro continuation_drop [OF assms]; simp)+
  ultimately show ?thesis
    unfolding decode_rune_def Let_def by (simp del: drop_append One_nat_def cong: option.case_cong if_cong)
qed

lemma decode_rune_used: "decode_rune x s = (r, n, ok) \<Longrightarrow> n \<le> length s"
  using decode_rune_take [of x s r n "[]"]
  by (cases ok) (auto simp: decode_rune_def Let_def split: if_splits option.splits)

lemma ValidUTF8_append_ascii:
  assumes "is_ascii c"
  shows "ValidUTF8 (s @ c # t) \<longleftrightarrow> ValidUTF8 s \<and> ValidUTF8 t"
proof (induction s rule: runes.induct)
  case 1
  then show ?case using assms by (simp add: ValidUTF8_ascii_Cons is_ascii_def)
next
  case (2 x s)
  obtain r n ok where d: "decode_rune x s = (r, n, ok)" by (cases "decode_rune x s")
  then have "drop n (s @ c # t) = drop n s @ c # t" using decode_rune_used by simp
  with 2 [OF d [symmetric] refl] d show ?case
    by (simp add: ValidUTF8_Cons decode_rune_append [OF assms] del: drop_append)
qed

lemma is_ascii_slash [simp]: "is_ascii slash"
  by (simp add: is_ascii_def slash_def)

lemma split_utf8: "ValidUTF8 s \<Longrightarrow> is_ascii c \<Longrightarrow> list_all ValidUTF8 (split_on c s)"
proof (induction "length s" arbitrary: s rule: less_induct)
  case less
  show ?case
  proof (cases "c \<in> set s")
    case True
    then obtain t u where s: "s = t @ c # u" and t: "c \<notin> set t" by (meson split_list_first)
    have "ValidUTF8 t" "ValidUTF8 u"
      using less.prems ValidUTF8_append_ascii [of c t u] s by auto
    with less.hyps [of u] less.prems(2) s t show ?thesis by (simp add: split_on_append)
  next
    case False
    with less.prems show ?thesis by (simp add: split_on_id)
  qed
qed

lemma join_utf8: "list_all ValidUTF8 ss \<Longrightarrow> is_ascii c \<Longrightarrow> ValidUTF8 (join_with [c] ss)"
  by (induction "[c]" ss rule: join_with.induct) (simp_all add: ValidUTF8_append_ascii)

lemma dots_utf8 [simp]: "ValidUTF8 ''.''" "ValidUTF8 ''..''"
  by (simp_all add: ValidUTF8_ascii is_ascii_def)

lemma clean_step_utf8: "list_all ValidUTF8 out \<Longrightarrow> ValidUTF8 e \<Longrightarrow> list_all ValidUTF8 (clean_step r out e)"
  by (auto simp: clean_step.simps split: list.splits)

lemma foldl_clean_utf8: "list_all ValidUTF8 out \<Longrightarrow> list_all ValidUTF8 es \<Longrightarrow> list_all ValidUTF8 (foldl (clean_step r) out es)"
  by (induction es arbitrary: out) (simp_all add: clean_step_utf8)

lemma clean_elements_utf8: "list_all ValidUTF8 es \<Longrightarrow> list_all ValidUTF8 (clean_elements r es)"
  using foldl_clean_utf8 [of "[]" es r] by (simp add: clean_elements_def list_all_iff)

lemma Clean_utf8: "ValidUTF8 p \<Longrightarrow> ValidUTF8 (Clean p)"
  using clean_elements_utf8 [OF split_utf8 [of p slash]]
  by (simp add: Clean_def Let_def join_utf8 ValidUTF8_ascii_Cons is_ascii_slash [unfolded is_ascii_def])

lemma Join_utf8: "ValidUTF8 a \<Longrightarrow> ValidUTF8 b \<Longrightarrow> ValidUTF8 (Join a b)"
  by (simp add: Join_def Clean_utf8 ValidUTF8_append_ascii)

end
