(* ===== verification/Job_Writer.thy ===== *)
theory Job_Writer
  imports Job_Seal Job_Paths Go_Path_Utf8
begin

text \<open>
  The evidence writer keeps one manifest entry per file: names, kinds, sizes and digests agree after every
  operation that succeeds, and a failed collection of artifacts leaves no trace.
\<close>

definition kind_of :: "bytes \<Rightarrow> bytes" where
  "kind_of name = (case map_of known_kinds name of Some kind \<Rightarrow> kind | None \<Rightarrow> ''target_artifact'')"

definition entry_of :: "bytes \<times> bytes \<Rightarrow> ManifestEntry" where
  "entry_of f = \<lparr>ent_Path = fst f, ent_Kind = kind_of (fst f), ent_Size = int (length (snd f)), ent_SHA256 = digest (snd f)\<rparr>"

definition file_ok :: "bytes \<times> bytes \<Rightarrow> bool" where
  "file_ok f = ((known_name (fst f) \<or> HasPrefix (fst f) (artifacts_directory @ [slash])) \<and> ValidUTF8 (fst f)
     \<and> int (length (snd f)) \<le> MaximumWireInteger)"

definition writer_ok :: "evidenceWriter \<Rightarrow> bool" where
  "writer_ok w = (w_entries w = map entry_of (w_files w) \<and> distinct (map fst (w_files w)) \<and> list_all file_ok (w_files w))"

lemma entry_of_simps [simp]:
  "ent_Path (entry_of f) = fst f" "ent_Kind (entry_of f) = kind_of (fst f)" "ent_Size (entry_of f) = int (length (snd f))"
  "ent_SHA256 (entry_of f) = digest (snd f)"
  by (simp_all add: entry_of_def)

lemma known_kinds_facts:
  "map_of known_kinds name = Some kind \<Longrightarrow> known_name name \<and> ValidUTF8 name \<and> kind_of name = kind
     \<and> \<not> HasPrefix name (artifacts_directory @ [slash]) \<and> name \<noteq> artifacts_directory \<and> name \<noteq> ''manifest.json''"
proof -
  have "list_all (\<lambda>(n, _). ValidUTF8 n \<and> \<not> HasPrefix n (artifacts_directory @ [slash]) \<and> n \<noteq> artifacts_directory \<and> n \<noteq> ''manifest.json'') known_kinds"
    by code_simp
  then show "map_of known_kinds name = Some kind \<Longrightarrow> ?thesis"
    by (fastforce simp: list_all_iff known_name_def kind_of_def dest: map_of_SomeD)
qed

lemma artifact_not_known:
  assumes "HasPrefix name (artifacts_directory @ [slash])"
  shows "\<not> known_name name" "kind_of name = ''target_artifact''"
  using assms known_kinds_facts [of name] by (cases "map_of known_kinds name"; simp add: known_name_def kind_of_def)+

lemma entry_of_good: "file_ok f \<Longrightarrow> entry_good (entry_of f)"
  using artifact_not_known [of "fst f"]
  by (auto simp: file_ok_def entry_good_def known_name_def kind_of_def split: option.splits)

lemma evidence_Write_iff:
  "evidence_Write fails name kind raw w = Inr w' \<longleftrightarrow> can_create fails w name
     \<and> w' = w\<lparr>w_files := w_files w @ [(name, raw)],
              w_entries := w_entries w @ [\<lparr>ent_Path = name, ent_Kind = kind, ent_Size = int (length raw), ent_SHA256 = digest raw\<rparr>]\<rparr>"
  by (auto simp: evidence_Write_def result_simps)

lemma can_create_new: "can_create fails w name \<Longrightarrow> name \<notin> fst ` set (w_files w)"
  by (auto simp: can_create_def)

lemma writer_append:
  assumes "writer_ok w" and "name \<notin> fst ` set (w_files w)" and "file_ok (name, raw)" and "kind = kind_of name"
  shows "writer_ok (w\<lparr>w_files := w_files w @ [(name, raw)],
    w_entries := w_entries w @ [\<lparr>ent_Path = name, ent_Kind = kind, ent_Size = int (length raw), ent_SHA256 = digest raw\<rparr>]\<rparr>)"
  using assms by (simp add: writer_ok_def entry_of_def)

lemma writer_Write:
  assumes "evidence_Write fails name kind raw w = Inr w'" and "writer_ok w" and "map_of known_kinds name = Some kind"
    and "int (length raw) \<le> MaximumWireInteger"
  shows "writer_ok w' \<and> w_files w' = w_files w @ [(name, raw)]"
  using assms writer_append [of w name raw kind] known_kinds_facts [OF assms(3)] can_create_new [of fails w name]
  by (auto simp: evidence_Write_iff file_ok_def)

section \<open>Captured streams\<close>

definition capture_ok :: "capture \<Rightarrow> bool" where
  "capture_ok c = (\<not> cap_closed c \<and> cap_file c = cap_hashed c \<and> 0 \<le> cap_maximum c \<and> int (length (cap_hashed c)) \<le> cap_maximum c
     \<and> int (length (cap_hashed c)) \<le> cap_total c \<and> cap_total c \<le> MaximumWireInteger)"

lemma capture_Write_ok:
  assumes "capture_ok c"
  shows "capture_ok (snd (capture_Write None raw c)) \<and> cap_name (snd (capture_Write None raw c)) = cap_name c
    \<and> cap_kind (snd (capture_Write None raw c)) = cap_kind c \<and> cap_maximum (snd (capture_Write None raw c)) = cap_maximum c"
  using assms by (auto simp: capture_Write_def capture_ok_def Let_def)

lemma capture_all_ok:
  assumes "list_all (\<lambda>(short, _). short = None) writes" and "capture_ok c"
  shows "capture_ok (capture_all writes c) \<and> cap_name (capture_all writes c) = cap_name c \<and> cap_kind (capture_all writes c) = cap_kind c
    \<and> cap_maximum (capture_all writes c) = cap_maximum c"
  using assms
proof (induction writes arbitrary: c)
  case (Cons w writes)
  then show ?case using capture_Write_ok [of c "snd w"] by (cases w) simp
qed simp

lemma capture_all_prefix:
  assumes "list_all (\<lambda>(short, _). short = None) writes" and "capture_ok c"
    and "cap_total c + int (length (concat (map snd writes))) \<le> MaximumWireInteger"
    and "cap_total c \<le> cap_maximum c \<longrightarrow> cap_total c = int (length (cap_hashed c))"
    and "cap_maximum c < cap_total c \<longrightarrow> cap_maximum c = int (length (cap_hashed c))"
  shows "cap_hashed (capture_all writes c) = take (nat (cap_maximum c)) (cap_hashed c @ concat (map snd writes))
    \<and> cap_total (capture_all writes c) = cap_total c + int (length (concat (map snd writes)))"
  using assms
proof (induction writes arbitrary: c)
  case Nil
  then show ?case by (auto simp: capture_ok_def)
next
  case (Cons w writes)
  obtain raw where w: "w = (None, raw)" using Cons.prems(1) by (cases w) auto
  define d where "d = snd (capture_Write None raw c)"
  have d: "cap_total d = cap_total c + int (length raw)" "cap_hashed d = take (nat (cap_maximum c)) (cap_hashed c @ raw)"
    "cap_maximum d = cap_maximum c"
    using Cons.prems w by (auto simp: d_def capture_Write_def capture_ok_def Let_def max_def nat_diff_distrib')
  have "capture_ok d" using capture_Write_ok Cons.prems(2) by (simp add: d_def)
  moreover have "cap_total d \<le> cap_maximum d \<longrightarrow> cap_total d = int (length (cap_hashed d))"
    "cap_maximum d < cap_total d \<longrightarrow> cap_maximum d = int (length (cap_hashed d))"
    using Cons.prems d by (auto simp: capture_ok_def)
  moreover have "cap_total d + int (length (concat (map snd writes))) \<le> MaximumWireInteger"
    using Cons.prems(3) w d by simp
  ultimately have "cap_hashed (capture_all writes d) = take (nat (cap_maximum d)) (cap_hashed d @ concat (map snd writes))
      \<and> cap_total (capture_all writes d) = cap_total d + int (length (concat (map snd writes)))"
    using Cons w by simp
  then show ?case using w d by (auto simp: d_def [symmetric] take_append min_def)
qed

lemma writer_Close:
  assumes "capture_CloseResult fails c w = Inr (stream, w')" and "writer_ok w" and "capture_ok c"
    and "map_of known_kinds (cap_name c) = Some (cap_kind c)" and "cap_name c \<notin> fst ` set (w_files w)"
  shows "writer_ok w' \<and> w_files w' = w_files w @ [(cap_name c, cap_hashed c)] \<and> stm_Path stream = cap_name c
    \<and> stm_SHA256 stream = digest (cap_hashed c) \<and> stm_CapturedBytes stream = int (length (cap_hashed c))
    \<and> stm_TotalBytes stream = cap_total c \<and> stm_Truncated stream = (stm_CapturedBytes stream < stm_TotalBytes stream)"
proof -
  have "file_ok (cap_name c, cap_hashed c)"
    using known_kinds_facts [OF assms(4)] assms(3) by (auto simp: file_ok_def capture_ok_def)
  then show ?thesis
    using assms writer_append [of w "cap_name c" "cap_hashed c" "cap_kind c"] known_kinds_facts [OF assms(4)]
    by (auto simp: capture_CloseResult_def result_simps Let_def capture_ok_def)
qed

section \<open>Artifacts\<close>

definition stored :: "bytes \<times> bytes \<Rightarrow> bytes \<times> bytes" where
  "stored f = (artifacts_directory @ slash # fst f, snd f)"

definition inventory_of :: "bytes \<times> bytes \<Rightarrow> artifactInventoryEntry" where
  "inventory_of f = \<lparr>inv_Path = fst f, inv_Size = int (length (snd f)), inv_SHA256 = digest (snd f)\<rparr>"

definition artifact_bytes :: "(bytes \<times> bytes) list \<Rightarrow> int" where
  "artifact_bytes fs = sum_list (map (\<lambda>f. int (length (snd f))) fs)"

lemma artifact_bytes_simps [simp]: "artifact_bytes [] = 0" "artifact_bytes (f # fs) = int (length (snd f)) + artifact_bytes fs"
  by (simp_all add: artifact_bytes_def)

lemma artifact_bytes_nonneg [simp]: "0 \<le> artifact_bytes fs"
  by (induction fs) simp_all

lemma stored_prefix [simp]: "HasPrefix (fst (stored f)) (artifacts_directory @ [slash])"
  by (simp add: stored_def HasPrefix_iff)

lemma stored_inj: "fst (stored f) = fst (stored g) \<longleftrightarrow> fst f = fst g"
  by (simp add: stored_def)

lemma stored_utf8: "validEvidencePath p \<Longrightarrow> ValidUTF8 (artifacts_directory @ slash # p)"
proof -
  assume "validEvidencePath p"
  then have "ValidUTF8 p" by (rule evidence_path_utf8)
  moreover have "ValidUTF8 artifacts_directory" by code_simp
  ultimately show ?thesis by (simp add: ValidUTF8_append_ascii)
qed

text \<open>What a successful collection stored: \<open>fs\<close> lists the paths below the artifact root with their contents.\<close>

definition collected :: "ArtifactRequest \<Rightarrow> bytes \<Rightarrow> int \<Rightarrow> (bytes \<times> bytes) list \<Rightarrow> bool" where
  "collected q prior used fs =
     (sorted_wrt (<) (prior # map fst fs) \<and> list_all (\<lambda>f. validEvidencePath (fst f)) fs \<and> used + artifact_bytes fs \<le> art_MaxBytes q)"

lemma write_artifacts_Inr:
  assumes "write_artifacts fails q prior used as w = Inr (entries, w')" and "writer_ok w" and "0 \<le> used"
    and "art_MaxBytes q \<le> MaximumWireInteger" and "used \<le> art_MaxBytes q"
  shows "\<exists>fs. collected q prior used fs \<and> length fs = length as \<and> entries = map inventory_of fs
    \<and> w_files w' = w_files w @ map stored fs \<and> writer_ok w'"
  using assms
proof (induction as arbitrary: prior used w entries)
  case (Cons a as)
  let ?raw = "\<lambda>content. take (nat (art_MaxBytes q - used + 1)) content"
  obtain content rest where valid: "prior < a_Path a" "validEvidencePath (a_Path a)" and open': "a_Open a = Some (Some content)"
    and create: "can_create fails w (Join artifacts_directory (a_Path a))"
    and bound: "int (length (?raw content)) \<le> art_MaxBytes q - used"
    and rec: "write_artifacts fails q (a_Path a) (used + int (length (?raw content))) as
        (w\<lparr>w_files := w_files w @ [(Join artifacts_directory (a_Path a), ?raw content)],
           w_entries := w_entries w @ [\<lparr>ent_Path = Join artifacts_directory (a_Path a), ent_Kind = ''target_artifact'',
             ent_Size = int (length (?raw content)), ent_SHA256 = digest (?raw content)\<rparr>]\<rparr>) = Inr (rest, w')"
    and entries: "entries = \<lparr>inv_Path = a_Path a, inv_Size = int (length (?raw content)), inv_SHA256 = digest (?raw content)\<rparr> # rest"
    using Cons.prems(1) by (auto simp: result_simps Let_def ValidateEvidenceRelativePath_def not_le not_less split: option.splits)
  define raw where "raw = ?raw content"
  have "Join artifacts_directory (a_Path a) \<noteq> ''.''" using create by (auto simp: can_create_def)
  then have name: "Join artifacts_directory (a_Path a) = fst (stored (a_Path a, raw))"
    using Join_artifacts [OF valid(2)] by (auto simp: stored_def split: if_splits)
  have ok: "file_ok (stored (a_Path a, raw))"
    using stored_utf8 [OF valid(2)] bound Cons.prems(3,4) by (simp add: file_ok_def) (simp add: stored_def raw_def)
  have "writer_ok (w\<lparr>w_files := w_files w @ [(fst (stored (a_Path a, raw)), raw)],
      w_entries := w_entries w @ [\<lparr>ent_Path = fst (stored (a_Path a, raw)), ent_Kind = ''target_artifact'',
        ent_Size = int (length raw), ent_SHA256 = digest raw\<rparr>]\<rparr>)" (is "writer_ok ?w")
    using writer_append [of w "fst (stored (a_Path a, raw))" raw "''target_artifact''"] Cons.prems(2) can_create_new [OF create] ok
      artifact_not_known [OF stored_prefix, of "(a_Path a, raw)"] by (simp add: name stored_def)
  moreover have "write_artifacts fails q (a_Path a) (used + int (length raw)) as ?w = Inr (rest, w')"
    using rec by (simp add: name raw_def)
  moreover have "used + int (length raw) \<le> art_MaxBytes q" using bound by (simp add: raw_def)
  ultimately obtain fs where fs: "collected q (a_Path a) (used + int (length raw)) fs" "length fs = length as"
    "rest = map inventory_of fs" "w_files w' = w_files ?w @ map stored fs" "writer_ok w'"
    using Cons.IH [of "a_Path a" "used + int (length raw)" ?w rest] Cons.prems by fastforce
  then have "collected q prior used ((a_Path a, raw) # fs)"
    using valid by (auto simp: collected_def)
  then show ?case
    using fs entries by (intro exI [of _ "(a_Path a, raw) # fs"]) (simp add: inventory_of_def stored_def raw_def)
qed (auto simp: collected_def intro!: exI [of _ "[]"])

definition no_artifacts :: "evidenceWriter \<Rightarrow> bool" where
  "no_artifacts w = list_all (\<lambda>f. known_name (fst f)) (w_files w)"

lemma WriteArtifacts_Inr:
  assumes "WriteArtifacts fails q as w = (Inr inventory, w')" and "writer_ok w" and "0 \<le> art_MaxBytes q" and "art_MaxBytes q \<le> MaximumWireInteger"
  shows "\<exists>fs. collected q [] 0 fs \<and> int (length fs) \<le> art_MaxEntries q
    \<and> inventory = \<lparr>inv_Schema = inventory_schema, inv_Root = art_ContainerRoot q, inv_Entries = Some (map inventory_of fs)\<rparr>
    \<and> w_files w' = w_files w @ map stored fs \<and> writer_ok w'"
proof -
  obtain entries where r: "write_artifacts fails q [] 0 (sort_key a_Path as) w = Inr (entries, w')"
    and n: "int (length as) \<le> art_MaxEntries q"
    and i: "inventory = \<lparr>inv_Schema = inventory_schema, inv_Root = art_ContainerRoot q, inv_Entries = Some entries\<rparr>"
    using assms(1) by (auto simp: WriteArtifacts_def split: if_splits sum.splits)
  then show ?thesis using write_artifacts_Inr [OF r assms(2) _ assms(4,3)] by auto
qed

lemma WriteArtifacts_Inl:
  assumes "WriteArtifacts fails q as w = (Inl e, w')" and "no_artifacts w"
  shows "w' = w"
proof -
  have "f \<noteq> artifacts_directory \<and> \<not> HasPrefix f (artifacts_directory @ [slash])" if "known_name f" for f
    using that known_kinds_facts [of f] by (auto simp: known_name_def)
  then have "filter (\<lambda>(f, _). f \<noteq> artifacts_directory \<and> \<not> HasPrefix f (artifacts_directory @ [slash])) (w_files w) = w_files w"
    using assms(2) by (intro filter_True) (fastforce simp: no_artifacts_def list_all_iff)
  then show ?thesis using assms(1) by (auto simp: WriteArtifacts_def split: if_splits sum.splits)
qed

section \<open>The sealed directory\<close>

text \<open>A directory that holds the given files and the directories above them.\<close>

definition holds_files :: "edir \<Rightarrow> (bytes \<times> bytes) list \<Rightarrow> bool" where
  "holds_files root files =
     (distinct (map fst root)
      \<and> set root = (\<lambda>(name, raw). (name, EvidenceFile raw)) ` set files
          \<union> (\<lambda>d. (d, EvidenceDirectory)) ` set (''.'' # concat (map (\<lambda>(name, _). parents name) files)))"

lemma holds_lookup:
  assumes "holds_files root files" and "(name, raw) \<in> set files"
  shows "map_of root name = Some (EvidenceFile raw)"
  using assms by (intro map_of_is_SomeI) (force simp: holds_files_def)+

lemma holds_nodes:
  assumes "holds_files root files"
  shows "node_files root = fst ` set files" "node_directories root = insert ''.'' (\<Union>f\<in>set files. set (parents (fst f)))"
proof -
  have "p \<in> node_files root \<longleftrightarrow> p \<in> fst ` set files" for p
    using assms by (auto simp: holds_files_def node_files_def image_iff split_beta)
  then show "node_files root = fst ` set files" by blast
  have "p \<in> node_directories root \<longleftrightarrow> p \<in> insert ''.'' (\<Union>f\<in>set files. set (parents (fst f)))" for p
    using assms by (fastforce simp: holds_files_def node_directories_def image_iff split_beta)
  then show "node_directories root = insert ''.'' (\<Union>f\<in>set files. set (parents (fst f)))" by blast
qed

lemma digest_valid: "validDigest (digest raw)"
  using sha256_hex_lower [of raw] by (simp add: validDigest_def digestPattern_def digest_def)

lemma digest_text_utf8: "ValidUTF8 (''sha256:'' @ sha256_hex raw)"
  using digest_valid [of raw] digest_utf8 by (simp add: digest_def)

lemma sealed_manifest_document:
  assumes "writer_ok w" and "ValidUTF8 jobID" and "ValidUTF8 requestDigest" and "ValidUTF8 resultDigest"
    and "m = manifest_of jobID requestDigest resultDigest at es" and "set es = set (w_entries w)"
  shows "shaped Manifest_shape (Manifest_value m) \<and> utf8_value (Manifest_value m)"
proof -
  have kinds: "ValidUTF8 ''target_artifact''" "ValidUTF8 ManifestSchema" "list_all (\<lambda>(_, k). ValidUTF8 k) known_kinds" by code_simp+
  then have kind: "ValidUTF8 (kind_of name)" for name
    by (fastforce simp: kind_of_def list_all_iff dest: map_of_SomeD split: option.splits)
  have "shaped ManifestEntry_shape (ManifestEntry_value e) \<and> utf8_value (ManifestEntry_value e)" if "e \<in> set es" for e
    using that assms(1,6) kind digest_utf8 [OF digest_valid]
    by (auto simp: writer_ok_def list_all_iff file_ok_def ManifestEntry_shape_def ManifestEntry_value_def wire_bounds)
  then show ?thesis
    using assms(2-5) kinds(2) digest_text_utf8 Format_valid
    by (auto simp: Manifest_shape_def Manifest_value_def contentDigest_def elems_all list_all_iff shaped_list_iff manifest_of_def)
qed

lemma Seal_iff:
  "Seal fails jobID requestDigest resultDigest at w = Inr (m, w') \<longleftrightarrow>
     m = manifest_of jobID requestDigest resultDigest at (sort_key ent_Path (w_entries w))
     \<and> is_ok (ParseManifest (Encode Manifest_shape (Manifest_value m))) \<and> can_create fails w ''manifest.json''
     \<and> w' = w\<lparr>w_files := w_files w @ [(''manifest.json'', Encode Manifest_shape (Manifest_value m))],
               w_entries := sort_key ent_Path (w_entries w)\<rparr>"
  by (simp only: Seal_def Let_def bind_result_Inr of_contract_Inr require_Inr sum.inject prod.inject is_ok_iff) blast

lemma Seal_Inr:
  assumes "Seal fails jobID requestDigest resultDigest at w = Inr (m, w')" and "writer_ok w"
    and "ValidUTF8 jobID" and "ValidUTF8 requestDigest" and "ValidUTF8 resultDigest"
  shows "ParseManifest (Encode Manifest_shape (Manifest_value m)) = Inr m
    \<and> w_files w' = w_files w @ [(''manifest.json'', Encode Manifest_shape (Manifest_value m))]
    \<and> elems (man_Entries m) = sort_key ent_Path (w_entries w) \<and> man_JobID m = jobID
    \<and> man_RequestSHA256 m = requestDigest \<and> man_ResultSHA256 m = resultDigest
    \<and> man_ContentSHA256 m = contentDigest (elems (man_Entries m))"
proof -
  let ?es = "sort_key ent_Path (w_entries w)"
  have m: "m = manifest_of jobID requestDigest resultDigest at ?es"
    and ok: "is_ok (ParseManifest (Encode Manifest_shape (Manifest_value m)))"
    and w: "w' = w\<lparr>w_files := w_files w @ [(''manifest.json'', Encode Manifest_shape (Manifest_value m))], w_entries := ?es\<rparr>"
    using assms(1) [unfolded Seal_iff] by blast+
  have w': "w_files w' = w_files w @ [(''manifest.json'', Encode Manifest_shape (Manifest_value m))]"
    unfolding w by simp
  obtain p where p: "ParseManifest (Encode Manifest_shape (Manifest_value m)) = Inr p"
    using ok unfolding is_ok_iff by (elim exE)
  have doc: "shaped Manifest_shape (Manifest_value m)" "utf8_value (Manifest_value m)"
    using sealed_manifest_document [OF assms(2-5) m] by simp_all
  have "length (Encode Manifest_shape (Manifest_value m)) \<le> MaximumManifestBytes"
    using p by (auto simp: ParseManifest_def decode_def decode_bounds_def result_simps)
  then have "decode Manifest_shape (Encode Manifest_shape (Manifest_value m)) MaximumManifestBytes = Inr (Manifest_value m)"
    by (rule decode_Encode [OF doc shape_facts(5,6)])
  then have "p = m" using p by (auto simp: ParseManifest_def result_simps)
  then show ?thesis using p w' by (simp add: m manifest_of_def)
qed

text \<open>The verifier opens what the writer sealed, and finds every file by its name.\<close>

lemma sealed_opens:
  assumes "Seal fails jobID requestDigest resultDigest at w = Inr (m, w')" and "writer_ok w"
    and "ValidUTF8 jobID" and "ValidUTF8 requestDigest" and "ValidUTF8 resultDigest"
    and "holds_files root (w_files w')"
  shows "\<exists>known artifacts. open_seal root = Inr (m, known, artifacts)
    \<and> (\<forall>name. known_name name \<longrightarrow> map_of known name = map_option (\<lambda>raw. entry_of (name, raw)) (map_of (w_files w) name))
    \<and> artifacts = artifact_part (elems (man_Entries m))"
proof -
  note sealed = Seal_Inr [OF assms(1-5)]
  let ?es = "elems (man_Entries m)" and ?raw = "Encode Manifest_shape (Manifest_value m)"
  note dist = manifest_paths [OF conjunct1 [OF sealed]]
  have set_es: "set ?es = entry_of ` set (w_files w)" using sealed assms(2) by (auto simp: writer_ok_def)
  have good: "list_all entry_good ?es"
    using set_es assms(2) entry_of_good by (auto simp: list_all_iff writer_ok_def)
  have "set (map fst mandatoryEvidenceKinds) \<subseteq> ent_Path ` set ?es"
  proof -
    have "set required_entries \<subseteq> ent_Path ` set ?es"
      using sealed by (auto simp: ParseManifest_def result_simps ValidateManifest_def Let_def)
    moreover have "set (map fst mandatoryEvidenceKinds) \<subseteq> set required_entries" by code_simp
    ultimately show ?thesis by blast
  qed
  with good obtain known where c: "classifyManifest m = Inr (known, artifact_part ?es)"
    using classifyManifest_iff [OF dist] by blast
  have "map_of (keyed ?es) name = map_option (\<lambda>raw. entry_of (name, raw)) (map_of (w_files w) name)" for name
  proof -
    have "map_of (keyed ?es) name = map_of (keyed (w_entries w)) name"
      by (rule fun_cong [OF map_of_inject_set [THEN iffD2]]) (use dist sealed assms(2) in \<open>simp_all add: comp_def writer_ok_def image_image\<close>)
    also have "\<dots> = map_option (\<lambda>raw. entry_of (name, raw)) (map_of (w_files w) name)"
    proof -
      have "map_of (keyed (map entry_of fs)) name = map_option (\<lambda>raw. entry_of (name, raw)) (map_of fs name)" for fs
        by (induction fs) auto
      then show ?thesis using assms(2) by (simp add: writer_ok_def)
    qed
    finally show ?thesis .
  qed
  then have "\<forall>name. known_name name \<longrightarrow> map_of known name = map_option (\<lambda>raw. entry_of (name, raw)) (map_of (w_files w) name)"
    using classified_known [OF c dist] by simp
  moreover have "verifyClosedInventory root m = Inr ()"
  proof -
    have "parents ''manifest.json'' = []" by code_simp
    then show ?thesis
      using holds_nodes [OF assms(6)] sealed set_es closed_inventory [of root m] assms(6)
      by (simp add: holds_files_def image_image)
  qed
  moreover have "readRegular root ''manifest.json'' (int MaximumManifestBytes) = Inr ?raw"
    using holds_lookup [OF assms(6), of "''manifest.json''" ?raw] sealed
    by (auto simp: readRegular_Inr ParseManifest_def decode_def decode_bounds_def result_simps)
  ultimately show ?thesis using c sealed by (auto simp: open_seal_def)
qed

end
