(* ===== verification/Job_Stages.thy ===== *)
theory Job_Stages
  imports Job_Writer
begin

text \<open>
  What every stage of a run keeps: the identities of the result, a runtime identity that is either
  absent with a reason or backed by observations that verify, and egress evidence that is bound or absent.
\<close>

section \<open>The frame of a result\<close>

definition image_ok :: "plan_Result \<Rightarrow> bytes \<Rightarrow> bool" where
  "image_ok p found = (found = [] \<or> validRuntimeDigest found
     \<and> (case declared_digest (pw_Base (pl_World (rs_Plan p))) of None \<Rightarrow> True | Some d \<Rightarrow> found = d))"

definition frame :: "Request \<Rightarrow> bytes \<Rightarrow> plan_Result \<Rightarrow> bytes \<Rightarrow> Result \<Rightarrow> bool" where
  "frame q requestRaw p provenanceRaw r =
     (let i = res_Identity r in
      res_Schema r = ResultSchema \<and> res_JobID r = req_JobID q \<and> res_RequestSHA256 r = digest requestRaw
      \<and> res_EvidenceManifest r = ''manifest.json'' \<and> exe_DeclarationSHA256 i = bnd_SHA256 (req_Declaration q)
      \<and> exe_PlanSHA256 i = prefixedDigest (rs_EvidenceDigest p) \<and> exe_ImageReference i = pw_Base (pl_World (rs_Plan p))
      \<and> exe_ProvenanceSHA256 i = digest provenanceRaw \<and> 0 \<le> exe_Generation i \<and> exe_Generation i \<le> MaximumWireInteger
      \<and> exe_RuntimeProvider i \<in> {[], ''podman-cli''} \<and> image_ok p (exe_ImageDigest i)
      \<and> validateTarget (res_Target r) = Inr () \<and> res_Status r \<in> {''complete'', ''incomplete'', ''refused''}
      \<and> list_all ValidUTF8 (elems (res_Reasons r)))"

definition reason_names :: "bytes list" where
  "reason_names = [''RUNTIME_START_FAILED'', ''RUNTIME_START_OBSERVATION_FAILED'', ''TARGET_OBSERVATION_FAILED'', ''RUNTIME_OBSERVATION_INVALID'',
     ''FINALIZATION_FAILED'', ''UNREQUESTED_ARTIFACTS'', ''ARTIFACT_COLLECTION_FAILED'', ''CLEANUP_INCOMPLETE'', ''EGRESS_EVIDENCE_MISSING'',
     ''EGRESS_EVIDENCE_INVALID'', ''UNREQUESTED_EGRESS_EVIDENCE'', ''OUTPUT_TRUNCATED'', ''RUNTIME_IDENTITY_INCOMPLETE'']"

lemma reason_names_utf8: "list_all ValidUTF8 reason_names"
  by code_simp

lemma reason_name_utf8: "reason \<in> set reason_names \<Longrightarrow> ValidUTF8 reason"
  using reason_names_utf8 by (simp add: list_all_iff)

lemma set_appendReason [simp]: "set (elems (appendReason rs r)) = insert r (set (elems rs))"
  by (auto simp: appendReason_def)

lemma incomplete_simps [simp]:
  "res_Status (incomplete reason r) = ''incomplete''" "set (elems (res_Reasons (incomplete reason r))) = insert reason (set (elems (res_Reasons r)))"
  "res_Identity (incomplete reason r) = res_Identity r" "res_Target (incomplete reason r) = res_Target r"
  "res_Cleanup (incomplete reason r) = res_Cleanup r" "res_Finalization (incomplete reason r) = res_Finalization r"
  "res_Schema (incomplete reason r) = res_Schema r" "res_JobID (incomplete reason r) = res_JobID r"
  "res_RequestSHA256 (incomplete reason r) = res_RequestSHA256 r" "res_EvidenceManifest (incomplete reason r) = res_EvidenceManifest r"
  "res_Stdout (incomplete reason r) = res_Stdout r" "res_Stderr (incomplete reason r) = res_Stderr r"
  by (simp_all add: incomplete_def)

lemma with_identity_simps [simp]:
  "res_Status (with_identity f r) = res_Status r" "res_Reasons (with_identity f r) = res_Reasons r"
  "res_Identity (with_identity f r) = f (res_Identity r)" "res_Target (with_identity f r) = res_Target r"
  "res_Cleanup (with_identity f r) = res_Cleanup r" "res_Finalization (with_identity f r) = res_Finalization r"
  "res_Schema (with_identity f r) = res_Schema r" "res_JobID (with_identity f r) = res_JobID r"
  "res_RequestSHA256 (with_identity f r) = res_RequestSHA256 r" "res_EvidenceManifest (with_identity f r) = res_EvidenceManifest r"
  "res_Stdout (with_identity f r) = res_Stdout r" "res_Stderr (with_identity f r) = res_Stderr r"
  by (simp_all add: with_identity_def)

lemma frame_incomplete:
  assumes "frame q qr p vr r" and "reason \<in> set reason_names"
  shows "frame q qr p vr (incomplete reason r)"
  using assms reason_name_utf8 by (auto simp: frame_def Let_def list_all_iff)

lemma target_of_valid [simp]: "validateTarget (target_of ''unknown'') = Inr ()" "validateTarget (target_of ''not_started'') = Inr ()"
  by (simp_all add: validateTarget_def target_of_def)

lemma frame_initial: "frame q qr p vr (initial_result q qr p vr)"
  using reason_name_utf8 [of "''RUNTIME_START_FAILED''"]
  by (simp add: frame_def initial_result_def image_ok_def MaximumWireInteger_def reason_names_def)

section \<open>Runtime evidence\<close>

text \<open>What runtime verification reads of a result.\<close>

definition runtime_view :: "Result \<Rightarrow> bytes \<times> bytes \<times> int \<times> bytes \<times> bytes \<times> bytes" where
  "runtime_view r = (let i = res_Identity r in
     (exe_ImageReference i, exe_ImageDigest i, exe_Generation i, exe_PlanSHA256 i, exe_DeclarationSHA256 i, exe_RuntimeProvider i))"

lemma before_cong:
  "runtime_view r = runtime_view r' \<Longrightarrow> verifyRuntimeBeforeObservation b r q p v = verifyRuntimeBeforeObservation b r' q p v"
  by (simp add: verifyRuntimeBeforeObservation_def Let_def runtime_view_def)

lemma observations_cong:
  "runtime_view r = runtime_view r' \<Longrightarrow> verifyRuntimeObservations b a r q p v = verifyRuntimeObservations b a r' q p v"
  unfolding verifyRuntimeObservations_def using before_cong [of r r' b q p v] by simp

definition start_failures :: "bytes set" where
  "start_failures = {''RUNTIME_START_FAILED'', ''RUNTIME_START_OBSERVATION_FAILED'', ''RUNTIME_OBSERVATION_INVALID''}"

definition no_observation :: "run_state \<Rightarrow> bool" where
  "no_observation st =
     (let i = res_Identity (st_result st) in
      st_before st = [] \<and> st_after st = [] \<and> exe_RuntimeProvider i = [] \<and> exe_Generation i = 0 \<and> exe_ImageDigest i = []
      \<and> set (elems (res_Reasons (st_result st))) \<inter> start_failures \<noteq> {})"

definition observed :: "Request \<Rightarrow> plan_Result \<Rightarrow> Provenance \<Rightarrow> run_state \<Rightarrow> bool" where
  "observed q p v st =
     (\<exists>b. ParseRuntimeObservation (st_before st) = Inr b \<and> verifyRuntimeBeforeObservation b (st_result st) q p v = Inr ()
      \<and> (if st_after st = [] then res_Status (st_result st) \<noteq> ''complete'' \<and> ''FINALIZATION_FAILED'' \<in> set (elems (res_Reasons (st_result st)))
         else \<exists>a. ParseRuntimeObservation (st_after st) = Inr a \<and> verifyRuntimeObservations b a (st_result st) q p v = Inr ()))"

definition runtime_ok :: "Request \<Rightarrow> plan_Result \<Rightarrow> Provenance \<Rightarrow> run_state \<Rightarrow> bool" where
  "runtime_ok q p v st = (no_observation st \<or> observed q p v st)"

text \<open>Later stages only add reasons and lower the status.\<close>

definition weaker :: "Result \<Rightarrow> Result \<Rightarrow> bool" where
  "weaker r r' = (runtime_view r' = runtime_view r \<and> set (elems (res_Reasons r)) \<subseteq> set (elems (res_Reasons r'))
     \<and> (res_Status r' = ''complete'' \<longrightarrow> res_Status r = ''complete''))"

lemma weaker_refl [simp]: "weaker r r" by (simp add: weaker_def)

lemma weaker_trans: "weaker r s \<Longrightarrow> weaker s t \<Longrightarrow> weaker r t" by (auto simp: weaker_def)

lemma weaker_incomplete [simp]: "weaker r (incomplete reason r)"
  by (auto simp: weaker_def runtime_view_def)

lemma runtime_ok_weaker:
  assumes "runtime_ok q p v st" and "weaker (st_result st) (st_result st')" and "st_before st' = st_before st" and "st_after st' = st_after st"
  shows "runtime_ok q p v st'"
proof -
  have view: "runtime_view (st_result st') = runtime_view (st_result st)" using assms(2) by (simp add: weaker_def)
  note congs = before_cong [OF view] observations_cong [OF view]
  show ?thesis
  proof (cases "no_observation st")
    case True
    then have "no_observation st'"
      using assms by (auto simp: no_observation_def weaker_def runtime_view_def Let_def)
    then show ?thesis by (simp add: runtime_ok_def)
  next
    case False
    then have "observed q p v st'"
      using assms by (fastforce simp: runtime_ok_def observed_def congs weaker_def)
    then show ?thesis by (simp add: runtime_ok_def)
  qed
qed

section \<open>Starting\<close>

lemma start_runtime_ok: "start_runtime x = ((process, admitted, err), calls) \<Longrightarrow> err = [] \<Longrightarrow> process \<and> admitted"
  by (auto simp: start_runtime_def split: prod.splits if_splits)

lemma decode_not_empty: "ValidateJSONDocument raw n = Inr () \<Longrightarrow> raw \<noteq> []"
  by (auto simp: ValidateJSONDocument_def decode_bounds_def result_simps)

text \<open>The runtime that this executor is used with names itself.\<close>

definition podman_identity :: "runtime_run \<Rightarrow> bool" where
  "podman_identity x = (case x_identity x of Returned (identity, _) _ \<Rightarrow> id_Provider identity = ''podman-cli'' | Expired \<Rightarrow> True)"

definition started :: "Request \<Rightarrow> plan_Result \<Rightarrow> run_state \<Rightarrow> bool" where
  "started q p st = (exe_RuntimeProvider (res_Identity (st_result st)) = ''podman-cli'' \<and> st_before st \<noteq> [])"

definition fresh :: "evidenceWriter \<Rightarrow> run_state \<Rightarrow> bool" where
  "fresh w st = (st_after st = [] \<and> st_egress st = [] \<and> st_writer st = w \<and> exe_EgressSHA256 (res_Identity (st_result st)) = []
     \<and> res_Status (st_result st) \<noteq> ''complete'')"

definition start_state :: "Request \<Rightarrow> bytes \<Rightarrow> plan_Result \<Rightarrow> bytes \<Rightarrow> evidenceWriter \<Rightarrow> runtime_call list \<Rightarrow> run_state" where
  "start_state q qr p vr w calls =
     \<lparr>st_result = initial_result q qr p vr, st_before = [], st_after = [], st_egress = [], st_writer = w, st_calls = calls\<rparr>"

lemma validate_identity_iff:
  "validateRuntimeIdentity i p = Inr () \<longleftrightarrow> 1 \<le> id_Generation i \<and> id_Generation i \<le> MaximumWireInteger
     \<and> id_ImageReference i = pw_Base (pl_World (rs_Plan p)) \<and> validRuntimeDigest (id_ImageDigest i) \<and> image_ok p (id_ImageDigest i)"
proof -
  have "validRuntimeDigest d \<Longrightarrow> d \<noteq> []" for d by (auto simp: validRuntimeDigest_def)
  then show ?thesis
    by (cases "declared_digest (pw_Base (pl_World (rs_Plan p)))")
      (auto simp: validateRuntimeIdentity_def Let_def image_ok_def result_simps)
qed

lemma admitted_failure:
  assumes "observe_identity x p err (start_state q qr p vr w calls) = (startErr, st)" and "startErr \<noteq> []" and "admitted"
  shows "frame q qr p vr (st_result (settle_admitted admitted startErr st)) \<and> fresh w (settle_admitted admitted startErr st)
    \<and> no_observation (settle_admitted admitted startErr st)"
proof -
  have utf8: "ValidUTF8 ''RUNTIME_START_OBSERVATION_FAILED''" by (rule reason_name_utf8) (simp add: reason_names_def)
  show ?thesis
    using assms utf8
    by (auto simp: observe_identity_def settle_admitted_def start_state_def Let_def frame_def fresh_def no_observation_def
        initial_result_def no_runtime_def start_failures_def image_ok_def MaximumWireInteger_def split: prod.splits if_splits)
qed

lemma unadmitted_failure:
  assumes "observe_identity x p err (start_state q qr p vr w calls) = (startErr, st)" and "err \<noteq> []"
  shows "frame q qr p vr (st_result (settle_admitted False startErr st)) \<and> fresh w (settle_admitted False startErr st)
    \<and> no_observation (settle_admitted False startErr st)"
  using assms frame_initial [of q qr p vr]
  by (auto simp: observe_identity_def settle_admitted_def start_state_def fresh_def no_observation_def initial_result_def start_failures_def)

lemma start_success:
  assumes "observe_identity x p [] (start_state q qr p vr w calls) = ([], st)" and "podman_identity x"
  shows "frame q qr p vr (st_result st) \<and> fresh w st \<and> started q p st"
proof -
  obtain identity where i: "x_identity x = Returned (identity, []) False" "identityProcessBounded (x_identity x) = (identity, [])"
    and doc: "ValidateJSONDocument (id_Before identity) MaximumManifestBytes = Inr ()" and v: "validateRuntimeIdentity identity p = Inr ()"
    and st: "st = (start_state q qr p vr w calls)\<lparr>st_result := with_identity (\<lambda>i. i\<lparr>exe_Generation := id_Generation identity,
        exe_RuntimeProvider := id_Provider identity, exe_ImageDigest := id_ImageDigest identity\<rparr>) (initial_result q qr p vr),
        st_before := id_Before identity, st_calls := calls @ [CallIdentity]\<rparr>"
    using assms(1)
    by (auto simp: observe_identity_def identityProcessBounded_def Let_def start_state_def validate_identity_iff split: bounded.splits prod.splits if_splits)
  have "id_Provider identity = ''podman-cli''" using assms(2) i by (simp add: podman_identity_def)
  then show ?thesis
    using frame_initial [of q qr p vr] v decode_not_empty [OF doc]
    by (simp add: st frame_def fresh_def started_def start_state_def validate_identity_iff Let_def)
      (simp add: initial_result_def)
qed

lemma start_stage:
  assumes "start_runtime x = ((process, admitted, err), calls)"
    and "observe_identity x p err (start_state q qr p vr w calls) = (startErr, st)" and "podman_identity x"
  shows "frame q qr p vr (st_result (settle_admitted admitted startErr st)) \<and> fresh w (settle_admitted admitted startErr st)
    \<and> (if startErr = [] then started q p (settle_admitted admitted startErr st) else no_observation (settle_admitted admitted startErr st))"
proof (cases "startErr = []")
  case True
  then have "err = []" using assms(2) by (auto simp: observe_identity_def split: prod.splits if_splits)
  then show ?thesis using True assms(2,3) start_success by (simp add: settle_admitted_def)
next
  case False
  show ?thesis
  proof (cases admitted)
    case True
    then show ?thesis using admitted_failure [OF assms(2) False, of admitted] False by simp
  next
    case unadmitted: False
    then have "err \<noteq> []" using start_runtime_ok [OF assms(1)] by blast
    then show ?thesis using unadmitted_failure [OF assms(2)] unadmitted False by simp
  qed
qed

section \<open>Waiting and finalizing\<close>

lemma target_stage:
  assumes "frame q qr p vr (st_result st)" and "started q p st"
  shows "frame q qr p vr (st_result (observe_target x st)) \<and> started q p (observe_target x st)
    \<and> exe_EgressSHA256 (res_Identity (st_result (observe_target x st))) = exe_EgressSHA256 (res_Identity (st_result st))
    \<and> st_writer (observe_target x st) = st_writer st"
proof -
  have "ValidUTF8 ''TARGET_OBSERVATION_FAILED''" by (rule reason_name_utf8) (simp add: reason_names_def)
  then show ?thesis
    using assms by (auto simp: observe_target_def Let_def frame_def started_def ValidateTargetResult_def split: prod.splits)
qed

lemma observation_failed_iff:
  "\<not> observation_failed r q p v before after \<longleftrightarrow>
     (\<exists>b. ParseRuntimeObservation before = Inr b \<and> verifyRuntimeBeforeObservation b r q p v = Inr ()
      \<and> (after = [] \<or> (\<exists>a. ParseRuntimeObservation after = Inr a \<and> verifyRuntimeObservations b a r q p v = Inr ())))"
  by (auto simp: observation_failed_def verifyRuntimeObservations_def result_simps split: sum.splits)

lemma finalize_stage:
  assumes "finalize_runtime x q p v st = ((final, finalErr), st')"
    and "frame q qr p vr (st_result st)" and "started q p st"
  shows "frame q qr p vr (st_result st') \<and> runtime_ok q p v st' \<and> st_writer st' = st_writer st
    \<and> exe_EgressSHA256 (res_Identity (st_result st')) = exe_EgressSHA256 (res_Identity (st_result st))
    \<and> res_Finalization (st_result st') = interval (x_finalStarted x) (x_finalFinished x) (x_finalElapsed x)"
proof -
  define r where "r = (st_result st)\<lparr>res_Finalization := interval (x_finalStarted x) (x_finalFinished x) (x_finalElapsed x)\<rparr>"
  have r: "frame q qr p vr r" "exe_RuntimeProvider (res_Identity r) = ''podman-cli''" "res_Identity r = res_Identity (st_result st)"
    using assms(2,3) by (simp_all add: r_def frame_def started_def Let_def)
  obtain err where f: "(final, err) = (if x_joinWait x = [] then finalizeProcessBounded (x_finalize x) else (no_finalization, x_joinWait x))"
    using assms(1) by (auto simp: finalize_runtime_def Let_def split: prod.splits if_splits)
  define invalid where "invalid = observation_failed r q p v (st_before st) (fz_After final)"
  define finalErr0 where "finalErr0 = err @ (if is_ok (ValidateJSONDocument (fz_After final) MaximumManifestBytes) then [] else [CallFailed])"
  define r1 where "r1 = (if invalid then with_identity no_runtime (r\<lparr>res_Reasons := appendReason (res_Reasons r) ''RUNTIME_OBSERVATION_INVALID''\<rparr>) else r)"
  have fe: "finalErr = (if invalid then [CallFailed] else finalErr0)"
    and st': "st_result st' = (if finalErr \<noteq> [] then incomplete ''FINALIZATION_FAILED'' r1 else r1)"
    "st_before st' = (if invalid then [] else st_before st)" "st_after st' = (if invalid then [] else fz_After final)"
    "st_writer st' = st_writer st"
    using assms(1) r(2) unfolding finalize_runtime_def Let_def f [symmetric] r_def [symmetric]
    by (auto simp: invalid_def finalErr0_def r1_def)
  have "frame q qr p vr r1"
    using r(1) reason_name_utf8 [of "''RUNTIME_OBSERVATION_INVALID''"]
    by (auto simp: r1_def frame_def Let_def no_runtime_def image_ok_def MaximumWireInteger_def list_all_iff reason_names_def)
  then have "frame q qr p vr (st_result st')"
    using frame_incomplete [of q qr p vr r1 "''FINALIZATION_FAILED''"] st'(1) by (simp add: reason_names_def)
  moreover have "runtime_ok q p v st'"
  proof (cases invalid)
    case True
    then have "no_observation st'"
      by (auto simp: no_observation_def st' r1_def no_runtime_def start_failures_def Let_def)
    then show ?thesis by (simp add: runtime_ok_def)
  next
    case False
    have view: "runtime_view (st_result st') = runtime_view r" using False st' by (simp add: r1_def runtime_view_def)
    have "fz_After final = [] \<Longrightarrow> finalErr \<noteq> []"
      using decode_not_empty fe False by (auto simp: finalErr0_def)
    then have "observed q p v st'"
      using False observation_failed_iff [of r q p v "st_before st" "fz_After final"]
      unfolding observed_def before_cong [OF view] observations_cong [OF view] by (auto simp: st' invalid_def)
    then show ?thesis by (simp add: runtime_ok_def)
  qed
  moreover have "exe_EgressSHA256 (res_Identity (st_result st')) = exe_EgressSHA256 (res_Identity (st_result st))"
    "res_Finalization (st_result st') = interval (x_finalStarted x) (x_finalFinished x) (x_finalElapsed x)"
    using st' r(3) by (simp_all add: r1_def no_runtime_def r_def)
  ultimately show ?thesis using st'(4) by blast
qed

section \<open>Artifacts\<close>

text \<open>What the writer holds after the artifacts: the inventory document and the files it lists.\<close>

definition artifacts_stored :: "Request \<Rightarrow> evidenceWriter \<Rightarrow> evidenceWriter \<Rightarrow> bool" where
  "artifacts_stored q w w' = (case req_Artifacts q of
     None \<Rightarrow> w' = w
   | Some a \<Rightarrow> (\<exists>fs. collected a [] 0 fs \<and> int (length fs) \<le> art_MaxEntries a \<and> w_files w' = w_files w @ map stored fs
       @ [(''target-inventory.json'', Encode artifactInventory_shape (artifactInventory_value
            \<lparr>inv_Schema = inventory_schema, inv_Root = art_ContainerRoot a, inv_Entries = Some (map inventory_of fs)\<rparr>))]))"

definition inventory_fits :: "evidenceWriter \<Rightarrow> bool" where
  "inventory_fits w = list_all (\<lambda>(name, raw). name = ''target-inventory.json'' \<longrightarrow> length raw \<le> MaximumManifestBytes) (w_files w)"

lemma inventory_stage:
  assumes "write_inventory fails \<lparr>inv_Schema = inventory_schema, inv_Root = art_ContainerRoot a, inv_Entries = Some (map inventory_of fs)\<rparr> st = Inr st'"
    and "writer_ok (st_writer st)" and "w_files (st_writer st) = w_files w @ map stored fs" and "req_Artifacts q = Some a"
    and "collected a [] 0 fs" and "int (length fs) \<le> art_MaxEntries a" and "inventory_fits (st_writer st')"
  shows "writer_ok (st_writer st') \<and> artifacts_stored q w (st_writer st') \<and> st_result st' = st_result st \<and> st_before st' = st_before st
    \<and> st_after st' = st_after st \<and> st_egress st' = st_egress st"
proof -
  let ?raw = "Encode artifactInventory_shape (artifactInventory_value
    \<lparr>inv_Schema = inventory_schema, inv_Root = art_ContainerRoot a, inv_Entries = Some (map inventory_of fs)\<rparr>)"
  obtain w' where w': "evidence_Write fails ''target-inventory.json'' ''target_inventory'' ?raw (st_writer st) = Inr w'"
    and st': "st' = st\<lparr>st_writer := w'\<rparr>"
    using assms(1) by (auto simp: write_inventory_def result_simps)
  have files: "w_files w' = w_files (st_writer st) @ [(''target-inventory.json'', ?raw)]"
    using w' by (simp add: evidence_Write_iff)
  then have "length ?raw \<le> MaximumManifestBytes" using assms(7) st' by (simp add: inventory_fits_def)
  then have "int (length ?raw) \<le> MaximumWireInteger" by (simp add: MaximumManifestBytes_def MaximumWireInteger_def)
  moreover have "map_of known_kinds ''target-inventory.json'' = Some ''target_inventory''" by code_simp
  ultimately have "writer_ok w'" using writer_Write [OF w' assms(2)] by simp
  then show ?thesis
    using files st' assms(3-6) by (auto simp: artifacts_stored_def)
qed

text \<open>A stage that adds the artifacts to the writer and at most lowers the status of the result.\<close>

definition artifact_step :: "Request \<Rightarrow> run_state \<Rightarrow> run_state \<Rightarrow> bool" where
  "artifact_step q st st' =
     (writer_ok (st_writer st') \<and> artifacts_stored q (st_writer st) (st_writer st') \<and> st_before st' = st_before st \<and> st_after st' = st_after st
      \<and> st_egress st' = st_egress st \<and> (st_result st' = st_result st \<or> (\<exists>reason\<in>set reason_names. st_result st' = incomplete reason (st_result st))))"

lemma collected_none: "artifacts_ok a \<Longrightarrow> collected a [] 0 [] \<and> 0 \<le> art_MaxEntries a"
  by (simp add: collected_def artifacts_ok_def)

lemma artifacts_ok_bounds: "artifacts_ok a \<Longrightarrow> 0 \<le> art_MaxBytes a \<and> art_MaxBytes a \<le> MaximumWireInteger"
  by (simp add: artifacts_ok_def maximumArtifactBytes_def MaximumWireInteger_def)

lemma write_then_inventory:
  assumes "WriteArtifacts fails a as (st_writer st) = (Inr inventory, w)" and "write_inventory fails inventory (st\<lparr>st_writer := w\<rparr>) = Inr st'"
    and "req_Artifacts q = Some a" and "artifacts_ok a" and "writer_ok (st_writer st)" and "inventory_fits (st_writer st')"
  shows "artifact_step q st st'"
proof -
  obtain fs where fs: "collected a [] 0 fs" "int (length fs) \<le> art_MaxEntries a"
    "inventory = \<lparr>inv_Schema = inventory_schema, inv_Root = art_ContainerRoot a, inv_Entries = Some (map inventory_of fs)\<rparr>"
    "w_files w = w_files (st_writer st) @ map stored fs" "writer_ok w"
    using WriteArtifacts_Inr [OF assms(1,5)] artifacts_ok_bounds [OF assms(4)] by blast
  show ?thesis
    using inventory_stage [OF assms(2) [unfolded fs(3)], of "st_writer st" q] fs assms(3,6) by (auto simp: artifact_step_def)
qed

lemma collect_stage:
  assumes "collect_artifacts fails q final finalErr st = Inr st'" and "writer_ok (st_writer st)" and "no_artifacts (st_writer st)"
    and "case req_Artifacts q of None \<Rightarrow> True | Some a \<Rightarrow> artifacts_ok a" and "inventory_fits (st_writer st')"
  shows "artifact_step q st st'"
proof (cases "req_Artifacts q")
  case None
  then show ?thesis
    using assms(1,2)
    by (auto simp: collect_artifacts_def artifact_step_def artifacts_stored_def reason_names_def split: if_splits)
next
  case (Some a)
  then have a: "artifacts_ok a" using assms(4) by simp
  obtain r w where r: "WriteArtifacts fails a (if finalErr \<noteq> [] then [] else fz_Artifacts final) (st_writer st) = (r, w)" by force
  show ?thesis
  proof (cases r)
    case (Inr inventory)
    then show ?thesis
      using write_then_inventory [of fails a _ st inventory w st' q] r assms(1,2,5) Some a by (auto simp: collect_artifacts_def)
  next
    case (Inl e)
    then have w: "w = st_writer st" using WriteArtifacts_Inl r assms(3) by blast
    let ?st = "st\<lparr>st_writer := w, st_result := incomplete ''ARTIFACT_COLLECTION_FAILED'' (st_result st)\<rparr>"
    have "write_inventory fails \<lparr>inv_Schema = inventory_schema, inv_Root = art_ContainerRoot a, inv_Entries = Some (map inventory_of [])\<rparr> ?st = Inr st'"
      using assms(1) Some r Inl by (simp add: collect_artifacts_def empty_inventory_def split: if_splits)
    from inventory_stage [OF this, of "st_writer st" q]
    have "writer_ok (st_writer st')" "artifacts_stored q (st_writer st) (st_writer st')" "st_result st' = st_result ?st"
      "st_before st' = st_before ?st" "st_after st' = st_after ?st" "st_egress st' = st_egress ?st"
      using assms(2,5) w Some collected_none [OF a] by simp_all
    then show ?thesis by (auto simp: artifact_step_def reason_names_def)
  qed
qed

lemma absent_stage:
  assumes "absent_artifacts fails q st = Inr st'" and "writer_ok (st_writer st)"
    and "case req_Artifacts q of None \<Rightarrow> True | Some a \<Rightarrow> artifacts_ok a" and "inventory_fits (st_writer st')"
  shows "artifact_step q st st'"
proof (cases "req_Artifacts q")
  case None
  then show ?thesis using assms(1,2) by (auto simp: absent_artifacts_def artifact_step_def artifacts_stored_def)
next
  case (Some a)
  obtain r w where r: "WriteArtifacts fails a [] (st_writer st) = (r, w)" by force
  then show ?thesis
    using write_then_inventory [of fails a "[]" st _ w st' q] assms Some
    by (cases r) (auto simp: absent_artifacts_def)
qed

lemma artifact_step_keeps:
  assumes "artifact_step q st st'" and "frame q qr p vr (st_result st)" and "runtime_ok q p v st"
  shows "frame q qr p vr (st_result st') \<and> runtime_ok q p v st'
    \<and> exe_EgressSHA256 (res_Identity (st_result st')) = exe_EgressSHA256 (res_Identity (st_result st))
    \<and> res_Finalization (st_result st') = res_Finalization (st_result st)"
proof -
  have "weaker (st_result st) (st_result st')" using assms(1) by (auto simp: artifact_step_def)
  then have "runtime_ok q p v st'" using runtime_ok_weaker [OF assms(3)] assms(1) by (simp add: artifact_step_def)
  then show ?thesis using assms(1,2) frame_incomplete by (auto simp: artifact_step_def)
qed

section \<open>The observed run\<close>

definition request_artifacts_ok :: "Request \<Rightarrow> bool" where
  "request_artifacts_ok q = (case req_Artifacts q of None \<Rightarrow> True | Some a \<Rightarrow> artifacts_ok a)"

lemma failed_finalization:
  assumes "frame q qr p vr (st_result st)" and "no_observation st"
  shows "frame q qr p vr (st_result st\<lparr>res_Finalization := f\<rparr>) \<and> no_observation (st\<lparr>st_result := st_result st\<lparr>res_Finalization := f\<rparr>\<rparr>)"
  using assms by (simp add: frame_def no_observation_def Let_def)

lemma run_stage:
  assumes "observe_run fails x q p v startErr st = (Inr st', calls)"
    and "frame q qr p vr (st_result st)" and "fresh w st" and "if startErr = [] then started q p st else no_observation st"
    and "writer_ok w" and "no_artifacts w" and "request_artifacts_ok q" and "inventory_fits (st_writer st')"
  shows "frame q qr p vr (st_result st') \<and> runtime_ok q p v st' \<and> exe_EgressSHA256 (res_Identity (st_result st')) = []
    \<and> writer_ok (st_writer st') \<and> artifacts_stored q w (st_writer st')
    \<and> (\<exists>a b d. res_Finalization (st_result st') = interval a b d)
    \<and> (startErr \<noteq> [] \<longrightarrow> st_egress st' = [] \<and> no_observation st' \<and> res_Status (st_result st') \<noteq> ''complete'')"
proof (cases "startErr = []")
  case True
  obtain final finalErr st1 where f: "finalize_runtime x q p v (observe_target x st) = ((final, finalErr), st1)"
    by (metis prod.collapse)
  then have c: "collect_artifacts fails q final finalErr st1 = Inr st'" using assms(1) True by (simp add: observe_run_def)
  note t = target_stage [OF assms(2), of x]
  have st: "started q p st" using assms(4) True by simp
  note s1 = finalize_stage [OF f, of qr vr] t [OF st]
  have w: "st_writer st1 = w" using s1 assms(3) by (simp add: fresh_def)
  have "artifact_step q st1 st'"
    using collect_stage [OF c] assms(5-8) w by (simp add: request_artifacts_ok_def)
  then show ?thesis
    using artifact_step_keeps [of q st1 st' qr p vr v] s1 w assms(3) True by (auto simp: artifact_step_def fresh_def)
next
  case False
  let ?st = "st\<lparr>st_result := st_result st\<lparr>res_Finalization := interval (x_now x) (x_now x) 0\<rparr>\<rparr>"
  have c: "absent_artifacts fails q ?st = Inr st'" using assms(1) False by (simp add: observe_run_def)
  have none: "frame q qr p vr (st_result ?st)" "no_observation ?st"
    using failed_finalization [of q qr p vr st] assms(2,4) False by simp_all
  have step: "artifact_step q ?st st'"
    using absent_stage [OF c] assms(3,5,7,8) by (simp add: request_artifacts_ok_def fresh_def)
  moreover have "no_observation st'"
    using step none(2) by (auto simp: artifact_step_def no_observation_def Let_def)
  ultimately show ?thesis
    using artifact_step_keeps [OF step none(1), of v] none assms(3)
    by (auto simp: runtime_ok_def artifact_step_def fresh_def)
qed

section \<open>Cleanup and egress\<close>

lemma boundedDuration_range: "0 \<le> boundedDuration d \<and> boundedDuration d \<le> MaximumWireInteger"
  by (simp add: boundedDuration_def MaximumWireInteger_def)

lemma incomplete_cleanup_valid:
  "validateCleanup (incomplete_cleanup ''CLEANUP_DEADLINE_EXCEEDED'' d) = Inr ()" "validateCleanup (incomplete_cleanup ''CLEANUP_OBSERVATION_INVALID'' d) = Inr ()"
proof -
  have "validReasons [''CLEANUP_DEADLINE_EXCEEDED'']" "validReasons [''CLEANUP_OBSERVATION_INVALID'']" by code_simp+
  then show "validateCleanup (incomplete_cleanup ''CLEANUP_DEADLINE_EXCEEDED'' d) = Inr ()" "validateCleanup (incomplete_cleanup ''CLEANUP_OBSERVATION_INVALID'' d) = Inr ()"
    using boundedDuration_range [of d] by (simp_all add: validateCleanup_def incomplete_cleanup_def not_less)
qed

lemma cleanup_valid: "observe_cleanup x process = (c, calls) \<Longrightarrow> validateCleanup c = Inr ()"
  using incomplete_cleanup_valid by (auto simp: observe_cleanup_def Let_def ValidateCleanupResult_def split: prod.splits if_splits)

lemma settle_cleanup_simps [simp]:
  "res_Cleanup (settle_cleanup c r) = c" "res_Identity (settle_cleanup c r) = res_Identity r" "res_Target (settle_cleanup c r) = res_Target r"
  "res_Finalization (settle_cleanup c r) = res_Finalization r"
  by (simp_all add: settle_cleanup_def Let_def)

lemma settle_cleanup_weaker: "weaker r (settle_cleanup c r)"
  by (auto simp: settle_cleanup_def Let_def weaker_def runtime_view_def)

lemma frame_cleanup: "frame q qr p vr r \<Longrightarrow> frame q qr p vr (settle_cleanup c r)"
proof -
  assume "frame q qr p vr r"
  then have "frame q qr p vr (r\<lparr>res_Cleanup := c\<rparr>)" by (simp add: frame_def Let_def)
  then show ?thesis using frame_incomplete by (simp add: settle_cleanup_def Let_def reason_names_def)
qed

definition egress_ok :: "(bytes \<Rightarrow> bytes) \<Rightarrow> plan_Result \<Rightarrow> run_state \<Rightarrow> bool" where
  "egress_ok uni p st =
     (let r = st_result st; bound = exe_EgressSHA256 (res_Identity r) in
      if st_egress st = [] then bound = [] \<and> (elems (pl_NetworkAllow (rs_Plan p)) = [] \<or> res_Status r \<noteq> ''complete'')
      else elems (pl_NetworkAllow (rs_Plan p)) \<noteq> [] \<and> bound = digest (st_egress st)
        \<and> (\<exists>e b. ParseEgressEvidence (st_egress st) = Inr e \<and> ParseRuntimeObservation (st_before st) = Inr b
             \<and> verifyEgressEvidence uni e p r b = Inr ()))"

lemma egress_cong:
  assumes "verifyEgressEvidence uni e p r b = Inr ()" and "exe_Generation (res_Identity r') = exe_Generation (res_Identity r)"
    and "res_Cleanup r' = res_Cleanup r" and "res_Target r' = res_Target r" and "res_Finalization r' = res_Finalization r"
    and "res_Status r' = ''complete'' \<longrightarrow> res_Status r = ''complete''"
  shows "verifyEgressEvidence uni e p r' b = Inr ()"
proof -
  have "egress_boundaries e r' = egress_boundaries e r" using assms(4,5) by (simp add: egress_boundaries_def)
  then show ?thesis
    using assms(1-4,6) by (auto simp: verifyEgressEvidence_def Let_def result_simps split: option.splits if_splits)
qed

lemma egress_stage:
  fixes uni :: "bytes \<Rightarrow> bytes"
  assumes "frame q qr p vr (st_result st)" and "runtime_ok q p v st" and "exe_EgressSHA256 (res_Identity (st_result st)) = []"
  defines "st' \<equiv> settle_egress uni p st"
  shows "frame q qr p vr (st_result st') \<and> runtime_ok q p v st' \<and> egress_ok uni p st' \<and> st_writer st' = st_writer st
    \<and> res_Finalization (st_result st') = res_Finalization (st_result st) \<and> res_Cleanup (st_result st') = res_Cleanup (st_result st)
    \<and> (st_egress st = [] \<longrightarrow> st_egress st' = []) \<and> weaker (st_result st) (st_result st')
    \<and> st_before st' = st_before st \<and> st_after st' = st_after st"
proof -
  let ?r = "st_result st" and ?raw = "st_egress st"
  let ?bound = "with_identity (\<lambda>i. i\<lparr>exe_EgressSHA256 := digest ?raw\<rparr>) ?r"
  consider (bound) e b where "elems (pl_NetworkAllow (rs_Plan p)) \<noteq> []" "?raw \<noteq> []" "ParseEgressEvidence ?raw = Inr e"
      "ParseRuntimeObservation (st_before st) = Inr b" "verifyEgressEvidence uni e p ?r b = Inr ()" "st' = st\<lparr>st_result := ?bound\<rparr>"
    | (refused) reason where "reason \<in> set reason_names" "st' = st\<lparr>st_result := incomplete reason ?r, st_egress := []\<rparr>"
    | (same) "elems (pl_NetworkAllow (rs_Plan p)) = []" "?raw = []" "st' = st"
  proof -
    show thesis
    proof (cases "elems (pl_NetworkAllow (rs_Plan p)) = []")
      case True
      then show thesis
        using that(2) [of "''UNREQUESTED_EGRESS_EVIDENCE''"] that(3)
        by (cases "?raw = []") (simp_all add: st'_def settle_egress_def reason_names_def)
    next
      case network: False
      show thesis
      proof (cases "?raw = []")
        case True
        then have "st' = st\<lparr>st_result := incomplete ''EGRESS_EVIDENCE_MISSING'' ?r, st_egress := []\<rparr>"
          using network by (simp add: st'_def settle_egress_def)
        then show thesis by (rule that(2) [rotated]) (simp add: reason_names_def)
      next
        case False
        have "(\<exists>e b. ParseEgressEvidence ?raw = Inr e \<and> ParseRuntimeObservation (st_before st) = Inr b
            \<and> verifyEgressEvidence uni e p ?r b = Inr () \<and> st' = st\<lparr>st_result := ?bound\<rparr>)
          \<or> st' = st\<lparr>st_result := incomplete ''EGRESS_EVIDENCE_INVALID'' ?r, st_egress := []\<rparr>"
          using network False by (auto simp: st'_def settle_egress_def Let_def split: sum.splits)
        then show thesis using that(1,2) network False by (auto simp: reason_names_def)
      qed
    qed
  qed
  then show ?thesis
  proof cases
    case bound
    have "weaker ?r ?bound" by (simp add: weaker_def runtime_view_def Let_def)
    moreover have "frame q qr p vr ?bound" using assms(1) by (simp add: frame_def Let_def)
    moreover have "verifyEgressEvidence uni e p ?bound b = Inr ()" by (rule egress_cong [OF bound(5)]) simp_all
    ultimately show ?thesis
      using runtime_ok_weaker [OF assms(2), of st'] bound by (simp add: egress_ok_def Let_def)
  next
    case refused
    then show ?thesis
      using runtime_ok_weaker [OF assms(2), of st'] frame_incomplete [OF assms(1)] assms(3) by (simp add: egress_ok_def)
  next
    case same
    then show ?thesis using assms by (simp add: egress_ok_def)
  qed
qed

section \<open>The settled result\<close>

definition settled :: "(bytes \<Rightarrow> bytes) \<Rightarrow> Request \<Rightarrow> bytes \<Rightarrow> plan_Result \<Rightarrow> Provenance \<Rightarrow> bytes \<Rightarrow> run_state \<Rightarrow> bool" where
  "settled uni q qr p v vr st =
     (frame q qr p vr (st_result st) \<and> runtime_ok q p v st \<and> egress_ok uni p st \<and> validateCleanup (res_Cleanup (st_result st)) = Inr ()
      \<and> (\<exists>a b d. res_Finalization (st_result st) = interval a b d))"

lemma settle_start_stage:
  assumes "settled uni q qr p v vr st" and "startErr \<noteq> [] \<longrightarrow> st_egress st = [] \<and> no_observation st"
  shows "settled uni q qr p v vr (st\<lparr>st_result := settle_start startErr admitted (st_result st)\<rparr>)"
proof (cases "startErr \<noteq> [] \<and> cln_Status (res_Cleanup (st_result st)) = ''complete''")
  case False
  then have "settle_start startErr admitted (st_result st) = st_result st" unfolding settle_start_def by (simp only: if_False)
  then show ?thesis using assms(1) by simp
next
  case True
  have "ValidUTF8 ''RUNTIME_START_OBSERVATION_FAILED''" "ValidUTF8 ''RUNTIME_START_FAILED''"
    by (rule reason_name_utf8, simp add: reason_names_def)+
  then show ?thesis
    using True assms
    by (auto simp: settled_def settle_start_def frame_def runtime_ok_def no_observation_def egress_ok_def Let_def start_failures_def)
qed

text \<open>From the observed run to the state that is published.\<close>

definition final_state :: "(bytes \<Rightarrow> bytes) \<Rightarrow> plan_Result \<Rightarrow> CleanupResult \<Rightarrow> errs \<Rightarrow> bool \<Rightarrow> run_state \<Rightarrow> run_state" where
  "final_state uni p c startErr admitted st =
     (let st3 = settle_egress uni p (st\<lparr>st_result := settle_cleanup c (st_result st)\<rparr>)
      in st3\<lparr>st_result := settle_start startErr admitted (st_result st3)\<rparr>)"

lemma final_state_writer [simp]: "st_writer (final_state uni p c startErr admitted st) = st_writer st"
  by (auto simp: final_state_def settle_egress_def Let_def split: sum.splits)

lemma final_state_settled:
  assumes "frame q qr p vr (st_result st)" and "runtime_ok q p v st" and "exe_EgressSHA256 (res_Identity (st_result st)) = []"
    and "\<exists>a b d. res_Finalization (st_result st) = interval a b d" and "validateCleanup c = Inr ()"
    and "startErr \<noteq> [] \<longrightarrow> st_egress st = [] \<and> no_observation st"
  shows "settled uni q qr p v vr (final_state uni p c startErr admitted st)"
proof -
  define st2 where "st2 = st\<lparr>st_result := settle_cleanup c (st_result st)\<rparr>"
  define st3 where "st3 = settle_egress uni p st2"
  have s2: "frame q qr p vr (st_result st2)" "runtime_ok q p v st2" "exe_EgressSHA256 (res_Identity (st_result st2)) = []"
    using frame_cleanup [OF assms(1)] runtime_ok_weaker [OF assms(2), of st2] settle_cleanup_weaker assms(3) by (simp_all add: st2_def)
  note s3 = egress_stage [OF s2, of uni, folded st3_def]
  have "settled uni q qr p v vr st3"
    using s3 assms(4,5) by (simp add: settled_def st2_def)
  moreover have "startErr \<noteq> [] \<longrightarrow> st_egress st3 = [] \<and> no_observation st3"
  proof
    assume "startErr \<noteq> []"
    then have none: "no_observation st" "st_egress st2 = []" using assms(6) by (simp_all add: st2_def)
    have "weaker (st_result st) (st_result st3)"
      using s3 settle_cleanup_weaker [of "st_result st" c] weaker_trans by (fastforce simp: st2_def)
    then have "no_observation st3"
      using none(1) s3 by (auto simp: no_observation_def weaker_def runtime_view_def Let_def st2_def)
    then show "st_egress st3 = [] \<and> no_observation st3" using s3 none(2) by blast
  qed
  ultimately show ?thesis
    using settle_start_stage by (simp add: final_state_def Let_def st3_def st2_def)
qed

text \<open>The stages of an execution that publishes.\<close>

definition executed :: "(bytes \<Rightarrow> bool) \<Rightarrow> runtime_run \<Rightarrow> Request \<Rightarrow> bytes \<Rightarrow> plan_Result \<Rightarrow> Provenance \<Rightarrow> bytes \<Rightarrow> evidenceWriter
    \<Rightarrow> bool \<Rightarrow> errs \<Rightarrow> run_state \<Rightarrow> CleanupResult \<Rightarrow> bool" where
  "executed fails x q qr p v vr w admitted startErr st c =
     (\<exists>process err calls0 st0 calls1. start_runtime x = ((process, admitted, err), calls0)
       \<and> observe_identity x p err (start_state q qr p vr w calls0) = (startErr, st0)
       \<and> observe_run fails x q p v startErr (settle_admitted admitted startErr st0) = (Inr st, calls1)
       \<and> c = fst (observe_cleanup x process))"

lemma executed_settled:
  assumes "executed fails x q qr p v vr w admitted startErr st c" and "podman_identity x" and "writer_ok w" and "no_artifacts w"
    and "request_artifacts_ok q" and "inventory_fits (st_writer st)"
  shows "settled uni q qr p v vr (final_state uni p c startErr admitted st) \<and> writer_ok (st_writer st) \<and> artifacts_stored q w (st_writer st)"
proof -
  obtain process err calls0 st0 calls1 where s: "start_runtime x = ((process, admitted, err), calls0)"
    and i: "observe_identity x p err (start_state q qr p vr w calls0) = (startErr, st0)"
    and r: "observe_run fails x q p v startErr (settle_admitted admitted startErr st0) = (Inr st, calls1)"
    and c: "c = fst (observe_cleanup x process)"
    using assms(1) by (auto simp: executed_def)
  note start = start_stage [OF s i assms(2)]
  note run = run_stage [OF r conjunct1 [OF start] conjunct1 [OF conjunct2 [OF start]] conjunct2 [OF conjunct2 [OF start]] assms(3-6)]
  have "validateCleanup c = Inr ()" using cleanup_valid [of x process] c by (metis prod.collapse)
  then show ?thesis using run final_state_settled [of q qr p vr st v c startErr uni admitted] by blast
qed

lemma execute_stages:
  assumes "execute uni fails x q qr p v vr w stdout stderr = (Inr (outcome, w'), calls)"
  obtains admitted startErr st c where "executed fails x q qr p v vr w admitted startErr st c"
    "publish fails x q stdout stderr (final_state uni p c startErr admitted st) = Inr (outcome, w')"
proof -
  obtain process admitted err calls0 where s: "start_runtime x = ((process, admitted, err), calls0)" by (metis prod.collapse)
  obtain startErr st0 where i: "observe_identity x p err (start_state q qr p vr w calls0) = (startErr, st0)" by force
  obtain st calls1 where r: "observe_run fails x q p v startErr (settle_admitted admitted startErr st0) = (Inr st, calls1)"
    using assms s i by (auto simp: execute_def start_state_def Let_def split: prod.splits sum.splits)
  have "publish fails x q stdout stderr (final_state uni p (fst (observe_cleanup x process)) startErr admitted st) = Inr (outcome, w')"
    using assms s i r by (simp add: execute_def start_state_def [symmetric] Let_def final_state_def split_beta)
  then show thesis using that s i r by (auto simp: executed_def)
qed

lemma execute_settled:
  assumes "execute uni fails x q qr p v vr w stdout stderr = (Inr (outcome, w'), calls)"
    and "podman_identity x" and "writer_ok w" and "no_artifacts w" and "request_artifacts_ok q"
    and fits: "\<And>st. publish fails x q stdout stderr st = Inr (outcome, w') \<Longrightarrow> inventory_fits (st_writer st)"
  obtains st where "publish fails x q stdout stderr st = Inr (outcome, w')" "settled uni q qr p v vr st"
    "writer_ok (st_writer st)" "artifacts_stored q w (st_writer st)"
proof (rule execute_stages [OF assms(1)])
  fix admitted startErr st c
  assume e: "executed fails x q qr p v vr w admitted startErr st c"
    and pub: "publish fails x q stdout stderr (final_state uni p c startErr admitted st) = Inr (outcome, w')"
  have "inventory_fits (st_writer st)" using fits [OF pub] by simp
  then show thesis using that [OF pub] executed_settled [OF e assms(2-5)] by simp
qed

end
