(* ===== verification/Decl_Parse_Facts.thy ===== *)
theory Decl_Parse_Facts
  imports Decl_Parse
begin

text \<open>
  What reading a declaration guarantees: its texts are valid UTF-8 and its integers fit 64 bits, its
  tables hold no key that the schema does not know, and comments and blank lines do not matter.
\<close>

section \<open>Typed values\<close>

definition int64 :: "int \<Rightarrow> bool" where
  "int64 n = (int64_min \<le> n \<and> n \<le> int64_max)"

fun wf_toml :: "toml \<Rightarrow> bool" where
  "wf_toml (TInteger n) = int64 n"
| "wf_toml (TBoolean b) = True"
| "wf_toml (TText s) = ValidUTF8 s"
| "wf_toml (TArray vs) = list_all wf_toml vs"
| "wf_toml (TTable ms) = list_all (\<lambda>(k, v). wf_toml v) ms"

definition wf_table :: "table \<Rightarrow> bool" where
  "wf_table t = list_all (\<lambda>(k, v). wf_toml v) t"

lemma wf_table_simps [simp]: "wf_table []" "wf_toml (TTable t) = wf_table t"
  by (simp_all add: wf_table_def)

declare wf_toml.simps(5) [simp del]

lemma wf_table_lookup: "wf_table t \<Longrightarrow> map_of t k = Some v \<Longrightarrow> wf_toml v"
  by (auto simp: wf_table_def list_all_iff dest!: map_of_SomeD)

lemma wf_table_update: "wf_table t \<Longrightarrow> wf_toml v \<Longrightarrow> wf_table (AList.update k v t)"
  by (induction t) (auto simp: wf_table_def)

lemma wf_table_delete: "wf_table t \<Longrightarrow> wf_table (AList.delete k t)"
  by (auto simp: wf_table_def list_all_iff AList.delete_eq)

lemma Atoi_int64: "Atoi s = Some n \<Longrightarrow> int64 n"
  by (auto simp: Atoi_def int64_def Let_def split: if_splits option.splits)

lemma parseInteger_int64: "parseInteger t = Inr n \<Longrightarrow> int64 n"
  by (auto simp: parseInteger_def Let_def split: if_splits option.splits dest: Atoi_int64)

lemma stringValue_utf8: "stringValue s = Inr (v, t) \<Longrightarrow> ValidUTF8 v"
  by (auto simp: stringValue_def split: option.splits json.splits dest!: json_parse_ok)

lemma scalar_token_wf: "scalar_token s = Inr (v, t) \<Longrightarrow> wf_toml v"
  by (auto simp: scalar_token_def Let_def result_simps split: if_splits dest: parseInteger_int64)

lemma array_element_wf: "array_element s = Inr (v, t) \<Longrightarrow> wf_toml v"
  by (auto simp: array_element_def result_simps split: list.splits if_splits prod.splits dest: stringValue_utf8 scalar_token_wf)

lemma array_elements_wf: "array_elements kind s = Inr (vs, t) \<Longrightarrow> list_all wf_toml vs"
proof (induction kind s arbitrary: vs t rule: array_elements.induct)
  case (1 kind s)
  obtain v u where el: "array_element s = Inr (v, u)"
    using 1(2) by (subst (asm) array_elements.simps) (auto split: sum.splits)
  have "wf_toml v" using array_element_wf [OF el] .
  then show ?case
    using 1(2) 1(1) [OF el refl]
    by (subst (asm) array_elements.simps) (auto simp: el result_simps split: if_splits list.splits)
qed

lemma parseScalarOrArray_wf: "parseScalarOrArray raw = Inr v \<Longrightarrow> wf_toml v"
  by (auto simp: parseScalarOrArray_def arrayValue_def result_simps split: list.splits if_splits prod.splits
      dest: stringValue_utf8 scalar_token_wf array_elements_wf)

section \<open>Typed tables\<close>

lemma enterTable_wf: "enterTable path array t = Inr u \<Longrightarrow> wf_table t \<Longrightarrow> wf_table u"
proof (induction path array t arbitrary: u rule: enterTable.induct)
  case (2 name path array cur)
  show ?case
  proof (cases "map_of cur name")
    case None
    with 2 show ?thesis
      by (auto simp: result_simps intro!: wf_table_update split: if_splits)
  next
    case (Some v)
    then have "wf_toml v" using 2(4) wf_table_lookup by blast
    with 2 Some show ?thesis
      by (auto simp: result_simps intro!: wf_table_update split: if_splits toml.splits)
  qed
qed simp

lemma current_table_wf: "wf_table t \<Longrightarrow> wf_table (current_table path array t)"
proof (induction path array t rule: current_table.induct)
  case (2 name path array t)
  show ?case
  proof (cases "map_of t name")
    case (Some v)
    then have wf: "wf_toml v" using 2(2) wf_table_lookup by blast
    have last: "wf_table (case rev vs of TTable u # _ \<Rightarrow> u | _ \<Rightarrow> [])" if "v = TArray vs" for vs
    proof (cases vs rule: rev_cases)
      case (snoc us x)
      then show ?thesis using wf that by (cases x) simp_all
    qed simp
    show ?thesis using 2(1) Some wf last by (cases v) auto
  qed auto
qed simp

lemma set_table_wf: "wf_table t \<Longrightarrow> wf_table new \<Longrightarrow> wf_table (set_table path array new t)"
proof (induction path array new t rule: set_table.induct)
  case (2 name path array new t)
  show ?case
  proof (cases "map_of t name")
    case (Some v)
    then have wf: "wf_toml v" using 2(2) wf_table_lookup by blast
    have front: "list_all wf_toml (butlast vs)" if "v = TArray vs" for vs
      using wf that by (auto simp: list_all_iff dest: in_set_butlastD)
    show ?thesis using 2 Some wf front by (cases v) (auto intro!: wf_table_update)
  qed (use 2 in simp)
qed simp

lemma parse_line_wf:
  assumes "parse_line l st = Inr st'" and "wf_table (fst st)"
  shows "wf_table (fst st')"
proof -
  obtain root path array declared where st: "st = (root, (path, array), declared)" by (cases st; cases "fst (snd st)") auto
  show ?thesis
    using assms
    by (auto simp: parse_line_def st result_simps Let_def split: if_splits prod.splits
        intro!: set_table_wf wf_table_update current_table_wf parseScalarOrArray_wf dest: enterTable_wf)
qed

lemma parse_lines_wf: "parse_lines n st ls = Inr t \<Longrightarrow> wf_table (fst st) \<Longrightarrow> wf_table t"
proof (induction ls arbitrary: n st)
  case (Cons l ls)
  then obtain st' where "parse_line (drop_cr l) st = Inr st'" "parse_lines (Suc n) st' ls = Inr t"
    by (auto simp: result_simps line_error_def split: if_splits sum.splits)
  then show ?case using Cons.IH parse_line_wf Cons.prems(2) by blast
qed simp

lemma parseDocument_wf: "parseDocument data = Inr t \<Longrightarrow> wf_table t"
  by (auto simp: parseDocument_def dest: parse_lines_wf)

section \<open>Decoders\<close>

text \<open>
  A decoder that returns values with \<open>P\<close> from well-typed tables, leaves a well-typed table and takes
  out only keys of \<open>K\<close>.
\<close>

definition decodes :: "bytes set \<Rightarrow> ('a \<Rightarrow> bool) \<Rightarrow> 'a decoder \<Rightarrow> bool" where
  "decodes K P m = (\<forall>t x u. wf_table t \<longrightarrow> m t = Inr (x, u) \<longrightarrow> P x \<and> wf_table u \<and> fst ` set t \<subseteq> K \<union> fst ` set u)"

lemma decodesI:
  "(\<And>t x u. wf_table t \<Longrightarrow> m t = Inr (x, u) \<Longrightarrow> P x \<and> wf_table u \<and> fst ` set t \<subseteq> K \<union> fst ` set u) \<Longrightarrow> decodes K P m"
  by (simp add: decodes_def)

lemma decodesD: "decodes K P m \<Longrightarrow> wf_table t \<Longrightarrow> m t = Inr (x, u) \<Longrightarrow> P x \<and> wf_table u \<and> fst ` set t \<subseteq> K \<union> fst ` set u"
  by (simp add: decodes_def)

lemma decodes_bind:
  assumes m: "decodes K P m" and f: "\<And>x. P x \<Longrightarrow> decodes L Q (f x)" and "K \<subseteq> L"
  shows "decodes L Q (bind_decoder m f)"
proof (rule decodesI)
  fix t x u assume wf: "wf_table t" and "bind_decoder m f t = Inr (x, u)"
  then obtain y w where run: "m t = Inr (y, w)" "f y w = Inr (x, u)"
    unfolding bind_decoder_def bind_result_Inr by (auto split: prod.splits)
  note y = decodesD [OF m wf run(1)]
  have "Q x \<and> wf_table u \<and> fst ` set w \<subseteq> L \<union> fst ` set u" by (rule decodesD [OF f _ run(2)]) (use y in simp_all)
  then show "Q x \<and> wf_table u \<and> fst ` set t \<subseteq> L \<union> fst ` set u" using y assms(3) by blast
qed

lemma decodes_return: "P x \<Longrightarrow> decodes K P (return_decoder x)"
  by (auto simp: decodes_def return_decoder_def)

lemma decodes_embed: "(\<And>x. r = Inr x \<Longrightarrow> P x) \<Longrightarrow> decodes K P (embed r)"
  by (auto simp: decodes_def embed_def result_simps)

lemma decodes_take: "decodes {key} (\<lambda>v. case v of None \<Rightarrow> True | Some w \<Rightarrow> wf_toml w) (take_key path key required)"
proof (rule decodesI)
  fix t x u assume wf: "wf_table t" and run: "take_key path key required t = Inr (x, u)"
  have "fst ` set t \<subseteq> {key} \<union> fst ` set (AList.delete key t)" by (auto simp: AList.delete_eq image_iff)
  then show "(case x of None \<Rightarrow> True | Some w \<Rightarrow> wf_toml w) \<and> wf_table u \<and> fst ` set t \<subseteq> {key} \<union> fst ` set u"
    using run wf wf_table_lookup [OF wf, of key] wf_table_delete [OF wf, of key]
    by (auto simp: take_key_def split: option.splits if_splits)
qed

lemma decodes_value:
  assumes "\<And>v t x u. (case v of None \<Rightarrow> True | Some w \<Rightarrow> wf_toml w) \<Longrightarrow> f v t = Inr (x, u) \<Longrightarrow> P x \<and> u = t"
  shows "decodes {key} P (bind_decoder (take_key path key required) f)"
  by (rule decodes_bind [OF decodes_take]) (use assms in \<open>fastforce simp: decodes_def\<close>)+

lemma decodes_string: "decodes {key} ValidUTF8 (decoder_string path key required)"
  unfolding decoder_string_def by (rule decodes_value) (auto split: option.splits toml.splits)

lemma decodes_integer: "decodes {key} int64 (decoder_integer path key required)"
  unfolding decoder_integer_def
  by (rule decodes_value) (auto simp: int64_def int64_min_def int64_max_def split: option.splits toml.splits)

lemma decodes_boolean: "decodes {key} (\<lambda>b. True) (decoder_boolean path key required)"
  unfolding decoder_boolean_def by (rule decodes_value) (auto split: option.splits toml.splits)

lemma text_items_wf: "text_items vs = Some ss \<Longrightarrow> list_all wf_toml vs \<Longrightarrow> list_all ValidUTF8 ss"
  by (induction vs arbitrary: ss rule: text_items.induct) auto

lemma decodes_strings: "decodes {key} (list_all ValidUTF8) (decoder_strings path key required)"
  unfolding decoder_strings_def by (rule decodes_value) (auto split: option.splits toml.splits dest: text_items_wf)

lemma decodes_child: "decodes {key} (\<lambda>t. case t of None \<Rightarrow> True | Some u \<Rightarrow> wf_table u) (child path key required)"
  unfolding child_def by (rule decodes_value) (auto split: option.splits toml.splits)

lemma table_items_wf: "table_items vs = Some us \<Longrightarrow> list_all wf_toml vs \<Longrightarrow> list_all wf_table us"
  by (induction vs arbitrary: us rule: table_items.induct) auto

lemma decodes_children: "decodes {key} (list_all wf_table) (children path key)"
  unfolding children_def by (rule decodes_value) (auto split: option.splits toml.splits dest: table_items_wf)

lemma decodes_done: "decodes K P m \<Longrightarrow> done_decoder path m t = Inr x \<Longrightarrow> wf_table t \<Longrightarrow> P x \<and> fst ` set t \<subseteq> K"
proof -
  assume m: "decodes K P m" and run: "done_decoder path m t = Inr x" and wf: "wf_table t"
  then obtain y u where y: "m t = Inr (y, u)" "(case u of [] \<Rightarrow> Inr y | (k, v) # _ \<Rightarrow> Inl (ParseSchema path k ''unknown key or table'')) = Inr x"
    unfolding done_decoder_def bind_result_Inr by auto
  then have "m t = Inr (x, [])" by (cases u) auto
  then show ?thesis using decodesD [OF m wf, of x "[]"] by simp
qed

lemma decodes_required:
  assumes "decodes K P m"
  shows "decodes {key} P (required_child key m)"
  unfolding required_child_def
  by (rule decodes_bind [OF decodes_child decodes_embed]) (use assms in \<open>auto dest!: decodes_done split: option.splits\<close>)

lemma decodes_items:
  assumes "decodes K P m"
  shows "decodes {key} (list_all P) (items path key m)"
  unfolding items_def
proof (rule decodes_bind [OF decodes_children decodes_embed])
  fix ts xs assume "list_all wf_table ts" "map_result (done_decoder (path @ ''.'' @ key) m) ts = Inr xs"
  then show "list_all P xs"
    using decodes_done [OF assms] by (fastforce simp: map_result_Inr list_all2_conv_all_nth list_all_length)
qed simp

section \<open>Declarations\<close>

definition typed_declaration :: "Declaration \<Rightarrow> bool" where
  "typed_declaration d =
     (int64 (d_Version d) \<and> ValidUTF8 (d_Name d)
      \<and> ValidUTF8 (dw_Hostname (d_World d)) \<and> ValidUTF8 (dw_Base (d_World d)) \<and> ValidUTF8 (dw_Workdir (d_World d)) \<and> ValidUTF8 (dw_User (d_World d))
      \<and> int64 (dr_CPUs (d_Resources d)) \<and> int64 (dr_MemoryBytes (d_Resources d)) \<and> int64 (dr_PIDs (d_Resources d))
      \<and> list_all ValidUTF8 (d_Workspace d)
      \<and> list_all (\<lambda>c. ValidUTF8 (dc_Source c) \<and> ValidUTF8 (dc_Target c) \<and> ValidUTF8 (dc_Mode c)) (d_Copies d)
      \<and> list_all (\<lambda>m. ValidUTF8 (dm_Source m) \<and> ValidUTF8 (dm_Target m) \<and> ValidUTF8 (dm_Mode m)) (d_Mounts d)
      \<and> list_all (\<lambda>a. ValidUTF8 (da_Host a) \<and> int64 (da_Port a)) (d_Allow d)
      \<and> list_all (\<lambda>i. ValidUTF8 (di_Name i) \<and> ValidUTF8 (di_Address i)) (d_Interfaces d)
      \<and> list_all (\<lambda>s. ValidUTF8 (ds_Name s) \<and> list_all ValidUTF8 (ds_Command s) \<and> ValidUTF8 (ds_Restart s)) (d_Services d))"

lemmas decode_fields = decodes_return decodes_bind [OF decodes_string] decodes_bind [OF decodes_integer] decodes_bind [OF decodes_boolean]
  decodes_bind [OF decodes_strings]

lemma decodes_world:
  "decodes {''hostname'', ''base'', ''workdir'', ''user''}
     (\<lambda>w. ValidUTF8 (dw_Hostname w) \<and> ValidUTF8 (dw_Base w) \<and> ValidUTF8 (dw_Workdir w) \<and> ValidUTF8 (dw_User w)) world_decoder"
  unfolding world_decoder_def by (intro decode_fields) simp_all

lemma decodes_resources:
  "decodes {''cpus'', ''memory_bytes'', ''pids''}
     (\<lambda>r. int64 (dr_CPUs r) \<and> int64 (dr_MemoryBytes r) \<and> int64 (dr_PIDs r)) resources_decoder"
  unfolding resources_decoder_def by (intro decode_fields) simp_all

lemma decodes_copy:
  "decodes {''source'', ''target'', ''mode'', ''secret''}
     (\<lambda>c. ValidUTF8 (dc_Source c) \<and> ValidUTF8 (dc_Target c) \<and> ValidUTF8 (dc_Mode c)) copy_decoder"
  unfolding copy_decoder_def by (intro decode_fields) simp_all

lemma decodes_mount:
  "decodes {''source'', ''target'', ''mode''}
     (\<lambda>m. ValidUTF8 (dm_Source m) \<and> ValidUTF8 (dm_Target m) \<and> ValidUTF8 (dm_Mode m)) mount_decoder"
  unfolding mount_decoder_def by (intro decode_fields) simp_all

lemma decodes_allow:
  "decodes {''host'', ''port''} (\<lambda>a. ValidUTF8 (da_Host a) \<and> int64 (da_Port a)) allow_decoder"
  unfolding allow_decoder_def by (intro decode_fields) simp_all

lemma decodes_interface:
  "decodes {''name'', ''address''} (\<lambda>i. ValidUTF8 (di_Name i) \<and> ValidUTF8 (di_Address i)) interface_decoder"
  unfolding interface_decoder_def by (intro decode_fields) simp_all

lemma decodes_service:
  "decodes {''name'', ''command'', ''autostart'', ''restart''}
     (\<lambda>s. ValidUTF8 (ds_Name s) \<and> list_all ValidUTF8 (ds_Command s) \<and> ValidUTF8 (ds_Restart s)) service_decoder"
  unfolding service_decoder_def by (intro decode_fields) simp_all

lemma decodes_network:
  "decodes {''network''} (list_all (\<lambda>a. ValidUTF8 (da_Host a) \<and> int64 (da_Port a))) network_decoder"
  unfolding network_decoder_def
proof (rule decodes_bind [OF decodes_child])
  fix t :: "table option" assume "case t of None \<Rightarrow> True | Some u \<Rightarrow> wf_table u"
  then show "decodes {''network''} (list_all (\<lambda>a. ValidUTF8 (da_Host a) \<and> int64 (da_Port a)))
    (case t of None \<Rightarrow> return_decoder [] | Some u \<Rightarrow> embed (done_decoder ''root.network'' (items ''root.network'' ''allow'' allow_decoder) u))"
    by (cases t) (auto intro!: decodes_return decodes_embed dest: decodes_done [OF decodes_items [OF decodes_allow]])
qed simp

definition root_keys :: "bytes set" where
  "root_keys = {''version'', ''name'', ''allow_unpinned'', ''world'', ''resources'', ''workspace'', ''copies'', ''mounts'', ''network'',
     ''interfaces'', ''services''}"

lemmas decode_root = decode_fields decodes_bind [OF decodes_network] decodes_bind [OF decodes_required [OF decodes_world]]
  decodes_bind [OF decodes_required [OF decodes_resources]] decodes_bind [OF decodes_required [OF decodes_strings]]
  decodes_bind [OF decodes_items [OF decodes_copy]] decodes_bind [OF decodes_items [OF decodes_mount]]
  decodes_bind [OF decodes_items [OF decodes_interface]] decodes_bind [OF decodes_items [OF decodes_service]]

lemma decodes_declaration: "decodes root_keys typed_declaration declaration_decoder"
  unfolding declaration_decoder_def
  by (intro decode_root) (simp_all add: root_keys_def typed_declaration_def)

lemma Parse_typed:
  assumes "Parse data = Inr d"
  shows "typed_declaration d \<and> (\<exists>root. parseDocument data = Inr root \<and> fst ` set root \<subseteq> root_keys)"
proof -
  obtain root where root: "parseDocument data = Inr root" "decodeDeclaration root = Inr d"
    using assms by (auto simp: Parse_def result_simps split: if_splits)
  then show ?thesis
    using decodes_done [OF decodes_declaration, of "''root''" root d] parseDocument_wf [OF root(1)]
    by (auto simp: decodeDeclaration_def)
qed

text \<open>
  A declaration that parses has only valid UTF-8 in its texts and only 64-bit integers, and its
  document had no top-level key or table outside the schema.
\<close>

theorem parsed_declaration_typed:
  assumes "Parse data = Inr d"
  shows "typed_declaration d \<and> (\<exists>root. parseDocument data = Inr root \<and> fst ` set root \<subseteq> root_keys)"
  using assms by (rule Parse_typed)

definition quoted :: "bytes \<Rightarrow> bytes \<Rightarrow> bytes" where
  "quoted key text = key @ '' = '' @ [quote_char] @ text @ [quote_char]"

definition demo_text :: bytes where
  "demo_text = join_with [newline]
     [''version = 1 # schema'', quoted ''name'' ''demo'', [], ''[world]'', quoted ''hostname'' ''demo'', quoted ''base'' ''alpine'',
      quoted ''workdir'' ''/work'', quoted ''user'' ''root'', ''[resources]'', ''cpus = 1'', ''memory_bytes = 1_000_000'', ''pids = 64'',
      ''[workspace]'', ''paths = ['' @ [quote_char] @ ''/work'' @ [quote_char] @ '']'', ''[[network.allow]]'', quoted ''host'' ''example.org'',
      ''port = 443'', ''[[network.allow]]'', quoted ''host'' ''example.com'', ''port = 80'']"

definition demo_parsed :: Declaration where
  "demo_parsed =
     \<lparr>d_Version = 1, d_Name = ''demo'', d_AllowUnpinned = False,
      d_World = \<lparr>dw_Hostname = ''demo'', dw_Base = ''alpine'', dw_Workdir = ''/work'', dw_User = ''root''\<rparr>,
      d_Resources = \<lparr>dr_CPUs = 1, dr_MemoryBytes = 1000000, dr_PIDs = 64\<rparr>, d_Workspace = [''/work''], d_Copies = [], d_Mounts = [],
      d_Allow = [\<lparr>da_Host = ''example.org'', da_Port = 443\<rparr>, \<lparr>da_Host = ''example.com'', da_Port = 80\<rparr>],
      d_Interfaces = [], d_Services = []\<rparr>"

lemma demo_parses: "Parse demo_text = Inr demo_parsed"
  by code_simp

theorem parsed_declaration_typed_witness:
  "Parse demo_text = Inr demo_parsed \<and> typed_declaration demo_parsed"
  using demo_parses parsed_declaration_typed [OF demo_parses] by simp

end
