(* ===== verification/Plan_Properties.thy ===== *)
theory Plan_Properties
  imports Plan_Build Go_Path_Utf8 Decl_Parse_Facts
begin

text \<open>
  What plans guarantee: nothing that leaves the program as a document depends on the digest of a secret,
  and the plan that a run retains is derived again, field by field, from the retained declaration.
\<close>

section \<open>Redaction\<close>

text \<open>A plan whose secrets have other digests.\<close>

definition reassign :: "(nat \<Rightarrow> bytes) \<Rightarrow> Plan \<Rightarrow> Plan" where
  "reassign f p = p\<lparr>pl_Copies := map_option (\<lambda>cs. map (\<lambda>(i, c). if pc_Secret c then c\<lparr>pc_SourceDigest := f i\<rparr> else c)
     (enumerate 0 cs)) (pl_Copies p)\<rparr>"

lemma redact_copy_idem [simp]: "redact_copy (redact_copy c) = redact_copy c"
  by (simp add: redact_copy_def)

lemma redacted_plan_idem [simp]: "redacted_plan (redacted_plan p) = redacted_plan p"
  by (simp add: redacted_plan_def)

lemma map_enumerate_snd: "(\<And>i x. g (i, x) = h x) \<Longrightarrow> map g (enumerate n xs) = map h xs"
  by (induction xs arbitrary: n) simp_all

lemma redacted_reassign [simp]: "redacted_plan (reassign f p) = redacted_plan p"
proof -
  have "map (redact_copy \<circ> (\<lambda>(i, c). if pc_Secret c then c\<lparr>pc_SourceDigest := f i\<rparr> else c)) (enumerate 0 cs) = map redact_copy cs" for cs
    by (rule map_enumerate_snd) (simp add: redact_copy_def)
  then show ?thesis by (cases "pl_Copies p") (simp_all add: redacted_plan_def reassign_def)
qed

lemma evidence_reassign:
  "evidenceCanonicalForResult (r\<lparr>rs_Plan := reassign f (rs_Plan r), rs_PlanDigest := x, rs_EvidenceDigest := y\<rparr>)
     = evidenceCanonicalForResult r"
  by (simp add: evidenceCanonicalForResult_def EvidenceCanonicalWithAnchor_def EvidenceCanonical_def Let_def)

lemma render_reassign: "render_chunks printable (r\<lparr>rs_Plan := reassign f (rs_Plan r)\<rparr>) = render_chunks printable r"
proof -
  let ?line = "\<lambda>c. let digest = (if pc_Secret c then redaction else pc_SourceDigest c) in
      ''copy: '' @ pc_Source c @ '' -> '' @ pc_Target c @ '' mode='' @ pc_Mode c @ '' secret='' @ bool_text (pc_Secret c)
      @ '' digest='' @ digest @ [newline]"
  have "map ?line (elems (pl_Copies (reassign f p))) = map ?line (elems (pl_Copies p))" for p
    by (cases "pl_Copies p") (simp_all add: reassign_def comp_def, rule map_enumerate_snd, simp)
  moreover have "reassign f p = p\<lparr>pl_Copies := pl_Copies (reassign f p)\<rparr>" for p
    by (simp add: reassign_def)
  ultimately show ?thesis
    by (simp add: render_chunks_def Let_def reassign_def)
qed

text \<open>
  C17: The JSON document of a plan does not depend on the digests of its secret copies: replacing them all,
  together with the operational plan and evidence digests that were computed from them, changes no byte
  of it. The rendered text prints no secret digest either; it does print the operational plan digest, so
  it is unchanged by replacing the secret digests as long as that one digest is kept.
\<close>

theorem secret_digests_hidden:
  "plan_JSON (r\<lparr>rs_Plan := reassign f (rs_Plan r), rs_PlanDigest := x, rs_EvidenceDigest := y\<rparr>) = plan_JSON r
   \<and> RenderText printable n (r\<lparr>rs_Plan := reassign f (rs_Plan r)\<rparr>) = RenderText printable n r"
proof
  let ?s = "r\<lparr>rs_Plan := reassign f (rs_Plan r), rs_PlanDigest := x, rs_EvidenceDigest := y\<rparr>"
  have "safe_value (?s\<lparr>rs_PlanDigest := d, rs_EvidenceDigest := d\<rparr>) = safe_value (r\<lparr>rs_PlanDigest := d, rs_EvidenceDigest := d\<rparr>)" for d
    using evidence_reassign [where r = "r\<lparr>rs_PlanDigest := d, rs_EvidenceDigest := d\<rparr>" and f = f and x = d and y = d]
    by (simp add: safe_value_def)
  then show "plan_JSON ?s = plan_JSON r"
    by (simp add: plan_JSON_def evidence_reassign)
  show "RenderText printable n (r\<lparr>rs_Plan := reassign f (rs_Plan r)\<rparr>) = RenderText printable n r"
    by (simp add: RenderText_def render_reassign)
qed

section \<open>Re-deriving the retained plan\<close>

text \<open>
  What the document of a built plan holds: secrets redacted, the evidence digest in both places, and nil
  interfaces when there are none.
\<close>

definition normal_plan :: "Plan \<Rightarrow> Plan" where
  "normal_plan p = p\<lparr>pl_Interfaces := appended (elems (pl_Interfaces p))\<rparr>"

definition retained_result :: "plan_Result \<Rightarrow> plan_Result" where
  "retained_result r = r\<lparr>rs_PlanDigest := rs_EvidenceDigest r, rs_Plan := normal_plan (redacted_plan (rs_Plan r))\<rparr>"

lemma marshal_normal_plan: "marshal Plan_shape (Plan_value (normal_plan p)) = marshal Plan_shape (Plan_value p)"
  by (cases "pl_Interfaces p") (simp_all add: Plan_shape_def Plan_value_def normal_plan_def appended_def)

lemma Encode_normal_plan:
  "Encode anchored_shape (VStruct [VString a, Plan_value (normal_plan p)]) = Encode anchored_shape (VStruct [VString a, Plan_value p])"
  by (simp add: Encode_def anchored_shape_def marshal_normal_plan)

lemma redacted_normal: "redacted_plan (normal_plan p) = normal_plan (redacted_plan p)"
  by (simp add: redacted_plan_def normal_plan_def)

lemma EvidenceCanonicalWithAnchor_iff:
  "EvidenceCanonicalWithAnchor p a = Inr (q, d) \<longleftrightarrow>
     clean_abs a \<and> q = redacted_plan p
     \<and> d = sha256_hex (Encode anchored_shape (VStruct [VString a, Plan_value (redacted_plan p)]))"
  by (auto simp: EvidenceCanonicalWithAnchor_def EvidenceCanonical_def Let_def result_simps clean_abs_def)

lemma EvidenceCanonical_normal:
  assumes "EvidenceCanonicalWithAnchor p a = Inr (q, d)"
  shows "EvidenceCanonicalWithAnchor (normal_plan (redacted_plan p)) a = Inr (normal_plan (redacted_plan p), d)"
  using assms by (simp add: EvidenceCanonicalWithAnchor_iff redacted_normal Encode_normal_plan)

lemma build_copies_Inr:
  "build_copies ctx k host dir cs = Inr out \<Longrightarrow>
     list_all2 (\<lambda>c o'. ResolveSource host dir (dc_Source c) = Inr (pc_Source o') \<and> fs_digest host (pc_Source o') = Some (pc_SourceDigest o')
       \<and> pc_Target o' = Clean (dc_Target c) \<and> pc_Mode o' = dc_Mode c \<and> pc_Secret o' = dc_Secret c) cs out"
  by (induction cs arbitrary: k out) (auto simp: result_simps split: option.splits)

lemma build_mounts_Inr:
  "build_mounts ctx k host dir ms = Inr out \<Longrightarrow>
     list_all2 (\<lambda>m o'. ResolveSource host dir (dm_Source m) = Inr (pm_Source o') \<and> pm_SourceType o' \<in> {''file'', ''directory''}
       \<and> mountpath_Validate (pm_Source o') \<and> mountpath_Validate (pm_Target o')
       \<and> pm_Target o' = Clean (dm_Target m) \<and> pm_Mode o' = dm_Mode m) ms out"
  by (induction ms arbitrary: k out) (auto simp: result_simps mountSourceType_def split: option.splits if_splits)

lemma resolve_evidence:
  assumes "CanonicalSourceAnchor host dir = Inr anchor" and "clean_abs anchor" and "ResolveSource host dir s = Inr t"
  shows "ResolveEvidenceSource anchor s = Inr t"
  using assms by (auto simp: ResolveSource_def ResolveEvidenceSource_def clean_abs_def result_simps split: if_splits)

lemma project_built_copies:
  assumes "CanonicalSourceAnchor host dir = Inr anchor" and "clean_abs anchor"
    and "\<And>s x. fs_digest host s = Some x \<Longrightarrow> validPlanDigest x"
    and "build_copies ctx k host dir cs = Inr out"
  shows "project_copies i anchor cs (map redact_copy out) = Inr (map redact_copy out)"
  using build_copies_Inr [OF assms(4)]
proof (induction arbitrary: i rule: list_all2_induct)
  case (Cons c cs o' out)
  have "ResolveEvidenceSource anchor (dc_Source c) = Inr (pc_Source o')"
    using resolve_evidence [OF assms(1,2)] Cons by simp
  moreover have "\<not> dc_Secret c \<Longrightarrow> validPlanDigest (pc_SourceDigest o')"
    using assms(3) Cons(1) by blast
  ultimately show ?case
    using Cons by (cases o') (simp add: redact_copy_def of_decl_def)
qed simp

lemma project_built_mounts:
  assumes "CanonicalSourceAnchor host dir = Inr anchor" and "clean_abs anchor"
    and "build_mounts ctx k host dir ms = Inr out"
  shows "project_mounts i anchor ms out = Inr out"
  using build_mounts_Inr [OF assms(3)]
proof (induction arbitrary: i rule: list_all2_induct)
  case (Cons m ms o' out)
  have "ResolveEvidenceSource anchor (dm_Source m) = Inr (pm_Source o')"
    using resolve_evidence [OF assms(1,2)] Cons by simp
  then show ?case
    using Cons by (cases o') (auto simp: of_decl_def)
qed simp

lemma BuildContext_Inr:
  assumes "BuildContext host uni wd ctx d path raw = Inr r"
  obtains dir copies mounts where
    "ValidateContext host uni (\<lambda>k. ctx (Suc k)) d dir = Inr ()"
    "CanonicalSourceAnchor host dir = Inr (rs_SourceAnchor r)"
    "workspace_targets (d_Workspace d) = Inr ()"
    "build_copies ctx (1 + polls d) host dir (d_Copies d) = Inr copies"
    "build_mounts ctx (1 + polls d + length (d_Copies d)) host dir (d_Mounts d) = Inr mounts"
    "rs_Plan r = assembled d copies mounts (Some (plan_interfaces d))"
    "EvidenceCanonicalWithAnchor (rs_Plan r) (rs_SourceAnchor r) = Inr (redacted_plan (rs_Plan r), rs_EvidenceDigest r)"
    "rs_PlanDigest r = sha256_hex (Canonical (rs_Plan r))"
    "rs_DeclarationDigest r = sha256_hex raw" "rs_Warnings r = warnings_for d"
proof -
  obtain dir anchor copies mounts p digest where *:
    "ValidateContext host uni (\<lambda>k. ctx (Suc k)) d dir = Inr ()" "CanonicalSourceAnchor host dir = Inr anchor"
    "workspace_targets (d_Workspace d) = Inr ()"
    "build_copies ctx (1 + polls d) host dir (d_Copies d) = Inr copies"
    "build_mounts ctx (1 + polls d + length (d_Copies d)) host dir (d_Mounts d) = Inr mounts"
    "EvidenceCanonicalWithAnchor (assembled d copies mounts (Some (plan_interfaces d))) anchor = Inr (p, digest)"
    "r = \<lparr>rs_PlanDigest = sha256_hex (Canonical (assembled d copies mounts (Some (plan_interfaces d)))), rs_EvidenceDigest = digest,
          rs_DeclarationDigest = sha256_hex raw, rs_SourceAnchor = anchor,
          rs_Warnings = warnings_for d, rs_Plan = assembled d copies mounts (Some (plan_interfaces d))\<rparr>"
    using assms by (auto simp: BuildContext_def result_simps Let_def)
  show ?thesis
    by (rule that [of dir copies mounts]) (use * in \<open>simp_all add: EvidenceCanonicalWithAnchor_iff\<close>)
qed

lemma validated_evidence:
  assumes "ValidateContext host uni ctx d dir = Inr ()"
  shows "ValidateEvidence host' uni d dir' = Inr ()"
  using assms validate_ctx [of host uni ctx d dir True "()"]
  by (simp add: ValidateContext_def ValidateEvidence_def validate_sources_iff validate_evidence_iff)

lemma normal_redacted_assembled:
  "normal_plan (redacted_plan (assembled d copies mounts (Some (plan_interfaces d))))
     = assembled d (map redact_copy copies) mounts (appended (plan_interfaces d))"
  by (simp add: normal_plan_def redacted_plan_def assembled_def)

lemma built_projects:
  assumes "BuildContext host uni wd ctx d path raw = Inr r"
    and "\<And>s x. fs_digest host s = Some x \<Longrightarrow> validPlanDigest x"
  shows "ProjectEvidence host' uni d raw (retained_result r) = Inr (retained_result r)"
  using assms(1)
proof (rule BuildContext_Inr)
  fix dir copies mounts
  assume v: "ValidateContext host uni (\<lambda>k. ctx (Suc k)) d dir = Inr ()"
    and a: "CanonicalSourceAnchor host dir = Inr (rs_SourceAnchor r)"
    and w: "workspace_targets (d_Workspace d) = Inr ()"
    and c: "build_copies ctx (1 + polls d) host dir (d_Copies d) = Inr copies"
    and m: "build_mounts ctx (1 + polls d + length (d_Copies d)) host dir (d_Mounts d) = Inr mounts"
    and p: "rs_Plan r = assembled d copies mounts (Some (plan_interfaces d))"
    and e: "EvidenceCanonicalWithAnchor (rs_Plan r) (rs_SourceAnchor r) = Inr (redacted_plan (rs_Plan r), rs_EvidenceDigest r)"
    and rest: "rs_PlanDigest r = sha256_hex (Canonical (rs_Plan r))" "rs_DeclarationDigest r = sha256_hex raw"
      "rs_Warnings r = warnings_for d"
  have abs: "clean_abs (rs_SourceAnchor r)" using e by (simp add: EvidenceCanonicalWithAnchor_iff)
  have q: "rs_Plan (retained_result r) = assembled d (map redact_copy copies) mounts (appended (plan_interfaces d))"
    by (simp add: retained_result_def p normal_redacted_assembled)
  have ql: "elems (pl_Copies (rs_Plan (retained_result r))) = map redact_copy copies"
    "elems (pl_Mounts (rs_Plan (retained_result r))) = mounts"
    by (simp_all add: q assembled_def)
  have lengths: "length copies = length (d_Copies d)" "length mounts = length (d_Mounts d)"
    using build_copies_Inr [OF c] build_mounts_Inr [OF m] by (simp_all add: list_all2_lengthD)
  have digest: "EvidenceCanonicalWithAnchor (rs_Plan (retained_result r)) (rs_SourceAnchor r)
      = Inr (rs_Plan (retained_result r), rs_EvidenceDigest r)"
    using EvidenceCanonical_normal [OF e] by (simp add: retained_result_def)
  have anchor: "rs_SourceAnchor (retained_result r) = rs_SourceAnchor r" by (simp add: retained_result_def)
  have checks: "of_decl (ValidateEvidence host' uni d (rs_SourceAnchor r)) = Inr ()"
    "project_copies 0 (rs_SourceAnchor r) (d_Copies d) (map redact_copy copies) = Inr (map redact_copy copies)"
    "project_mounts 0 (rs_SourceAnchor r) (d_Mounts d) mounts = Inr mounts"
    using validated_evidence [OF v] project_built_copies [OF a abs assms(2) c] project_built_mounts [OF a abs m] by simp_all
  show ?thesis
    using abs w checks lengths digest rest
    by (simp add: ProjectEvidence_def Let_def anchor ql clean_abs_def flip: q) (simp add: retained_result_def of_decl_def)
qed

section \<open>The document of a built plan\<close>

lemma hex_utf8: "list_all is_hex s \<Longrightarrow> ValidUTF8 s"
  by (rule ValidUTF8_ascii) (auto simp: list_all_iff is_hex_def is_lower_hex_def is_digit_def is_ascii_def)

lemma lower_hex_utf8: "ValidUTF8 (sha256_hex m)"
  by (rule hex_utf8) (use sha256_hex_lower [of m] in \<open>auto simp: list_all_iff is_hex_def\<close>)

lemma plan_shape_facts:
  "shape_names plan_Result_shape" "shape_depth plan_Result_shape \<le> max_nesting"
  by (simp_all add: plan_shapes TInt64_def ValidUTF8_ascii is_ascii_def max_nesting_def)

lemma resolved_utf8:
  assumes "ResolveSource host dir s = Inr t" and "ValidUTF8 s" and "CanonicalSourceAnchor host dir = Inr anchor" and "ValidUTF8 anchor"
  shows "ValidUTF8 t"
  using assms by (auto simp: ResolveSource_def canonicalPlatformPath_def result_simps Clean_utf8 Join_utf8 split: if_splits)

definition utf8_copy :: "plan_Copy \<Rightarrow> bool" where
  "utf8_copy c = (ValidUTF8 (pc_Source c) \<and> ValidUTF8 (pc_SourceDigest c) \<and> ValidUTF8 (pc_Target c) \<and> ValidUTF8 (pc_Mode c))"

definition utf8_mount :: "plan_Mount \<Rightarrow> bool" where
  "utf8_mount m = (ValidUTF8 (pm_Source m) \<and> ValidUTF8 (pm_SourceType m) \<and> ValidUTF8 (pm_Target m) \<and> ValidUTF8 (pm_Mode m))"

lemma built_copies_utf8:
  assumes "build_copies ctx k host dir cs = Inr out" and "CanonicalSourceAnchor host dir = Inr anchor" and "ValidUTF8 anchor"
    and "\<And>s x. fs_digest host s = Some x \<Longrightarrow> validPlanDigest x"
    and "list_all (\<lambda>c. ValidUTF8 (dc_Source c) \<and> ValidUTF8 (dc_Target c) \<and> ValidUTF8 (dc_Mode c)) cs"
  shows "list_all utf8_copy (map redact_copy out)"
  using build_copies_Inr [OF assms(1)] assms(5)
proof (induction rule: list_all2_induct)
  case (Cons c cs o' out)
  have "ValidUTF8 (pc_Source o')"
    using resolved_utf8 [OF _ _ assms(2,3), of "dc_Source c"] Cons by simp
  moreover have "validPlanDigest (pc_SourceDigest o')" using assms(4) Cons(1) by blast
  then have "ValidUTF8 (pc_SourceDigest o')" by (simp add: validPlanDigest_def hex_decodes_def hex_utf8)
  moreover have "ValidUTF8 redaction" by (simp add: redaction_def ValidUTF8_ascii is_ascii_def)
  ultimately show ?case
    using Cons by (simp add: utf8_copy_def redact_copy_def Clean_utf8)
qed simp

lemma built_mounts_utf8:
  assumes "build_mounts ctx k host dir ms = Inr out" and "CanonicalSourceAnchor host dir = Inr anchor" and "ValidUTF8 anchor"
    and "list_all (\<lambda>m. ValidUTF8 (dm_Source m) \<and> ValidUTF8 (dm_Target m) \<and> ValidUTF8 (dm_Mode m)) ms"
  shows "list_all utf8_mount out"
  using build_mounts_Inr [OF assms(1)] assms(4)
proof (induction rule: list_all2_induct)
  case (Cons m ms o' out)
  have "ValidUTF8 (pm_Source o')"
    using resolved_utf8 [OF _ _ assms(2,3), of "dm_Source m"] Cons by simp
  moreover have "ValidUTF8 (pm_SourceType o')" using Cons(1) by (auto simp: ValidUTF8_ascii is_ascii_def)
  ultimately show ?case
    using Cons by (simp add: utf8_mount_def Clean_utf8)
qed simp

lemma assembled_document:
  assumes "typed_declaration d" and "list_all utf8_copy copies" and "list_all utf8_mount mounts"
  shows "shaped Plan_shape (Plan_value (assembled d copies mounts (appended (plan_interfaces d))))
    \<and> utf8_value (Plan_value (assembled d copies mounts (appended (plan_interfaces d))))"
  using assms
  by (auto simp: plan_shapes plan_values assembled_def typed_declaration_def int64_def int64_min_def int64_max_def TInt64_def
      utf8_copy_def utf8_mount_def appended_def plan_interfaces_def plan_service_def Clean_utf8 utf8_strings list_all_iff shaped_list_iff
      split: option.splits)

lemma built_document:
  assumes "BuildContext host uni wd ctx d path raw = Inr r"
    and "\<And>s x. fs_digest host s = Some x \<Longrightarrow> validPlanDigest x"
    and "typed_declaration d" and "ValidUTF8 (rs_SourceAnchor r)"
  shows "shaped plan_Result_shape (plan_Result_value (retained_result r)) \<and> utf8_value (plan_Result_value (retained_result r))"
  using assms(1)
proof (rule BuildContext_Inr)
  fix dir copies mounts
  assume a: "CanonicalSourceAnchor host dir = Inr (rs_SourceAnchor r)"
    and c: "build_copies ctx (1 + polls d) host dir (d_Copies d) = Inr copies"
    and m: "build_mounts ctx (1 + polls d + length (d_Copies d)) host dir (d_Mounts d) = Inr mounts"
    and p: "rs_Plan r = assembled d copies mounts (Some (plan_interfaces d))"
    and e: "EvidenceCanonicalWithAnchor (rs_Plan r) (rs_SourceAnchor r) = Inr (redacted_plan (rs_Plan r), rs_EvidenceDigest r)"
    and w: "rs_DeclarationDigest r = sha256_hex raw" "rs_Warnings r = warnings_for d"
  have "list_all utf8_copy (map redact_copy copies)" "list_all utf8_mount mounts"
    using built_copies_utf8 [OF c a assms(4,2)] built_mounts_utf8 [OF m a assms(4)] assms(3)
    by (simp_all add: typed_declaration_def)
  from assembled_document [OF assms(3) this]
  have "shaped Plan_shape (Plan_value (rs_Plan (retained_result r)))" "utf8_value (Plan_value (rs_Plan (retained_result r)))"
    by (simp_all add: retained_result_def p normal_redacted_assembled)
  moreover have "ValidUTF8 (rs_EvidenceDigest r)"
    using e lower_hex_utf8 by (simp add: EvidenceCanonicalWithAnchor_iff)
  moreover have "ValidUTF8 unpinned_warning"
    by (simp add: unpinned_warning_def ValidUTF8_ascii is_ascii_def)
  ultimately show ?thesis
    using w assms(4) lower_hex_utf8
    by (simp add: plan_Result_shape_def plan_Result_value_def retained_result_def utf8_strings warnings_for_def
        split: option.splits)
qed

lemma built_JSON:
  assumes "BuildContext host uni wd ctx d path raw = Inr r"
  shows "plan_JSON r = Inr (json_indent True 0 (marshal plan_Result_shape (plan_Result_value (retained_result r))) @ [newline])"
  using assms
proof (rule BuildContext_Inr)
  assume e: "EvidenceCanonicalWithAnchor (rs_Plan r) (rs_SourceAnchor r) = Inr (redacted_plan (rs_Plan r), rs_EvidenceDigest r)"
  then have "rs_SourceAnchor r \<noteq> []" by (auto simp: EvidenceCanonicalWithAnchor_iff clean_abs_def IsAbs_def)
  with e show ?thesis
    by (simp add: plan_JSON_def safe_value_def evidenceCanonicalForResult_def retained_result_def plan_Result_shape_def
        plan_Result_value_def marshal_normal_plan)
qed

text \<open>
  C16: On a host that digests sources to 64 hexadecimal digits, and for a declaration and a directory that are
  text, the document of a built plan is read back strictly as the retained plan, and projecting the
  declaration onto it gives the same retained plan: what a run seals, verification derives again.
\<close>

theorem retained_plan_rederived:
  assumes "BuildContext host uni wd ctx d path raw = Inr r"
    and "\<And>s x. fs_digest host s = Some x \<Longrightarrow> validPlanDigest x"
    and "typed_declaration d" and "ValidUTF8 (rs_SourceAnchor r)"
  shows "\<exists>document v. plan_JSON r = Inr document \<and> Unmarshal True plan_Result_shape document = Some v
    \<and> plan_Result_of v = retained_result r
    \<and> ProjectEvidence host' uni d raw (plan_Result_of v) = Inr (plan_Result_of v)"
  using built_JSON [OF assms(1)] built_projects [OF assms(1,2)] built_document [OF assms]
    Unmarshal_indent [OF _ _ plan_shape_facts, of "plan_Result_value (retained_result r)" "[newline]" True True 0]
  by simp

text \<open>A host on which every path is a regular file of its own, and a declaration with a secret.\<close>

definition demo_digest :: bytes where
  "demo_digest = replicate 64 CHR ''a''"

definition demo_host :: host_fs where
  "demo_host = \<lparr>fs_lstat = (\<lambda>_. Some \<lparr>n_kind = Regular, n_perm = 256\<rparr>), fs_eval = Some,
     fs_inspect = (\<lambda>p. Some [(p, \<lparr>n_kind = Regular, n_perm = 256\<rparr>)]), fs_digest = (\<lambda>_. Some demo_digest)\<rparr>"

definition demo_declaration :: Declaration where
  "demo_declaration = sample_declaration\<lparr>d_Copies :=
     [\<lparr>dc_Source = ''token'', dc_Target = ''/run/token'', dc_Mode = ''0400'', dc_Secret = True\<rparr>]\<rparr>"

lemma demo_built: "\<exists>r. BuildContext demo_host id None background demo_declaration ''/srv/world.toml'' raw = Inr r
    \<and> rs_SourceAnchor r = ''/srv''"
proof -
  have "Abs None (Dir ''/srv/world.toml'') = Inr ''/srv''" by code_simp
  moreover have "ValidateContext demo_host id background demo_declaration ''/srv'' = Inr ()" by code_simp
  moreover have "CanonicalSourceAnchor demo_host ''/srv'' = Inr ''/srv''" by code_simp
  moreover have "workspace_targets (d_Workspace demo_declaration) = Inr ()" by code_simp
  moreover have "is_ok (build_copies background (1 + polls demo_declaration) demo_host ''/srv'' (d_Copies demo_declaration))"
    "is_ok (build_mounts background (1 + polls demo_declaration + length (d_Copies demo_declaration)) demo_host ''/srv'' (d_Mounts demo_declaration))"
    by code_simp+
  moreover have "clean_abs ''/srv''" by code_simp
  moreover have "(\<lambda>k. background (Suc k)) = background" by (simp add: background_def)
  moreover have "poll_context background 0 = Inr ()" by code_simp
  ultimately show ?thesis
    by (fastforce simp: BuildContext_def result_simps is_ok_iff of_decl_def EvidenceCanonicalWithAnchor_def EvidenceCanonical_def
        Let_def clean_abs_def)
qed

lemma demo_digests: "fs_digest demo_host s = Some x \<Longrightarrow> validPlanDigest x"
proof -
  have "validPlanDigest demo_digest" by code_simp
  then show "fs_digest demo_host s = Some x \<Longrightarrow> validPlanDigest x" by (auto simp: demo_host_def)
qed

lemma demo_typed: "typed_declaration demo_declaration"
  by code_simp

theorem retained_plan_rederived_witness:
  "\<exists>r v. BuildContext demo_host id None background demo_declaration ''/srv/world.toml'' [] = Inr r
     \<and> ProjectEvidence empty_host id demo_declaration [] v = Inr v \<and> v = retained_result r"
proof -
  obtain r where r: "BuildContext demo_host id None background demo_declaration ''/srv/world.toml'' [] = Inr r"
    and a: "rs_SourceAnchor r = ''/srv''"
    using demo_built by blast
  have u: "ValidUTF8 (rs_SourceAnchor r)" by (simp add: a ValidUTF8_ascii is_ascii_def)
  have "\<exists>document v. plan_JSON r = Inr document \<and> Unmarshal True plan_Result_shape document = Some v
    \<and> plan_Result_of v = retained_result r
    \<and> ProjectEvidence empty_host id demo_declaration [] (plan_Result_of v) = Inr (plan_Result_of v)"
    by (rule retained_plan_rederived [OF r _ demo_typed u]) (rule demo_digests)
  with r show ?thesis by blast
qed

section \<open>What a projection accepts\<close>

definition projected_copy :: "bytes \<Rightarrow> decl_copy \<Rightarrow> plan_Copy \<Rightarrow> bool" where
  "projected_copy anchor c o' =
     (ResolveEvidenceSource anchor (dc_Source c) = Inr (pc_Source o') \<and> pc_Target o' = Clean (dc_Target c)
      \<and> pc_Mode o' = dc_Mode c \<and> pc_Secret o' = dc_Secret c
      \<and> (if dc_Secret c then pc_SourceDigest o' = redaction else validPlanDigest (pc_SourceDigest o')))"

lemma project_copies_Inr:
  "project_copies i anchor cs rs = Inr out \<Longrightarrow> length rs = length cs \<Longrightarrow>
     list_all2 (projected_copy anchor) cs out \<and> map pc_SourceDigest out = map pc_SourceDigest rs"
proof (induction cs arbitrary: i rs out)
  case (Cons c cs)
  then obtain r rs' where rs: "rs = r # rs'" by (cases rs) auto
  from Cons.prems rs obtain source rest where "ResolveEvidenceSource anchor (dc_Source c) = Inr source"
    "if dc_Secret c then pc_SourceDigest r = redaction else validPlanDigest (pc_SourceDigest r)"
    and out: "out = \<lparr>pc_Source = source, pc_SourceDigest = pc_SourceDigest r, pc_Target = Clean (dc_Target c), pc_Mode = dc_Mode c,
           pc_Secret = dc_Secret c\<rparr> # rest"
    and rest: "project_copies (Suc i) anchor cs rs' = Inr rest"
    by (cases "dc_Secret c") (auto simp: result_simps)
  then have "projected_copy anchor c (hd out)" by (simp add: projected_copy_def)
  with Cons.IH [OF rest] Cons.prems(2) rs out show ?case by simp
qed simp

lemma project_mounts_Inr:
  "project_mounts i anchor ms rs = Inr out \<Longrightarrow> length rs = length ms \<Longrightarrow>
     list_all2 (\<lambda>m o'. ResolveEvidenceSource anchor (dm_Source m) = Inr (pm_Source o') \<and> pm_Target o' = Clean (dm_Target m)
       \<and> pm_Mode o' = dm_Mode m \<and> pm_SourceType o' \<in> {''file'', ''directory''}
       \<and> mountpath_Validate (pm_Source o') \<and> mountpath_Validate (pm_Target o')) ms out
     \<and> map pm_SourceType out = map pm_SourceType rs"
proof (induction i anchor ms rs arbitrary: out rule: project_mounts.induct)
  case (1 i anchor m ms r rs)
  then show ?case by (auto simp: result_simps)
qed auto

lemma project_copies_digests:
  "map pc_SourceDigest rs = map pc_SourceDigest rs' \<Longrightarrow> project_copies i anchor cs rs = project_copies i anchor cs rs'"
proof (induction cs arbitrary: i rs rs')
  case (Cons c cs)
  show ?case
  proof (cases rs)
    case (Cons x xs)
    then obtain x' xs' where rs': "rs' = x' # xs'" "pc_SourceDigest x = pc_SourceDigest x'" "map pc_SourceDigest xs = map pc_SourceDigest xs'"
      using Cons.prems by (cases rs') auto
    show ?thesis by (simp only: Cons rs'(1,2) project_copies.simps Cons.IH [OF rs'(3)])
  qed (use Cons.prems in simp)
qed simp

lemma project_mounts_types:
  "map pm_SourceType rs = map pm_SourceType rs' \<Longrightarrow> project_mounts i anchor ms rs = project_mounts i anchor ms rs'"
proof (induction ms arbitrary: i rs rs')
  case (Cons m ms)
  show ?case
  proof (cases rs)
    case (Cons x xs)
    then obtain x' xs' where rs': "rs' = x' # xs'" "pm_SourceType x = pm_SourceType x'" "map pm_SourceType xs = map pm_SourceType xs'"
      using Cons.prems by (cases rs') auto
    show ?thesis by (simp only: Cons rs'(1,2) project_mounts.simps Cons.IH [OF rs'(3)])
  qed (use Cons.prems in simp)
qed simp

text \<open>What a retained plan contributes to a projection: its anchor, the digests of its copies and the types of its mount sources.\<close>

definition observations :: "plan_Result \<Rightarrow> bytes \<times> bytes list \<times> bytes list" where
  "observations r = (rs_SourceAnchor r, map pc_SourceDigest (elems (pl_Copies (rs_Plan r))), map pm_SourceType (elems (pl_Mounts (rs_Plan r))))"

lemma ProjectEvidence_observations:
  assumes "observations retained = observations retained'"
  shows "ProjectEvidence host uni d raw retained = ProjectEvidence host uni d raw retained'"
proof -
  have o': "rs_SourceAnchor retained = rs_SourceAnchor retained'"
    "map pc_SourceDigest (elems (pl_Copies (rs_Plan retained))) = map pc_SourceDigest (elems (pl_Copies (rs_Plan retained')))"
    "map pm_SourceType (elems (pl_Mounts (rs_Plan retained))) = map pm_SourceType (elems (pl_Mounts (rs_Plan retained')))"
    using assms by (simp_all add: observations_def)
  then show ?thesis
    using map_eq_imp_length_eq [OF o'(2)] map_eq_imp_length_eq [OF o'(3)] project_copies_digests [OF o'(2)] project_mounts_types [OF o'(3)]
    by (simp add: ProjectEvidence_def Let_def)
qed

text \<open>
  C18: A projection is decided by the declaration. The declaration satisfies its contract; the version,
  the name, the pinning exemption, the world, the resources, the workspace, the network destinations,
  the interfaces and the services of the projected plan are the declared ones; every copy and every
  mount has the declared target, mode and secrecy and the source that the declaration resolves to below
  the retained anchor; every secret is redacted, every other digest is well formed, every source type is
  a file or a directory; the warning is there exactly for an unpinned base image; and the evidence
  digest is recomputed over exactly what is returned. Of the retained plan only the anchor, the copy
  digests and the mount source types count: any other plan with these gives the same projection.
\<close>

theorem projection_sound:
  assumes "ProjectEvidence host uni d raw retained = Inr e"
  shows "wf_declaration uni d \<and> clean_abs (rs_SourceAnchor e) \<and> observations e = observations retained
    \<and> redacted_plan (rs_Plan e) = rs_Plan e
    \<and> pl_Version (rs_Plan e) = d_Version d \<and> pl_Name (rs_Plan e) = d_Name d \<and> pl_AllowUnpinned (rs_Plan e) = d_AllowUnpinned d
    \<and> pw_Hostname (pl_World (rs_Plan e)) = dw_Hostname (d_World d) \<and> pw_Base (pl_World (rs_Plan e)) = dw_Base (d_World d)
    \<and> pw_Workdir (pl_World (rs_Plan e)) = dw_Workdir (d_World d) \<and> pw_User (pl_World (rs_Plan e)) = dw_User (d_World d)
    \<and> pr_CPUs (pl_Resources (rs_Plan e)) = dr_CPUs (d_Resources d)
    \<and> pr_MemoryBytes (pl_Resources (rs_Plan e)) = dr_MemoryBytes (d_Resources d)
    \<and> pr_PIDs (pl_Resources (rs_Plan e)) = dr_PIDs (d_Resources d)
    \<and> elems (pl_Workspace (rs_Plan e)) = d_Workspace d
    \<and> list_all2 (\<lambda>c o'. ResolveEvidenceSource (rs_SourceAnchor e) (dc_Source c) = Inr (pc_Source o')
         \<and> pc_Target o' = dc_Target c \<and> pc_Mode o' = dc_Mode c \<and> pc_Secret o' = dc_Secret c
         \<and> (if dc_Secret c then pc_SourceDigest o' = redaction else validPlanDigest (pc_SourceDigest o')))
         (d_Copies d) (elems (pl_Copies (rs_Plan e)))
    \<and> list_all2 (\<lambda>m o'. ResolveEvidenceSource (rs_SourceAnchor e) (dm_Source m) = Inr (pm_Source o')
         \<and> pm_Target o' = dm_Target m \<and> pm_Mode o' = dm_Mode m \<and> pm_SourceType o' \<in> {''file'', ''directory''}
         \<and> mountpath_Validate (pm_Source o') \<and> mountpath_Validate (pm_Target o'))
         (d_Mounts d) (elems (pl_Mounts (rs_Plan e)))
    \<and> list_all2 (\<lambda>a o'. pa_Host o' = da_Host a \<and> pa_Port o' = da_Port a) (d_Allow d) (elems (pl_NetworkAllow (rs_Plan e)))
    \<and> list_all2 (\<lambda>i o'. pi_Name o' = di_Name i \<and> pi_Address o' = di_Address i) (d_Interfaces d) (elems (pl_Interfaces (rs_Plan e)))
    \<and> list_all2 (\<lambda>s o'. ps_Name o' = ds_Name s \<and> ps_Command o' = Some (ds_Command s) \<and> ps_Autostart o' = ds_Autostart s
         \<and> ps_Restart o' = ds_Restart s) (d_Services d) (elems (pl_Services (rs_Plan e)))
    \<and> (rs_Warnings e = Some [] \<longleftrightarrow> ImagePinned (dw_Base (d_World d)))
    \<and> rs_PlanDigest e = rs_EvidenceDigest e
    \<and> rs_EvidenceDigest e = sha256_hex (Encode anchored_shape (VStruct [VString (rs_SourceAnchor e), Plan_value (rs_Plan e)]))
    \<and> rs_DeclarationDigest e = sha256_hex raw
    \<and> (\<forall>other. observations other = observations retained \<longrightarrow> ProjectEvidence host uni d raw other = Inr e)"
proof -
  let ?a = "rs_SourceAnchor retained"
  obtain copies mounts digest p where *:
    "ValidateEvidence host uni d ?a = Inr ()"
    "length (elems (pl_Copies (rs_Plan retained))) = length (d_Copies d)"
    "length (elems (pl_Mounts (rs_Plan retained))) = length (d_Mounts d)"
    "project_copies 0 ?a (d_Copies d) (elems (pl_Copies (rs_Plan retained))) = Inr copies"
    "project_mounts 0 ?a (d_Mounts d) (elems (pl_Mounts (rs_Plan retained))) = Inr mounts"
    "EvidenceCanonicalWithAnchor (assembled d copies mounts (appended (plan_interfaces d))) ?a = Inr (p, digest)"
    "e = \<lparr>rs_PlanDigest = digest, rs_EvidenceDigest = digest, rs_DeclarationDigest = sha256_hex raw, rs_SourceAnchor = ?a,
          rs_Warnings = warnings_for d, rs_Plan = assembled d copies mounts (appended (plan_interfaces d))\<rparr>"
    using assms by (auto simp: ProjectEvidence_def Let_def result_simps)
  have wf: "wf_declaration uni d" using *(1) by (simp add: ValidateEvidence_def validate_evidence_iff)
  then have clean: "\<And>c. c \<in> set (d_Copies d) \<Longrightarrow> Clean (dc_Target c) = dc_Target c"
    "\<And>m. m \<in> set (d_Mounts d) \<Longrightarrow> Clean (dm_Target m) = dm_Target m" "Clean (dw_Workdir (d_World d)) = dw_Workdir (d_World d)"
    by (simp_all add: wf_declaration_def wf_copy_def wf_mount_def list_all_iff Clean_clean_abs)
  note copies = project_copies_Inr [OF *(4) *(2)] and mounts = project_mounts_Inr [OF *(5) *(3)]
  have "redact_copy o' = o'" if "o' \<in> set copies" for o'
    using copies that by (cases o') (auto simp: redact_copy_def projected_copy_def list_all2_conv_all_nth in_set_conv_nth)
  then have red: "map redact_copy copies = copies" by (simp add: map_idI)
  then have "redacted_plan (rs_Plan e) = rs_Plan e" by (simp add: *(7) redacted_plan_def assembled_def)
  moreover have "list_all2 (\<lambda>c o'. ResolveEvidenceSource ?a (dc_Source c) = Inr (pc_Source o')
         \<and> pc_Target o' = dc_Target c \<and> pc_Mode o' = dc_Mode c \<and> pc_Secret o' = dc_Secret c
         \<and> (if dc_Secret c then pc_SourceDigest o' = redaction else validPlanDigest (pc_SourceDigest o'))) (d_Copies d) copies"
    using conjunct1 [OF copies] by (rule list.rel_mono_strong) (use clean in \<open>auto simp: projected_copy_def\<close>)
  moreover have "list_all2 (\<lambda>m o'. ResolveEvidenceSource ?a (dm_Source m) = Inr (pm_Source o')
         \<and> pm_Target o' = dm_Target m \<and> pm_Mode o' = dm_Mode m \<and> pm_SourceType o' \<in> {''file'', ''directory''}
         \<and> mountpath_Validate (pm_Source o') \<and> mountpath_Validate (pm_Target o')) (d_Mounts d) mounts"
    using conjunct1 [OF mounts] by (rule list.rel_mono_strong) (use clean in auto)
  moreover have "\<forall>other. observations other = observations retained \<longrightarrow> ProjectEvidence host uni d raw other = Inr e"
    using assms ProjectEvidence_observations by metis
  ultimately show ?thesis
    using wf copies mounts clean(3) *(6)
    by (simp add: *(7) EvidenceCanonicalWithAnchor_iff observations_def assembled_def appended_def plan_interfaces_def plan_service_def
        warnings_for_def list.rel_map list.rel_refl)
qed

theorem projection_sound_witness:
  "\<exists>e. ProjectEvidence empty_host id demo_declaration [] e = Inr e
     \<and> map pc_SourceDigest (elems (pl_Copies (rs_Plan e))) = [redaction]"
proof -
  obtain r where r: "BuildContext demo_host id None background demo_declaration ''/srv/world.toml'' [] = Inr r"
    using demo_built by blast
  have e: "ProjectEvidence empty_host id demo_declaration [] (retained_result r) = Inr (retained_result r)"
    by (rule built_projects [OF r]) (rule demo_digests)
  from projection_sound [OF e] have "list_all2 (\<lambda>c o'. (if dc_Secret c then pc_SourceDigest o' = redaction else validPlanDigest (pc_SourceDigest o')))
      (d_Copies demo_declaration) (elems (pl_Copies (rs_Plan (retained_result r))))"
    by (elim conjE) (erule list_all2_mono, simp)
  then show ?thesis
    using e by (auto simp: demo_declaration_def list_all2_Cons1)
qed

end
