(* ===== verification/Job_Accept.thy ===== *)
theory Job_Accept
  imports Job_Stages Plan_Properties
begin

text \<open>
  What the executor seals, the verifier accepts: the files of a sealed run, and every check of the
  verifier on them.
\<close>

section \<open>Opening and publishing\<close>

lemma parse_bound:
  "ParseRequest raw = Inr x1 \<Longrightarrow> length raw \<le> MaximumRequestBytes" "ParseResult raw = Inr x2 \<Longrightarrow> length raw \<le> MaximumResultBytes"
  "ParseProvenance raw = Inr x3 \<Longrightarrow> length raw \<le> MaximumProvenanceBytes"
  "ParseRuntimeObservation raw = Inr x4 \<Longrightarrow> length raw \<le> MaximumManifestBytes"
  "ParseEgressEvidence raw = Inr x5 \<Longrightarrow> length raw \<le> MaximumEgressEvidenceBytes"
  by (auto simp: ParseRequest_def ParseResult_def ParseProvenance_def ParseRuntimeObservation_def ParseEgressEvidence_def
      decode_def decode_bounds_def result_simps)

lemmas byte_bounds = MaximumRequestBytes_def MaximumResultBytes_def MaximumManifestBytes_def MaximumProvenanceBytes_def
  MaximumEgressEvidenceBytes_def MaximumWireInteger_def

lemma kind_lookups:
  "map_of known_kinds ''declaration.toml'' = Some ''declaration''" "map_of known_kinds ''plan.json'' = Some ''plan''"
  "map_of known_kinds ''provenance.json'' = Some ''provenance''" "map_of known_kinds ''request.json'' = Some ''request''"
  "map_of known_kinds ''result.json'' = Some ''result''" "map_of known_kinds ''runtime-before.json'' = Some ''runtime''"
  "map_of known_kinds ''runtime-after.json'' = Some ''runtime''" "map_of known_kinds ''stdout.bin'' = Some ''stdout''"
  "map_of known_kinds ''stderr.bin'' = Some ''stderr''" "map_of known_kinds ''egress.json'' = Some ''egress''"
  "map_of known_kinds ''target-inventory.json'' = Some ''target_inventory''"
  by code_simp+

lemma request_limits: "ParseRequest raw = Inr q \<Longrightarrow> request_ok q"
  by (auto simp: ParseRequest_def result_simps simp flip: ValidateRequest_ok)

definition stream_of :: "bytes \<Rightarrow> bytes \<Rightarrow> int \<Rightarrow> capture \<Rightarrow> bool" where
  "stream_of name kind maximum c = (cap_name c = name \<and> cap_kind c = kind \<and> cap_maximum c = maximum \<and> capture_ok c)"

lemma open_evidence_Inr:
  assumes "open_evidence ex host dir qr q dr p = Inr (v, vr, w, so, se)" and "ParseRequest qr = Inr q"
    and "length dr \<le> MaximumRequestBytes" and "\<And>raw. plan_JSON p = Inr raw \<Longrightarrow> length raw \<le> MaximumManifestBytes"
  obtains planRaw executable where "plan_JSON p = Inr planRaw"
    "v = currentProvenance (h_go host) (ex_Build ex) (digest executable)" "vr = Encode Provenance_shape (Provenance_value v)"
    "is_ok (ParseProvenance vr)" "writer_ok w" "no_artifacts w"
    "w_files w = [(''declaration.toml'', dr), (''plan.json'', planRaw), (''provenance.json'', vr), (''request.json'', qr)]"
    "stream_of ''stdout.bin'' ''stdout'' (lim_StdoutMaxBytes (req_Limits q)) so"
    "stream_of ''stderr.bin'' ''stderr'' (lim_StderrMaxBytes (req_Limits q)) se" "IsAbs dir" "Clean dir = dir"
proof -
  obtain planRaw executable w1 w2 w3 where plan: "plan_JSON p = Inr planRaw"
    and prov: "executableProvenance (h_go host) (ex_Build ex) executable = Inr (v, vr)"
    and dir: "IsAbs dir" "Clean dir = dir"
    and writes: "evidence_Write (h_fails host) ''declaration.toml'' ''declaration'' dr new_writer = Inr w1"
      "evidence_Write (h_fails host) ''plan.json'' ''plan'' planRaw w1 = Inr w2"
      "evidence_Write (h_fails host) ''provenance.json'' ''provenance'' vr w2 = Inr w3"
      "evidence_Write (h_fails host) ''request.json'' ''request'' qr w3 = Inr w"
    and streams: "evidence_Stream (h_fails host) ''stdout.bin'' ''stdout'' (lim_StdoutMaxBytes (req_Limits q)) w = Inr so"
      "evidence_Stream (h_fails host) ''stderr.bin'' ''stderr'' (lim_StderrMaxBytes (req_Limits q)) w = Inr se"
    using assms(1) by (auto simp: open_evidence_def createEvidence_def result_simps)
  have v: "v = currentProvenance (h_go host) (ex_Build ex) (digest executable)" "vr = Encode Provenance_shape (Provenance_value v)"
    "is_ok (ParseProvenance vr)"
    using prov by (auto simp: executableProvenance_def Let_def result_simps is_ok_iff)
  have bounds: "int (length dr) \<le> MaximumWireInteger" "int (length planRaw) \<le> MaximumWireInteger"
    "int (length vr) \<le> MaximumWireInteger" "int (length qr) \<le> MaximumWireInteger"
    using assms(3) assms(4) [OF plan] parse_bound(1) [OF assms(2)] v(3) parse_bound(3) [of vr] by (auto simp: byte_bounds is_ok_iff)
  have w0: "writer_ok new_writer" "w_files new_writer = []" by (simp_all add: writer_ok_def new_writer_def)
  note w1 = writer_Write [OF writes(1) w0(1) kind_lookups(1) bounds(1)]
  note w2 = writer_Write [OF writes(2) conjunct1 [OF w1] kind_lookups(2) bounds(2)]
  note w3 = writer_Write [OF writes(3) conjunct1 [OF w2] kind_lookups(3) bounds(3)]
  note w4 = writer_Write [OF writes(4) conjunct1 [OF w3] kind_lookups(4) bounds(4)]
  have files: "w_files w = [(''declaration.toml'', dr), (''plan.json'', planRaw), (''provenance.json'', vr), (''request.json'', qr)]"
    using w0 w1 w2 w3 w4 by simp
  have "limits_ok (req_Limits q)" using request_limits [OF assms(2)] by (simp add: request_ok_def Let_def)
  then have "stream_of ''stdout.bin'' ''stdout'' (lim_StdoutMaxBytes (req_Limits q)) so"
    "stream_of ''stderr.bin'' ''stderr'' (lim_StderrMaxBytes (req_Limits q)) se"
    using streams by (auto simp: evidence_Stream_def result_simps stream_of_def capture_ok_def limits_ok_def MaximumWireInteger_def)
  moreover have "no_artifacts w" by (simp add: no_artifacts_def files known_name_def kind_lookups)
  ultimately show thesis using that plan v w4 files dir by blast
qed

definition published :: "run_state \<Rightarrow> bytes \<Rightarrow> bytes \<Rightarrow> bytes \<Rightarrow> (bytes \<times> bytes) list" where
  "published st stdout stderr resultRaw =
     [(''runtime-before.json'', or_empty (st_before st)), (''runtime-after.json'', or_empty (st_after st))]
     @ (if st_egress st = [] then [] else [(''egress.json'', st_egress st)])
     @ [(''stdout.bin'', stdout), (''stderr.bin'', stderr), (''result.json'', resultRaw)]"

definition stream_result :: "bytes \<Rightarrow> int \<Rightarrow> bytes \<Rightarrow> StreamResult \<Rightarrow> bool" where
  "stream_result name maximum raw s =
     (validateStream s name = Inr () \<and> stm_SHA256 s = digest raw \<and> stm_CapturedBytes s = int (length raw) \<and> int (length raw) \<le> maximum)"

definition honest :: "(nat option \<times> bytes) list \<Rightarrow> bool" where
  "honest writes = list_all (\<lambda>(short, _). short = None) writes"

lemma close_stage:
  assumes "capture_CloseResult fails (capture_all writes c) w = Inr (s, w')" and "writer_ok w" and "stream_of name kind maximum c"
    and "honest writes" and "map_of known_kinds name = Some kind" and "name \<notin> fst ` set (w_files w)"
  obtains raw where "writer_ok w'" "w_files w' = w_files w @ [(name, raw)]" "stream_result name maximum raw s"
proof -
  note c = capture_all_ok [of writes c]
  have ok: "capture_ok (capture_all writes c)" "cap_name (capture_all writes c) = name" "cap_kind (capture_all writes c) = kind"
    "cap_maximum (capture_all writes c) = maximum"
    using c assms(3,4) by (simp_all add: honest_def stream_of_def)
  note closed = writer_Close [OF assms(1,2) ok(1), unfolded ok(2,3), OF assms(5,6)]
  have "stream_result name maximum (cap_hashed (capture_all writes c)) s"
    using closed ok(1,4) digest_valid by (auto simp: stream_result_def validateStream_def capture_ok_def)
  then show thesis using that closed by blast
qed

lemma settled_bounds:
  assumes "settled uni q qr p v vr st"
  shows "length (or_empty (st_before st)) \<le> MaximumManifestBytes" "length (or_empty (st_after st)) \<le> MaximumManifestBytes"
    "length (st_egress st) \<le> MaximumEgressEvidenceBytes"
proof -
  have "runtime_ok q p v st" "egress_ok uni p st" using assms by (simp_all add: settled_def)
  then show "length (or_empty (st_before st)) \<le> MaximumManifestBytes" "length (or_empty (st_after st)) \<le> MaximumManifestBytes"
    by (auto simp: runtime_ok_def no_observation_def observed_def or_empty_def MaximumManifestBytes_def Let_def
        dest!: parse_bound(4) split: if_splits)
  show "length (st_egress st) \<le> MaximumEgressEvidenceBytes"
    using \<open>egress_ok uni p st\<close> parse_bound(5) by (auto simp: egress_ok_def Let_def split: if_splits)
qed

lemma publish_Inr:
  assumes "publish fails x q so se st = Inr (outcome, w')" and "settled uni q qr p v vr st" and "writer_ok (st_writer st)"
    and "stream_of ''stdout.bin'' ''stdout'' outMax so" and "stream_of ''stderr.bin'' ''stderr'' errMax se"
    and "honest (x_stdout x)" and "honest (x_stderr x)"
    and "''stdout.bin'' \<notin> fst ` set (w_files (st_writer st))" "''stderr.bin'' \<notin> fst ` set (w_files (st_writer st))"
  obtains r w m stdout stderr out err where
    "r = settle_streams out err (with_identity (\<lambda>i. i\<lparr>exe_RuntimeSHA256 := runtimeEvidenceDigest (or_empty (st_before st)) (or_empty (st_after st))\<rparr>)
       (st_result st))" "oc_Result outcome = r"
    "is_ok (ParseResult (Encode Result_shape (Result_value r)))" "writer_ok w"
    "w_files w = w_files (st_writer st) @ published st stdout stderr (Encode Result_shape (Result_value r))"
    "Seal fails (req_JobID q) (res_RequestSHA256 r) (digest (Encode Result_shape (Result_value r))) (x_sealedAt x) w = Inr (m, w')"
    "stream_result ''stdout.bin'' outMax stdout out" "stream_result ''stderr.bin'' errMax stderr err"
proof -
  let ?b = "or_empty (st_before st)" and ?a = "or_empty (st_after st)"
  let ?r0 = "with_identity (\<lambda>i. i\<lparr>exe_RuntimeSHA256 := runtimeEvidenceDigest ?b ?a\<rparr>) (st_result st)"
  obtain w1 w2 w3 out w4 err w5 pr w6 m w7 where
    "evidence_Write fails ''runtime-before.json'' ''runtime'' ?b (st_writer st) = Inr w1"
    "evidence_Write fails ''runtime-after.json'' ''runtime'' ?a w1 = Inr w2"
    "(if st_egress st \<noteq> [] then evidence_Write fails ''egress.json'' ''egress'' (st_egress st) w2 else Inr w2) = Inr w3"
    "capture_CloseResult fails (capture_all (x_stdout x) so) w3 = Inr (out, w4)"
    "capture_CloseResult fails (capture_all (x_stderr x) se) w4 = Inr (err, w5)"
    "ParseResult (Encode Result_shape (Result_value (settle_streams out err ?r0))) = Inr pr"
    "evidence_Write fails ''result.json'' ''result'' (Encode Result_shape (Result_value (settle_streams out err ?r0))) w5 = Inr w6"
    "Seal fails (req_JobID q) (res_RequestSHA256 (settle_streams out err ?r0))
       (digest (Encode Result_shape (Result_value (settle_streams out err ?r0)))) (x_sealedAt x) w6 = Inr (m, w7)"
    "\<lparr>oc_Result = settle_streams out err ?r0, oc_Sealed = True\<rparr> = outcome" "w7 = w'"
    using assms(1)
    unfolding publish_def Let_def bind_result_Inr of_contract_Inr split_paired_Ex prod.case sum.inject prod.inject
    by (elim exE conjE) (rule that)
  note steps = this
  define r where "r = settle_streams out err ?r0"
  note steps = steps [folded r_def]
  note bounds = settled_bounds [OF assms(2)]
  have sizes: "int (length ?b) \<le> MaximumWireInteger" "int (length ?a) \<le> MaximumWireInteger" "int (length (st_egress st)) \<le> MaximumWireInteger"
    "int (length (Encode Result_shape (Result_value r))) \<le> MaximumWireInteger"
    using bounds parse_bound(2) [OF steps(6)] by (simp_all add: byte_bounds)
  note w1 = writer_Write [OF steps(1) assms(3) kind_lookups(6) sizes(1)]
  note w2 = writer_Write [OF steps(2) conjunct1 [OF w1] kind_lookups(7) sizes(2)]
  have w3: "writer_ok w3 \<and> w_files w3 = w_files w2 @ (if st_egress st = [] then [] else [(''egress.json'', st_egress st)])"
    using steps(3) w2 writer_Write [OF _ conjunct1 [OF w2] kind_lookups(10) sizes(3), of fails w3] by (auto split: if_splits)
  have "''stdout.bin'' \<notin> fst ` set (w_files w3)" "''stderr.bin'' \<notin> fst ` set (w_files w3)"
    using w1 w2 w3 assms(8,9) by auto
  note n3 = this
  obtain stdout where w4: "writer_ok w4" "w_files w4 = w_files w3 @ [(''stdout.bin'', stdout)]" and out: "stream_result ''stdout.bin'' outMax stdout out"
    by (rule close_stage [OF steps(4) conjunct1 [OF w3] assms(4,6) kind_lookups(8) n3(1)])
  have n4: "''stderr.bin'' \<notin> fst ` set (w_files w4)" using n3 w4(2) by auto
  obtain stderr where w5: "writer_ok w5" "w_files w5 = w_files w4 @ [(''stderr.bin'', stderr)]" and err: "stream_result ''stderr.bin'' errMax stderr err"
    by (rule close_stage [OF steps(5) w4(1) assms(5,7) kind_lookups(9) n4])
  note w6 = writer_Write [OF steps(7) w5(1) kind_lookups(5) sizes(4)]
  have "w_files w6 = w_files (st_writer st) @ published st stdout stderr (Encode Result_shape (Result_value r))"
    using w1 w2 w3 w4 w5 w6 by (simp add: published_def)
  then show thesis
    by (intro that [OF r_def _ _ conjunct1 [OF w6] _ steps(8) [unfolded steps(10)] out err]) (simp_all add: steps(6) flip: steps(9))
qed

section \<open>The retained plan\<close>

lemma ValidateJSON_indent:
  assumes "shaped t v" and "utf8_value v" and "shape_names t" and "shape_depth t \<le> max_nesting"
    and "length (json_indent html l (marshal t v) @ [newline]) \<le> maximum"
  shows "ValidateJSONDocument (json_indent html l (marshal t v) @ [newline]) maximum = Inr ()"
proof -
  let ?raw = "json_indent html l (marshal t v) @ [newline]"
  have ok: "json_ok (marshal t v)" by (rule marshal_ok(1) [OF assms(2,3)])
  have parse: "json_parse ?raw = Some (marshal t v)" by (rule json_parse_indent [OF ok]) (simp add: is_ws_newline)
  have "utf8_piece ?raw"
    by (intro utf8_piece_append utf8_json_indent ok) (simp add: utf8_piece_Cons is_ascii_def newline_def)
  then have "decode_bounds ?raw maximum = Inr ()"
    using assms(5) by (simp add: decode_bounds_def utf8_piece_valid)
  moreover have "rejectDuplicateKeys ?raw = Inr ()"
    using parse assms by (simp add: rejectDuplicateKeys_def marshal_distinct_keys)
  moreover have "json_depth (marshal t v) \<le> max_nesting"
    using marshal_depth(1) assms(4) order_trans by blast
  ultimately show ?thesis using parse by (simp add: ValidateJSONDocument_def)
qed

lemma retained_fields [simp]:
  "pl_World (rs_Plan (retained_result p)) = pl_World (rs_Plan p)" "pl_Resources (rs_Plan (retained_result p)) = pl_Resources (rs_Plan p)"
  "pl_Workspace (rs_Plan (retained_result p)) = pl_Workspace (rs_Plan p)" "pl_Mounts (rs_Plan (retained_result p)) = pl_Mounts (rs_Plan p)"
  "pl_NetworkAllow (rs_Plan (retained_result p)) = pl_NetworkAllow (rs_Plan p)"
  by (simp_all add: retained_result_def normal_plan_def redacted_plan_def)

lemma retained_mounts [simp]: "expected_mounts (rs_Plan (retained_result p)) = expected_mounts (rs_Plan p)"
  unfolding expected_mounts_def by (simp only: retained_fields)

lemma retained_check_mount [simp]: "check_mount (rs_Plan (retained_result p)) = check_mount (rs_Plan p)"
  by (rule ext)+ (simp only: check_mount_def retained_fields retained_mounts)

lemma retained_checks [simp]:
  "verifyRuntimeBeforeObservation b r q (retained_result p) v = verifyRuntimeBeforeObservation b r q p v"
  "verifyEgressEvidence uni e (retained_result p) r b = verifyEgressEvidence uni e p r b"
  by (simp_all add: verifyRuntimeBeforeObservation_def verifyEgressEvidence_def Let_def)

lemma retained_observations [simp]: "verifyRuntimeObservations b a r q (retained_result p) v = verifyRuntimeObservations b a r q p v"
  by (simp add: verifyRuntimeObservations_def)

lemma retained_secrets [simp]: "validateSecretEnvironment q (retained_result p) = validateSecretEnvironment q p"
proof -
  have "map pc_Target (filter pc_Secret (elems (pl_Copies (rs_Plan (retained_result p))))) = map pc_Target (filter pc_Secret (elems (pl_Copies (rs_Plan p))))"
  proof -
    have "map pc_Target (filter pc_Secret (map redact_copy cs)) = map pc_Target (filter pc_Secret cs)" for cs
      by (induction cs) (simp_all add: redact_copy_def)
    then show ?thesis
      by (cases "pl_Copies (rs_Plan p)") (simp_all add: retained_result_def normal_plan_def redacted_plan_def)
  qed
  then show ?thesis by (simp add: validateSecretEnvironment_def)
qed

lemma prefixed_evidence: "prefixedDigest (sha256_hex m) = ''sha256:'' @ sha256_hex m"
proof -
  have "\<not> HasPrefix (sha256_hex m) ''sha256:''"
    using sha256_hex_lower [of m] by (auto simp: HasPrefix_iff is_lower_hex_def is_digit_def)
  then show ?thesis by (simp add: prefixedDigest_def)
qed

lemma verify_plan_built:
  assumes "Parse dr = Inr d" and "BuildContext host uni wd ctx d path dr = Inr p"
    and "\<And>s x. fs_digest host s = Some x \<Longrightarrow> validPlanDigest x" and "ValidUTF8 (rs_SourceAnchor p)"
    and "plan_JSON p = Inr planRaw" and "length planRaw \<le> MaximumManifestBytes"
    and "exe_PlanSHA256 (res_Identity r) = prefixedDigest (rs_EvidenceDigest p)" and "validateSecretEnvironment q p = Inr ()"
  shows "verify_plan uni q r planRaw dr = Inr (retained_result p)"
proof -
  have typed: "typed_declaration d" using Parse_typed [OF assms(1)] by blast
  have "shaped plan_Result_shape (plan_Result_value (retained_result p)) \<and> utf8_value (plan_Result_value (retained_result p))"
    by (rule built_document [OF assms(2) _ typed assms(4)]) (rule assms(3))
  then have doc: "shaped plan_Result_shape (plan_Result_value (retained_result p))" "utf8_value (plan_Result_value (retained_result p))"
    by blast+
  have raw: "planRaw = json_indent True 0 (marshal plan_Result_shape (plan_Result_value (retained_result p))) @ [newline]"
    using built_JSON [OF assms(2)] assms(5) by simp
  have "ValidateJSONDocument planRaw MaximumManifestBytes = Inr ()"
    using ValidateJSON_indent [OF doc plan_shape_facts] assms(6) raw by simp
  moreover have "Unmarshal True plan_Result_shape planRaw = Some (plan_Result_value (retained_result p))"
    unfolding raw by (rule Unmarshal_indent [OF doc plan_shape_facts]) simp
  moreover have evidence: "EvidenceCanonicalWithAnchor (rs_Plan p) (rs_SourceAnchor p) = Inr (redacted_plan (rs_Plan p), rs_EvidenceDigest p)"
    using assms(2) by (rule BuildContext_Inr)
  then have "EvidenceCanonicalWithAnchor (rs_Plan (retained_result p)) (rs_SourceAnchor (retained_result p))
      = Inr (rs_Plan (retained_result p), rs_EvidenceDigest p)"
    using EvidenceCanonical_normal by (simp add: retained_result_def)
  ultimately have content: "planContentDigest planRaw = Inr (retained_result p, prefixedDigest (rs_EvidenceDigest p))"
    by (simp add: planContentDigest_def)
  have "ProjectEvidence empty_host uni d dr (retained_result p) = Inr (retained_result p)"
    by (rule built_projects [OF assms(2)]) (rule assms(3))
  then show ?thesis
    using content assms(1,7,8) by (simp add: verify_plan_def) (simp add: retained_result_def)
qed

section \<open>The result document\<close>

lemma set_sortedUnique [simp]: "set (elems (sortedUnique rs)) = set (elems rs)"
  by (cases rs) (simp_all add: sortedUnique_def)

lemma published_result:
  assumes "settled uni q qr p v vr st"
    and "r = settle_streams out err (with_identity (\<lambda>i. i\<lparr>exe_RuntimeSHA256 := d\<rparr>) (st_result st))"
  shows "frame q qr p vr r \<and> weaker (st_result st) r \<and> res_Cleanup r = res_Cleanup (st_result st) \<and> res_Target r = res_Target (st_result st)
    \<and> res_Finalization r = res_Finalization (st_result st) \<and> res_Stdout r = out \<and> res_Stderr r = err
    \<and> exe_RuntimeSHA256 (res_Identity r) = d \<and> exe_EgressSHA256 (res_Identity r) = exe_EgressSHA256 (res_Identity (st_result st))"
proof -
  have f: "frame q qr p vr (st_result st)" using assms(1) by (simp add: settled_def)
  have utf8: "ValidUTF8 ''OUTPUT_TRUNCATED''" "ValidUTF8 ''RUNTIME_IDENTITY_INCOMPLETE''" by (rule reason_name_utf8, simp add: reason_names_def)+
  have "frame q qr p vr r" using f utf8 by (auto simp: assms(2) settle_streams_def Let_def frame_def list_all_iff)
  moreover have "weaker (st_result st) r"
    by (auto simp: assms(2) settle_streams_def Let_def weaker_def runtime_view_def)
  ultimately show ?thesis by (simp add: assms(2) settle_streams_def Let_def)
qed

lemma runtime_digest_utf8: "validRuntimeDigest s \<Longrightarrow> ValidUTF8 s"
proof -
  assume "validRuntimeDigest s"
  then obtain t where t: "s = ''sha256:'' @ t" "list_all is_hex t"
    using TrimPrefix_append [of "''sha256:''"] by (auto simp: validRuntimeDigest_def HasPrefix_iff hex_decodes_def)
  have "is_hex c \<Longrightarrow> is_ascii c" for c by (auto simp: is_hex_def is_lower_hex_def is_digit_def is_ascii_def)
  then show "ValidUTF8 s" using t by (intro ValidUTF8_ascii) (auto simp: list_all_iff is_ascii_def)
qed

lemma frame_identity:
  assumes "frame q qr p vr r" and "request_ok q" and "ValidUTF8 (pw_Base (pl_World (rs_Plan p)))" and "ValidUTF8 (rs_EvidenceDigest p)"
    and "ValidUTF8 (exe_RuntimeSHA256 (res_Identity r))" and "ValidUTF8 (exe_EgressSHA256 (res_Identity r))"
  shows "shaped ExecutionIdentity_shape (ExecutionIdentity_value (res_Identity r)) \<and> utf8_value (ExecutionIdentity_value (res_Identity r))"
proof -
  have "ValidUTF8 ''podman-cli''" by code_simp
  moreover have "ValidUTF8 (prefixedDigest s)" if "ValidUTF8 s" for s
    using that by (simp add: prefixedDigest_def ValidUTF8_ascii_Cons)
  ultimately show ?thesis
    using assms digest_utf8 [OF digest_valid, of vr] runtime_digest_utf8
    by (auto simp: frame_def Let_def ExecutionIdentity_shape_def ExecutionIdentity_value_def wire_bounds image_ok_def request_ok_def
        intro: digest_utf8)
qed

lemma interval_document:
  "shaped FinalizationResult_shape (FinalizationResult_value (interval a b d)) \<and> utf8_value (FinalizationResult_value (interval a b d))"
  using boundedDuration_range [of d] Format_valid
  by (simp add: FinalizationResult_shape_def FinalizationResult_value_def interval_def wire_bounds)

lemma result_reads_back:
  assumes "frame q qr p vr r" and "request_ok q" and "ValidUTF8 (pw_Base (pl_World (rs_Plan p)))" and "ValidUTF8 (rs_EvidenceDigest p)"
    and "ValidUTF8 (exe_RuntimeSHA256 (res_Identity r))" and "ValidUTF8 (exe_EgressSHA256 (res_Identity r))"
    and "validateCleanup (res_Cleanup r) = Inr ()" and "res_Finalization r = interval a b d"
    and "validateStream (res_Stdout r) ''stdout.bin'' = Inr ()" and "validateStream (res_Stderr r) ''stderr.bin'' = Inr ()"
    and "is_ok (ParseResult (Encode Result_shape (Result_value r)))"
  shows "ParseResult (Encode Result_shape (Result_value r)) = Inr r"
proof -
  have lits: "ValidUTF8 ResultSchema" "ValidUTF8 ''manifest.json''" "ValidUTF8 ''stdout.bin''" "ValidUTF8 ''stderr.bin''"
    "ValidUTF8 ''complete''" "ValidUTF8 ''incomplete''" "ValidUTF8 ''refused''" by code_simp+
  have f: "res_Schema r = ResultSchema" "res_JobID r = req_JobID q" "res_RequestSHA256 r = digest qr" "res_EvidenceManifest r = ''manifest.json''"
    "validateTarget (res_Target r) = Inr ()" "res_Status r \<in> {''complete'', ''incomplete'', ''refused''}" "list_all ValidUTF8 (elems (res_Reasons r))"
    using assms(1) by (simp_all add: frame_def Let_def)
  have "ValidUTF8 (req_JobID q)" using assms(2) validID_utf8 by (simp add: request_ok_def Let_def)
  then have "shaped Result_shape (Result_value r) \<and> utf8_value (Result_value r)"
    using frame_identity [OF assms(1-6)] target_ok [OF f(5)] cleanup_ok [OF assms(7)] interval_document [of a b d] assms(8)
      stream_ok [OF assms(9) lits(3)] stream_ok [OF assms(10) lits(4)] digest_utf8 [OF digest_valid, of qr] f lits
    by (auto simp: Result_shape_def Result_value_def utf8_strings elems_all)
  moreover obtain x where x: "ParseResult (Encode Result_shape (Result_value r)) = Inr x" using assms(11) by (auto simp: is_ok_iff)
  ultimately have "decode Result_shape (Encode Result_shape (Result_value r)) MaximumResultBytes = Inr (Result_value r)"
    using parse_bound(2) [OF x] by (intro decode_Encode shape_facts) simp_all
  then show ?thesis using x by (auto simp: ParseResult_def result_simps)
qed

end
