(* ===== verification/Job_Documents.thy ===== *)
theory Job_Documents
  imports Job_Accept "HOL-Library.Multiset"
begin

text \<open>
  The verifier's reading of the documents that a run published: the empty runtime document, the sealed
  entries by name, and the artifacts against their inventory.
\<close>

section \<open>The empty runtime document\<close>

lemma trim_right_prefix: "\<exists>t. s = trim_right s @ t"
proof (induction s rule: trim_right.induct)
  case (1 s)
  show ?case
  proof (cases "s = []")
    case False
    obtain r n where d: "decode_last_rune s = (r, n)" by force
    show ?thesis
    proof (cases "IsSpace r")
      case True
      have "trim_right s = trim_right (take (length s - n) s)"
        using False d True by (subst trim_right.simps) simp
      moreover obtain t where "take (length s - n) s = trim_right (take (length s - n) s) @ t"
        using 1 False d True by (metis (no_types))
      ultimately show ?thesis by (metis append_assoc append_take_drop_id)
    next
      case False
      then show ?thesis using d by (subst trim_right.simps) simp
    qed
  qed (simp add: trim_right.simps)
qed

lemma trim_left_skip:
  "trim_left s = CHR ''{'' # t \<Longrightarrow> skip_ws s = CHR ''{'' # t \<or> (\<exists>c u. skip_ws s = c # u \<and> (byte c \<in> {11, 12} \<or> (128 :: nat) \<le> byte c))"
proof (induction s rule: trim_left.induct)
  case (2 c s)
  obtain r n ok where d: "decode_rune c s = (r, n, ok)" by (metis prod.collapse)
  show ?case
  proof (cases "IsSpace r")
    case True
    show ?thesis
    proof (cases "is_ws c")
      case ws: True
      then have "n = 0" using d by (auto simp: decode_rune_def is_ws_def split: if_splits)
      then show ?thesis using 2 d True ws by simp
    next
      case False
      have "byte c \<in> {11, 12} \<or> (128 :: nat) \<le> byte c"
        using d True False by (auto simp: decode_rune_def IsSpace_def is_ws_def split: if_splits)
      then show ?thesis using False by auto
    qed
  next
    case False
    then show ?thesis using 2 d by (simp add: is_ws_def)
  qed
qed simp

lemma json_value_bad:
  assumes "skip_ws s = c # u" and "byte c \<in> {11, 12} \<or> (128 :: nat) \<le> byte c"
  shows "json_value n s = None"
proof -
  have "c \<noteq> quote_char" "c \<noteq> CHR ''[''" "c \<noteq> CHR ''{''" "c \<noteq> CHR ''n''" "c \<noteq> CHR ''t''" "c \<noteq> CHR ''f''" "\<not> num_char c"
    using assms(2) by (auto simp: quote_char_def num_char_def is_digit_def)
  then show ?thesis using assms(1) by (cases n) (auto simp: HasPrefix_Cons json_number_ok_def)
qed

lemma empty_object:
  assumes "TrimSpace raw = ''{}''" and "json_parse raw = Some j"
  shows "j = JObj []"
proof -
  obtain post where post: "trim_left raw = CHR ''{'' # CHR ''}'' # post"
    using trim_right_prefix [of "trim_left raw"] assms(1) by (auto simp: TrimSpace_def)
  obtain v t where v: "json_value (Suc (2 * length raw)) raw = Some (v, t)" "j = v"
    using assms(2) by (auto simp: json_parse_def split: option.splits if_splits)
  have "skip_ws raw = CHR ''{'' # CHR ''}'' # post"
    using trim_left_skip [OF post] json_value_bad [of raw] v(1) by (metis option.distinct(1))
  moreover have "skip_ws (CHR ''}'' # post) = CHR ''}'' # post" "CHR ''{'' \<noteq> quote_char" by (simp_all add: is_ws_def quote_char_def)
  ultimately show ?thesis using v by simp
qed

lemma observation_not_empty:
  assumes "ParseRuntimeObservation raw = Inr b"
  shows "parseRetainedRuntimeObservation raw = Inr (Some b)"
proof -
  have "TrimSpace raw \<noteq> ''{}''"
  proof
    assume empty: "TrimSpace raw = ''{}''"
    obtain v where u: "Unmarshal True RuntimeObservation_shape raw = Some v" and b: "ValidateRuntimeObservation (RuntimeObservation_of v) = Inr ()"
      using assms by (auto simp: ParseRuntimeObservation_def decode_def result_simps split: option.splits)
    have "unmarshal True RuntimeObservation_shape (zero_value RuntimeObservation_shape) (JObj []) = Some v"
      using u empty_object [OF empty] by (auto simp: Unmarshal_def split: option.splits if_splits)
    moreover have "case unmarshal True RuntimeObservation_shape (zero_value RuntimeObservation_shape) (JObj []) of
        None \<Rightarrow> True | Some v \<Rightarrow> ValidateRuntimeObservation (RuntimeObservation_of v) \<noteq> Inr ()" by code_simp
    ultimately show False using b by simp
  qed
  then show ?thesis using assms by (simp add: parseRetainedRuntimeObservation_def)
qed

lemma retained_before:
  "parseRetainedRuntimeObservation (or_empty []) = Inr None"
  "ParseRuntimeObservation raw = Inr b \<Longrightarrow> parseRetainedRuntimeObservation (or_empty raw) = Inr (Some b)"
proof -
  have "parseRetainedRuntimeObservation (or_empty []) = Inr None" by code_simp
  then show "parseRetainedRuntimeObservation (or_empty []) = Inr None" .
  assume p: "ParseRuntimeObservation raw = Inr b"
  then have "raw \<noteq> []" by (auto simp: ParseRuntimeObservation_def decode_def decode_bounds_def result_simps)
  then show "parseRetainedRuntimeObservation (or_empty raw) = Inr (Some b)"
    using observation_not_empty [OF p] by (simp add: or_empty_def)
qed

section \<open>Runtime and egress\<close>

lemma runtime_accepted:
  assumes "runtime_ok q p v st" and "weaker (st_result st) r"
  shows "\<exists>before after. parseRetainedRuntimeObservation (or_empty (st_before st)) = Inr before
    \<and> parseRetainedRuntimeObservation (or_empty (st_after st)) = Inr after
    \<and> verifyRetainedRuntimeEvidence before after r q (retained_result p) v = Inr ()
    \<and> (\<forall>b. ParseRuntimeObservation (st_before st) = Inr b \<longrightarrow> before = Some b)"
proof -
  have view: "runtime_view r = runtime_view (st_result st)" using assms(2) by (simp add: weaker_def)
  note congs = before_cong [OF view] observations_cong [OF view]
  show ?thesis
  proof (cases "no_observation st")
    case True
    then have "verifyRetainedRuntimeEvidence None None r q (retained_result p) v = Inr ()"
      using assms(2) by (auto simp: verifyRetainedRuntimeEvidence_def no_observation_def weaker_def runtime_view_def start_failures_def Let_def)
    moreover have "ParseRuntimeObservation [] = Inl DocumentEmpty" by (simp add: ParseRuntimeObservation_def decode_def decode_bounds_def)
    ultimately show ?thesis using True retained_before(1) by (auto simp: no_observation_def Let_def)
  next
    case False
    then obtain b where b: "ParseRuntimeObservation (st_before st) = Inr b" "verifyRuntimeBeforeObservation b (st_result st) q p v = Inr ()"
      and after: "if st_after st = [] then res_Status (st_result st) \<noteq> ''complete'' \<and> ''FINALIZATION_FAILED'' \<in> set (elems (res_Reasons (st_result st)))
         else \<exists>a. ParseRuntimeObservation (st_after st) = Inr a \<and> verifyRuntimeObservations b a (st_result st) q p v = Inr ()"
      using assms(1) by (auto simp: runtime_ok_def observed_def)
    show ?thesis
    proof (cases "st_after st = []")
      case True
      then have "verifyRetainedRuntimeEvidence (Some b) None r q (retained_result p) v = Inr ()"
        using after b assms(2) by (auto simp: verifyRetainedRuntimeEvidence_def congs weaker_def Let_def)
      then show ?thesis using b retained_before True by auto
    next
      case False
      then obtain a where a: "ParseRuntimeObservation (st_after st) = Inr a" "verifyRuntimeObservations b a (st_result st) q p v = Inr ()"
        using after by auto
      then have "verifyRetainedRuntimeEvidence (Some b) (Some a) r q (retained_result p) v = Inr ()"
        using b by (simp add: verifyRetainedRuntimeEvidence_def congs Let_def)
      then show ?thesis using b(1) a(1) retained_before(2) by auto
    qed
  qed
qed

lemma egress_accepted:
  assumes "egress_ok uni p st" and "weaker (st_result st) r" and "res_Cleanup r = res_Cleanup (st_result st)"
    and "res_Target r = res_Target (st_result st)" and "res_Finalization r = res_Finalization (st_result st)"
    and "exe_EgressSHA256 (res_Identity r) = exe_EgressSHA256 (res_Identity (st_result st))"
    and "\<forall>b. ParseRuntimeObservation (st_before st) = Inr b \<longrightarrow> before = Some b"
  shows "verify_egress uni (if st_egress st = [] then None else Some (st_egress st)) (retained_result p) r before = Inr ()"
proof (cases "st_egress st = []")
  case True
  then show ?thesis using assms(1,2,6) by (auto simp: egress_ok_def verify_egress_def weaker_def Let_def)
next
  case False
  then obtain e b where e: "ParseEgressEvidence (st_egress st) = Inr e" "ParseRuntimeObservation (st_before st) = Inr b"
    "verifyEgressEvidence uni e p (st_result st) b = Inr ()" "elems (pl_NetworkAllow (rs_Plan p)) \<noteq> []"
    "exe_EgressSHA256 (res_Identity (st_result st)) = digest (st_egress st)"
    using assms(1) by (auto simp: egress_ok_def Let_def)
  have "verifyEgressEvidence uni e p r b = Inr ()"
    by (rule egress_cong [OF e(3)]) (use assms in \<open>simp_all add: weaker_def runtime_view_def Let_def\<close>)
  then show ?thesis using False e assms(6,7) by (simp add: verify_egress_def Let_def)
qed

section \<open>Artifacts\<close>

lemma ValidateJSON_Encode:
  assumes "shaped t v" and "utf8_value v" and "shape_names t" and "shape_depth t \<le> max_nesting" and "length (Encode t v) \<le> maximum"
  shows "ValidateJSONDocument (Encode t v) maximum = Inr ()"
proof -
  have d: "decode t (Encode t v) maximum = Inr v" by (rule decode_Encode [OF assms])
  have "json_depth (marshal t v) \<le> max_nesting"
    using marshal_depth(1) assms(4) order_trans by blast
  then show ?thesis
    using d assms(2,3) by (auto simp: decode_def ValidateJSONDocument_def result_simps Encode_parse)
qed

lemma inventory_shape_facts: "shape_names artifactInventory_shape" "shape_depth artifactInventory_shape \<le> max_nesting"
  by (simp_all add: artifactInventory_shape_def artifactInventoryEntry_shape_def TInt64_def ValidUTF8_ascii is_ascii_def max_nesting_def)

lemma collected_lengths: "collected a prior used fs \<Longrightarrow> f \<in> set fs \<Longrightarrow> int (length (snd f)) \<le> art_MaxBytes a - used"
proof -
  have "f \<in> set fs \<Longrightarrow> int (length (snd f)) \<le> artifact_bytes fs"
  proof (induction fs)
    case (Cons g fs)
    then show ?case using artifact_bytes_nonneg [of fs] by auto
  qed simp
  then show "collected a prior used fs \<Longrightarrow> f \<in> set fs \<Longrightarrow> int (length (snd f)) \<le> art_MaxBytes a - used"
    by (auto simp: collected_def)
qed

lemma inventory_document:
  assumes "artifacts_ok a" and "collected a [] 0 fs"
  defines "i \<equiv> \<lparr>inv_Schema = inventory_schema, inv_Root = art_ContainerRoot a, inv_Entries = Some (map inventory_of fs)\<rparr>"
  shows "shaped artifactInventory_shape (artifactInventory_value i) \<and> utf8_value (artifactInventory_value i)"
proof -
  have "ValidUTF8 inventory_schema" by code_simp
  moreover have "ValidUTF8 (art_ContainerRoot a)" using assms(1) by (simp add: artifacts_ok_def operator_path_utf8)
  moreover have "ValidUTF8 (fst f) \<and> length (snd f) \<le> 9223372036854775807" if "f \<in> set fs" for f
    using that assms(2) collected_lengths [OF assms(2) that] artifacts_ok_bounds [OF assms(1)]
    by (auto simp: collected_def list_all_iff MaximumWireInteger_def intro: evidence_path_utf8)
  ultimately show ?thesis
    using digest_utf8 [OF digest_valid]
    by (auto simp: i_def artifactInventory_shape_def artifactInventoryEntry_shape_def artifactInventory_value_def artifactInventoryEntry_value_def
        inventory_of_def list_all_iff shaped_list_iff wire_bounds)
qed

lemma inventory_entries_ok:
  assumes "collected a prior used fs" and "0 \<le> used"
    and "\<And>f. f \<in> set fs \<Longrightarrow> map_of sealed (artifacts_directory @ [slash] @ fst f) = Some (entry_of (stored f))"
  shows "inventory_entries (art_MaxBytes a) sealed prior used (map inventory_of fs) = Inr ()"
  using assms
proof (induction fs arbitrary: prior used)
  case (Cons f fs)
  have "collected a (fst f) (used + int (length (snd f))) fs" using Cons.prems(1) by (simp add: collected_def)
  then have "inventory_entries (art_MaxBytes a) sealed (fst f) (used + int (length (snd f))) (map inventory_of fs) = Inr ()"
    using Cons.IH Cons.prems by simp
  moreover have "prior < fst f" "validEvidencePath (fst f)" "int (length (snd f)) \<le> art_MaxBytes a - used"
    using Cons.prems(1) collected_lengths [OF Cons.prems(1), of f] by (auto simp: collected_def)
  ultimately show ?case
    using Cons.prems(3) [of f] unfolding list.map inventory_entries.simps
    by (simp add: ValidateEvidenceRelativePath_def not_le) (simp add: inventory_of_def stored_def)
qed simp

lemma artifact_bytes_okI:
  "(\<And>e. e \<in> set es \<Longrightarrow> 0 \<le> ent_Size e) \<Longrightarrow> used + sum_list (map ent_Size es) \<le> maximum \<Longrightarrow> artifact_bytes_ok maximum used es"
proof (induction es arbitrary: used)
  case (Cons e es)
  have "0 \<le> sum_list (map ent_Size es)" using Cons.prems(1) by (intro sum_list_nonneg) auto
  moreover have "0 \<le> ent_Size e" using Cons.prems(1) by simp
  moreover have "artifact_bytes_ok maximum (used + ent_Size e) es"
    by (rule Cons.IH) (use Cons.prems in \<open>auto simp: add.assoc\<close>)
  ultimately show ?case using Cons.prems(2) by simp
qed simp

text \<open>The files of a sealed writer apart from its artifacts, and its artifacts.\<close>

definition layout :: "evidenceWriter \<Rightarrow> (bytes \<times> bytes) list \<Rightarrow> bool" where
  "layout w fs = (writer_ok w \<and> filter (\<lambda>f. \<not> known_name (fst f)) (w_files w) = map stored fs)"

lemma kind_target_artifact: "kind_of name = ''target_artifact'' \<longleftrightarrow> \<not> known_name name"
proof -
  have "list_all (\<lambda>(_, k). k \<noteq> ''target_artifact'') known_kinds" by code_simp
  then show ?thesis
    by (auto simp: kind_of_def known_name_def list_all_iff split: option.splits dest!: map_of_SomeD)
qed

lemma layout_artifacts:
  assumes "layout w fs" and "es = sort_key ent_Path (w_entries w)"
  shows "mset (artifact_part es) = mset (map (entry_of \<circ> stored) fs)"
    "filter (\<lambda>e. ent_Kind e = ''target_artifact'') es = artifact_part es"
proof -
  have entries: "w_entries w = map entry_of (w_files w)" using assms(1) by (simp add: layout_def writer_ok_def)
  have "mset (artifact_part es) = mset (filter (\<lambda>e. \<not> known_name (ent_Path e)) (w_entries w))"
    by (simp add: artifact_part_def assms(2))
  also have "filter (\<lambda>e. \<not> known_name (ent_Path e)) (w_entries w) = map entry_of (filter (\<lambda>f. \<not> known_name (fst f)) (w_files w))"
    by (simp add: entries filter_map comp_def)
  also have "\<dots> = map (entry_of \<circ> stored) fs" using assms(1) by (simp add: layout_def)
  finally show "mset (artifact_part es) = mset (map (entry_of \<circ> stored) fs)" .
  have "ent_Kind e = ''target_artifact'' \<longleftrightarrow> \<not> known_name (ent_Path e)" if "e \<in> set es" for e
    using that by (auto simp: assms(2) entries kind_target_artifact)
  then show "filter (\<lambda>e. ent_Kind e = ''target_artifact'') es = artifact_part es"
    by (auto simp: artifact_part_def intro: filter_cong)
qed

lemma artifact_sizes:
  assumes "layout w fs" and "es = sort_key ent_Path (w_entries w)"
  shows "sum_list (map ent_Size (artifact_part es)) = artifact_bytes fs" "length (artifact_part es) = length fs"
    "set (artifact_part es) = (entry_of \<circ> stored) ` set fs"
proof -
  note m = layout_artifacts(1) [OF assms]
  have "sum_list (map ent_Size (artifact_part es)) = sum_mset (image_mset ent_Size (mset (artifact_part es)))"
    by (metis mset_map sum_mset_sum_list)
  also have "\<dots> = sum_list (map ent_Size (map (entry_of \<circ> stored) fs))"
    unfolding m by (metis mset_map sum_mset_sum_list)
  also have "\<dots> = artifact_bytes fs" by (simp add: artifact_bytes_def comp_def stored_def)
  finally show "sum_list (map ent_Size (artifact_part es)) = artifact_bytes fs" .
  show "length (artifact_part es) = length fs" using arg_cong [OF m, of size] by simp
  show "set (artifact_part es) = (entry_of \<circ> stored) ` set fs" using arg_cong [OF m, of set_mset] by simp
qed

lemma authority_accepted:
  assumes "layout w fs" and "es = sort_key ent_Path (w_entries w)" and "artifacts_ok a" and "req_Artifacts q = Some a"
    and "collected a [] 0 fs" and "int (length fs) \<le> art_MaxEntries a" and "map_of known ''target-inventory.json'' \<noteq> None"
  shows "validateArtifactManifestAuthority q known (artifact_part es) = Inr ()"
proof -
  have "artifact_bytes_ok (art_MaxBytes a) 0 (artifact_part es)"
    using artifact_sizes [OF assms(1,2)] assms(5) by (intro artifact_bytes_okI) (auto simp: collected_def)
  then show ?thesis
    using assms(4,6,7) artifact_sizes(2) [OF assms(1,2)] by (simp add: validateArtifactManifestAuthority_def Let_def)
qed

lemma artifacts_accepted:
  assumes "layout w fs" and "es = sort_key ent_Path (w_entries w)" and "distinct (map ent_Path es)"
    and "artifacts_ok a" and "req_Artifacts q = Some a"
    and "collected a [] 0 fs" and "int (length fs) \<le> art_MaxEntries a" and "elems (man_Entries m) = es"
    and "raw = Encode artifactInventory_shape (artifactInventory_value
        \<lparr>inv_Schema = inventory_schema, inv_Root = art_ContainerRoot a, inv_Entries = Some (map inventory_of fs)\<rparr>)"
    and "map_of documents ''target-inventory.json'' = Some raw" and "length raw \<le> MaximumManifestBytes"
  shows "verifyArtifacts q m documents = Inr ()"
proof -
  let ?i = "\<lparr>inv_Schema = inventory_schema, inv_Root = art_ContainerRoot a, inv_Entries = Some (map inventory_of fs)\<rparr>"
  let ?sealed = "keyed (artifact_part es)"
  have doc: "shaped artifactInventory_shape (artifactInventory_value ?i)" "utf8_value (artifactInventory_value ?i)"
    using inventory_document [OF assms(4,6)] by blast+
  have valid: "ValidateJSONDocument raw MaximumManifestBytes = Inr ()"
    using ValidateJSON_Encode [OF doc inventory_shape_facts] assms(9,11) by simp
  have read: "Unmarshal True artifactInventory_shape raw = Some (artifactInventory_value ?i)"
    using Unmarshal_Encode [OF doc inventory_shape_facts] assms(9) by simp
  have "map_of ?sealed (artifacts_directory @ [slash] @ fst f) = Some (entry_of (stored f))" if "f \<in> set fs" for f
  proof (rule map_of_is_SomeI)
    show "distinct (map fst ?sealed)" using assms(3) by (simp add: comp_def artifact_part_def distinct_map_filter)
    show "(artifacts_directory @ [slash] @ fst f, entry_of (stored f)) \<in> set ?sealed"
      using that artifact_sizes(3) [OF assms(1,2)] by (force simp: stored_def)
  qed
  then have "inventory_entries (art_MaxBytes a) ?sealed [] 0 (map inventory_of fs) = Inr ()"
    using assms(6) by (intro inventory_entries_ok) simp_all
  then show ?thesis
    using valid read assms(5,7,8,10) artifact_sizes(2) [OF assms(1,2)] layout_artifacts(2) [OF assms(1,2)]
    by (simp add: verifyArtifacts_def Let_def)
qed

end
