(* ===== verification/Job_Verified.thy ===== *)
theory Job_Verified
  imports Job_Documents
begin

text \<open>
  The executor and the verifier agree: a directory that holds what a run sealed passes verification.
\<close>

section \<open>The files of a sealed run\<close>

definition base_files :: "bytes \<Rightarrow> bytes \<Rightarrow> bytes \<Rightarrow> bytes \<Rightarrow> (bytes \<times> bytes) list" where
  "base_files dr planRaw vr qr = [(''declaration.toml'', dr), (''plan.json'', planRaw), (''provenance.json'', vr), (''request.json'', qr)]"

definition inventory_files :: "Request \<Rightarrow> (bytes \<times> bytes) list \<Rightarrow> (bytes \<times> bytes) list" where
  "inventory_files q fs = (case req_Artifacts q of
     None \<Rightarrow> []
   | Some a \<Rightarrow> map stored fs @ [(''target-inventory.json'', Encode artifactInventory_shape (artifactInventory_value
       \<lparr>inv_Schema = inventory_schema, inv_Root = art_ContainerRoot a, inv_Entries = Some (map inventory_of fs)\<rparr>))])"

definition collected_for :: "Request \<Rightarrow> (bytes \<times> bytes) list \<Rightarrow> bool" where
  "collected_for q fs = (case req_Artifacts q of None \<Rightarrow> fs = [] | Some a \<Rightarrow> collected a [] 0 fs \<and> int (length fs) \<le> art_MaxEntries a)"

lemma artifacts_stored_files:
  assumes "artifacts_stored q w w'"
  obtains fs where "collected_for q fs" "w_files w' = w_files w @ inventory_files q fs"
  using assms that by (cases "req_Artifacts q") (auto simp: artifacts_stored_def collected_for_def inventory_files_def)

definition fits :: "evidenceWriter \<Rightarrow> bool" where
  "fits w = list_all (\<lambda>(name, raw). name \<in> {''plan.json'', ''target-inventory.json''} \<longrightarrow> length raw \<le> MaximumManifestBytes) (w_files w)"

lemma publish_files:
  assumes "publish fails x q so se st = Inr (outcome, w')"
  shows "\<exists>t. w_files w' = w_files (st_writer st) @ t"
proof -
  have wrote: "evidence_Write fails n k r w = Inr w2 \<Longrightarrow> \<exists>t. w_files w2 = w_files w @ t" for n k r w w2
    by (auto simp: evidence_Write_iff)
  have close: "capture_CloseResult fails c w = Inr (s, w2) \<Longrightarrow> \<exists>t. w_files w2 = w_files w @ t" for c w s w2
    by (auto simp: capture_CloseResult_def result_simps Let_def)
  have seal: "Seal fails a b c d w = Inr (m, w2) \<Longrightarrow> \<exists>t. w_files w2 = w_files w @ t" for a b c d w m w2
  proof -
    assume "Seal fails a b c d w = Inr (m, w2)"
    then have w2: "w2 = w\<lparr>w_files := w_files w @ [(''manifest.json'', Encode Manifest_shape (Manifest_value m))],
        w_entries := sort_key ent_Path (w_entries w)\<rparr>"
      unfolding Seal_iff by blast
    show ?thesis unfolding w2 by simp
  qed
  obtain w1 w2 w3 out w4 err w5 pr w6 m w7 r where
    "evidence_Write fails ''runtime-before.json'' ''runtime'' (or_empty (st_before st)) (st_writer st) = Inr w1"
    "evidence_Write fails ''runtime-after.json'' ''runtime'' (or_empty (st_after st)) w1 = Inr w2"
    "(if st_egress st \<noteq> [] then evidence_Write fails ''egress.json'' ''egress'' (st_egress st) w2 else Inr w2) = Inr w3"
    "capture_CloseResult fails (capture_all (x_stdout x) so) w3 = Inr (out, w4)"
    "capture_CloseResult fails (capture_all (x_stderr x) se) w4 = Inr (err, w5)"
    "evidence_Write fails ''result.json'' ''result'' r w5 = Inr w6"
    "Seal fails (req_JobID q) pr (digest r) (x_sealedAt x) w6 = Inr (m, w7)" "w7 = w'"
    using assms
    unfolding publish_def Let_def bind_result_Inr of_contract_Inr split_paired_Ex prod.case sum.inject prod.inject
    by (elim exE conjE) (rule that)
  note s = this
  obtain t1 t2 t3 t4 t5 t6 t7 where "w_files w1 = w_files (st_writer st) @ t1" "w_files w2 = w_files w1 @ t2" "w_files w3 = w_files w2 @ t3"
    "w_files w4 = w_files w3 @ t4" "w_files w5 = w_files w4 @ t5" "w_files w6 = w_files w5 @ t6" "w_files w7 = w_files w6 @ t7"
    using wrote [OF s(1)] wrote [OF s(2)] wrote [of "''egress.json''" "''egress''" "st_egress st" w2 w3] s(3) close [OF s(4)] close [OF s(5)]
      wrote [OF s(6)] seal [OF s(7)] by (auto split: if_splits)
  then show ?thesis using s(8) by simp
qed

lemma write_artifacts_files: "write_artifacts fails q prior used as w = Inr (entries, w') \<Longrightarrow> \<exists>t. w_files w' = w_files w @ t"
proof (induction as arbitrary: prior used w entries)
  case (Cons a as)
  then obtain prior2 used2 f e rest where
    "write_artifacts fails q prior2 used2 as (w\<lparr>w_files := w_files w @ [f], w_entries := w_entries w @ [e]\<rparr>) = Inr (rest, w')"
    by (auto simp: result_simps Let_def split: option.splits)
  from Cons.IH [OF this] show ?case by auto
qed simp

lemma WriteArtifacts_keeps:
  assumes "WriteArtifacts fails q as w = (r, w')" and "f \<in> set (w_files w)" and "known_name (fst f)"
  shows "f \<in> set (w_files w')"
proof -
  have "fst f \<noteq> artifacts_directory \<and> \<not> HasPrefix (fst f) (artifacts_directory @ [slash])"
    using assms(3) known_kinds_facts [of "fst f"] by (auto simp: known_name_def)
  then have "f \<in> set (filter (\<lambda>(f, _). f \<noteq> artifacts_directory \<and> \<not> HasPrefix f (artifacts_directory @ [slash])) (w_files w))"
    using assms(2) by (cases f) simp
  then show ?thesis
    using assms(1,2) by (auto simp: WriteArtifacts_def dest!: write_artifacts_files split: if_splits sum.splits prod.splits)
qed

lemma write_inventory_keeps: "write_inventory fails i st = Inr st' \<Longrightarrow> f \<in> set (w_files (st_writer st)) \<Longrightarrow> f \<in> set (w_files (st_writer st'))"
  by (auto simp: write_inventory_def result_simps evidence_Write_iff)

lemma artifacts_keep:
  assumes "f \<in> set (w_files (st_writer st))" and "known_name (fst f)"
  shows "collect_artifacts fails q final err st = Inr st' \<Longrightarrow> f \<in> set (w_files (st_writer st'))"
    "absent_artifacts fails q st = Inr st' \<Longrightarrow> f \<in> set (w_files (st_writer st'))"
  using assms
  by (auto simp: collect_artifacts_def absent_artifacts_def split: option.splits prod.splits sum.splits if_splits
      dest!: write_inventory_keeps [of _ _ _ _ f] dest: WriteArtifacts_keeps [OF _ assms])

lemma execute_keeps:
  assumes "execute uni fails x q qr p v vr w so se = (Inr (outcome, w'), calls)" and "f \<in> set (w_files w)" and "known_name (fst f)"
  shows "f \<in> set (w_files w')"
proof -
  obtain process admitted err calls0 where s: "start_runtime x = ((process, admitted, err), calls0)" by (metis prod.collapse)
  obtain startErr st0 where i: "observe_identity x p err (start_state q qr p vr w calls0) = (startErr, st0)" by force
  obtain st1 calls1 where r: "observe_run fails x q p v startErr (settle_admitted admitted startErr st0) = (Inr st1, calls1)"
    using assms(1) s i by (auto simp: execute_def start_state_def Let_def split: prod.splits sum.splits)
  have w0: "st_writer (settle_admitted admitted startErr st0) = w"
    using i by (auto simp: observe_identity_def settle_admitted_def start_state_def Let_def split: if_splits prod.splits)
  have "st_writer (snd (finalize_runtime x q p v (observe_target x st))) = st_writer st" for st
    by (simp add: finalize_runtime_def observe_target_def Let_def split_beta)
  note same = this
  have "f \<in> set (w_files (st_writer st1))"
  proof (cases "startErr = []")
    case True
    let ?fin = "finalize_runtime x q p v (observe_target x (settle_admitted admitted startErr st0))"
    have "collect_artifacts fails q (fst (fst ?fin)) (snd (fst ?fin)) (snd ?fin) = Inr st1"
      using r True by (simp add: observe_run_def split_beta)
    then show ?thesis by (rule artifacts_keep(1) [rotated 2]) (use same w0 assms(2,3) in simp_all)
  next
    case False
    then have "absent_artifacts fails q (settle_admitted admitted startErr st0\<lparr>st_result :=
        st_result (settle_admitted admitted startErr st0)\<lparr>res_Finalization := interval (x_now x) (x_now x) 0\<rparr>\<rparr>) = Inr st1"
      using r by (simp add: observe_run_def)
    then show ?thesis by (rule artifacts_keep(2) [rotated 2]) (use w0 assms(2,3) in simp_all)
  qed
  moreover have "st_writer (settle_egress uni p st) = st_writer st" for st
    by (simp add: settle_egress_def Let_def split: sum.splits)
  note egress = this
  let ?st3 = "settle_egress uni p (st1\<lparr>st_result := settle_cleanup (fst (observe_cleanup x process)) (st_result st1)\<rparr>)"
  have "publish fails x q so se (?st3\<lparr>st_result := settle_start startErr admitted (st_result ?st3)\<rparr>) = Inr (outcome, w')"
    using assms(1) s i r by (simp add: execute_def start_state_def [symmetric] Let_def split_beta)
  ultimately show ?thesis using publish_files by (fastforce simp: egress)
qed

text \<open>Everything that a sealed run leaves behind, in terms of its inputs and its settled state.\<close>

lemma sealed_run:
  assumes "Run uni ex host x qr dir = (Inr (outcome, w'), calls)" and "podman_identity x" and "honest (x_stdout x)" and "honest (x_stderr x)"
    and "fits w'"
  obtains q dr d p planRaw executable v vr st r w m stdout stderr out err fs where
    "ParseRequest qr = Inr q" "length dr \<le> MaximumRequestBytes" "digest dr = bnd_SHA256 (req_Declaration q)" "Parse dr = Inr d"
    "BuildContext (h_fs host) uni (h_wd host) (h_poll host) d (bnd_Path (req_Declaration q)) dr = Inr p"
    "validateSecretEnvironment q p = Inr ()" "IsAbs dir" "Clean dir = dir" "plan_JSON p = Inr planRaw"
    "v = currentProvenance (h_go host) (ex_Build ex) (digest executable)" "vr = Encode Provenance_shape (Provenance_value v)" "is_ok (ParseProvenance vr)"
    "settled uni q qr p v vr st"
    "r = settle_streams out err (with_identity (\<lambda>i. i\<lparr>exe_RuntimeSHA256 := runtimeEvidenceDigest (or_empty (st_before st)) (or_empty (st_after st))\<rparr>)
       (st_result st))" "oc_Result outcome = r"
    "is_ok (ParseResult (Encode Result_shape (Result_value r)))" "writer_ok w"
    "w_files w = base_files dr planRaw vr qr @ inventory_files q fs @ published st stdout stderr (Encode Result_shape (Result_value r))"
    "collected_for q fs"
    "Seal (h_fails host) (req_JobID q) (res_RequestSHA256 r) (digest (Encode Result_shape (Result_value r))) (x_sealedAt x) w = Inr (m, w')"
    "stream_result ''stdout.bin'' (lim_StdoutMaxBytes (req_Limits q)) stdout out" "stream_result ''stderr.bin'' (lim_StderrMaxBytes (req_Limits q)) stderr err"
proof -
  obtain q dr p v vr w0 so se where est: "establish uni ex host qr = Inr (q, dr, p)"
    and opened: "open_evidence ex host dir qr q dr p = Inr (v, vr, w0, so, se)"
    and exec: "execute uni (h_fails host) x q qr p v vr w0 so se = (Inr (outcome, w'), calls)"
    using assms(1) by (auto simp: Run_def split: sum.splits prod.splits)
  obtain d where e: "ParseRequest qr = Inr q" "length dr \<le> MaximumRequestBytes" "digest dr = bnd_SHA256 (req_Declaration q)" "Parse dr = Inr d"
    "BuildContext (h_fs host) uni (h_wd host) (h_poll host) d (bnd_Path (req_Declaration q)) dr = Inr p" "validateSecretEnvironment q p = Inr ()"
    using est by (auto simp: establish_def Let_def result_simps readBoundRegular_def split: option.splits if_splits)
  have plan: "length raw \<le> MaximumManifestBytes" if raw: "plan_JSON p = Inr raw" for raw
  proof -
    have "(''plan.json'', raw) \<in> set (w_files w0)"
      using opened raw by (auto simp: open_evidence_def result_simps evidence_Write_iff)
    then have "(''plan.json'', raw) \<in> set (w_files w')"
      using execute_keeps [OF exec] by (simp add: known_name_def kind_lookups)
    then show ?thesis using assms(5) by (auto simp: fits_def list_all_iff)
  qed
  obtain planRaw executable where o': "plan_JSON p = Inr planRaw"
    "v = currentProvenance (h_go host) (ex_Build ex) (digest executable)" "vr = Encode Provenance_shape (Provenance_value v)"
    "is_ok (ParseProvenance vr)" "writer_ok w0" "no_artifacts w0" "w_files w0 = base_files dr planRaw vr qr"
    "stream_of ''stdout.bin'' ''stdout'' (lim_StdoutMaxBytes (req_Limits q)) so"
    "stream_of ''stderr.bin'' ''stderr'' (lim_StderrMaxBytes (req_Limits q)) se" "IsAbs dir" "Clean dir = dir"
    using open_evidence_Inr [OF opened e(1,2)] plan unfolding base_files_def by metis
  have arts: "request_artifacts_ok q" using request_limits [OF e(1)] by (simp add: request_ok_def request_artifacts_ok_def Let_def)
  have inv: "inventory_fits (st_writer st)" if "publish (h_fails host) x q so se st = Inr (outcome, w')" for st
    using publish_files [OF that] assms(5) by (auto simp: fits_def inventory_fits_def list_all_iff)
  obtain st where pub: "publish (h_fails host) x q so se st = Inr (outcome, w')" and st: "settled uni q qr p v vr st" "writer_ok (st_writer st)"
    "artifacts_stored q w0 (st_writer st)"
    by (rule execute_settled [OF exec assms(2) o'(5,6) arts inv])
  obtain fs where fs: "collected_for q fs" "w_files (st_writer st) = w_files w0 @ inventory_files q fs"
    by (rule artifacts_stored_files [OF st(3)])
  have names: "''stdout.bin'' \<notin> fst ` set (w_files (st_writer st))" "''stderr.bin'' \<notin> fst ` set (w_files (st_writer st))"
    unfolding fs(2) o'(7) base_files_def inventory_files_def
    by (auto simp: stored_def artifacts_directory_def split: option.splits)
  obtain r w m stdout stderr out err where p': "r = settle_streams out err (with_identity
      (\<lambda>i. i\<lparr>exe_RuntimeSHA256 := runtimeEvidenceDigest (or_empty (st_before st)) (or_empty (st_after st))\<rparr>) (st_result st))" "oc_Result outcome = r"
    "is_ok (ParseResult (Encode Result_shape (Result_value r)))" "writer_ok w"
    "w_files w = w_files (st_writer st) @ published st stdout stderr (Encode Result_shape (Result_value r))"
    "Seal (h_fails host) (req_JobID q) (res_RequestSHA256 r) (digest (Encode Result_shape (Result_value r))) (x_sealedAt x) w = Inr (m, w')"
    "stream_result ''stdout.bin'' (lim_StdoutMaxBytes (req_Limits q)) stdout out" "stream_result ''stderr.bin'' (lim_StderrMaxBytes (req_Limits q)) stderr err"
    by (rule publish_Inr [OF pub st(1,2) o'(8,9) assms(3,4) names])
  show thesis
    by (rule that [OF e o'(10,11,1-4) st(1) p'(1-4) _ fs(1) p'(6-8)]) (simp add: p'(5) fs(2) o'(7))
qed

section \<open>Verification of a sealed run\<close>

lemma verify_documents_Inr:
  assumes "map_of docs ''result.json'' = Some rr" "map_of docs ''provenance.json'' = Some vr" "map_of docs ''declaration.toml'' = Some dr"
    "map_of docs ''plan.json'' = Some planRaw" "map_of docs ''runtime-before.json'' = Some br" "map_of docs ''runtime-after.json'' = Some ar"
    "map_of docs ''stdout.bin'' = Some stdout" "map_of docs ''stderr.bin'' = Some stderr"
    and "ParseResult rr = Inr r" and "ParseProvenance vr = Inr v" and "verify_identities m q qr r rr dr = Inr ()"
    and "verify_plan uni q r planRaw dr = Inr p" and "verify_image r p = Inr ()"
    and "digest vr = exe_ProvenanceSHA256 (res_Identity r)" and "prv_ExecutableSHA256 v \<noteq> []"
    and "runtimeEvidenceDigest br ar = exe_RuntimeSHA256 (res_Identity r)"
    and "parseRetainedRuntimeObservation br = Inr before" and "parseRetainedRuntimeObservation ar = Inr after"
    and "verifyRetainedRuntimeEvidence before after r q p v = Inr ()" and "verify_egress uni (map_of docs ''egress.json'') p r before = Inr ()"
    and "verifyArtifacts q m docs = Inr ()"
    and "case req_Artifacts q of None \<Rightarrow> True | Some a \<Rightarrow> \<forall>e\<in>set artifacts. sealed_as root e \<and> ent_Size e \<le> art_MaxBytes a"
    and "verify_streams r stdout stderr = Inr ()"
  shows "verify_documents uni root m artifacts q qr docs = Inr \<lparr>ver_Schema = ''kenogram.job-verification.v1'', ver_JobID = man_JobID m,
    ver_Status = res_Status r, ver_Entries = int (length (elems (man_Entries m)))\<rparr>"
proof -
  have "(case req_Artifacts q of None \<Rightarrow> Inr () | Some a \<Rightarrow> for_each (\<lambda>entry. verifyRegularDigest root entry (art_MaxBytes a)) artifacts) = Inr ()"
    using assms(22) by (auto simp: verifyRegularDigest_Inr result_simps split: option.splits)
  then show ?thesis using assms by (simp add: verify_documents_def Let_def)
qed

lemma map_result_all: "(\<And>x. x \<in> set xs \<Longrightarrow> f x = Inr (g x)) \<Longrightarrow> map_result f xs = Inr (map g xs)"
  by (induction xs) simp_all

lemma map_of_named: "map_of (map (\<lambda>(n, _). (n, g n)) xs) n = (if n \<in> fst ` set xs then Some (g n) else None)"
  by (induction xs) auto

text \<open>Reading a file of the sealed writer by its name.\<close>

definition sealed_in :: "edir \<Rightarrow> (bytes \<times> ManifestEntry) list \<Rightarrow> (bytes \<times> bytes) list \<Rightarrow> bool" where
  "sealed_in root known files = (distinct (map fst files) \<and> (\<forall>f\<in>set files. map_of root (fst f) = Some (EvidenceFile (snd f)))
     \<and> (\<forall>name. known_name name \<longrightarrow> map_of known name = map_option (\<lambda>raw. entry_of (name, raw)) (map_of files name)))"

lemma read_sealed:
  assumes "sealed_in root known files" and "(name, raw) \<in> set files" and "int (length raw) \<le> maximum"
  shows "readSealedEntry root (entry_of (name, raw)) maximum = Inr raw"
  using assms by (fastforce simp: sealed_in_def readSealedEntry_Inr)

lemma known_sealed:
  assumes "sealed_in root known files" and "(name, raw) \<in> set files" and "known_name name"
  shows "map_of known name = Some (entry_of (name, raw))" "the (map_of files name) = raw"
proof -
  have "map_of files name = Some raw" using assms by (simp add: sealed_in_def)
  then show "map_of known name = Some (entry_of (name, raw))" "the (map_of files name) = raw" using assms by (simp_all add: sealed_in_def)
qed

lemma read_all:
  assumes "sealed_in root known files"
    and "\<And>name maximum. (name, maximum) \<in> set limits \<Longrightarrow> known_name name \<and> (\<exists>raw. (name, raw) \<in> set files \<and> int (length raw) \<le> maximum)"
  shows "map_result (read_known root known) limits = Inr (map (\<lambda>(name, _). (name, the (map_of files name))) limits)"
proof (rule map_result_all)
  fix x assume x: "x \<in> set limits"
  obtain name maximum where n: "x = (name, maximum)" by (cases x)
  obtain raw where raw: "known_name name" "(name, raw) \<in> set files" "int (length raw) \<le> maximum" using assms(2) x n by blast
  show "read_known root known x = Inr ((\<lambda>(name, _). (name, the (map_of files name))) x)"
    using known_sealed [OF assms(1) raw(2,1)] read_sealed [OF assms(1) raw(2,3)] by (simp add: read_known_def n)
qed

lemma image_accepted:
  assumes "frame q qr p vr r"
  shows "verify_image r (retained_result p) = Inr ()"
  using assms by (auto simp: frame_def verify_image_def image_ok_def Let_def split: option.splits)

lemma provenance_reads_back:
  assumes "v = currentProvenance go build d" and "vr = Encode Provenance_shape (Provenance_value v)" and "is_ok (ParseProvenance vr)"
    and "list_all ValidUTF8 [bld_Version build, bld_Commit build, bld_SourceDate build, go_Version go, go_OS go, go_Arch go]" and "validDigest d"
  shows "ParseProvenance vr = Inr v \<and> prv_ExecutableSHA256 v \<noteq> []"
proof -
  have lits: "ValidUTF8 ProvenanceSchema" "ValidUTF8 ''development''" "ValidUTF8 ''release''" "ValidUTF8 ''dev''" "ValidUTF8 ''unknown''" by code_simp+
  have doc: "shaped Provenance_shape (Provenance_value v)" "utf8_value (Provenance_value v)"
    using assms(4) digest_utf8 [OF assms(5)] lits
    by (simp_all add: assms(1) currentProvenance_def Let_def Provenance_shape_def Provenance_value_def)
  obtain x where x: "ParseProvenance vr = Inr x" using assms(3) by (auto simp: is_ok_iff)
  have "decode Provenance_shape vr MaximumProvenanceBytes = Inr (Provenance_value v)"
    unfolding assms(2) by (rule decode_Encode [OF doc shape_facts(7,8)]) (use parse_bound(3) [OF x] assms(2) in simp)
  then have "ParseProvenance vr = Inr v" using x by (auto simp: ParseProvenance_def result_simps)
  moreover have "prv_ExecutableSHA256 v \<noteq> []"
    using assms(5) by (auto simp: assms(1) currentProvenance_def Let_def validDigest_def digestPattern_def)
  ultimately show ?thesis by blast
qed

lemma sealed_files_known:
  assumes "w_files w = base_files dr planRaw vr qr @ inventory_files q fs @ published st stdout stderr rr"
  shows "(name, raw) \<in> set (base_files dr planRaw vr qr @ published st stdout stderr rr) \<Longrightarrow> (name, raw) \<in> set (w_files w) \<and> known_name name"
    "req_Artifacts q = None \<Longrightarrow> ''target-inventory.json'' \<notin> fst ` set (w_files w)"
    "st_egress st = [] \<Longrightarrow> ''egress.json'' \<notin> fst ` set (w_files w)"
    "collected_for q fs \<Longrightarrow> filter (\<lambda>f. \<not> known_name (fst f)) (w_files w) = map stored fs"
proof -
  show "(name, raw) \<in> set (base_files dr planRaw vr qr @ published st stdout stderr rr) \<Longrightarrow> (name, raw) \<in> set (w_files w) \<and> known_name name"
    by (auto simp: assms base_files_def published_def known_name_def kind_lookups split: if_splits)
  show "req_Artifacts q = None \<Longrightarrow> ''target-inventory.json'' \<notin> fst ` set (w_files w)"
    by (auto simp: assms base_files_def published_def inventory_files_def split: if_splits)
  show "st_egress st = [] \<Longrightarrow> ''egress.json'' \<notin> fst ` set (w_files w)"
    by (auto simp: assms base_files_def published_def inventory_files_def stored_def artifacts_directory_def split: option.splits)
  have known: "filter (\<lambda>f. \<not> known_name (fst f)) (base_files dr planRaw vr qr) = []" "filter (\<lambda>f. \<not> known_name (fst f)) (published st stdout stderr rr) = []"
    by (simp_all add: base_files_def published_def known_name_def kind_lookups)
  have "filter (\<lambda>f. \<not> known_name (fst f)) (map stored fs) = map stored fs"
    using artifact_not_known(1) [OF stored_prefix] by (intro filter_True) auto
  then show "filter (\<lambda>f. \<not> known_name (fst f)) (w_files w) = map stored fs" if "collected_for q fs"
    using that known by (cases "req_Artifacts q") (simp_all add: assms inventory_files_def collected_for_def known_name_def kind_lookups)
qed

text \<open>The documents that the verifier reads, with their bounds.\<close>

lemma sealed_limits:
  assumes files: "w_files w = base_files dr planRaw vr qr @ inventory_files q fs @ published st stdout stderr rr"
    and bounds: "length dr \<le> MaximumRequestBytes" "length planRaw \<le> MaximumManifestBytes" "length vr \<le> MaximumProvenanceBytes"
      "length rr \<le> MaximumResultBytes" "length (or_empty (st_before st)) \<le> MaximumManifestBytes" "length (or_empty (st_after st)) \<le> MaximumManifestBytes"
      "length (st_egress st) \<le> MaximumEgressEvidenceBytes" "int (length stdout) \<le> lim_StdoutMaxBytes (req_Limits q)"
      "int (length stderr) \<le> lim_StderrMaxBytes (req_Limits q)" "fits w"
    and egress: "map_of known ''egress.json'' \<noteq> None \<Longrightarrow> st_egress st \<noteq> []"
    and limit: "(name, maximum) \<in> set (read_limits q known)"
  shows "known_name name \<and> (\<exists>raw. (name, raw) \<in> set (w_files w) \<and> int (length raw) \<le> maximum)"
proof -
  note mem = sealed_files_known(1) [OF files]
  have inv: "known_name ''target-inventory.json'' \<and> (\<exists>raw. (''target-inventory.json'', raw) \<in> set (w_files w) \<and> int (length raw) \<le> int MaximumManifestBytes)"
    if "req_Artifacts q \<noteq> None"
  proof -
    from that obtain a where a: "req_Artifacts q = Some a" by blast
    let ?i = "\<lparr>inv_Schema = inventory_schema, inv_Root = art_ContainerRoot a, inv_Entries = Some (map inventory_of fs)\<rparr>"
    have "(''target-inventory.json'', Encode artifactInventory_shape (artifactInventory_value ?i)) \<in> set (w_files w)"
      by (simp add: files inventory_files_def a)
    then obtain raw where raw: "(''target-inventory.json'', raw) \<in> set (w_files w)" by (rule that)
    then have "length raw \<le> MaximumManifestBytes" using bounds(10) by (fastforce simp: fits_def list_all_iff)
    then show ?thesis using raw by (auto simp: known_name_def kind_lookups)
  qed
  define L where "L = base_files dr planRaw vr qr @ published st stdout stderr rr"
  have members: "(''declaration.toml'', dr) \<in> set L" "(''plan.json'', planRaw) \<in> set L" "(''provenance.json'', vr) \<in> set L"
    "(''result.json'', rr) \<in> set L" "(''runtime-before.json'', or_empty (st_before st)) \<in> set L"
    "(''runtime-after.json'', or_empty (st_after st)) \<in> set L" "(''stdout.bin'', stdout) \<in> set L" "(''stderr.bin'', stderr) \<in> set L"
    "st_egress st \<noteq> [] \<Longrightarrow> (''egress.json'', st_egress st) \<in> set L"
    by (simp_all add: L_def base_files_def published_def)
  have "name = ''target-inventory.json'' \<and> maximum = int MaximumManifestBytes \<and> req_Artifacts q \<noteq> None
      \<or> (\<exists>raw. (name, raw) \<in> set L \<and> int (length raw) \<le> maximum)"
  proof -
    have member: "n = name \<Longrightarrow> k = maximum \<Longrightarrow> (n, raw) \<in> set L \<Longrightarrow> int (length raw) \<le> k \<Longrightarrow> ?thesis" for n k raw by blast
    show ?thesis
      using limit unfolding read_limits_def set_append Un_iff list.set insert_iff prod.inject
      by (elim disjE conjE) (use members bounds egress member in \<open>auto split: if_splits\<close>)
  qed
  then consider "name = ''target-inventory.json''" "maximum = int MaximumManifestBytes" "req_Artifacts q \<noteq> None"
    | "\<exists>raw. (name, raw) \<in> set L \<and> int (length raw) \<le> maximum" by blast
  then show ?thesis
  proof cases
    case 1
    then show ?thesis using inv by simp
  next
    case 2
    then show ?thesis using mem by (auto simp: L_def)
  qed
qed

text \<open>The verifier reads exactly the documents of the writer, each under its name.\<close>

lemma documents_read:
  assumes si: "sealed_in root known (w_files w)"
    and files: "w_files w = base_files dr planRaw vr qr @ inventory_files q fs @ published st stdout stderr rr"
    and limits: "\<And>name maximum. (name, maximum) \<in> set (read_limits q known) \<Longrightarrow> known_name name \<and> (\<exists>raw. (name, raw) \<in> set (w_files w) \<and> int (length raw) \<le> maximum)"
  defines "docs \<equiv> map (\<lambda>(name, _). (name, the (map_of (w_files w) name))) (read_limits q known)"
  shows "map_result (read_known root known) (read_limits q known) = Inr docs"
    "(name, raw) \<in> set (base_files dr planRaw vr qr @ published st stdout stderr rr) \<Longrightarrow> name \<notin> {''request.json'', ''egress.json''} \<Longrightarrow> map_of docs name = Some raw"
    "map_of docs ''egress.json'' = (if st_egress st = [] then None else Some (st_egress st))"
    "map_of known ''request.json'' = Some (entry_of (''request.json'', qr))"
    "req_Artifacts q = None \<Longrightarrow> map_of docs ''target-inventory.json'' = None"
    "req_Artifacts q \<noteq> None \<Longrightarrow> (''target-inventory.json'', raw) \<in> set (inventory_files q fs) \<Longrightarrow>
       map_of docs ''target-inventory.json'' = Some raw \<and> map_of known ''target-inventory.json'' \<noteq> None"
proof -
  note mem = sealed_files_known(1) [OF files]
  show "map_result (read_known root known) (read_limits q known) = Inr docs"
    unfolding docs_def by (rule read_all [OF si limits])
  have doc: "map_of docs n = (if n \<in> fst ` set (read_limits q known) then Some (the (map_of (w_files w) n)) else None)" for n
    unfolding docs_def by (rule map_of_named)
  show "map_of docs name = Some raw"
    if m: "(name, raw) \<in> set (base_files dr planRaw vr qr @ published st stdout stderr rr)" and n: "name \<notin> {''request.json'', ''egress.json''}"
  proof -
    have "name \<in> fst ` set (read_limits q known)"
      using m n by (auto simp: base_files_def published_def read_limits_def split: if_splits)
    then show ?thesis using doc known_sealed(2) [OF si conjunct1 [OF mem [OF m]] conjunct2 [OF mem [OF m]]] by simp
  qed
  have egress: "map_of known ''egress.json'' = (if st_egress st = [] then None else Some (entry_of (''egress.json'', st_egress st)))"
  proof (cases "st_egress st = []")
    case True
    have "known_name ''egress.json''" by (simp add: known_name_def kind_lookups)
    moreover have "map_of (w_files w) ''egress.json'' = None" using sealed_files_known(3) [OF files True] by (simp add: map_of_eq_None_iff)
    ultimately show ?thesis using si True by (simp add: sealed_in_def)
  next
    case False
    then have m: "(''egress.json'', st_egress st) \<in> set (base_files dr planRaw vr qr @ published st stdout stderr rr)" by (simp add: published_def)
    then show ?thesis using known_sealed(1) [OF si conjunct1 [OF mem [OF m]] conjunct2 [OF mem [OF m]]] False by simp
  qed
  show "map_of docs ''egress.json'' = (if st_egress st = [] then None else Some (st_egress st))"
  proof (cases "st_egress st = []")
    case True
    then have "''egress.json'' \<notin> fst ` set (read_limits q known)" using egress by (auto simp: read_limits_def split: if_splits)
    then show ?thesis using True doc by simp
  next
    case False
    then have m: "(''egress.json'', st_egress st) \<in> set (base_files dr planRaw vr qr @ published st stdout stderr rr)" by (simp add: published_def)
    have "''egress.json'' \<in> fst ` set (read_limits q known)" using False egress by (simp add: read_limits_def)
    then show ?thesis using False doc known_sealed(2) [OF si conjunct1 [OF mem [OF m]] conjunct2 [OF mem [OF m]]] by simp
  qed
  have m: "(''request.json'', qr) \<in> set (base_files dr planRaw vr qr @ published st stdout stderr rr)" by (simp add: base_files_def)
  show "map_of known ''request.json'' = Some (entry_of (''request.json'', qr))"
    using known_sealed(1) [OF si conjunct1 [OF mem [OF m]] conjunct2 [OF mem [OF m]]] .
  show "map_of docs ''target-inventory.json'' = None" if "req_Artifacts q = None"
  proof -
    have "''target-inventory.json'' \<notin> fst ` set (read_limits q known)" using that by (auto simp: read_limits_def split: if_splits)
    then show ?thesis using doc by simp
  qed
  show "map_of docs ''target-inventory.json'' = Some raw \<and> map_of known ''target-inventory.json'' \<noteq> None"
    if "req_Artifacts q \<noteq> None" and "(''target-inventory.json'', raw) \<in> set (inventory_files q fs)"
  proof -
    have f: "(''target-inventory.json'', raw) \<in> set (w_files w)" using that(2) by (simp add: files)
    have k: "known_name ''target-inventory.json''" by (simp add: known_name_def kind_lookups)
    have "''target-inventory.json'' \<in> fst ` set (read_limits q known)" using that(1) by (auto simp: read_limits_def)
    then show ?thesis using doc known_sealed [OF si f k] by simp
  qed
qed

lemma artifact_checks:
  assumes "layout w fs" and "es = sort_key ent_Path (w_entries w)" and "distinct (map ent_Path es)" and "elems (man_Entries m) = es"
    and "request_artifacts_ok q" and "collected_for q fs"
    and "req_Artifacts q = None \<Longrightarrow> map_of docs ''target-inventory.json'' = None \<and> map_of known ''target-inventory.json'' = None"
    and "\<And>raw. req_Artifacts q \<noteq> None \<Longrightarrow> (''target-inventory.json'', raw) \<in> set (inventory_files q fs) \<Longrightarrow>
       map_of docs ''target-inventory.json'' = Some raw \<and> map_of known ''target-inventory.json'' \<noteq> None \<and> length raw \<le> MaximumManifestBytes"
    and "\<And>f. f \<in> set (w_files w) \<Longrightarrow> map_of root (fst f) = Some (EvidenceFile (snd f))"
  shows "validateArtifactManifestAuthority q known (artifact_part es) = Inr () \<and> verifyArtifacts q m docs = Inr ()
    \<and> (case req_Artifacts q of None \<Rightarrow> True | Some a \<Rightarrow> \<forall>e\<in>set (artifact_part es). sealed_as root e \<and> ent_Size e \<le> art_MaxBytes a)"
proof (cases "req_Artifacts q")
  case None
  then have "artifact_part es = []" using artifact_sizes(2) [OF assms(1,2)] assms(6) by (simp add: collected_for_def)
  then show ?thesis
    using None assms(4,7) layout_artifacts(2) [OF assms(1,2)]
    by (simp add: validateArtifactManifestAuthority_def verifyArtifacts_def Let_def)
next
  case (Some a)
  let ?raw = "Encode artifactInventory_shape (artifactInventory_value
        \<lparr>inv_Schema = inventory_schema, inv_Root = art_ContainerRoot a, inv_Entries = Some (map inventory_of fs)\<rparr>)"
  have a: "artifacts_ok a" using assms(5) Some by (simp add: request_artifacts_ok_def)
  have fs: "collected a [] 0 fs" "int (length fs) \<le> art_MaxEntries a" using assms(6) Some by (simp_all add: collected_for_def)
  have inv: "map_of docs ''target-inventory.json'' = Some ?raw" "map_of known ''target-inventory.json'' \<noteq> None" "length ?raw \<le> MaximumManifestBytes"
    using assms(8) [of ?raw] Some by (auto simp: inventory_files_def)
  have "sealed_as root e \<and> ent_Size e \<le> art_MaxBytes a" if e: "e \<in> set (artifact_part es)" for e
  proof -
    obtain f where "e = (entry_of \<circ> stored) f" "f \<in> set fs" using e unfolding artifact_sizes(3) [OF assms(1,2)] by (rule imageE)
    then have f: "f \<in> set fs" "e = entry_of (stored f)" by simp_all
    have "stored f \<in> set (filter (\<lambda>f. \<not> known_name (fst f)) (w_files w))" using assms(1) f(1) by (simp add: layout_def)
    then have "stored f \<in> set (w_files w)" by simp
    then have "sealed_as root e" using assms(9) by (auto simp: sealed_as_def f(2))
    moreover have "ent_Size e \<le> art_MaxBytes a" using collected_lengths [OF fs(1) f(1)] by (simp add: f(2) stored_def)
    ultimately show ?thesis by blast
  qed
  then show ?thesis
    using authority_accepted [OF assms(1,2) a Some fs inv(2)] artifacts_accepted [OF assms(1-3) a Some fs assms(4) refl inv(1,3)] Some by simp
qed

lemma anchor_utf8:
  assumes "CanonicalSourceAnchor host dir = Inr anchor" and "\<And>a b. fs_eval host a = Some b \<Longrightarrow> ValidUTF8 b"
  shows "ValidUTF8 anchor"
proof -
  obtain resolved where "fs_eval host (Clean dir) = Some resolved" "anchor = Clean resolved"
    using assms(1) by (auto simp: CanonicalSourceAnchor_def Let_def split: if_splits option.splits)
  then show ?thesis using assms(2) Clean_utf8 by simp
qed

lemma sealed_accepted:
  assumes run: "Run uni ex host x qr dir = (Inr (outcome, w'), calls)" and podman: "podman_identity x"
    and streams: "honest (x_stdout x)" "honest (x_stderr x)" and fits: "fits w'"
    and digests: "\<And>s y. fs_digest (h_fs host) s = Some y \<Longrightarrow> validPlanDigest y"
    and texts: "\<And>a b. fs_eval (h_fs host) a = Some b \<Longrightarrow> ValidUTF8 b"
      "list_all ValidUTF8 [bld_Version (ex_Build ex), bld_Commit (ex_Build ex), bld_SourceDate (ex_Build ex),
         go_Version (h_go host), go_OS (h_go host), go_Arch (h_go host)]"
    and root: "holds_files root (w_files w')"
  shows "\<exists>n. Verify uni dir (Some root) = Inr \<lparr>ver_Schema = ''kenogram.job-verification.v1'', ver_JobID = res_JobID (oc_Result outcome),
    ver_Status = res_Status (oc_Result outcome), ver_Entries = n\<rparr>"
proof -
  obtain q dr d p planRaw executable v vr st r w m stdout stderr out err fs where
    e: "ParseRequest qr = Inr q" "length dr \<le> MaximumRequestBytes" "digest dr = bnd_SHA256 (req_Declaration q)" "Parse dr = Inr d"
    "BuildContext (h_fs host) uni (h_wd host) (h_poll host) d (bnd_Path (req_Declaration q)) dr = Inr p" "validateSecretEnvironment q p = Inr ()"
    and dir: "IsAbs dir" "Clean dir = dir" and plan: "plan_JSON p = Inr planRaw"
    and v: "v = currentProvenance (h_go host) (ex_Build ex) (digest executable)" "vr = Encode Provenance_shape (Provenance_value v)" "is_ok (ParseProvenance vr)"
    and st: "settled uni q qr p v vr st"
    and r: "r = settle_streams out err (with_identity (\<lambda>i. i\<lparr>exe_RuntimeSHA256 := runtimeEvidenceDigest (or_empty (st_before st)) (or_empty (st_after st))\<rparr>)
       (st_result st))" "oc_Result outcome = r" "is_ok (ParseResult (Encode Result_shape (Result_value r)))"
    and w: "writer_ok w" "w_files w = base_files dr planRaw vr qr @ inventory_files q fs @ published st stdout stderr (Encode Result_shape (Result_value r))"
    and fs: "collected_for q fs"
    and seal: "Seal (h_fails host) (req_JobID q) (res_RequestSHA256 r) (digest (Encode Result_shape (Result_value r))) (x_sealedAt x) w = Inr (m, w')"
    and ss: "stream_result ''stdout.bin'' (lim_StdoutMaxBytes (req_Limits q)) stdout out" "stream_result ''stderr.bin'' (lim_StderrMaxBytes (req_Limits q)) stderr err"
    by (rule sealed_run [OF run podman streams fits])
  let ?rr = "Encode Result_shape (Result_value r)"
  have q: "request_ok q" by (rule request_limits [OF e(1)])
  have anchor: "ValidUTF8 (rs_SourceAnchor p)"
    using e(5) by (rule BuildContext_Inr) (rule anchor_utf8 [OF _ texts(1)])
  have evidence: "ValidUTF8 (rs_EvidenceDigest p)" "ValidUTF8 (pw_Base (pl_World (rs_Plan p)))"
    using e(5) Parse_typed [OF e(4)] lower_hex_utf8
    by (auto elim!: BuildContext_Inr simp: EvidenceCanonicalWithAnchor_iff assembled_def typed_declaration_def)
  note res = published_result [OF st r(1)]
  obtain fa fb fd where fin: "res_Finalization r = interval fa fb fd" using st res by (auto simp: settled_def)
  have egressUtf8: "ValidUTF8 (exe_EgressSHA256 (res_Identity r))"
    using st res digest_utf8 [OF digest_valid] by (auto simp: settled_def egress_ok_def Let_def split: if_splits)
  have result: "ParseResult ?rr = Inr r"
    by (rule result_reads_back [OF conjunct1 [OF res] q evidence(2,1) _ egressUtf8 _ fin _ _ r(3)])
      (use res st ss digest_text_utf8 in \<open>simp_all add: settled_def stream_result_def runtimeEvidenceDigest_def\<close>)
  have prov: "ParseProvenance vr = Inr v" "prv_ExecutableSHA256 v \<noteq> []"
    using provenance_reads_back [OF v texts(2) digest_valid] by blast+
  have ids: "res_JobID r = req_JobID q" "res_RequestSHA256 r = digest qr" "exe_DeclarationSHA256 (res_Identity r) = bnd_SHA256 (req_Declaration q)"
    "exe_PlanSHA256 (res_Identity r) = prefixedDigest (rs_EvidenceDigest p)" "exe_ProvenanceSHA256 (res_Identity r) = digest vr"
    using res by (simp_all add: frame_def Let_def)
  have utf8: "ValidUTF8 (req_JobID q)" "ValidUTF8 (res_RequestSHA256 r)" "ValidUTF8 (digest ?rr)"
    using q ids(2) validID_utf8 digest_utf8 [OF digest_valid] by (simp_all add: request_ok_def Let_def)
  note sealed = Seal_Inr [OF seal w(1) utf8]
  obtain known where opened: "open_seal root = Inr (m, known, artifact_part (elems (man_Entries m)))"
    and lookup: "\<forall>name. known_name name \<longrightarrow> map_of known name = map_option (\<lambda>raw. entry_of (name, raw)) (map_of (w_files w) name)"
    using sealed_opens [OF seal w(1) utf8 root] by blast
  let ?es = "elems (man_Entries m)"
  have es: "?es = sort_key ent_Path (w_entries w)" "man_JobID m = req_JobID q" "man_RequestSHA256 m = digest qr" "man_ResultSHA256 m = digest ?rr"
    using sealed ids(2) by simp_all
  note dist = manifest_paths [OF conjunct1 [OF sealed]]
  have super: "set (w_files w) \<subseteq> set (w_files w')" using sealed by auto
  have found: "map_of root (fst f) = Some (EvidenceFile (snd f))" if "f \<in> set (w_files w)" for f
    using holds_lookup [OF root, of "fst f" "snd f"] that super by auto
  have fitsw: "fits w" using fits super by (auto simp: fits_def list_all_iff)
  have si: "sealed_in root known (w_files w)"
    using w(1) found lookup by (simp add: sealed_in_def writer_ok_def)
  have planBound: "length planRaw \<le> MaximumManifestBytes" using fitsw by (auto simp: fits_def list_all_iff w(2) base_files_def)
  have noEgress: "st_egress st \<noteq> []" if "map_of known ''egress.json'' \<noteq> None"
  proof
    assume "st_egress st = []"
    then have "map_of (w_files w) ''egress.json'' = None" using sealed_files_known(3) [OF w(2)] by (simp add: map_of_eq_None_iff)
    then show False using that lookup by (simp add: known_name_def kind_lookups)
  qed
  have limits: "known_name name \<and> (\<exists>raw. (name, raw) \<in> set (w_files w) \<and> int (length raw) \<le> maximum)"
    if "(name, maximum) \<in> set (read_limits q known)" for name maximum
    by (rule sealed_limits [OF w(2) e(2) planBound parse_bound(3) [OF prov(1)] parse_bound(2) [OF result] settled_bounds [OF st] _ _ fitsw noEgress that])
      (use ss in \<open>simp_all add: stream_result_def\<close>)
  note docs = documents_read [OF si w(2) limits]
  have layout: "layout w fs" using w(1) sealed_files_known(4) [OF w(2) fs] by (simp add: layout_def)
  have noInventory: "map_of known ''target-inventory.json'' = None" if "req_Artifacts q = None"
  proof -
    have "map_of (w_files w) ''target-inventory.json'' = None" using sealed_files_known(2) [OF w(2) that] by (simp add: map_of_eq_None_iff)
    then show ?thesis using lookup by (simp add: known_name_def kind_lookups)
  qed
  have inventoryFits: "length raw \<le> MaximumManifestBytes" if "(''target-inventory.json'', raw) \<in> set (inventory_files q fs)" for raw
    using fitsw that by (fastforce simp: fits_def list_all_iff w(2))
  have arts: "request_artifacts_ok q" using q by (simp add: request_ok_def request_artifacts_ok_def Let_def)
  note checks = artifact_checks [OF layout es(1) dist refl arts fs conjI [OF docs(5) noInventory] _ found]
  have "runtime_ok q p v st" "egress_ok uni p st" using st by (simp_all add: settled_def)
  note parts = this
  obtain before after where rt: "parseRetainedRuntimeObservation (or_empty (st_before st)) = Inr before"
    "parseRetainedRuntimeObservation (or_empty (st_after st)) = Inr after"
    "verifyRetainedRuntimeEvidence before after r q (retained_result p) v = Inr ()"
    "\<forall>b. ParseRuntimeObservation (st_before st) = Inr b \<longrightarrow> before = Some b"
    using runtime_accepted [OF parts(1), of r] res by blast
  have plan: "verify_plan uni q r planRaw dr = Inr (retained_result p)"
    by (rule verify_plan_built [OF e(4,5) _ anchor plan planBound ids(4) e(6)]) (rule digests)
  have egress: "verify_egress uni (if st_egress st = [] then None else Some (st_egress st)) (retained_result p) r before = Inr ()"
    by (rule egress_accepted [OF parts(2)]) (use res rt(4) in simp_all)
  have streams: "verify_streams r stdout stderr = Inr ()"
    using res ss by (simp add: verify_streams_def stream_result_def)
  have "verify_identities m q qr r ?rr dr = Inr ()"
    using es ids e(3) by (simp add: verify_identities_def)
  note identities = this
  let ?docs = "map (\<lambda>(name, _). (name, the (map_of (w_files w) name))) (read_limits q known)"
  have d: "map_of ?docs ''result.json'' = Some ?rr" "map_of ?docs ''provenance.json'' = Some vr" "map_of ?docs ''declaration.toml'' = Some dr"
    "map_of ?docs ''plan.json'' = Some planRaw" "map_of ?docs ''runtime-before.json'' = Some (or_empty (st_before st))"
    "map_of ?docs ''runtime-after.json'' = Some (or_empty (st_after st))" "map_of ?docs ''stdout.bin'' = Some stdout" "map_of ?docs ''stderr.bin'' = Some stderr"
    by (rule docs(2); simp add: base_files_def published_def)+
  have artifacts: "validateArtifactManifestAuthority q known (artifact_part ?es) = Inr ()" "verifyArtifacts q m ?docs = Inr ()"
    "case req_Artifacts q of None \<Rightarrow> True | Some a \<Rightarrow> \<forall>f\<in>set (artifact_part ?es). sealed_as root f \<and> ent_Size f \<le> art_MaxBytes a"
    using checks docs(6) inventoryFits by blast+
  have "verify_documents uni root m (artifact_part ?es) q qr ?docs = Inr \<lparr>ver_Schema = ''kenogram.job-verification.v1'', ver_JobID = man_JobID m,
      ver_Status = res_Status r, ver_Entries = int (length ?es)\<rparr>"
    by (rule verify_documents_Inr [OF d result prov(1) identities plan image_accepted [OF conjunct1 [OF res]] _ prov(2) _ rt(1-3) _ artifacts(2,3) streams])
      (use ids(5) res docs(3) egress in simp_all)
  moreover have "readSealedEntry root (entry_of (''request.json'', qr)) (int MaximumRequestBytes) = Inr qr"
    by (rule read_sealed [OF si]) (use parse_bound(1) [OF e(1)] in \<open>simp_all add: w(2) base_files_def\<close>)
  ultimately show ?thesis
    using dir opened docs(1,4) e(1) artifacts(1) es(2) ids(1) r(2) by (simp add: Verify_def)
qed

end
