(* ===== verification/Go_Size.thy ===== *)
theory Go_Size
  imports Go_Indent Go_Time
begin

text \<open>
  How long the documents of the JSON encoder are: an escaped byte takes at most six bytes, so the length of a
  document is bounded by a sum over the value that is written.
\<close>

lemma length_escape_ascii: "length (escape_ascii html c) \<le> 6"
  by (simp add: escape_ascii_def)

lemma length_json_escape: "length (json_escape html s) \<le> 6 * length s"
proof (induction "length s" arbitrary: s rule: less_induct)
  case less
  show ?case
  proof (cases s)
    case (Cons c t)
    obtain r n ok where d: "decode_rune c t = (r, n, ok)" by (metis prod.collapse)
    have "length (json_escape html t) \<le> 6 * length t" "length (json_escape html (drop n t)) \<le> 6 * length (drop n t)"
      using less [of t] less [of "drop n t"] Cons by simp_all
    moreover from this(2) have "length (json_escape html (drop n t)) \<le> 6 * length t"
      "min (length t) n + length (json_escape html (drop n t)) \<le> 5 + 6 * length t" by auto
    ultimately show ?thesis using Cons d length_escape_ascii [of html c] by simp
  qed simp
qed

lemma length_json_quote: "length (json_quote html s) \<le> 6 * length s + 2"
  using length_json_escape [of html s] by (simp add: json_quote_def)

section \<open>The size of a document\<close>

fun doc_size :: "shape \<Rightarrow> gval \<Rightarrow> nat"
and list_size :: "shape \<Rightarrow> gval list \<Rightarrow> nat"
and fields_size :: "(bytes \<times> bool \<times> shape) list \<Rightarrow> gval list \<Rightarrow> nat" where
  "doc_size TString (VString s) = 6 * length s + 2"
| "doc_size (TInt lo hi) (VInt n) = length (Itoa n)"
| "doc_size TBool (VBool b) = 5"
| "doc_size (TSlice t) (VSlice (Some xs)) = list_size t xs + 2"
| "doc_size (TPtr t) (VPtr (Some x)) = doc_size t x"
| "doc_size (TStruct fs) (VStruct vs) = fields_size fs vs + 2"
| "doc_size _ _ = 4"
| "list_size t [] = 0"
| "list_size t (x # xs) = doc_size t x + 1 + list_size t xs"
| "fields_size ((n, om, t) # fs) (v # vs) = 6 * length n + 4 + doc_size t v + fields_size fs vs"
| "fields_size _ _ = 0"

lemma length_join: "length (join_with '','' xs) \<le> sum_list (map (\<lambda>x. length x + 1) xs)"
  by (induction xs) (auto simp: join_with_Cons)

lemma field_bound:
  "a \<le> x \<Longrightarrow> b \<le> y \<Longrightarrow> length (json_quote html n) + (a + b) \<le> Suc (Suc (6 * length n + (x + y)))"
  using length_json_quote [of html n] by simp

lemma length_marshal:
  "length (json_encode html (marshal t v)) \<le> doc_size t v"
  "sum_list (map (\<lambda>j. length (json_encode html j) + 1) (marshal_list t vs)) \<le> list_size t vs"
  "sum_list (map (\<lambda>(k, j). length (json_quote html k) + length (json_encode html j) + 2) (marshal_fields fs ws)) \<le> fields_size fs ws"
proof (induction t v and t vs and fs ws rule: marshal_marshal_list_marshal_fields.induct)
  case (4 t xs)
  then show ?case using length_join [of "map (json_encode html) (marshal_list t xs)"] by (simp add: comp_def)
next
  case (6 fs vs)
  let ?m = "\<lambda>(k, j). json_quote html k @ '':'' @ json_encode html j"
  have "sum_list (map (\<lambda>x. length x + 1) (map ?m (marshal_fields fs vs))) =
      sum_list (map (\<lambda>(k, j). length (json_quote html k) + length (json_encode html j) + 2) (marshal_fields fs vs))"
    by (rule arg_cong [where f = sum_list]) auto
  then show ?case using 6 length_join [of "map ?m (marshal_fields fs vs)"] by simp
qed (auto simp: jint_def intro: field_bound length_json_quote [simplified])

lemma length_Encode: "length (Encode t v) \<le> doc_size t v + 1"
  using length_marshal(1) [of False t v] by (simp add: Encode_def)

lemma length_Itoa: "\<bar>n\<bar> < 10 ^ Suc k \<Longrightarrow> length (Itoa n) \<le> k + 2"
proof -
  assume "\<bar>n\<bar> < 10 ^ Suc k"
  then have "nat \<bar>n\<bar> < nat (10 ^ Suc k)" by (subst nat_mono_iff) simp_all
  then have "nat \<bar>n\<bar> < 10 ^ Suc k" by (simp only: nat_power_eq) simp
  from nat_decimal_length [OF this] show ?thesis by (auto simp: Itoa_def)
qed

lemma length_Itoa_wire: "0 \<le> n \<Longrightarrow> n \<le> 9007199254740991 \<Longrightarrow> length (Itoa n) \<le> 17"
  using length_Itoa [of n 15] by simp

lemma length_Format:
  assumes "wf_time t" and "t_offset t = 0"
  shows "length (FormatRFC3339Nano t) \<le> 30"
proof -
  have "days_in m y \<le> 31" for m y by (simp add: days_in_def)
  then have "t_year t < 10 ^ 4" "t_month t < 10 ^ 2" "t_day t < 10 ^ 2" "t_hour t < 10 ^ 2" "t_minute t < 10 ^ 2" "t_second t < 10 ^ 2"
    "t_nanos t < 10 ^ 9"
    using assms(1) order_trans [of "t_day t" "days_in (t_month t) (t_year t)" 31] by (auto simp: wf_time_def)
  note pads = this [THEN length_pad]
  have "length (format_fraction (t_nanos t)) \<le> 10"
    using length_dropWhile_le [of "\<lambda>c. c = CHR ''0''" "rev (pad 9 (t_nanos t))"] pads(7) by (simp add: format_fraction_def)
  then show ?thesis using pads(1-6) assms(2) by (simp add: FormatRFC3339Nano_def format_zone_def)
qed

section \<open>Indented documents\<close>

text \<open>The size of a document in which every line break takes at most \<open>c\<close> bytes.\<close>

fun json_size :: "nat \<Rightarrow> json \<Rightarrow> nat" where
  "json_size c JNull = 4"
| "json_size c (JBool b) = 5"
| "json_size c (JNum n) = length n"
| "json_size c (JStr s) = 6 * length s + 2"
| "json_size c (JArr vs) = c + 2 + sum_list (map (\<lambda>v. json_size c v + c + 1) vs)"
| "json_size c (JObj ms) = c + 2 + sum_list (map (\<lambda>(k, v). 6 * length k + 4 + json_size c v + c + 1) ms)"

lemma length_join_break:
  "ss \<noteq> [] \<Longrightarrow> length (line_break l @ join_with ('','' @ line_break l) ss) \<le> sum_list (map (\<lambda>s. length s + (2 * l + 2)) ss)"
  by (induction ss rule: list_nonempty_induct) (auto simp: join_with_Cons line_break_def)

lemma le_fold_max: "x \<in> set xs \<Longrightarrow> (x :: nat) \<le> fold max xs a"
  using fold_max_le [of xs a "fold max xs a"] by (simp add: list_all_iff)

lemma length_indent: "2 * (l + json_depth j) + 1 \<le> c \<Longrightarrow> length (json_indent html l j) \<le> json_size c j"
proof (induction html l j rule: json_indent.induct)
  case (1 html l vs)
  have "length (json_indent html (Suc l) v) + (2 * Suc l + 2) \<le> json_size c v + c + 1" if "v \<in> set vs" for v
    using 1 that le_fold_max [of "json_depth v" "map json_depth vs" 0] by fastforce
  then have "sum_list (map (\<lambda>s. length s + (2 * Suc l + 2)) (map (json_indent html (Suc l)) vs)) \<le> sum_list (map (\<lambda>v. json_size c v + c + 1) vs)"
    by (simp only: map_map comp_def) (rule sum_list_mono)
  then show ?case
    using 1(2) length_join_break [of "map (json_indent html (Suc l)) vs" "Suc l"] by (auto simp: line_break_def)
next
  case (2 html l ms)
  let ?m = "\<lambda>(k, v). json_quote html k @ '': '' @ json_indent html (Suc l) v"
  have "length (?m kv) + (2 * Suc l + 2) \<le> (case kv of (k, v) \<Rightarrow> 6 * length k + 4 + json_size c v + c + 1)" if "kv \<in> set ms" for kv
  proof -
    obtain k v where kv: "kv = (k, v)" by (cases kv)
    have "json_depth v \<le> fold max (map (\<lambda>(k, j). json_depth j) ms) 0" using that kv by (intro le_fold_max) force
    then have "length (json_indent html (Suc l) v) \<le> json_size c v" using 2(1) [OF _ that kv [symmetric]] 2(2) that by fastforce
    then show ?thesis using length_json_quote [of html k] 2(2) kv by simp
  qed
  then have "sum_list (map (\<lambda>s. length s + (2 * Suc l + 2)) (map ?m ms)) \<le> sum_list (map (\<lambda>(k, v). 6 * length k + 4 + json_size c v + c + 1) ms)"
    by (simp only: map_map comp_def) (rule sum_list_mono)
  then show ?case
    using 2(2) length_join_break [of "map ?m ms" "Suc l"] by (auto simp: line_break_def)
qed (use length_json_quote in simp_all)

lemma length_pretty:
  "2 * shape_depth t + 1 \<le> c \<Longrightarrow> length (json_indent html 0 (marshal t v)) \<le> json_size c (marshal t v)"
  using length_indent [of 0 "marshal t v" c html] marshal_depth(1) [of t v] by simp

end
