(* ===== verification/Job_Status.thy ===== *)
theory Job_Status
  imports Job_Verified Go_Size
begin

text \<open>
  The status of a run and its reasons move together: every stage keeps a result that validation accepts, so a
  run whose evidence was opened always ends in a sealed directory when the host stores its files and the
  runtime keeps its contract.
\<close>

section \<open>An orderly environment\<close>

text \<open>
  The contract of the runtime and of the clock: a podman runtime with lower-case image digests, a wait that
  returns without an error only for a target that exited or was signaled, and a clock that gives
  UTC times in order.
\<close>

definition utc :: "gotime \<Rightarrow> bool" where
  "utc t = (wf_time t \<and> t_offset t = 0)"

definition lower_image :: "runtime_run \<Rightarrow> bool" where
  "lower_image x = (case x_identity x of
     Returned (identity, _) _ \<Rightarrow> validRuntimeDigest (id_ImageDigest identity) \<longrightarrow> validDigest (id_ImageDigest identity)
   | Expired \<Rightarrow> True)"

definition observed_target :: "runtime_run \<Rightarrow> bool" where
  "observed_target x = (case x_wait x of
     Returned (target, err) late \<Rightarrow> err = [] \<longrightarrow> tgt_Kind target \<in> {''exited'', ''signaled''}
   | Expired \<Rightarrow> True)"

definition orderly :: "runtime_run \<Rightarrow> bool" where
  "orderly x = (podman_identity x \<and> lower_image x \<and> observed_target x \<and> utc (x_finalStarted x) \<and> utc (x_finalFinished x)
     \<and> \<not> Before (x_finalFinished x) (x_finalStarted x) \<and> utc (x_now x) \<and> utc (x_sealedAt x))"

section \<open>Status and reasons\<close>

definition reasons_ok :: "Result \<Rightarrow> bool" where
  "reasons_ok r = (set (elems (res_Reasons r)) \<subseteq> set reason_names \<and> distinct (elems (res_Reasons r))
     \<and> (exe_ImageDigest (res_Identity r) = [] \<or> validDigest (exe_ImageDigest (res_Identity r))))"

definition status_ok :: "Result \<Rightarrow> bool" where
  "status_ok r = (reasons_ok r \<and> (elems (res_Reasons r) = [] \<longleftrightarrow> res_Status r = ''complete'')
     \<and> (res_Status r = ''complete'' \<longrightarrow> tgt_Kind (res_Target r) \<in> {''exited'', ''signaled''}
          \<and> exe_RuntimeProvider (res_Identity r) = ''podman-cli'')
     \<and> (res_Status r = ''refused'' \<longrightarrow> tgt_Kind (res_Target r) = ''not_started''))"

lemma appended_reasons: "elems (appendReason rs reason) \<noteq> []"
  by (auto simp: appendReason_def)

lemma distinct_appendReason: "distinct (elems rs) \<Longrightarrow> distinct (elems (appendReason rs reason))"
  by (simp add: appendReason_def)

lemma status_incomplete: "reasons_ok r \<Longrightarrow> reason \<in> set reason_names \<Longrightarrow> status_ok (incomplete reason r)"
  using appended_reasons [of "res_Reasons r" reason] distinct_appendReason [of "res_Reasons r" reason]
  by (auto simp: status_ok_def reasons_ok_def) (simp_all add: incomplete_def)

lemma status_reasons: "status_ok r \<Longrightarrow> reasons_ok r"
  by (simp add: status_ok_def)

lemma status_keeps:
  "status_ok (r\<lparr>res_Finalization := f\<rparr>) = status_ok r" "status_ok (r\<lparr>res_Cleanup := c\<rparr>) = status_ok r"
  "status_ok (r\<lparr>res_Stdout := out, res_Stderr := err\<rparr>) = status_ok r"
  "reasons_ok (r\<lparr>res_Finalization := f\<rparr>) = reasons_ok r"
  by (simp_all add: status_ok_def reasons_ok_def)

lemma status_initial: "status_ok (initial_result q qr p vr)"
  by (simp add: status_ok_def reasons_ok_def initial_result_def reason_names_def target_of_def)

section \<open>The stages\<close>

lemma identity_status:
  assumes "observe_identity x p err (start_state q qr p vr w calls) = (startErr, st)" and "orderly x"
  shows "status_ok (st_result st) \<and> (err \<noteq> [] \<longrightarrow> startErr \<noteq> [])
    \<and> tgt_Kind (res_Target (st_result st)) = ''not_started''
    \<and> (startErr = [] \<longrightarrow> exe_RuntimeProvider (res_Identity (st_result st)) = ''podman-cli'')"
proof (cases "err = []")
  case False
  then show ?thesis using assms(1) status_initial by (auto simp: observe_identity_def start_state_def initial_result_def target_of_def)
next
  case True
  obtain identity identityErr where i: "identityProcessBounded (x_identity x) = (identity, identityErr)" by force
  have d: "validRuntimeDigest (id_ImageDigest identity) \<longrightarrow> validDigest (id_ImageDigest identity)"
    "identityErr = [] \<longrightarrow> id_Provider identity = ''podman-cli''"
    using i assms(2)
    by (auto simp: identityProcessBounded_def orderly_def lower_image_def podman_identity_def no_identity_def validRuntimeDigest_def
        split: bounded.splits if_splits)
  show ?thesis
    using assms(1) True i d status_initial [of q qr p vr]
    by (auto simp: observe_identity_def start_state_def Let_def status_ok_def reasons_ok_def initial_result_def target_of_def)
qed

lemma admitted_status:
  assumes "status_ok (st_result st)" and "tgt_Kind (res_Target (st_result st)) = ''not_started''"
  shows "status_ok (st_result (settle_admitted admitted startErr st))
    \<and> (startErr \<noteq> [] \<and> \<not> admitted \<longrightarrow> tgt_Kind (res_Target (st_result (settle_admitted admitted startErr st))) = ''not_started'')"
  using assms by (auto simp: settle_admitted_def status_ok_def reasons_ok_def no_runtime_def reason_names_def target_of_def)

lemma target_status:
  assumes "orderly x" and "status_ok (st_result st)" and "exe_RuntimeProvider (res_Identity (st_result st)) = ''podman-cli''"
  shows "status_ok (st_result (observe_target x st)) \<and> exe_RuntimeProvider (res_Identity (st_result (observe_target x st))) = ''podman-cli''"
proof -
  obtain target err where w: "waitProcessBounded (x_wait x) = (target, err)" by force
  have "err = [] \<longrightarrow> tgt_Kind target \<in> {''exited'', ''signaled''}"
    using w assms(1) by (auto simp: waitProcessBounded_def orderly_def observed_target_def split: bounded.splits if_splits)
  then show ?thesis
    using assms(2,3) w by (auto simp: observe_target_def Let_def status_ok_def reasons_ok_def reason_names_def)
qed

lemma finalize_status:
  assumes "finalize_runtime x q p v st = ((final, finalErr), st')" and "status_ok (st_result st)"
  shows "status_ok (st_result st')"
proof -
  define r where "r = (st_result st)\<lparr>res_Finalization := interval (x_finalStarted x) (x_finalFinished x) (x_finalElapsed x)\<rparr>"
  have r: "status_ok r" using assms(2) by (simp add: r_def status_keeps)
  have invalid: "reasons_ok (with_identity no_runtime (r\<lparr>res_Reasons := appendReason (res_Reasons r) ''RUNTIME_OBSERVATION_INVALID''\<rparr>))"
    using status_reasons [OF r] distinct_appendReason [of "res_Reasons r"] by (auto simp: reasons_ok_def no_runtime_def reason_names_def)
  have "st_result st' = r \<or> st_result st' = incomplete ''FINALIZATION_FAILED'' r
      \<or> st_result st' = incomplete ''FINALIZATION_FAILED'' (with_identity no_runtime (r\<lparr>res_Reasons := appendReason (res_Reasons r) ''RUNTIME_OBSERVATION_INVALID''\<rparr>))"
    using assms(1) by (auto simp: finalize_runtime_def Let_def r_def split: prod.splits if_splits)
  then show ?thesis
    using r status_reasons [OF r] invalid status_incomplete [of _ "''FINALIZATION_FAILED''"] by (auto simp: reason_names_def)
qed

lemma run_status:
  assumes "observe_run fails x q p v startErr st = (Inr st', calls)" and "orderly x" and "status_ok (st_result st)" and "req_Artifacts q = None"
    and "startErr = [] \<longrightarrow> exe_RuntimeProvider (res_Identity (st_result st)) = ''podman-cli''"
  shows "status_ok (st_result st') \<and> (startErr \<noteq> [] \<longrightarrow> res_Target (st_result st') = res_Target (st_result st))
    \<and> res_Finalization (st_result st') \<in> {interval (x_finalStarted x) (x_finalFinished x) (x_finalElapsed x), interval (x_now x) (x_now x) 0}"
proof (cases "startErr = []")
  case True
  obtain final finalErr st1 where f: "finalize_runtime x q p v (observe_target x st) = ((final, finalErr), st1)" by (metis prod.collapse)
  have s1: "status_ok (st_result st1)" using finalize_status [OF f] target_status [OF assms(2,3)] assms(5) True by blast
  have fin: "res_Finalization (st_result st1) = interval (x_finalStarted x) (x_finalFinished x) (x_finalElapsed x)"
    using f by (auto simp: finalize_runtime_def Let_def split: prod.splits if_splits)
  have "st_result st' = st_result st1 \<or> st_result st' = incomplete ''UNREQUESTED_ARTIFACTS'' (st_result st1)"
    using assms(1,4) True f by (auto simp: observe_run_def collect_artifacts_def split: if_splits)
  then show ?thesis
    using s1 fin True status_incomplete [OF status_reasons [OF s1], of "''UNREQUESTED_ARTIFACTS''"] by (auto simp: reason_names_def)
next
  case False
  then show ?thesis using assms(1,3,4) by (auto simp: observe_run_def absent_artifacts_def status_keeps)
qed

lemma cleanup_status:
  assumes "status_ok r"
  shows "status_ok (settle_cleanup c r) \<and> (res_Status (settle_cleanup c r) = ''incomplete'' \<or> cln_Status c = ''complete'')"
  using assms status_incomplete [of "r\<lparr>res_Cleanup := c\<rparr>" "''CLEANUP_INCOMPLETE''"] status_reasons [of "r\<lparr>res_Cleanup := c\<rparr>"]
  by (auto simp: settle_cleanup_def Let_def reason_names_def status_keeps)

lemma egress_status:
  assumes "status_ok (st_result st)"
  shows "status_ok (st_result (settle_egress uni p st)) \<and> res_Cleanup (st_result (settle_egress uni p st)) = res_Cleanup (st_result st)
    \<and> res_Target (st_result (settle_egress uni p st)) = res_Target (st_result st)
    \<and> res_Finalization (st_result (settle_egress uni p st)) = res_Finalization (st_result st)
    \<and> (res_Status (st_result (settle_egress uni p st)) = res_Status (st_result st) \<or> res_Status (st_result (settle_egress uni p st)) = ''incomplete'')"
proof -
  have "st_result (settle_egress uni p st) = st_result st
      \<or> st_result (settle_egress uni p st) = with_identity (\<lambda>i. i\<lparr>exe_EgressSHA256 := digest (st_egress st)\<rparr>) (st_result st)
      \<or> (\<exists>reason\<in>set reason_names. st_result (settle_egress uni p st) = incomplete reason (st_result st))"
    by (auto simp: settle_egress_def Let_def reason_names_def split: sum.splits)
  moreover have "status_ok (with_identity (\<lambda>i. i\<lparr>exe_EgressSHA256 := e\<rparr>) (st_result st))" for e
    using assms by (simp add: status_ok_def reasons_ok_def)
  ultimately show ?thesis using assms status_incomplete [OF status_reasons [OF assms]] by auto
qed

lemma start_status:
  assumes "status_ok r" and "startErr \<noteq> [] \<and> \<not> admitted \<longrightarrow> tgt_Kind (res_Target r) = ''not_started''"
    and "res_Status r = ''incomplete'' \<or> cln_Status (res_Cleanup r) = ''complete''"
  shows "status_ok (settle_start startErr admitted r)
    \<and> (res_Status (settle_start startErr admitted r) = ''incomplete'' \<or> cln_Status (res_Cleanup (settle_start startErr admitted r)) = ''complete'')"
  using assms by (auto simp: settle_start_def status_ok_def reasons_ok_def reason_names_def target_of_def)

lemma executed_status:
  assumes "executed fails x q qr p v vr w admitted startErr st c" and "orderly x" and "req_Artifacts q = None"
    and "r = st_result (final_state uni p c startErr admitted st)"
  shows "status_ok r \<and> (res_Status r = ''incomplete'' \<or> cln_Status (res_Cleanup r) = ''complete'')
    \<and> res_Finalization r \<in> {interval (x_finalStarted x) (x_finalFinished x) (x_finalElapsed x), interval (x_now x) (x_now x) 0}"
proof -
  obtain process err calls0 st0 calls1 where i: "observe_identity x p err (start_state q qr p vr w calls0) = (startErr, st0)"
    and o': "observe_run fails x q p v startErr (settle_admitted admitted startErr st0) = (Inr st, calls1)"
    using assms(1) by (auto simp: executed_def)
  note si = identity_status [OF i assms(2)]
  have sa: "status_ok (st_result (settle_admitted admitted startErr st0))"
    "startErr \<noteq> [] \<and> \<not> admitted \<longrightarrow> tgt_Kind (res_Target (st_result (settle_admitted admitted startErr st0))) = ''not_started''"
    using admitted_status [of st0 admitted startErr] si by blast+
  have "startErr = [] \<longrightarrow> exe_RuntimeProvider (res_Identity (st_result (settle_admitted admitted startErr st0))) = ''podman-cli''"
    using si by (simp add: settle_admitted_def)
  note sr = run_status [OF o' assms(2) sa(1) assms(3) this]
  let ?st2 = "st\<lparr>st_result := settle_cleanup c (st_result st)\<rparr>"
  let ?st3 = "settle_egress uni p ?st2"
  note s2 = cleanup_status [OF conjunct1 [OF sr], of c]
  have "status_ok (st_result ?st2)" using s2 by simp
  note s3 = egress_status [OF this, of uni p]
  have "startErr \<noteq> [] \<and> \<not> admitted \<longrightarrow> tgt_Kind (res_Target (st_result ?st3)) = ''not_started''"
    using s3 sr sa(2) by simp
  moreover have "res_Status (st_result ?st3) = ''incomplete'' \<or> cln_Status (res_Cleanup (st_result ?st3)) = ''complete''"
    using s2 s3 by auto
  ultimately have "status_ok (settle_start startErr admitted (st_result ?st3))
      \<and> (res_Status (settle_start startErr admitted (st_result ?st3)) = ''incomplete''
         \<or> cln_Status (res_Cleanup (settle_start startErr admitted (st_result ?st3))) = ''complete'')"
    using start_status s3 by blast
  moreover have "res_Finalization (settle_start startErr admitted (st_result ?st3)) = res_Finalization (st_result st)"
    using s3 by (simp add: settle_start_def)
  ultimately show ?thesis using sr by (simp add: assms(4) final_state_def Let_def)
qed

end
