(* ===== verification/Jobcontract_Size.thy ===== *)
theory Jobcontract_Size
  imports Jobcontract_Properties Go_Size
begin

text \<open>
  The sizes of the documents of the job contract: the bounds that validation puts on the parts of a result keep
  its document below the limit of its reader, and a manifest grows by a bounded amount per entry.
\<close>

lemma list_size_bound: "list_all (\<lambda>v. doc_size t v \<le> n) vs \<Longrightarrow> list_size t vs \<le> length vs * (n + 1)"
  by (induction vs) auto

lemma strings_size:
  assumes "list_all (\<lambda>s. length s \<le> n) (elems xs)" and "length (elems xs) \<le> m"
  shows "doc_size (TSlice TString) (VStrings xs) \<le> m * (6 * n + 3) + 4"
proof (cases xs)
  case (Some ys)
  have "list_size TString (map VString ys) \<le> length (map VString ys) * (6 * n + 2 + 1)"
    using assms(1) Some by (intro list_size_bound) (simp add: list_all_iff)
  also have "\<dots> \<le> m * (6 * n + 2 + 1)" by (rule mult_le_mono1) (use assms(2) Some in simp)
  finally show ?thesis using Some by (simp add: VStrings_def add_mult_distrib2)
qed (simp add: VStrings_def)

lemma digest_length: "validDigest s \<Longrightarrow> length s = 71"
  by (simp add: validDigest_def digestPattern_def)

lemma timestamp_length: "validTimestamp s \<Longrightarrow> length s \<le> 30"
  using length_Format by (auto simp: validTimestamp_iff)

lemma reasons_length: "validReasons xs \<Longrightarrow> length xs \<le> 64 \<and> list_all (\<lambda>s. length s \<le> 64) xs"
proof -
  have "reasonPattern s \<Longrightarrow> length s \<le> 64" for s by (cases s) (simp_all add: reasonPattern_def class_text_def)
  then show "validReasons xs \<Longrightarrow> ?thesis" by (simp add: validReasons_def list_all_iff)
qed

lemma wire_length: "0 \<le> n \<Longrightarrow> n \<le> MaximumWireInteger \<Longrightarrow> length (Itoa n) \<le> 17"
  using length_Itoa_wire [of n] by (simp add: MaximumWireInteger_def)

section \<open>The parts of a result\<close>

lemma identity_size:
  assumes "validateExecutionIdentity i complete = Inr ()"
  shows "doc_size ExecutionIdentity_shape (ExecutionIdentity_value i) \<le> 30000"
proof -
  have opt: "s = [] \<or> validDigest s \<Longrightarrow> length s \<le> 71" for s using digest_length [of s] by auto
  have parts: "validDigest (exe_DeclarationSHA256 i)" "validDigest (exe_PlanSHA256 i)" "0 \<le> exe_Generation i" "exe_Generation i \<le> MaximumWireInteger"
    "length (exe_ImageReference i) \<le> 4096" "exe_ImageDigest i = [] \<or> validDigest (exe_ImageDigest i)"
    "exe_RuntimeSHA256 i = [] \<or> validDigest (exe_RuntimeSHA256 i)" "exe_EgressSHA256 i = [] \<or> validDigest (exe_EgressSHA256 i)"
    "validDigest (exe_ProvenanceSHA256 i)" "exe_RuntimeProvider i = [] \<or> exe_RuntimeProvider i = ''podman-cli''"
    using assms by (auto simp: validateExecutionIdentity_def validOpaqueText_def maximumPathBytes_def split: if_splits)
  have "length (exe_RuntimeProvider i) \<le> 10" using parts(10) by auto
  then show ?thesis
    using digest_length [OF parts(1)] digest_length [OF parts(2)] wire_length [OF parts(3,4)] parts(5) opt [OF parts(6)] opt [OF parts(7)]
      opt [OF parts(8)] digest_length [OF parts(9)]
    by (simp add: ExecutionIdentity_shape_def ExecutionIdentity_value_def TInt64_def)
qed

lemma target_size:
  assumes "validateTarget t = Inr ()"
  shows "doc_size TargetResult_shape (TargetResult_value t) \<le> 3000"
proof -
  have timed: "validateInterval a b d = Inr () \<Longrightarrow> length a \<le> 30 \<and> length b \<le> 30 \<and> length (Itoa d) \<le> 17" for a b d
    using interval_ok [of a b d] timestamp_length wire_length by blast
  have small: "length (Itoa n) \<le> 17" if "0 \<le> n" "n \<le> 255" for n using that wire_length [of n] by (simp add: MaximumWireInteger_def)
  have ints: "doc_size (TPtr TInt64) (VPtr (map_option VInt (tgt_ExitStatus t))) \<le> 17" "doc_size (TPtr TInt64) (VPtr (map_option VInt (tgt_Signal t))) \<le> 17"
    "doc_size (TPtr TInt64) (VPtr (map_option VInt (tgt_DurationNS t))) \<le> 17"
    "length (tgt_StartedAt t) \<le> 30" "length (tgt_FinishedAt t) \<le> 30" "length (tgt_Kind t) \<le> 11"
    using assms timed [of "tgt_StartedAt t" "tgt_FinishedAt t"] small
    by (auto simp: validateTarget_def Let_def TInt64_def split: if_splits option.splits)
  then show ?thesis by (simp add: TargetResult_shape_def TargetResult_value_def)
qed

lemma stream_size:
  assumes "validateStream s name = Inr ()" and "length name \<le> 64"
  shows "doc_size StreamResult_shape (StreamResult_value s) \<le> 3000"
proof -
  have parts: "stm_Path s = name" "validDigest (stm_SHA256 s)" "0 \<le> stm_CapturedBytes s" "stm_CapturedBytes s \<le> MaximumWireInteger"
    "0 \<le> stm_TotalBytes s" "stm_TotalBytes s \<le> MaximumWireInteger"
    using assms(1) by (auto simp: validateStream_def)
  show ?thesis
    using assms(2) parts(1) digest_length [OF parts(2)] wire_length [OF parts(3,4)] wire_length [OF parts(5,6)]
    by (simp add: StreamResult_shape_def StreamResult_value_def TInt64_def)
qed

lemma finalization_size:
  assumes "validateInterval (fin_StartedAt f) (fin_FinishedAt f) (fin_DurationNS f) = Inr ()"
  shows "doc_size FinalizationResult_shape (FinalizationResult_value f) \<le> 3000"
  using interval_ok [OF assms] timestamp_length [of "fin_StartedAt f"] timestamp_length [of "fin_FinishedAt f"] wire_length [of "fin_DurationNS f"]
  by (simp add: FinalizationResult_shape_def FinalizationResult_value_def TInt64_def)

lemma cleanup_size:
  assumes "validateCleanup c = Inr ()"
  shows "doc_size CleanupResult_shape (CleanupResult_value c) \<le> 30000"
proof -
  have parts: "cln_Status c \<in> {''complete'', ''incomplete''}" "0 \<le> cln_DurationNS c" "cln_DurationNS c \<le> MaximumWireInteger"
    "validReasons (elems (cln_Reasons c))"
    using assms by (auto simp: validateCleanup_def split: if_splits)
  have "length (cln_Status c) \<le> 10" using parts(1) by auto
  moreover have "doc_size (TSlice TString) (VStrings (cln_Reasons c)) \<le> 64 * (6 * 64 + 3) + 4"
    using reasons_length [OF parts(4)] by (intro strings_size) simp_all
  ultimately show ?thesis
    using wire_length [OF parts(2,3)] by (simp add: CleanupResult_shape_def CleanupResult_value_def TInt64_def)
qed

lemma result_size:
  assumes "ValidateResult r = Inr ()"
  shows "length (Encode Result_shape (Result_value r)) \<le> MaximumResultBytes"
proof -
  have parts: "validateExecutionIdentity (res_Identity r) (res_Status r = ''complete'') = Inr ()" "validateTarget (res_Target r) = Inr ()"
    "validateStream (res_Stdout r) ''stdout.bin'' = Inr ()" "validateStream (res_Stderr r) ''stderr.bin'' = Inr ()"
    "validateInterval (fin_StartedAt (res_Finalization r)) (fin_FinishedAt (res_Finalization r)) (fin_DurationNS (res_Finalization r)) = Inr ()"
    "validateCleanup (res_Cleanup r) = Inr ()" "validReasons (elems (res_Reasons r))"
    "res_Schema r = ResultSchema" "validID (res_JobID r)" "validDigest (res_RequestSHA256 r)" "res_EvidenceManifest r = ''manifest.json''"
    "res_Status r \<in> {''complete'', ''incomplete'', ''refused''}"
    using assms by (simp_all add: ValidateResult_def result_simps)
  have "doc_size (TSlice TString) (VStrings (res_Reasons r)) \<le> 64 * (6 * 64 + 3) + 4"
    using reasons_length [OF parts(7)] by (intro strings_size) simp_all
  moreover have "length (res_Status r) \<le> 10" "length (res_JobID r) \<le> 63" "length (res_RequestSHA256 r) = 71"
    using parts(9,10,12) digest_length by (auto simp: validID_def)
  ultimately have "doc_size Result_shape (Result_value r) \<le> 200000"
    using identity_size [OF parts(1)] target_size [OF parts(2)] stream_size [OF parts(3)] stream_size [OF parts(4)] finalization_size [OF parts(5)]
      cleanup_size [OF parts(6)] parts(8,11)
    by (simp add: Result_shape_def Result_value_def ResultSchema_def)
  then show ?thesis using length_Encode [of Result_shape "Result_value r"] by (simp add: MaximumResultBytes_def)
qed

text \<open>
  C36: Every result that passes validation is read back unchanged from the document that the encoder writes for
  it; the limits of the contract keep that document below the size that its reader accepts.
\<close>

theorem valid_result_round_trip:
  assumes "ValidateResult r = Inr ()"
  shows "ParseResult (Encode Result_shape (Result_value r)) = Inr r"
  using decode_Encode [OF _ _ shape_facts(3,4) result_size [OF assms]] result_document [OF assms] assms by (simp add: ParseResult_def)

theorem valid_result_round_trip_witness:
  "ValidateResult demo_result = Inr () \<and> ParseResult (Encode Result_shape (Result_value demo_result)) = Inr demo_result"
  using demo_result_facts(1) valid_result_round_trip [OF demo_result_facts(1)] by simp

section \<open>Manifests\<close>

lemma entry_size:
  assumes "length (ent_Path e) \<le> 4096" and "length (ent_Kind e) \<le> 16" and "0 \<le> ent_Size e" and "ent_Size e \<le> MaximumWireInteger"
    and "validDigest (ent_SHA256 e)"
  shows "doc_size ManifestEntry_shape (ManifestEntry_value e) \<le> 6 * length (ent_Path e) + 800"
  using assms(2) wire_length [OF assms(3,4)] digest_length [OF assms(5)]
  by (simp add: ManifestEntry_shape_def ManifestEntry_value_def TInt64_def)

lemma manifest_size:
  assumes "man_Entries m = Some es" and "list_all (\<lambda>e. doc_size ManifestEntry_shape (ManifestEntry_value e) \<le> n) es"
    and "length (man_Schema m) \<le> 64" and "length (man_JobID m) \<le> 64" and "length (man_RequestSHA256 m) \<le> 71" and "length (man_ResultSHA256 m) \<le> 71"
    and "length (man_ContentSHA256 m) \<le> 71" and "length (man_SealedAt m) \<le> 30"
  shows "length (Encode Manifest_shape (Manifest_value m)) \<le> length es * (n + 1) + 4000"
proof -
  have "list_size ManifestEntry_shape (map ManifestEntry_value es) \<le> length es * (n + 1)"
    using list_size_bound [of ManifestEntry_shape n "map ManifestEntry_value es"] assms(2) by (simp add: list_all_iff)
  then have "doc_size Manifest_shape (Manifest_value m) \<le> length es * (n + 1) + 3999"
    using assms(1,3-8) by (simp add: Manifest_shape_def Manifest_value_def)
  then show ?thesis using length_Encode [of Manifest_shape "Manifest_value m"] by simp
qed

end
