(* ===== verification/Job_Live.thy ===== *)
theory Job_Live
  imports Job_Status Jobcontract_Size
begin

text \<open>
  A run whose evidence was opened ends in sealed evidence: the result it produces always passes
  validation, the manifest fits, and every file has a name of its own.
\<close>

section \<open>The produced result\<close>

lemma declared_base:
  assumes "BuildContext host uni wd ctx d path raw = Inr p"
  shows "validOpaqueText (pw_Base (pl_World (rs_Plan p))) 1 maximumPathBytes \<and> validDigest (prefixedDigest (rs_EvidenceDigest p))"
proof (rule BuildContext_Inr [OF assms])
  fix dir copies mounts
  assume v: "ValidateContext host uni (\<lambda>k. ctx (Suc k)) d dir = Inr ()" and p: "rs_Plan p = assembled d copies mounts (Some (plan_interfaces d))"
    and e: "EvidenceCanonicalWithAnchor (rs_Plan p) (rs_SourceAnchor p) = Inr (redacted_plan (rs_Plan p), rs_EvidenceDigest p)"
  let ?base = "dw_Base (d_World d)"
  have image: "ImageReferenceValid ?base" using v by (auto simp: ValidateContext_def validate_def Let_def result_simps)
  define ok where "ok c = (is_ascii c \<and> c \<noteq> CHR 0x00)" for c
  have ok: "is_hex c \<Longrightarrow> ok c" "is_alnum c \<Longrightarrow> ok c" for c
    by (auto simp: ok_def is_hex_def is_lower_hex_def is_digit_def is_alnum_def is_ascii_def)
  have lits: "list_all ok sha_prefix" "list_all ok ''._/:+@-''" by (simp_all add: ok_def sha_prefix_def is_ascii_def)
  have "list_all ok ?base \<and> ?base \<noteq> []"
  proof (cases "HasPrefix ?base sha_prefix \<and> hex64 (drop 7 ?base)")
    case True
    then obtain t where t: "?base = sha_prefix @ t" "list_all is_hex t" by (auto simp: HasPrefix_iff sha_prefix_def hex64_def)
    then have "list_all ok t" using ok(1) by (simp add: list_all_iff)
    then show ?thesis unfolding t(1) using lits(1) by (simp add: sha_prefix_def)
  next
    case False
    then have "image_name ''._/:+@-'' ?base" using image by (auto simp: ImageReferenceValid_def validImage_def)
    then obtain c t where t: "?base = c # t" "is_alnum c" "\<forall>x\<in>set t. is_alnum x \<or> x \<in> set ''._/:+@-''"
      by (cases ?base) (auto simp: image_name_def list_all_iff simp del: set_simps)
    have "ok x" if "x \<in> set t" for x using t(3) that ok(2) lits(2) unfolding list_all_iff by blast
    then show ?thesis using t ok(2) by (simp add: list_all_iff)
  qed
  then have "list_all is_ascii ?base \<and> CHR 0x00 \<notin> set ?base \<and> ?base \<noteq> []" by (auto simp: list_all_iff ok_def)
  then have "validOpaqueText ?base 1 maximumPathBytes"
    using image ValidUTF8_ascii [of ?base] by (auto simp: validOpaqueText_def maximumPathBytes_def ImageReferenceValid_def Suc_le_eq list_all_iff)
  moreover obtain m where "rs_EvidenceDigest p = sha256_hex m" using e by (auto simp: EvidenceCanonicalWithAnchor_iff)
  ultimately show ?thesis
    using digest_valid [of m] by (simp add: p assembled_def prefixed_evidence digest_def)
qed

lemma interval_valid:
  assumes "utc a" and "utc b" and "\<not> Before b a"
  shows "validateInterval (fin_StartedAt (interval a b d)) (fin_FinishedAt (interval a b d)) (fin_DurationNS (interval a b d)) = Inr ()"
proof -
  have "validTimestamp (FormatRFC3339Nano a)" "validTimestamp (FormatRFC3339Nano b)"
    using assms(1,2) by (auto simp: validTimestamp_iff utc_def)
  moreover have "ParseRFC3339Nano (FormatRFC3339Nano a) = Some a" "ParseRFC3339Nano (FormatRFC3339Nano b) = Some b"
    using assms(1,2) Parse_Format by (auto simp: utc_def)
  ultimately show ?thesis using assms(3) boundedDuration_range [of d] by (simp add: validateInterval_def interval_def)
qed

lemma names_valid: "set xs \<subseteq> set reason_names \<Longrightarrow> distinct xs \<Longrightarrow> validReasons xs"
proof -
  assume xs: "set xs \<subseteq> set reason_names" "distinct xs"
  have "length xs = card (set xs)" using distinct_card [OF xs(2)] by simp
  also have "\<dots> \<le> card (set reason_names)" by (rule card_mono) (use xs(1) in simp_all)
  also have "\<dots> \<le> length reason_names" by (rule card_length)
  also have "\<dots> \<le> 64" by (simp add: reason_names_def)
  finally have "length xs \<le> 64" .
  moreover have "list_all reasonPattern reason_names" by code_simp
  then have "list_all reasonPattern xs" using xs(1) by (auto simp: list_all_iff)
  ultimately show ?thesis using xs(2) by (simp add: validReasons_def no_repeat_iff)
qed

lemma runtime_digest_valid: "validDigest (runtimeEvidenceDigest b a)"
  using digest_valid [of "framed b @ framed a"] by (simp add: runtimeEvidenceDigest_def digest_def)

lemma streams_valid:
  assumes "status_ok r" and "res_Status r = ''incomplete'' \<or> cln_Status (res_Cleanup r) = ''complete''"
    and "r' = settle_streams out err (with_identity (\<lambda>i. i\<lparr>exe_RuntimeSHA256 := d\<rparr>) r)"
    and "res_Status r \<in> {''complete'', ''incomplete'', ''refused''}"
  shows "validate_status r' = Inr () \<and> validReasons (elems (res_Reasons r'))
    \<and> (res_Status r' = ''complete'' \<longrightarrow> 1 \<le> exe_Generation (res_Identity r') \<and> exe_ImageDigest (res_Identity r') \<noteq> []
        \<and> exe_RuntimeProvider (res_Identity r') = ''podman-cli'')
    \<and> (exe_ImageDigest (res_Identity r') = [] \<or> validDigest (exe_ImageDigest (res_Identity r')))"
proof -
  define r0 where "r0 = (with_identity (\<lambda>i. i\<lparr>exe_RuntimeSHA256 := d\<rparr>) r)\<lparr>res_Stdout := out, res_Stderr := err\<rparr>"
  define r1 where "r1 = (if stm_Truncated out \<or> stm_Truncated err then incomplete ''OUTPUT_TRUNCATED'' r0 else r0)"
  define r2 where "r2 = (if res_Status r1 = ''complete'' \<and> (exe_Generation (res_Identity r1) < 1 \<or> exe_ImageDigest (res_Identity r1) = [])
    then incomplete ''RUNTIME_IDENTITY_INCOMPLETE'' r1 else r1)"
  have r': "r' = r2\<lparr>res_Reasons := sortedUnique (res_Reasons r2)\<rparr>" 
    unfolding assms(3) settle_streams_def Let_def r0_def r1_def r2_def by (rule refl)
  have s0: "status_ok r0" using assms(1) by (simp add: r0_def status_ok_def reasons_ok_def)
  have s1: "status_ok r1" using s0 status_incomplete [OF status_reasons [OF s0], of "''OUTPUT_TRUNCATED''"] by (simp add: r1_def reason_names_def)
  have s2: "status_ok r2" using s1 status_incomplete [OF status_reasons [OF s1], of "''RUNTIME_IDENTITY_INCOMPLETE''"] by (simp add: r2_def reason_names_def)
  have lowered: "res_Status r2 = ''incomplete'' \<or> res_Status r2 = res_Status r \<and> \<not> stm_Truncated out \<and> \<not> stm_Truncated err"
    by (auto simp: r2_def r1_def r0_def)
  have same: "res_Cleanup r2 = res_Cleanup r" "res_Stdout r2 = out" "res_Stderr r2 = err" by (simp_all add: r2_def r1_def r0_def)
  have "elems (sortedUnique (res_Reasons r2)) = [] \<longleftrightarrow> elems (res_Reasons r2) = []"
    using set_sortedUnique [of "res_Reasons r2"] by (metis set_empty)
  moreover have "distinct (elems (sortedUnique (res_Reasons r2)))" "set (elems (sortedUnique (res_Reasons r2))) \<subseteq> set reason_names"
    using s2 by (cases "res_Reasons r2"; simp add: sortedUnique_def status_ok_def reasons_ok_def)+
  ultimately have reasons: "validReasons (elems (res_Reasons r'))" "elems (res_Reasons r') = [] \<longleftrightarrow> elems (res_Reasons r2) = []"
    using names_valid by (simp_all add: r')
  have fields: "res_Status r' = res_Status r2" "res_Target r' = res_Target r2" "res_Identity r' = res_Identity r2" "res_Cleanup r' = res_Cleanup r"
    "res_Stdout r' = out" "res_Stderr r' = err"
    using same by (simp_all add: r')
  have complete: "res_Status r2 = ''complete'' \<longrightarrow> 1 \<le> exe_Generation (res_Identity r2) \<and> exe_ImageDigest (res_Identity r2) \<noteq> []"
    by (simp add: r2_def not_less)
  have facts: "elems (res_Reasons r2) = [] \<longleftrightarrow> res_Status r2 = ''complete''"
    "res_Status r2 = ''complete'' \<longrightarrow> tgt_Kind (res_Target r2) \<in> {''exited'', ''signaled''} \<and> exe_RuntimeProvider (res_Identity r2) = ''podman-cli''"
    "res_Status r2 = ''refused'' \<longrightarrow> tgt_Kind (res_Target r2) = ''not_started''"
    "exe_ImageDigest (res_Identity r2) = [] \<or> validDigest (exe_ImageDigest (res_Identity r2))"
    using s2 by (simp_all add: status_ok_def reasons_ok_def)
  have "validate_status r' = Inr ()"
    using facts lowered assms(2,4) reasons(2) by (auto simp: validate_status_def Let_def fields)
  then show ?thesis using facts complete reasons(1) by (simp add: fields)
qed

lemma published_valid:
  assumes "settled uni q qr p v vr st" and "status_ok (st_result st)"
    and "res_Status (st_result st) = ''incomplete'' \<or> cln_Status (res_Cleanup (st_result st)) = ''complete''"
    and "res_Finalization (st_result st) \<in> {interval (x_finalStarted x) (x_finalFinished x) (x_finalElapsed x), interval (x_now x) (x_now x) 0}"
    and "orderly x" and "request_ok q"
    and "validOpaqueText (pw_Base (pl_World (rs_Plan p))) 1 maximumPathBytes \<and> validDigest (prefixedDigest (rs_EvidenceDigest p))"
    and "validateStream out ''stdout.bin'' = Inr ()" and "validateStream err ''stderr.bin'' = Inr ()"
    and "r = settle_streams out err (with_identity (\<lambda>i. i\<lparr>exe_RuntimeSHA256 := runtimeEvidenceDigest before after\<rparr>) (st_result st))"
  shows "ValidateResult r = Inr ()"
proof -
  note p = published_result [OF assms(1,10)]
  have "res_Status (st_result st) \<in> {''complete'', ''incomplete'', ''refused''}" using assms(1) by (simp add: settled_def frame_def Let_def)
  note s = streams_valid [OF assms(2,3,10) this]
  have f: "frame q qr p vr r" using p by blast
  have "\<not> Before (x_now x) (x_now x)" by (simp add: Before_def)
  then have int: "validateInterval (fin_StartedAt (res_Finalization r)) (fin_FinishedAt (res_Finalization r)) (fin_DurationNS (res_Finalization r)) = Inr ()"
    using assms(4,5) p interval_valid [of "x_finalStarted x" "x_finalFinished x"] interval_valid [of "x_now x" "x_now x"] by (auto simp: orderly_def)
  have "exe_EgressSHA256 (res_Identity r) = [] \<or> validDigest (exe_EgressSHA256 (res_Identity r))"
    using assms(1) p digest_valid by (auto simp: settled_def egress_ok_def Let_def split: if_splits)
  moreover have "validDigest (exe_RuntimeSHA256 (res_Identity r))" "exe_RuntimeSHA256 (res_Identity r) \<noteq> []"
    using p runtime_digest_valid [of before after] by (auto simp: validDigest_def digestPattern_def)
  moreover have "validDigest (bnd_SHA256 (req_Declaration q))" "validID (req_JobID q)" using assms(6) by (simp_all add: request_ok_def Let_def)
  ultimately have "validateExecutionIdentity (res_Identity r) (res_Status r = ''complete'') = Inr ()"
    using f s assms(7) digest_valid by (auto simp: validateExecutionIdentity_def frame_def Let_def)
  then show ?thesis
    using f s int p assms(1,8,9) \<open>validID (req_JobID q)\<close> digest_valid by (auto simp: ValidateResult_def frame_def Let_def settled_def)
qed

section \<open>Storing files\<close>

text \<open>The documents of the evidence lie directly in its directory, so none stands in the way of another.\<close>

definition flat :: "evidenceWriter \<Rightarrow> bool" where
  "flat w = list_all (\<lambda>f. known_name (fst f)) (w_files w)"

lemma known_flat: "known_name name \<Longrightarrow> parents name = [] \<and> name \<noteq> ''.'' \<and> validEvidencePath name \<and> name \<noteq> [] \<and> length name \<le> 30
    \<and> kind_of name \<in> set entry_kinds \<and> length (kind_of name) \<le> 16 \<and> name \<noteq> ''manifest.json''
    \<and> (case map_of expected_kinds name of None \<Rightarrow> True | Some k \<Rightarrow> kind_of name = k)"
proof -
  have "list_all (\<lambda>(name, _). parents name = [] \<and> name \<noteq> ''.'' \<and> validEvidencePath name \<and> name \<noteq> [] \<and> length name \<le> 30
      \<and> kind_of name \<in> set entry_kinds \<and> length (kind_of name) \<le> 16 \<and> name \<noteq> ''manifest.json''
      \<and> (case map_of expected_kinds name of None \<Rightarrow> True | Some k \<Rightarrow> kind_of name = k)) known_kinds" by code_simp
  then show "known_name name \<Longrightarrow> ?thesis" by (fastforce simp: known_name_def list_all_iff dest: map_of_SomeD)
qed

lemma create_flat:
  assumes "flat w" and "\<not> fails name" and "name \<notin> fst ` set (w_files w)" and "parents name = []" and "name \<noteq> ''.''"
  shows "can_create fails w name"
  using assms known_flat by (auto simp: can_create_def flat_def list_all_iff)

lemma write_step:
  assumes "flat w" and "writer_ok w" and "\<forall>n. \<not> fails n" and "map_of known_kinds name = Some kind" and "name \<notin> fst ` set (w_files w)"
    and "int (length raw) \<le> MaximumWireInteger"
  obtains w' where "evidence_Write fails name kind raw w = Inr w'" "flat w'" "writer_ok w'" "w_files w' = w_files w @ [(name, raw)]"
proof -
  have known: "known_name name" using assms(4) by (simp add: known_name_def)
  then have "can_create fails w name" using create_flat assms(1,3,5) known_flat by blast
  then obtain w' where w': "evidence_Write fails name kind raw w = Inr w'" by (simp add: evidence_Write_iff)
  then show thesis using that writer_Write [OF w' assms(2,4,6)] assms(1) known by (auto simp: flat_def)
qed

lemma close_step:
  assumes "flat w" and "writer_ok w" and "\<forall>n. \<not> fails n" and "map_of known_kinds name = Some kind" and "name \<notin> fst ` set (w_files w)"
    and "stream_of name kind maximum c" and "honest writes"
  obtains s w' raw where "capture_CloseResult fails (capture_all writes c) w = Inr (s, w')" "flat w'" "writer_ok w'"
    "w_files w' = w_files w @ [(name, raw)]" "validateStream s name = Inr ()"
proof -
  have "capture_ok (capture_all writes c)" using capture_all_ok [of writes c] assms(6,7) by (simp add: honest_def stream_of_def)
  then obtain s w' where close: "capture_CloseResult fails (capture_all writes c) w = Inr (s, w')"
    using assms(3) by (simp add: capture_CloseResult_def Let_def capture_ok_def)
  obtain raw where "writer_ok w'" "w_files w' = w_files w @ [(name, raw)]" "stream_result name maximum raw s"
    by (rule close_stage [OF close assms(2,6,7,4,5)])
  then show thesis using that [OF close] assms(1,4) by (simp add: flat_def known_name_def stream_result_def)
qed

section \<open>Sealing\<close>

lemma flat_length:
  assumes "flat w" and "writer_ok w"
  shows "length (w_files w) \<le> 11"
proof -
  have "length (w_files w) = card (fst ` set (w_files w))" using assms(2) distinct_card [of "map fst (w_files w)"] by (simp add: writer_ok_def)
  also have "\<dots> \<le> card (set (map fst known_kinds))"
    using assms(1) by (intro card_mono) (auto simp: flat_def list_all_iff known_name_def map_of_eq_None_iff)
  also have "\<dots> \<le> 11" using card_length [of "map fst known_kinds"] by (simp add: known_kinds_def mandatoryEvidenceKinds_def)
  finally show ?thesis .
qed

lemma sealed_manifest_valid:
  assumes "flat w" and "writer_ok w" and "validID jobID" and "utc at" and "set required_entries \<subseteq> fst ` set (w_files w)"
    and "(''request.json'', qr) \<in> set (w_files w)" and "(''result.json'', rr) \<in> set (w_files w)"
    and "m = manifest_of jobID (digest qr) (digest rr) at (sort_key ent_Path (w_entries w))"
  shows "ValidateManifest m = Inr ()"
proof -
  let ?es = "sort_key ent_Path (w_entries w)"
  have entries: "w_entries w = map entry_of (w_files w)" and dist: "distinct (map fst (w_files w))" and files: "list_all file_ok (w_files w)"
    using assms(2) by (simp_all add: writer_ok_def)
  have set_es: "set ?es = entry_of ` set (w_files w)" by (simp add: entries)
  have "distinct (map ent_Path ?es)"
  proof -
    have "mset (map ent_Path ?es) = mset (map fst (w_files w))" by (simp add: entries image_mset.compositionality comp_def)
    then show ?thesis using dist by (metis distinct_count_atmost_1 set_mset_mset)
  qed
  then have strict: "sorted_wrt (<) (map ent_Path ?es)" by (simp add: strict_sorted_iff)
  have same: "digest raw = digest qr" if "(''request.json'', raw) \<in> set (w_files w)" for raw
    using eq_key_imp_eq_value [OF dist that assms(6)] by simp
  have same': "digest raw = digest rr" if "(''result.json'', raw) \<in> set (w_files w)" for raw
    using eq_key_imp_eq_value [OF dist that assms(7)] by simp
  have each: "validEvidencePath (ent_Path e) \<and> ent_Kind e \<in> set entry_kinds \<and> 0 \<le> ent_Size e \<and> ent_Size e \<le> MaximumWireInteger
      \<and> validDigest (ent_SHA256 e) \<and> (ent_Path e = ''request.json'' \<longrightarrow> ent_SHA256 e = digest qr)
      \<and> (ent_Path e = ''result.json'' \<longrightarrow> ent_SHA256 e = digest rr) \<and> [] < ent_Path e
      \<and> (case map_of expected_kinds (ent_Path e) of None \<Rightarrow> True | Some k \<Rightarrow> ent_Kind e = k)"
    if e: "e \<in> set ?es" for e
  proof -
    obtain name raw where f: "(name, raw) \<in> set (w_files w)" "e = entry_of (name, raw)" using e set_es by auto
    have "known_name name" "file_ok (name, raw)" using f(1) assms(1) files by (auto simp: flat_def list_all_iff)
    note facts = known_flat [OF this(1)] this(2)
    have "[] < name" using facts by (cases name) simp_all
    moreover have "name = ''request.json'' \<longrightarrow> digest raw = digest qr" "name = ''result.json'' \<longrightarrow> digest raw = digest rr"
      using same [of raw] same' [of raw] f(1) by blast+
    ultimately show ?thesis using facts digest_valid [of raw] unfolding f(2) entry_of_simps fst_conv snd_conv by (simp add: file_ok_def)
  qed
  have m: "man_Entries m = Some ?es" "man_RequestSHA256 m = digest qr" "man_ResultSHA256 m = digest rr" "man_JobID m = jobID"
    "man_Schema m = ManifestSchema" "man_SealedAt m = FormatRFC3339Nano at" "man_ContentSHA256 m = contentDigest ?es"
    by (simp_all add: assms(8) manifest_of_def)
  have "manifest_entries m [] ?es = Inr ()"
    using each strict by (auto simp: manifest_entries_iff m list_all_iff)
  moreover have "validDigest (contentDigest ?es)" using digest_valid [of "concat (map entry_line ?es)"] by (simp add: contentDigest_def digest_def)
  moreover have "validTimestamp (FormatRFC3339Nano at)" using assms(4) by (auto simp: validTimestamp_iff utc_def)
  moreover have "ent_Path ` set ?es = fst ` set (w_files w)" by (simp add: entries image_image)
  moreover have "length ?es \<le> 11" "?es \<noteq> []"
    using flat_length [OF assms(1,2)] set_es assms(6) by (auto simp: entries simp flip: set_empty2)
  moreover have "\<forall>e\<in>set ?es. case map_of expected_kinds (ent_Path e) of None \<Rightarrow> True | Some k \<Rightarrow> ent_Kind e = k" using each by blast
  ultimately show ?thesis
    using assms(3,5) digest_valid unfolding ValidateManifest_def Let_def m elems_simps result_simps set_map
    by (simp add: maximumManifestEntries_def subset_iff)
qed

lemma seal_step:
  assumes "flat w" and "writer_ok w" and "validID jobID" and "utc at" and "set required_entries \<subseteq> fst ` set (w_files w)"
    and "(''request.json'', qr) \<in> set (w_files w)" and "(''result.json'', rr) \<in> set (w_files w)" and "\<forall>n. \<not> fails n"
  obtains m w' where "Seal fails jobID (digest qr) (digest rr) at w = Inr (m, w')"
proof -
  let ?es = "sort_key ent_Path (w_entries w)"
  define m where "m = manifest_of jobID (digest qr) (digest rr) at ?es"
  note valid = sealed_manifest_valid [OF assms(1-7) m_def]
  have doc: "shaped Manifest_shape (Manifest_value m)" "utf8_value (Manifest_value m)"
    using sealed_manifest_document [OF assms(2) _ _ _ m_def] validID_utf8 assms(3) digest_utf8 [OF digest_valid] by simp_all
  have len: "length ?es \<le> 11" using flat_length [OF assms(1,2)] assms(2) by (simp add: writer_ok_def)
  have "doc_size ManifestEntry_shape (ManifestEntry_value e) \<le> 980" if e: "e \<in> set ?es" for e
  proof -
    obtain name raw where f: "(name, raw) \<in> set (w_files w)" "e = entry_of (name, raw)" using e assms(2) by (auto simp: writer_ok_def)
    have "known_name name" "file_ok (name, raw)" using f(1) assms(1,2) by (auto simp: flat_def list_all_iff writer_ok_def)
    then show ?thesis using entry_size [of e] known_flat [of name] digest_valid by (simp add: f(2) file_ok_def)
  qed
  then have "length (Encode Manifest_shape (Manifest_value m)) \<le> length ?es * (980 + 1) + 4000"
    using length_Format [of at] assms(3,4) digest_length [OF digest_valid]
      digest_length [OF digest_valid [of "concat (map entry_line ?es)"]]
    by (intro manifest_size) (auto simp: m_def manifest_of_def list_all_iff ManifestSchema_def validID_def utc_def contentDigest_def digest_def)
  then have "length (Encode Manifest_shape (Manifest_value m)) \<le> MaximumManifestBytes" using len by (simp add: MaximumManifestBytes_def)
  then have "ParseManifest (Encode Manifest_shape (Manifest_value m)) = Inr m"
    using decode_Encode [OF doc shape_facts(5,6)] valid by (simp add: ParseManifest_def)
  moreover have "can_create fails w ''manifest.json''"
  proof (rule create_flat [OF assms(1)])
    have unknown: "\<not> known_name ''manifest.json''" by code_simp
    show "\<not> fails ''manifest.json''" using assms(8) by blast
    show "''manifest.json'' \<notin> fst ` set (w_files w)" using assms(1) unknown by (auto simp: flat_def list_all_iff)
    show "parents ''manifest.json'' = []" by code_simp
  qed simp
  ultimately show thesis using that [of m] by (auto simp: Seal_iff m_def)
qed

section \<open>Publication\<close>

text \<open>Files with names of their own directly in the directory.\<close>

definition plain_files :: "evidenceWriter \<Rightarrow> bool" where
  "plain_files w = (distinct (map fst (w_files w)) \<and> list_all (\<lambda>f. parents (fst f) = [] \<and> fst f \<noteq> ''.'') (w_files w))"

lemma seal_plain:
  assumes "Seal fails jobID requestDigest resultDigest at w = Inr (m, w')" and "flat w" and "writer_ok w" and "fits w"
  shows "fits w' \<and> plain_files w'"
proof -
  have w': "w_files w' = w_files w @ [(''manifest.json'', Encode Manifest_shape (Manifest_value m))]" and new: "can_create fails w ''manifest.json''"
    using assms(1) [unfolded Seal_iff] by (elim conjE, simp)+
  have "parents ''manifest.json'' = []" by code_simp
  then show ?thesis
    using assms(2-4) known_flat can_create_new [OF new] by (auto simp: w' fits_def plain_files_def flat_def writer_ok_def list_all_iff)
qed

lemma publish_seals:
  assumes "settled uni q qr p v vr st"
    and valid: "\<And>out err. validateStream out ''stdout.bin'' = Inr () \<Longrightarrow> validateStream err ''stderr.bin'' = Inr () \<Longrightarrow>
      ValidateResult (settle_streams out err (with_identity
        (\<lambda>i. i\<lparr>exe_RuntimeSHA256 := runtimeEvidenceDigest (or_empty (st_before st)) (or_empty (st_after st))\<rparr>) (st_result st))) = Inr ()"
    and "\<forall>n. \<not> fails n" and "writer_ok (st_writer st)" and "w_files (st_writer st) = base_files dr planRaw vr qr"
    and "stream_of ''stdout.bin'' ''stdout'' outMax so" and "stream_of ''stderr.bin'' ''stderr'' errMax se"
    and "honest (x_stdout x)" and "honest (x_stderr x)" and "validID (req_JobID q)" and "utc (x_sealedAt x)" and "length planRaw \<le> MaximumManifestBytes"
  shows "\<exists>outcome w'. publish fails x q so se st = Inr (outcome, w') \<and> fits w' \<and> plain_files w'"
proof -
  let ?b = "or_empty (st_before st)" and ?a = "or_empty (st_after st)"
  let ?r0 = "with_identity (\<lambda>i. i\<lparr>exe_RuntimeSHA256 := runtimeEvidenceDigest ?b ?a\<rparr>) (st_result st)"
  note bounds = settled_bounds [OF assms(1)]
  have sizes: "int (length ?b) \<le> MaximumWireInteger" "int (length ?a) \<le> MaximumWireInteger" "int (length (st_egress st)) \<le> MaximumWireInteger"
    using bounds by (simp_all add: byte_bounds)
  have flat0: "flat (st_writer st)" by (simp add: flat_def assms(5) base_files_def known_name_def kind_lookups)
  obtain w1 where w1: "evidence_Write fails ''runtime-before.json'' ''runtime'' ?b (st_writer st) = Inr w1" "flat w1" "writer_ok w1"
    "w_files w1 = w_files (st_writer st) @ [(''runtime-before.json'', ?b)]"
    by (rule write_step [OF flat0 assms(4,3) kind_lookups(6) _ sizes(1)]) (simp_all add: assms(5) base_files_def)
  obtain w2 where w2: "evidence_Write fails ''runtime-after.json'' ''runtime'' ?a w1 = Inr w2" "flat w2" "writer_ok w2"
    "w_files w2 = w_files w1 @ [(''runtime-after.json'', ?a)]"
    by (rule write_step [OF w1(2,3) assms(3) kind_lookups(7) _ sizes(2)]) (simp_all add: w1(4) assms(5) base_files_def)
  obtain w3 where w3: "(if st_egress st \<noteq> [] then evidence_Write fails ''egress.json'' ''egress'' (st_egress st) w2 else Inr w2) = Inr w3"
    "flat w3" "writer_ok w3" "w_files w3 = w_files w2 @ (if st_egress st = [] then [] else [(''egress.json'', st_egress st)])"
  proof (cases "st_egress st = []")
    case False
    then show thesis
      by (rule_tac write_step [OF w2(2,3) assms(3) kind_lookups(10) _ sizes(3)]) (simp_all add: that w2(4) w1(4) assms(5) base_files_def)
  qed (use w2 that in simp)
  obtain out w4 stdout where w4: "capture_CloseResult fails (capture_all (x_stdout x) so) w3 = Inr (out, w4)" "flat w4" "writer_ok w4"
    "w_files w4 = w_files w3 @ [(''stdout.bin'', stdout)]" "validateStream out ''stdout.bin'' = Inr ()"
    by (rule close_step [OF w3(2,3) assms(3) kind_lookups(8) _ assms(6,8)]) (simp_all add: w3(4) w2(4) w1(4) assms(5) base_files_def)
  obtain err w5 stderr where w5: "capture_CloseResult fails (capture_all (x_stderr x) se) w4 = Inr (err, w5)" "flat w5" "writer_ok w5"
    "w_files w5 = w_files w4 @ [(''stderr.bin'', stderr)]" "validateStream err ''stderr.bin'' = Inr ()"
    by (rule close_step [OF w4(2,3) assms(3) kind_lookups(9) _ assms(7,9)]) (simp_all add: w4(4) w3(4) w2(4) w1(4) assms(5) base_files_def)
  define r where "r = settle_streams out err ?r0"
  let ?rr = "Encode Result_shape (Result_value r)"
  have r: "ValidateResult r = Inr ()" unfolding r_def by (rule valid [OF w4(5) w5(5)])
  have parse: "ParseResult ?rr = Inr r"
    using decode_Encode [OF _ _ shape_facts(3,4) result_size [OF r]] result_document [OF r] r by (simp add: ParseResult_def)
  have size: "int (length ?rr) \<le> MaximumWireInteger" using result_size [OF r] by (simp add: byte_bounds)
  obtain w6 where w6: "evidence_Write fails ''result.json'' ''result'' ?rr w5 = Inr w6" "flat w6" "writer_ok w6"
    "w_files w6 = w_files w5 @ [(''result.json'', ?rr)]"
    by (rule write_step [OF w5(2,3) assms(3) kind_lookups(5) _ size]) (simp_all add: w5(4) w4(4) w3(4) w2(4) w1(4) assms(5) base_files_def)
  have files: "w_files w6 = base_files dr planRaw vr qr @ published st stdout stderr ?rr"
    by (simp add: w6(4) w5(4) w4(4) w3(4) w2(4) w1(4) assms(5) published_def)
  have digests: "res_RequestSHA256 r = digest qr" using published_result [OF assms(1) r_def] by (simp add: frame_def Let_def)
  obtain m w7 where w7: "Seal fails (req_JobID q) (digest qr) (digest ?rr) (x_sealedAt x) w6 = Inr (m, w7)"
    by (rule seal_step [OF w6(2,3) assms(10,11) _ _ _ assms(3)])
      (simp_all add: files base_files_def published_def required_entries_def)
  have "publish fails x q so se st = Inr (\<lparr>oc_Result = r, oc_Sealed = True\<rparr>, w7)"
    unfolding publish_def Let_def w1(1) w2(1) w3(1) w4(1) w5(1) bind_result_simps prod.case r_def [symmetric] parse of_contract_Inr w6(1) digests w7
    by (rule refl)
  moreover have "fits w6" using assms(12) by (simp add: fits_def files base_files_def published_def)
  ultimately show ?thesis using seal_plain [OF w7 w6(2,3)] by blast
qed

text \<open>What the host does when nothing fails: every file can be created, and streams are stored completely.\<close>

definition storing :: "job_host \<Rightarrow> runtime_run \<Rightarrow> bool" where
  "storing host x = ((\<forall>name. \<not> h_fails host name) \<and> honest (x_stdout x) \<and> honest (x_stderr x))"

lemma observe_writer:
  assumes "observe_run fails x q p v startErr st = (Inr st', calls)" and "req_Artifacts q = None"
  shows "st_writer st' = st_writer st"
proof (cases "startErr = []")
  case True
  let ?f = "finalize_runtime x q p v (observe_target x st)"
  have "st_writer (snd ?f) = st_writer st" by (simp add: finalize_runtime_def observe_target_def Let_def split_beta)
  moreover have "collect_artifacts fails q (fst (fst ?f)) (snd (fst ?f)) (snd ?f) = Inr st'"
    using assms(1) True by (simp add: observe_run_def split_beta)
  ultimately show ?thesis using assms(2) by (auto simp: collect_artifacts_def split: if_splits)
qed (use assms in \<open>auto simp: observe_run_def absent_artifacts_def\<close>)

lemma run_seals:
  assumes est: "establish uni ex host qr = Inr (q, dr, p)" and opened: "open_evidence ex host dir qr q dr p = Inr (v, vr, w, so, se)"
    and "fits w" and "storing host x" and "orderly x" and none: "req_Artifacts q = None"
  shows "\<exists>outcome w' calls. Run uni ex host x qr dir = (Inr (outcome, w'), calls) \<and> fits w' \<and> plain_files w'"
proof -
  obtain d where e: "ParseRequest qr = Inr q" "length dr \<le> MaximumRequestBytes"
    "BuildContext (h_fs host) uni (h_wd host) (h_poll host) d (bnd_Path (req_Declaration q)) dr = Inr p"
    using est by (auto simp: establish_def Let_def result_simps readBoundRegular_def split: option.splits if_splits)
  have plan: "length raw \<le> MaximumManifestBytes" if "plan_JSON p = Inr raw" for raw
    using that opened assms(3) by (auto simp: open_evidence_def result_simps evidence_Write_iff fits_def list_all_iff)
  obtain planRaw executable where o': "writer_ok w" "no_artifacts w" "w_files w = base_files dr planRaw vr qr"
    "stream_of ''stdout.bin'' ''stdout'' (lim_StdoutMaxBytes (req_Limits q)) so" "stream_of ''stderr.bin'' ''stderr'' (lim_StderrMaxBytes (req_Limits q)) se"
    using open_evidence_Inr [OF opened e(1,2)] plan unfolding base_files_def by metis
  have q: "request_ok q" by (rule request_limits [OF e(1)])
  obtain process admitted err calls0 where s: "start_runtime x = ((process, admitted, err), calls0)" by (metis prod.collapse)
  obtain startErr st0 where i: "observe_identity x p err (start_state q qr p vr w calls0) = (startErr, st0)" by force
  have "\<exists>st calls1. observe_run (h_fails host) x q p v startErr (settle_admitted admitted startErr st0) = (Inr st, calls1)"
    using none by (simp add: observe_run_def collect_artifacts_def absent_artifacts_def split_beta)
  then obtain st calls1 where r: "observe_run (h_fails host) x q p v startErr (settle_admitted admitted startErr st0) = (Inr st, calls1)" by blast
  let ?c = "fst (observe_cleanup x process)"
  let ?st = "final_state uni p ?c startErr admitted st"
  have ex: "executed (h_fails host) x q qr p v vr w admitted startErr st ?c" using s i r by (auto simp: executed_def)
  have "st_writer st = w"
  proof -
    have "st_writer (settle_admitted admitted startErr st0) = w"
      using i by (auto simp: observe_identity_def settle_admitted_def start_state_def Let_def split: if_splits prod.splits)
    then show ?thesis using observe_writer [OF r none] by simp
  qed
  note w = this
  have "inventory_fits w" using o'(3) by (simp add: inventory_fits_def base_files_def)
  then have settled: "settled uni q qr p v vr ?st"
    using executed_settled [OF ex _ o'(1,2)] assms(5) none w by (simp add: orderly_def request_artifacts_ok_def)
  note status = executed_status [OF ex assms(5) none refl, of uni]
  have "\<exists>outcome w'. publish (h_fails host) x q so se ?st = Inr (outcome, w') \<and> fits w' \<and> plain_files w'"
  proof (rule publish_seals [OF settled _ _ _ _ o'(4,5)])
    show "ValidateResult (settle_streams out err' (with_identity
        (\<lambda>i. i\<lparr>exe_RuntimeSHA256 := runtimeEvidenceDigest (or_empty (st_before ?st)) (or_empty (st_after ?st))\<rparr>) (st_result ?st))) = Inr ()"
      if "validateStream out ''stdout.bin'' = Inr ()" "validateStream err' ''stderr.bin'' = Inr ()" for out err'
      using published_valid [OF settled _ _ _ assms(5) q declared_base [OF e(3)] that refl] status by blast
    show "length planRaw \<le> MaximumManifestBytes" using assms(3) o'(3) by (simp add: fits_def base_files_def)
  qed (use assms(4,5) w o' q in \<open>simp_all add: storing_def orderly_def request_ok_def Let_def\<close>)
  then obtain outcome w' where "publish (h_fails host) x q so se ?st = Inr (outcome, w')" and plain: "fits w'" "plain_files w'" by blast
  then have "\<exists>calls. execute uni (h_fails host) x q qr p v vr w so se = (Inr (outcome, w'), calls)"
    using s i r by (simp add: execute_def start_state_def [symmetric] Let_def final_state_def split_beta)
  then show ?thesis using est opened plain by (auto simp: Run_def)
qed

end
