(* ===== verification/Job_Demo.thy ===== *)
theory Job_Demo
  imports Job_Live
begin

text \<open>
  A governed job on a concrete host, on which the theorems about runs are instantiated: the declaration is
  parsed, the plan is built, the evidence directory is opened, and the runtime refuses to start the
  target.
\<close>

definition job_text :: bytes where
  "job_text = join_with [newline]
     [''version = 1'', quoted ''name'' ''demo'', ''[world]'', quoted ''hostname'' ''demo'', quoted ''base'' (''sha256:'' @ replicate 64 CHR ''a''),
      quoted ''workdir'' ''/work'', quoted ''user'' ''root'', ''[resources]'', ''cpus = 1'', ''memory_bytes = 1000000'', ''pids = 64'',
      ''[workspace]'', ''paths = ['' @ [quote_char] @ ''/work'' @ [quote_char] @ '']'']"

definition job_declaration :: Declaration where
  "job_declaration =
     \<lparr>d_Version = 1, d_Name = ''demo'', d_AllowUnpinned = False,
      d_World = \<lparr>dw_Hostname = ''demo'', dw_Base = ''sha256:'' @ replicate 64 CHR ''a'', dw_Workdir = ''/work'', dw_User = ''root''\<rparr>,
      d_Resources = \<lparr>dr_CPUs = 1, dr_MemoryBytes = 1000000, dr_PIDs = 64\<rparr>, d_Workspace = [''/work''], d_Copies = [], d_Mounts = [],
      d_Allow = [], d_Interfaces = [], d_Services = []\<rparr>"

lemma job_parses: "Parse job_text = Inr job_declaration"
  by code_simp

definition job_fs :: host_fs where
  "job_fs = demo_host\<lparr>fs_eval := (\<lambda>p. if ValidUTF8 p then Some p else None)\<rparr>"

definition job_path :: bytes where "job_path = ''/srv/world.toml''"

definition job_plan :: plan_Result where
  "job_plan = (let p = assembled job_declaration [] [] (Some []) in
     \<lparr>rs_PlanDigest = sha256_hex (Canonical p),
      rs_EvidenceDigest = sha256_hex (Encode anchored_shape (VStruct [VString ''/srv'', Plan_value (redacted_plan p)])),
      rs_DeclarationDigest = sha256_hex job_text, rs_SourceAnchor = ''/srv'', rs_Warnings = warnings_for job_declaration, rs_Plan = p\<rparr>)"

lemma job_built: "BuildContext job_fs id None background job_declaration job_path job_text = Inr job_plan"
proof -
  have "Abs None (Dir job_path) = Inr ''/srv''" by code_simp
  moreover have "ValidateContext job_fs id background job_declaration ''/srv'' = Inr ()" by code_simp
  moreover have "CanonicalSourceAnchor job_fs ''/srv'' = Inr ''/srv''" by code_simp
  moreover have "workspace_targets (d_Workspace job_declaration) = Inr ()" by code_simp
  moreover have "build_copies background (1 + polls job_declaration) job_fs ''/srv'' (d_Copies job_declaration) = Inr []"
    "build_mounts background (1 + polls job_declaration + length (d_Copies job_declaration)) job_fs ''/srv'' (d_Mounts job_declaration) = Inr []"
    by code_simp+
  moreover have "clean_abs ''/srv''" by code_simp
  moreover have "(\<lambda>k. background (Suc k)) = background" by (simp add: background_def)
  moreover have "poll_context background 0 = Inr ()" by code_simp
  moreover have "plan_interfaces job_declaration = []" by code_simp
  ultimately show ?thesis
    by (simp add: BuildContext_def of_decl_def EvidenceCanonicalWithAnchor_def EvidenceCanonical_def Let_def clean_abs_def job_plan_def)
qed

definition job_request :: Request where
  "job_request = demo_request\<lparr>req_Declaration := \<lparr>bnd_Path = job_path, bnd_SHA256 = digest job_text\<rparr>\<rparr>"

definition job_document :: bytes where
  "job_document = Encode Request_shape (Request_value job_request)"

lemma job_request_parses: "ParseRequest job_document = Inr job_request"
proof -
  have "request_ok demo_request" using demo_request_valid by (simp add: ValidateRequest_ok)
  then have ok: "request_ok job_request"
    using digest_valid [of job_text] by (simp add: request_ok_def job_request_def Let_def demo_request_def job_path_def)
  have "length (digest job_text) = 71" using digest_length [OF digest_valid] .
  moreover have "length (Itoa 1000000000) \<le> 17" "length (Itoa 10) \<le> 17" "length (Itoa 0) \<le> 17"
    using wire_length [of 1000000000] wire_length [of 10] wire_length [of 0] by (simp_all add: MaximumWireInteger_def)
  ultimately have "doc_size Request_shape (Request_value job_request) \<le> 10000"
    by (simp add: Request_shape_def Request_value_def job_request_def demo_request_def DeclarationBinding_shape_def DeclarationBinding_value_def
        Command_shape_def Command_value_def EnvironmentItem_shape_def EnvironmentItem_value_def Limits_shape_def Limits_value_def VStrings_def
        RequestSchema_def job_path_def TInt64_def)
  then have "length job_document \<le> MaximumRequestBytes"
    using length_Encode [of Request_shape "Request_value job_request"] by (simp add: job_document_def MaximumRequestBytes_def)
  moreover have "ValidateRequest job_request = Inr ()" using ok by (simp only: ValidateRequest_ok)
  ultimately show ?thesis
    using decode_Encode [OF request_shaped [OF ok] request_utf8 [OF ok] shape_facts(1,2)]
    by (simp add: ParseRequest_def job_document_def)
qed

definition job_executor :: Executor where
  "job_executor = \<lparr>ex_Runtime = True, ex_Build = \<lparr>bld_Version = [], bld_Commit = [], bld_SourceDate = []\<rparr>\<rparr>"

definition job_machine :: job_host where
  "job_machine =
     \<lparr>h_canceled = False, h_declaration = (\<lambda>_. Some job_text), h_prepareCanceled = False, h_poll = background, h_fs = job_fs, h_wd = None,
      h_executable = Some [], h_go = \<lparr>go_Version = ''go1.24'', go_OS = ''linux'', go_Arch = ''amd64''\<rparr>, h_create = True,
      h_fails = (\<lambda>_. False)\<rparr>"

lemma job_established: "establish id job_executor job_machine job_document = Inr (job_request, job_text, job_plan)"
proof -
  have "length job_text \<le> MaximumRequestBytes" by code_simp
  moreover have "validateSecretEnvironment job_request job_plan = Inr ()"
    by (simp add: validateSecretEnvironment_def job_request_def demo_request_def)
  ultimately show ?thesis
    using job_request_parses job_parses job_built
    by (simp add: establish_def job_machine_def job_executor_def readBoundRegular_def job_request_def)
qed

lemma job_environment:
  "fs_digest (h_fs job_machine) s = Some y \<Longrightarrow> validPlanDigest y" "fs_eval (h_fs job_machine) a = Some b \<Longrightarrow> ValidUTF8 b"
  "list_all ValidUTF8 [bld_Version (ex_Build job_executor), bld_Commit (ex_Build job_executor), bld_SourceDate (ex_Build job_executor),
     go_Version (h_go job_machine), go_OS (h_go job_machine), go_Arch (h_go job_machine)]"
proof -
  have "list_all ValidUTF8 [[], ''go1.24'', ''linux'', ''amd64'']" by code_simp
  then show "list_all ValidUTF8 [bld_Version (ex_Build job_executor), bld_Commit (ex_Build job_executor), bld_SourceDate (ex_Build job_executor),
     go_Version (h_go job_machine), go_OS (h_go job_machine), go_Arch (h_go job_machine)]"
    by (simp add: job_executor_def job_machine_def)
qed (use demo_digests in \<open>auto simp: job_machine_def job_fs_def split: if_splits\<close>)

section \<open>The opened evidence\<close>

definition job_provenance :: Provenance where
  "job_provenance = currentProvenance (h_go job_machine) (ex_Build job_executor) (digest [])"

definition job_provenance_document :: bytes where
  "job_provenance_document = Encode Provenance_shape (Provenance_value job_provenance)"

lemma job_provenance_parses: "ParseProvenance job_provenance_document = Inr job_provenance"
proof -
  have fields: "job_provenance = \<lparr>prv_Schema = ProvenanceSchema, prv_BuildKind = ''development'', prv_Version = ''dev'', prv_Commit = ''unknown'',
      prv_SourceDate = ''unknown'', prv_GoVersion = ''go1.24'', prv_GOOS = ''linux'', prv_GOARCH = ''amd64'', prv_ExecutableSHA256 = digest []\<rparr>"
    by (simp add: job_provenance_def currentProvenance_def job_machine_def job_executor_def)
  have lits: "list_all ValidUTF8 [ProvenanceSchema, ''development'', ''dev'', ''unknown'', ''go1.24'', ''linux'', ''amd64'']"
    "validOpaqueText ''dev'' 1 128" "validOpaqueText ''go1.24'' 1 128" "HasPrefix ''go1.24'' ''go1.''" "platformPattern ''linux''" "platformPattern ''amd64''"
    by code_simp+
  have valid: "ValidateProvenance job_provenance = Inr ()" using lits digest_valid [of "[]"] by (simp add: ValidateProvenance_def fields)
  have "doc_size Provenance_shape (Provenance_value job_provenance) \<le> 5000"
    using digest_length [OF digest_valid [of "[]"]] by (simp add: Provenance_shape_def Provenance_value_def fields ProvenanceSchema_def)
  then have "length job_provenance_document \<le> MaximumProvenanceBytes"
    using length_Encode [of Provenance_shape "Provenance_value job_provenance"]
    by (simp add: job_provenance_document_def MaximumProvenanceBytes_def)
  moreover have "shaped Provenance_shape (Provenance_value job_provenance)" "utf8_value (Provenance_value job_provenance)"
    using lits(1) digest_utf8 [OF digest_valid [of "[]"]] by (simp_all add: Provenance_shape_def Provenance_value_def fields)
  ultimately have "decode Provenance_shape job_provenance_document MaximumProvenanceBytes = Inr (Provenance_value job_provenance)"
    unfolding job_provenance_document_def by (intro decode_Encode shape_facts)
  then show ?thesis using valid by (simp add: ParseProvenance_def)
qed

definition job_plan_document :: bytes where
  "job_plan_document = json_indent True 0 (marshal plan_Result_shape (plan_Result_value (retained_result job_plan))) @ [newline]"

lemma job_plan_size: "length job_plan_document \<le> MaximumManifestBytes"
proof -
  have "shape_depth plan_Result_shape \<le> 10" by code_simp
  then have "length (json_indent True 0 (marshal plan_Result_shape (plan_Result_value (retained_result job_plan))))
      \<le> json_size 21 (marshal plan_Result_shape (plan_Result_value (retained_result job_plan)))"
    by (intro length_pretty) simp
  also have "\<dots> \<le> 20000"
  proof -
    have plan: "json_size 21 (marshal Plan_shape (Plan_value (normal_plan (redacted_plan (assembled job_declaration [] [] (Some [])))))) \<le> 10000"
      "json_size 21 (marshal (TSlice TString) (VStrings (warnings_for job_declaration))) \<le> 5000"
      by code_simp+
    have "rs_Plan (retained_result job_plan) = normal_plan (redacted_plan (assembled job_declaration [] [] (Some [])))"
      "rs_Warnings (retained_result job_plan) = warnings_for job_declaration" "rs_SourceAnchor (retained_result job_plan) = ''/srv''"
      "length (rs_PlanDigest (retained_result job_plan)) = 64" "length (rs_EvidenceDigest (retained_result job_plan)) = 64"
      "length (rs_DeclarationDigest (retained_result job_plan)) = 64"
      by (simp_all add: retained_result_def job_plan_def Let_def)
    then show ?thesis using plan by (simp add: plan_Result_shape_def plan_Result_value_def)
  qed
  finally show ?thesis by (simp add: job_plan_document_def MaximumManifestBytes_def)
qed

definition job_files :: "(bytes \<times> bytes) list" where
  "job_files = base_files job_text job_plan_document job_provenance_document job_document"

definition job_capture :: "bytes \<Rightarrow> bytes \<Rightarrow> int \<Rightarrow> capture" where
  "job_capture name kind maximum =
     \<lparr>cap_name = name, cap_kind = kind, cap_maximum = maximum, cap_total = 0, cap_file = [], cap_hashed = [], cap_closed = False\<rparr>"

lemma job_opened:
  "open_evidence job_executor job_machine ''/evidence'' job_document job_request job_text job_plan
     = Inr (job_provenance, job_provenance_document, \<lparr>w_files = job_files, w_entries = map entry_of job_files\<rparr>,
         job_capture ''stdout.bin'' ''stdout'' 10, job_capture ''stderr.bin'' ''stderr'' 0)"
proof -
  have "IsAbs ''/evidence''" "Clean ''/evidence'' = ''/evidence''" by code_simp+
  moreover have "plan_JSON job_plan = Inr job_plan_document" using built_JSON [OF job_built] by (simp add: job_plan_document_def)
  moreover have "executableProvenance (h_go job_machine) (ex_Build job_executor) [] = Inr (job_provenance, job_provenance_document)"
    using job_provenance_parses by (simp add: executableProvenance_def job_provenance_def job_provenance_document_def Let_def)
  moreover have "parents ''declaration.toml'' = []" "parents ''plan.json'' = []" "parents ''provenance.json'' = []" "parents ''request.json'' = []"
    "parents ''stdout.bin'' = []" "parents ''stderr.bin'' = []" by code_simp+
  moreover have "kind_of ''declaration.toml'' = ''declaration''" "kind_of ''plan.json'' = ''plan''" "kind_of ''provenance.json'' = ''provenance''"
    "kind_of ''request.json'' = ''request''" by (simp_all add: kind_of_def kind_lookups)
  ultimately show ?thesis
    by (simp add: open_evidence_def createEvidence_def readBoundRegular_def evidence_Write_def evidence_Stream_def can_create_def
        new_writer_def job_files_def base_files_def entry_of_def job_capture_def job_request_def demo_request_def job_machine_def)
qed

section \<open>The run\<close>

definition job_time :: gotime where
  "job_time = \<lparr>t_year = 2026, t_month = 1, t_day = 2, t_hour = 3, t_minute = 4, t_second = 5, t_nanos = 600, t_offset = 0\<rparr>"

definition job_cleanup :: CleanupResult where
  "job_cleanup = \<lparr>cln_Status = ''complete'', cln_ContainerAbsent = True, cln_ProxyAbsent = True, cln_ProcessGroupEmpty = True,
     cln_Forced = False, cln_DurationNS = 1, cln_Reasons = Some []\<rparr>"

text \<open>Starting fails, and the runtime cleans up.\<close>

definition job_run :: runtime_run where
  "job_run =
     \<lparr>x_started = True, x_start = StartCalled (Returned (False, [CallFailed]) False), x_stdout = [], x_stderr = [], x_identity = Expired,
      x_wait = Expired, x_joinWait = [], x_finalize = Expired, x_finalStarted = job_time, x_finalFinished = job_time, x_finalElapsed = 0,
      x_now = job_time, x_cleanupJoinWait = [], x_joinFinalization = [], x_cleanup = CleanupObserved (Returned job_cleanup False),
      x_elapsed = (\<lambda>_. 1), x_sealedAt = job_time\<rparr>"

lemma job_time_utc: "utc job_time"
  by (simp add: utc_def wf_time_def job_time_def days_in_def)

lemma job_orderly: "orderly job_run" "storing job_machine job_run"
  using job_time_utc
  by (simp_all add: orderly_def storing_def podman_identity_def lower_image_def observed_target_def job_run_def Before_def honest_def job_machine_def)

lemma job_fits: "fits \<lparr>w_files = job_files, w_entries = map entry_of job_files\<rparr>"
  using job_plan_size by (simp add: fits_def job_files_def base_files_def)

lemma job_seals:
  "\<exists>outcome w' calls. Run id job_executor job_machine job_run job_document ''/evidence'' = (Inr (outcome, w'), calls) \<and> fits w' \<and> plain_files w'"
  by (rule run_seals [OF job_established job_opened job_fits job_orderly(2,1)]) (simp add: job_request_def demo_request_def)

text \<open>The directory that holds the files of a writer.\<close>

definition directory :: "evidenceWriter \<Rightarrow> edir" where
  "directory w = (''.'', EvidenceDirectory) # map (\<lambda>(name, raw). (name, EvidenceFile raw)) (w_files w)"

lemma directory_holds:
  assumes "plain_files w"
  shows "holds_files (directory w) (w_files w)"
proof -
  have "map fst (directory w) = ''.'' # map fst (w_files w)" by (simp add: directory_def split_beta comp_def)
  then have "distinct (map fst (directory w))" using assms by (auto simp: plain_files_def list_all_iff)
  moreover have "concat (map (\<lambda>(name, _). parents name) (w_files w)) = []" using assms by (auto simp: plain_files_def list_all_iff)
  ultimately show ?thesis by (auto simp: holds_files_def directory_def)
qed

text \<open>The sealed evidence of the job, and that it is accepted.\<close>

lemma job_sealed:
  obtains outcome w' calls where "Run id job_executor job_machine job_run job_document ''/evidence'' = (Inr (outcome, w'), calls)"
    "fits w'" "holds_files (directory w') (w_files w')" "distinct (map fst (directory w'))"
proof -
  obtain outcome w' calls where run: "Run id job_executor job_machine job_run job_document ''/evidence'' = (Inr (outcome, w'), calls)"
    "fits w'" "plain_files w'"
    using job_seals by blast
  note holds = directory_holds [OF run(3)]
  show thesis by (rule that [OF run(1,2) holds]) (use holds in \<open>simp add: holds_files_def\<close>)
qed

lemma job_honest: "podman_identity job_run" "honest (x_stdout job_run)" "honest (x_stderr job_run)"
  by (simp_all add: podman_identity_def honest_def job_run_def)

lemma job_accepted: obtains outcome w' calls v where
    "Run id job_executor job_machine job_run job_document ''/evidence'' = (Inr (outcome, w'), calls)"
    "Verify id ''/evidence'' (Some (directory w')) = Inr v" "distinct (map fst (directory w'))"
proof (rule job_sealed)
  fix outcome w' calls
  assume run: "Run id job_executor job_machine job_run job_document ''/evidence'' = (Inr (outcome, w'), calls)" and "fits w'"
    and "holds_files (directory w') (w_files w')" and dist: "distinct (map fst (directory w'))"
  then obtain n where "Verify id ''/evidence'' (Some (directory w')) = Inr \<lparr>ver_Schema = ''kenogram.job-verification.v1'',
      ver_JobID = res_JobID (oc_Result outcome), ver_Status = res_Status (oc_Result outcome), ver_Entries = n\<rparr>"
    using sealed_accepted [OF run job_honest _ _ _ job_environment(3)] job_environment(1,2) by blast
  then show thesis using that run dist by blast
qed

end
