(* ===== verification/Job_Properties.thy ===== *)
theory Job_Properties
  imports Job_Demo "HOL-Library.Sublist"
begin

text \<open>
  What running a governed job and verifying its evidence promise.
\<close>

section \<open>Accepted evidence is exactly what the manifest states\<close>

lemma Verify_Inr:
  assumes "Verify uni dir (Some root) = Inr v"
  obtains raw m known artifacts e requestRaw request read where
    "map_of root ''manifest.json'' = Some (EvidenceFile raw)" "ParseManifest raw = Inr m"
    "contentDigest (elems (man_Entries m)) = man_ContentSHA256 m" "classifyManifest m = Inr (known, artifacts)"
    "verifyClosedInventory root m = Inr ()" "map_of known ''request.json'' = Some e"
    "readSealedEntry root e (int MaximumRequestBytes) = Inr requestRaw" "ParseRequest requestRaw = Inr request"
    "validateArtifactManifestAuthority request known artifacts = Inr ()"
    "map_result (read_known root known) (read_limits request known) = Inr read"
    "verify_documents uni root m artifacts request requestRaw read = Inr v"
  using assms
  by (auto simp: Verify_def open_seal_def result_simps readRegular_Inr split: option.splits)

lemma unrequested_artifacts:
  assumes "validateArtifactManifestAuthority request known artifacts = Inr ()" and "req_Artifacts request = None"
  shows "artifacts = [] \<and> map_of known ''target-inventory.json'' = None"
  using assms by (simp add: validateArtifactManifestAuthority_def Let_def)

lemma verified_artifacts:
  assumes "verify_documents uni root m artifacts request requestRaw read = Inr v" and "req_Artifacts request = Some a"
  shows "\<forall>e\<in>set artifacts. sealed_as root e"
  using assms by (auto simp: verify_documents_def Let_def result_simps verifyRegularDigest_Inr)

lemma read_known_sealed:
  assumes "map_result (read_known root known) limits = Inr read" and "name \<in> fst ` set limits" and "map_of known name = Some e"
  shows "sealed_as root e"
proof -
  from assms(2) obtain maximum where "(name, maximum) \<in> set limits" by auto
  then obtain r where "read_known root known (name, maximum) = Inr r"
    using map_result_member [OF assms(1)] by blast
  then show ?thesis using assms(3) by (auto simp: read_known_def result_simps readSealedEntry_Inr sealed_as_def)
qed

lemma verified_entries:
  assumes "Verify uni dir (Some root) = Inr v" and "distinct (map fst root)"
  obtains raw m where "map_of root ''manifest.json'' = Some (EvidenceFile raw)" "ParseManifest raw = Inr m"
    "node_files root = insert ''manifest.json'' (ent_Path ` set (elems (man_Entries m)))"
    "\<forall>e\<in>set (elems (man_Entries m)). sealed_as root e"
proof (rule Verify_Inr [OF assms(1)])
  fix raw m known artifacts e requestRaw request read
  assume raw: "map_of root ''manifest.json'' = Some (EvidenceFile raw)" and m: "ParseManifest raw = Inr m"
    and c: "classifyManifest m = Inr (known, artifacts)" and closed: "verifyClosedInventory root m = Inr ()"
    and e: "map_of known ''request.json'' = Some e" "readSealedEntry root e (int MaximumRequestBytes) = Inr requestRaw"
    and auth: "validateArtifactManifestAuthority request known artifacts = Inr ()"
    and reading: "map_result (read_known root known) (read_limits request known) = Inr read"
    and docs: "verify_documents uni root m artifacts request requestRaw read = Inr v"
  let ?es = "elems (man_Entries m)"
  note dist = manifest_paths [OF m]
  have arts: "artifacts = artifact_part ?es" using c by (simp add: classifyManifest_iff [OF dist])
  have "sealed_as root f" if f: "f \<in> set ?es" for f
  proof (cases "known_name (ent_Path f)")
    case True
    have "map_of (keyed ?es) (ent_Path f) = Some f" using dist f by (auto intro!: map_of_is_SomeI simp: comp_def)
    then have known: "map_of known (ent_Path f) = Some f" using True by (simp add: classified_known [OF c dist])
    have "ent_Path f \<in> fst ` set (read_limits request known) \<or> ent_Path f = ''request.json''"
      using True known unrequested_artifacts [OF auth]
      by (cases "req_Artifacts request")
        (auto simp: known_name_def known_kinds_def mandatoryEvidenceKinds_def read_limits_def image_iff split: if_splits)
    then show ?thesis
      using read_known_sealed [OF reading _ known] known e by (auto simp: readSealedEntry_Inr sealed_as_def)
  next
    case False
    then have "f \<in> set artifacts" using f by (simp add: arts artifact_part_def)
    moreover from this auth obtain a where "req_Artifacts request = Some a"
      using unrequested_artifacts [OF auth] by (cases "req_Artifacts request") auto
    ultimately show ?thesis using verified_artifacts [OF docs] by blast
  qed
  then have "\<forall>f\<in>set ?es. sealed_as root f" by blast
  then show thesis
    by (rule that [OF raw m conjunct1 [OF iffD1 [OF closed_inventory [OF assms(2)] closed]]])
qed

text \<open>
  C3: An accepted evidence directory holds exactly the manifest and the files that the manifest names, each of
  them a regular file with the size and the digest that its entry states.
\<close>

theorem verified_evidence_sealed:
  assumes "Verify uni dir (Some root) = Inr v" and "distinct (map fst root)"
  shows "\<exists>raw m. map_of root ''manifest.json'' = Some (EvidenceFile raw) \<and> ParseManifest raw = Inr m
    \<and> node_files root = insert ''manifest.json'' (ent_Path ` set (elems (man_Entries m)))
    \<and> (\<forall>e\<in>set (elems (man_Entries m)). sealed_as root e)"
  by (rule verified_entries [OF assms]) blast

theorem verified_evidence_sealed_witness:
  "\<exists>root v raw m. Verify id ''/evidence'' (Some root) = Inr v \<and> distinct (map fst root)
     \<and> map_of root ''manifest.json'' = Some (EvidenceFile raw) \<and> ParseManifest raw = Inr m
     \<and> (\<forall>e\<in>set (elems (man_Entries m)). sealed_as root e)"
proof (rule job_accepted)
  fix w' v
  assume v: "Verify id ''/evidence'' (Some (directory w')) = Inr v" "distinct (map fst (directory w'))"
  from verified_evidence_sealed [OF v] obtain raw m where "map_of (directory w') ''manifest.json'' = Some (EvidenceFile raw)"
    "ParseManifest raw = Inr m" "\<forall>e\<in>set (elems (man_Entries m)). sealed_as (directory w') e"
    by (elim exE conjE)
  with v show ?thesis by (intro exI conjI)
qed

lemma sealed_twice:
  assumes "sealed_as root e" and "sealed_as root' e"
  shows "map_of root (ent_Path e) = map_of root' (ent_Path e)
    \<or> (\<exists>a b. map_of root (ent_Path e) = Some (EvidenceFile a) \<and> map_of root' (ent_Path e) = Some (EvidenceFile b) \<and> sha256_collision a b)"
proof -
  obtain a b where "map_of root (ent_Path e) = Some (EvidenceFile a)" "map_of root' (ent_Path e) = Some (EvidenceFile b)" "digest a = digest b"
    using assms by (auto simp: sealed_as_def)
  moreover from this(3) have "a = b \<or> sha256_collision a b" by (intro sha256_hex_eq) (simp add: digest_def)
  ultimately show ?thesis by auto
qed

text \<open>
  C6: The manifest determines the evidence: two accepted directories with the same manifest hold files of the
  same names with the same contents, or a file of one and a file of the other are a collision of SHA-256.
\<close>

theorem manifest_determines_evidence:
  assumes "Verify uni dir (Some root) = Inr v" and "Verify uni' dir' (Some root') = Inr v'"
    and "distinct (map fst root)" and "distinct (map fst root')" and "map_of root ''manifest.json'' = map_of root' ''manifest.json''"
  shows "node_files root = node_files root'
    \<and> (\<forall>name\<in>node_files root. map_of root name = map_of root' name
        \<or> (\<exists>a b. map_of root name = Some (EvidenceFile a) \<and> map_of root' name = Some (EvidenceFile b) \<and> sha256_collision a b))"
proof (rule verified_entries [OF assms(1,3)], rule verified_entries [OF assms(2,4)])
  fix raw m raw' m'
  assume r: "map_of root ''manifest.json'' = Some (EvidenceFile raw)" "ParseManifest raw = Inr m"
    "node_files root = insert ''manifest.json'' (ent_Path ` set (elems (man_Entries m)))" "\<forall>e\<in>set (elems (man_Entries m)). sealed_as root e"
    and r': "map_of root' ''manifest.json'' = Some (EvidenceFile raw')" "ParseManifest raw' = Inr m'"
    "node_files root' = insert ''manifest.json'' (ent_Path ` set (elems (man_Entries m')))" "\<forall>e\<in>set (elems (man_Entries m')). sealed_as root' e"
  have m: "m' = m" using r(1,2) r'(1,2) assms(5) by simp
  have "map_of root name = map_of root' name
      \<or> (\<exists>a b. map_of root name = Some (EvidenceFile a) \<and> map_of root' name = Some (EvidenceFile b) \<and> sha256_collision a b)"
    if name: "name \<in> node_files root" for name
  proof (cases "name = ''manifest.json''")
    case False
    then obtain e where e: "e \<in> set (elems (man_Entries m))" "name = ent_Path e" using name r(3) by auto
    show ?thesis unfolding e(2) by (rule sealed_twice) (use r(4) r'(4) m e(1) in auto)
  qed (simp add: assms(5))
  then show ?thesis using r(3) r'(3) m by simp
qed

theorem manifest_determines_evidence_witness:
  "\<exists>root v. Verify id ''/evidence'' (Some root) = Inr v
     \<and> (\<forall>name\<in>node_files root. map_of root name = map_of root name
        \<or> (\<exists>a b. map_of root name = Some (EvidenceFile a) \<and> map_of root name = Some (EvidenceFile b) \<and> sha256_collision a b))"
proof (rule job_accepted)
  fix w' v
  assume v: "Verify id ''/evidence'' (Some (directory w')) = Inr v" and d: "distinct (map fst (directory w'))"
  show ?thesis using v manifest_determines_evidence [OF v v d d refl] by blast
qed

section \<open>Runs and their verification\<close>

text \<open>
  C1: What a run seals, verification accepts, on these conditions: no write to a stream file is cut short, the runtime
  names itself as \<^verbatim>\<open>podman-cli\<close>, the sealed \<^verbatim>\<open>plan.json\<close> and \<^verbatim>\<open>target-inventory.json\<close> fit the 8 MiB limit of the reader, and the host digests sources
  to 64 hexadecimal digits and resolves paths to UTF-8 and has build texts in UTF-8. Then, whatever the request, the declaration, the
  failures of runtime and host and the timing, when the run returns an outcome and the directory holds the files
  it wrote, \<^verbatim>\<open>Verify\<close> accepts the directory and reports the job and the status of the outcome.
\<close>

theorem sealed_evidence_verifies:
  assumes "Run uni ex host x qr dir = (Inr (outcome, w'), calls)" and "podman_identity x"
    and "honest (x_stdout x)" "honest (x_stderr x)" and "fits w'"
    and "\<And>s y. fs_digest (h_fs host) s = Some y \<Longrightarrow> validPlanDigest y" and "\<And>a b. fs_eval (h_fs host) a = Some b \<Longrightarrow> ValidUTF8 b"
    and "list_all ValidUTF8 [bld_Version (ex_Build ex), bld_Commit (ex_Build ex), bld_SourceDate (ex_Build ex),
         go_Version (h_go host), go_OS (h_go host), go_Arch (h_go host)]"
    and "holds_files root (w_files w')"
  shows "\<exists>n. Verify uni dir (Some root) = Inr \<lparr>ver_Schema = ''kenogram.job-verification.v1'', ver_JobID = res_JobID (oc_Result outcome),
    ver_Status = res_Status (oc_Result outcome), ver_Entries = n\<rparr>"
  by (rule sealed_accepted [OF assms(1-5) _ _ assms(8,9)]) (fact assms(6,7))+

theorem sealed_evidence_verifies_witness:
  "\<exists>outcome w' calls n. Run id job_executor job_machine job_run job_document ''/evidence'' = (Inr (outcome, w'), calls)
     \<and> Verify id ''/evidence'' (Some (directory w')) = Inr \<lparr>ver_Schema = ''kenogram.job-verification.v1'',
         ver_JobID = res_JobID (oc_Result outcome), ver_Status = res_Status (oc_Result outcome), ver_Entries = n\<rparr>"
proof (rule job_sealed)
  fix outcome w' calls
  assume run: "Run id job_executor job_machine job_run job_document ''/evidence'' = (Inr (outcome, w'), calls)" and fits: "fits w'"
    and holds: "holds_files (directory w') (w_files w')"
  have "\<exists>n. Verify id ''/evidence'' (Some (directory w')) = Inr \<lparr>ver_Schema = ''kenogram.job-verification.v1'',
      ver_JobID = res_JobID (oc_Result outcome), ver_Status = res_Status (oc_Result outcome), ver_Entries = n\<rparr>"
    by (rule sealed_evidence_verifies [OF run job_honest fits _ _ job_environment(3) holds]) (fact job_environment(1,2))+
  then show ?thesis using run by blast
qed

text \<open>
  C5: For a job without artifacts whose identity is established and whose evidence is opened, on a host that stores the
  files, with a plan document within the 8 MiB limit and with orderly runtime values, the run ends in sealed evidence: whichever of starting, identifying, waiting, finalizing,
  cleaning up and the egress evidence fail or time out, the run returns an outcome, because the result it produces
  passes validation and the manifest fits. Orderly values are a runtime that names itself \<^verbatim>\<open>podman-cli\<close>, an image digest in lower
  case, a wait that returns without error only with an exited or signalled target, and UTC clock readings that do not run backwards. (With the
  other values that the runtime interface accepts a run may end without sealed evidence.)
\<close>

theorem opened_evidence_is_sealed:
  assumes "establish uni ex host qr = Inr (q, dr, p)" and "open_evidence ex host dir qr q dr p = Inr (v, vr, w, so, se)"
    and "fits w" and "storing host x" and "orderly x" and "req_Artifacts q = None"
  shows "\<exists>outcome w' calls. Run uni ex host x qr dir = (Inr (outcome, w'), calls)"
  using run_seals [OF assms] by blast

theorem opened_evidence_is_sealed_witness:
  "storing job_machine job_run \<and> orderly job_run
   \<and> (\<exists>outcome w' calls. Run id job_executor job_machine job_run job_document ''/evidence'' = (Inr (outcome, w'), calls))"
proof -
  have "req_Artifacts job_request = None" by (simp add: job_request_def demo_request_def)
  then show ?thesis
    using opened_evidence_is_sealed [OF job_established job_opened job_fits job_orderly(2,1)] job_orderly by blast
qed

section \<open>Verified containment\<close>

lemma read_known_Inr:
  "read_known root known (name, maximum) = Inr r \<longleftrightarrow>
     (\<exists>e raw. map_of known name = Some e \<and> readSealedEntry root e maximum = Inr raw \<and> r = (name, raw))"
  by (auto simp: read_known_def result_simps split: option.splits)

lemma read_known_file:
  assumes "map_result (read_known root known) limits = Inr read" and "map_of read name = Some raw"
    and "\<And>e. map_of known name = Some e \<Longrightarrow> ent_Path e = name"
  shows "map_of root name = Some (EvidenceFile raw)"
  using assms
proof (induction limits arbitrary: read)
  case (Cons l limits)
  obtain n maximum where l: "l = (n, maximum)" by (cases l)
  obtain e found rest where "map_of known n = Some e" "readSealedEntry root e maximum = Inr found" "map_result (read_known root known) limits = Inr rest"
    "read = (n, found) # rest"
    using Cons.prems(1) l by (auto simp: result_simps read_known_Inr)
  then show ?case using Cons.IH [of rest] Cons.prems(2,3) by (auto simp: readSealedEntry_Inr split: if_splits)
qed simp

lemma read_known_names:
  "map_result (read_known root known) limits = Inr read \<Longrightarrow> map fst read = map fst limits"
  by (induction limits arbitrary: read) (auto simp: result_simps read_known_Inr)

lemma read_mandatory:
  assumes "map_result (read_known root known) (read_limits request known) = Inr read" and "classifyManifest m = Inr (known, artifacts)"
    and "ParseManifest raw = Inr m" and "name \<in> {''result.json'', ''runtime-before.json'', ''runtime-after.json''}"
  obtains doc where "map_of read name = Some doc" "map_of root name = Some (EvidenceFile doc)"
proof -
  have "name \<in> fst ` set (read_limits request known)" using assms(4) by (auto simp: read_limits_def image_iff)
  then have "name \<in> set (map fst read)" unfolding read_known_names [OF assms(1)] by simp
  then obtain doc where doc: "map_of read name = Some doc" by (metis list.set_map map_of_eq_None_iff option.exhaust)
  have "ent_Path e = name" if "map_of known name = Some e" for e
    using that map_of_SomeD [of "keyed (elems (man_Entries m))" name e]
    by (auto simp: classified_known [OF assms(2) manifest_paths [OF assms(3)]] split: if_splits)
  then show thesis using that doc read_known_file [OF assms(1) doc] by blast
qed

lemma verify_documents_runtime:
  assumes "verify_documents uni root m artifacts q qr read = Inr v"
    and "map_of read ''result.json'' = Some rr" "map_of read ''runtime-before.json'' = Some br" "map_of read ''runtime-after.json'' = Some ar"
  obtains r before after p pv where "ParseResult rr = Inr r" "ver_Status v = res_Status r"
    "parseRetainedRuntimeObservation br = Inr before" "parseRetainedRuntimeObservation ar = Inr after"
    "verifyRetainedRuntimeEvidence before after r q p pv = Inr ()"
  using assms by (auto simp: verify_documents_def Let_def result_simps)

lemma retained_observation:
  "parseRetainedRuntimeObservation raw = Inr (Some b) \<longleftrightarrow> TrimSpace raw \<noteq> ''{}'' \<and> ParseRuntimeObservation raw = Inr b"
  by (auto simp: parseRetainedRuntimeObservation_def result_simps)

lemma complete_without_reasons:
  assumes "ParseResult raw = Inr r" and "res_Status r = ''complete''"
  shows "elems (res_Reasons r) = []"
  using assms by (auto simp: ParseResult_def ValidateResult_def validate_status_def Let_def result_simps)

text \<open>What containment means for an observed container.\<close>

definition isolated :: "RuntimeObservation \<Rightarrow> bool" where
  "isolated b = (obs_NetworkMode b = ''none'' \<and> obs_IPCMode b \<in> {''private'', ''shareable''} \<and> obs_IPCIsolated b
     \<and> obs_PIDMode b = ''private'' \<and> obs_UTSMode b = ''private'' \<and> obs_UserNSMode b \<noteq> ''host''
     \<and> obs_UIDIdentity b \<and> obs_GIDIdentity b \<and> elems (obs_BoundingCaps b) = [] \<and> obs_NoNewPrivileges b
     \<and> obs_SeccompMode b = 2 \<and> obs_Devices b = 0)"

lemma before_contained:
  assumes "verifyRuntimeBeforeObservation b r q p pv = Inr ()"
  shows "isolated b \<and> obs_Running b \<and> obs_ImageDigest b = exe_ImageDigest (res_Identity r) \<and> obs_Generation b = exe_Generation (res_Identity r)
    \<and> obs_PlanSHA256 b = exe_PlanSHA256 (res_Identity r) \<and> obs_DeclarationSHA256 b = exe_DeclarationSHA256 (res_Identity r)"
  using assms by (auto simp: verifyRuntimeBeforeObservation_def contained_def isolated_def Let_def result_simps)

text \<open>
  C2: Accepted evidence is evidence of containment. Either nothing was observed to run, the result names no
  runtime and is not complete; or the container was observed running without network, capabilities, devices or
  shared namespaces, under seccomp and with no new privileges, from the image, plan and declaration that the
  result names, and a complete result has the same container observed again, stopped, its enforcement unchanged.
\<close>

theorem verified_containment:
  assumes "Verify uni dir (Some root) = Inr v"
  shows "\<exists>rr r br. map_of root ''result.json'' = Some (EvidenceFile rr) \<and> map_of root ''runtime-before.json'' = Some (EvidenceFile br)
    \<and> ParseResult rr = Inr r \<and> ver_Status v = res_Status r
    \<and> (TrimSpace br = ''{}'' \<and> exe_RuntimeProvider (res_Identity r) = [] \<and> exe_ImageDigest (res_Identity r) = [] \<and> ver_Status v \<noteq> ''complete''
       \<or> (\<exists>b. ParseRuntimeObservation br = Inr b \<and> isolated b \<and> obs_Running b
            \<and> obs_ImageDigest b = exe_ImageDigest (res_Identity r) \<and> obs_Generation b = exe_Generation (res_Identity r)
            \<and> obs_PlanSHA256 b = exe_PlanSHA256 (res_Identity r) \<and> obs_DeclarationSHA256 b = exe_DeclarationSHA256 (res_Identity r)
            \<and> (ver_Status v = ''complete'' \<longrightarrow> (\<exists>ar a. map_of root ''runtime-after.json'' = Some (EvidenceFile ar)
                 \<and> ParseRuntimeObservation ar = Inr a \<and> same_runtime b a \<and> \<not> obs_Running a \<and> stable_before b = stable_after a))))"
proof (rule Verify_Inr [OF assms])
  fix raw m known artifacts e requestRaw request read
  assume m: "ParseManifest raw = Inr m" and c: "classifyManifest m = Inr (known, artifacts)"
    and reading: "map_result (read_known root known) (read_limits request known) = Inr read"
    and docs: "verify_documents uni root m artifacts request requestRaw read = Inr v"
  note mandatory = read_mandatory [OF reading c m]
  obtain rr where rr: "map_of read ''result.json'' = Some rr" "map_of root ''result.json'' = Some (EvidenceFile rr)"
    by (rule mandatory [of "''result.json''"]) simp_all
  obtain br where br: "map_of read ''runtime-before.json'' = Some br" "map_of root ''runtime-before.json'' = Some (EvidenceFile br)"
    by (rule mandatory [of "''runtime-before.json''"]) simp_all
  obtain ar where ar: "map_of read ''runtime-after.json'' = Some ar" "map_of root ''runtime-after.json'' = Some (EvidenceFile ar)"
    by (rule mandatory [of "''runtime-after.json''"]) simp_all
  obtain r before after p pv where r: "ParseResult rr = Inr r" "ver_Status v = res_Status r"
    and b: "parseRetainedRuntimeObservation br = Inr before" and a: "parseRetainedRuntimeObservation ar = Inr after"
    and ev: "verifyRetainedRuntimeEvidence before after r request p pv = Inr ()"
    by (rule verify_documents_runtime [OF docs rr(1) br(1) ar(1)])
  show ?thesis
  proof (cases before)
    case None
    have "TrimSpace br = ''{}''" using b None by (auto simp: parseRetainedRuntimeObservation_def result_simps split: if_splits)
    moreover have "exe_RuntimeProvider (res_Identity r) = [] \<and> exe_ImageDigest (res_Identity r) = [] \<and> elems (res_Reasons r) \<noteq> []"
      using ev None by (auto simp: verifyRetainedRuntimeEvidence_def Let_def result_simps split: if_splits)
    ultimately show ?thesis using rr(2) br(2) r complete_without_reasons [OF r(1)] by auto
  next
    case (Some o1)
    have "ParseRuntimeObservation br = Inr o1" using b Some by (simp add: retained_observation)
    moreover have "verifyRuntimeBeforeObservation o1 r request p pv = Inr ()"
      using ev Some by (auto simp: verifyRetainedRuntimeEvidence_def Let_def result_simps)
    moreover have "\<exists>o2. ParseRuntimeObservation ar = Inr o2 \<and> same_runtime o1 o2 \<and> \<not> obs_Running o2 \<and> stable_before o1 = stable_after o2"
      if "res_Status r = ''complete''"
      using that ev Some a
      by (cases after) (auto simp: verifyRetainedRuntimeEvidence_def verifyRuntimeObservations_def retained_observation Let_def result_simps)
    ultimately show ?thesis using rr(2) br(2) ar(2) r before_contained by metis
  qed
qed

theorem verified_containment_witness:
  "\<exists>root v rr r. Verify id ''/evidence'' (Some root) = Inr v \<and> map_of root ''result.json'' = Some (EvidenceFile rr)
     \<and> ParseResult rr = Inr r \<and> ver_Status v = res_Status r"
proof (rule job_accepted)
  fix w' v
  assume v: "Verify id ''/evidence'' (Some (directory w')) = Inr v"
  from verified_containment [OF v] obtain rr r where "map_of (directory w') ''result.json'' = Some (EvidenceFile rr)"
    "ParseResult rr = Inr r" "ver_Status v = res_Status r"
    by (elim exE conjE)
  with v show ?thesis by (intro exI conjI)
qed

section \<open>Captured streams\<close>

text \<open>
  C40: A stream none of whose writes is cut short, and whose length does not exceed the largest wire integer, keeps exactly
  the first bytes up to its limit, however the target splits its output into writes; its result counts every byte, and
  says that it is truncated exactly when output was lost.
\<close>

theorem stream_keeps_prefix:
  assumes "evidence_Stream fails name kind maximum w = Inr c" and "0 \<le> maximum"
    and "list_all (\<lambda>(short, _). short = None) writes" and "int (length (concat (map snd writes))) \<le> MaximumWireInteger"
    and "capture_CloseResult fails (capture_all writes c) w = Inr (stream, w')"
  shows "w_files w' = w_files w @ [(name, take (nat maximum) (concat (map snd writes)))]
    \<and> stm_TotalBytes stream = int (length (concat (map snd writes)))
    \<and> stm_CapturedBytes stream = min maximum (stm_TotalBytes stream)
    \<and> (stm_Truncated stream \<longleftrightarrow> maximum < int (length (concat (map snd writes))))"
proof -
  have c: "c = \<lparr>cap_name = name, cap_kind = kind, cap_maximum = maximum, cap_total = 0, cap_file = [], cap_hashed = [], cap_closed = False\<rparr>"
    using assms(1) by (simp add: evidence_Stream_def result_simps)
  have ok: "capture_ok c" using assms(2) by (simp add: c capture_ok_def MaximumWireInteger_def)
  have "cap_hashed (capture_all writes c) = take (nat maximum) (concat (map snd writes))
      \<and> cap_total (capture_all writes c) = int (length (concat (map snd writes)))"
    using capture_all_prefix [OF assms(3) ok] assms(2,4) by (simp add: c)
  moreover have "cap_file (capture_all writes c) = cap_hashed (capture_all writes c)" "cap_name (capture_all writes c) = name"
    using capture_all_ok [OF assms(3) ok] by (simp_all add: c capture_ok_def)
  moreover have "int (length (take (nat maximum) (concat (map snd writes)))) = min maximum (int (length (concat (map snd writes))))"
    using assms(2) by (simp only: length_take of_nat_min nat_0_le)
  ultimately show ?thesis
    using assms(5) by (auto simp: capture_CloseResult_def Let_def result_simps simp del: length_take length_concat)
qed

definition demo_stream :: capture where
  "demo_stream = \<lparr>cap_name = ''stdout.bin'', cap_kind = ''stdout'', cap_maximum = 4, cap_total = 0, cap_file = [], cap_hashed = [], cap_closed = False\<rparr>"

theorem stream_keeps_prefix_witness:
  "\<exists>stream w'. capture_CloseResult (\<lambda>_. False) (capture_all [(None, ''ab''), (None, ''cde'')] demo_stream) new_writer = Inr (stream, w')
     \<and> w_files w' = [(''stdout.bin'', ''abcd'')] \<and> stm_TotalBytes stream = 5 \<and> stm_Truncated stream"
proof -
  let ?writes = "[(None, ''ab''), (None, ''cde'')]"
  have c: "evidence_Stream (\<lambda>_. False) ''stdout.bin'' ''stdout'' 4 new_writer = Inr demo_stream"
    by (simp add: evidence_Stream_def can_create_def new_writer_def demo_stream_def list_all_iff)
  obtain r where "capture_CloseResult (\<lambda>_. False) (capture_all ?writes demo_stream) new_writer = Inr r"
    by (simp add: capture_CloseResult_def Let_def demo_stream_def capture_Write_def MaximumWireInteger_def)
  then obtain stream w' where s: "capture_CloseResult (\<lambda>_. False) (capture_all ?writes demo_stream) new_writer = Inr (stream, w')"
    by (cases r) blast
  have "w_files w' = w_files new_writer @ [(''stdout.bin'', take (nat 4) (concat (map snd ?writes)))]
      \<and> stm_TotalBytes stream = int (length (concat (map snd ?writes)))
      \<and> stm_CapturedBytes stream = min 4 (stm_TotalBytes stream) \<and> (stm_Truncated stream \<longleftrightarrow> 4 < int (length (concat (map snd ?writes))))"
    using stream_keeps_prefix [of "\<lambda>_. False" "''stdout.bin''" "''stdout''" 4 new_writer demo_stream ?writes stream w'] c s
    by (simp add: MaximumWireInteger_def)
  then show ?thesis using s by (simp add: new_writer_def)
qed

section \<open>Runtime evidence\<close>

lemma split_at_mark: "c \<notin> set a \<Longrightarrow> c \<notin> set b \<Longrightarrow> a @ c # s = b @ c # t \<Longrightarrow> a = b \<and> s = t"
proof (induction a arbitrary: b)
  case Nil
  then show ?case by (cases b) auto
next
  case (Cons x a)
  then show ?case by (cases b) auto
qed

lemma framed_prefix_free:
  assumes "framed a @ s = framed b @ t"
  shows "a = b \<and> s = t"
proof -
  have digits: "CHR 0x00 \<notin> set (Itoa (int n))" for n
    using Itoa_chars [of "CHR 0x00" "int n"] by (auto simp: is_digit_def)
  have "Itoa (int (length a)) = Itoa (int (length b)) \<and> a @ s = b @ t"
    by (rule split_at_mark [OF digits digits]) (use assms in \<open>simp add: framed_def\<close>)
  then have "length a = length b \<and> a @ s = b @ t" using Itoa_inj [of "int (length a)" "int (length b)"] by simp
  then show ?thesis using append_eq_append_conv [of a b s t] by blast
qed

text \<open>
  The digest that binds the runtime evidence determines both documents: two pairs of documents with the
  same digest are equal, or their framed texts are a collision of SHA-256.
\<close>

theorem runtime_digest_binds:
  assumes "runtimeEvidenceDigest before after = runtimeEvidenceDigest before' after'"
  shows "before = before' \<and> after = after' \<or> sha256_collision (framed before @ framed after) (framed before' @ framed after')"
proof -
  have "framed before @ framed after = framed before' @ framed after'
      \<or> sha256_collision (framed before @ framed after) (framed before' @ framed after')"
    using assms by (intro sha256_hex_eq) (simp add: runtimeEvidenceDigest_def)
  then show ?thesis
    using framed_prefix_free [of before "framed after" before' "framed after'"] framed_prefix_free [of after "[]" after' "[]"] by auto
qed

theorem runtime_digest_binds_witness:
  "runtimeEvidenceDigest ''{}'' [] = runtimeEvidenceDigest ''{}'' []
   \<and> (''{}'' = ''{}'' \<and> [] = ([] :: bytes) \<or> sha256_collision (framed ''{}'' @ framed []) (framed ''{}'' @ framed []))"
  using runtime_digest_binds [of "''{}''" "[]" "''{}''" "[]"] by simp

section \<open>The calls on the runtime\<close>

definition protocol :: "runtime_call list" where
  "protocol = [CallStart, CallIdentity, CallBeginWait, CallWait, CallJoinWait, CallBeginFinalization, CallFinalize,
     CallJoinWait, CallJoinFinalization, CallCleanup]"

definition stage_calls :: "bool \<Rightarrow> runtime_run \<Rightarrow> runtime_call list" where
  "stage_calls live x =
     (if live then [CallBeginWait, CallWait, CallJoinWait] @ (if x_joinWait x = [] then [CallBeginFinalization, CallFinalize] else []) else [])"

lemma identity_calls:
  "observe_identity x p err st = (err', st') \<Longrightarrow> st_calls st' = st_calls st @ (if err = [] then [CallIdentity] else []) \<and> (err \<noteq> [] \<longrightarrow> err' \<noteq> [])"
  by (auto simp: observe_identity_def Let_def split: if_splits prod.splits)

lemma observe_calls: "snd (observe_run fails x q p v err st) = st_calls st @ stage_calls (err = []) x"
  by (simp add: observe_run_def stage_calls_def finalize_runtime_def observe_target_def Let_def split_beta)

lemma cleanup_calls:
  "snd (observe_cleanup x process) =
     (if process then CallJoinWait # (if x_cleanupJoinWait x = [] then CallJoinFinalization # (if x_joinFinalization x = [] then [CallCleanup] else []) else [])
      else [CallCleanup])"
  by (simp add: observe_cleanup_def Let_def split_beta)

lemma start_calls:
  "start_runtime x = ((process, admitted, err), calls) \<Longrightarrow>
     calls = (if x_started x \<and> x_start x \<noteq> StartNotCalled then [CallStart] else []) \<and> (err = [] \<longrightarrow> process) \<and> (process \<longrightarrow> calls \<noteq> [])"
  by (auto simp: start_runtime_def startRuntimeBounded_def split: start_call.splits bounded.splits prod.splits if_splits)

text \<open>The calls of an execution: those of starting, of observing and of cleaning up.\<close>

lemma execute_calls:
  assumes "execute uni fails x q qr p v vr w so se = (r, calls)"
  obtains process begun live c where
    "calls = (if x_started x \<and> x_start x \<noteq> StartNotCalled then [CallStart] else []) @ (if begun then [CallIdentity] else []) @ stage_calls live x @ c"
    "begun \<longrightarrow> process" "process \<longrightarrow> x_started x \<and> x_start x \<noteq> StartNotCalled" "live \<longrightarrow> begun"
    "c = [CallCleanup] \<or> c = snd (observe_cleanup x process)"
proof -
  obtain process admitted err calls0 where s: "start_runtime x = ((process, admitted, err), calls0)" by (metis prod.collapse)
  obtain err' st0 where i: "observe_identity x p err (start_state q qr p vr w calls0) = (err', st0)" by force
  note ic = identity_calls [OF i] and sc = start_calls [OF s]
  let ?run = "observe_run fails x q p v err' (settle_admitted admitted err' st0)"
  have all: "snd ?run = calls0 @ (if err = [] then [CallIdentity] else []) @ stage_calls (err' = []) x"
    using ic by (simp add: observe_calls settle_admitted_def start_state_def)
  obtain rr calls1 where run: "?run = (rr, calls1)" by force
  then have calls1: "calls1 = calls0 @ (if err = [] then [CallIdentity] else []) @ stage_calls (err' = []) x" using all by simp
  have "\<exists>c. calls = calls1 @ c \<and> (c = [CallCleanup] \<or> c = snd (observe_cleanup x process))"
  proof (cases rr)
    case (Inl e)
    then have "calls = calls1 @ [CallCleanup]" using assms s i run by (simp add: execute_def start_state_def [symmetric])
    then show ?thesis by blast
  next
    case (Inr st)
    then have "calls = calls1 @ snd (observe_cleanup x process)"
      using assms s i run by (simp add: execute_def start_state_def [symmetric] Let_def split_beta)
    then show ?thesis by blast
  qed
  then obtain c where c: "calls = calls1 @ c" "c = [CallCleanup] \<or> c = snd (observe_cleanup x process)" by blast
  have calls0: "calls0 = (if x_started x \<and> x_start x \<noteq> StartNotCalled then [CallStart] else [])" using sc by blast
  show thesis
    by (rule that [of "err = []" "err' = []" c process]) (use ic sc c calls1 calls0 in \<open>simp_all split: if_splits\<close>)
qed

lemma Run_calls:
  assumes "Run uni ex host x qr dir = (r, calls)"
  shows "calls = [] \<or> (\<exists>q p v vr w so se r'. execute uni (h_fails host) x q qr p v vr w so se = (r', calls))"
  using assms by (auto simp: Run_def split: sum.splits prod.splits)

text \<open>
  C39: Whatever the host and the runtime do, the executor calls the runtime in the order of its protocol, each
  call at most once apart from the second join of the wait. Once the runtime was started, the run ends with
  the cleanup, unless joining the process failed, in which case it ends with the join.
\<close>

theorem runtime_protocol:
  assumes "Run uni ex host x qr dir = (r, calls)"
  shows "subseq calls protocol
    \<and> (CallStart \<in> set calls \<longrightarrow> last calls = CallCleanup
        \<or> x_cleanupJoinWait x \<noteq> [] \<and> last calls = CallJoinWait \<or> x_joinFinalization x \<noteq> [] \<and> last calls = CallJoinFinalization)"
  using Run_calls [OF assms]
proof (elim disjE exE)
  fix q p v vr w so se r'
  assume "execute uni (h_fails host) x q qr p v vr w so se = (r', calls)"
  then obtain process begun live c where calls: "calls = (if x_started x \<and> x_start x \<noteq> StartNotCalled then [CallStart] else [])
        @ (if begun then [CallIdentity] else []) @ stage_calls live x @ c"
    and "begun \<longrightarrow> process" "process \<longrightarrow> x_started x \<and> x_start x \<noteq> StartNotCalled" "live \<longrightarrow> begun"
    and "c = [CallCleanup] \<or> c = snd (observe_cleanup x process)" by (rule execute_calls)
  then show ?thesis
    unfolding calls by (cases process; cases begun; cases live; cases "x_cleanupJoinWait x = []"; cases "x_joinFinalization x = []") (auto simp: cleanup_calls stage_calls_def protocol_def)
qed simp

theorem runtime_protocol_witness:
  "\<exists>outcome calls. Run id job_executor job_machine job_run job_document ''/evidence'' = (Inr outcome, calls)
     \<and> subseq calls protocol \<and> (CallStart \<in> set calls \<longrightarrow> last calls = CallCleanup)"
proof (rule job_sealed)
  fix outcome w' calls
  assume run: "Run id job_executor job_machine job_run job_document ''/evidence'' = (Inr (outcome, w'), calls)"
  have "x_cleanupJoinWait job_run = []" "x_joinFinalization job_run = []" by (simp_all add: job_run_def)
  then show ?thesis using run runtime_protocol [OF run] by auto
qed

end
