(* ===== verification/Joblifecycle.thy ===== *)
theory Joblifecycle
  imports Go_Size Go_Crypto "HOL-Library.Word"
begin

text \<open>
  The authenticated lifecycle record of a target (\<^verbatim>\<open>internal/joblifecycle/lifecycle.go\<close>): the helper inside the
  container writes one record into a file that the host created, and the host accepts it only from that file and
  only with its message authentication code. Files are inodes with contents, paths are directory entries; the
  host may replace an entry between two calls, and writing may stop after any number of bytes.
\<close>

section \<open>Records\<close>

datatype lifecycle_error =
    LifecycleRefused bytes
  | LifecycleHost bytes

type_synonym 'a lifecycle_result = "lifecycle_error + 'a"

definition lifecycle_Schema :: bytes where "lifecycle_Schema = ''kenogram.target-lifecycle.v1''"
definition lifecycle_MaximumBytes :: nat where "lifecycle_MaximumBytes = 16384"

record lifecycle_Record =
  lc_Schema :: bytes
  lc_StartedAt :: bytes
  lc_FinishedAt :: bytes
  lc_DurationNS :: int
  lc_ExitStatus :: "int option"
  lc_Signal :: "int option"
  lc_MAC :: bytes

definition payload_shape :: shape where
  "payload_shape = TStruct
     [(''schema'', False, TString), (''started_at'', False, TString), (''finished_at'', False, TString), (''duration_ns'', False, TInt64),
      (''exit_status'', True, TPtr TInt64), (''signal'', True, TPtr TInt64)]"

definition payload_value :: "lifecycle_Record \<Rightarrow> gval" where
  "payload_value x = VStruct
     [VString (lc_Schema x), VString (lc_StartedAt x), VString (lc_FinishedAt x), VInt (lc_DurationNS x),
      VPtr (map_option VInt (lc_ExitStatus x)), VPtr (map_option VInt (lc_Signal x))]"

definition lifecycle_Record_shape :: shape where
  "lifecycle_Record_shape = TStruct
     [(''schema'', False, TString), (''started_at'', False, TString), (''finished_at'', False, TString), (''duration_ns'', False, TInt64),
      (''exit_status'', True, TPtr TInt64), (''signal'', True, TPtr TInt64), (''mac'', False, TString)]"

definition lifecycle_Record_value :: "lifecycle_Record \<Rightarrow> gval" where
  "lifecycle_Record_value x = VStruct
     [VString (lc_Schema x), VString (lc_StartedAt x), VString (lc_FinishedAt x), VInt (lc_DurationNS x),
      VPtr (map_option VInt (lc_ExitStatus x)), VPtr (map_option VInt (lc_Signal x)), VString (lc_MAC x)]"

definition lifecycle_Record_of :: "gval \<Rightarrow> lifecycle_Record" where
  "lifecycle_Record_of v =
     (let vs = g_fields v in
      \<lparr>lc_Schema = g_string (vs ! 0), lc_StartedAt = g_string (vs ! 1), lc_FinishedAt = g_string (vs ! 2), lc_DurationNS = g_int (vs ! 3),
       lc_ExitStatus = map_option g_int (g_ptr (vs ! 4)), lc_Signal = map_option g_int (g_ptr (vs ! 5)), lc_MAC = g_string (vs ! 6)\<rparr>)"

lemma lifecycle_Record_of_value [simp]: "lifecycle_Record_of (lifecycle_Record_value x) = x"
  by (cases x) (simp add: lifecycle_Record_of_def lifecycle_Record_value_def option.map_comp comp_def option.map_ident)

definition lifecycle_validate :: "lifecycle_Record \<Rightarrow> bytes \<Rightarrow> bool \<Rightarrow> unit lifecycle_result" where
  "lifecycle_validate record key requireMAC =
     (if length key \<noteq> 32 \<or> lc_Schema record \<noteq> lifecycle_Schema \<or> lc_DurationNS record < 0 \<or> lc_DurationNS record > 9007199254740991
         \<or> (lc_ExitStatus record = None) = (lc_Signal record = None)
      then Inl (LifecycleRefused ''target lifecycle authority is invalid'')
      else
      bind_result (case (ParseRFC3339Nano (lc_StartedAt record), ParseRFC3339Nano (lc_FinishedAt record)) of
          (Some start, Some finish) \<Rightarrow> require (\<not> Before finish start) (LifecycleRefused ''target lifecycle interval is invalid'')
        | _ \<Rightarrow> Inl (LifecycleRefused ''target lifecycle interval is invalid'')) (\<lambda>_.
      bind_result (require (case lc_ExitStatus record of None \<Rightarrow> True | Some n \<Rightarrow> \<not> (n < 0 \<or> n > 255))
        (LifecycleRefused ''target lifecycle exit status is invalid'')) (\<lambda>_.
      bind_result (require (case lc_Signal record of None \<Rightarrow> True | Some n \<Rightarrow> \<not> (n < 1 \<or> n > 255))
        (LifecycleRefused ''target lifecycle signal is invalid'')) (\<lambda>_.
      if requireMAC then
        bind_result (require (length (lc_MAC record) = 64) (LifecycleRefused ''target lifecycle MAC is invalid'')) (\<lambda>_.
        require (hex_decodes (lc_MAC record)) (LifecycleRefused ''target lifecycle MAC''))
      else Inr ()))))"

definition lifecycle_Seal :: "lifecycle_Record \<Rightarrow> bytes \<Rightarrow> lifecycle_Record lifecycle_result" where
  "lifecycle_Seal record key =
     bind_result (lifecycle_validate record key False) (\<lambda>_.
     Inr (record\<lparr>lc_MAC := hex_encode (hmac_sha256 key (Marshal payload_shape (payload_value record)))\<rparr>))"

definition lifecycle_encode :: "lifecycle_Record \<Rightarrow> bytes \<Rightarrow> bytes lifecycle_result" where
  "lifecycle_encode record key =
     bind_result (lifecycle_Seal record key) (\<lambda>s.
     Inr (Marshal lifecycle_Record_shape (lifecycle_Record_value s) @ [newline]))"

text \<open>Reading: the host may fail, and of a longer file only one byte more than the limit is read.\<close>

definition lifecycle_read :: "bytes \<Rightarrow> bytes \<Rightarrow> bool \<Rightarrow> lifecycle_Record lifecycle_result" where
  "lifecycle_read contents key failed =
     (let raw = take (lifecycle_MaximumBytes + 1) contents in
      bind_result (require (\<not> (failed \<or> length raw > lifecycle_MaximumBytes)) (LifecycleRefused ''target lifecycle is unreadable or oversized'')) (\<lambda>_.
      case Unmarshal True lifecycle_Record_shape raw of
        None \<Rightarrow> Inl (LifecycleRefused ''target lifecycle is malformed'')
      | Some v \<Rightarrow>
          let record = lifecycle_Record_of v in
          bind_result (lifecycle_validate record key True) (\<lambda>_.
          case lifecycle_Seal (record\<lparr>lc_MAC := []\<rparr>) key of
            Inl e \<Rightarrow> Inl e
          | Inr s \<Rightarrow> if lc_MAC record \<noteq> lc_MAC s then Inl (LifecycleRefused ''target lifecycle authentication failed'') else Inr record)))"

section \<open>Slots\<close>

record FileIdentity =
  fid_Device :: "64 word"
  fid_Inode :: "64 word"

datatype slot_entry =
    SlotFile FileIdentity
  | SlotLink
  | SlotNode

record slots =
  sl_entry :: "bytes \<Rightarrow> slot_entry option"
  sl_data :: "FileIdentity \<Rightarrow> bytes"

definition identityOf :: "slot_entry \<Rightarrow> FileIdentity lifecycle_result" where
  "identityOf e = (case e of SlotFile i \<Rightarrow> Inr i | _ \<Rightarrow> Inl (LifecycleRefused ''target lifecycle slot is not a regular file''))"

text \<open>Writing the bytes of a document: \<open>short\<close> is the number of bytes after which the host fails.\<close>

definition write_file :: "bytes \<Rightarrow> FileIdentity \<Rightarrow> nat option \<Rightarrow> bytes \<Rightarrow> slots \<Rightarrow> unit lifecycle_result \<times> slots" where
  "write_file path i short raw s =
     (case short of
        None \<Rightarrow> (Inr (), s\<lparr>sl_data := (sl_data s)(i := raw)\<rparr>)
      | Some k \<Rightarrow> (Inl (LifecycleHost path), s\<lparr>sl_data := (sl_data s)(i := take k raw)\<rparr>))"

definition create_file :: "bytes \<Rightarrow> FileIdentity \<Rightarrow> slots \<Rightarrow> slots" where
  "create_file path i s = s\<lparr>sl_entry := (sl_entry s)(path \<mapsto> SlotFile i), sl_data := (sl_data s)(i := [])\<rparr>"

definition lifecycle_Write :: "bytes \<Rightarrow> lifecycle_Record \<Rightarrow> bytes \<Rightarrow> FileIdentity \<Rightarrow> nat option \<Rightarrow> slots \<Rightarrow> unit lifecycle_result \<times> slots" where
  "lifecycle_Write path record key fresh short s =
     (case lifecycle_encode record key of
        Inl e \<Rightarrow> (Inl e, s)
      | Inr raw \<Rightarrow>
          if sl_entry s path \<noteq> None then (Inl (LifecycleHost path), s)
          else write_file path fresh short raw (create_file path fresh s))"

definition Prepare :: "bytes \<Rightarrow> FileIdentity \<Rightarrow> bool \<Rightarrow> slots \<Rightarrow> FileIdentity lifecycle_result \<times> slots" where
  "Prepare path fresh failed s =
     (if sl_entry s path \<noteq> None then (Inl (LifecycleHost path), s)
      else let s' = create_file path fresh s in (if failed then Inl (LifecycleHost path) else identityOf (SlotFile fresh), s'))"

text \<open>\<open>before\<close> is what the first look at the path saw, \<open>s\<close> what is there when the file is opened.\<close>

definition WriteSlot :: "bytes \<Rightarrow> lifecycle_Record \<Rightarrow> bytes \<Rightarrow> nat option \<Rightarrow> slots \<Rightarrow> slots \<Rightarrow> unit lifecycle_result \<times> slots" where
  "WriteSlot path record key short before s =
     (case lifecycle_encode record key of
        Inl e \<Rightarrow> (Inl e, s)
      | Inr raw \<Rightarrow>
          (case sl_entry before path of
             Some (SlotFile i) \<Rightarrow>
               if sl_data before i \<noteq> [] then (Inl (LifecycleRefused ''target lifecycle slot is not an empty regular file''), s)
               else (case sl_entry s path of
                 Some (SlotFile j) \<Rightarrow>
                   let opened = s\<lparr>sl_data := (sl_data s)(j := [])\<rparr> in
                   if i \<noteq> j then (Inl (LifecycleRefused ''target lifecycle slot identity changed before write''), opened)
                   else write_file path j short raw opened
               | Some SlotNode \<Rightarrow> (Inl (LifecycleRefused ''target lifecycle slot identity changed before write''), s)
               | _ \<Rightarrow> (Inl (LifecycleHost path), s))
           | _ \<Rightarrow> (Inl (LifecycleRefused ''target lifecycle slot is not an empty regular file''), s)))"

text \<open>\<^verbatim>\<open>os.Open\<close> follows symbolic links: \<open>resolved\<close> is the file it reaches.\<close>

definition lifecycle_Read :: "FileIdentity option \<Rightarrow> bytes \<Rightarrow> bool \<Rightarrow> slots \<Rightarrow> lifecycle_Record lifecycle_result" where
  "lifecycle_Read resolved key failed s =
     (case resolved of None \<Rightarrow> Inl (LifecycleHost []) | Some i \<Rightarrow> lifecycle_read (sl_data s i) key failed)"

definition ReadSlot :: "bytes \<Rightarrow> bytes \<Rightarrow> FileIdentity \<Rightarrow> bool \<Rightarrow> slots \<Rightarrow> lifecycle_Record lifecycle_result" where
  "ReadSlot path key expected failed s =
     (case sl_entry s path of
        None \<Rightarrow> Inl (LifecycleHost path)
      | Some SlotLink \<Rightarrow> Inl (LifecycleHost path)
      | Some e \<Rightarrow>
          (case identityOf e of
             Inl err \<Rightarrow> Inl err
           | Inr i \<Rightarrow>
               if i \<noteq> expected then Inl (LifecycleRefused ''target lifecycle slot identity changed'')
               else lifecycle_read (sl_data s i) key failed))"

end
