(* ===== verification/Go_Torn.thy ===== *)
theory Go_Torn
  imports Go_Size
begin

text \<open>
  Documents that were cut off: a JSON object whose text has lost its closing brace is refused, and what the
  writers put between the braces.
\<close>

section \<open>The closing brace\<close>

lemma skip_ws_subset: "set (skip_ws s) \<subseteq> set s"
  by (auto simp: skip_ws_def dest: set_dropWhileD)

lemma skip_ws_member: "skip_ws s = c # t \<Longrightarrow> c \<in> set s \<and> set t \<subseteq> set s"
  using skip_ws_subset [of s] by auto

lemma json_string_subset: "json_string s = Some (u, r) \<Longrightarrow> set r \<subseteq> set s"
proof (induction s arbitrary: u r rule: json_string.induct)
  case (2 c s)
  then show ?case
    by (fastforce split: if_splits list.splits option.splits prod.splits dest: in_set_dropD)
qed simp

lemma json_rest_subset:
  "json_value n s = Some (v, r) \<Longrightarrow> set r \<subseteq> set s"
  "json_elements n s = Some (vs, r) \<Longrightarrow> set r \<subseteq> set s"
  "json_members n s = Some (ms, r) \<Longrightarrow> set r \<subseteq> set s"
proof (induction n s and n s and n s arbitrary: v r and vs r and ms r rule: json_value_json_elements_json_members.induct)
  case (2 n s)
  obtain c t where c: "skip_ws s = c # t" using 2 by (cases "skip_ws s") auto
  note in_s = skip_ws_member [OF c]
  show ?case
  proof (cases "c = quote_char \<or> c = CHR ''['' \<or> c = CHR ''{''")
    case True
    then have "set r \<subseteq> set t"
      using 2 c by (auto simp: quote_char_def split: list.splits if_splits dest!: skip_ws_member json_string_subset) blast+
    then show ?thesis using in_s by blast
  next
    case False
    obtain w where w: "w = c # t" by simp
    have "json_value (Suc n) s = (if HasPrefix w ''null'' then Some (JNull, drop 4 w) else if HasPrefix w ''true'' then Some (JBool True, drop 4 w)
        else if HasPrefix w ''false'' then Some (JBool False, drop 5 w)
        else let lit = takeWhile num_char w in if json_number_ok lit then Some (JNum lit, dropWhile num_char w) else None)"
      using False by (simp only: json_value.simps c list.case w if_False de_Morgan_disj simp_thms)
    then have "r = drop 4 w \<or> r = drop 5 w \<or> r = dropWhile num_char w"
      using 2(3) by (auto simp only: Let_def option.inject prod.inject option.distinct split: if_splits)
    then have "set r \<subseteq> set w" by (auto dest: in_set_dropD set_dropWhileD)
    then show ?thesis using in_s w by auto
  qed
next
  case (4 n s)
  then show ?case by (fastforce split: list.splits if_splits option.splits prod.splits dest!: skip_ws_member)
next
  case (6 n s)
  then show ?case by (fastforce split: list.splits if_splits option.splits prod.splits dest!: skip_ws_member json_string_subset)
qed simp_all

lemma json_members_brace: "json_members n s = Some (ms, r) \<Longrightarrow> CHR ''}'' \<in> set s"
proof (induction n arbitrary: s ms r)
  case (Suc n)
  then show ?case
    by (fastforce split: list.splits if_splits option.splits prod.splits dest!: skip_ws_member json_string_subset json_rest_subset(1))
qed simp

lemma json_parse_brace:
  assumes "json_parse (CHR ''{'' # s) = Some j"
  shows "CHR ''}'' \<in> set s"
proof -
  have "\<not> is_ws CHR ''{''" by (simp add: is_ws_def)
  then have start: "skip_ws (CHR ''{'' # s) = CHR ''{'' # s" by (simp add: skip_ws_def)
  obtain v r where "json_value (2 * length (CHR ''{'' # s) + 1) (CHR ''{'' # s) = Some (v, r)"
    using assms unfolding json_parse_def by (auto split: option.splits)
  then have "json_value (Suc (2 * length s + 2)) (CHR ''{'' # s) = Some (v, r)" by simp
  then have "\<exists>d u. skip_ws s = d # u \<and> (d = CHR ''}'' \<or> (\<exists>ms. json_members (2 * length s + 2) s = Some (ms, r)))"
    by (simp only: json_value.simps start) (auto simp: quote_char_def split: list.splits if_splits)
  then show ?thesis using skip_ws_member json_members_brace by blast
qed

text \<open>An object whose closing brace is its only one, cut off anywhere before it.\<close>

lemma torn_object:
  assumes "CHR ''}'' \<notin> set s" and "k \<le> Suc (length s)"
  shows "Unmarshal strict t (take k (CHR ''{'' # s @ rest)) = None"
proof (cases k)
  case 0
  then show ?thesis by (simp add: Unmarshal_def json_parse_def skip_ws_def)
next
  case (Suc m)
  then have "take k (CHR ''{'' # s @ rest) = CHR ''{'' # take m s" using assms(2) by simp
  moreover have "CHR ''}'' \<notin> set (take m s)" using assms(1) by (auto dest: in_set_takeD)
  ultimately show ?thesis using json_parse_brace [of "take m s"] by (cases "json_parse (CHR ''{'' # take m s)") (auto simp: Unmarshal_def)
qed

section \<open>Texts without braces\<close>

definition unbraced :: "bytes \<Rightarrow> bool" where
  "unbraced s = (list_all json_plain s \<and> CHR ''}'' \<notin> set s)"

lemma unbraced_append [simp]: "unbraced (s @ t) \<longleftrightarrow> unbraced s \<and> unbraced t"
  by (auto simp: unbraced_def)

lemma unbraced_Cons: "unbraced (c # s) \<longleftrightarrow> json_plain c \<and> c \<noteq> CHR ''}'' \<and> unbraced s"
  by (auto simp: unbraced_def)

lemma unbraced_Nil [simp]: "unbraced []"
  by (simp add: unbraced_def)

lemma unbraced_quote: "unbraced s \<Longrightarrow> CHR ''}'' \<notin> set (json_quote html s)"
  by (auto simp: unbraced_def json_quote_plain quote_char_def)

lemma digit_unbraced: "is_digit c \<Longrightarrow> json_plain c \<and> c \<noteq> CHR ''}''"
  by (auto simp: is_digit_def json_plain_def quote_char_def backslash_def)

lemma digits_unbraced: "list_all is_digit s \<Longrightarrow> unbraced s"
  by (induction s) (auto simp: unbraced_Cons digit_unbraced)

lemma pad_unbraced [simp]: "unbraced (pad w n)"
  by (rule digits_unbraced [OF pad_digits])

lemma lower_hex_unbraced: "list_all is_lower_hex s \<Longrightarrow> unbraced s"
  using lower_hex_plain by (auto simp: unbraced_def list_all_iff is_lower_hex_def is_digit_def)

lemma Format_unbraced: "unbraced (FormatRFC3339Nano t)"
proof -
  have "json_plain c" if "c \<in> set ''-T:Z.+''" for c using that by (auto simp: json_plain_def quote_char_def backslash_def)
  then have marks: "json_plain CHR ''-''" "json_plain CHR ''T''" "json_plain CHR '':''" "json_plain CHR ''Z''" "json_plain CHR ''.''" "json_plain CHR ''+''"
    by simp_all
  have "set (rev (dropWhile P (rev s))) \<subseteq> set s" for P and s :: bytes by (auto dest: set_dropWhileD)
  then have "unbraced s \<Longrightarrow> unbraced (rev (dropWhile P (rev s)))" for P s by (auto simp: unbraced_def list_all_iff)
  then show ?thesis by (simp add: FormatRFC3339Nano_def format_fraction_def format_zone_def unbraced_Cons marks)
qed

lemma Itoa_no_brace: "CHR ''}'' \<notin> set (Itoa n)"
  using Itoa_chars [of "CHR ''}''" n] by (auto simp: is_digit_def)

end
