(* ===== verification/Joblifecycle_Properties.thy ===== *)
theory Joblifecycle_Properties
  imports Joblifecycle Go_Torn
begin

text \<open>
  What the lifecycle slot promises: a record that was written is read back, a record that was only partly written
  is refused, and an accepted record is fixed by its authentication code.
\<close>

section \<open>Message authentication\<close>

text \<open>The two texts that HMAC hashes.\<close>

definition hmac_pad :: "bytes \<Rightarrow> nat \<Rightarrow> bytes" where
  "hmac_pad key x = (let k0 = (if length key > 64 then sha256 key else key); k = k0 @ replicate (64 - length k0) (char_of (0 :: nat)) in map (\<lambda>c. char_of (xor (byte c) x)) k)"

definition hmac_inner :: "bytes \<Rightarrow> bytes \<Rightarrow> bytes" where "hmac_inner key m = hmac_pad key 54 @ m"
definition hmac_outer :: "bytes \<Rightarrow> bytes \<Rightarrow> bytes" where "hmac_outer key m = hmac_pad key 92 @ sha256 (hmac_inner key m)"

lemma hmac_texts: "hmac_sha256 key m = sha256 (hmac_outer key m)"
  by (simp add: hmac_sha256_def hmac_outer_def hmac_inner_def hmac_pad_def Let_def)

definition hmac_collision :: "bytes \<Rightarrow> bytes \<Rightarrow> bytes \<Rightarrow> bool" where
  "hmac_collision key m m' = (sha256_collision (hmac_inner key m) (hmac_inner key m') \<or> sha256_collision (hmac_outer key m) (hmac_outer key m'))"

lemma hmac_eq:
  assumes "hmac_sha256 key m = hmac_sha256 key m'"
  shows "m = m' \<or> hmac_collision key m m'"
proof -
  have "hmac_outer key m = hmac_outer key m' \<or> hmac_collision key m m'"
    using assms by (auto simp: hmac_texts hmac_collision_def sha256_collision_def)
  moreover have "m = m' \<or> sha256_collision (hmac_inner key m) (hmac_inner key m')" if "hmac_outer key m = hmac_outer key m'"
    using that by (auto simp: hmac_outer_def hmac_inner_def sha256_collision_def)
  ultimately show ?thesis by (auto simp: hmac_collision_def)
qed

section \<open>Records\<close>

lemma lifecycle_facts:
  "shape_names payload_shape" "shape_depth payload_shape \<le> max_nesting"
  "shape_names lifecycle_Record_shape" "shape_depth lifecycle_Record_shape \<le> max_nesting"
  by code_simp+

definition payload_document :: "lifecycle_Record \<Rightarrow> bytes" where
  "payload_document r = Marshal payload_shape (payload_value r)"

lemma payload_mac [simp]: "payload_document (r\<lparr>lc_MAC := m\<rparr>) = payload_document r"
  by (simp add: payload_document_def payload_value_def)

text \<open>The records that both sides work with.\<close>

definition lifecycle_ok :: "lifecycle_Record \<Rightarrow> bool" where
  "lifecycle_ok r = (lc_Schema r = lifecycle_Schema \<and> 0 \<le> lc_DurationNS r \<and> lc_DurationNS r \<le> 9007199254740991
     \<and> (lc_ExitStatus r = None) \<noteq> (lc_Signal r = None)
     \<and> (\<forall>n. lc_ExitStatus r = Some n \<longrightarrow> 0 \<le> n \<and> n \<le> 255) \<and> (\<forall>n. lc_Signal r = Some n \<longrightarrow> 1 \<le> n \<and> n \<le> 255))"

lemma validate_lifecycle:
  "lifecycle_validate r key b = Inr () \<Longrightarrow> lifecycle_ok r \<and> length key = 32"
  by (auto simp: lifecycle_validate_def lifecycle_ok_def result_simps split: if_splits option.splits)

lemma lifecycle_shaped:
  assumes "lifecycle_ok r"
  shows "shaped payload_shape (payload_value r)" "shaped lifecycle_Record_shape (lifecycle_Record_value r)"
  using assms
  by (auto simp: lifecycle_ok_def payload_shape_def payload_value_def lifecycle_Record_shape_def lifecycle_Record_value_def TInt64_def
      split: option.splits)

lemma Seal_lifecycle:
  "lifecycle_Seal r key = Inr s \<longleftrightarrow>
     lifecycle_validate r key False = Inr () \<and> s = r\<lparr>lc_MAC := hex_encode (hmac_sha256 key (payload_document r))\<rparr>"
  by (auto simp: lifecycle_Seal_def result_simps payload_document_def)

lemma validate_mac: "lifecycle_validate (r\<lparr>lc_MAC := m\<rparr>) key False = lifecycle_validate r key False"
  by (cases "lc_ExitStatus r"; cases "lc_Signal r") (simp_all add: lifecycle_validate_def)

lemma validate_sealed:
  assumes "lifecycle_Seal r key = Inr s"
  shows "lifecycle_validate s key True = Inr ()"
proof -
  have "hex_decodes (hex_encode x)" for x using hex_encode_lower [of x] by (auto simp: hex_decodes_def list_all_iff is_hex_def)
  then show ?thesis
    using assms unfolding Seal_lifecycle by (auto simp: lifecycle_validate_def result_simps split: if_splits option.splits)
qed

lemma lifecycle_read_Inr:
  assumes "lifecycle_read raw key failed = Inr r"
  obtains v where "Unmarshal True lifecycle_Record_shape raw = Some v" "r = lifecycle_Record_of v" "lifecycle_validate r key True = Inr ()"
    "lc_MAC r = hex_encode (hmac_sha256 key (payload_document r))"
proof -
  have "take (lifecycle_MaximumBytes + 1) raw = raw"
    using assms by (auto simp: lifecycle_read_def Let_def result_simps)
  then show thesis
    using assms that by (auto simp: lifecycle_read_def Let_def result_simps Seal_lifecycle split: option.splits sum.splits if_splits)
qed

lemma read_utf8:
  assumes "Unmarshal True lifecycle_Record_shape raw = Some v"
  shows "utf8_value (payload_value (lifecycle_Record_of v)) \<and> v = lifecycle_Record_value (lifecycle_Record_of v)"
  using Unmarshal_wf [OF assms]
  by (auto simp: lifecycle_Record_shape_def lifecycle_Record_of_def lifecycle_Record_value_def payload_value_def TInt64_def wf_simps split: option.splits)

section \<open>Documents\<close>

text \<open>The records that the helper writes: with times in UTC as \<^verbatim>\<open>time.Format\<close> prints them.\<close>

definition stamped :: "lifecycle_Record \<Rightarrow> bool" where
  "stamped r = (\<exists>a b. wf_time a \<and> t_offset a = 0 \<and> lc_StartedAt r = FormatRFC3339Nano a
     \<and> wf_time b \<and> t_offset b = 0 \<and> lc_FinishedAt r = FormatRFC3339Nano b)"

lemma schema_unbraced: "unbraced lifecycle_Schema"
  by code_simp

lemma stamped_sealed:
  assumes "stamped r" and "lifecycle_Seal r key = Inr s"
  shows "unbraced (lc_Schema s)" "unbraced (lc_StartedAt s)" "unbraced (lc_FinishedAt s)" "unbraced (lc_MAC s)"
    "length (lc_StartedAt s) \<le> 30" "length (lc_FinishedAt s) \<le> 30" "length (lc_MAC s) = 64" "lifecycle_ok s"
proof -
  have ok: "lifecycle_ok r" using assms(2) validate_lifecycle by (auto simp: Seal_lifecycle)
  then show "lifecycle_ok s" using assms(2) by (auto simp: Seal_lifecycle lifecycle_ok_def)
  show "unbraced (lc_Schema s)" using ok assms(2) schema_unbraced by (auto simp: Seal_lifecycle lifecycle_ok_def)
  show "unbraced (lc_StartedAt s)" "unbraced (lc_FinishedAt s)" "length (lc_StartedAt s) \<le> 30" "length (lc_FinishedAt s) \<le> 30"
    using assms by (auto simp: Seal_lifecycle stamped_def Format_unbraced length_Format)
  show "unbraced (lc_MAC s)" "length (lc_MAC s) = 64"
    using assms(2) by (auto simp: Seal_lifecycle lower_hex_unbraced hex_encode_lower)
qed

lemma unbraced_utf8:
  assumes "unbraced s"
  shows "ValidUTF8 s"
proof -
  have "is_ascii c" if "json_plain c" for c using that by (simp add: json_plain_def is_ascii_def)
  then have "list_all is_ascii s" using assms by (simp add: unbraced_def list_all_iff)
  then show ?thesis by (rule ValidUTF8_ascii)
qed

lemma sealed_utf8:
  assumes "stamped r" and "lifecycle_Seal r key = Inr s"
  shows "utf8_value (lifecycle_Record_value s)"
  using unbraced_utf8 [OF stamped_sealed(1) [OF assms]] unbraced_utf8 [OF stamped_sealed(2) [OF assms]]
    unbraced_utf8 [OF stamped_sealed(3) [OF assms]] unbraced_utf8 [OF stamped_sealed(4) [OF assms]]
  by (simp add: lifecycle_Record_value_def split: option.splits)

lemma sealed_document:
  assumes "stamped r" and "lifecycle_Seal r key = Inr s"
  obtains body where "Marshal lifecycle_Record_shape (lifecycle_Record_value s) = CHR ''{'' # body @ ''}''" "CHR ''}'' \<notin> set body"
proof -
  let ?member = "\<lambda>(k, v). json_quote True k @ '':'' @ json_encode True v"
  let ?ms = "case marshal lifecycle_Record_shape (lifecycle_Record_value s) of JObj ms \<Rightarrow> ms"
  have texts: "unbraced ''schema''" "unbraced ''started_at''" "unbraced ''finished_at''" "unbraced ''duration_ns''"
    "unbraced ''exit_status''" "unbraced ''signal''" "unbraced ''mac''" by code_simp+
  have "CHR ''}'' \<notin> set (?member m)" if "m \<in> set ?ms" for m
    using that unbraced_quote [OF texts(1), of True] unbraced_quote [OF texts(2), of True] unbraced_quote [OF texts(3), of True]
      unbraced_quote [OF texts(4), of True] unbraced_quote [OF texts(5), of True] unbraced_quote [OF texts(6), of True]
      unbraced_quote [OF texts(7), of True] unbraced_quote [OF stamped_sealed(1) [OF assms], of True]
      unbraced_quote [OF stamped_sealed(2) [OF assms], of True] unbraced_quote [OF stamped_sealed(3) [OF assms], of True]
      unbraced_quote [OF stamped_sealed(4) [OF assms], of True] Itoa_no_brace
    by (auto simp: lifecycle_Record_shape_def lifecycle_Record_value_def TInt64_def jint_def split: if_splits option.splits)
  then have "CHR ''}'' \<notin> \<Union> (set ` set (map ?member ?ms)) \<union> set '',''" by auto
  then have "CHR ''}'' \<notin> set (join_with '','' (map ?member ?ms))" using set_join_with [of "'',''" "map ?member ?ms"] by blast
  moreover have "Marshal lifecycle_Record_shape (lifecycle_Record_value s) = CHR ''{'' # join_with '','' (map ?member ?ms) @ ''}''"
    by (simp add: Marshal_def lifecycle_Record_shape_def lifecycle_Record_value_def)
  ultimately show thesis using that by blast
qed

lemma sealed_size:
  assumes "stamped r" and "lifecycle_Seal r key = Inr s"
  shows "length (Marshal lifecycle_Record_shape (lifecycle_Record_value s)) < lifecycle_MaximumBytes"
proof -
  have "length (Itoa n) \<le> 17" if "0 \<le> n" "n \<le> 255" for n using that length_Itoa_wire [of n] by simp
  then have "doc_size (TPtr TInt64) (VPtr (map_option VInt (lc_ExitStatus s))) \<le> 17" "doc_size (TPtr TInt64) (VPtr (map_option VInt (lc_Signal s))) \<le> 17"
    "length (Itoa (lc_DurationNS s)) \<le> 17" "length (lc_Schema s) \<le> 30"
    using stamped_sealed(8) [OF assms] length_Itoa_wire [of "lc_DurationNS s"]
    by (auto simp: lifecycle_ok_def lifecycle_Schema_def TInt64_def split: option.splits)
  then have "doc_size lifecycle_Record_shape (lifecycle_Record_value s) \<le> 4000"
    using stamped_sealed(5-7) [OF assms] by (simp add: lifecycle_Record_shape_def lifecycle_Record_value_def TInt64_def)
  then show ?thesis
    using length_marshal(1) [of True lifecycle_Record_shape "lifecycle_Record_value s"] by (simp add: Marshal_def lifecycle_MaximumBytes_def)
qed

text \<open>The document with or without its newline is read back; anything shorter is refused.\<close>

lemma sealed_read:
  assumes "stamped r" and "lifecycle_Seal r key = Inr s" and "ws = [] \<or> ws = [newline]"
  shows "lifecycle_read (Marshal lifecycle_Record_shape (lifecycle_Record_value s) @ ws) key False = Inr s"
proof -
  let ?raw = "Marshal lifecycle_Record_shape (lifecycle_Record_value s) @ ws"
  have short: "length ?raw \<le> lifecycle_MaximumBytes" using sealed_size [OF assms(1,2)] assms(3) by auto
  have "Unmarshal True lifecycle_Record_shape ?raw = Some (lifecycle_Record_value s)"
    using lifecycle_shaped(2) [OF stamped_sealed(8) [OF assms(1,2)]] sealed_utf8 [OF assms(1,2)] lifecycle_facts(3,4) assms(3)
    by (intro Unmarshal_Marshal) (auto simp: skip_ws_def)
  moreover have "lifecycle_Seal (s\<lparr>lc_MAC := []\<rparr>) key = Inr s"
    using assms(2) by (auto simp: Seal_lifecycle validate_mac)
  ultimately show ?thesis
    using short validate_sealed [OF assms(2)] by (simp add: lifecycle_read_def Let_def)
qed

lemma torn_read:
  assumes "stamped r" and "lifecycle_Seal r key = Inr s"
    and "lifecycle_read (take k (Marshal lifecycle_Record_shape (lifecycle_Record_value s) @ [newline])) key failed = Inr t"
  shows "t = s"
proof -
  let ?raw = "Marshal lifecycle_Record_shape (lifecycle_Record_value s)"
  obtain body where body: "?raw = CHR ''{'' # body @ ''}''" "CHR ''}'' \<notin> set body" by (rule sealed_document [OF assms(1,2)])
  have "\<not> failed" using assms(3) by (auto simp: lifecycle_read_def Let_def result_simps)
  moreover have "\<not> k \<le> Suc (length body)"
    using assms(3) torn_object [OF body(2), of k True lifecycle_Record_shape "''}'' @ [newline]"]
    by (auto elim!: lifecycle_read_Inr simp: body(1))
  then have "take k (?raw @ [newline]) = ?raw @ [] \<or> take k (?raw @ [newline]) = ?raw @ [newline]"
    by (auto simp: body(1) take_Cons' take_append)
  ultimately show ?thesis using assms(3) sealed_read [OF assms(1,2)] by (metis sum.inject(2))
qed

section \<open>Slots\<close>

lemma prepared_slot:
  assumes "Prepare path fresh failed s = (Inr i, s1)"
  shows "sl_entry s1 path = Some (SlotFile i) \<and> sl_data s1 i = []"
  using assms by (auto simp: Prepare_def create_file_def identityOf_def Let_def split: if_splits)

lemma written_slot:
  assumes "sl_entry s1 path = Some (SlotFile i)" and "sl_data s1 i = []" and "lifecycle_Seal r key = Inr t"
    and "WriteSlot path r key short s1 s1 = (res, s2)"
  obtains k where "sl_entry s2 path = Some (SlotFile i)" "short = None \<longrightarrow> res = Inr ()"
    "sl_data s2 i = take k (Marshal lifecycle_Record_shape (lifecycle_Record_value t) @ [newline])"
    "short = None \<longrightarrow> sl_data s2 i = Marshal lifecycle_Record_shape (lifecycle_Record_value t) @ [newline]"
proof -
  let ?raw = "Marshal lifecycle_Record_shape (lifecycle_Record_value t) @ [newline]"
  have "lifecycle_encode r key = Inr ?raw" using assms(3) by (simp add: lifecycle_encode_def)
  then show thesis
    using assms(1,2,4) that [of "case short of None \<Rightarrow> length ?raw | Some k \<Rightarrow> k"]
    by (auto simp: WriteSlot_def write_file_def Let_def split: option.splits)
qed

text \<open>
  C10: The lifecycle record of a target reaches the host whole or not at all. When the helper writes a valid record
  into the file that the host prepared, the host reads back exactly that record with its authentication code; when
  writing stops after any number of bytes, the host reads that record or refuses, and never a different one.
\<close>

theorem lifecycle_slot:
  assumes "Prepare path fresh failed s = (Inr i, s1)" and "lifecycle_validate r key False = Inr ()" and "stamped r"
    and "WriteSlot path r key short s1 s1 = (res, s2)"
  shows "\<exists>t. lifecycle_Seal r key = Inr t \<and> (short = None \<longrightarrow> res = Inr () \<and> ReadSlot path key i False s2 = Inr t)
    \<and> (\<forall>broken u. ReadSlot path key i broken s2 = Inr u \<longrightarrow> u = t)"
proof -
  obtain t where t: "lifecycle_Seal r key = Inr t" using assms(2) by (simp add: lifecycle_Seal_def)
  note slot = prepared_slot [OF assms(1)]
  obtain k where s2: "sl_entry s2 path = Some (SlotFile i)" "short = None \<longrightarrow> res = Inr ()"
    "sl_data s2 i = take k (Marshal lifecycle_Record_shape (lifecycle_Record_value t) @ [newline])"
    "short = None \<longrightarrow> sl_data s2 i = Marshal lifecycle_Record_shape (lifecycle_Record_value t) @ [newline]"
    by (rule written_slot [OF conjunct1 [OF slot] conjunct2 [OF slot] t assms(4)])
  have reading: "ReadSlot path key i broken s2 = lifecycle_read (sl_data s2 i) key broken" for broken
    using s2(1) by (simp add: ReadSlot_def identityOf_def)
  have "u = t" if "ReadSlot path key i broken s2 = Inr u" for broken u
    using that torn_read [OF assms(3) t] by (simp add: reading s2(3))
  moreover have "short = None \<longrightarrow> ReadSlot path key i False s2 = Inr t"
    using s2(4) sealed_read [OF assms(3) t] by (simp add: reading)
  ultimately show ?thesis using t s2(2) by blast
qed

definition demo_time :: gotime where
  "demo_time = \<lparr>t_year = 2026, t_month = 1, t_day = 2, t_hour = 3, t_minute = 4, t_second = 5, t_nanos = 0, t_offset = 0\<rparr>"

definition demo_record :: lifecycle_Record where
  "demo_record = \<lparr>lc_Schema = lifecycle_Schema, lc_StartedAt = FormatRFC3339Nano demo_time, lc_FinishedAt = FormatRFC3339Nano demo_time,
     lc_DurationNS = 7, lc_ExitStatus = Some 0, lc_Signal = None, lc_MAC = []\<rparr>"

definition demo_slots :: slots where
  "demo_slots = \<lparr>sl_entry = (\<lambda>_. None), sl_data = (\<lambda>_. [])\<rparr>"

definition demo_inode :: FileIdentity where
  "demo_inode = \<lparr>fid_Device = 1, fid_Inode = 2\<rparr>"

definition demo_key :: bytes where
  "demo_key = replicate 32 CHR ''k''"

lemma demo_time_wf: "wf_time demo_time" "t_offset demo_time = 0"
  by (simp_all add: wf_time_def demo_time_def days_in_def)

lemma demo_lifecycle:
  "Prepare ''slot'' demo_inode False demo_slots = (Inr demo_inode, create_file ''slot'' demo_inode demo_slots)"
  "lifecycle_validate demo_record demo_key False = Inr ()" "stamped demo_record"
proof -
  show "Prepare ''slot'' demo_inode False demo_slots = (Inr demo_inode, create_file ''slot'' demo_inode demo_slots)"
    by (simp add: Prepare_def demo_slots_def identityOf_def Let_def)
  have "ParseRFC3339Nano (FormatRFC3339Nano demo_time) = Some demo_time" using Parse_Format demo_time_wf by simp
  then show "lifecycle_validate demo_record demo_key False = Inr ()"
    by (simp add: lifecycle_validate_def demo_record_def demo_key_def Before_def)
  show "stamped demo_record" using demo_time_wf by (auto simp: stamped_def demo_record_def)
qed

theorem lifecycle_slot_witness:
  "\<exists>t res s2. WriteSlot ''slot'' demo_record demo_key None (create_file ''slot'' demo_inode demo_slots) (create_file ''slot'' demo_inode demo_slots) = (res, s2)
     \<and> lifecycle_Seal demo_record demo_key = Inr t \<and> res = Inr () \<and> ReadSlot ''slot'' demo_key demo_inode False s2 = Inr t"
proof -
  obtain res s2 where w: "WriteSlot ''slot'' demo_record demo_key None (create_file ''slot'' demo_inode demo_slots)
      (create_file ''slot'' demo_inode demo_slots) = (res, s2)" by force
  show ?thesis using lifecycle_slot [OF demo_lifecycle w] w by blast
qed

text \<open>
  C11: An accepted lifecycle record is authentic: it was read from the very file that the host prepared, it is
  valid, it carries the authentication code of its contents under the key of the host, and two accepted records with the
  same code are equal unless their contents exhibit a collision of SHA-256 inside HMAC.
\<close>

theorem lifecycle_authentic:
  assumes "ReadSlot path key i failed s = Inr r" and "ReadSlot path' key i' failed' s' = Inr r'"
  shows "sl_entry s path = Some (SlotFile i) \<and> lifecycle_validate r key True = Inr ()
    \<and> lc_MAC r = hex_encode (hmac_sha256 key (payload_document r))
    \<and> (lc_MAC r = lc_MAC r' \<longrightarrow> r = r' \<or> hmac_collision key (payload_document r) (payload_document r'))"
proof -
  have read: "sl_entry s path = Some (SlotFile i)" "lifecycle_read (sl_data s i) key failed = Inr r"
    using assms(1) by (auto simp: ReadSlot_def identityOf_def split: option.splits slot_entry.splits if_splits)
  have read': "lifecycle_read (sl_data s' i') key failed' = Inr r'"
    using assms(2) by (auto simp: ReadSlot_def identityOf_def split: option.splits slot_entry.splits if_splits)
  obtain v where v: "Unmarshal True lifecycle_Record_shape (sl_data s i) = Some v" "r = lifecycle_Record_of v"
    "lifecycle_validate r key True = Inr ()" "lc_MAC r = hex_encode (hmac_sha256 key (payload_document r))"
    by (rule lifecycle_read_Inr [OF read(2)])
  obtain v' where v': "Unmarshal True lifecycle_Record_shape (sl_data s' i') = Some v'" "r' = lifecycle_Record_of v'"
    "lifecycle_validate r' key True = Inr ()" "lc_MAC r' = hex_encode (hmac_sha256 key (payload_document r'))"
    by (rule lifecycle_read_Inr [OF read'])
  have "r = r' \<or> hmac_collision key (payload_document r) (payload_document r')" if mac: "lc_MAC r = lc_MAC r'"
  proof -
    have "payload_document r = payload_document r' \<or> hmac_collision key (payload_document r) (payload_document r')"
      using mac v(4) v'(4) hmac_eq hex_encode_inj by metis
    moreover have "r = r'" if "payload_document r = payload_document r'"
    proof -
      have "payload_value r = payload_value r'"
        using that Marshal_inj [OF lifecycle_shaped(1) _ lifecycle_shaped(1) _ lifecycle_facts(1,2), of r r'] read_utf8 [OF v(1)] read_utf8 [OF v'(1)]
          validate_lifecycle [OF v(3)] validate_lifecycle [OF v'(3)] v(2) v'(2)
        by (simp add: payload_document_def)
      moreover have "map_option VInt a = map_option VInt b \<Longrightarrow> a = b" for a b by (cases a; cases b) simp_all
      ultimately show ?thesis using mac by (cases r; cases r') (simp add: payload_value_def)
    qed
    ultimately show ?thesis by blast
  qed
  then show ?thesis using read(1) v(3,4) by blast
qed

theorem lifecycle_authentic_witness:
  "\<exists>s r. ReadSlot ''slot'' demo_key demo_inode False s = Inr r \<and> lc_MAC r = hex_encode (hmac_sha256 demo_key (payload_document r))"
proof -
  obtain res s2 where w: "WriteSlot ''slot'' demo_record demo_key None (create_file ''slot'' demo_inode demo_slots)
      (create_file ''slot'' demo_inode demo_slots) = (res, s2)" by force
  obtain t where t: "lifecycle_Seal demo_record demo_key = Inr t" using demo_lifecycle(2) by (simp add: lifecycle_Seal_def)
  note slot = prepared_slot [OF demo_lifecycle(1)]
  obtain k where s2: "sl_entry s2 ''slot'' = Some (SlotFile demo_inode)"
    "sl_data s2 demo_inode = Marshal lifecycle_Record_shape (lifecycle_Record_value t) @ [newline]"
    by (rule written_slot [OF conjunct1 [OF slot] conjunct2 [OF slot] t w]) simp
  then have "ReadSlot ''slot'' demo_key demo_inode False s2 = Inr t"
    using sealed_read [OF demo_lifecycle(3) t] by (simp add: ReadSlot_def identityOf_def)
  then show ?thesis using lifecycle_authentic by blast
qed

end
