(* ===== verification/Backend.thy ===== *)
theory Backend
  imports Plan_Build History
begin

text \<open>
  The container runtime as the program uses it (\<^verbatim>\<open>internal/backend/backend.go\<close>): the exact command line that
  creates a container, the texts of \<^verbatim>\<open>/proc\<close> it reads, and the verification of what the runtime reports about a
  container. Running \<^verbatim>\<open>podman\<close> itself is left to the components that use it.
\<close>

datatype backend_error =
    BackendRefused bytes
  | BackendPath bytes

type_synonym 'a backend_result = "backend_error + 'a"

text \<open>Signed 64-bit arithmetic wraps.\<close>

definition wrap_int64 :: "int \<Rightarrow> int" where
  "wrap_int64 n = (n + 2 ^ 63) mod 2 ^ 64 - 2 ^ 63"

section \<open>Creating a container\<close>

record Mount =
  mt_Source :: bytes
  mt_Target :: bytes
  mt_Mode :: bytes
  mt_NoExec :: bool

definition ContainerName :: "bytes \<Rightarrow> int \<Rightarrow> bytes" where
  "ContainerName world generation = ''kenogram-'' @ world @ ''-g'' @ Itoa generation"

definition mount_argument :: "Mount \<Rightarrow> bytes" where
  "mount_argument m =
     (let options = mt_Mode m @ '',nodev,nosuid'' @ (if mt_NoExec m then '',noexec'' else [])
      in ''type=bind,src='' @ mt_Source m @ '',dst='' @ mt_Target m @ '','' @ options)"

fun mount_arguments :: "Mount list \<Rightarrow> bytes list backend_result" where
  "mount_arguments [] = Inr []"
| "mount_arguments (m # ms) =
     bind_result (require (mountpath_Validate (mt_Source m)) (BackendPath (mt_Source m))) (\<lambda>_.
     bind_result (require (mountpath_Validate (mt_Target m)) (BackendPath (mt_Target m))) (\<lambda>_.
     bind_result (mount_arguments ms) (\<lambda>rest. Inr (''--mount'' # mount_argument m # rest))))"

text \<open>
  The command line of \<^verbatim>\<open>podman create\<close>. The labels are a map, given as its entries; \<open>governed\<close> is the flag
  \<^verbatim>\<open>returnID\<close> that distinguishes jobs from worlds.
\<close>

definition create_options :: "bytes \<Rightarrow> plan_Result \<Rightarrow> int \<Rightarrow> (bytes \<times> bytes) list \<Rightarrow> bool \<Rightarrow> bytes list" where
  "create_options name result generation labels governed =
     (let p = rs_Plan result; world = pl_World p; resources = pl_Resources p in
      [''create'', ''--name'', name, ''--network'', ''none'', ''--ipc'', ''private'', ''--pid'', ''private'', ''--uts'', ''private'',
       ''--userns'', ''keep-id'', ''--image-volume'', ''ignore'', ''--hostname'', pw_Hostname world, ''--user'', pw_User world,
       ''--workdir'', pw_Workdir world, ''--cpus'', Itoa (pr_CPUs resources), ''--memory'', Itoa (pr_MemoryBytes resources),
       ''--pids-limit'', Itoa (pr_PIDs resources), ''--cap-drop'', ''ALL'', ''--security-opt'', ''no-new-privileges'',
       ''--label'', ''io.kenogram.world='' @ pl_Name p, ''--label'', ''io.kenogram.generation='' @ Itoa generation,
       ''--label'', ''io.kenogram.plan-digest='' @ rs_PlanDigest result,
       ''--label'', ''io.kenogram.declaration-digest='' @ rs_DeclarationDigest result]
      @ (if governed then [] else [''--env'', ''NO_PROXY=localhost,127.0.0.1''])
      @ concat (map (\<lambda>(k, v). [''--label'', k @ ''='' @ v]) (sort_key fst labels))
      @ (if elems (pl_NetworkAllow p) \<noteq> [] \<and> \<not> governed
         then [''--env'', ''HTTP_PROXY=http://127.0.0.1:3128'', ''--env'', ''HTTPS_PROXY=http://127.0.0.1:3128''] else []))"

definition create_arguments :: "bytes \<Rightarrow> plan_Result \<Rightarrow> int \<Rightarrow> Mount list \<Rightarrow> (bytes \<times> bytes) list \<Rightarrow> bytes \<Rightarrow> bytes list \<Rightarrow> bool
    \<Rightarrow> bytes list backend_result" where
  "create_arguments name result generation mounts labels entrypoint command governed =
     bind_result (mount_arguments mounts) (\<lambda>bound.
     Inr (create_options name result generation labels governed @ bound
       @ [''--entrypoint'', entrypoint, ''--'', pw_Base (pl_World (rs_Plan result))] @ command))"

definition CreateNamedWithLabels :: "bytes \<Rightarrow> plan_Result \<Rightarrow> int \<Rightarrow> Mount list \<Rightarrow> (bytes \<times> bytes) list \<Rightarrow> bytes list backend_result" where
  "CreateNamedWithLabels name result generation mounts labels =
     create_arguments name result generation mounts labels ''/usr/bin/tail'' [''-f'', ''/dev/null''] False"

definition CreateGovernedJob :: "bytes \<Rightarrow> plan_Result \<Rightarrow> int \<Rightarrow> Mount list \<Rightarrow> (bytes \<times> bytes) list \<Rightarrow> bytes \<Rightarrow> bytes list backend_result" where
  "CreateGovernedJob name result generation mounts labels helperPath =
     bind_result (require (\<not> (\<not> IsAbs helperPath \<or> Clean helperPath \<noteq> helperPath)) (BackendPath helperPath)) (\<lambda>_.
     create_arguments name result generation mounts labels helperPath [''_job-hold''] True)"

text \<open>The answer of the runtime: a job needs the full identifier, a world keeps its name.\<close>

definition created_name :: "bytes \<Rightarrow> bool \<Rightarrow> bytes \<Rightarrow> bytes backend_result" where
  "created_name name governed raw =
     (if governed then
        (let i = TrimSpace raw in
         bind_result (require (length i = 64) (BackendRefused ''podman create did not return an immutable container ID'')) (\<lambda>_.
         bind_result (require (list_all is_lower_hex i) (BackendRefused ''podman create returned an invalid container ID'')) (\<lambda>_. Inr i)))
      else Inr name)"

definition CanonicalImageID :: "bytes \<Rightarrow> bytes backend_result" where
  "CanonicalImageID value =
     (let d = TrimPrefix value ''sha256:'' in
      if length d \<noteq> 64 \<or> \<not> list_all is_lower_hex d then Inl (BackendRefused ''Podman image ID is not a canonical sha256 digest'')
      else Inr (''sha256:'' @ d))"

section \<open>Texts of /proc\<close>

record IDMap =
  id_ContainerID :: int
  id_HostID :: int
  id_Size :: int

text \<open>\<^verbatim>\<open>strings.Fields\<close> on the ASCII texts of the kernel: the maximal runs without white space.\<close>

fun fields_loop :: "bytes \<Rightarrow> bytes \<Rightarrow> bytes list" where
  "fields_loop [] acc = (if acc = [] then [] else [acc])"
| "fields_loop (c # s) acc =
     (if IsSpace (byte c) then (if acc = [] then fields_loop s [] else acc # fields_loop s []) else fields_loop s (acc @ [c]))"

definition Fields :: "bytes \<Rightarrow> bytes list" where
  "Fields s = fields_loop s []"

definition parse_id_line :: "bytes \<Rightarrow> IDMap backend_result" where
  "parse_id_line line =
     (case map Atoi (Fields line) of
        [c, h, n] \<Rightarrow>
          (case (c, h, n) of
             (Some c', Some h', Some n') \<Rightarrow>
               if c' < 0 \<or> h' < 0 \<or> n' < 0 then Inl (BackendRefused ''invalid ID mapping value'')
               else if n' \<le> 0 then Inl (BackendRefused ''invalid ID mapping size'')
               else Inr \<lparr>id_ContainerID = c', id_HostID = h', id_Size = n'\<rparr>
           | _ \<Rightarrow> Inl (BackendRefused ''invalid ID mapping value''))
      | _ \<Rightarrow> Inl (BackendRefused ''invalid ID mapping line''))"

definition parseIDMap :: "bytes \<Rightarrow> IDMap list backend_result" where
  "parseIDMap raw = map_result parse_id_line (split_on newline (TrimSpace raw))"

text \<open>The value of the first line with a given name.\<close>

definition proc_field :: "bytes \<Rightarrow> bytes \<Rightarrow> bytes option" where
  "proc_field name raw = map_option (\<lambda>line. TrimSpace (TrimPrefix line name)) (find (\<lambda>line. HasPrefix line name) (split_on newline raw))"

definition parseProcBoundingCaps :: "bytes \<Rightarrow> bytes list backend_result" where
  "parseProcBoundingCaps raw =
     (case proc_field ''CapBnd:'' raw of
        None \<Rightarrow> Inl (BackendRefused ''capability bounding set is absent'')
      | Some value \<Rightarrow>
          if value = [] then Inl (BackendRefused ''empty capability bounding set'')
          else if \<not> list_all is_hex value then Inl (BackendRefused ''invalid capability bounding set'')
          else if list_all (\<lambda>c. c = CHR ''0'') value then Inr []
          else Inr [map lower_ascii value])"

definition parseProcSeccomp :: "bytes \<Rightarrow> int backend_result" where
  "parseProcSeccomp raw =
     (case proc_field ''Seccomp:'' raw of
        None \<Rightarrow> Inl (BackendRefused ''seccomp mode is absent'')
      | Some value \<Rightarrow>
          (case Atoi value of
             None \<Rightarrow> Inl (BackendRefused ''invalid seccomp mode'')
           | Some n \<Rightarrow> if n < 0 \<or> n > 2 then Inl (BackendRefused ''invalid seccomp mode'') else Inr n))"

section \<open>Verifying a container\<close>

record EvidenceMount =
  em_Source :: bytes
  em_Destination :: bytes
  em_RW :: bool
  em_Mode :: bytes
  em_Options :: "bytes list option"
  em_IdentityVerified :: bool

record Evidence =
  ev_ID :: bytes
  ev_Name :: bytes
  ev_Running :: bool
  ev_PID :: int
  ev_ProcessStart :: bytes
  ev_ImageReference :: bytes
  ev_ImageDigest :: bytes
  ev_NetworkMode :: bytes
  ev_IPCMode :: bytes
  ev_IPCIsolatedFromHost :: bool
  ev_PIDMode :: bytes
  ev_UTSMode :: bytes
  ev_UserNSMode :: bytes
  ev_User :: bytes
  ev_Hostname :: bytes
  ev_WorkingDir :: bytes
  ev_CapDrop :: "bytes list option"
  ev_BoundingCaps :: "bytes list option"
  ev_SecurityOpt :: "bytes list option"
  ev_SeccompMode :: int
  ev_Devices :: int
  ev_UIDMap :: "IDMap list option"
  ev_GIDMap :: "IDMap list option"
  ev_Labels :: "bytes \<Rightarrow> bytes option"
  ev_Mounts :: "EvidenceMount list option"
  ev_Memory :: int
  ev_NanoCPUs :: int
  ev_PIDs :: int

text \<open>What the process knows of itself and of the host's files.\<close>

record host_view =
  hv_uid :: int
  hv_gid :: int
  hv_eval :: "bytes \<Rightarrow> bytes option"
  hv_lower :: "bytes \<Rightarrow> bytes"

definition canonicalHostPath :: "host_view \<Rightarrow> bytes \<Rightarrow> bytes" where
  "canonicalHostPath h path =
     (let clean = Clean path in case hv_eval h clean of Some evaluated \<Rightarrow> Clean evaluated | None \<Rightarrow> clean)"

definition mapsIdentity :: "IDMap list \<Rightarrow> int \<Rightarrow> bool" where
  "mapsIdentity mappings i =
     list_ex (\<lambda>m. id_Size m > 0 \<and> i \<ge> id_HostID m \<and> i < wrap_int64 (id_HostID m + id_Size m)
       \<and> wrap_int64 (wrap_int64 (id_ContainerID m + i) - id_HostID m) = i) mappings"

definition mountHasOption :: "EvidenceMount \<Rightarrow> bytes \<Rightarrow> bool" where
  "mountHasOption m opt =
     list_ex (\<lambda>value. list_ex (\<lambda>f. EqualFold (TrimSpace f) opt) (split_on CHR '','' value)) (em_Mode m # elems (em_Options m))"

definition containsPrefixFold :: "host_view \<Rightarrow> bytes list \<Rightarrow> bytes \<Rightarrow> bool" where
  "containsPrefixFold h values start = list_ex (\<lambda>value. HasPrefix (ToLower (hv_lower h) value) (ToLower (hv_lower h) start)) values"

definition label :: "Evidence \<Rightarrow> bytes \<Rightarrow> bytes" where
  "label e k = (case ev_Labels e k of None \<Rightarrow> [] | Some v \<Rightarrow> v)"

fun collect_targets :: "host_view \<Rightarrow> (bytes \<times> EvidenceMount) list \<Rightarrow> EvidenceMount list \<Rightarrow> (bytes \<times> EvidenceMount) list backend_result" where
  "collect_targets h targets [] = Inr targets"
| "collect_targets h targets (m # ms) =
     (if map_of targets (em_Destination m) \<noteq> None then Inl (BackendPath (em_Destination m))
      else let lower = ToLower (hv_lower h) (em_Source m @ '' '' @ em_Destination m) in
        if Contains lower ''podman.sock'' \<or> Contains lower ''docker.sock'' then Inl (BackendPath (em_Destination m))
        else collect_targets h ((em_Destination m, m) # targets) ms)"

definition check_expected :: "host_view \<Rightarrow> (bytes \<times> EvidenceMount) list \<Rightarrow> Mount \<Rightarrow> unit backend_result" where
  "check_expected h targets m =
     (case map_of targets (mt_Target m) of
        None \<Rightarrow> Inl (BackendPath (mt_Target m))
      | Some e \<Rightarrow>
          require (canonicalHostPath h (em_Source e) = canonicalHostPath h (mt_Source m) \<and> em_RW e = (mt_Mode m = ''rw'') \<and> em_IdentityVerified e
              \<and> mountHasOption e ''nodev'' \<and> mountHasOption e ''nosuid'' \<and> (mt_NoExec m \<longrightarrow> mountHasOption e ''noexec''))
            (BackendPath (mt_Target m)))"

definition VerifyNamed :: "host_view \<Rightarrow> Evidence \<Rightarrow> plan_Result \<Rightarrow> int \<Rightarrow> bytes \<Rightarrow> Mount list \<Rightarrow> unit backend_result" where
  "VerifyNamed h e result generation expectedName expectedMounts =
     (let p = rs_Plan result; world = pl_World p; resources = pl_Resources p in
      bind_result (require (ev_Running e) (BackendRefused ''container is not running'')) (\<lambda>_.
      bind_result (require (ev_NetworkMode e = ''none'') (BackendRefused ''network mode'')) (\<lambda>_.
      bind_result (require (\<not> ((ev_IPCMode e \<noteq> ''private'' \<and> ev_IPCMode e \<noteq> ''shareable'') \<or> \<not> ev_IPCIsolatedFromHost e
          \<or> ev_PIDMode e \<noteq> ''private'' \<or> ev_UTSMode e \<noteq> ''private'')) (BackendRefused ''namespace evidence mismatch'')) (\<lambda>_.
      bind_result (require (\<not> (ev_UserNSMode e = ''host'' \<or> \<not> mapsIdentity (elems (ev_UIDMap e)) (hv_uid h)
          \<or> \<not> mapsIdentity (elems (ev_GIDMap e)) (hv_gid h))) (BackendRefused ''keep-id mapping evidence missing'')) (\<lambda>_.
      bind_result (require (ev_User e = pw_User world) (BackendRefused ''runtime user'')) (\<lambda>_.
      bind_result (require (\<not> (ev_Hostname e \<noteq> pw_Hostname world \<or> ev_WorkingDir e \<noteq> pw_Workdir world))
        (BackendRefused ''hostname/workdir evidence mismatch'')) (\<lambda>_.
      bind_result (require (ev_BoundingCaps e = Some []) (BackendRefused ''capability bounding set is not observably empty'')) (\<lambda>_.
      bind_result (require (containsPrefixFold h (elems (ev_SecurityOpt e)) ''no-new-privileges'')
        (BackendRefused ''no-new-privileges evidence missing'')) (\<lambda>_.
      bind_result (require (\<not> containsPrefixFold h (elems (ev_SecurityOpt e)) ''seccomp=unconfined'') (BackendRefused ''unconfined seccomp evidence'')) (\<lambda>_.
      bind_result (require (ev_SeccompMode e = 2) (BackendRefused ''seccomp filtering is not active'')) (\<lambda>_.
      bind_result (require (ev_Devices e = 0) (BackendRefused ''unexpected device mappings'')) (\<lambda>_.
      bind_result (require (ev_Name e = expectedName) (BackendRefused ''container name'')) (\<lambda>_.
      bind_result (require (label e ''io.kenogram.world'' = pl_Name p \<and> label e ''io.kenogram.generation'' = Itoa generation
          \<and> label e ''io.kenogram.plan-digest'' = rs_PlanDigest result \<and> label e ''io.kenogram.declaration-digest'' = rs_DeclarationDigest result)
        (BackendRefused ''label mismatch'')) (\<lambda>_.
      bind_result (require (\<not> (ev_Memory e \<noteq> pr_MemoryBytes resources \<or> ev_PIDs e \<noteq> pr_PIDs resources))
        (BackendRefused ''resource evidence mismatch'')) (\<lambda>_.
      bind_result (require (ev_NanoCPUs e = wrap_int64 (pr_CPUs resources * 1000000000)) (BackendRefused ''cpu evidence mismatch'')) (\<lambda>_.
      bind_result (collect_targets h [] (elems (ev_Mounts e))) (\<lambda>targets.
      bind_result (require (length targets = length expectedMounts) (BackendRefused ''runtime mount count'')) (\<lambda>_.
      for_each (check_expected h targets) expectedMounts))))))))))))))))))"

definition backend_Verify :: "host_view \<Rightarrow> Evidence \<Rightarrow> plan_Result \<Rightarrow> int \<Rightarrow> Mount list \<Rightarrow> unit backend_result" where
  "backend_Verify h e result generation expectedMounts =
     VerifyNamed h e result generation (ContainerName (pl_Name (rs_Plan result)) generation) expectedMounts"

section \<open>The command line\<close>

lemma mount_fields:
  assumes "mountpath_Validate (mt_Source m)" and "mountpath_Validate (mt_Target m)" and "mt_Mode m \<in> {''rw'', ''ro''}"
  shows "split_on CHR '','' (mount_argument m) =
    [''type=bind'', ''src='' @ mt_Source m, ''dst='' @ mt_Target m, mt_Mode m, ''nodev'', ''nosuid''] @ (if mt_NoExec m then [''noexec''] else [])"
proof -
  let ?fields = "[''type=bind'', ''src='' @ mt_Source m, ''dst='' @ mt_Target m, mt_Mode m, ''nodev'', ''nosuid''] @ (if mt_NoExec m then [''noexec''] else [])"
  have "CHR '','' \<notin> set (mt_Source m)" "CHR '','' \<notin> set (mt_Target m)" "CHR '','' \<notin> set (mt_Mode m)"
    using assms by (auto simp: mountpath_iff mount_meta_def)
  then have "\<forall>f\<in>set ?fields. CHR '','' \<notin> set f" by simp
  then have "split_on CHR '','' (join_with '','' ?fields) = ?fields" by (intro split_join) simp_all
  moreover have "mount_argument m = join_with '','' ?fields" by (simp add: mount_argument_def)
  ultimately show ?thesis by simp
qed

lemma mount_arguments_Inr:
  "mount_arguments ms = Inr args \<longleftrightarrow>
     (\<forall>m\<in>set ms. mountpath_Validate (mt_Source m) \<and> mountpath_Validate (mt_Target m))
     \<and> args = concat (map (\<lambda>m. [''--mount'', mount_argument m]) ms)"
  by (induction ms arbitrary: args) (auto simp: result_simps)

text \<open>
  How \<^verbatim>\<open>podman create\<close> reads its arguments: an option takes the argument after it, whatever it is, until two dashes stand in the place of an option;
  then follow the image and its command.
\<close>

fun read_options :: "bytes list \<Rightarrow> ((bytes \<times> bytes) list \<times> bytes list) option" where
  "read_options (k # rest) =
     (if k = ''--'' then Some ([], rest)
      else case rest of [] \<Rightarrow> None | v # later \<Rightarrow> map_option (\<lambda>(opts, tail). ((k, v) # opts, tail)) (read_options later))"
| "read_options [] = None"

definition option_values :: "(bytes \<times> bytes) list \<Rightarrow> bytes \<Rightarrow> bytes list" where
  "option_values opts k = map snd (filter (\<lambda>x. fst x = k) opts)"

text \<open>The options that may occur once, with the value that each of them has.\<close>

definition single_options :: "bytes \<Rightarrow> plan_Result \<Rightarrow> bytes \<Rightarrow> (bytes \<times> bytes) list" where
  "single_options name result entrypoint =
     [(''--name'', name), (''--network'', ''none''), (''--ipc'', ''private''), (''--pid'', ''private''), (''--uts'', ''private''), (''--userns'', ''keep-id''),
      (''--image-volume'', ''ignore''), (''--cap-drop'', ''ALL''), (''--security-opt'', ''no-new-privileges''),
      (''--hostname'', pw_Hostname (pl_World (rs_Plan result))), (''--user'', pw_User (pl_World (rs_Plan result))),
      (''--workdir'', pw_Workdir (pl_World (rs_Plan result))), (''--cpus'', Itoa (pr_CPUs (pl_Resources (rs_Plan result)))),
      (''--memory'', Itoa (pr_MemoryBytes (pl_Resources (rs_Plan result)))), (''--pids-limit'', Itoa (pr_PIDs (pl_Resources (rs_Plan result)))),
      (''--entrypoint'', entrypoint)]"

text \<open>What the runtime is told: nothing but these options, the labels, the environment and the mounts, then the image and the holder.\<close>

definition confined_command :: "bytes \<Rightarrow> plan_Result \<Rightarrow> int \<Rightarrow> Mount list \<Rightarrow> (bytes \<times> bytes) list \<Rightarrow> bytes \<Rightarrow> bytes list \<Rightarrow> bytes list \<Rightarrow> bytes list \<Rightarrow> bool" where
  "confined_command name result generation mounts labels entrypoint holder environment args =
     (\<exists>opts. hd args = ''create'' \<and> read_options (tl args) = Some (opts, pw_Base (pl_World (rs_Plan result)) # holder)
       \<and> (\<forall>(k, v)\<in>set (single_options name result entrypoint). option_values opts k = [v])
       \<and> fst ` set opts \<subseteq> fst ` set (single_options name result entrypoint) \<union> {''--label'', ''--env'', ''--mount''}
       \<and> option_values opts ''--env'' = environment
       \<and> option_values opts ''--label'' = [''io.kenogram.world='' @ pl_Name (rs_Plan result), ''io.kenogram.generation='' @ Itoa generation,
            ''io.kenogram.plan-digest='' @ rs_PlanDigest result, ''io.kenogram.declaration-digest='' @ rs_DeclarationDigest result]
            @ map (\<lambda>(k, v). k @ ''='' @ v) (sort_key fst labels)
       \<and> map (split_on CHR '','') (option_values opts ''--mount'') =
            map (\<lambda>m. [''type=bind'', ''src='' @ mt_Source m, ''dst='' @ mt_Target m, mt_Mode m, ''nodev'', ''nosuid''] @ (if mt_NoExec m then [''noexec''] else [])) mounts)"

lemma read_pairs:
  "(\<forall>x\<in>set opts. fst x \<noteq> ''--'') \<Longrightarrow> read_options (concat (map (\<lambda>(k, v). [k, v]) opts) @ ''--'' # rest) = Some (opts, rest)"
  by (induction opts) auto

lemma option_values_append [simp]: "option_values (xs @ ys) k = option_values xs k @ option_values ys k" "option_values [] k = []"
  "option_values (map (\<lambda>x. (k', f x)) zs) k = (if k = k' then map f zs else [])" "option_values ((k', v) # xs) k = (if k = k' then v # option_values xs k else option_values xs k)"
  by (auto simp: option_values_def filter_map comp_def)

lemma create_confined_command:
  assumes "create_arguments name result generation mounts labels entrypoint command governed = Inr args"
    and "\<forall>m\<in>set mounts. mt_Mode m \<in> {''rw'', ''ro''}"
  shows "confined_command name result generation mounts labels entrypoint command
    (if governed then [] else ''NO_PROXY=localhost,127.0.0.1'' # (if elems (pl_NetworkAllow (rs_Plan result)) \<noteq> []
       then [''HTTP_PROXY=http://127.0.0.1:3128'', ''HTTPS_PROXY=http://127.0.0.1:3128''] else [])) args"
proof -
  let ?p = "rs_Plan result"
  let ?fields = "\<lambda>m. [''type=bind'', ''src='' @ mt_Source m, ''dst='' @ mt_Target m, mt_Mode m, ''nodev'', ''nosuid''] @ (if mt_NoExec m then [''noexec''] else [])"
  define opts where "opts =
    [(''--name'', name), (''--network'', ''none''), (''--ipc'', ''private''), (''--pid'', ''private''), (''--uts'', ''private''),
     (''--userns'', ''keep-id''), (''--image-volume'', ''ignore''), (''--hostname'', pw_Hostname (pl_World ?p)), (''--user'', pw_User (pl_World ?p)),
     (''--workdir'', pw_Workdir (pl_World ?p)), (''--cpus'', Itoa (pr_CPUs (pl_Resources ?p))), (''--memory'', Itoa (pr_MemoryBytes (pl_Resources ?p))),
     (''--pids-limit'', Itoa (pr_PIDs (pl_Resources ?p))), (''--cap-drop'', ''ALL''), (''--security-opt'', ''no-new-privileges''),
     (''--label'', ''io.kenogram.world='' @ pl_Name ?p), (''--label'', ''io.kenogram.generation='' @ Itoa generation),
     (''--label'', ''io.kenogram.plan-digest='' @ rs_PlanDigest result), (''--label'', ''io.kenogram.declaration-digest='' @ rs_DeclarationDigest result)]
    @ (if governed then [] else [(''--env'', ''NO_PROXY=localhost,127.0.0.1'')])
    @ map (\<lambda>x. (''--label'', fst x @ ''='' @ snd x)) (sort_key fst labels)
    @ (if elems (pl_NetworkAllow ?p) \<noteq> [] \<and> \<not> governed then [(''--env'', ''HTTP_PROXY=http://127.0.0.1:3128''), (''--env'', ''HTTPS_PROXY=http://127.0.0.1:3128'')] else [])
    @ map (\<lambda>m. (''--mount'', mount_argument m)) mounts @ [(''--entrypoint'', entrypoint)]"
  have valid: "\<forall>m\<in>set mounts. mountpath_Validate (mt_Source m) \<and> mountpath_Validate (mt_Target m)"
    and args: "args = create_options name result generation labels governed @ concat (map (\<lambda>m. [''--mount'', mount_argument m]) mounts)
      @ [''--entrypoint'', entrypoint, ''--'', pw_Base (pl_World ?p)] @ command"
    using assms(1) by (auto simp: create_arguments_def result_simps mount_arguments_Inr)
  have labels: "(\<lambda>(k, v). [''--label'', k @ CHR ''='' # v]) = (\<lambda>x. [''--label'', fst x @ CHR ''='' # snd x])" by auto
  have "args = ''create'' # concat (map (\<lambda>(k, v). [k, v]) opts) @ ''--'' # pw_Base (pl_World ?p) # command"
    by (simp add: args create_options_def Let_def opts_def comp_def labels)
  moreover have "\<forall>x\<in>set opts. fst x \<noteq> ''--''" by (auto simp: opts_def)
  ultimately have reads: "hd args = ''create''" "read_options (tl args) = Some (opts, pw_Base (pl_World ?p) # command)" by (simp_all add: read_pairs)
  have "fst ` set opts \<subseteq> fst ` set (single_options name result entrypoint) \<union> {''--label'', ''--env'', ''--mount''}"
    by (auto simp: opts_def single_options_def)
  moreover have "\<forall>(k, v)\<in>set (single_options name result entrypoint). option_values opts k = [v]"
    by (simp add: single_options_def opts_def)
  moreover have "option_values opts ''--mount'' = map mount_argument mounts" by (simp add: opts_def)
  then have "map (split_on CHR '','') (option_values opts ''--mount'') = map ?fields mounts" using valid assms(2) mount_fields by auto
  ultimately show ?thesis unfolding confined_command_def using reads by (intro exI [of _ opts]) (auto simp: opts_def case_prod_beta)
qed

text \<open>
  C8: What \<^verbatim>\<open>podman create\<close> reads from the command line cannot be bent by a declaration or a label. Every confining option (no network, private namespaces, kept
  user identity, no capabilities, no new privileges, no image volumes) occurs exactly once with its fixed value, and the identity, the
  limits and the entry point occur once with the values of the plan; there are no other options than the labels, the environment
  of the proxy and the mounts; every mount has exactly the fields of its source, target, mode and restrictions; and the container runs the
  inert holder of a world or, for a job, the absolute helper, on the base image of the plan.
\<close>

theorem create_confined:
  assumes "\<forall>m\<in>set mounts. mt_Mode m \<in> {''rw'', ''ro''}"
  shows "(CreateNamedWithLabels name result generation mounts labels = Inr args \<longrightarrow>
      confined_command name result generation mounts labels ''/usr/bin/tail'' [''-f'', ''/dev/null'']
        (''NO_PROXY=localhost,127.0.0.1'' # (if elems (pl_NetworkAllow (rs_Plan result)) \<noteq> []
          then [''HTTP_PROXY=http://127.0.0.1:3128'', ''HTTPS_PROXY=http://127.0.0.1:3128''] else [])) args)
    \<and> (CreateGovernedJob name result generation mounts labels helper = Inr args \<longrightarrow>
      IsAbs helper \<and> Clean helper = helper \<and> confined_command name result generation mounts labels helper [''_job-hold''] [] args)"
  using create_confined_command [where governed = False] create_confined_command [where governed = True] assms
  unfolding CreateNamedWithLabels_def CreateGovernedJob_def by (fastforce simp: result_simps)

definition demo_mount :: Mount where
  "demo_mount = \<lparr>mt_Source = ''/srv/data'', mt_Target = ''/data'', mt_Mode = ''ro'', mt_NoExec = False\<rparr>"

definition demo_plan :: plan_Result where
  "demo_plan = \<lparr>rs_PlanDigest = ''p'', rs_EvidenceDigest = ''e'', rs_DeclarationDigest = ''d'', rs_SourceAnchor = [], rs_Warnings = None,
     rs_Plan = \<lparr>pl_Version = 1, pl_Name = ''w'', pl_AllowUnpinned = False,
       pl_World = \<lparr>pw_Hostname = ''w'', pw_Base = ''base'', pw_Workdir = ''/'', pw_User = ''user''\<rparr>,
       pl_Resources = \<lparr>pr_CPUs = 1, pr_MemoryBytes = 1, pr_PIDs = 1\<rparr>, pl_Workspace = None, pl_Copies = None, pl_Mounts = None,
       pl_NetworkAllow = None, pl_Interfaces = None, pl_Services = None\<rparr>\<rparr>"

lemma demo_mount_paths: "mountpath_Validate ''/srv/data''" "mountpath_Validate ''/data''"
  by code_simp+

theorem create_confined_witness:
  "\<exists>args. CreateNamedWithLabels ''n'' demo_plan 1 [demo_mount] [(''k'', ''v'')] = Inr args
     \<and> confined_command ''n'' demo_plan 1 [demo_mount] [(''k'', ''v'')] ''/usr/bin/tail'' [''-f'', ''/dev/null''] [''NO_PROXY=localhost,127.0.0.1''] args"
proof -
  have "mount_arguments [demo_mount] = Inr [''--mount'', mount_argument demo_mount]"
    using demo_mount_paths by (simp add: demo_mount_def)
  then obtain args where args: "CreateNamedWithLabels ''n'' demo_plan 1 [demo_mount] [(''k'', ''v'')] = Inr args"
    by (simp add: CreateNamedWithLabels_def create_arguments_def)
  have "\<forall>m\<in>set [demo_mount]. mt_Mode m \<in> {''rw'', ''ro''}" by (simp add: demo_mount_def)
  from create_confined [OF this, of "''n''" demo_plan 1 "[(''k'', ''v'')]" args] show ?thesis using args by (simp add: demo_plan_def)
qed

section \<open>What verification establishes\<close>

lemma collect_targets_Inr:
  "collect_targets h targets ms = Inr found \<Longrightarrow> distinct (map fst targets) \<Longrightarrow>
     distinct (map fst found) \<and> found = rev (map (\<lambda>m. (em_Destination m, m)) ms) @ targets
     \<and> (\<forall>m\<in>set ms. \<not> Contains (ToLower (hv_lower h) (em_Source m @ '' '' @ em_Destination m)) ''podman.sock''
          \<and> \<not> Contains (ToLower (hv_lower h) (em_Source m @ '' '' @ em_Destination m)) ''docker.sock'')"
proof (induction ms arbitrary: targets)
  case (Cons m ms)
  have new: "em_Destination m \<notin> fst ` set targets" and rest: "collect_targets h ((em_Destination m, m) # targets) ms = Inr found"
    and safe: "\<not> Contains (ToLower (hv_lower h) (em_Source m @ '' '' @ em_Destination m)) ''podman.sock''"
      "\<not> Contains (ToLower (hv_lower h) (em_Source m @ '' '' @ em_Destination m)) ''docker.sock''"
    using Cons.prems(1) by (simp_all add: Let_def map_of_eq_None_iff split: if_splits)
  have "distinct (map fst ((em_Destination m, m) # targets))" using new Cons.prems(2) by simp
  note ih = Cons.IH [OF rest this]
  show ?case
    by (intro conjI conjunct1 [OF ih] trans [OF conjunct1 [OF conjunct2 [OF ih]]]) (use conjunct2 [OF conjunct2 [OF ih]] safe in simp_all)
qed simp

text \<open>The mounts of a verified container are the expected ones, in place and in their modes.\<close>

definition mounts_as_expected :: "host_view \<Rightarrow> Evidence \<Rightarrow> Mount list \<Rightarrow> bool" where
  "mounts_as_expected h e expected =
     (em_Destination ` set (elems (ev_Mounts e)) = mt_Target ` set expected
      \<and> (\<forall>m\<in>set expected. \<exists>f\<in>set (elems (ev_Mounts e)). em_Destination f = mt_Target m
           \<and> canonicalHostPath h (em_Source f) = canonicalHostPath h (mt_Source m) \<and> em_RW f = (mt_Mode m = ''rw'') \<and> em_IdentityVerified f
           \<and> mountHasOption f ''nodev'' \<and> mountHasOption f ''nosuid'' \<and> (mt_NoExec m \<longrightarrow> mountHasOption f ''noexec'')))"

lemma expected_mounts_found:
  assumes "collect_targets h [] ms = Inr targets" and "length targets = length expected" and "for_each (check_expected h targets) expected = Inr ()"
    and "distinct (map mt_Target expected)" and "elems (ev_Mounts e) = ms"
  shows "mounts_as_expected h e expected"
proof -
  have targets: "distinct (map fst targets)" "targets = rev (map (\<lambda>m. (em_Destination m, m)) ms)"
    using collect_targets_Inr [OF assms(1)] by auto
  have found: "\<exists>f. map_of targets (mt_Target m) = Some f \<and> canonicalHostPath h (em_Source f) = canonicalHostPath h (mt_Source m)
      \<and> em_RW f = (mt_Mode m = ''rw'') \<and> em_IdentityVerified f \<and> mountHasOption f ''nodev'' \<and> mountHasOption f ''nosuid'' \<and> (mt_NoExec m \<longrightarrow> mountHasOption f ''noexec'')"
    if "m \<in> set expected" for m
    using assms(3) that by (fastforce simp: result_simps check_expected_def split: option.splits)
  have member: "f \<in> set ms \<and> em_Destination f = n" if "map_of targets n = Some f" for n f
    using map_of_SomeD [OF that] by (auto simp: targets(2))
  have sub: "mt_Target ` set expected \<subseteq> em_Destination ` set ms" using found member by (auto simp: image_iff) metis
  have "card (em_Destination ` set ms) = length targets"
    using distinct_card [OF targets(1)] by (simp add: targets(2) image_image comp_def rev_map [symmetric])
  moreover have "card (mt_Target ` set expected) = length expected"
    using distinct_card [OF assms(4)] by simp
  ultimately have "mt_Target ` set expected = em_Destination ` set ms" using sub assms(2) by (intro card_subset_eq) auto
  then show ?thesis using found member by (fastforce simp: mounts_as_expected_def assms(5))
qed

text \<open>
  C7: A container that passes verification against mounts with distinct targets is confined: it runs without network, in private namespaces, with the identity of
  the caller mapped to itself, as the user, in the directory and within the limits of the plan (CPUs as the wrapped 64-bit product), with an empty bounding set, under seccomp and with no
  new privileges, without devices, under the name and the labels of the generation; its mounts are exactly the expected ones, each with the expected source, mode and restrictions,
  and none of them is the control socket of a container engine.
\<close>

theorem verified_runtime_confined:
  assumes "VerifyNamed h e result generation name expected = Inr ()" and "distinct (map mt_Target expected)"
  shows "ev_Running e \<and> ev_NetworkMode e = ''none'' \<and> ev_IPCIsolatedFromHost e \<and> ev_PIDMode e = ''private'' \<and> ev_UTSMode e = ''private''
    \<and> ev_UserNSMode e \<noteq> ''host'' \<and> mapsIdentity (elems (ev_UIDMap e)) (hv_uid h) \<and> mapsIdentity (elems (ev_GIDMap e)) (hv_gid h)
    \<and> ev_User e = pw_User (pl_World (rs_Plan result)) \<and> ev_Hostname e = pw_Hostname (pl_World (rs_Plan result)) \<and> ev_WorkingDir e = pw_Workdir (pl_World (rs_Plan result))
    \<and> ev_Memory e = pr_MemoryBytes (pl_Resources (rs_Plan result)) \<and> ev_PIDs e = pr_PIDs (pl_Resources (rs_Plan result))
    \<and> ev_NanoCPUs e = wrap_int64 (pr_CPUs (pl_Resources (rs_Plan result)) * 1000000000)
    \<and> ev_BoundingCaps e = Some [] \<and> ev_SeccompMode e = 2
    \<and> containsPrefixFold h (elems (ev_SecurityOpt e)) ''no-new-privileges'' \<and> ev_Devices e = 0 \<and> ev_Name e = name
    \<and> \<not> containsPrefixFold h (elems (ev_SecurityOpt e)) ''seccomp=unconfined''
    \<and> label e ''io.kenogram.world'' = pl_Name (rs_Plan result) \<and> label e ''io.kenogram.generation'' = Itoa generation
    \<and> label e ''io.kenogram.plan-digest'' = rs_PlanDigest result \<and> label e ''io.kenogram.declaration-digest'' = rs_DeclarationDigest result \<and> mounts_as_expected h e expected
    \<and> (\<forall>m\<in>set (elems (ev_Mounts e)). \<not> Contains (ToLower (hv_lower h) (em_Source m @ '' '' @ em_Destination m)) ''podman.sock''
         \<and> \<not> Contains (ToLower (hv_lower h) (em_Source m @ '' '' @ em_Destination m)) ''docker.sock'')"
proof -
  obtain targets where targets: "collect_targets h [] (elems (ev_Mounts e)) = Inr targets" "length targets = length expected"
    "for_each (check_expected h targets) expected = Inr ()"
    using assms(1) by (auto simp: VerifyNamed_def Let_def result_simps simp del: for_each.simps)
  have "mounts_as_expected h e expected" by (rule expected_mounts_found [OF targets assms(2) refl])
  then show ?thesis
    using assms(1) collect_targets_Inr [OF targets(1)] by (simp add: VerifyNamed_def Let_def result_simps)
qed

definition demo_view :: host_view where
  "demo_view = \<lparr>hv_uid = 1000, hv_gid = 1000, hv_eval = (\<lambda>_. None), hv_lower = id\<rparr>"

definition demo_evidence :: Evidence where
  "demo_evidence =
     \<lparr>ev_ID = ''i'', ev_Name = ''kenogram-w-g1'', ev_Running = True, ev_PID = 7, ev_ProcessStart = ''9'', ev_ImageReference = [], ev_ImageDigest = [],
      ev_NetworkMode = ''none'', ev_IPCMode = ''private'', ev_IPCIsolatedFromHost = True, ev_PIDMode = ''private'', ev_UTSMode = ''private'',
      ev_UserNSMode = ''private'', ev_User = ''user'', ev_Hostname = ''w'', ev_WorkingDir = ''/'', ev_CapDrop = None, ev_BoundingCaps = Some [],
      ev_SecurityOpt = Some [''no-new-privileges''], ev_SeccompMode = 2, ev_Devices = 0,
      ev_UIDMap = Some [\<lparr>id_ContainerID = 1000, id_HostID = 1000, id_Size = 1\<rparr>], ev_GIDMap = Some [\<lparr>id_ContainerID = 1000, id_HostID = 1000, id_Size = 1\<rparr>],
      ev_Labels = map_of [(''io.kenogram.world'', ''w''), (''io.kenogram.generation'', ''1''), (''io.kenogram.plan-digest'', ''p''),
        (''io.kenogram.declaration-digest'', ''d'')],
      ev_Mounts = Some [\<lparr>em_Source = ''/srv/data'', em_Destination = ''/data'', em_RW = False, em_Mode = [], em_Options = Some [''nodev'', ''nosuid''],
        em_IdentityVerified = True\<rparr>],
      ev_Memory = 1, ev_NanoCPUs = 1000000000, ev_PIDs = 1\<rparr>"

lemma demo_verified: "VerifyNamed demo_view demo_evidence demo_plan 1 ''kenogram-w-g1'' [demo_mount] = Inr ()"
  by code_simp

theorem verified_runtime_confined_witness:
  "VerifyNamed demo_view demo_evidence demo_plan 1 ''kenogram-w-g1'' [demo_mount] = Inr () \<and> mounts_as_expected demo_view demo_evidence [demo_mount]"
  using demo_verified verified_runtime_confined [OF demo_verified] by simp

end
