(* ===== verification/Worldfs.thy ===== *)
theory Worldfs
  imports Go_Size Go_Crypto Go_Path History
begin

text \<open>
  What the host keeps of a world (\<^verbatim>\<open>internal/worldfs\<close>): the recorded state, the journal of an interrupted
  change, and the digest tree of its workspace with its canonical form. A JSON file that the program replaces
  atomically is \<open>Missing\<close>, \<open>Corrupt\<close> or \<open>Holds\<close> a document.
\<close>

datatype 'a stored = Missing | Corrupt | Holds 'a

section \<open>Digest trees\<close>

record DigestEntry =
  de_Path :: bytes
  de_Type :: bytes
  de_Mode :: int
  de_Size :: int
  de_SHA256 :: bytes
  de_Link :: bytes

record DigestTree =
  dt_Root :: bytes
  dt_Entries :: "DigestEntry list option"

definition DigestEntry_shape :: shape where
  "DigestEntry_shape = TStruct
     [(''path'', False, TString), (''type'', False, TString), (''mode'', False, TInt 0 4294967295), (''size'', False, TInt64),
      (''sha256'', True, TString), (''link'', True, TString)]"

definition DigestEntry_value :: "DigestEntry \<Rightarrow> gval" where
  "DigestEntry_value x = VStruct
     [VString (de_Path x), VString (de_Type x), VInt (de_Mode x), VInt (de_Size x), VString (de_SHA256 x), VString (de_Link x)]"

definition digestEntriesRoot :: "DigestEntry list \<Rightarrow> bytes" where
  "digestEntriesRoot entries =
     sha256_hex (''['' @ join_with '','' (map (\<lambda>e. Marshal DigestEntry_shape (DigestEntry_value e)) entries) @ '']'')"

definition isLowerSHA256 :: "bytes \<Rightarrow> bool" where
  "isLowerSHA256 value = (length value = 64 \<and> map lower_ascii value = value \<and> hex_decodes value)"

definition entry_path_ok :: "bytes \<Rightarrow> bool" where
  "entry_path_ok p = (\<not> (IsAbs p \<or> p = ''.'' \<or> p = ''..'' \<or> HasPrefix p ''../'' \<or> Clean p \<noteq> p))"

definition parent_path :: "bytes \<Rightarrow> bytes" where
  "parent_path p = (let parent = Dir p in if parent = ''.'' then [] else parent)"

definition entry_ok :: "DigestEntry \<Rightarrow> bool" where
  "entry_ok e =
     (ValidUTF8 (de_Path e) \<and> ValidUTF8 (de_Link e) \<and> (de_Path e \<noteq> [] \<longrightarrow> entry_path_ok (de_Path e)) \<and> de_Mode e \<le> 511 \<and> de_Size e \<ge> 0
      \<and> (if de_Type e = ''file'' then isLowerSHA256 (de_SHA256 e)
         else if de_Type e = ''directory'' then de_Size e = 0
         else de_Type e \<in> {''symlink'', ''socket'', ''fifo'', ''device'', ''special''})
      \<and> (de_Type e \<noteq> ''file'' \<longrightarrow> de_SHA256 e = []) \<and> (de_Type e \<noteq> ''symlink'' \<longrightarrow> de_Link e = []))"

text \<open>
  The entries after the first, with the path before them and the types of the paths so far. Every check of an entry refuses the
  whole tree, so their order does not matter.
\<close>

fun entries_ok :: "bytes \<Rightarrow> (bytes \<times> bytes) list \<Rightarrow> DigestEntry list \<Rightarrow> bool" where
  "entries_ok previous types [] = True"
| "entries_ok previous types (e # es) =
     (previous < de_Path e \<and> entry_ok e \<and> map_of types (parent_path (de_Path e)) = Some ''directory''
      \<and> entries_ok (de_Path e) ((de_Path e, de_Type e) # types) es)"

definition ValidateDigestTree :: "DigestTree \<Rightarrow> bool" where
  "ValidateDigestTree tree =
     (case elems (dt_Entries tree) of
        [] \<Rightarrow> False
      | root # es \<Rightarrow>
          de_Path root = [] \<and> de_Type root = ''directory'' \<and> entry_ok root \<and> entries_ok [] [([], ''directory'')] es
          \<and> dt_Root tree = digestEntriesRoot (root # es))"

definition ChangedFiles :: "DigestTree \<Rightarrow> DigestTree \<Rightarrow> nat" where
  "ChangedFiles before after =
     (let document = (\<lambda>e. Marshal DigestEntry_shape (DigestEntry_value e));
          step = (\<lambda>e (changed, known).
            ((if map_of known (de_Path e) = Some (document e) then changed else Suc changed), AList.delete (de_Path e) known));
          known = fold (\<lambda>e known. AList.update (de_Path e) (document e) known) (elems (dt_Entries before)) [];
          (changed, rest) = fold step (elems (dt_Entries after)) (0, known)
      in changed + length rest)"

definition ShortDigest :: "bytes \<Rightarrow> bytes" where
  "ShortDigest value = (if length value \<le> 12 then value else map lower_ascii (take 12 value))"

section \<open>State and journal\<close>

record world_State =
  ws_Name :: bytes
  ws_Generation :: int
  ws_Container :: bytes
  ws_PlanDigest :: bytes
  ws_DeclarationDigest :: bytes
  ws_DeclarationPath :: bytes
  ws_Status :: bytes
  ws_ProxyPID :: int

record Transition =
  tr_Version :: int
  tr_Phase :: bytes
  tr_Prior :: "world_State option"
  tr_PriorWasRunning :: bool
  tr_PriorDeclaration :: bytes
  tr_PriorPlan :: bytes
  tr_Successor :: world_State
  tr_SuccessorDeclaration :: bytes
  tr_SuccessorPlan :: bytes
  tr_Workspace :: DigestTree
  tr_ImageDigests :: "bytes list option"

definition transition_ok :: "Transition \<Rightarrow> bool" where
  "transition_ok t = (\<not> (tr_Version t \<noteq> 1 \<or> (tr_Phase t \<noteq> ''rollback'' \<and> tr_Phase t \<noteq> ''commit'')))"

text \<open>What \<^verbatim>\<open>WriteTransition\<close> demands before it writes.\<close>

definition transition_writable :: "Transition \<Rightarrow> bool" where
  "transition_writable t =
     (transition_ok t \<and> (dt_Root (tr_Workspace t) \<noteq> [] \<or> elems (dt_Entries (tr_Workspace t)) \<noteq> [] \<longrightarrow> ValidateDigestTree (tr_Workspace t)))"

definition next_generation :: "world_State stored \<Rightarrow> int" where
  "next_generation f = (case f of Holds s \<Rightarrow> if ws_Generation s < 0 then 1 else (ws_Generation s + 1 + 2 ^ 63) mod 2 ^ 64 - 2 ^ 63 | _ \<Rightarrow> 1)"

section \<open>The root of a digest tree\<close>

lemma root_document:
  "''['' @ join_with '','' (map (\<lambda>e. Marshal DigestEntry_shape (DigestEntry_value e)) es) @ '']''
     = Marshal (TSlice DigestEntry_shape) (VSlice (Some (map DigestEntry_value es)))"
proof -
  have "marshal_list DigestEntry_shape (map DigestEntry_value es) = map (\<lambda>e. marshal DigestEntry_shape (DigestEntry_value e)) es"
    by (induction es) simp_all
  then show ?thesis by (simp add: Marshal_def comp_def)
qed

text \<open>The types that entries of a walk have.\<close>

definition entry_types :: "bytes set" where
  "entry_types = {''file'', ''directory'', ''symlink'', ''socket'', ''fifo'', ''device'', ''special''}"

definition entry_wire :: "DigestEntry \<Rightarrow> bool" where
  "entry_wire e = (0 \<le> de_Mode e \<and> de_Size e \<le> int64_max)"

lemma entry_document:
  assumes "entry_ok e" and "entry_wire e"
  shows "shaped DigestEntry_shape (DigestEntry_value e)" "utf8_value (DigestEntry_value e)"
proof -
  show "shaped DigestEntry_shape (DigestEntry_value e)"
    using assms by (simp add: entry_ok_def entry_wire_def DigestEntry_shape_def DigestEntry_value_def TInt64_def int64_max_def)
  have "ValidUTF8 ''file''" "ValidUTF8 ''directory''" "ValidUTF8 ''symlink''" "ValidUTF8 ''socket''" "ValidUTF8 ''fifo''" "ValidUTF8 ''device''"
    "ValidUTF8 ''special''" by code_simp+
  then have "ValidUTF8 (de_Type e)" using assms(1) by (auto simp: entry_ok_def split: if_splits)
  moreover have "list_all is_hex s \<Longrightarrow> ValidUTF8 s" for s
    by (rule ValidUTF8_ascii) (auto simp: list_all_iff is_hex_def is_lower_hex_def is_digit_def is_ascii_def)
  then have "ValidUTF8 (de_SHA256 e)"
    using assms(1) by (cases "de_Type e = ''file''") (simp_all add: entry_ok_def isLowerSHA256_def hex_decodes_def)
  ultimately show "utf8_value (DigestEntry_value e)" using assms(1) by (simp add: entry_ok_def DigestEntry_value_def)
qed

lemma entries_ok_all: "entries_ok p types es \<Longrightarrow> list_all entry_ok es"
  by (induction p types es rule: entries_ok.induct) auto

lemma valid_tree:
  assumes "ValidateDigestTree t"
  shows "list_all entry_ok (elems (dt_Entries t))" "dt_Root t = digestEntriesRoot (elems (dt_Entries t))"
  using assms entries_ok_all by (auto simp: ValidateDigestTree_def split: list.splits)

text \<open>
  C12: The root of a validated digest tree fixes the workspace: two validated trees with the same root list
  the same entries, or the texts under their roots are a collision of SHA-256.
\<close>

theorem workspace_root_binds:
  assumes "ValidateDigestTree t" and "ValidateDigestTree u" and "dt_Root t = dt_Root u"
    and "list_all entry_wire (elems (dt_Entries t))" and "list_all entry_wire (elems (dt_Entries u))"
  shows "elems (dt_Entries t) = elems (dt_Entries u)
    \<or> sha256_collision (''['' @ join_with '','' (map (\<lambda>e. Marshal DigestEntry_shape (DigestEntry_value e)) (elems (dt_Entries t))) @ '']'')
        (''['' @ join_with '','' (map (\<lambda>e. Marshal DigestEntry_shape (DigestEntry_value e)) (elems (dt_Entries u))) @ '']'')"
proof -
  let ?v = "\<lambda>t. VSlice (Some (map DigestEntry_value (elems (dt_Entries t))))"
  have doc: "shaped (TSlice DigestEntry_shape) (?v x)" "utf8_value (?v x)" if "ValidateDigestTree x" "list_all entry_wire (elems (dt_Entries x))" for x
    using valid_tree(1) [OF that(1)] that(2) entry_document by (auto simp: shaped_list_iff list_all_iff)
  have "shape_names (TSlice DigestEntry_shape)" "shape_depth (TSlice DigestEntry_shape) \<le> max_nesting" by code_simp+
  then have inj: "?v t = ?v u" if "Marshal (TSlice DigestEntry_shape) (?v t) = Marshal (TSlice DigestEntry_shape) (?v u)"
    using Marshal_inj [OF doc [OF assms(1,4)] doc [OF assms(2,5)]] that by blast
  have "inj DigestEntry_value" by (rule injI) (auto simp: DigestEntry_value_def intro: DigestEntry.equality)
  then have "map DigestEntry_value xs = map DigestEntry_value ys \<Longrightarrow> xs = ys" for xs ys by (simp add: inj_map_eq_map)
  then have "elems (dt_Entries t) = elems (dt_Entries u)" if "?v t = ?v u" using that by simp
  then show ?thesis
    using inj sha256_hex_eq valid_tree(2) [OF assms(1)] valid_tree(2) [OF assms(2)] assms(3)
    unfolding digestEntriesRoot_def root_document by metis
qed

definition demo_tree :: DigestTree where
  "demo_tree = (let root = \<lparr>de_Path = [], de_Type = ''directory'', de_Mode = 448, de_Size = 0, de_SHA256 = [], de_Link = []\<rparr>
     in \<lparr>dt_Root = digestEntriesRoot [root], dt_Entries = Some [root]\<rparr>)"

lemma demo_tree_valid: "ValidateDigestTree demo_tree" "list_all entry_wire (elems (dt_Entries demo_tree))"
  by (simp_all add: ValidateDigestTree_def demo_tree_def Let_def entry_ok_def entry_wire_def int64_max_def)

theorem workspace_root_binds_witness:
  "ValidateDigestTree demo_tree \<and> dt_Root demo_tree = dt_Root demo_tree
   \<and> (elems (dt_Entries demo_tree) = elems (dt_Entries demo_tree)
      \<or> sha256_collision (''['' @ join_with '','' (map (\<lambda>e. Marshal DigestEntry_shape (DigestEntry_value e)) (elems (dt_Entries demo_tree))) @ '']'')
          (''['' @ join_with '','' (map (\<lambda>e. Marshal DigestEntry_shape (DigestEntry_value e)) (elems (dt_Entries demo_tree))) @ '']''))"
  using demo_tree_valid workspace_root_binds [OF demo_tree_valid(1) demo_tree_valid(1) refl demo_tree_valid(2) demo_tree_valid(2)] by blast

end
