(* ===== verification/World.thy ===== *)
theory World
  imports Backend Worldfs Decl_Parse Go_Indent
begin

text \<open>
  The life of a world (\<^verbatim>\<open>internal/app/app.go\<close>): applying a declaration with its journal, recovering an
  interrupted change, going down, and destroying. The durable files, the containers and the proxy of one world are the state; every call on
  the host is a step that a script lets proceed, fail before or after its effect, or not return because the process dies there.
\<close>

section \<open>Programs\<close>

datatype event = Proceed | Fail | FailAfter | Crash

datatype 'a outcome = Done 'a | Failed "bytes list" | Crashed

text \<open>A container of the runtime: what it was created for and whether it runs.\<close>

record wcontainer =
  ct_plan :: plan_Result
  ct_generation :: int
  ct_running :: bool

record wproxy =
  px_pid :: int
  px_generation :: int
  px_allow :: "plan_NetworkAllow list"

record world =
  wd_state :: "world_State stored"
  wd_applied :: "bytes option"
  wd_plan :: "bytes option"
  wd_transition :: "Transition stored"
  wd_digests :: "int \<Rightarrow> DigestTree option"
  wd_history :: hfile
  wd_containers :: "bytes \<Rightarrow> wcontainer option"
  wd_proxy :: "wproxy option"
  wd_strays :: "wproxy list"

type_synonym 'a prog = "event list \<Rightarrow> world \<Rightarrow> 'a outcome \<times> event list \<times> world"

definition ret :: "'a \<Rightarrow> 'a prog" where
  "ret a es w = (Done a, es, w)"

definition refuse :: "bytes \<Rightarrow> 'a prog" where
  "refuse e es w = (Failed [e], es, w)"

definition bnd :: "'a prog \<Rightarrow> ('a \<Rightarrow> 'b prog) \<Rightarrow> 'b prog" where
  "bnd f g es w =
     (case f es w of
        (Done a, es', w') \<Rightarrow> g a es' w'
      | (Failed e, es', w') \<Rightarrow> (Failed e, es', w')
      | (Crashed, es', w') \<Rightarrow> (Crashed, es', w'))"

definition demand :: "bool \<Rightarrow> bytes \<Rightarrow> unit prog" where
  "demand b e = (if b then ret () else refuse e)"

definition script_head :: "event list \<Rightarrow> event" where
  "script_head es = (case es of [] \<Rightarrow> Proceed | e # _ \<Rightarrow> e)"

definition step :: "bytes \<Rightarrow> (world \<Rightarrow> world) \<Rightarrow> unit prog" where
  "step what effect es w =
     (case script_head es of
        Proceed \<Rightarrow> (Done (), tl es, effect w)
      | Fail \<Rightarrow> (Failed [what], tl es, w)
      | FailAfter \<Rightarrow> (Failed [what], tl es, effect w)
      | Crash \<Rightarrow> (Crashed, tl es, w))"

definition look :: "bytes \<Rightarrow> (world \<Rightarrow> 'a) \<Rightarrow> 'a prog" where
  "look what f es w =
     (case script_head es of
        Proceed \<Rightarrow> (Done (f w), tl es, w)
      | Crash \<Rightarrow> (Crashed, tl es, w)
      | _ \<Rightarrow> (Failed [what], tl es, w))"

text \<open>A test that only answers yes or no.\<close>

definition peek :: "(world \<Rightarrow> 'a) \<Rightarrow> 'a prog" where
  "peek f es w = (Done (f w), es, w)"

text \<open>The errors of a call instead of its failure, as in a chain of \<^verbatim>\<open>errors.Join\<close>.\<close>

definition attempt :: "unit prog \<Rightarrow> bytes list prog" where
  "attempt f es w =
     (case f es w of
        (Done _, es', w') \<Rightarrow> (Done [], es', w')
      | (Failed e, es', w') \<Rightarrow> (Done e, es', w')
      | (Crashed, es', w') \<Rightarrow> (Crashed, es', w'))"

text \<open>What follows a failure, knowing its errors: a deferred function, or the record of the failure.\<close>

definition on_error :: "(bytes list \<Rightarrow> bytes list prog) \<Rightarrow> 'a prog \<Rightarrow> 'a prog" where
  "on_error handler f es w =
     (case f es w of
        (Failed e, es', w') \<Rightarrow> bnd (handler e) (\<lambda>e' es2 w2. (Failed (e @ e'), es2, w2)) es' w'
      | r \<Rightarrow> r)"

definition on_failure :: "bytes list prog \<Rightarrow> 'a prog \<Rightarrow> 'a prog" where
  "on_failure undo = on_error (\<lambda>_. undo)"

fun for_all :: "('a \<Rightarrow> unit prog) \<Rightarrow> 'a list \<Rightarrow> unit prog" where
  "for_all f [] = ret ()"
| "for_all f (x # xs) = bnd (f x) (\<lambda>_. for_all f xs)"

section \<open>The host\<close>

record Prepared =
  pp_Raw :: bytes
  pp_Declaration :: "Declaration option"
  pp_Result :: plan_Result
  pp_Path :: bytes

record app_host =
  ah_view :: host_view
  ah_base :: bytes
  ah_root :: bytes
  ah_workspace :: bytes
  ah_applied :: bytes
  ah_fs :: host_fs
  ah_wd :: "bytes option"
  ah_source :: "bytes \<Rightarrow> bool option"
  ah_runtime_dir :: bytes
  ah_endpoints :: "bytes list"
  ah_inspect :: "bytes \<Rightarrow> wcontainer \<Rightarrow> Evidence"
  ah_pid :: "int \<Rightarrow> int"
  ah_ready :: "wproxy list \<Rightarrow> wproxy \<Rightarrow> bool"
  ah_tree :: "bytes \<Rightarrow> DigestTree"
  ah_now :: gotime
  ah_abs :: "bytes \<Rightarrow> bytes"

definition DeclarationDigest :: "bytes \<Rightarrow> bytes" where
  "DeclarationDigest raw = sha256_hex raw"

definition PrepareBytes :: "app_host \<Rightarrow> bytes \<Rightarrow> bytes \<Rightarrow> Prepared option" where
  "PrepareBytes a raw path =
     (case Parse raw of
        Inl _ \<Rightarrow> None
      | Inr d \<Rightarrow>
          (case BuildContext (ah_fs a) (hv_lower (ah_view a)) (ah_wd a) background d path raw of
             Inl _ \<Rightarrow> None
           | Inr result \<Rightarrow> Some \<lparr>pp_Raw = raw, pp_Declaration = Some d, pp_Result = result, pp_Path = path\<rparr>))"

definition validatePreparedIntegrity :: "Prepared \<Rightarrow> bool" where
  "validatePreparedIntegrity p =
     (sha256_hex (Canonical (rs_Plan (pp_Result p))) = rs_PlanDigest (pp_Result p)
      \<and> DeclarationDigest (pp_Raw p) = rs_DeclarationDigest (pp_Result p))"

definition encodeRecoveryPlan :: "plan_Result \<Rightarrow> bytes" where
  "encodeRecoveryPlan result = json_indent True 0 (marshal plan_Result_shape (plan_Result_value result)) @ [newline]"

definition preparedFromRecovery :: "bytes \<Rightarrow> bytes \<Rightarrow> bytes \<Rightarrow> world_State \<Rightarrow> Prepared option" where
  "preparedFromRecovery rawDeclaration rawPlan path state =
     (case Unmarshal False plan_Result_shape rawPlan of
        None \<Rightarrow> None
      | Some v \<Rightarrow>
          let result = plan_Result_of v in
          if sha256_hex (Canonical (rs_Plan result)) \<noteq> ws_PlanDigest state \<or> rs_PlanDigest result \<noteq> ws_PlanDigest state then None
          else if DeclarationDigest rawDeclaration \<noteq> ws_DeclarationDigest state \<or> rs_DeclarationDigest result \<noteq> ws_DeclarationDigest state then None
          else Some \<lparr>pp_Raw = rawDeclaration, pp_Declaration = None, pp_Result = result, pp_Path = path\<rparr>)"

subsection \<open>Paths of the host\<close>

fun canonical_ancestor :: "(bytes \<Rightarrow> bytes option) \<Rightarrow> bytes \<Rightarrow> bytes list \<Rightarrow> bytes list \<Rightarrow> bytes" where
  "canonical_ancestor eval clean [] later =
     (case eval (abs_path []) of Some e \<Rightarrow> Clean (join_with ''/'' (Clean e # later)) | None \<Rightarrow> clean)"
| "canonical_ancestor eval clean (x # rs) later =
     (case eval (abs_path (rev (x # rs))) of
        Some e \<Rightarrow> Clean (join_with ''/'' (Clean e # later))
      | None \<Rightarrow> canonical_ancestor eval clean rs (x # later))"

definition canonicalizeExistingAncestor :: "app_host \<Rightarrow> bytes \<Rightarrow> bytes" where
  "canonicalizeExistingAncestor a value = canonical_ancestor (hv_eval (ah_view a)) (Clean value) (rev (path_elements (Clean value))) []"

definition hostPathsOverlap :: "app_host \<Rightarrow> bytes \<Rightarrow> bytes \<Rightarrow> bool" where
  "hostPathsOverlap a first second =
     (let f = canonicalizeExistingAncestor a (ah_abs a first); s = canonicalizeExistingAncestor a (ah_abs a second)
      in f = s \<or> HasPrefix f (s @ ''/'') \<or> HasPrefix s (f @ ''/''))"

definition protected_paths :: "app_host \<Rightarrow> bool \<Rightarrow> bytes list" where
  "protected_paths a allowState =
     (let uid = Itoa (hv_uid (ah_view a)); dir = TrimSpace (ah_runtime_dir a) in
      (if allowState then [] else [ah_base a])
      @ [Clean (''/run/user/'' @ uid @ ''/podman/podman.sock''), Clean (''/run/user/'' @ uid @ ''/docker.sock''),
         ''/run/podman/podman.sock'', ''/run/docker.sock'', ''/var/run/docker.sock'']
      @ (if dir = [] then [] else [Clean (dir @ ''/podman/podman.sock''), Clean (dir @ ''/docker.sock'')])
      @ map (\<lambda>e. TrimPrefix e ''unix://'') (filter (\<lambda>e. HasPrefix e ''unix://'') (map TrimSpace (ah_endpoints a))))"

text \<open>\<open>ah_source\<close> is what \<^verbatim>\<open>os.Stat\<close> says: whether the source is a regular file or a directory.\<close>

definition validateHostMountSource :: "app_host \<Rightarrow> bytes \<Rightarrow> bool \<Rightarrow> bool" where
  "validateHostMountSource a source allowState =
     (ah_source a source = Some True
      \<and> list_all (\<lambda>path. \<not> (path \<noteq> [] \<and> hostPathsOverlap a source path)) (protected_paths a allowState))"

definition WorkspacePath :: "app_host \<Rightarrow> bytes \<Rightarrow> bytes" where
  "WorkspacePath a target = Join (ah_workspace a) (hex_encode (take 8 (sha256 target)))"

definition app_mounts :: "app_host \<Rightarrow> plan_Result \<Rightarrow> Mount list" where
  "app_mounts a result =
     map (\<lambda>target. \<lparr>mt_Source = WorkspacePath a target, mt_Target = target, mt_Mode = ''rw'', mt_NoExec = False\<rparr>) (elems (pl_Workspace (rs_Plan result)))
     @ map (\<lambda>m. \<lparr>mt_Source = pm_Source m, mt_Target = pm_Target m, mt_Mode = pm_Mode m, mt_NoExec = False\<rparr>) (elems (pl_Mounts (rs_Plan result)))"

definition verifyRuntimeEvidence :: "app_host \<Rightarrow> Evidence \<Rightarrow> plan_Result \<Rightarrow> int \<Rightarrow> Mount list \<Rightarrow> bool" where
  "verifyRuntimeEvidence a evidence result generation expected =
     (list_all (\<lambda>m. validateHostMountSource a (em_Source m) (em_Destination m \<in> set (elems (pl_Workspace (rs_Plan result))))) (elems (ev_Mounts evidence))
      \<and> is_ok (backend_Verify (ah_view a) evidence result generation expected))"

definition validateReplacementMountSources :: "app_host \<Rightarrow> plan_Result \<Rightarrow> plan_Result \<Rightarrow> bool" where
  "validateReplacementMountSources a prior new =
     list_all (\<lambda>old. pm_Mode old = ''rw'' \<longrightarrow>
       (let oldSource = canonicalizeExistingAncestor a (ah_abs a (pm_Source old)) in
        list_all (\<lambda>m. let newSource = canonicalizeExistingAncestor a (ah_abs a (pm_Source m)) in
          \<not> (newSource \<noteq> oldSource \<and> HasPrefix newSource (oldSource @ ''/''))) (elems (pl_Mounts (rs_Plan new))))) (elems (pl_Mounts (rs_Plan prior)))"

section \<open>Files, containers and the proxy\<close>

definition ReadState :: "world_State option prog" where
  "ReadState = bnd (look ''state.json'' wd_state) (\<lambda>f. case f of Missing \<Rightarrow> ret None | Corrupt \<Rightarrow> refuse ''decode state'' | Holds s \<Rightarrow> ret (Some s))"

definition WriteState :: "world_State \<Rightarrow> unit prog" where
  "WriteState s = step ''state.json'' (\<lambda>w. w\<lparr>wd_state := Holds s\<rparr>)"

definition WriteApplied :: "bytes \<Rightarrow> unit prog" where
  "WriteApplied raw = step ''applied.toml'' (\<lambda>w. w\<lparr>wd_applied := Some raw\<rparr>)"

definition WriteAppliedPlan :: "bytes \<Rightarrow> unit prog" where
  "WriteAppliedPlan raw = step ''applied-plan.json'' (\<lambda>w. w\<lparr>wd_plan := Some raw\<rparr>)"

definition WriteTransition :: "Transition \<Rightarrow> unit prog" where
  "WriteTransition t =
     bnd (demand (transition_writable t) ''invalid transition'') (\<lambda>_. step ''transition.json'' (\<lambda>w. w\<lparr>wd_transition := Holds t\<rparr>))"

definition ReadTransition :: "Transition option prog" where
  "ReadTransition =
     bnd (look ''transition.json'' wd_transition) (\<lambda>f.
     case f of
       Missing \<Rightarrow> ret None
     | Corrupt \<Rightarrow> refuse ''decode transition''
     | Holds t \<Rightarrow> if transition_ok t then ret (Some t) else refuse ''unsupported transition version or phase'')"

definition ClearTransition :: "unit prog" where
  "ClearTransition = step ''transition.json'' (\<lambda>w. w\<lparr>wd_transition := Missing\<rparr>)"

definition WriteDigest :: "int \<Rightarrow> DigestTree \<Rightarrow> unit prog" where
  "WriteDigest generation tree =
     bnd (demand (ValidateDigestTree tree) ''validate digest tree before write'') (\<lambda>_.
     step ''digest'' (\<lambda>w. w\<lparr>wd_digests := (wd_digests w)(generation \<mapsto> tree)\<rparr>))"

text \<open>
  Appending to the history: the file is verified first; a failure may leave it as it was or with the whole record.
  The process may also die in the middle of the record, which is the start \<open>torn\<close> of \<open>History_Properties\<close>.
\<close>

definition append_history :: "app_host \<Rightarrow> history_record \<Rightarrow> unit prog" where
  "append_history a r =
     bnd (look ''history.jsonl'' (\<lambda>w. prior_records (wd_history w))) (\<lambda>prior.
     case prior of
       Inl _ \<Rightarrow> refuse ''history does not verify''
     | Inr _ \<Rightarrow> step ''history.jsonl''
         (\<lambda>w. w\<lparr>wd_history := snd (Append \<lparr>a_open = True, a_short = None, a_sync = True\<rparr> (ah_now a) r (wd_history w))\<rparr>))"

definition append_history_once :: "app_host \<Rightarrow> history_record \<Rightarrow> unit prog" where
  "append_history_once a r =
     bnd (look ''history.jsonl'' (\<lambda>w. prior_records (wd_history w))) (\<lambda>prior.
     case prior of
       Inl _ \<Rightarrow> refuse ''history does not verify''
     | Inr rs \<Rightarrow> if rs \<noteq> [] \<and> same_entry (last rs) r then ret () else step ''history.jsonl''
         (\<lambda>w. w\<lparr>wd_history := snd (Append \<lparr>a_open = True, a_short = None, a_sync = True\<rparr> (ah_now a) r (wd_history w))\<rparr>))"

definition up_record :: "plan_Result \<Rightarrow> bytes list option \<Rightarrow> bytes \<Rightarrow> bytes \<Rightarrow> bytes \<Rightarrow> history_record" where
  "up_record result images workspace result_text detail =
     \<lparr>r_Timestamp = [], r_Action = ''up'', r_PlanDigest = rs_PlanDigest result, r_DeclarationDigest = rs_DeclarationDigest result,
      r_ImageDigests = images, r_WorkspaceDigest = workspace, r_Outcome = result_text, r_Detail = detail, r_PreviousHash = [], r_Hash = []\<rparr>"

text \<open>\<^verbatim>\<open>recordFailure\<close>: the failure is appended to the history and returned.\<close>

definition recording :: "app_host \<Rightarrow> Prepared \<Rightarrow> bytes \<Rightarrow> 'a prog \<Rightarrow> 'a prog" where
  "recording a p detail f = on_error (\<lambda>e. attempt (append_history a (up_record (pp_Result p) None [] ''failed'' (detail @ '': '' @ concat e)))) f"

text \<open>Containers: names are unique, and only a present container can be started, stopped or inspected.\<close>

definition present :: "bytes \<Rightarrow> unit prog" where
  "present name = bnd (look ''podman'' (\<lambda>w. wd_containers w name)) (\<lambda>c. demand (c \<noteq> None) ''no such container'')"

definition backend_Exists :: "bytes \<Rightarrow> bool prog" where
  "backend_Exists name = look ''podman ps'' (\<lambda>w. wd_containers w name \<noteq> None)"

definition backend_Create :: "app_host \<Rightarrow> plan_Result \<Rightarrow> int \<Rightarrow> Mount list \<Rightarrow> bytes prog" where
  "backend_Create a result generation mounts =
     (let name = ContainerName (pl_Name (rs_Plan result)) generation in
      bnd (demand (is_ok (mount_arguments mounts)) ''invalid mount'') (\<lambda>_.
      bnd (look ''podman create'' (\<lambda>w. wd_containers w name)) (\<lambda>c.
      bnd (demand (c = None) ''the container name is already in use'') (\<lambda>_.
      bnd (step ''podman create'' (\<lambda>w. w\<lparr>wd_containers := (wd_containers w)(name \<mapsto>
        \<lparr>ct_plan = result, ct_generation = generation, ct_running = False\<rparr>)\<rparr>)) (\<lambda>_. ret name)))))"

definition set_running :: "bool \<Rightarrow> bytes \<Rightarrow> world \<Rightarrow> world" where
  "set_running b name w = w\<lparr>wd_containers := (wd_containers w)(name := map_option (\<lambda>c. c\<lparr>ct_running := b\<rparr>) (wd_containers w name))\<rparr>"

definition backend_Start :: "bytes \<Rightarrow> unit prog" where
  "backend_Start name = bnd (present name) (\<lambda>_. step ''podman start'' (set_running True name))"

definition backend_Stop :: "bytes \<Rightarrow> unit prog" where
  "backend_Stop name = bnd (present name) (\<lambda>_. step ''podman stop'' (set_running False name))"

definition backend_Destroy :: "bytes \<Rightarrow> unit prog" where
  "backend_Destroy name = step ''podman rm'' (\<lambda>w. w\<lparr>wd_containers := (wd_containers w)(name := None)\<rparr>)"

text \<open>What \<^verbatim>\<open>podman inspect\<close> and \<^verbatim>\<open>/proc\<close> say of a container; that it runs is read from the container itself.\<close>

definition backend_Inspect :: "app_host \<Rightarrow> bytes \<Rightarrow> Evidence prog" where
  "backend_Inspect a name =
     bnd (look ''podman inspect'' (\<lambda>w. wd_containers w name)) (\<lambda>c.
     case c of None \<Rightarrow> refuse ''no such container'' | Some x \<Rightarrow> ret ((ah_inspect a name x)\<lparr>ev_Running := ct_running x\<rparr>))"

text \<open>
  The proxy process. \<open>wd_proxy\<close> is the live process that \<^verbatim>\<open>proxy.pid\<close> names and \<open>wd_strays\<close> are live proxy processes that it does not name; a
  file that names a dead process is the same as none. Stopping ends the named process and removes its files; without such a process there is
  nothing to end. An unreadable file, a reused process identifier and a process that does not exit are failures of the first step.
\<close>

definition stopProxy :: "unit prog" where
  "stopProxy =
     bnd (step ''stop proxy'' (\<lambda>w. w\<lparr>wd_proxy := None\<rparr>)) (\<lambda>_.
     step ''remove proxy files'' id)"

text \<open>
  Starting stops first, launches the process, writes its identity and waits until it answers. A process that dies between the launch and
  the write leaves a proxy that nothing names; when the write fails the process is killed. \<open>ah_ready\<close> is whether a proxy answers next to the
  unnamed ones, which may hold its port.
\<close>

definition abortProxyStart :: "wproxy list \<Rightarrow> unit prog" where
  "abortProxyStart older = step ''abort proxy'' (\<lambda>w. w\<lparr>wd_proxy := None, wd_strays := older\<rparr>)"

definition startProxy :: "app_host \<Rightarrow> int \<Rightarrow> plan_NetworkAllow list \<Rightarrow> int prog" where
  "startProxy a generation allow =
     (let x = \<lparr>px_pid = ah_pid a generation, px_generation = generation, px_allow = allow\<rparr> in
      bnd stopProxy (\<lambda>_.
      bnd (peek wd_strays) (\<lambda>older.
      bnd (step ''start proxy'' (\<lambda>w. w\<lparr>wd_strays := older @ [x]\<rparr>)) (\<lambda>_.
      bnd (on_failure (attempt (abortProxyStart older)) (step ''proxy.pid'' (\<lambda>w. w\<lparr>wd_proxy := Some x, wd_strays := older\<rparr>))) (\<lambda>_.
      if ah_ready a older x then ret (px_pid x)
      else bnd (attempt stopProxy) (\<lambda>_. refuse ''proxy did not become ready''))))))"

definition proxyIsReady :: "app_host \<Rightarrow> world \<Rightarrow> bool" where
  "proxyIsReady a w = (case wd_proxy w of Some x \<Rightarrow> ah_ready a (wd_strays w) x | None \<Rightarrow> False)"

text \<open>Every service that starts by itself is launched and awaited, which succeeds or fails as one step.\<close>

definition startServices :: "plan_Result \<Rightarrow> unit prog" where
  "startServices result = for_all (\<lambda>s. if ps_Autostart s then step (''service '' @ ps_Name s) id else ret ()) (elems (pl_Services (rs_Plan result)))"

definition check_mounts :: "app_host \<Rightarrow> plan_Result \<Rightarrow> Mount list prog" where
  "check_mounts a result =
     bnd (demand (list_all (\<lambda>m. validateHostMountSource a (pm_Source m) False) (elems (pl_Mounts (rs_Plan result)))) ''mount source'') (\<lambda>_.
     bnd (for_all (\<lambda>_. step ''workspace'' id) (elems (pl_Workspace (rs_Plan result)))) (\<lambda>_. ret (app_mounts a result)))"

definition inspect_verified :: "app_host \<Rightarrow> bytes \<Rightarrow> plan_Result \<Rightarrow> int \<Rightarrow> Mount list \<Rightarrow> unit prog" where
  "inspect_verified a name result generation mounts =
     bnd (backend_Inspect a name) (\<lambda>e. demand (verifyRuntimeEvidence a e result generation mounts) ''verify runtime'')"

section \<open>Restoring a predecessor\<close>

definition allows :: "plan_Result \<Rightarrow> plan_NetworkAllow list" where
  "allows result = elems (pl_NetworkAllow (rs_Plan result))"

definition restorePredecessor :: "app_host \<Rightarrow> world_State \<Rightarrow> Prepared \<Rightarrow> unit prog" where
  "restorePredecessor a prior p =
     (let name = ws_Container prior; result = pp_Result p in
      bnd (backend_Exists name) (\<lambda>exists.
      bnd (demand exists ''predecessor container is missing'') (\<lambda>_.
      bnd (backend_Inspect a name) (\<lambda>e0.
      bnd (if ev_Running e0 then ret e0 else bnd (backend_Start name) (\<lambda>_. backend_Inspect a name)) (\<lambda>e.
      bnd (check_mounts a result) (\<lambda>mounts.
      bnd (demand (verifyRuntimeEvidence a e result (ws_Generation prior) mounts) ''verify predecessor'') (\<lambda>_.
      bnd (if allows result \<noteq> [] then startProxy a (ws_Generation prior) (allows result) else ret 0) (\<lambda>pid.
      bnd (startServices result) (\<lambda>_.
      bnd (WriteApplied (pp_Raw p)) (\<lambda>_.
      bnd (WriteAppliedPlan (encodeRecoveryPlan result)) (\<lambda>_.
      WriteState (prior\<lparr>ws_ProxyPID := pid, ws_Status := ''running''\<rparr>))))))))))))"

definition source_path :: "app_host \<Rightarrow> world_State \<Rightarrow> bytes" where
  "source_path a s = (if ws_DeclarationPath s = [] then ah_applied a else ws_DeclarationPath s)"

definition rollback_prior :: "app_host \<Rightarrow> Transition \<Rightarrow> unit prog" where
  "rollback_prior a t =
     (case tr_Prior t of
        None \<Rightarrow>
          bnd (step ''state.json'' (\<lambda>w. w\<lparr>wd_state := Missing\<rparr>)) (\<lambda>_.
          bnd (step ''applied.toml'' (\<lambda>w. w\<lparr>wd_applied := None\<rparr>)) (\<lambda>_.
          bnd (step ''applied-plan.json'' (\<lambda>w. w\<lparr>wd_plan := None\<rparr>)) (\<lambda>_. ClearTransition)))
      | Some prior \<Rightarrow>
          bnd (demand (tr_PriorDeclaration t \<noteq> []) ''predecessor declaration is missing'') (\<lambda>_.
          case preparedFromRecovery (tr_PriorDeclaration t) (tr_PriorPlan t) (source_path a prior) prior of
            None \<Rightarrow> refuse ''predecessor intent is invalid''
          | Some p \<Rightarrow>
              bnd (if tr_PriorWasRunning t then restorePredecessor a prior p
                   else bnd (WriteApplied (tr_PriorDeclaration t)) (\<lambda>_.
                     bnd (WriteAppliedPlan (tr_PriorPlan t)) (\<lambda>_. WriteState prior))) (\<lambda>_.
              ClearTransition)))"

definition rollbackTransition :: "app_host \<Rightarrow> Transition \<Rightarrow> unit prog" where
  "rollbackTransition a t =
     bnd stopProxy (\<lambda>_.
     bnd (if ws_Container (tr_Successor t) = [] then ret ()
          else bnd (backend_Exists (ws_Container (tr_Successor t))) (\<lambda>exists.
            if exists then backend_Destroy (ws_Container (tr_Successor t)) else ret ())) (\<lambda>_.
     rollback_prior a t))"

section \<open>Recovering an interrupted change\<close>

text \<open>The network door of a committed successor, with its new process in the journal.\<close>

definition commit_door :: "app_host \<Rightarrow> Transition \<Rightarrow> plan_Result \<Rightarrow> bool \<Rightarrow> Transition prog" where
  "commit_door a t result restarted =
     bnd (peek (proxyIsReady a)) (\<lambda>alive.
     if allows result \<noteq> [] \<and> (restarted \<or> \<not> alive)
     then bnd (startProxy a (ws_Generation (tr_Successor t)) (allows result)) (\<lambda>pid.
       let t' = t\<lparr>tr_Successor := (tr_Successor t)\<lparr>ws_ProxyPID := pid\<rparr>\<rparr> in bnd (WriteTransition t') (\<lambda>_. ret t'))
     else ret t)"

text \<open>The files of a committed successor, its entry in the history and the removal of the predecessor.\<close>

definition remove_prior :: "Transition \<Rightarrow> unit prog" where
  "remove_prior t =
     (case tr_Prior t of
        None \<Rightarrow> ret ()
      | Some prior \<Rightarrow>
          if ws_Container prior \<noteq> [] \<and> ws_Container prior \<noteq> ws_Container (tr_Successor t)
          then bnd (backend_Exists (ws_Container prior)) (\<lambda>exists. if exists then backend_Destroy (ws_Container prior) else ret ())
          else ret ())"

definition commit_files :: "app_host \<Rightarrow> Transition \<Rightarrow> unit prog" where
  "commit_files a t =
     (let s = tr_Successor t in
      bnd (WriteDigest (ws_Generation s) (tr_Workspace t)) (\<lambda>_.
      bnd (WriteApplied (tr_SuccessorDeclaration t)) (\<lambda>_.
      bnd (WriteAppliedPlan (tr_SuccessorPlan t)) (\<lambda>_.
      bnd (WriteState s) (\<lambda>_.
      bnd (append_history_once a \<lparr>r_Timestamp = [], r_Action = ''up'', r_PlanDigest = ws_PlanDigest s, r_DeclarationDigest = ws_DeclarationDigest s,
        r_ImageDigests = tr_ImageDigests t, r_WorkspaceDigest = dt_Root (tr_Workspace t), r_Outcome = ''applied'', r_Detail = [],
        r_PreviousHash = [], r_Hash = []\<rparr>) (\<lambda>_.
      bnd (remove_prior t) (\<lambda>_.
      ClearTransition)))))))"

definition commit_serve :: "app_host \<Rightarrow> Transition \<Rightarrow> plan_Result \<Rightarrow> Evidence \<Rightarrow> bool \<Rightarrow> unit prog" where
  "commit_serve a t result e restarted =
     bnd (check_mounts a result) (\<lambda>mounts.
     bnd (demand (verifyRuntimeEvidence a e result (ws_Generation (tr_Successor t)) mounts) ''verify committed successor'') (\<lambda>_.
     bnd (commit_door a t result restarted) (\<lambda>t'.
     bnd (startServices result) (\<lambda>_. commit_files a t'))))"

definition commitTransition :: "app_host \<Rightarrow> Transition \<Rightarrow> unit prog" where
  "commitTransition a t =
     (let s = tr_Successor t; name = ws_Container s in
      case preparedFromRecovery (tr_SuccessorDeclaration t) (tr_SuccessorPlan t) (source_path a s) s of
        None \<Rightarrow> refuse ''committed successor intent is invalid''
      | Some p \<Rightarrow>
          (let result = pp_Result p in
           bnd (backend_Exists name) (\<lambda>exists.
           bnd (demand exists ''committed successor is absent'') (\<lambda>_.
           bnd (backend_Inspect a name) (\<lambda>e0.
           bnd (if ev_Running e0 then ret (e0, False) else bnd (backend_Start name) (\<lambda>_. bnd (backend_Inspect a name) (\<lambda>e. ret (e, True)))) (\<lambda>(e, restarted).
           commit_serve a t result e restarted))))))"

definition recoverTransition :: "app_host \<Rightarrow> unit prog" where
  "recoverTransition a =
     bnd ReadTransition (\<lambda>r.
     case r of
       None \<Rightarrow> ret ()
     | Some t \<Rightarrow> if tr_Phase t = ''rollback'' then rollbackTransition a t else commitTransition a t)"

section \<open>Adopting a running generation\<close>

text \<open>The deferred function of \<^verbatim>\<open>adopt\<close> runs unless the adoption was committed.\<close>

definition unless_adopted :: "bytes list prog \<Rightarrow> bool prog \<Rightarrow> bool prog" where
  "unless_adopted undo f =
     on_failure undo (bnd f (\<lambda>adopted. if adopted then ret True
       else (\<lambda>es w. case undo es w of
          (Done [], es', w') \<Rightarrow> (Done False, es', w')
        | (Done e, es', w') \<Rightarrow> (Failed e, es', w')
        | (Failed e, es', w') \<Rightarrow> (Failed e, es', w')
        | (Crashed, es', w') \<Rightarrow> (Crashed, es', w'))))"

definition adopt_undo :: "world_State \<Rightarrow> bool \<Rightarrow> bool \<Rightarrow> bytes list prog" where
  "adopt_undo state restarted proxyStarted =
     bnd (if proxyStarted then attempt stopProxy else ret []) (\<lambda>e1.
     bnd (if restarted then attempt (backend_Stop (ws_Container state)) else ret []) (\<lambda>e2. ret (e1 @ e2)))"

text \<open>The running network door is told the declared destinations; a door of another generation is left alone.\<close>

definition reconcile_proxy :: "world_State \<Rightarrow> plan_Result \<Rightarrow> int prog" where
  "reconcile_proxy state result =
     bnd (look ''proxy diagnostics'' wd_proxy) (\<lambda>proxy.
     case proxy of
       None \<Rightarrow> refuse ''running network door lacks current diagnostic capability''
     | Some x \<Rightarrow>
         bnd (demand (px_generation x = ws_Generation state) ''running network door lacks current diagnostic capability'') (\<lambda>_.
         bnd (step ''reconcile'' (\<lambda>w. w\<lparr>wd_proxy := Some (x\<lparr>px_allow := allows result\<rparr>)\<rparr>)) (\<lambda>_. ret (px_pid x))))"

definition adopt_proxy :: "app_host \<Rightarrow> world_State \<Rightarrow> plan_Result \<Rightarrow> (int \<times> bool) prog" where
  "adopt_proxy a state result =
     bnd (peek (\<lambda>w. wd_proxy w \<noteq> None)) (\<lambda>alive.
     if allows result \<noteq> [] then
       (if alive then bnd (reconcile_proxy state result) (\<lambda>pid. ret (pid, False))
        else bnd (startProxy a (ws_Generation state) (allows result)) (\<lambda>pid. ret (pid, True)))
     else if alive then bnd stopProxy (\<lambda>_. ret (0, False))
     else ret (ws_ProxyPID state, False))"

definition adopt_commit :: "app_host \<Rightarrow> world_State \<Rightarrow> Prepared \<Rightarrow> bool \<Rightarrow> int \<Rightarrow> bool prog" where
  "adopt_commit a state p restarted pid =
     (let result = pp_Result p in
      bnd (if restarted then startServices result else ret ()) (\<lambda>_.
      bnd (WriteAppliedPlan (encodeRecoveryPlan result)) (\<lambda>_.
      bnd (WriteState (state\<lparr>ws_Status := ''running'', ws_ProxyPID := pid\<rparr>)) (\<lambda>_.
      bnd (look ''digest workspace'' (\<lambda>_. dt_Root (ah_tree a ''adopted''))) (\<lambda>workspace.
      bnd (append_history a \<lparr>r_Timestamp = [], r_Action = ''up'', r_PlanDigest = ws_PlanDigest state, r_DeclarationDigest = ws_DeclarationDigest state,
        r_ImageDigests = None, r_WorkspaceDigest = workspace, r_Outcome = (if restarted then ''restarted'' else ''adopted''), r_Detail = [],
        r_PreviousHash = [], r_Hash = []\<rparr>) (\<lambda>_. ret True))))))"

definition adopt :: "app_host \<Rightarrow> world_State \<Rightarrow> Prepared \<Rightarrow> bool \<Rightarrow> bool prog" where
  "adopt a state p running =
     (let name = ws_Container state; result = pp_Result p in
      bnd (if running then ret [] else attempt (backend_Start name)) (\<lambda>e.
      if e \<noteq> [] then ret False
      else
        bnd (unless_adopted (adopt_undo state (\<not> running) False)
          (bnd (\<lambda>es w. case backend_Inspect a name es w of
               (Done e, es', w') \<Rightarrow> (Done (Some e), es', w')
             | (Failed _, es', w') \<Rightarrow> (Done None, es', w')
             | (Crashed, es', w') \<Rightarrow> (Crashed, es', w')) (\<lambda>evidence.
           case evidence of
             None \<Rightarrow> ret False
           | Some e \<Rightarrow> bnd (check_mounts a result) (\<lambda>mounts. ret (verifyRuntimeEvidence a e result (ws_Generation state) mounts))))) (\<lambda>verified.
        if \<not> verified then ret False
        else
          bnd (on_failure (adopt_undo state (\<not> running) False) (adopt_proxy a state result)) (\<lambda>(pid, proxyStarted).
          unless_adopted (adopt_undo state (\<not> running) proxyStarted) (adopt_commit a state p (\<not> running) pid)))))"

section \<open>Applying a declaration\<close>

definition loadPredecessor :: "app_host \<Rightarrow> world_State \<Rightarrow> Prepared prog" where
  "loadPredecessor a prior =
     bnd (look ''applied.toml'' wd_applied) (\<lambda>applied.
     case applied of
       None \<Rightarrow> refuse ''applied.toml is missing''
     | Some raw \<Rightarrow>
         bnd (look ''applied-plan.json'' wd_plan) (\<lambda>planned.
         case planned of
           Some rawPlan \<Rightarrow>
             (case preparedFromRecovery raw rawPlan (source_path a prior) prior of None \<Rightarrow> refuse ''applied recovery plan'' | Some p \<Rightarrow> ret p)
         | None \<Rightarrow>
             (case PrepareBytes a raw (source_path a prior) of
                None \<Rightarrow> refuse ''applied predecessor''
              | Some p \<Rightarrow>
                  bnd (demand (rs_PlanDigest (pp_Result p) = ws_PlanDigest prior) ''applied predecessor plan'') (\<lambda>_.
                  bnd (demand (rs_DeclarationDigest (pp_Result p) = ws_DeclarationDigest prior) ''applied predecessor declaration'') (\<lambda>_. ret p)))))"

text \<open>What \<^verbatim>\<open>up\<close> knows of the predecessor: its state, its intent, and whether its container exists and runs.\<close>

record predecessor =
  pd_state :: "world_State option"
  pd_prepared :: "Prepared option"
  pd_exists :: bool
  pd_active :: bool

definition observe_prior :: "app_host \<Rightarrow> (world_State option \<times> bool \<times> bool) prog" where
  "observe_prior a =
     bnd ReadState (\<lambda>prior.
     case prior of
       None \<Rightarrow> ret (None, False, False)
     | Some s \<Rightarrow>
         if ws_Container s = [] then ret (prior, False, False)
         else bnd (backend_Exists (ws_Container s)) (\<lambda>exists.
           if exists then bnd (backend_Inspect a (ws_Container s)) (\<lambda>e. ret (prior, True, ev_Running e))
           else ret (prior, False, False)))"

definition rollback_up :: "app_host \<Rightarrow> predecessor \<Rightarrow> unit prog" where
  "rollback_up a d =
     (if \<not> pd_active d then ret ()
      else case (pd_prepared d, pd_state d) of
        (Some p, Some prior) \<Rightarrow> restorePredecessor a prior p
      | _ \<Rightarrow> refuse ''predecessor intent unavailable'')"

text \<open>The deferred function of \<^verbatim>\<open>up\<close>: which of its parts run depends on how far the change got.\<close>

definition up_undo :: "app_host \<Rightarrow> predecessor \<Rightarrow> bytes \<Rightarrow> bool \<Rightarrow> bool \<Rightarrow> bool \<Rightarrow> bool \<Rightarrow> bytes list prog" where
  "up_undo a d container started proxied cutover journal =
     bnd (if proxied then attempt stopProxy else ret []) (\<lambda>e1.
     bnd (if started then attempt (backend_Stop container) else ret []) (\<lambda>e2.
     bnd (if cutover then attempt (rollback_up a d) else ret []) (\<lambda>e3.
     bnd (attempt (backend_Destroy container)) (\<lambda>e4.
     if journal \<and> e1 @ e2 @ e3 @ e4 = [] then attempt ClearTransition else ret (e1 @ e2 @ e3 @ e4)))))"

definition successor_state :: "app_host \<Rightarrow> Prepared \<Rightarrow> int \<Rightarrow> bytes \<Rightarrow> world_State" where
  "successor_state a p generation container =
     \<lparr>ws_Name = pl_Name (rs_Plan (pp_Result p)), ws_Generation = generation, ws_Container = container,
      ws_PlanDigest = rs_PlanDigest (pp_Result p), ws_DeclarationDigest = rs_DeclarationDigest (pp_Result p),
      ws_DeclarationPath = ah_abs a (pp_Path p), ws_Status = ''staging'', ws_ProxyPID = 0\<rparr>"

definition no_tree :: DigestTree where "no_tree = \<lparr>dt_Root = [], dt_Entries = None\<rparr>"

definition rollback_journal :: "app_host \<Rightarrow> Prepared \<Rightarrow> predecessor \<Rightarrow> int \<Rightarrow> bytes \<Rightarrow> Transition" where
  "rollback_journal a p d generation container =
     (let prior = (case pd_state d of Some s \<Rightarrow> if ws_Container s = [] then None else Some s | None \<Rightarrow> None) in
      \<lparr>tr_Version = 1, tr_Phase = ''rollback'', tr_Prior = prior, tr_PriorWasRunning = (prior \<noteq> None \<and> pd_active d),
       tr_PriorDeclaration = (case (prior, pd_prepared d) of (Some _, Some q) \<Rightarrow> pp_Raw q | _ \<Rightarrow> []),
       tr_PriorPlan = (case (prior, pd_prepared d) of (Some _, Some q) \<Rightarrow> encodeRecoveryPlan (pp_Result q) | _ \<Rightarrow> []),
       tr_Successor = successor_state a p generation container, tr_SuccessorDeclaration = pp_Raw p,
       tr_SuccessorPlan = encodeRecoveryPlan (pp_Result p), tr_Workspace = no_tree, tr_ImageDigests = None\<rparr>)"

text \<open>Staging: the container gets its files; the staging directory is cleared, also after a failure.\<close>

definition stage_materialize :: "app_host \<Rightarrow> Prepared \<Rightarrow> unit prog" where
  "stage_materialize a p =
     on_failure (attempt (step ''clear staging'' id))
       (bnd (recording a p ''materialize'' (step ''materialize'' id)) (\<lambda>_. recording a p ''clear staging'' (step ''clear staging'' id)))"

text \<open>Cutover: the predecessor stops, the workspace is recorded, the successor starts.\<close>

definition stage_cutover :: "app_host \<Rightarrow> Prepared \<Rightarrow> predecessor \<Rightarrow> Transition \<Rightarrow> bytes \<Rightarrow> Transition prog" where
  "stage_cutover a p d t container =
     bnd (if pd_active d then bnd stopProxy (\<lambda>_. recording a p ''stop predecessor''
            (backend_Stop (case pd_state d of Some s \<Rightarrow> ws_Container s | None \<Rightarrow> []))) else ret ()) (\<lambda>_.
     bnd (look ''digest workspace'' (\<lambda>_. ah_tree a ''cutover'')) (\<lambda>tree.
     let t' = t\<lparr>tr_Workspace := tree\<rparr> in
     bnd (WriteTransition t') (\<lambda>_.
     bnd (recording a p ''start successor'' (backend_Start container)) (\<lambda>_. ret t'))))"

definition stage_boundary :: "app_host \<Rightarrow> Prepared \<Rightarrow> int \<Rightarrow> bytes \<Rightarrow> Mount list \<Rightarrow> int prog" where
  "stage_boundary a p generation container mounts =
     bnd (recording a p ''inspect successor'' (backend_Inspect a container)) (\<lambda>e.
     bnd (recording a p ''verify successor before services'' (demand (verifyRuntimeEvidence a e (pp_Result p) generation mounts) ''verify runtime'')) (\<lambda>_.
     if allows (pp_Result p) \<noteq> [] then recording a p ''start proxy'' (startProxy a generation (allows (pp_Result p))) else ret 0))"

text \<open>Commit: from the services to the history.\<close>

definition commit_journal :: "Transition \<Rightarrow> Prepared \<Rightarrow> int \<Rightarrow> DigestTree \<Rightarrow> Transition" where
  "commit_journal t p pid after =
     t\<lparr>tr_Phase := ''commit'', tr_Successor := (tr_Successor t)\<lparr>ws_Status := ''running'', ws_ProxyPID := pid\<rparr>, tr_Workspace := after,
       tr_ImageDigests := Some [pw_Base (pl_World (rs_Plan (pp_Result p)))]\<rparr>"

definition stage_verify :: "app_host \<Rightarrow> Prepared \<Rightarrow> int \<Rightarrow> bytes \<Rightarrow> Mount list \<Rightarrow> DigestTree prog" where
  "stage_verify a p generation container mounts =
     bnd (recording a p ''start services'' (startServices (pp_Result p))) (\<lambda>_.
     bnd (recording a p ''verify successor'' (inspect_verified a container (pp_Result p) generation mounts)) (\<lambda>_.
     look ''digest workspace'' (\<lambda>_. ah_tree a ''after'')))"

definition stage_commit :: "app_host \<Rightarrow> Prepared \<Rightarrow> Transition \<Rightarrow> int \<Rightarrow> unit prog" where
  "stage_commit a p t generation =
     bnd (WriteTransition t) (\<lambda>_.
     bnd (WriteDigest generation (tr_Workspace t)) (\<lambda>_.
     bnd (WriteApplied (pp_Raw p)) (\<lambda>_.
     bnd (WriteAppliedPlan (tr_SuccessorPlan t)) (\<lambda>_.
     bnd (WriteState (tr_Successor t)) (\<lambda>_.
     append_history_once a (up_record (pp_Result p) (tr_ImageDigests t) (dt_Root (tr_Workspace t)) ''applied'' []))))))"

definition finish_up :: "predecessor \<Rightarrow> bytes \<Rightarrow> unit prog" where
  "finish_up d container =
     bnd (case pd_state d of
            Some s \<Rightarrow> if pd_exists d \<and> ws_Container s \<noteq> [] \<and> ws_Container s \<noteq> container then backend_Destroy (ws_Container s) else ret ()
          | None \<Rightarrow> ret ()) (\<lambda>_. ClearTransition)"

definition replace_generation :: "app_host \<Rightarrow> Prepared \<Rightarrow> predecessor \<Rightarrow> int \<Rightarrow> Mount list \<Rightarrow> bytes \<Rightarrow> unit prog" where
  "replace_generation a p d generation mounts container =
     (let t = rollback_journal a p d generation container; undo = up_undo a d container in
      bnd (on_failure (undo False False False False) (bnd (stage_materialize a p) (\<lambda>_. WriteTransition t))) (\<lambda>_.
      bnd (on_failure (undo False False (pd_active d) True) (stage_cutover a p d t container)) (\<lambda>t'.
      bnd (on_failure (undo True False (pd_active d) True) (stage_boundary a p generation container mounts)) (\<lambda>pid.
      let proxied = (allows (pp_Result p) \<noteq> []) in
      bnd (on_failure (undo True proxied (pd_active d) True)
        (bnd (stage_verify a p generation container mounts) (\<lambda>after. stage_commit a p (commit_journal t' p pid after) generation))) (\<lambda>_.
      finish_up d container)))))"

definition replace_prior :: "app_host \<Rightarrow> Prepared \<Rightarrow> world_State option \<Rightarrow> bool \<Rightarrow> bool \<Rightarrow> unit prog" where
  "replace_prior a p prior exists active =
     bnd (case prior of
            Some s \<Rightarrow> if ws_Container s \<noteq> [] then bnd (loadPredecessor a s) (\<lambda>q. ret (Some q)) else ret None
          | None \<Rightarrow> ret None) (\<lambda>intent.
     bnd (demand (\<not> active \<or> (case intent of Some q \<Rightarrow> validateReplacementMountSources a (pp_Result q) (pp_Result p) | None \<Rightarrow> True))
       ''mount source is beneath a predecessor-writable source'') (\<lambda>_.
     bnd (peek (\<lambda>w. next_generation (wd_state w))) (\<lambda>generation.
     bnd (look ''digest workspace'' (\<lambda>_. ah_tree a ''before'')) (\<lambda>_.
     bnd (check_mounts a (pp_Result p)) (\<lambda>mounts.
     bnd (recording a p ''create'' (backend_Create a (pp_Result p) generation mounts)) (\<lambda>container.
     replace_generation a p \<lparr>pd_state = prior, pd_prepared = intent, pd_exists = exists, pd_active = active\<rparr> generation mounts container))))))"

text \<open>\<^verbatim>\<open>Up\<close>: applying without a reviewed comparison.\<close>

definition Up :: "app_host \<Rightarrow> Prepared \<Rightarrow> unit prog" where
  "Up a p =
     bnd (demand (validatePreparedIntegrity p) ''validate prepared candidate'') (\<lambda>_.
     bnd (demand (is_ok (naming_World (pl_Name (rs_Plan (pp_Result p))))) ''world name'') (\<lambda>_.
     bnd (step ''runtime preflight'' id) (\<lambda>_.
     bnd (step ''ensure'' id) (\<lambda>_.
     bnd (step ''lock'' id) (\<lambda>_.
     bnd (recoverTransition a) (\<lambda>_.
     bnd (observe_prior a) (\<lambda>(prior, exists, active).
     bnd (case prior of
            Some s \<Rightarrow> if ws_PlanDigest s = rs_PlanDigest (pp_Result p) \<and> ws_Container s \<noteq> [] \<and> exists then adopt a s p active else ret False
          | None \<Rightarrow> ret False) (\<lambda>adopted.
     if adopted then ret () else replace_prior a p prior exists active))))))))"

section \<open>Going down and destroying\<close>

definition Down :: "app_host \<Rightarrow> bytes \<Rightarrow> unit prog" where
  "Down a name =
     bnd (demand (is_ok (naming_World name)) ''world name'') (\<lambda>_.
     bnd (step ''lock'' id) (\<lambda>_.
     bnd (step ''runtime preflight'' id) (\<lambda>_.
     bnd (recoverTransition a) (\<lambda>_.
     bnd ReadState (\<lambda>r.
     case r of
       None \<Rightarrow> refuse ''state.json''
     | Some s \<Rightarrow>
         bnd (if ws_Status s = ''running'' then backend_Stop (ws_Container s) else ret ()) (\<lambda>_.
         bnd stopProxy (\<lambda>_.
         bnd (WriteState (s\<lparr>ws_Status := ''down'', ws_ProxyPID := 0\<rparr>)) (\<lambda>_.
         append_history a \<lparr>r_Timestamp = [], r_Action = ''down'', r_PlanDigest = ws_PlanDigest s, r_DeclarationDigest = ws_DeclarationDigest s,
           r_ImageDigests = None, r_WorkspaceDigest = [], r_Outcome = ''stopped'', r_Detail = [], r_PreviousHash = [], r_Hash = []\<rparr>)))))))) "

definition transitionAuthority :: "Transition \<Rightarrow> world_State option \<times> world_State option" where
  "transitionAuthority t = (if tr_Phase t = ''commit'' then (Some (tr_Successor t), tr_Prior t) else (tr_Prior t, Some (tr_Successor t)))"

definition destroy_container :: "bytes \<Rightarrow> unit prog" where
  "destroy_container name = bnd (backend_Exists name) (\<lambda>exists. if exists then backend_Destroy name else ret ())"

definition destroyRuntime :: "(world_State \<times> bytes) prog" where
  "destroyRuntime =
     bnd ReadTransition (\<lambda>r.
     bnd (case r of
            Some t \<Rightarrow>
              (let (current, candidate) = transitionAuthority t;
                   states = (case current of Some s \<Rightarrow> [s] | None \<Rightarrow> []) @ (case candidate of Some s \<Rightarrow> [s] | None \<Rightarrow> []);
                   authoritative = (case current of Some s \<Rightarrow> if ws_Container s = [] then tr_Successor t else s | None \<Rightarrow> tr_Successor t)
               in ret (states, authoritative, ''removed unresolved '' @ tr_Phase t @ '' transition''))
          | None \<Rightarrow> bnd ReadState (\<lambda>s. case s of None \<Rightarrow> refuse ''state.json'' | Some s \<Rightarrow> ret ([s], s, []))) (\<lambda>(states, authoritative, detail).
     bnd (for_all destroy_container (filter (\<lambda>n. n \<noteq> []) (remdups (map ws_Container states)))) (\<lambda>_.
     bnd stopProxy (\<lambda>_. ret (authoritative, detail)))))"

text \<open>\<^verbatim>\<open>Destroy\<close> up to the renaming of the directory of the world.\<close>

definition destroy_world :: "app_host \<Rightarrow> bytes \<Rightarrow> unit prog" where
  "destroy_world a name =
     bnd (demand (is_ok (naming_World name)) ''world name'') (\<lambda>_.
     bnd (step ''lock'' id) (\<lambda>_.
     bnd (step ''runtime preflight'' id) (\<lambda>_.
     bnd destroyRuntime (\<lambda>(s, detail).
     append_history a \<lparr>r_Timestamp = [], r_Action = ''destroy'', r_PlanDigest = ws_PlanDigest s, r_DeclarationDigest = ws_DeclarationDigest s,
       r_ImageDigests = None, r_WorkspaceDigest = [], r_Outcome = ''destroyed'', r_Detail = detail, r_PreviousHash = [], r_Hash = []\<rparr>))))"

definition requireSettledTransition :: "unit prog" where
  "requireSettledTransition = bnd ReadTransition (\<lambda>r. demand (r = None) ''world has an unresolved transition'')"

definition RepairHistory :: "app_host \<Rightarrow> bytes \<Rightarrow> unit prog" where
  "RepairHistory a name =
     bnd (demand (is_ok (naming_World name)) ''world name'') (\<lambda>_.
     bnd (step ''lock'' id) (\<lambda>_.
     bnd requireSettledTransition (\<lambda>_.
     bnd (look ''history.jsonl'' (\<lambda>w. fst (RepairTruncatedTail \<lparr>p_temporary = True, p_rename = True, p_directory = True\<rparr> (wd_history w)))) (\<lambda>r.
     bnd (demand (is_ok r) ''repair'') (\<lambda>_.
     bnd (step ''history.jsonl'' (\<lambda>w. w\<lparr>wd_history := snd (RepairTruncatedTail \<lparr>p_temporary = True, p_rename = True, p_directory = True\<rparr> (wd_history w))\<rparr>)) (\<lambda>_.
     bnd (peek wd_state) (\<lambda>f.
     append_history a \<lparr>r_Timestamp = [], r_Action = ''history-repair'', r_PlanDigest = (case f of Holds s \<Rightarrow> ws_PlanDigest s | _ \<Rightarrow> []),
       r_DeclarationDigest = (case f of Holds s \<Rightarrow> ws_DeclarationDigest s | _ \<Rightarrow> []), r_ImageDigests = None, r_WorkspaceDigest = [],
       r_Outcome = ''truncated-tail-removed'', r_Detail = [], r_PreviousHash = [], r_Hash = []\<rparr>)))))))"

definition authoritativeState :: "world_State prog" where
  "authoritativeState =
     bnd ReadTransition (\<lambda>r.
     case r of
       Some t \<Rightarrow>
         (case fst (transitionAuthority t) of
            Some s \<Rightarrow> if ws_Container s = [] then refuse ''no authoritative generation'' else ret s
          | None \<Rightarrow> refuse ''no authoritative generation'')
     | None \<Rightarrow> bnd ReadState (\<lambda>s. case s of None \<Rightarrow> refuse ''state.json'' | Some s \<Rightarrow> ret s))"

end
