(* ===== verification/World_Wp.thy ===== *)
theory World_Wp
  imports World Plan_Properties
begin

text \<open>
  Reasoning about programs whose host only proceeds or dies: \<open>wp b f Q F C w\<close> says that every run of \<open>f\<close> from \<open>w\<close> under a
  script of \<open>Proceed\<close>, and of \<open>Crash\<close> when \<open>b\<close> allows it, ends in \<open>Q\<close> when it returns, in \<open>F\<close> when it fails, and in \<open>C\<close> when the process dies.
\<close>

definition crashing :: "bool \<Rightarrow> event list \<Rightarrow> bool" where
  "crashing b es = list_all (\<lambda>e. e = Proceed \<or> (b \<and> e = Crash)) es"

definition wp :: "bool \<Rightarrow> 'a prog \<Rightarrow> ('a \<Rightarrow> world \<Rightarrow> bool) \<Rightarrow> (world \<Rightarrow> bool) \<Rightarrow> (world \<Rightarrow> bool) \<Rightarrow> world \<Rightarrow> bool" where
  "wp b f Q F C w =
     (\<forall>es. crashing b es \<longrightarrow>
        (case f es w of
           (Done x, es', w') \<Rightarrow> crashing b es' \<and> Q x w'
         | (Failed _, es', w') \<Rightarrow> crashing b es' \<and> F w'
         | (Crashed, es', w') \<Rightarrow> C w'))"

lemma bnd_ret: "bnd (ret x) g = g x"
  by (intro ext) (simp add: bnd_def ret_def)

lemma crashing_tl: "crashing b es \<Longrightarrow> crashing b (tl es)"
  by (cases es) (simp_all add: crashing_def)

lemma crashing_head: "crashing b es \<Longrightarrow> script_head es = Proceed \<or> (b \<and> script_head es = Crash)"
  by (cases es) (auto simp: crashing_def script_head_def)

lemma wp_ret: "Q x w \<Longrightarrow> wp b (ret x) Q F C w"
  by (simp add: wp_def ret_def)

lemma wp_refuse: "F w \<Longrightarrow> wp b (refuse e) Q F C w"
  by (simp add: wp_def refuse_def)

lemma wp_demand: "(c \<Longrightarrow> Q () w) \<Longrightarrow> (\<not> c \<Longrightarrow> F w) \<Longrightarrow> wp b (demand c e) Q F C w"
  by (cases c) (simp_all add: demand_def wp_ret wp_refuse)

lemma wpI:
  assumes "\<And>es r es' w'. crashing b es \<Longrightarrow> f es w = (r, es', w') \<Longrightarrow>
    (case r of Done x \<Rightarrow> crashing b es' \<and> Q x w' | Failed _ \<Rightarrow> crashing b es' \<and> F w' | Crashed \<Rightarrow> C w')"
  shows "wp b f Q F C w"
  unfolding wp_def
proof (intro allI impI)
  fix es assume es: "crashing b es"
  obtain r es' w' where "f es w = (r, es', w')" by (cases "f es w") auto
  with assms [OF es this] show "case f es w of (Done x, es', w') \<Rightarrow> crashing b es' \<and> Q x w' | (Failed _, es', w') \<Rightarrow> crashing b es' \<and> F w' | (Crashed, es', w') \<Rightarrow> C w'"
    by (cases r) auto
qed

lemma wpD:
  assumes "wp b f Q F C w" and "crashing b es" and "f es w = (r, es', w')"
  shows "case r of Done x \<Rightarrow> crashing b es' \<and> Q x w' | Failed _ \<Rightarrow> crashing b es' \<and> F w' | Crashed \<Rightarrow> C w'"
  using assms unfolding wp_def by (cases r) fastforce+

lemma wp_bnd:
  assumes "wp b f (\<lambda>x. wp b (g x) Q F C) F C w"
  shows "wp b (bnd f g) Q F C w"
proof (rule wpI)
  fix es r es' w' assume es: "crashing b es" and r: "bnd f g es w = (r, es', w')"
  obtain r1 es1 w1 where f: "f es w = (r1, es1, w1)" by (cases "f es w") auto
  note first = wpD [OF assms es f]
  show "case r of Done x \<Rightarrow> crashing b es' \<and> Q x w' | Failed _ \<Rightarrow> crashing b es' \<and> F w' | Crashed \<Rightarrow> C w'"
  proof (cases r1)
    case (Done x)
    then show ?thesis using first r f wpD [of b "g x" Q F C w1 es1 r es' w'] by (simp add: bnd_def)
  qed (use first r f in \<open>auto simp: bnd_def\<close>)
qed

lemma wp_step: "Q () (effect w) \<Longrightarrow> (b \<Longrightarrow> C w) \<Longrightarrow> wp b (step what effect) Q F C w"
  unfolding wp_def step_def using crashing_head crashing_tl by (fastforce split: event.splits)

lemma wp_look: "Q (f w) w \<Longrightarrow> (b \<Longrightarrow> C w) \<Longrightarrow> wp b (look what f) Q F C w"
  unfolding wp_def look_def using crashing_head crashing_tl by (fastforce split: event.splits)

lemma wp_peek: "Q (f w) w \<Longrightarrow> wp b (peek f) Q F C w"
  by (simp add: wp_def peek_def)

lemma wp_attempt: "wp b f (\<lambda>_. Q []) (\<lambda>w'. \<forall>e. Q e w') C w \<Longrightarrow> wp b (attempt f) Q F C w"
  by (rule wpI) (auto simp: attempt_def split: prod.splits outcome.splits dest!: wpD)

lemma wp_on_error:
  assumes "wp b f Q (\<lambda>w'. \<forall>e. wp b (handler e) (\<lambda>_. F) F C w') C w"
  shows "wp b (on_error handler f) Q F C w"
proof (rule wpI)
  fix es r es' w' assume es: "crashing b es" and r: "on_error handler f es w = (r, es', w')"
  obtain r1 es1 w1 where f: "f es w = (r1, es1, w1)" by (cases "f es w") auto
  note first = wpD [OF assms es f]
  show "case r of Done x \<Rightarrow> crashing b es' \<and> Q x w' | Failed _ \<Rightarrow> crashing b es' \<and> F w' | Crashed \<Rightarrow> C w'"
  proof (cases r1)
    case (Failed e)
    obtain r2 es2 w2 where u: "handler e es1 w1 = (r2, es2, w2)" by (cases "handler e es1 w1") auto
    have "wp b (handler e) (\<lambda>_. F) F C w1" "crashing b es1" using first Failed by simp_all
    from wpD [OF this u] show ?thesis using r f u Failed by (cases r2) (auto simp: on_error_def bnd_def)
  qed (use first r f in \<open>auto simp: on_error_def\<close>)
qed

lemma wp_on_failure: "wp b f Q (wp b undo (\<lambda>_. F) F C) C w \<Longrightarrow> wp b (on_failure undo f) Q F C w"
  unfolding on_failure_def by (rule wp_on_error) simp

lemma wp_if: "(c \<Longrightarrow> wp b f Q F C w) \<Longrightarrow> (\<not> c \<Longrightarrow> wp b g Q F C w) \<Longrightarrow> wp b (if c then f else g) Q F C w"
  by simp

lemma wp_mono:
  assumes "wp b f Q F C w" and "\<And>x w. Q x w \<Longrightarrow> Q' x w" and "\<And>w. F w \<Longrightarrow> F' w" and "\<And>w. C w \<Longrightarrow> C' w"
  shows "wp b f Q' F' C' w"
  using assms(1) unfolding wp_def by (fastforce split: prod.splits outcome.splits intro: assms(2-4))

lemma wp_for_all:
  assumes "\<And>x w. x \<in> set xs \<Longrightarrow> I w \<Longrightarrow> wp b (f x) (\<lambda>_. I) F C w" and "I w"
  shows "wp b (for_all f xs) (\<lambda>_. I) F C w"
  using assms by (induction xs arbitrary: w) (auto intro!: wp_ret wp_bnd intro: wp_mono)

lemma wp_idle_loop:
  assumes "Q () w" and "b \<Longrightarrow> C w" and "\<And>x. x \<in> set xs \<Longrightarrow> f x = ret () \<or> (\<exists>what. f x = step what id)"
  shows "wp b (for_all f xs) Q F C w"
proof -
  have "wp b (for_all f xs) (\<lambda>_ w'. w' = w) F C w"
    by (rule wp_for_all) (use assms(2,3) in \<open>fastforce intro: wp_ret wp_step\<close>)+
  then show ?thesis by (rule wp_mono) (use assms(1) in auto)
qed

lemma wp_Done:
  assumes "wp False f Q (\<lambda>_. False) (\<lambda>_. False) w"
  shows "\<exists>x es' w'. f [] w = (Done x, es', w') \<and> Q x w'"
proof -
  obtain r es' w' where r: "f [] w = (r, es', w')" by (cases "f [] w") auto
  have "crashing False []" by (simp add: crashing_def)
  with assms r have "case r of Done x \<Rightarrow> Q x w' | Failed _ \<Rightarrow> False | Crashed \<Rightarrow> False"
    unfolding wp_def by (cases r) fastforce+
  then show ?thesis using r by (cases r) auto
qed

lemma wp_Crashed:
  assumes "wp True f Q F C w" and "list_all (\<lambda>e. e = Proceed \<or> e = Crash) es" and "f es w = (Crashed, es', w')"
  shows "C w'"
  using assms unfolding wp_def crashing_def by fastforce

end
