(* ===== verification/World_Recovery.thy ===== *)
theory World_Recovery
  imports World_Wp
begin

text \<open>
  Recovery of an interrupted change: what each part of the life of a world needs and leaves, and the three
  situations in which a dying process can leave a world.
\<close>

section \<open>Plans that are read back\<close>

definition normal_result :: "plan_Result \<Rightarrow> plan_Result" where
  "normal_result r = r\<lparr>rs_Plan := normal_plan (rs_Plan r)\<rparr>"

definition wire_result :: "plan_Result \<Rightarrow> bool" where
  "wire_result r = (shaped plan_Result_shape (plan_Result_value (normal_result r)) \<and> utf8_value (plan_Result_value (normal_result r)))"

lemma normal_result_fields [simp]:
  "allows (normal_result r) = allows r" "app_mounts a (normal_result r) = app_mounts a r" "startServices (normal_result r) = startServices r"
  "check_mounts a (normal_result r) = check_mounts a r" "encodeRecoveryPlan (normal_result r) = encodeRecoveryPlan r"
  "rs_PlanDigest (normal_result r) = rs_PlanDigest r" "rs_DeclarationDigest (normal_result r) = rs_DeclarationDigest r"
  "Canonical (rs_Plan (normal_result r)) = Canonical (rs_Plan r)" "pl_Name (rs_Plan (normal_result r)) = pl_Name (rs_Plan r)"
proof -
  have fields: "pl_Name (normal_plan p) = pl_Name p" "pl_Workspace (normal_plan p) = pl_Workspace p" "pl_Mounts (normal_plan p) = pl_Mounts p"
    "pl_NetworkAllow (normal_plan p) = pl_NetworkAllow p" "pl_Services (normal_plan p) = pl_Services p" for p
    by (simp_all add: normal_plan_def)
  show "allows (normal_result r) = allows r" by (simp add: allows_def normal_result_def fields)
  show mounts: "app_mounts a (normal_result r) = app_mounts a r" by (simp add: app_mounts_def normal_result_def fields)
  show "startServices (normal_result r) = startServices r" by (simp add: startServices_def normal_result_def fields)
  show "check_mounts a (normal_result r) = check_mounts a r" using mounts by (simp add: check_mounts_def) (simp add: normal_result_def fields)
  show "encodeRecoveryPlan (normal_result r) = encodeRecoveryPlan r"
    by (simp add: encodeRecoveryPlan_def normal_result_def plan_Result_shape_def plan_Result_value_def marshal_normal_plan)
  show "Canonical (rs_Plan (normal_result r)) = Canonical (rs_Plan r)"
    by (simp add: Canonical_def Encode_def normal_result_def marshal_normal_plan)
qed (simp_all add: normal_result_def normal_plan_def)

lemma normal_verify [simp]: "verifyRuntimeEvidence a e (normal_result r) g m = verifyRuntimeEvidence a e r g m"
  by (simp add: verifyRuntimeEvidence_def backend_Verify_def VerifyNamed_def Let_def normal_result_def normal_plan_def)

text \<open>The digests that bind a declaration and its plan to a state.\<close>

definition bound :: "bytes \<Rightarrow> plan_Result \<Rightarrow> world_State \<Rightarrow> bool" where
  "bound raw r s = (sha256_hex (Canonical (rs_Plan r)) = ws_PlanDigest s \<and> rs_PlanDigest r = ws_PlanDigest s
     \<and> DeclarationDigest raw = ws_DeclarationDigest s \<and> rs_DeclarationDigest r = ws_DeclarationDigest s)"

lemma recovery_reads:
  assumes "wire_result r" and "bound raw r s"
  shows "preparedFromRecovery raw (encodeRecoveryPlan r) path s = Some \<lparr>pp_Raw = raw, pp_Declaration = None, pp_Result = normal_result r, pp_Path = path\<rparr>"
proof -
  have "Unmarshal False plan_Result_shape (json_indent True 0 (marshal plan_Result_shape (plan_Result_value (normal_result r))) @ [newline])
      = Some (plan_Result_value (normal_result r))"
    using assms(1) plan_shape_facts by (intro Unmarshal_indent) (auto simp: wire_result_def skip_ws_def)
  then have "Unmarshal False plan_Result_shape (encodeRecoveryPlan (normal_result r)) = Some (plan_Result_value (normal_result r))"
    by (simp only: encodeRecoveryPlan_def)
  then show ?thesis using assms(2) by (simp add: preparedFromRecovery_def Let_def bound_def)
qed

lemma preparedFromRecovery_bound:
  "preparedFromRecovery raw rawPlan path s = Some q \<Longrightarrow> bound raw (pp_Result q) s \<and> pp_Raw q = raw"
  by (auto simp: preparedFromRecovery_def Let_def bound_def split: option.splits if_splits)

section \<open>Steps\<close>

definition mounts_valid :: "app_host \<Rightarrow> plan_Result \<Rightarrow> bool" where
  "mounts_valid a r = list_all (\<lambda>m. validateHostMountSource a (pm_Source m) False) (elems (pl_Mounts (rs_Plan r)))"

definition evidence_of :: "app_host \<Rightarrow> bytes \<Rightarrow> wcontainer \<Rightarrow> Evidence" where
  "evidence_of a n x = (ah_inspect a n x)\<lparr>ev_Running := ct_running x\<rparr>"

text \<open>Once it runs, the container passes verification.\<close>

definition confirms :: "app_host \<Rightarrow> bytes \<Rightarrow> wcontainer \<Rightarrow> plan_Result \<Rightarrow> int \<Rightarrow> bool" where
  "confirms a n x r g = verifyRuntimeEvidence a (evidence_of a n (x\<lparr>ct_running := True\<rparr>)) r g (app_mounts a r)"

lemma wp_Exists: "Q (wd_containers w n \<noteq> None) w \<Longrightarrow> (b \<Longrightarrow> C w) \<Longrightarrow> wp b (backend_Exists n) Q F C w"
  by (simp add: backend_Exists_def wp_look)

lemma wp_Inspect: "wd_containers w n = Some x \<Longrightarrow> Q (evidence_of a n x) w \<Longrightarrow> (b \<Longrightarrow> C w) \<Longrightarrow> wp b (backend_Inspect a n) Q F C w"
  by (auto simp: backend_Inspect_def evidence_of_def intro!: wp_bnd wp_look wp_ret)

lemma wp_present: "wd_containers w n \<noteq> None \<Longrightarrow> Q () w \<Longrightarrow> (b \<Longrightarrow> C w) \<Longrightarrow> wp b (present n) Q F C w"
  by (auto simp: present_def intro!: wp_bnd wp_look wp_demand)

lemma wp_Start: "wd_containers w n \<noteq> None \<Longrightarrow> Q () (set_running True n w) \<Longrightarrow> (b \<Longrightarrow> C w) \<Longrightarrow> wp b (backend_Start n) Q F C w"
  by (auto simp: backend_Start_def intro!: wp_bnd wp_present wp_step)

lemma wp_Stop: "wd_containers w n \<noteq> None \<Longrightarrow> Q () (set_running False n w) \<Longrightarrow> (b \<Longrightarrow> C w) \<Longrightarrow> wp b (backend_Stop n) Q F C w"
  by (auto simp: backend_Stop_def intro!: wp_bnd wp_present wp_step)

lemma wp_Destroy:
  "Q () (w\<lparr>wd_containers := (wd_containers w)(n := None)\<rparr>) \<Longrightarrow> (b \<Longrightarrow> C w) \<Longrightarrow> wp b (backend_Destroy n) Q F C w"
  by (auto simp: backend_Destroy_def intro!: wp_step)

lemma wp_stopProxy:
  "Q () (w\<lparr>wd_proxy := None\<rparr>) \<Longrightarrow> (b \<Longrightarrow> C w) \<Longrightarrow> (b \<Longrightarrow> C (w\<lparr>wd_proxy := None\<rparr>)) \<Longrightarrow> wp b stopProxy Q F C w"
  by (auto simp: stopProxy_def intro!: wp_bnd wp_step)

lemma wp_startProxy:
  assumes "\<And>x. ah_ready a [] x" and "wd_strays w = []" and "Q (ah_pid a g) (w\<lparr>wd_proxy := Some \<lparr>px_pid = ah_pid a g, px_generation = g, px_allow = al\<rparr>\<rparr>)"
    and "b \<Longrightarrow> C w" and "b \<Longrightarrow> C (w\<lparr>wd_proxy := None\<rparr>)" and "\<And>x. b \<Longrightarrow> C (w\<lparr>wd_proxy := None, wd_strays := [x]\<rparr>)"
  shows "wp b (startProxy a g al) Q F C w"
proof -
  have same: "w\<lparr>wd_proxy := y, wd_strays := []\<rparr> = w\<lparr>wd_proxy := y\<rparr>" for y using assms(2) by (cases w) simp
  show ?thesis using assms
    by (auto simp: same startProxy_def Let_def intro!: wp_bnd wp_stopProxy wp_peek wp_step wp_on_failure wp_ret)
qed

lemma wp_services: "Q () w \<Longrightarrow> (b \<Longrightarrow> C w) \<Longrightarrow> wp b (startServices r) Q F C w"
  unfolding startServices_def by (rule wp_idle_loop) auto

lemma wp_mounts: "mounts_valid a r \<Longrightarrow> Q (app_mounts a r) w \<Longrightarrow> (b \<Longrightarrow> C w) \<Longrightarrow> wp b (check_mounts a r) Q F C w"
  by (auto simp: check_mounts_def mounts_valid_def intro!: wp_bnd wp_demand wp_idle_loop wp_ret)

lemma wp_WriteState: "Q () (w\<lparr>wd_state := Holds s\<rparr>) \<Longrightarrow> (b \<Longrightarrow> C w) \<Longrightarrow> wp b (WriteState s) Q F C w"
  by (simp add: WriteState_def wp_step)

lemma wp_WriteApplied: "Q () (w\<lparr>wd_applied := Some raw\<rparr>) \<Longrightarrow> (b \<Longrightarrow> C w) \<Longrightarrow> wp b (WriteApplied raw) Q F C w"
  by (simp add: WriteApplied_def wp_step)

lemma wp_WriteAppliedPlan: "Q () (w\<lparr>wd_plan := Some raw\<rparr>) \<Longrightarrow> (b \<Longrightarrow> C w) \<Longrightarrow> wp b (WriteAppliedPlan raw) Q F C w"
  by (simp add: WriteAppliedPlan_def wp_step)

lemma wp_ClearTransition: "Q () (w\<lparr>wd_transition := Missing\<rparr>) \<Longrightarrow> (b \<Longrightarrow> C w) \<Longrightarrow> wp b ClearTransition Q F C w"
  by (simp add: ClearTransition_def wp_step)

lemma wp_WriteTransition:
  "transition_writable t \<Longrightarrow> Q () (w\<lparr>wd_transition := Holds t\<rparr>) \<Longrightarrow> (b \<Longrightarrow> C w) \<Longrightarrow> wp b (WriteTransition t) Q F C w"
  by (auto simp: WriteTransition_def intro!: wp_bnd wp_demand wp_step)

lemmas wp_ops = wp_Exists wp_Inspect wp_Start wp_Stop wp_Destroy wp_stopProxy wp_startProxy wp_services wp_mounts wp_WriteState wp_WriteApplied
  wp_WriteAppliedPlan wp_ClearTransition wp_WriteTransition

section \<open>Restoring a predecessor\<close>

text \<open>A predecessor that is served again: state, files, container and network door.\<close>

definition served :: "world_State \<Rightarrow> Prepared \<Rightarrow> world \<Rightarrow> bool" where
  "served s q w =
     ((\<exists>pid. wd_state w = Holds (s\<lparr>ws_ProxyPID := pid, ws_Status := ''running''\<rparr>)) \<and> wd_applied w = Some (pp_Raw q)
      \<and> wd_plan w = Some (encodeRecoveryPlan (pp_Result q)) \<and> (\<exists>x. wd_containers w (ws_Container s) = Some x \<and> ct_running x)
      \<and> (allows (pp_Result q) \<noteq> [] \<longrightarrow> (\<exists>y. wd_proxy w = Some y \<and> px_generation y = ws_Generation s \<and> px_allow y = allows (pp_Result q))))"

lemma evidence_running [simp]: "ev_Running (evidence_of a n x) = ct_running x"
  by (simp add: evidence_of_def)

lemma evidence_confirmed:
  assumes "ct_running x"
  shows "verifyRuntimeEvidence a (evidence_of a n x) r g (app_mounts a r) = confirms a n x r g"
proof -
  have "x\<lparr>ct_running := True\<rparr> = x" using assms by (cases x) simp
  then show ?thesis by (simp add: confirms_def)
qed

lemma wp_restore:
  assumes "I w" and "\<And>w. I w \<Longrightarrow> b \<Longrightarrow> C w" and "\<And>w. I w \<Longrightarrow> I (set_running True (ws_Container s) w)" and "\<And>w y. I w \<Longrightarrow> I (w\<lparr>wd_proxy := y\<rparr>)"
    and "\<And>w. I w \<Longrightarrow> I (w\<lparr>wd_applied := Some (pp_Raw q)\<rparr>)" and "\<And>w. I w \<Longrightarrow> I (w\<lparr>wd_plan := Some (encodeRecoveryPlan (pp_Result q))\<rparr>)"
    and "\<And>w pid. I w \<Longrightarrow> I (w\<lparr>wd_state := Holds (s\<lparr>ws_ProxyPID := pid, ws_Status := ''running''\<rparr>)\<rparr>)"
    and x: "wd_containers w (ws_Container s) = Some x" and "confirms a (ws_Container s) x (pp_Result q) (ws_Generation s)"
    and "mounts_valid a (pp_Result q)" and "\<And>x. ah_ready a [] x" and "\<And>w. I w \<Longrightarrow> wd_strays w = []" and "\<And>w. b \<Longrightarrow> wd_strays w \<noteq> [] \<Longrightarrow> C w"
  shows "wp b (restorePredecessor a s q) (\<lambda>_ w'. I w' \<and> served s q w') F C w"
proof -
  let ?n = "ws_Container s" and ?r = "pp_Result q"
  define K where "K = (\<lambda>w'. I w' \<and> (\<exists>y. wd_containers w' ?n = Some y \<and> ct_running y))"
  have KC: "b \<Longrightarrow> C w'" if "K w'" for w' using that assms(2) by (simp add: K_def)
  have Ks: "wd_strays w' = []" if "K w'" for w' using that assms(12) by (simp add: K_def)
  have Kp: "K (w'\<lparr>wd_proxy := y\<rparr>)" and Ka: "K (w'\<lparr>wd_applied := Some (pp_Raw q)\<rparr>)" and Kl: "K (w'\<lparr>wd_plan := Some (encodeRecoveryPlan ?r)\<rparr>)"
    if "K w'" for w' y
    using that assms(4-6) by (simp_all add: K_def)
  have writing: "wp b (bnd (startServices ?r) (\<lambda>_. bnd (WriteApplied (pp_Raw q)) (\<lambda>_. bnd (WriteAppliedPlan (encodeRecoveryPlan ?r)) (\<lambda>_.
      WriteState (s\<lparr>ws_ProxyPID := pid, ws_Status := ''running''\<rparr>))))) (\<lambda>_ w'. I w' \<and> served s q w') F C w2"
    if w2: "K w2" and "allows ?r \<noteq> [] \<longrightarrow> (\<exists>y. wd_proxy w2 = Some y \<and> px_generation y = ws_Generation s \<and> px_allow y = allows ?r)" for w2 pid
  proof (intro wp_bnd wp_services wp_WriteApplied wp_WriteAppliedPlan wp_WriteState conjI)
    have last: "K (w2\<lparr>wd_applied := Some (pp_Raw q), wd_plan := Some (encodeRecoveryPlan ?r)\<rparr>)" using Kl [OF Ka [OF w2]] by simp
    then have "I (w2\<lparr>wd_applied := Some (pp_Raw q), wd_plan := Some (encodeRecoveryPlan ?r)\<rparr>)" by (simp add: K_def)
    from assms(7) [OF this, of pid]
    show "I (w2\<lparr>wd_applied := Some (pp_Raw q), wd_plan := Some (encodeRecoveryPlan ?r), wd_state := Holds (s\<lparr>ws_ProxyPID := pid, ws_Status := ''running''\<rparr>)\<rparr>)"
      by simp
    show "served s q (w2\<lparr>wd_applied := Some (pp_Raw q), wd_plan := Some (encodeRecoveryPlan ?r), wd_state := Holds (s\<lparr>ws_ProxyPID := pid, ws_Status := ''running''\<rparr>)\<rparr>)"
      using that by (auto simp: served_def K_def)
    show "b \<Longrightarrow> C (w2\<lparr>wd_applied := Some (pp_Raw q), wd_plan := Some (encodeRecoveryPlan ?r)\<rparr>)" using KC [OF last] .
  qed (use KC [OF w2] KC [OF Ka [OF w2]] in auto)
  have serve: "wp b (bnd (check_mounts a ?r) (\<lambda>mounts. bnd (demand (verifyRuntimeEvidence a e ?r (ws_Generation s) mounts) ''verify predecessor'') (\<lambda>_.
      bnd (if allows ?r \<noteq> [] then startProxy a (ws_Generation s) (allows ?r) else ret 0) (\<lambda>pid.
      bnd (startServices ?r) (\<lambda>_. bnd (WriteApplied (pp_Raw q)) (\<lambda>_. bnd (WriteAppliedPlan (encodeRecoveryPlan ?r)) (\<lambda>_.
      WriteState (s\<lparr>ws_ProxyPID := pid, ws_Status := ''running''\<rparr>)))))))) (\<lambda>_ w'. I w' \<and> served s q w') F C w1"
    if "K w1" and "verifyRuntimeEvidence a e ?r (ws_Generation s) (app_mounts a ?r)" for w1 e
    using that assms(10,11) KC [OF that(1)] KC [OF Kp [OF that(1)]]
    by (intro wp_bnd [of _ "check_mounts a ?r"] wp_mounts wp_bnd [of _ "demand _ _"] wp_demand wp_bnd [of _ "if _ then _ else _"] wp_if wp_startProxy wp_ret writing)
      (auto intro: Kp Ks assms(13))
  have running: "verifyRuntimeEvidence a (evidence_of a ?n (x\<lparr>ct_running := True\<rparr>)) ?r (ws_Generation s) (app_mounts a ?r)"
    using assms(9) by (simp add: confirms_def)
  have started: "K (set_running True ?n w)" "wd_containers (set_running True ?n w) ?n = Some (x\<lparr>ct_running := True\<rparr>)"
    using assms(3) [OF assms(1)] x by (simp_all add: K_def set_running_def)
  show ?thesis
  proof (cases "ct_running x")
    case True
    then have "K w" using assms(1) x by (simp add: K_def)
    then show ?thesis
      using True x serve [OF _ evidence_confirmed [THEN iffD2, OF True assms(9)]] KC unfolding restorePredecessor_def Let_def
      by (intro wp_bnd [of _ "backend_Exists _"] wp_Exists wp_bnd [of _ "demand _ _"] wp_demand wp_bnd [of _ "backend_Inspect _ _"] wp_Inspect [OF x]
        wp_bnd [of _ "if _ then _ else _"] wp_if wp_ret) simp_all
  next
    case False
    show ?thesis
      using False x serve [OF started(1) running] started(2) KC [OF started(1)] assms(2) [OF assms(1)] unfolding restorePredecessor_def Let_def
      by (intro wp_bnd [of _ "backend_Exists _"] wp_Exists wp_bnd [of _ "demand _ _"] wp_demand wp_bnd [of _ "backend_Inspect _ _"] wp_Inspect [OF x]
        wp_bnd [of _ "if _ then _ else _"] wp_if wp_ret wp_bnd [of _ "backend_Start _"] wp_Start wp_Inspect [OF started(2)]) simp_all
  qed
qed

section \<open>The situations of a change\<close>

definition prior_of :: "world \<Rightarrow> world_State option" where
  "prior_of w = (case wd_state w of Holds s \<Rightarrow> Some s | _ \<Rightarrow> None)"

definition active_in :: "world \<Rightarrow> bool" where
  "active_in w = (case prior_of w of Some s \<Rightarrow> (case wd_containers w (ws_Container s) of Some x \<Rightarrow> ct_running x | None \<Rightarrow> False) | None \<Rightarrow> False)"

definition door :: "int \<Rightarrow> plan_Result \<Rightarrow> wproxy \<Rightarrow> bool" where
  "door g r y = (px_generation y = g \<and> px_allow y = allows r)"

definition serves :: "world_State \<Rightarrow> Prepared \<Rightarrow> world \<Rightarrow> bool" where
  "serves s q w = ((\<exists>x. wd_containers w (ws_Container s) = Some x \<and> ct_running x)
     \<and> (allows (pp_Result q) \<noteq> [] \<longrightarrow> (\<exists>y. wd_proxy w = Some y \<and> door (ws_Generation s) (pp_Result q) y)))"

text \<open>
  A settled world: no journal; nothing applied, or a state with its container and a declaration and plan that its
  digests bind, served by its network door when it runs.
\<close>

definition settled :: "app_host \<Rightarrow> world \<Rightarrow> Prepared \<Rightarrow> bool" where
  "settled a w q =
     (wd_strays w = [] \<and> wd_transition w = Missing \<and> wd_state w \<noteq> Corrupt
      \<and> (case prior_of w of
           None \<Rightarrow> wd_applied w = None \<and> wd_plan w = None
         | Some s \<Rightarrow> ws_Container s \<noteq> [] \<and> loadPredecessor a s [] w = (Done q, [], w) \<and> pp_Raw q \<noteq> [] \<and> wire_result (pp_Result q)
             \<and> mounts_valid a (pp_Result q)
             \<and> (\<exists>x. wd_containers w (ws_Container s) = Some x \<and> confirms a (ws_Container s) x (pp_Result q) (ws_Generation s))
             \<and> (active_in w \<longrightarrow> serves s q w)))"

definition keeps_files :: "world \<Rightarrow> Prepared \<Rightarrow> world \<Rightarrow> bool" where
  "keeps_files w0 q w =
     (case prior_of w0 of
        None \<Rightarrow> wd_state w = Missing \<and> wd_applied w = None \<and> wd_plan w = None
      | Some s \<Rightarrow> (\<exists>pid st. wd_state w = Holds (s\<lparr>ws_ProxyPID := pid, ws_Status := st\<rparr>)) \<and> wd_applied w = Some (pp_Raw q)
          \<and> (wd_plan w = wd_plan w0 \<or> wd_plan w = Some (encodeRecoveryPlan (pp_Result q))))"

definition keeps_container :: "world \<Rightarrow> world \<Rightarrow> bool" where
  "keeps_container w0 w =
     (case prior_of w0 of
        None \<Rightarrow> True
      | Some s \<Rightarrow> \<exists>x y. wd_containers w0 (ws_Container s) = Some x \<and> wd_containers w (ws_Container s) = Some (x\<lparr>ct_running := y\<rparr>))"

definition keeps_service :: "world \<Rightarrow> Prepared \<Rightarrow> world \<Rightarrow> bool" where
  "keeps_service w0 q w = (case prior_of w0 of None \<Rightarrow> True | Some s \<Rightarrow> active_in w0 \<longrightarrow> serves s q w)"

text \<open>The successor of a change: its generation, its container and what \<^verbatim>\<open>up\<close> knows of the predecessor.\<close>

definition successor_generation :: "world \<Rightarrow> int" where
  "successor_generation w0 = next_generation (wd_state w0)"

definition successor_container :: "world \<Rightarrow> Prepared \<Rightarrow> bytes" where
  "successor_container w0 p = ContainerName (pl_Name (rs_Plan (pp_Result p))) (successor_generation w0)"

definition known_prior :: "world \<Rightarrow> Prepared \<Rightarrow> predecessor" where
  "known_prior w0 q = \<lparr>pd_state = prior_of w0, pd_prepared = map_option (\<lambda>_. q) (prior_of w0), pd_exists = (prior_of w0 \<noteq> None), pd_active = active_in w0\<rparr>"

definition journal :: "app_host \<Rightarrow> Prepared \<Rightarrow> world \<Rightarrow> Prepared \<Rightarrow> Transition" where
  "journal a p w0 q = rollback_journal a p (known_prior w0 q) (successor_generation w0) (successor_container w0 p)"

text \<open>The predecessor in place, the predecessor to be restored, the successor to be completed, the successor in place.\<close>

definition kept :: "Prepared \<Rightarrow> world \<Rightarrow> Prepared \<Rightarrow> world \<Rightarrow> bool" where
  "kept p w0 q w = (wd_strays w = [] \<and> wd_transition w = Missing \<and> keeps_files w0 q w \<and> keeps_container w0 w \<and> keeps_service w0 q w
     \<and> (\<forall>x. wd_containers w (successor_container w0 p) = Some x \<longrightarrow> \<not> ct_running x))"

definition rolling :: "app_host \<Rightarrow> Prepared \<Rightarrow> world \<Rightarrow> Prepared \<Rightarrow> world \<Rightarrow> bool" where
  "rolling a p w0 q w = (wd_strays w = [] \<and> (\<exists>tree. wd_transition w = Holds ((journal a p w0 q)\<lparr>tr_Workspace := tree\<rparr>)) \<and> keeps_files w0 q w \<and> keeps_container w0 w)"

definition committing :: "app_host \<Rightarrow> Prepared \<Rightarrow> world \<Rightarrow> Prepared \<Rightarrow> world \<Rightarrow> bool" where
  "committing a p w0 q w =
     (wd_strays w = [] \<and> (\<exists>tree pid after. wd_transition w = Holds (commit_journal ((journal a p w0 q)\<lparr>tr_Workspace := tree\<rparr>) p pid after) \<and> ValidateDigestTree after)
      \<and> (\<exists>x. wd_containers w (successor_container w0 p) = Some x
           \<and> confirms a (successor_container w0 p) x (pp_Result p) (successor_generation w0))
      \<and> mounts_valid a (pp_Result p)
      \<and> (allows (pp_Result p) \<noteq> [] \<longrightarrow> (\<forall>y. wd_proxy w = Some y \<longrightarrow> door (successor_generation w0) (pp_Result p) y)))"

definition applied :: "app_host \<Rightarrow> Prepared \<Rightarrow> world \<Rightarrow> world \<Rightarrow> bool" where
  "applied a p w0 w =
     (wd_strays w = [] \<and> wd_transition w = Missing
      \<and> (\<exists>pid. wd_state w = Holds ((successor_state a p (successor_generation w0) (successor_container w0 p))\<lparr>ws_Status := ''running'', ws_ProxyPID := pid\<rparr>))
      \<and> wd_applied w = Some (pp_Raw p) \<and> wd_plan w = Some (encodeRecoveryPlan (pp_Result p))
      \<and> (\<exists>x. wd_containers w (successor_container w0 p) = Some x \<and> ct_running x) \<and> (allows (pp_Result p) \<noteq> [] \<longrightarrow> (\<exists>y. wd_proxy w = Some y \<and> door (successor_generation w0) (pp_Result p) y))
      \<and> (case prior_of w0 of Some s \<Rightarrow> wd_containers w (ws_Container s) = None | None \<Rightarrow> True))"

section \<open>Rolling back\<close>

lemma loaded_bound: "loadPredecessor a s [] w = (Done q, [], w) \<Longrightarrow> bound (pp_Raw q) (pp_Result q) s \<and> wd_applied w = Some (pp_Raw q)"
  by (auto simp: loadPredecessor_def bnd_def look_def script_head_def refuse_def ret_def demand_def PrepareBytes_def bound_def DeclarationDigest_def
      split: option.splits if_splits sum.splits dest!: preparedFromRecovery_bound elim!: BuildContext_Inr)

lemma rolling_updates:
  assumes "rolling a p w0 q w"
  shows "rolling a p w0 q (w\<lparr>wd_proxy := y\<rparr>)" "rolling a p w0 q (w\<lparr>wd_history := h\<rparr>)"
    "prior_of w0 = Some s \<Longrightarrow> rolling a p w0 q (set_running b (ws_Container s) w)"
    "prior_of w0 = Some s \<Longrightarrow> rolling a p w0 q (w\<lparr>wd_applied := Some (pp_Raw q)\<rparr>)"
    "prior_of w0 = Some s \<Longrightarrow> rolling a p w0 q (w\<lparr>wd_plan := Some (encodeRecoveryPlan (pp_Result q))\<rparr>)"
    "prior_of w0 = Some s \<Longrightarrow> rolling a p w0 q (w\<lparr>wd_state := Holds (s\<lparr>ws_ProxyPID := pid, ws_Status := st\<rparr>)\<rparr>)"
    "wd_containers w0 c = None \<Longrightarrow> rolling a p w0 q (w\<lparr>wd_containers := (wd_containers w)(c := z)\<rparr>)"
  using assms by (auto simp: rolling_def keeps_files_def keeps_container_def set_running_def split: option.splits)

definition cleared :: "app_host \<Rightarrow> Prepared \<Rightarrow> world \<Rightarrow> Prepared \<Rightarrow> world \<Rightarrow> bool" where
  "cleared a p w0 q w = (rolling a p w0 q w \<and> wd_containers w (successor_container w0 p) = None)"

lemma prior_distinct:
  assumes "settled a w0 q" and "prior_of w0 = Some s" and "wd_containers w0 c = None"
  shows "c \<noteq> ws_Container s" "ws_Container s \<noteq> []"
  using assms by (auto simp: settled_def)

lemma cleared_updates:
  assumes "cleared a p w0 q w" and "prior_of w0 = Some s" and "settled a w0 q" and "wd_containers w0 (successor_container w0 p) = None"
  shows "cleared a p w0 q (w\<lparr>wd_proxy := y\<rparr>)" "cleared a p w0 q (set_running b (ws_Container s) w)"
    "cleared a p w0 q (w\<lparr>wd_applied := Some (pp_Raw q)\<rparr>)" "cleared a p w0 q (w\<lparr>wd_plan := Some (encodeRecoveryPlan (pp_Result q))\<rparr>)"
    "cleared a p w0 q (w\<lparr>wd_state := Holds (s\<lparr>ws_ProxyPID := pid, ws_Status := st\<rparr>)\<rparr>)"
  using assms(1) rolling_updates [of a p w0 q w] assms(2) prior_distinct [OF assms(3,2,4)]
  by (simp_all add: cleared_def set_running_def)

lemma cleared_kept:
  assumes "cleared a p w0 q w" and "keeps_service w0 q w"
  shows "kept p w0 q (w\<lparr>wd_transition := Missing\<rparr>)"
  using assms by (auto simp: cleared_def rolling_def kept_def keeps_files_def keeps_container_def keeps_service_def serves_def split: option.splits)

lemma journal_fields [simp]:
  "tr_Phase (journal a p w0 q) = ''rollback''" "tr_Successor (journal a p w0 q) = successor_state a p (successor_generation w0) (successor_container w0 p)"
  "tr_Version (journal a p w0 q) = 1" "tr_SuccessorDeclaration (journal a p w0 q) = pp_Raw p" "tr_SuccessorPlan (journal a p w0 q) = encodeRecoveryPlan (pp_Result p)"
  by (simp_all add: journal_def rollback_journal_def Let_def)

lemma journal_prior:
  assumes "settled a w0 q"
  shows "tr_Prior (journal a p w0 q) = prior_of w0"
    "prior_of w0 \<noteq> None \<Longrightarrow> tr_PriorDeclaration (journal a p w0 q) = pp_Raw q \<and> tr_PriorPlan (journal a p w0 q) = encodeRecoveryPlan (pp_Result q)
       \<and> tr_PriorWasRunning (journal a p w0 q) = active_in w0"
  using assms by (auto simp: journal_def rollback_journal_def known_prior_def settled_def Let_def split: option.splits)

lemma successor_container_some [simp]: "successor_container w0 p \<noteq> []"
  by (simp add: successor_container_def ContainerName_def)

text \<open>What is needed of the predecessor to bring it back.\<close>

lemma settled_prior:
  assumes "settled a w0 q" and "prior_of w0 = Some s"
  obtains x where "wd_containers w0 (ws_Container s) = Some x" "confirms a (ws_Container s) x (pp_Result q) (ws_Generation s)"
    "mounts_valid a (pp_Result q)" "wire_result (pp_Result q)" "bound (pp_Raw q) (pp_Result q) s" "pp_Raw q \<noteq> []"
  using assms loaded_bound [of a s w0 q] by (auto simp: settled_def)

lemma confirms_simps [simp]:
  "confirms a n (x\<lparr>ct_running := y\<rparr>) r g = confirms a n x r g" "confirms a n x (normal_result r) g = confirms a n x r g"
  by (simp_all add: confirms_def)

lemma mounts_valid_normal [simp]: "mounts_valid a (normal_result r) = mounts_valid a r"
  by (simp add: mounts_valid_def normal_result_def normal_plan_def)

lemma wp_cleared:
  assumes "cleared a p w0 q w" and "keeps_service w0 q w" and "\<And>w. b \<Longrightarrow> rolling a p w0 q w \<Longrightarrow> C w"
  shows "wp b ClearTransition (\<lambda>_. kept p w0 q) F C w"
  using assms by (intro wp_ClearTransition cleared_kept [of a]) (auto simp: cleared_def)

lemma wp_rollback_prior:
  assumes w': "cleared a p w0 q w'" and tree: "t = (journal a p w0 q)\<lparr>tr_Workspace := tree\<rparr>" and world: "settled a w0 q"
    and fresh: "wd_containers w0 (successor_container w0 p) = None" and ready: "\<And>x. ah_ready a [] x" and Cs: "\<And>w. b \<Longrightarrow> wd_strays w = [] \<longrightarrow> rolling a p w0 q w \<Longrightarrow> C w"
  shows "wp b (rollback_prior a t) (\<lambda>_. kept p w0 q) F C w'"
proof -
  have C: "\<And>w. b \<Longrightarrow> rolling a p w0 q w \<Longrightarrow> C w" using Cs by blast
  show ?thesis
  proof (cases "prior_of w0")
  case None
  have same: "w'\<lparr>wd_state := Missing\<rparr> = w'" "w'\<lparr>wd_applied := None\<rparr> = w'" "w'\<lparr>wd_plan := None\<rparr> = w'"
    using w' None by (auto simp: cleared_def rolling_def keeps_files_def)
  show ?thesis
    using None w' C [of w'] wp_cleared [OF w' _ C] same by (auto simp: rollback_prior_def tree journal_prior [OF world] cleared_def keeps_service_def intro!: wp_bnd wp_step)
next
  case (Some s)
  obtain x0 where x0: "wd_containers w0 (ws_Container s) = Some x0" "confirms a (ws_Container s) x0 (pp_Result q) (ws_Generation s)"
    and q: "mounts_valid a (pp_Result q)" "wire_result (pp_Result q)" "bound (pp_Raw q) (pp_Result q) s" "pp_Raw q \<noteq> []"
    using settled_prior [OF world Some] by blast
  then obtain x where x: "wd_containers w' (ws_Container s) = Some x" "confirms a (ws_Container s) x (pp_Result q) (ws_Generation s)"
    using w' Some by (auto simp: cleared_def rolling_def keeps_container_def)
  let ?q = "\<lparr>pp_Raw = pp_Raw q, pp_Declaration = None, pp_Result = normal_result (pp_Result q), pp_Path = source_path a s\<rparr>"
  note up = cleared_updates [OF _ Some world fresh]
  have CC: "b \<Longrightarrow> C w2" if "cleared a p w0 q w2" for w2 using that C by (simp add: cleared_def)
  have restore: "wp b (restorePredecessor a s ?q) (\<lambda>_ w2. cleared a p w0 q w2 \<and> served s ?q w2) F C w'"
    by (rule wp_restore [of "cleared a p w0 q", where x = x]) (use w' CC Cs up x q(1) ready in \<open>simp_all add: cleared_def rolling_def\<close>)
  have keep: "keeps_service w0 q w2" if "served s ?q w2" for w2
    using that Some by (auto simp: served_def keeps_service_def serves_def door_def)
  have files: "wp b (bnd (WriteApplied (pp_Raw q)) (\<lambda>_. bnd (WriteAppliedPlan (encodeRecoveryPlan (pp_Result q))) (\<lambda>_. WriteState s)))
      (\<lambda>_ w2. cleared a p w0 q w2) F C w'"
    using up(3-4) [of w'] up(4) [OF up(3) [OF w']] up(5) [OF up(4) [OF up(3) [OF w']], where pid = "ws_ProxyPID s" and st = "ws_Status s"] w' CC
    by (intro wp_bnd wp_WriteApplied wp_WriteAppliedPlan wp_WriteState) simp_all
  have both: "wp b (if active_in w0 then restorePredecessor a s ?q else bnd (WriteApplied (pp_Raw q)) (\<lambda>_.
      bnd (WriteAppliedPlan (encodeRecoveryPlan (pp_Result q))) (\<lambda>_. WriteState s))) (\<lambda>_ w2. cleared a p w0 q w2 \<and> keeps_service w0 q w2) F C w'"
    by (cases "active_in w0") (use keep Some in \<open>auto simp: keeps_service_def intro!: wp_mono [OF restore] wp_mono [OF files]\<close>)
  have "wp b (bnd (if active_in w0 then restorePredecessor a s ?q else bnd (WriteApplied (pp_Raw q)) (\<lambda>_.
      bnd (WriteAppliedPlan (encodeRecoveryPlan (pp_Result q))) (\<lambda>_. WriteState s))) (\<lambda>_. ClearTransition)) (\<lambda>_. kept p w0 q) F C w'"
    by (rule wp_bnd, rule wp_mono [OF both]) (use C in \<open>auto intro: wp_cleared\<close>)
  then show ?thesis
    using Some q(4) journal_prior [OF world, of p] by (cases "active_in w0") (simp_all add: rollback_prior_def tree recovery_reads [OF q(2,3)] demand_def bnd_ret)
qed
qed

lemma wp_rollback:
  assumes roll: "rolling a p w0 q w" and t: "wd_transition w = Holds t" and world: "settled a w0 q" and fresh: "wd_containers w0 (successor_container w0 p) = None"
    and ready: "\<And>x. ah_ready a [] x" and Cs: "\<And>w. b \<Longrightarrow> wd_strays w = [] \<longrightarrow> rolling a p w0 q w \<Longrightarrow> C w"
  shows "wp b (rollbackTransition a t) (\<lambda>_. kept p w0 q) F C w"
proof -
  have C: "\<And>w. b \<Longrightarrow> rolling a p w0 q w \<Longrightarrow> C w" using Cs by blast
  obtain tree where tree: "t = (journal a p w0 q)\<lparr>tr_Workspace := tree\<rparr>" using roll t by (auto simp: rolling_def)
  have destroy: "wp b (if ws_Container (tr_Successor t) = [] then ret ()
          else bnd (backend_Exists (ws_Container (tr_Successor t))) (\<lambda>exists.
            if exists then backend_Destroy (ws_Container (tr_Successor t)) else ret ())) (\<lambda>_. cleared a p w0 q) F C w'" if w': "rolling a p w0 q w'" for w'
    using w' C [OF _ w'] rolling_updates(7) [OF w' fresh]
    by (auto simp: tree successor_state_def cleared_def intro!: wp_bnd wp_Exists wp_Destroy wp_ret)
  show ?thesis
    unfolding rollbackTransition_def
    by (rule wp_bnd, rule wp_stopProxy, rule wp_bnd, rule wp_mono [OF destroy])
      (use rolling_updates(1) [OF roll] C [OF _ roll] C [OF _ rolling_updates(1) [OF roll]] wp_rollback_prior [OF _ tree world fresh ready, where b = b and C = C] Cs in auto)
qed

section \<open>Completing a change\<close>

lemma wp_WriteDigest:
  "ValidateDigestTree tree \<Longrightarrow> Q () (w\<lparr>wd_digests := (wd_digests w)(g \<mapsto> tree)\<rparr>) \<Longrightarrow> (b \<Longrightarrow> C w) \<Longrightarrow> wp b (WriteDigest g tree) Q F C w"
  by (auto simp: WriteDigest_def intro!: wp_bnd wp_demand wp_step)

lemma wp_history_once:
  assumes "prior_records (wd_history w) = Inr rs" and "\<And>h. Q () (w\<lparr>wd_history := h\<rparr>)" and "b \<Longrightarrow> C w"
  shows "wp b (append_history_once a r) Q F C w"
  using assms assms(2) [of "wd_history w"] by (auto simp: append_history_once_def intro!: wp_bnd wp_look wp_step wp_ret)

lemma bound_successor:
  assumes "validatePreparedIntegrity p"
  shows "bound (pp_Raw p) (pp_Result p) ((successor_state a p g c)\<lparr>ws_Status := st, ws_ProxyPID := pid\<rparr>)"
  using assms by (simp add: bound_def validatePreparedIntegrity_def successor_state_def)

lemma commit_fields [simp]:
  "tr_Phase (commit_journal t p pid after) = ''commit''" "tr_Prior (commit_journal t p pid after) = tr_Prior t" "tr_Version (commit_journal t p pid after) = tr_Version t"
  "tr_Successor (commit_journal t p pid after) = (tr_Successor t)\<lparr>ws_Status := ''running'', ws_ProxyPID := pid\<rparr>"
  "tr_SuccessorDeclaration (commit_journal t p pid after) = tr_SuccessorDeclaration t" "tr_SuccessorPlan (commit_journal t p pid after) = tr_SuccessorPlan t"
  "tr_Workspace (commit_journal t p pid after) = after"
  by (simp_all add: commit_journal_def)

lemma committing_updates:
  assumes "committing a p w0 q w"
  shows "committing a p w0 q (w\<lparr>wd_history := h\<rparr>)" "committing a p w0 q (w\<lparr>wd_digests := d\<rparr>)" "committing a p w0 q (w\<lparr>wd_applied := x\<rparr>)"
    "committing a p w0 q (w\<lparr>wd_plan := x\<rparr>)" "committing a p w0 q (w\<lparr>wd_state := f\<rparr>)" "committing a p w0 q (w\<lparr>wd_proxy := None\<rparr>)"
    "door (successor_generation w0) (pp_Result p) y \<Longrightarrow> committing a p w0 q (w\<lparr>wd_proxy := Some y\<rparr>)"
    "committing a p w0 q (set_running r n w)" "n \<noteq> successor_container w0 p \<Longrightarrow> committing a p w0 q (w\<lparr>wd_containers := (wd_containers w)(n := z)\<rparr>)"
  using assms by (auto simp: committing_def set_running_def)

lemma commit_again:
  "(commit_journal t p pid after)\<lparr>tr_Successor := (tr_Successor (commit_journal t p pid after))\<lparr>ws_ProxyPID := pid'\<rparr>\<rparr> = commit_journal t p pid' after"
  by (simp add: commit_journal_def)

lemma wp_commit_files:
  assumes w: "committing a p w0 q w" and t: "wd_transition w = Holds t" and world: "settled a w0 q" and fresh: "wd_containers w0 (successor_container w0 p) = None"
    and history: "prior_records (wd_history w) = Inr rs" and C: "\<And>w. b \<Longrightarrow> committing a p w0 q w \<Longrightarrow> C w"
    and running: "\<exists>x. wd_containers w (successor_container w0 p) = Some x \<and> ct_running x"
    and proxy: "allows (pp_Result p) \<noteq> [] \<longrightarrow> wd_proxy w \<noteq> None"
  shows "wp b (commit_files a t) (\<lambda>_. applied a p w0) F C w"
proof -
  let ?c = "successor_container w0 p"
  obtain tree pid after where j: "t = commit_journal ((journal a p w0 q)\<lparr>tr_Workspace := tree\<rparr>) p pid after" "ValidateDigestTree after"
    using w t by (auto simp: committing_def)
  have c: "ws_Container (successor_state a p g ?c) = ?c" for g by (simp add: successor_state_def)
  note up = committing_updates
  define w5 where "w5 = w\<lparr>wd_digests := (wd_digests w)(ws_Generation (tr_Successor t) \<mapsto> after), wd_applied := Some (pp_Raw p),
    wd_plan := Some (encodeRecoveryPlan (pp_Result p)), wd_state := Holds (tr_Successor t)\<rparr>"
  have w5: "committing a p w0 q w5" using w by (simp add: w5_def up)
  have apply_w5: "applied a p w0 (w5\<lparr>wd_history := h, wd_containers := f, wd_transition := Missing\<rparr>)"
    if "\<exists>x. f ?c = Some x \<and> ct_running x" "case prior_of w0 of Some s \<Rightarrow> f (ws_Container s) = None | None \<Rightarrow> True" for f h
    using that running proxy w by (cases "prior_of w0") (auto simp: applied_def w5_def j committing_def)
  have finish: "wp b (bnd (remove_prior t) (\<lambda>_. ClearTransition)) (\<lambda>_. applied a p w0) F C (w5\<lparr>wd_history := h\<rparr>)" for h
  proof (cases "prior_of w0")
    case None
    then show ?thesis using C [OF _ up(1) [OF w5]] apply_w5 [of "wd_containers w" h] running
      by (auto simp: remove_prior_def j journal_prior [OF world] bnd_ret w5_def intro!: wp_ClearTransition)
  next
    case (Some s)
    let ?f = "(wd_containers w)(ws_Container s := None)"
    have s: "ws_Container s \<noteq> ?c" "ws_Container s \<noteq> []" using prior_distinct [OF world Some fresh] by auto
    have gone: "applied a p w0 (w5\<lparr>wd_history := h, wd_containers := ?f, wd_transition := Missing\<rparr>)" using running s Some by (intro apply_w5) auto
    have w6: "committing a p w0 q (w5\<lparr>wd_history := h, wd_containers := ?f\<rparr>)" using up(9) [OF up(1) [OF w5] s(1), of h None] by (simp add: w5_def)
    have "?f = wd_containers w" if "wd_containers w (ws_Container s) = None" using that by auto
    then show ?thesis using C [OF _ up(1) [OF w5]] C [OF _ w6] gone s Some
      by (auto simp: remove_prior_def j c journal_prior [OF world] w5_def intro!: wp_bnd wp_Exists wp_Destroy wp_ret wp_ClearTransition)
  qed
  have files: "committing a p w0 q (w\<lparr>wd_digests := d\<rparr>)" "committing a p w0 q (w\<lparr>wd_digests := d, wd_applied := x\<rparr>)"
    "committing a p w0 q (w\<lparr>wd_digests := d, wd_applied := x, wd_plan := y\<rparr>)" for d x y
    using up(2) [OF w, of d] up(3) [OF up(2) [OF w, of d], of x] up(4) [OF up(3) [OF up(2) [OF w, of d], of x], of y] by simp_all
  show ?thesis
    unfolding commit_files_def Let_def
  proof (rule wp_bnd, rule wp_WriteDigest, simp add: j, rule wp_bnd, rule wp_WriteApplied, rule wp_bnd, rule wp_WriteAppliedPlan, rule wp_bnd,
      rule wp_WriteState, rule wp_bnd, rule wp_history_once [where rs = rs])
    fix h
    show "wp b (bnd (remove_prior t) (\<lambda>_. ClearTransition)) (\<lambda>_. applied a p w0) F C
      (w\<lparr>wd_digests := (wd_digests w)(ws_Generation (tr_Successor t) \<mapsto> tr_Workspace t), wd_applied := Some (tr_SuccessorDeclaration t),
         wd_plan := Some (tr_SuccessorPlan t), wd_state := Holds (tr_Successor t), wd_history := h\<rparr>)"
      using finish [of h] by (simp add: w5_def j)
  qed (use history w w5 files C in \<open>simp_all add: w5_def j\<close>)
qed

lemma wp_commit_door:
  assumes w: "committing a p w0 q w" and t: "wd_transition w = Holds t" and ready: "\<And>x. ah_ready a [] x"
    and Cs: "\<And>w. b \<Longrightarrow> wd_strays w = [] \<longrightarrow> committing a p w0 q w \<Longrightarrow> C w" and r: "allows r = allows (pp_Result p)"
    and Q: "\<And>w' t'. committing a p w0 q w' \<Longrightarrow> wd_transition w' = Holds t' \<Longrightarrow> wd_history w' = wd_history w \<Longrightarrow> wd_containers w' = wd_containers w \<Longrightarrow>
      (allows (pp_Result p) \<noteq> [] \<longrightarrow> wd_proxy w' \<noteq> None) \<Longrightarrow> Q t' w'"
  shows "wp b (commit_door a t r restarted) Q F C w"
proof -
  have C: "\<And>w. b \<Longrightarrow> committing a p w0 q w \<Longrightarrow> C w" using Cs by blast
  obtain tree pid after where j: "t = commit_journal ((journal a p w0 q)\<lparr>tr_Workspace := tree\<rparr>) p pid after" "ValidateDigestTree after"
    using w t by (auto simp: committing_def)
  have strays: "wd_strays w = []" using w by (simp add: committing_def)
  have g: "ws_Generation (tr_Successor t) = successor_generation w0" by (simp add: j successor_state_def)
  let ?y = "\<lparr>px_pid = ah_pid a (successor_generation w0), px_generation = successor_generation w0, px_allow = allows r\<rparr>"
  let ?t = "commit_journal ((journal a p w0 q)\<lparr>tr_Workspace := tree\<rparr>) p (ah_pid a (successor_generation w0)) after"
  have y: "door (successor_generation w0) (pp_Result p) ?y" by (simp add: door_def r)
  have w': "committing a p w0 q (w\<lparr>wd_proxy := Some ?y, wd_transition := Holds ?t\<rparr>)"
    using w j(2) y by (auto simp: committing_def)
  have again: "t\<lparr>tr_Successor := (tr_Successor t)\<lparr>ws_ProxyPID := ah_pid a (successor_generation w0)\<rparr>\<rparr> = ?t" by (simp only: j commit_again)
  have writable: "transition_writable ?t" using j(2) by (simp add: transition_writable_def transition_ok_def)
  show ?thesis
    unfolding commit_door_def
  proof (rule wp_bnd, rule wp_peek, rule wp_if)
    show "wp b (bnd (startProxy a (ws_Generation (tr_Successor t)) (allows r)) (\<lambda>pid.
       let t' = t\<lparr>tr_Successor := (tr_Successor t)\<lparr>ws_ProxyPID := pid\<rparr>\<rparr> in bnd (WriteTransition t') (\<lambda>_. ret t'))) Q F C w"
      using w C Cs strays ready y writable Q [OF w'] committing_updates(6) [OF w] committing_updates(7) [OF w y]
      by (auto simp: g again Let_def intro!: wp_bnd wp_startProxy wp_WriteTransition wp_ret)
  qed (use w t r Q strays ready in \<open>auto simp: proxyIsReady_def split: option.splits intro: wp_ret\<close>)
qed

lemma wp_commit:
  assumes w: "committing a p w0 q w" and t: "wd_transition w = Holds t" and world: "settled a w0 q" and fresh: "wd_containers w0 (successor_container w0 p) = None"
    and ready: "\<And>x. ah_ready a [] x" and p: "validatePreparedIntegrity p" "wire_result (pp_Result p)"
    and history: "prior_records (wd_history w) = Inr rs" and Cs: "\<And>w. b \<Longrightarrow> wd_strays w = [] \<longrightarrow> committing a p w0 q w \<Longrightarrow> C w"
  shows "wp b (commitTransition a t) (\<lambda>_. applied a p w0) F C w"
proof -
  have C: "\<And>w. b \<Longrightarrow> committing a p w0 q w \<Longrightarrow> C w" using Cs by blast
  let ?c = "successor_container w0 p" and ?g = "successor_generation w0" and ?r = "normal_result (pp_Result p)"
  obtain tree pid after where j: "t = commit_journal ((journal a p w0 q)\<lparr>tr_Workspace := tree\<rparr>) p pid after"
    using w t by (auto simp: committing_def)
  obtain x where x: "wd_containers w ?c = Some x" "confirms a ?c x (pp_Result p) ?g" and mounts: "mounts_valid a ?r"
    using w by (auto simp: committing_def)
  have s: "ws_Container (tr_Successor t) = ?c" "ws_Generation (tr_Successor t) = ?g" by (simp_all add: j successor_state_def)
  define K where "K = (\<lambda>w'. committing a p w0 q w' \<and> wd_transition w' = Holds t \<and> wd_history w' = wd_history w
    \<and> (\<exists>x. wd_containers w' ?c = Some x \<and> ct_running x))"
  have serve: "wp b (commit_serve a t ?r e restarted) (\<lambda>_. applied a p w0) F C w'"
    if "K w'" and "verifyRuntimeEvidence a e ?r ?g (app_mounts a ?r)" for w' e restarted
    unfolding commit_serve_def s using that mounts C history
    by (intro wp_bnd [of _ "check_mounts a ?r"] wp_mounts wp_bnd [of _ "demand _ _"] wp_demand wp_bnd [of _ "commit_door a t ?r restarted"]
        wp_commit_door [OF _ _ ready Cs] wp_bnd [of _ "startServices ?r"] wp_services wp_commit_files [OF _ _ world fresh])
      (auto simp: K_def)
  have running: "verifyRuntimeEvidence a (evidence_of a ?c (x\<lparr>ct_running := True\<rparr>)) ?r ?g (app_mounts a ?r)"
    using x(2) by (simp add: confirms_def)
  have started: "K (set_running True ?c w)" "wd_containers (set_running True ?c w) ?c = Some (x\<lparr>ct_running := True\<rparr>)"
    using committing_updates(8) [OF w] x t by (simp_all add: K_def) (simp_all add: set_running_def)
  have start: "wp b (bnd (if ct_running x then ret (evidence_of a ?c x, False)
       else bnd (backend_Start ?c) (\<lambda>_. bnd (backend_Inspect a ?c) (\<lambda>e. ret (e, True)))) (\<lambda>(e, restarted). commit_serve a t ?r e restarted))
       (\<lambda>_. applied a p w0) F C w"
  proof (cases "ct_running x")
    case True
    have "K w" using w t x True by (simp add: K_def)
    then show ?thesis using True serve [OF _ evidence_confirmed [THEN iffD2, OF True]] x(2) by (simp add: bnd_ret)
  next
    case False
    then show ?thesis using x C w serve [OF started(1) running] started C [of "set_running True ?c w"]
      by (auto simp: K_def intro!: wp_bnd [of _ "bnd _ _"] wp_bnd [of _ "backend_Start _"] wp_Start wp_bnd [of _ "backend_Inspect _ _"] wp_Inspect [OF started(2)] wp_ret)
  qed
  have reads: "preparedFromRecovery (tr_SuccessorDeclaration t) (tr_SuccessorPlan t) (source_path a (tr_Successor t)) (tr_Successor t)
      = Some \<lparr>pp_Raw = pp_Raw p, pp_Declaration = None, pp_Result = ?r, pp_Path = source_path a (tr_Successor t)\<rparr>"
    using recovery_reads [OF p(2) bound_successor [OF p(1)]] by (simp add: j)
  show ?thesis
    unfolding commitTransition_def Let_def reads option.case s
    by (rule wp_bnd, rule wp_Exists, rule wp_bnd, rule wp_demand, rule wp_bnd, rule wp_Inspect [OF x(1)]) (use x C w start in simp_all)
qed

text \<open>From each of the four situations, recovery ends with the predecessor or the successor in place.\<close>

lemma wp_recover:
  assumes "kept p w0 q w \<or> rolling a p w0 q w \<or> committing a p w0 q w \<or> applied a p w0 w" and world: "settled a w0 q"
    and fresh: "wd_containers w0 (successor_container w0 p) = None" and ready: "\<And>x. ah_ready a [] x" and p: "validatePreparedIntegrity p" "wire_result (pp_Result p)"
    and history: "prior_records (wd_history w) = Inr rs"
    and Cs: "\<And>w. b \<Longrightarrow> wd_strays w = [] \<longrightarrow> kept p w0 q w \<or> rolling a p w0 q w \<or> committing a p w0 q w \<or> applied a p w0 w \<Longrightarrow> C w"
  shows "wp b (recoverTransition a) (\<lambda>_ w'. kept p w0 q w' \<or> applied a p w0 w') F C w"
proof -
  have C: "\<And>w. b \<Longrightarrow> kept p w0 q w \<or> rolling a p w0 q w \<or> committing a p w0 q w \<or> applied a p w0 w \<Longrightarrow> C w" using Cs by blast
  note Cw = C [OF _ assms(1)]
  have read: "wp b (recoverTransition a) (\<lambda>_ w'. kept p w0 q w' \<or> applied a p w0 w') F C w"
    if "wd_transition w = Holds t" "transition_ok t"
      "wp b (if tr_Phase t = ''rollback'' then rollbackTransition a t else commitTransition a t) (\<lambda>_ w'. kept p w0 q w' \<or> applied a p w0 w') F C w" for t
    unfolding recoverTransition_def ReadTransition_def using that Cw by (intro wp_bnd wp_look) (auto intro: wp_ret)
  have idle: "wp b (recoverTransition a) (\<lambda>_ w'. kept p w0 q w' \<or> applied a p w0 w') F C w" if "kept p w0 q w \<or> applied a p w0 w" "wd_transition w = Missing"
    unfolding recoverTransition_def ReadTransition_def using that Cw by (intro wp_bnd wp_look) (simp_all add: wp_ret)
  from assms(1) show ?thesis
  proof (elim disjE)
    assume w: "rolling a p w0 q w"
    then obtain tree where t: "wd_transition w = Holds ((journal a p w0 q)\<lparr>tr_Workspace := tree\<rparr>)" by (auto simp: rolling_def)
    show ?thesis
      by (rule read [OF t]) (simp add: transition_ok_def, simp, rule wp_mono [OF wp_rollback [OF w t world fresh ready Cs]], auto)
  next
    assume w: "committing a p w0 q w"
    then obtain tree pid after where t: "wd_transition w = Holds (commit_journal ((journal a p w0 q)\<lparr>tr_Workspace := tree\<rparr>) p pid after)"
      by (auto simp: committing_def)
    show ?thesis
      by (rule read [OF t]) (simp add: transition_ok_def, simp, rule wp_mono [OF wp_commit [OF w t world fresh ready p history Cs]], auto)
  qed (rule idle; simp add: kept_def applied_def)+
qed

end
