(* ===== verification/World_Up.thy ===== *)
theory World_Up
  imports World_Recovery
begin

text \<open>
  Applying a change under a host that may die at any call: at every such moment the world is in one of the four situations of
  \<open>World_Recovery\<close>, so the next command finds the predecessor or the successor, or a journal that leads to one of them.
\<close>

section \<open>A change\<close>

text \<open>The conditions of a change, on the world, the declaration and the host.\<close>

definition changes :: "app_host \<Rightarrow> Prepared \<Rightarrow> world \<Rightarrow> Prepared \<Rightarrow> bool" where
  "changes a p w0 q =
     (settled a w0 q \<and> wd_containers w0 (successor_container w0 p) = None \<and> (\<forall>x. ah_ready a [] x) \<and> validatePreparedIntegrity p \<and> wire_result (pp_Result p)
      \<and> (\<forall>moment. ValidateDigestTree (ah_tree a moment)) \<and> is_ok (prior_records (wd_history w0))
      \<and> (\<forall>s. prior_of w0 = Some s \<longrightarrow> ws_PlanDigest s \<noteq> rs_PlanDigest (pp_Result p)))"

definition recoverable :: "app_host \<Rightarrow> Prepared \<Rightarrow> world \<Rightarrow> Prepared \<Rightarrow> world \<Rightarrow> bool" where
  "recoverable a p w0 q w = (wd_strays w = [] \<longrightarrow> kept p w0 q w \<or> rolling a p w0 q w \<or> committing a p w0 q w \<or> applied a p w0 w)"

lemma no_strays: "rolling a p w0 q w \<Longrightarrow> wd_strays w = []" "committing a p w0 q w \<Longrightarrow> wd_strays w = []"
  by (simp_all add: rolling_def committing_def)

lemma wp_recording:
  assumes "wp b f Q (\<lambda>w'. (\<forall>h. F (w'\<lparr>wd_history := h\<rparr>)) \<and> (b \<longrightarrow> C w')) C w"
  shows "wp b (recording a p d f) Q F C w"
proof -
  have "wp b (attempt (append_history a r)) (\<lambda>_. F) F C w'" if "\<forall>h. F (w'\<lparr>wd_history := h\<rparr>)" "b \<longrightarrow> C w'" for w' r
    using that that(1) [rule_format, of "wd_history w'"]
    by (auto simp: append_history_def split: sum.splits intro!: wp_attempt wp_bnd wp_look wp_step wp_refuse)
  then show ?thesis unfolding recording_def by (intro wp_on_error wp_mono [OF assms]) auto
qed

lemma wp_inspect_verified:
  assumes x: "wd_containers w n = Some x" and "b \<Longrightarrow> C w"
    and "verifyRuntimeEvidence a (evidence_of a n x) r g mounts \<Longrightarrow> Q () w" and "F w"
  shows "wp b (inspect_verified a n r g mounts) Q F C w"
  unfolding inspect_verified_def using assms by (intro wp_bnd wp_Inspect [OF x] wp_demand) auto

lemma wp_Stop_any:
  assumes "I w" and "I (set_running False n w)" and "b \<Longrightarrow> C w"
  shows "wp b (backend_Stop n) (\<lambda>_. I) I C w"
  using assms by (auto simp: backend_Stop_def present_def intro!: wp_bnd wp_look wp_demand wp_step)

section \<open>Undoing a change that failed\<close>

lemma set_running_other:
  "n \<noteq> ws_Container s \<Longrightarrow> wd_containers w0 n = None \<Longrightarrow> rolling a p w0 q w \<Longrightarrow> rolling a p w0 q (set_running r n w)"
  unfolding set_running_def by (rule rolling_updates(7))

lemma wp_rollback_up:
  assumes "rolling a p w0 q w" and world: "settled a w0 q" and ready: "\<And>x. ah_ready a [] x" and Cs: "\<And>w. b \<Longrightarrow> wd_strays w = [] \<longrightarrow> rolling a p w0 q w \<Longrightarrow> C w"
  shows "wp b (rollback_up a (known_prior w0 q)) (\<lambda>_. rolling a p w0 q) (rolling a p w0 q) C w"
proof (cases "active_in w0")
  case True
  then obtain s where s: "prior_of w0 = Some s" by (auto simp: active_in_def split: option.splits)
  obtain x0 where x0: "wd_containers w0 (ws_Container s) = Some x0" "confirms a (ws_Container s) x0 (pp_Result q) (ws_Generation s)"
    and q: "mounts_valid a (pp_Result q)" using settled_prior [OF world s] by blast
  then obtain x where x: "wd_containers w (ws_Container s) = Some x" "confirms a (ws_Container s) x (pp_Result q) (ws_Generation s)"
    using assms(1) s by (auto simp: rolling_def keeps_container_def)
  have "wp b (restorePredecessor a s q) (\<lambda>_ w'. rolling a p w0 q w' \<and> served s q w') (rolling a p w0 q) C w"
    by (rule wp_restore [of "rolling a p w0 q", where x = x]) (use assms(1) Cs rolling_updates no_strays s x q ready in simp_all)
  then show ?thesis using True s by (auto simp: rollback_up_def known_prior_def intro: wp_mono)
qed (use assms in \<open>simp add: rollback_up_def known_prior_def wp_ret\<close>)

lemma wp_up_undo:
  assumes "rolling a p w0 q w" and world: "settled a w0 q" and fresh: "wd_containers w0 (successor_container w0 p) = None" and ready: "\<And>x. ah_ready a [] x"
    and Cs: "\<And>w. b \<Longrightarrow> wd_strays w = [] \<longrightarrow> rolling a p w0 q w \<Longrightarrow> C w"
  shows "wp b (up_undo a (known_prior w0 q) (successor_container w0 p) started proxied cutover True) (\<lambda>_ _. True) (\<lambda>_. True) C w"
proof -
  have C: "\<And>w. b \<Longrightarrow> rolling a p w0 q w \<Longrightarrow> C w" using Cs by blast
  let ?R = "rolling a p w0 q" and ?c = "successor_container w0 p"
  have proxy: "wp b (if proxied then attempt stopProxy else ret []) (\<lambda>_. ?R) (\<lambda>_. True) C w'" if "?R w'" for w'
    using that C rolling_updates(1) [OF that] by (auto intro!: wp_attempt wp_stopProxy wp_ret)
  have stop: "wp b (if started then attempt (backend_Stop ?c) else ret []) (\<lambda>_. ?R) (\<lambda>_. True) C w'" if "?R w'" for w'
    using that C rolling_updates(7) [OF that fresh]
    by (auto simp: set_running_def intro!: wp_attempt wp_mono [OF wp_Stop_any [where I = ?R and C = C]] wp_ret)
  have undo: "wp b (if cutover then attempt (rollback_up a (known_prior w0 q)) else ret []) (\<lambda>_. ?R) (\<lambda>_. True) C w'" if "?R w'" for w'
    using that wp_rollback_up [OF that world ready Cs] by (auto intro!: wp_attempt wp_ret intro: wp_mono)
  have destroy: "wp b (attempt (backend_Destroy ?c)) (\<lambda>_. ?R) (\<lambda>_. True) C w'" if "?R w'" for w'
    using that C rolling_updates(7) [OF that fresh] by (auto intro!: wp_attempt wp_Destroy)
  show ?thesis
    unfolding up_undo_def
    by (rule wp_bnd, rule wp_mono [OF proxy [OF assms(1)]], rule wp_bnd, erule wp_mono [OF stop], rule wp_bnd, erule wp_mono [OF undo],
      rule wp_bnd, erule wp_mono [OF destroy]) (use C in \<open>auto intro!: wp_attempt wp_ClearTransition wp_ret\<close>)
qed

section \<open>The stages of a change\<close>

text \<open>The world once the successor is created, and once the journal asks to go back.\<close>

definition staged :: "app_host \<Rightarrow> Prepared \<Rightarrow> world \<Rightarrow> Prepared \<Rightarrow> bool \<Rightarrow> world \<Rightarrow> bool" where
  "staged a p w0 q running w = (rolling a p w0 q w \<and> wd_history w = wd_history w0 \<and> (\<exists>x. wd_containers w (successor_container w0 p) = Some x \<and> ct_running x = running))"

lemma kept_settled:
  assumes "settled a w0 q" and "wd_containers w0 (successor_container w0 p) = None" and "\<And>y. x = Some y \<Longrightarrow> \<not> ct_running y"
  shows "kept p w0 q (w0\<lparr>wd_containers := (wd_containers w0)(successor_container w0 p := x)\<rparr>)"
proof (cases "prior_of w0")
  case None
  then show ?thesis using assms by (auto simp: kept_def settled_def keeps_files_def keeps_container_def keeps_service_def prior_of_def split: stored.splits)
next
  case (Some s)
  have state: "wd_state w0 = Holds (s\<lparr>ws_ProxyPID := ws_ProxyPID s, ws_Status := ws_Status s\<rparr>)" using Some by (auto simp: prior_of_def split: stored.splits)
  obtain y where y: "wd_containers w0 (ws_Container s) = Some y" using settled_prior [OF assms(1) Some] by blast
  have same: "y\<lparr>ct_running := ct_running y\<rparr> = y" by simp
  have c: "successor_container w0 p \<noteq> ws_Container s" using prior_distinct [OF assms(1) Some assms(2)] by simp
  have "keeps_container w0 (w0\<lparr>wd_containers := (wd_containers w0)(successor_container w0 p := x)\<rparr>)"
    using Some y c same by (auto simp: keeps_container_def) (metis same)
  moreover have "keeps_files w0 q (w0\<lparr>wd_containers := (wd_containers w0)(successor_container w0 p := x)\<rparr>)"
    using Some state assms(1) loaded_bound [of a s w0 q] by (auto simp: keeps_files_def settled_def intro!: exI [of _ "ws_ProxyPID s"] exI [of _ "ws_Status s"])
  ultimately show ?thesis
    using assms Some c by (auto simp: kept_def settled_def keeps_service_def serves_def)
qed

lemma wp_materialize:
  assumes "Q () w" and "b \<Longrightarrow> C w"
  shows "wp b (stage_materialize a p) Q F C w"
  unfolding stage_materialize_def using assms by (intro wp_on_failure wp_bnd wp_recording wp_step) simp_all

lemma load_cases:
  assumes "loadPredecessor a s [] w = (Done q, [], w)"
  obtains raw rawPlan where "wd_applied w = Some raw" "wd_plan w = Some rawPlan" "preparedFromRecovery raw rawPlan (source_path a s) s = Some q"
  | raw where "wd_applied w = Some raw" "wd_plan w = None" "PrepareBytes a raw (source_path a s) = Some q"
      "rs_PlanDigest (pp_Result q) = ws_PlanDigest s" "rs_DeclarationDigest (pp_Result q) = ws_DeclarationDigest s"
  using assms by (auto simp: loadPredecessor_def bnd_def look_def script_head_def refuse_def ret_def demand_def split: option.splits if_splits)

lemma wp_load:
  assumes "loadPredecessor a s [] w = (Done q, [], w)" and "Q q w" and "b \<Longrightarrow> C w"
  shows "wp b (loadPredecessor a s) Q F C w"
  using assms(1) by (rule load_cases) (use assms(2,3) in \<open>auto simp: loadPredecessor_def intro!: wp_bnd wp_look wp_demand wp_ret\<close>)

text \<open>Cutover keeps the journal that asks to go back, and leaves the successor started.\<close>

lemma wp_cutover:
  assumes w: "staged a p w0 q False w" and change: "changes a p w0 q" and C: "\<And>w. b \<Longrightarrow> rolling a p w0 q w \<Longrightarrow> C w"
    and Q: "\<And>t' w'. staged a p w0 q True w' \<Longrightarrow> (\<exists>tree. t' = (journal a p w0 q)\<lparr>tr_Workspace := tree\<rparr>) \<Longrightarrow> Q t' w'"
  shows "wp b (stage_cutover a p (known_prior w0 q) (journal a p w0 q) (successor_container w0 p)) Q F C w"
proof -
  let ?c = "successor_container w0 p" and ?t = "(journal a p w0 q)\<lparr>tr_Workspace := ah_tree a ''cutover''\<rparr>"
  have world: "settled a w0 q" and fresh: "wd_containers w0 ?c = None" and tree: "ValidateDigestTree (ah_tree a ''cutover'')"
    using change by (simp_all add: changes_def)
  have stop: "wp b (if active_in w0 then bnd stopProxy (\<lambda>_. recording a p ''stop predecessor''
      (backend_Stop (case prior_of w0 of Some s \<Rightarrow> ws_Container s | None \<Rightarrow> []))) else ret ()) (\<lambda>_. staged a p w0 q False) F C w"
  proof (cases "active_in w0")
    case True
    then obtain s where s: "prior_of w0 = Some s" by (auto simp: active_in_def split: option.splits)
    have present: "wd_containers w (ws_Container s) \<noteq> None" using w s by (auto simp: staged_def rolling_def keeps_container_def)
    have roll: "rolling a p w0 q w" using w by (simp add: staged_def)
    note r1 = rolling_updates(1) [OF roll, of None]
    have "staged a p w0 q False (set_running False (ws_Container s) (w\<lparr>wd_proxy := None\<rparr>))"
      using w rolling_updates(3) [OF r1 s] prior_distinct [OF world s fresh] by (auto simp: staged_def set_running_def)
    then show ?thesis using True s roll r1 present C by (auto intro!: wp_bnd wp_stopProxy wp_recording wp_Stop)
  qed (use w in \<open>simp add: wp_ret\<close>)
  have journals: "rolling a p w0 q (w'\<lparr>wd_transition := Holds ?t\<rparr>)" if "rolling a p w0 q w'" for w'
    using that by (auto simp: rolling_def keeps_files_def keeps_container_def split: option.splits)
  have start: "wp b (bnd (look ''digest workspace'' (\<lambda>_. ah_tree a ''cutover'')) (\<lambda>tree. let t' = (journal a p w0 q)\<lparr>tr_Workspace := tree\<rparr> in
      bnd (WriteTransition t') (\<lambda>_. bnd (recording a p ''start successor'' (backend_Start ?c)) (\<lambda>_. ret t')))) Q F C w'"
    if w': "staged a p w0 q False w'" for w'
  proof -
    have roll: "rolling a p w0 q w'" using w' by (simp add: staged_def)
    have "staged a p w0 q True (set_running True ?c (w'\<lparr>wd_transition := Holds ?t\<rparr>))"
      using w' rolling_updates(7) [OF journals [OF roll] fresh] by (auto simp: staged_def set_running_def)
    then show ?thesis
      using w' roll journals [OF roll] C tree
      by (auto simp: Let_def transition_writable_def transition_ok_def staged_def intro!: wp_bnd wp_look wp_WriteTransition wp_recording wp_Start wp_ret Q)
  qed
  show ?thesis
    unfolding stage_cutover_def using wp_mono [OF stop, where C' = C and F' = F] start
    by (intro wp_bnd) (auto simp: known_prior_def intro: wp_mono)
qed

text \<open>The network door of the successor.\<close>

definition doored :: "Prepared \<Rightarrow> world \<Rightarrow> world \<Rightarrow> bool" where
  "doored p w0 w = (allows (pp_Result p) \<noteq> [] \<longrightarrow> (\<exists>y. wd_proxy w = Some y \<and> door (successor_generation w0) (pp_Result p) y))"

definition confirmed :: "app_host \<Rightarrow> Prepared \<Rightarrow> world \<Rightarrow> world \<Rightarrow> bool" where
  "confirmed a p w0 w = (\<exists>x. wd_containers w (successor_container w0 p) = Some x \<and> ct_running x
     \<and> confirms a (successor_container w0 p) x (pp_Result p) (successor_generation w0))"

lemma wp_confirm:
  assumes w: "staged a p w0 q True w" and C: "\<And>w. b \<Longrightarrow> rolling a p w0 q w \<Longrightarrow> C w" and "confirmed a p w0 w \<Longrightarrow> Q () w"
  shows "wp b (recording a p d (inspect_verified a (successor_container w0 p) (pp_Result p) (successor_generation w0) (app_mounts a (pp_Result p)))) Q
    (rolling a p w0 q) C w"
proof -
  obtain x where x: "wd_containers w (successor_container w0 p) = Some x" "ct_running x" and roll: "rolling a p w0 q w"
    using w by (auto simp: staged_def)
  show ?thesis
    by (intro wp_recording wp_inspect_verified [OF x(1)])
      (use x roll C rolling_updates(2) [OF roll] assms(3) evidence_confirmed [OF x(2)] in \<open>auto simp: confirmed_def\<close>)
qed

lemma wp_boundary:
  assumes w: "staged a p w0 q True w" and ready: "\<And>x. ah_ready a [] x" and Cs: "\<And>w. b \<Longrightarrow> wd_strays w = [] \<longrightarrow> rolling a p w0 q w \<Longrightarrow> C w"
  shows "wp b (stage_boundary a p (successor_generation w0) (successor_container w0 p) (app_mounts a (pp_Result p)))
    (\<lambda>_ w'. staged a p w0 q True w' \<and> doored p w0 w') (rolling a p w0 q) C w"
proof -
  have C: "\<And>w. b \<Longrightarrow> rolling a p w0 q w \<Longrightarrow> C w" using Cs by blast
  have roll: "rolling a p w0 q w" using w by (simp add: staged_def)
  have proxied: "staged a p w0 q True (w\<lparr>wd_proxy := y\<rparr>)" for y
    using w rolling_updates(1) [OF roll, of y] by (auto simp: staged_def)
  obtain x where x: "wd_containers w (successor_container w0 p) = Some x" using w by (auto simp: staged_def)
  show ?thesis
    unfolding stage_boundary_def
    by (intro wp_bnd [of _ "recording _ _ _ (backend_Inspect _ _)"] wp_bnd [of _ "recording _ _ _ (demand _ _)"] wp_recording wp_Inspect [OF x] wp_demand
        wp_if wp_startProxy wp_ret)
      (use w ready roll C Cs no_strays(1) [OF roll] rolling_updates(1) [OF roll, of None] rolling_updates(2) [OF roll] proxied in \<open>auto simp: doored_def door_def\<close>)
qed

lemma wp_verify:
  assumes w: "staged a p w0 q True w" and C: "\<And>w. b \<Longrightarrow> rolling a p w0 q w \<Longrightarrow> C w" and Q: "confirmed a p w0 w \<Longrightarrow> Q (ah_tree a ''after'') w"
  shows "wp b (stage_verify a p (successor_generation w0) (successor_container w0 p) (app_mounts a (pp_Result p))) Q (rolling a p w0 q) C w"
proof -
  have roll: "rolling a p w0 q w" using w by (simp add: staged_def)
  show ?thesis
    unfolding stage_verify_def
    by (rule wp_bnd, intro wp_recording wp_services wp_bnd [of _ "recording _ _ _ _"] wp_confirm [OF w C] wp_look) (use C roll Q in auto)
qed

text \<open>Once the commit is journalled, every further step only completes it.\<close>

definition published :: "app_host \<Rightarrow> Prepared \<Rightarrow> world \<Rightarrow> Prepared \<Rightarrow> world \<Rightarrow> bool" where
  "published a p w0 q w =
     (committing a p w0 q w \<and> doored p w0 w \<and> confirmed a p w0 w \<and> wd_applied w = Some (pp_Raw p) \<and> wd_plan w = Some (encodeRecoveryPlan (pp_Result p))
      \<and> (\<exists>pid. wd_state w = Holds ((successor_state a p (successor_generation w0) (successor_container w0 p))\<lparr>ws_Status := ''running'', ws_ProxyPID := pid\<rparr>)))"

lemma wp_stage_commit:
  assumes w: "staged a p w0 q True w" and door: "doored p w0 w" and confirmed: "confirmed a p w0 w" and mounts: "mounts_valid a (pp_Result p)"
    and change: "changes a p w0 q" and t: "t = (journal a p w0 q)\<lparr>tr_Workspace := tree\<rparr>"
    and C: "\<And>w. b \<Longrightarrow> recoverable a p w0 q w \<Longrightarrow> C w"
  shows "wp b (stage_commit a p (commit_journal t p pid (ah_tree a ''after'')) (successor_generation w0)) (\<lambda>_. published a p w0 q) F C w"
proof -
  let ?j = "commit_journal t p pid (ah_tree a ''after'')" and ?s = "(successor_state a p (successor_generation w0) (successor_container w0 p))\<lparr>ws_Status := ''running'', ws_ProxyPID := pid\<rparr>"
  have tree: "ValidateDigestTree (ah_tree a ''after'')" and history: "is_ok (prior_records (wd_history w0))" using change by (simp_all add: changes_def)
  then obtain rs where rs: "prior_records (wd_history w) = Inr rs" using w by (auto simp: staged_def is_ok_def split: sum.splits)
  define w1 where "w1 = w\<lparr>wd_transition := Holds ?j\<rparr>"
  have w1: "committing a p w0 q w1"
    using confirmed mounts door tree no_strays(1) [of a p w0 q w] w by (auto simp: w1_def staged_def committing_def confirmed_def doored_def t)
  note up = committing_updates
  have start: "b \<Longrightarrow> C w" and C1: "\<And>w. b \<Longrightarrow> committing a p w0 q w \<Longrightarrow> C w" using C w by (auto simp: recoverable_def staged_def)
  have files: "committing a p w0 q (w1\<lparr>wd_digests := d\<rparr>)" "committing a p w0 q (w1\<lparr>wd_digests := d, wd_applied := x\<rparr>)"
    "committing a p w0 q (w1\<lparr>wd_digests := d, wd_applied := x, wd_plan := y\<rparr>)" "committing a p w0 q (w1\<lparr>wd_digests := d, wd_applied := x, wd_plan := y, wd_state := z\<rparr>)"
    "committing a p w0 q (w1\<lparr>wd_digests := d, wd_applied := x, wd_plan := y, wd_state := z, wd_history := h\<rparr>)" for d x y z h
    using w1 by (simp_all add: up)
  have last: "published a p w0 q (w1\<lparr>wd_digests := d, wd_applied := Some (pp_Raw p), wd_plan := Some (encodeRecoveryPlan (pp_Result p)), wd_state := Holds ?s, wd_history := h\<rparr>)" for d h
    using files(5) door confirmed by (auto simp: published_def doored_def confirmed_def w1_def)
  have writable: "transition_writable ?j" using tree by (simp add: transition_writable_def transition_ok_def t)
  show ?thesis
    unfolding stage_commit_def
    by (intro wp_bnd wp_WriteTransition [OF writable] wp_WriteDigest wp_WriteApplied wp_WriteAppliedPlan wp_WriteState wp_history_once [where rs = rs])
      (use start w1 files last rs tree C1 in \<open>simp_all add: t w1_def\<close>)
qed

lemma wp_finish:
  assumes w: "published a p w0 q w" and change: "changes a p w0 q" and C: "\<And>w. b \<Longrightarrow> recoverable a p w0 q w \<Longrightarrow> C w"
  shows "wp b (finish_up (known_prior w0 q) (successor_container w0 p)) (\<lambda>_. applied a p w0) F C w"
proof -
  have world: "settled a w0 q" and fresh: "wd_containers w0 (successor_container w0 p) = None" using change by (simp_all add: changes_def)
  have first: "applied a p w0 (w\<lparr>wd_transition := Missing\<rparr>)" if "prior_of w0 = None"
    using w that no_strays(2) by (auto simp: published_def applied_def doored_def confirmed_def)
  have removed: "applied a p w0 (w\<lparr>wd_containers := (wd_containers w)(ws_Container s := None), wd_transition := Missing\<rparr>)"
      "committing a p w0 q (w\<lparr>wd_containers := (wd_containers w)(ws_Container s := None)\<rparr>)" if "prior_of w0 = Some s" for s
    using w that no_strays(2) [of a p w0 q w] prior_distinct [OF world that fresh] committing_updates(9) [of a p w0 q w "ws_Container s" None]
    by (auto simp: published_def applied_def doored_def confirmed_def)
  have C1: "b \<Longrightarrow> C w'" if "committing a p w0 q w'" for w' using C that by (simp add: recoverable_def)
  show ?thesis
  proof (cases "prior_of w0")
    case None
    then show ?thesis using w C1 first by (auto simp: finish_up_def known_prior_def published_def intro!: wp_bnd wp_ret wp_ClearTransition)
  next
    case (Some s)
    then show ?thesis using w C1 removed [OF Some] prior_distinct [OF world Some fresh]
      by (auto simp: finish_up_def known_prior_def published_def intro!: wp_bnd wp_Destroy wp_ClearTransition)
  qed
qed

text \<open>From a created successor to the cleared journal.\<close>

lemma wp_generation:
  assumes change: "changes a p w0 q" and mounts: "mounts_valid a (pp_Result p)"
    and w: "w = w0\<lparr>wd_containers := (wd_containers w0)(successor_container w0 p \<mapsto> x)\<rparr>" and x: "\<not> ct_running x"
    and C: "\<And>w. b \<Longrightarrow> recoverable a p w0 q w \<Longrightarrow> C w"
  shows "wp b (replace_generation a p (known_prior w0 q) (successor_generation w0) (app_mounts a (pp_Result p)) (successor_container w0 p))
    (\<lambda>_. applied a p w0) (\<lambda>_. True) C w"
proof -
  let ?c = "successor_container w0 p" and ?R = "rolling a p w0 q"
  have world: "settled a w0 q" and fresh: "wd_containers w0 ?c = None" and ready: "\<And>x. ah_ready a [] x" using change by (simp_all add: changes_def)
  have CR: "b \<Longrightarrow> C w'" if "?R w'" for w' using C that by (simp add: recoverable_def)
  have CS: "b \<Longrightarrow> C w'" if "wd_strays w' = [] \<longrightarrow> ?R w'" for w' using C that by (auto simp: recoverable_def)
  have kept: "kept p w0 q w" unfolding w using x by (intro kept_settled [OF world fresh]) simp
  have staged: "staged a p w0 q False (w\<lparr>wd_transition := Holds (journal a p w0 q)\<rparr>)"
    using kept x by (auto simp: staged_def rolling_def kept_def w keeps_files_def keeps_container_def split: option.splits intro!: exI [of _ "tr_Workspace (journal a p w0 q)"])
  have t: "rollback_journal a p (known_prior w0 q) (successor_generation w0) ?c = journal a p w0 q" by (simp add: journal_def)
  have writable: "transition_writable (journal a p w0 q)"
    by (simp add: journal_def rollback_journal_def Let_def transition_writable_def transition_ok_def no_tree_def)
  note undo = wp_up_undo [OF _ world fresh ready CS]
  have first: "wp b (on_failure u (bnd (stage_materialize a p) (\<lambda>_. WriteTransition (journal a p w0 q)))) (\<lambda>_. staged a p w0 q False) (\<lambda>_. True) C w" for u
    by (intro wp_on_failure wp_bnd wp_materialize wp_WriteTransition [OF writable]) (use staged kept C in \<open>simp_all add: recoverable_def\<close>)
  have cutover: "wp b (on_failure (up_undo a (known_prior w0 q) ?c False False ac True) (stage_cutover a p (known_prior w0 q) (journal a p w0 q) ?c))
      (\<lambda>t' w'. staged a p w0 q True w' \<and> (\<exists>tree. t' = (journal a p w0 q)\<lparr>tr_Workspace := tree\<rparr>)) (\<lambda>_. True) C w'" if "staged a p w0 q False w'" for w' ac
    by (rule wp_on_failure, rule wp_cutover [OF that change CR]) auto
  have boundary: "wp b (on_failure (up_undo a (known_prior w0 q) ?c True False ac True) (stage_boundary a p (successor_generation w0) ?c (app_mounts a (pp_Result p))))
      (\<lambda>_ w'. staged a p w0 q True w' \<and> doored p w0 w') (\<lambda>_. True) C w'" if "staged a p w0 q True w'" for w' ac
    by (rule wp_on_failure, rule wp_mono [OF wp_boundary [OF that ready CS]]) (auto intro: undo)
  have commit: "wp b (on_failure (up_undo a (known_prior w0 q) ?c True pr ac True)
        (bnd (stage_verify a p (successor_generation w0) ?c (app_mounts a (pp_Result p))) (\<lambda>after. stage_commit a p (commit_journal t' p pid after) (successor_generation w0))))
      (\<lambda>_. published a p w0 q) (\<lambda>_. True) C w'" if w': "staged a p w0 q True w'" "doored p w0 w'" and t': "t' = (journal a p w0 q)\<lparr>tr_Workspace := tree\<rparr>" for w' t' tree pid pr ac
    by (rule wp_on_failure, rule wp_bnd, rule wp_mono [OF wp_verify [OF w'(1) CR, where Q = "\<lambda>after w2. after = ah_tree a ''after'' \<and> w2 = w' \<and> confirmed a p w0 w'"]])
      (auto intro: undo intro!: wp_stage_commit [OF w' _ mounts change t' C])
  show ?thesis
    unfolding replace_generation_def Let_def t
    by (rule wp_bnd, rule wp_mono [OF first], rule wp_bnd, erule wp_mono [OF cutover], elim conjE exE, rule wp_bnd, rule wp_mono [OF boundary], assumption,
      elim conjE, rule wp_bnd, rule wp_mono [OF commit], assumption, assumption, assumption, rule wp_finish [OF _ change C]) simp_all
qed

lemma wp_check_mounts:
  assumes "mounts_valid a r \<Longrightarrow> Q (app_mounts a r) w" and "F w" and "b \<Longrightarrow> C w"
  shows "wp b (check_mounts a r) Q F C w"
  using assms by (auto simp: check_mounts_def mounts_valid_def intro!: wp_bnd wp_demand wp_idle_loop wp_ret)

lemma kept_start: "changes a p w0 q \<Longrightarrow> kept p w0 q w0"
  using kept_settled [of a w0 q p None] by (simp add: changes_def fun_upd_idem)

lemma wp_create:
  assumes change: "changes a p w0 q" and C: "\<And>w. b \<Longrightarrow> recoverable a p w0 q w \<Longrightarrow> C w"
    and Q: "\<And>x. \<not> ct_running x \<Longrightarrow> Q (successor_container w0 p) (w0\<lparr>wd_containers := (wd_containers w0)(successor_container w0 p \<mapsto> x)\<rparr>)"
  shows "wp b (recording a p d (backend_Create a (pp_Result p) (successor_generation w0) mounts)) Q (\<lambda>_. True) C w0"
proof -
  have "b \<Longrightarrow> C w0" using kept_start [OF change] C by (simp add: recoverable_def)
  then show ?thesis using change Q unfolding backend_Create_def Let_def
    by (intro wp_recording wp_bnd wp_demand wp_look wp_step wp_ret) (auto simp: changes_def successor_container_def)
qed

lemma wp_replace_prior:
  assumes change: "changes a p w0 q" and C: "\<And>w. b \<Longrightarrow> recoverable a p w0 q w \<Longrightarrow> C w"
  shows "wp b (replace_prior a p (prior_of w0) (prior_of w0 \<noteq> None) (active_in w0)) (\<lambda>_. applied a p w0) (\<lambda>_. True) C w0"
proof -
  have C0: "b \<Longrightarrow> C w0" using kept_start [OF change] C by (simp add: recoverable_def)
  have world: "settled a w0 q" using change by (simp add: changes_def)
  have load: "wp b (case prior_of w0 of
            Some s \<Rightarrow> if ws_Container s \<noteq> [] then bnd (loadPredecessor a s) (\<lambda>q. ret (Some q)) else ret None
          | None \<Rightarrow> ret None) (\<lambda>intent w. intent = map_option (\<lambda>_. q) (prior_of w0) \<and> w = w0) (\<lambda>_. True) C w0"
    using world C0 by (auto simp: settled_def split: option.splits intro!: wp_bnd wp_load [where q = q] wp_ret)
  have create: "wp b (bnd (recording a p ''create'' (backend_Create a (pp_Result p) (successor_generation w0) (app_mounts a (pp_Result p)))) (\<lambda>container.
      replace_generation a p (known_prior w0 q) (successor_generation w0) (app_mounts a (pp_Result p)) container)) (\<lambda>_. applied a p w0) (\<lambda>_. True) C w0"
    if "mounts_valid a (pp_Result p)"
    by (rule wp_bnd, rule wp_create [OF change C], assumption, assumption, rule wp_generation [OF change that refl _ C])
  show ?thesis
    unfolding replace_prior_def
    by (rule wp_bnd, rule wp_mono [OF load], elim conjE, hypsubst, intro wp_bnd [of _ "demand _ _"] wp_demand wp_bnd [of _ "peek _"] wp_peek
        wp_bnd [of _ "look _ _"] wp_look wp_bnd [of _ "check_mounts _ _"] wp_check_mounts)
      (use C0 create in \<open>simp_all add: known_prior_def successor_generation_def\<close>)
qed

lemma wp_observe:
  assumes world: "settled a w0 q" and "Q (prior_of w0, prior_of w0 \<noteq> None, active_in w0) w0" and "b \<Longrightarrow> C w0"
  shows "wp b (observe_prior a) Q F C w0"
proof (cases "prior_of w0")
  case None
  then have "wd_state w0 = Missing" using world by (auto simp: settled_def prior_of_def split: stored.splits)
  then show ?thesis using None assms(2,3) by (auto simp: observe_prior_def ReadState_def active_in_def intro!: wp_bnd wp_look wp_ret)
next
  case (Some s)
  then have state: "wd_state w0 = Holds s" by (auto simp: prior_of_def split: stored.splits)
  obtain x where x: "wd_containers w0 (ws_Container s) = Some x" using settled_prior [OF world Some] by blast
  have "ws_Container s \<noteq> []" using world Some by (simp add: settled_def)
  then show ?thesis
    using Some state x assms(2,3) by (auto simp: observe_prior_def ReadState_def active_in_def intro!: wp_bnd wp_look wp_ret wp_Exists wp_Inspect [OF x])
qed

lemma wp_Up:
  assumes change: "changes a p w0 q" and C: "\<And>w. b \<Longrightarrow> recoverable a p w0 q w \<Longrightarrow> C w"
  shows "wp b (Up a p) (\<lambda>_. applied a p w0) (\<lambda>_. True) C w0"
proof -
  have C0: "b \<Longrightarrow> C w0" using kept_start [OF change] C by (simp add: recoverable_def)
  have world: "settled a w0 q" using change by (simp add: changes_def)
  have recover: "wp b (recoverTransition a) (\<lambda>_ w. w = w0) (\<lambda>_. True) C w0"
    using world C0 by (auto simp: recoverTransition_def ReadTransition_def settled_def intro!: wp_bnd wp_look wp_ret)
  have new: "(case prior_of w0 of
            Some s \<Rightarrow> if ws_PlanDigest s = rs_PlanDigest (pp_Result p) \<and> ws_Container s \<noteq> [] \<and> prior_of w0 \<noteq> None then adopt a s p (active_in w0) else ret False
          | None \<Rightarrow> ret False) = ret False"
    using change by (auto simp: changes_def split: option.splits)
  have replace: "wp b (replace_prior a p (prior_of w0) (prior_of w0 \<noteq> None) (active_in w0)) (\<lambda>_. applied a p w0) (\<lambda>_. True) C w0"
    by (rule wp_replace_prior [OF change C])
  have rest: "wp b (bnd (observe_prior a) (\<lambda>(prior, exists, active). bnd (case prior of
            Some s \<Rightarrow> if ws_PlanDigest s = rs_PlanDigest (pp_Result p) \<and> ws_Container s \<noteq> [] \<and> exists then adopt a s p active else ret False
          | None \<Rightarrow> ret False) (\<lambda>adopted. if adopted then ret () else replace_prior a p prior exists active))) (\<lambda>_. applied a p w0) (\<lambda>_. True) C w0"
    by (rule wp_bnd, rule wp_observe [OF world]) (simp_all only: prod.case new bnd_ret if_False replace C0)
  show ?thesis
    unfolding Up_def
    by (intro wp_bnd [of _ "demand _ _"] wp_demand wp_bnd [of _ "step _ _"] wp_step wp_bnd [of _ "recoverTransition a"])
      (use C0 rest in \<open>auto intro: wp_mono [OF recover]\<close>)
qed

section \<open>Death and recovery\<close>

text \<open>
  The worlds that processes which die leave behind: the one that applies, then any number that recover, each of which finds a history that
  verifies and no proxy process that \<^verbatim>\<open>proxy.pid\<close> does not name.
\<close>

inductive died :: "app_host \<Rightarrow> Prepared \<Rightarrow> world \<Rightarrow> world \<Rightarrow> bool" for a p w0 where
  applying: "list_all (\<lambda>e. e = Proceed \<or> e = Crash) es \<Longrightarrow> Up a p es w0 = (Crashed, es', w) \<Longrightarrow> died a p w0 w"
| recovering: "died a p w0 w \<Longrightarrow> is_ok (prior_records (wd_history w)) \<Longrightarrow> wd_strays w = [] \<Longrightarrow> list_all (\<lambda>e. e = Proceed \<or> e = Crash) es \<Longrightarrow>
    recoverTransition a es w = (Crashed, es', w') \<Longrightarrow> died a p w0 w'"

lemma wp_recoverable:
  assumes "changes a p w0 q" and "recoverable a p w0 q w" and "is_ok (prior_records (wd_history w))" and "wd_strays w = []"
  shows "wp b (recoverTransition a) (\<lambda>_ w'. kept p w0 q w' \<or> applied a p w0 w') F (\<lambda>w. b \<and> recoverable a p w0 q w) w"
  using assms by (auto simp: is_ok_def changes_def recoverable_def split: sum.splits intro!: wp_recover)

lemma died_recoverable:
  assumes "died a p w0 w" and "changes a p w0 q"
  shows "recoverable a p w0 q w"
  using assms(1)
proof (induction rule: died.induct)
  case (applying es es' w)
  have "wp True (Up a p) (\<lambda>_. applied a p w0) (\<lambda>_. True) (recoverable a p w0 q) w0" by (rule wp_Up [OF assms(2)])
  then show ?case using applying by (rule wp_Crashed)
next
  case (recovering w es es' w')
  then show ?case using wp_Crashed [OF wp_recoverable [OF assms(2) recovering.IH recovering.hyps(2,3)]] by blast
qed

text \<open>
  C4: Processes that die while they apply a change, or while they recover from such a death, can be replaced by one that recovers. The change starts
  from a settled world (nothing applied, or a predecessor whose container, restarted, passes verification), its plan is a new one whose
  documents can be written, the name of its container is free, and the host then only proceeds or lets the process die, with proxies that answer when no other
  process holds their port. At whatever calls the processes die, a recovery that is not interrupted then succeeds, provided the
  history verifies (no append was cut) and every live proxy process is the one that \<^verbatim>\<open>proxy.pid\<close> names (no death fell between launching a proxy and writing
  its identity). It leaves no journal and either the predecessor in place (its state, declaration and plan, its container,
  running behind its network door when it ran before, the successor removed or never started) or the successor (its state,
  declaration and plan, its running container behind its door, the predecessor removed).
\<close>

theorem crash_safe:
  assumes "changes a p w0 q" and "died a p w0 w" and "is_ok (prior_records (wd_history w))" and "wd_strays w = []"
  shows "\<exists>es w'. recoverTransition a [] w = (Done (), es, w') \<and> (kept p w0 q w' \<or> applied a p w0 w')"
proof -
  have "wp False (recoverTransition a) (\<lambda>_ w'. kept p w0 q w' \<or> applied a p w0 w') (\<lambda>_. False) (\<lambda>_. False) w"
    by (rule wp_mono [OF wp_recoverable [OF assms(1) died_recoverable [OF assms(2,1)] assms(3,4), where b = False]]) auto
  from wp_Done [OF this] show ?thesis by auto
qed

text \<open>A first application that dies once its journal is written.\<close>

definition first_prepared :: Prepared where
  "first_prepared = \<lparr>pp_Raw = ''x'', pp_Declaration = None,
     pp_Result = demo_plan\<lparr>rs_PlanDigest := sha256_hex (Canonical (rs_Plan demo_plan)), rs_DeclarationDigest := DeclarationDigest ''x''\<rparr>, pp_Path = ''/w.toml''\<rparr>"

definition first_host :: app_host where
  "first_host = \<lparr>ah_view = demo_view, ah_base = ''/s'', ah_root = ''/s/w'', ah_workspace = ''/s/w/workspace'', ah_applied = ''/s/w/applied.toml'', ah_fs = demo_host,
     ah_wd = None, ah_source = (\<lambda>_. None), ah_runtime_dir = [], ah_endpoints = [], ah_inspect = (\<lambda>_ _. demo_evidence), ah_pid = id, ah_ready = (\<lambda>_ _. True),
     ah_tree = (\<lambda>_. demo_tree), ah_now = \<lparr>t_year = 2024, t_month = 1, t_day = 1, t_hour = 0, t_minute = 0, t_second = 0, t_nanos = 0, t_offset = 0\<rparr>, ah_abs = id\<rparr>"

definition first_world :: world where
  "first_world = \<lparr>wd_state = Missing, wd_applied = None, wd_plan = None, wd_transition = Missing, wd_digests = Map.empty, wd_history = Absent,
     wd_containers = Map.empty, wd_proxy = None, wd_strays = []\<rparr>"

definition first_script :: "event list" where
  "first_script = replicate 12 Proceed @ [Crash]"

lemma first_changes: "changes first_host first_prepared first_world q"
proof -
  have "wire_result (pp_Result first_prepared)"
    by (simp add: wire_result_def first_prepared_def DeclarationDigest_def demo_plan_def normal_result_def normal_plan_def appended_def plan_shapes plan_values
      lower_hex_utf8 ValidUTF8_ascii is_ascii_def TInt64_def VStrings_def)
  moreover have "validatePreparedIntegrity first_prepared"
    by (simp add: validatePreparedIntegrity_def first_prepared_def)
  moreover have "is_ok (prior_records Absent)" by (simp add: prior_records_def History.Verify_def VerifyContext_def background_def)
  ultimately show ?thesis
    by (simp add: changes_def settled_def prior_of_def first_world_def first_host_def demo_tree_valid)
qed

lemma first_death: "\<exists>es w. Up first_host first_prepared first_script first_world = (Crashed, es, w) \<and> wd_history w = Absent \<and> wd_strays w = [] \<and> wd_transition w \<noteq> Missing"
proof -
  have name: "operational (pl_Name (rs_Plan (pp_Result first_prepared)))"
    unfolding first_prepared_def demo_plan_def by (simp, code_simp)
  have lists: "elems (pl_Workspace (rs_Plan (pp_Result first_prepared))) = []" "elems (pl_Mounts (rs_Plan (pp_Result first_prepared))) = []"
    by (simp_all add: first_prepared_def demo_plan_def)
  have integrity: "validatePreparedIntegrity first_prepared" using first_changes [of undefined] by (simp add: changes_def)
  have arguments: "is_ok (mount_arguments [])" by simp
  have tree: "ValidateDigestTree (ah_tree first_host m)" for m by (simp add: first_host_def demo_tree_valid)
  have script: "first_script = [Proceed, Proceed, Proceed, Proceed, Proceed, Proceed, Proceed, Proceed, Proceed, Proceed, Proceed, Proceed, Crash]"
    by (simp add: first_script_def eval_nat_numeral)
  note programs = bnd_def step_def look_def peek_def ret_def demand_def script_head_def on_failure_def on_error_def recording_def
  show ?thesis
    by (simp add: Up_def programs script name integrity recoverTransition_def ReadTransition_def observe_prior_def ReadState_def replace_prior_def check_mounts_def app_mounts_def
      lists backend_Create_def Let_def arguments replace_generation_def stage_materialize_def WriteTransition_def stage_cutover_def first_world_def
      transition_writable_def transition_ok_def rollback_journal_def no_tree_def tree)
qed

theorem crash_safe_witness:
  "\<exists>w. died first_host first_prepared first_world w \<and> wd_transition w \<noteq> Missing
     \<and> (\<exists>es w'. recoverTransition first_host [] w = (Done (), es, w')
          \<and> (kept first_prepared first_world first_prepared w' \<or> applied first_host first_prepared first_world w'))"
proof -
  obtain es w where w: "Up first_host first_prepared first_script first_world = (Crashed, es, w)" "wd_history w = Absent" "wd_strays w = []" "wd_transition w \<noteq> Missing"
    using first_death by blast
  have died: "died first_host first_prepared first_world w" using w(1) by (rule applying [rotated]) (simp add: first_script_def eval_nat_numeral)
  have "is_ok (prior_records (wd_history w))" unfolding w(2) by (simp add: prior_records_def History.Verify_def VerifyContext_def background_def)
  from crash_safe [OF first_changes died this w(3)] show ?thesis using died w(4) by blast
qed

end
