(* ===== verification/World_Wedged.thy ===== *)
theory World_Wedged
  imports World_Up
begin

text \<open>
  What happens to a world whose commit is journalled when its history does not verify, as after a death in the middle of an append:
  reasoning over every script of the host, failures included.
\<close>

section \<open>Programs that keep a fact\<close>

definition stays :: "(world \<Rightarrow> bool) \<Rightarrow> 'a prog \<Rightarrow> ('a \<Rightarrow> bool) \<Rightarrow> bool" where
  "stays P f Q = (\<forall>es w r es' w'. P w \<longrightarrow> f es w = (r, es', w') \<longrightarrow> P w' \<and> (\<forall>x. r = Done x \<longrightarrow> Q x))"

lemma stays_ret: "Q x \<Longrightarrow> stays P (ret x) Q"
  by (simp add: stays_def ret_def)

lemma stays_refuse: "stays P (refuse e) Q"
  by (simp add: stays_def refuse_def)

lemma stays_demand: "(c \<Longrightarrow> Q ()) \<Longrightarrow> stays P (demand c e) Q"
  by (simp add: demand_def stays_ret stays_refuse)

lemma staysD: "stays P f Q \<Longrightarrow> P w \<Longrightarrow> f es w = (r, es', w') \<Longrightarrow> P w' \<and> (\<forall>x. r = Done x \<longrightarrow> Q x)"
  by (simp add: stays_def)

lemma stays_bnd:
  assumes "stays P f Q" and "\<And>x. Q x \<Longrightarrow> stays P (g x) R"
  shows "stays P (bnd f g) R"
  unfolding stays_def
proof (intro allI impI)
  fix es w r es' w' assume w: "P w" and r: "bnd f g es w = (r, es', w')"
  obtain r1 es1 w1 where f: "f es w = (r1, es1, w1)" by (cases "f es w") auto
  note first = staysD [OF assms(1) w f]
  show "P w' \<and> (\<forall>x. r = Done x \<longrightarrow> R x)"
  proof (cases r1)
    case (Done x)
    then show ?thesis using first r f staysD [OF assms(2), of x w1 es1 r es' w'] by (simp add: bnd_def)
  qed (use first r f in \<open>auto simp: bnd_def\<close>)
qed

lemma stays_seq: "stays P f (\<lambda>_. True) \<Longrightarrow> (\<And>x. stays P (g x) R) \<Longrightarrow> stays P (bnd f g) R"
  by (rule stays_bnd)

lemma stays_step: "(\<And>w. P w \<Longrightarrow> P (effect w)) \<Longrightarrow> Q () \<Longrightarrow> stays P (step what effect) Q"
  by (auto simp: stays_def step_def split: event.splits)

lemma stays_look: "(\<And>w. P w \<Longrightarrow> Q (f w)) \<Longrightarrow> stays P (look what f) Q"
  by (auto simp: stays_def look_def split: event.splits)

lemma stays_peek: "(\<And>w. P w \<Longrightarrow> Q (f w)) \<Longrightarrow> stays P (peek f) Q"
  by (auto simp: stays_def peek_def)

lemma stays_attempt: "stays P f Q' \<Longrightarrow> (\<And>e. Q e) \<Longrightarrow> stays P (attempt f) Q"
  by (auto simp: stays_def attempt_def split: prod.splits outcome.splits)

lemma stays_on_failure:
  assumes "stays P f Q" and "stays P undo (\<lambda>_. True)"
  shows "stays P (on_failure undo f) Q"
  unfolding stays_def
proof (intro allI impI)
  fix es w r es' w' assume w: "P w" and r: "on_failure undo f es w = (r, es', w')"
  obtain r1 es1 w1 where f: "f es w = (r1, es1, w1)" by (cases "f es w") auto
  note first = staysD [OF assms(1) w f]
  show "P w' \<and> (\<forall>x. r = Done x \<longrightarrow> Q x)"
  proof (cases r1)
    case (Failed e)
    obtain r2 es2 w2 where u: "undo es1 w1 = (r2, es2, w2)" by (cases "undo es1 w1") auto
    show ?thesis using first r f u Failed staysD [OF assms(2) _ u] by (cases r2) (auto simp: on_failure_def on_error_def bnd_def)
  qed (use first r f in \<open>auto simp: on_failure_def on_error_def\<close>)
qed

lemma stays_for_all: "(\<And>x. stays P (f x) (\<lambda>_. True)) \<Longrightarrow> stays P (for_all f xs) (\<lambda>_. True)"
  by (induction xs) (auto intro: stays_ret stays_bnd)

lemma stays_mono: "stays P f Q \<Longrightarrow> (\<And>x. Q x \<Longrightarrow> Q' x) \<Longrightarrow> stays P f Q'"
  by (fastforce simp: stays_def)

lemma stays_if: "(c \<Longrightarrow> stays P f Q) \<Longrightarrow> (\<not> c \<Longrightarrow> stays P g Q) \<Longrightarrow> stays P (if c then f else g) Q"
  by simp

section \<open>A journalled commit without a history\<close>

definition reproxied :: "int \<Rightarrow> Transition \<Rightarrow> Transition" where
  "reproxied pid t = t\<lparr>tr_Successor := (tr_Successor t)\<lparr>ws_ProxyPID := pid\<rparr>\<rparr>"

text \<open>The journal \<open>t\<close>, up to the identity of the proxy, and the history \<open>h\<close>.\<close>

definition wedged :: "hfile \<Rightarrow> Transition \<Rightarrow> world \<Rightarrow> bool" where
  "wedged h t w = (wd_history w = h \<and> \<not> is_ok (prior_records h) \<and> tr_Phase t = ''commit'' \<and> (\<exists>pid. wd_transition w = Holds (reproxied pid t)))"

lemma reproxied_simps [simp]: "reproxied pid (reproxied pid' t) = reproxied pid t" "tr_Phase (reproxied pid t) = tr_Phase t"
  "(reproxied pid' t)\<lparr>tr_Successor := (tr_Successor (reproxied pid' t))\<lparr>ws_ProxyPID := pid\<rparr>\<rparr> = reproxied pid t"
  by (simp_all add: reproxied_def)

lemma wedged_updates [simp]:
  "wedged h t (w\<lparr>wd_proxy := a\<rparr>) = wedged h t w" "wedged h t (w\<lparr>wd_containers := b\<rparr>) = wedged h t w" "wedged h t (w\<lparr>wd_state := c\<rparr>) = wedged h t w"
  "wedged h t (w\<lparr>wd_applied := d\<rparr>) = wedged h t w" "wedged h t (w\<lparr>wd_plan := e\<rparr>) = wedged h t w" "wedged h t (w\<lparr>wd_digests := f\<rparr>) = wedged h t w"
  "wedged h t (w\<lparr>wd_strays := x\<rparr>) = wedged h t w" "wedged h t (set_running g n w) = wedged h t w"
  "wedged h t w \<Longrightarrow> wedged h t (w\<lparr>wd_transition := Holds (reproxied pid t)\<rparr>)"
  by (auto simp: wedged_def set_running_def)

lemma wedged_history: "stays (wedged h t) (append_history a r) (\<lambda>_. False)" "stays (wedged h t) (append_history_once a r) (\<lambda>_. False)"
  unfolding append_history_def append_history_once_def
  by (rule stays_bnd, rule stays_look [where Q = "\<lambda>r. \<exists>e. r = Inl e"];
      force simp: wedged_def is_ok_def intro: stays_refuse split: sum.splits)+

lemma wedged_ops:
  "stays (wedged h t) (backend_Exists n) (\<lambda>_. True)" "stays (wedged h t) (backend_Inspect a n) (\<lambda>_. True)" "stays (wedged h t) (backend_Start n) (\<lambda>_. True)"
  "stays (wedged h t) (backend_Stop n) (\<lambda>_. True)" "stays (wedged h t) (backend_Destroy n) (\<lambda>_. True)" "stays (wedged h t) stopProxy (\<lambda>_. True)"
  "stays (wedged h t) (startProxy a g al) (\<lambda>_. True)" "stays (wedged h t) (startServices r) (\<lambda>_. True)" "stays (wedged h t) (check_mounts a r) (\<lambda>_. True)"
  "stays (wedged h t) (WriteState s) (\<lambda>_. True)" "stays (wedged h t) (WriteApplied b) (\<lambda>_. True)" "stays (wedged h t) (WriteAppliedPlan b) (\<lambda>_. True)"
  "stays (wedged h t) (WriteDigest g tree) (\<lambda>_. True)" "stays (wedged h t) (WriteTransition (reproxied pid t)) (\<lambda>_. True)"
  by (auto simp: backend_Exists_def backend_Inspect_def backend_Start_def backend_Stop_def backend_Destroy_def present_def stopProxy_def startProxy_def abortProxyStart_def Let_def
      startServices_def check_mounts_def WriteState_def WriteApplied_def WriteAppliedPlan_def WriteDigest_def WriteTransition_def split: option.splits
      intro!: stays_seq stays_for_all stays_look stays_peek stays_on_failure stays_step stays_demand stays_attempt [where Q' = "\<lambda>_. True"] stays_ret stays_refuse)

lemma wedged_ReadTransition: "stays (wedged h t) ReadTransition (\<lambda>r. tr_Phase t = ''commit'' \<and> (\<exists>pid. r = Some (reproxied pid t)))"
  unfolding ReadTransition_def
  by (rule stays_bnd, rule stays_look [where Q = "\<lambda>f. tr_Phase t = ''commit'' \<and> (\<exists>pid. f = Holds (reproxied pid t))"]) (auto simp: wedged_def intro!: stays_ret stays_refuse)

lemma wedged_commit_door: "stays (wedged h t) (commit_door a (reproxied pid t) r restarted) (\<lambda>_. True)"
  by (auto simp: commit_door_def Let_def intro!: stays_seq stays_peek stays_ret wedged_ops)

lemma wedged_commit_files: "stays (wedged h t) (commit_files a t') (\<lambda>_. False)"
  unfolding commit_files_def Let_def
  by (rule stays_seq [OF wedged_ops(13)], rule stays_seq [OF wedged_ops(11)], rule stays_seq [OF wedged_ops(12)], rule stays_seq [OF wedged_ops(10)],
      rule stays_bnd [OF wedged_history(2)]) simp

lemma wedged_commit: "stays (wedged h t) (commitTransition a (reproxied pid t)) (\<lambda>_. False)"
  unfolding commitTransition_def commit_serve_def Let_def
  by (auto split: option.splits intro!: stays_seq stays_demand stays_refuse stays_ret wedged_ops wedged_commit_door wedged_commit_files)

lemma wedged_recover: "stays (wedged h t) (recoverTransition a) (\<lambda>_. False)"
  unfolding recoverTransition_def by (rule stays_bnd [OF wedged_ReadTransition]) (auto intro: wedged_commit)

lemma wedged_destroyRuntime: "stays (wedged h t) destroyRuntime (\<lambda>_. True)"
  unfolding destroyRuntime_def
  by (rule stays_bnd [OF wedged_ReadTransition])
    (auto simp: Let_def destroy_container_def split: prod.splits intro!: stays_seq stays_for_all stays_ret wedged_ops)

lemma stays_id: "stays P (step what id) (\<lambda>_. True)"
  by (rule stays_step) simp_all

text \<open>
  C9: When the commit of a change is journalled and the history does not verify, as after a death in the middle of the append of the commit, no command
  gets the world out: applying, going down, destroying and repairing the history all fail, whatever the host does. Afterwards the history is
  unchanged and the journal is the same commit, except that recovery may have written the identity of a new proxy into it, so the
  next command fails as well. (The message of the repair tells to run up, down or destroy first.)
\<close>

theorem wedged_for_good:
  assumes "wd_transition w = Holds t" and "tr_Phase t = ''commit''" and "\<not> is_ok (prior_records (wd_history w))"
    and "command \<in> {Up a p, Down a name, destroy_world a name, RepairHistory a name}" and "command es w = (r, es', w')"
  shows "r \<noteq> Done () \<and> wd_history w' = wd_history w \<and> (\<exists>pid. wd_transition w' = Holds (t\<lparr>tr_Successor := (tr_Successor t)\<lparr>ws_ProxyPID := pid\<rparr>\<rparr>))"
proof -
  let ?h = "wd_history w"
  have "t = reproxied (ws_ProxyPID (tr_Successor t)) t" by (simp add: reproxied_def)
  then have w: "wedged ?h t w" using assms(1-3) unfolding wedged_def by metis
  have "stays (wedged ?h t) (Up a p) (\<lambda>_. False)"
    unfolding Up_def
    by (rule stays_seq, rule stays_demand, simp, rule stays_seq, rule stays_demand, simp, intro stays_seq [OF stays_id], rule stays_bnd [OF wedged_recover]) simp
  moreover have "stays (wedged ?h t) (Down a name) (\<lambda>_. False)"
    unfolding Down_def
    by (rule stays_seq, rule stays_demand, simp, intro stays_seq [OF stays_id], rule stays_bnd [OF wedged_recover]) simp
  moreover have "stays (wedged ?h t) (destroy_world a name) (\<lambda>_. False)"
    unfolding destroy_world_def
    by (rule stays_seq, rule stays_demand, simp, intro stays_seq [OF stays_id], rule stays_seq [OF wedged_destroyRuntime])
      (auto split: prod.splits intro: wedged_history)
  moreover have "stays (wedged ?h t) (RepairHistory a name) (\<lambda>_. False)"
    unfolding RepairHistory_def requireSettledTransition_def
    by (rule stays_seq, rule stays_demand, simp, rule stays_seq [OF stays_id], rule stays_bnd [where Q = "\<lambda>_. False"],
        rule stays_bnd [OF wedged_ReadTransition]) (auto intro: stays_demand)
  ultimately have "stays (wedged ?h t) command (\<lambda>_. False)" using assms(4) by blast
  from staysD [OF this w assms(5)] show ?thesis by (auto simp: wedged_def reproxied_def)
qed

definition torn_journal :: Transition where
  "torn_journal = commit_journal (rollback_journal first_host first_prepared (known_prior first_world first_prepared) 1 ''c'') first_prepared 0 demo_tree"

definition torn_world :: world where
  "torn_world = first_world\<lparr>wd_transition := Holds torn_journal, wd_history := Content ''{''\<rparr>"

lemma torn_facts: "wd_transition torn_world = Holds torn_journal" "tr_Phase torn_journal = ''commit''" "\<not> is_ok (prior_records (wd_history torn_world))"
proof -
  have "\<not> is_ok (prior_records (Content ''{''))" by code_simp
  then show "\<not> is_ok (prior_records (wd_history torn_world))" by (simp add: torn_world_def)
qed (simp_all add: torn_world_def torn_journal_def)

theorem wedged_for_good_witness:
  "wd_transition torn_world = Holds torn_journal
   \<and> (\<exists>r es w. destroy_world first_host ''w'' [] torn_world = (r, es, w) \<and> r \<noteq> Done () \<and> wd_history w = wd_history torn_world)"
proof -
  obtain r es w where run: "destroy_world first_host ''w'' [] torn_world = (r, es, w)" by (cases "destroy_world first_host ''w'' [] torn_world") auto
  have "destroy_world first_host ''w'' \<in> {Up first_host first_prepared, Down first_host ''w'', destroy_world first_host ''w'', RepairHistory first_host ''w''}"
    by simp
  from wedged_for_good [where command = "destroy_world first_host ''w''", OF torn_facts this run] show ?thesis using torn_facts(1) run by blast
qed

end
