(* ===== verification/Spec2Isabelle.thy ===== *)
theory Spec2Isabelle
  imports Jobenv History_Properties Proxy_Properties Job_Properties Joblifecycle_Properties World_Wedged
begin

text \<open>
  Kenogram runs isolated worlds that are described by declarations, lets them reach exactly the network
  destinations the declaration names, records what happened in a hash-chained history, and runs
  governed jobs whose evidence can be verified later without the host. This development models the parts of the
  program that decide something and proves what they promise.

  \<^bold>\<open>Foundations.\<close> \<open>Kenogram_Prelude\<close> holds results of fallible functions, Go strings as byte lists, polls of a
  context, and the interfaces as locales: \<open>codec\<close>, \<open>canonical_codec\<close> and \<open>state_invariant\<close>. What the
  sources use of Go's standard library is modelled in \<open>Go_Bytes\<close> (UTF-8, decimal and hexadecimal texts,
  \<^verbatim>\<open>strings\<close>), \<open>Go_Path\<close> and \<open>Go_Path_Utf8\<close> (\<^verbatim>\<open>path/filepath\<close> on Unix), \<open>Go_Net\<close> (host and port texts, loopback
  addresses), \<open>Go_Scan\<close> (\<^verbatim>\<open>bufio.Scanner\<close> by lines), \<open>Go_Time\<close> (RFC 3339 texts), \<open>Go_Crypto\<close> (SHA-256 and HMAC
  as in the standards), \<open>Go_Json\<close>, \<open>Go_Json_Facts\<close>, \<open>Go_Json_Valid\<close>, \<open>Go_Struct\<close>, \<open>Go_Document\<close> and
  \<open>Go_Indent\<close>, \<open>Go_Size\<close> and \<open>Go_Torn\<close> (\<^verbatim>\<open>encoding/json\<close>: the grammar, the escapes, structs with their tags, letter case folding of
  member names, indentation, sizes and truncated documents; the reader is proved to invert both writers). The fuel of \<open>json_value\<close> is twice the length of the
  input plus one, and \<open>json_fuel_bound\<close> shows that this is enough for every document the writers produce.

  \<^bold>\<open>Components.\<close>
  \<^item> \<open>Naming\<close>: \<^verbatim>\<open>internal/naming\<close> and \<^verbatim>\<open>internal/mountpath\<close>; identifiers, host names, containment of joined paths.
  \<^item> \<open>Decl\<close>, \<open>Decl_Parse\<close>, \<open>Decl_Parse_Facts\<close>: \<^verbatim>\<open>internal/decl\<close>; the TOML subset, decoding, and validation with
    and without the host. \<open>wf_declaration\<close> is the abstract contract that the loops of \<^verbatim>\<open>validate\<close> decide.
  \<^item> \<open>Plan_Types\<close>, \<open>Plan_Build\<close>, \<open>Plan_Properties\<close>: \<^verbatim>\<open>internal/plan\<close>; building a plan on a host, redaction, the
    documents and the text that leave the program, and the projection by which a retained plan is derived
    again from the declaration.
  \<^item> \<open>Jobenv\<close>: \<^verbatim>\<open>internal/jobenv\<close>; the launch document, a canonical codec.
  \<^item> \<open>Diagnostics\<close>, \<open>Proxy\<close>, \<open>Proxy_System\<close>, \<open>Proxy_Safety\<close>, \<open>Proxy_Properties\<close>: \<^verbatim>\<open>internal/proxy\<close>; the policy
    tables, every handler split at the points where the code releases its lock, and all interleavings of handlers,
    timers and control requests as the transition function \<open>apply_event\<close> with its reachable states.
  \<^item> \<open>History\<close>, \<open>History_Properties\<close>: \<^verbatim>\<open>internal/history\<close>; appending with host faults, verification from the
    bytes of the file, repair.
  \<^item> \<open>Jobcontract_Types\<close>, \<open>Jobcontract\<close>, \<open>Jobcontract_Decode\<close>, \<open>Jobcontract_Properties\<close>, \<open>Jobcontract_Size\<close>:
    \<^verbatim>\<open>internal/jobcontract\<close>; the documents of governed jobs, their strict reading and their validation, and that valid
    results fit the limit of their reader.
  \<^item> \<open>Job_Evidence\<close>, \<open>Job_Verify\<close>, \<open>Job_Run\<close>: \<^verbatim>\<open>internal/job\<close>; the writer of the evidence directory with a host that may refuse
    any file, offline verification from the nodes of the directory, and one run of the executor with every outcome of the runtime calls.
    \<open>Job_Paths\<close>, \<open>Job_Seal\<close> and \<open>Job_Writer\<close> relate the writer to the manifest, \<open>Job_Stages\<close>, \<open>Job_Status\<close>, \<open>Job_Live\<close> follow a run from stage
    to stage, \<open>Job_Documents\<close>, \<open>Job_Accept\<close>, \<open>Job_Verified\<close> relate what is written to what verification demands; \<open>Job_Demo\<close> is a
    concrete run and \<open>Job_Properties\<close> has the theorems about whole runs.
  \<^item> \<open>Joblifecycle\<close>, \<open>Joblifecycle_Properties\<close>: \<^verbatim>\<open>internal/joblifecycle\<close>; the authenticated record of a target and the prepared file it is
    written into.
  \<^item> \<open>Backend\<close>: the parts of \<^verbatim>\<open>internal/backend\<close> that decide: the command line that creates a container, the texts of \<^verbatim>\<open>/proc\<close>, and the
    verification of what the runtime reports.
  \<^item> \<open>Worldfs\<close>: \<^verbatim>\<open>internal/worldfs\<close>; digest trees, the state of a world and the journal of a change.
  \<^item> \<open>World\<close>: \<^verbatim>\<open>internal/app/app.go\<close>; applying, adopting, recovering, going down, destroying and repairing as programs over the durable
    files, containers and proxy of one world. A script of the host lets each call proceed, fail before or after its
    effect, or not return because the process dies. \<open>World_Wp\<close> has the rules for such programs, \<open>World_Recovery\<close> the recovery
    from each situation, \<open>World_Up\<close> the stages of a change and the theorem on deaths, \<open>World_Wedged\<close> the situation that no command leaves.

  \<^bold>\<open>Correspondence.\<close> A struct is a record whose field names carry a prefix; the types with JSON tags also have
  a shape and conversions to the values that the JSON model writes and fills. A Go function keeps its name,
  with a prefix where two packages share one. Errors are constructors of a datatype per component; their texts are
  kept only where they matter. Slices whose nil and empty forms differ in JSON are option lists. Signed 64-bit
  integers are \<^typ>\<open>int\<close> with their range as part of the shapes, counters of the diagnostics buffer that may wrap are
  words. Host services (file metadata, symbolic link evaluation, the resolver, the clock, writers that may fail) are
  arguments.

  \<^bold>\<open>What is shown.\<close> Each component has its contract as an equivalence or an invariant (validation of declarations and
  of job requests, the steps of the proxy, bounded connections and diagnostics), its round trips
  (launch documents, lifecycle records, requests, results, plans, appended histories), its behaviour under faults and interleavings (histories
  with entries that their reader accepts survive every interrupted append, a removed destination is unreachable in every schedule without a repeated grant, a change
  of a world survives the death of its process at every call but the append of the history and the launch of a proxy), and what leaves the program (the JSON
  document of a plan does not depend on the digests of its secrets). The executor and the verifier are composed: on a host that stores what is written and with a
  runtime and documents within the limits that the theorem names, the evidence of a sealed run is accepted; what is accepted fixes the
  files and describes a contained execution. The conditions that a theorem needs are in the text before it.

  \<^bold>\<open>Fuel.\<close> \<open>json_value\<close> has the fuel stated above; \<open>climb\<close>, the loop over the parents of an evidence path, has the length of the path,
  and \<open>parents_complete\<close> shows that every directory is visited.

  \<^bold>\<open>Not modelled.\<close> The runtime of governed jobs (\<^verbatim>\<open>internal/jobpodman\<close>), network namespaces, the doctor, lock files, the walks over source
  and workspace trees (\<^verbatim>\<open>internal/sourcetree\<close>, \<^verbatim>\<open>internal/worldfs/digest_walk_linux.go\<close>, \<^verbatim>\<open>internal/app/workspace_inspection.go\<close>)
  are sequences of operating system and podman calls whose effects the sources do not determine; they enter as host
  parameters. Of \<^verbatim>\<open>internal/app\<close> the reviewed comparison before an up, the copying of files into a container, the polling of services,
  connections, status and listing are left out; an atomic write is one step, and whether a started proxy answers is a parameter of the host. In \<^verbatim>\<open>internal/job\<close> the removal of partly written
  artifacts, whose error the code ignores, succeeds, and the walk over the inventory lists the nodes below the directory; in \<^verbatim>\<open>internal/history\<close> the steps on the temporary
  file of a repair are one outcome. The command line (\<^verbatim>\<open>cmd/kenogram\<close>) parses flags and prints, the rendering of plan
  differences and release provenance likewise. Sockets, byte relaying and log output of the proxy are left out, as is the Darwin
  variant of canonical paths.
\<close>

end
